(* ===== verification/Prelude.thy ===== *)
theory Prelude
  imports Main "HOL-Library.AList" "HOL-Library.Sublist"
begin

text \<open>
  Shared vocabulary of the development: what the TypeScript sources use of the language and of its
  standard library (strings, arrays, \<open>Map\<close>), with the lemmas and collections the component
  theories rely on.

  Strings are lists of UTF-16 code units; the model keeps the units below 256, one \<^typ>\<open>char\<close>
  each.  A \<open>Map\<close> is an association list in insertion order: \<open>set\<close> is
  \<^const>\<open>AList.update\<close> (an existing key keeps its position), \<open>get\<close> is \<^const>\<open>map_of\<close>,
  \<open>delete\<close> is \<^const>\<open>AList.delete\<close>.
\<close>

named_theorems inv_intros \<open>operations that keep an invariant\<close>
named_theorems frame_simps \<open>fields an operation does not change\<close>

type_synonym ('k, 'v) jsmap = "('k \<times> 'v) list"

abbreviation map_set :: "'k \<Rightarrow> 'v \<Rightarrow> ('k, 'v) jsmap \<Rightarrow> ('k, 'v) jsmap" where
  "map_set \<equiv> AList.update"

abbreviation map_get :: "('k, 'v) jsmap \<Rightarrow> 'k \<Rightarrow> 'v option" where
  "map_get \<equiv> map_of"

abbreviation map_delete :: "'k \<Rightarrow> ('k, 'v) jsmap \<Rightarrow> ('k, 'v) jsmap" where
  "map_delete \<equiv> AList.delete"

abbreviation map_keys :: "('k, 'v) jsmap \<Rightarrow> 'k list" where
  "map_keys \<equiv> map fst"

definition map_wf :: "('k, 'v) jsmap \<Rightarrow> bool" where
  "map_wf m \<longleftrightarrow> distinct (map_keys m)"

lemma map_wf_Nil [simp, intro]: "map_wf []"
  by (simp add: map_wf_def)

lemma map_wf_set [simp, intro]: "map_wf m \<Longrightarrow> map_wf (map_set k v m)"
  by (simp add: map_wf_def distinct_update)

lemma map_wf_delete [simp, intro]: "map_wf m \<Longrightarrow> map_wf (map_delete k m)"
  by (simp add: map_wf_def distinct_delete)

lemma map_get_set [simp]: "map_get (map_set k v m) k' = (if k' = k then Some v else map_get m k')"
  by (simp add: update_conv')

lemma map_get_delete [simp]: "map_get (map_delete k m) k' = (if k' = k then None else map_get m k')"
  by (simp add: delete_conv')

lemma map_get_in_set: "map_wf m \<Longrightarrow> (k, v) \<in> set m \<longleftrightarrow> map_get m k = Some v"
  by (simp add: map_wf_def)

lemma map_get_None_keys: "map_get m k = None \<longleftrightarrow> k \<notin> set (map_keys m)"
  by (simp add: map_of_eq_None_iff)

subsection \<open>Strings\<close>

definition is_ws :: "char \<Rightarrow> bool" where
  "is_ws c \<longleftrightarrow> of_char c \<in> {9, 10, 11, 12, 13, 32, 160 :: nat}"

definition trim_start :: "string \<Rightarrow> string" where
  "trim_start s = dropWhile is_ws s"

definition trim_end :: "string \<Rightarrow> string" where
  "trim_end s = rev (dropWhile is_ws (rev s))"

definition trim :: "string \<Rightarrow> string" where
  "trim s = trim_end (trim_start s)"

text \<open>\<open>s.split(c)\<close> for a one-unit separator, and \<open>xs.join(sep)\<close>.\<close>

fun split_on :: "'a \<Rightarrow> 'a list \<Rightarrow> 'a list list" where
  "split_on c [] = [[]]"
| "split_on c (x # xs) =
     (if x = c then [] # split_on c xs
      else case split_on c xs of [] \<Rightarrow> [[x]] | w # ws \<Rightarrow> (x # w) # ws)"

fun join :: "'a list \<Rightarrow> 'a list list \<Rightarrow> 'a list" where
  "join sep [] = []"
| "join sep [w] = w"
| "join sep (w # ws) = w @ sep @ join sep ws"

abbreviation starts_with :: "string \<Rightarrow> string \<Rightarrow> bool" where
  "starts_with s p \<equiv> prefix p s"

abbreviation ends_with :: "string \<Rightarrow> string \<Rightarrow> bool" where
  "ends_with s p \<equiv> suffix p s"

abbreviation str_includes :: "string \<Rightarrow> string \<Rightarrow> bool" where
  "str_includes s p \<equiv> sublist p s"

text \<open>\<open>xs.slice(-n)\<close>: for \<open>n = 0\<close> this is \<open>xs.slice(-0)\<close>, the whole array.\<close>

definition slice_last :: "nat \<Rightarrow> 'a list \<Rightarrow> 'a list" where
  "slice_last n xs = (if n = 0 then xs else drop (length xs - n) xs)"

text \<open>UTF-8 bytes of a code unit below 256 and of a string (\<open>getByteSize\<close> of \<open>utils/byte_size.ts\<close>).\<close>

definition char_bytes :: "char \<Rightarrow> nat" where
  "char_bytes c = (if of_char c < (128 :: nat) then 1 else 2)"

definition byte_size :: "string \<Rightarrow> nat" where
  "byte_size s = sum_list (map char_bytes s)"

definition char_lower :: "char \<Rightarrow> char" where
  "char_lower c =
     (let n = of_char c :: nat in
      if 65 \<le> n \<and> n \<le> 90 \<or> 192 \<le> n \<and> n \<le> 222 \<and> n \<noteq> 215 then char_of (n + 32) else c)"

definition to_lower :: "string \<Rightarrow> string" where
  "to_lower = map char_lower"

abbreviation newline :: char where
  "newline \<equiv> CHR 0x0A"

lemma split_on_nonempty [simp]: "split_on c s \<noteq> []"
  by (cases s) (auto split: list.splits)

lemma join_Cons: "ws \<noteq> [] \<Longrightarrow> join sep (w # ws) = w @ sep @ join sep ws"
  by (cases ws) auto

lemma join_split_on [simp]: "join [c] (split_on c s) = s"
proof (induction s)
  case Nil
  then show ?case by simp
next
  case (Cons x xs)
  show ?case
  proof (cases "x = c")
    case True
    with Cons.IH show ?thesis by (simp add: join_Cons)
  next
    case False
    obtain w ws where w: "split_on c xs = w # ws"
      using split_on_nonempty [of c xs] by (cases "split_on c xs") auto
    with False Cons.IH show ?thesis by (cases ws) auto
  qed
qed

lemma split_on_no_sep: "w \<in> set (split_on c s) \<Longrightarrow> c \<notin> set w"
  by (induction s arbitrary: w) (auto split: if_splits list.splits)

lemma split_on_single: "c \<notin> set w \<Longrightarrow> split_on c w = [w]"
  by (induction w) auto

lemma split_on_append: "c \<notin> set w \<Longrightarrow> split_on c (w @ c # s) = w # split_on c s"
  by (induction w) auto

lemma split_on_join:
  assumes "ws \<noteq> []" and "\<And>w. w \<in> set ws \<Longrightarrow> c \<notin> set w"
  shows "split_on c (join [c] ws) = ws"
  using assms
proof (induction ws)
  case Nil
  then show ?case by simp
next
  case (Cons w ws)
  then show ?case by (cases ws) (auto simp: split_on_single split_on_append)
qed

lemma split_on_append_word:
  "c \<notin> set w \<Longrightarrow>
   split_on c (s @ w) = butlast (split_on c s) @ [last (split_on c s) @ w]"
proof (induction s)
  case Nil
  then show ?case by (simp add: split_on_single)
next
  case (Cons x xs)
  obtain v vs where "split_on c xs = v # vs"
    using split_on_nonempty [of c xs] by (cases "split_on c xs") auto
  with Cons show ?case by (cases vs) auto
qed

lemma last_split_on: "c \<notin> set w \<Longrightarrow> last (split_on c (s @ w)) = last (split_on c s) @ w"
  by (simp add: split_on_append_word)

lemma butlast_split_on:
  "c \<notin> set w \<Longrightarrow> butlast (split_on c (s @ w)) = butlast (split_on c s)"
  by (simp add: split_on_append_word)

lemma byte_size_Nil [simp]: "byte_size [] = 0"
  by (simp add: byte_size_def)

lemma byte_size_append [simp]: "byte_size (s @ t) = byte_size s + byte_size t"
  by (simp add: byte_size_def)

lemma byte_size_Cons: "byte_size (c # s) = char_bytes c + byte_size s"
  by (simp add: byte_size_def)

lemma char_bytes_bounds: "1 \<le> char_bytes c" "char_bytes c \<le> 2"
  by (auto simp: char_bytes_def)

lemma byte_size_length: "length s \<le> byte_size s" "byte_size s \<le> 2 * length s"
  by (induction s) (auto simp: byte_size_Cons char_bytes_def)

lemma trim_start_Nil_iff: "trim_start s = [] \<longleftrightarrow> (\<forall>c \<in> set s. is_ws c)"
  by (auto simp: trim_start_def dropWhile_eq_Nil_conv)

lemma trim_Nil_iff: "trim s = [] \<longleftrightarrow> (\<forall>c \<in> set s. is_ws c)"
proof -
  have "trim s = [] \<longleftrightarrow> (\<forall>c \<in> set (dropWhile is_ws s). is_ws c)"
    by (auto simp: trim_def trim_end_def trim_start_def dropWhile_eq_Nil_conv)
  also have "\<dots> \<longleftrightarrow> (\<forall>c \<in> set s. is_ws c)"
    by (induction s) auto
  finally show ?thesis .
qed

subsection \<open>\<open>Set\<close>\<close>

text \<open>The language's sets remember the order of insertion: a list without repetitions.\<close>

definition set_add :: "'a \<Rightarrow> 'a list \<Rightarrow> 'a list" where
  "set_add x s = (if x \<in> set s then s else s @ [x])"

definition set_delete :: "'a \<Rightarrow> 'a list \<Rightarrow> 'a list" where
  "set_delete x s = filter (\<lambda>y. y \<noteq> x) s"

lemma set_set_add [simp]: "set (set_add x s) = insert x (set s)"
  by (auto simp: set_add_def)

lemma set_set_delete [simp]: "set (set_delete x s) = set s - {x}"
  by (auto simp: set_delete_def)

lemma distinct_set_ops [simp]:
  "distinct s \<Longrightarrow> distinct (set_add x s)" "distinct s \<Longrightarrow> distinct (set_delete x s)"
  by (auto simp: set_add_def set_delete_def)

lemma set_fold_add: "set (fold (\<lambda>l. set_add (f l)) ls s) = set s \<union> f ` set ls"
  by (induction ls arbitrary: s) auto

lemma set_fold_delete: "set (fold set_delete ls s) = set s - set ls"
  by (induction ls arbitrary: s) auto

subsection \<open>\<open>sort\<close>\<close>

text \<open>\<open>Array.prototype.sort\<close> is stable, so that for a consistent comparator its result is that of insertion.\<close>

primrec insert_by :: "('a \<Rightarrow> 'a \<Rightarrow> int) \<Rightarrow> 'a \<Rightarrow> 'a list \<Rightarrow> 'a list" where
  "insert_by cmp x [] = [x]"
| "insert_by cmp x (y # ys) = (if cmp x y > 0 then y # insert_by cmp x ys else x # y # ys)"

definition js_sort :: "('a \<Rightarrow> 'a \<Rightarrow> int) \<Rightarrow> 'a list \<Rightarrow> 'a list" where
  "js_sort cmp xs = foldr (insert_by cmp) xs []"

lemma js_sort_key: "js_sort (\<lambda>a b. f a - f b) xs = sort_key f xs"
proof -
  have "insert_by (\<lambda>a b. f a - f b) x ys = insort_key f x ys" for x ys
    by (induction ys) auto
  then have "insert_by (\<lambda>a b. f a - f b) = insort_key f" by (intro ext) simp
  then show ?thesis by (simp add: js_sort_def sort_key_def)
qed

lemma js_sort_true_first:
  "js_sort (\<lambda>a b. if e a = e b then 0 else if e a then - 1 else 1) xs = filter e xs @ filter (\<lambda>x. \<not> e x) xs"
proof -
  let ?c = "\<lambda>a b. if e a = e b then 0 else if e a then - 1 else (1 :: int)"
  have first: "insert_by ?c x (filter e xs @ filter (\<lambda>x. \<not> e x) xs) = x # filter e xs @ filter (\<lambda>x. \<not> e x) xs"
    if "e x" for x and xs
  proof (cases "filter e xs @ filter (\<lambda>x. \<not> e x) xs")
    case (Cons y ys)
    with that show ?thesis by simp
  qed simp
  have after: "insert_by ?c x (ys @ zs) = ys @ insert_by ?c x zs" if "\<not> e x" "\<forall>y \<in> set ys. e y" for x ys zs
    using that by (induction ys) auto
  have second: "insert_by ?c x (filter (\<lambda>x. \<not> e x) xs) = x # filter (\<lambda>x. \<not> e x) xs" if "\<not> e x" for x and xs
  proof (cases "filter (\<lambda>x. \<not> e x) xs")
    case (Cons y ys)
    then have "\<not> e y" by (auto simp: filter_eq_Cons_iff)
    with that Cons show ?thesis by simp
  qed simp
  show ?thesis
    by (induction xs) (auto simp: js_sort_def first after second)
qed

end
