(* ===== verification/Byte_Size.thy ===== *)
theory Byte_Size
  imports Prelude
begin

text \<open>
  Texts at their full width and their UTF-8 bytes (\<open>src/common/utils/byte_size.ts\<close>), with the parts of Node's
  \<open>Buffer\<close> the sources use: \<open>Buffer.from\<close> (a lone surrogate becomes U+FFFD), \<open>slice\<close> with a possibly negative
  end, and \<open>toString\<close>, which decodes UTF-8 and writes one U+FFFD for every maximal part that is not a
  character.  A text is the list of its UTF-16 code units: cutting bytes can create U+FFFD, which an 8-bit
  \<^typ>\<open>char\<close> cannot hold.
\<close>

type_synonym text16 = "nat list"

definition REPLACEMENT :: nat where "REPLACEMENT = 0xFFFD"

definition is_high :: "nat \<Rightarrow> bool" where "is_high u \<longleftrightarrow> 0xD800 \<le> u \<and> u < 0xDC00"

definition is_low :: "nat \<Rightarrow> bool" where "is_low u \<longleftrightarrow> 0xDC00 \<le> u \<and> u < 0xE000"

definition scalar :: "nat \<Rightarrow> bool" where
  "scalar c \<longleftrightarrow> c < 0xD800 \<or> 0xE000 \<le> c \<and> c < 0x110000"

definition text_ok :: "text16 \<Rightarrow> bool" where
  "text_ok s \<longleftrightarrow> (\<forall>u \<in> set s. u < 0x10000)"

subsection \<open>UTF-16\<close>

definition lone :: "nat \<Rightarrow> nat" where
  "lone u = (if is_high u \<or> is_low u then REPLACEMENT else u)"

fun scalars :: "text16 \<Rightarrow> nat list" where
  "scalars [] = []"
| "scalars [u] = [lone u]"
| "scalars (u # v # us) =
     (if is_high u \<and> is_low v
      then (0x10000 + (u - 0xD800) * 0x400 + (v - 0xDC00)) # scalars us
      else lone u # scalars (v # us))"

definition units_of :: "nat \<Rightarrow> text16" where
  "units_of c =
     (if c < 0x10000 then [c]
      else [0xD800 + (c - 0x10000) div 0x400, 0xDC00 + (c - 0x10000) mod 0x400])"

definition text_of :: "nat list \<Rightarrow> text16" where
  "text_of cs = concat (map units_of cs)"

subsection \<open>UTF-8\<close>

definition utf8_char :: "nat \<Rightarrow> nat list" where
  "utf8_char c =
     (if c < 0x80 then [c]
      else if c < 0x800 then [0xC0 + c div 0x40, 0x80 + c mod 0x40]
      else if c < 0x10000 then [0xE0 + c div 0x1000, 0x80 + c div 0x40 mod 0x40, 0x80 + c mod 0x40]
      else [0xF0 + c div 0x40000, 0x80 + c div 0x1000 mod 0x40, 0x80 + c div 0x40 mod 0x40, 0x80 + c mod 0x40])"

definition utf8 :: "nat list \<Rightarrow> nat list" where
  "utf8 cs = concat (map utf8_char cs)"

definition cont :: "nat \<Rightarrow> bool" where "cont b \<longleftrightarrow> 0x80 \<le> b \<and> b < 0xC0"

text \<open>The second byte of a three or four byte character.\<close>

definition second3 :: "nat \<Rightarrow> nat \<Rightarrow> bool" where
  "second3 b b1 \<longleftrightarrow> cont b1 \<and> (b = 0xE0 \<longrightarrow> 0xA0 \<le> b1) \<and> (b = 0xED \<longrightarrow> b1 < 0xA0)"

definition second4 :: "nat \<Rightarrow> nat \<Rightarrow> bool" where
  "second4 b b1 \<longleftrightarrow> cont b1 \<and> (b = 0xF0 \<longrightarrow> 0x90 \<le> b1) \<and> (b = 0xF4 \<longrightarrow> b1 < 0x90)"

text \<open>The first character of some bytes and what is left.\<close>

definition decode3 :: "nat \<Rightarrow> nat list \<Rightarrow> nat \<times> nat list" where
  "decode3 b bs =
     (case bs of
        [] \<Rightarrow> (REPLACEMENT, bs)
      | b1 # r1 \<Rightarrow>
          if \<not> second3 b b1 then (REPLACEMENT, bs)
          else (case r1 of
                  [] \<Rightarrow> (REPLACEMENT, r1)
                | b2 # r2 \<Rightarrow>
                    if \<not> cont b2 then (REPLACEMENT, r1)
                    else ((b - 0xE0) * 0x1000 + (b1 - 0x80) * 0x40 + (b2 - 0x80), r2)))"

definition decode4 :: "nat \<Rightarrow> nat list \<Rightarrow> nat \<times> nat list" where
  "decode4 b bs =
     (case bs of
        [] \<Rightarrow> (REPLACEMENT, bs)
      | b1 # r1 \<Rightarrow>
          if \<not> second4 b b1 then (REPLACEMENT, bs)
          else (case r1 of
                  [] \<Rightarrow> (REPLACEMENT, r1)
                | b2 # r2 \<Rightarrow>
                    if \<not> cont b2 then (REPLACEMENT, r1)
                    else (case r2 of
                            [] \<Rightarrow> (REPLACEMENT, r2)
                          | b3 # r3 \<Rightarrow>
                              if \<not> cont b3 then (REPLACEMENT, r2)
                              else ((b - 0xF0) * 0x40000 + (b1 - 0x80) * 0x1000 + (b2 - 0x80) * 0x40 + (b3 - 0x80), r3))))"

definition decode_char :: "nat \<Rightarrow> nat list \<Rightarrow> nat \<times> nat list" where
  "decode_char b bs =
     (if b < 0x80 then (b, bs)
      else if 0xC2 \<le> b \<and> b < 0xE0 then
        (case bs of
           [] \<Rightarrow> (REPLACEMENT, bs)
         | b1 # r1 \<Rightarrow> if \<not> cont b1 then (REPLACEMENT, bs) else ((b - 0xC0) * 0x40 + (b1 - 0x80), r1))
      else if 0xE0 \<le> b \<and> b < 0xF0 then decode3 b bs
      else if 0xF0 \<le> b \<and> b < 0xF5 then decode4 b bs
      else (REPLACEMENT, bs))"

lemma decode_char_shorter: "length (snd (decode_char b bs)) \<le> length bs"
  by (auto simp: decode_char_def decode3_def decode4_def split: list.splits if_splits)

function utf8_decode :: "nat list \<Rightarrow> nat list" where
  "utf8_decode [] = []"
| "utf8_decode (b # bs) = fst (decode_char b bs) # utf8_decode (snd (decode_char b bs))"
  by pat_completeness auto
termination
  by (relation "measure length") (auto intro: le_less_trans [OF decode_char_shorter])

subsection \<open>Buffer\<close>

definition buffer_from :: "text16 \<Rightarrow> nat list" where
  "buffer_from s = utf8 (scalars s)"

definition buffer_slice :: "nat list \<Rightarrow> int \<Rightarrow> nat list" where
  "buffer_slice bs n = (if 0 \<le> n then take (nat n) bs else take (length bs - nat (- n)) bs)"

definition buffer_toString :: "nat list \<Rightarrow> text16" where
  "buffer_toString bs = text_of (utf8_decode bs)"

definition getByteSize :: "text16 \<Rightarrow> nat" where
  "getByteSize s = length (buffer_from s)"

text \<open>White space of a regular expression.\<close>

definition ws_unit :: "nat \<Rightarrow> bool" where
  "ws_unit u \<longleftrightarrow> 9 \<le> u \<and> u \<le> 13 \<or> 0x2000 \<le> u \<and> u \<le> 0x200A \<or>
     u \<in> {32, 0xA0, 0x1680, 0x2028, 0x2029, 0x202F, 0x205F, 0x3000, 0xFEFF}"

text \<open>The text before its last run of white space; \<open>None\<close> when it has none.\<close>

definition before_last_ws :: "text16 \<Rightarrow> text16 option" where
  "before_last_ws s =
     (case dropWhile (\<lambda>u. \<not> ws_unit u) (rev s) of
        [] \<Rightarrow> None
      | r \<Rightarrow> Some (rev (dropWhile ws_unit r)))"

definition truncateToByteLimit :: "text16 \<Rightarrow> int \<Rightarrow> text16" where
  "truncateToByteLimit str byteLimit =
     (if int (getByteSize str) \<le> byteLimit then str
      else let truncated = buffer_toString (buffer_slice (buffer_from str) byteLimit)
           in case before_last_ws truncated of None \<Rightarrow> truncated | Some t \<Rightarrow> t)"

subsection \<open>Encoding and decoding\<close>

lemma scalar_lone: "u < 0x10000 \<Longrightarrow> scalar (lone u)"
  by (auto simp: scalar_def lone_def is_high_def is_low_def REPLACEMENT_def)

lemma scalar_pair: "is_high u \<Longrightarrow> is_low v \<Longrightarrow> scalar (0x10000 + (u - 0xD800) * 0x400 + (v - 0xDC00))"
  by (auto simp: scalar_def is_high_def is_low_def)

lemma scalars_scalar: "text_ok s \<Longrightarrow> \<forall>c \<in> set (scalars s). scalar c"
  by (induction s rule: scalars.induct) (auto simp: text_ok_def scalar_lone scalar_pair)

lemma utf8_simps [simp]:
  "utf8 [] = []" "utf8 (c # cs) = utf8_char c @ utf8 cs" "utf8 (xs @ ys) = utf8 xs @ utf8 ys"
  by (auto simp: utf8_def)

lemma text_of_simps [simp]:
  "text_of [] = []" "text_of (c # cs) = units_of c @ text_of cs" "text_of (xs @ ys) = text_of xs @ text_of ys"
  by (auto simp: text_of_def)

lemma utf8_char_length: "1 \<le> length (utf8_char c)" "length (utf8_char c) \<le> 4"
  by (auto simp: utf8_char_def)

lemma digits2: "(c::nat) div 0x40 * 0x40 + c mod 0x40 = c"
  by simp

lemma digits3: "(c::nat) div 0x1000 * 0x1000 + c div 0x40 mod 0x40 * 0x40 + c mod 0x40 = c"
proof -
  have "c div 0x40 div 0x40 = c div 0x1000"
    by (simp add: div_mult2_eq [symmetric])
  with digits2 [of "c div 0x40"] digits2 [of c] show ?thesis by linarith
qed

lemma digits4:
  "(c::nat) div 0x40000 * 0x40000 + c div 0x1000 mod 0x40 * 0x1000 + c div 0x40 mod 0x40 * 0x40 + c mod 0x40 = c"
proof -
  have "c div 0x1000 div 0x40 = c div 0x40000"
    by (simp add: div_mult2_eq [symmetric])
  with digits2 [of "c div 0x1000"] digits3 [of c] show ?thesis by linarith
qed

lemma mod64: "(c::nat) mod 0x40 < 0x40"
  by simp

lemma cont_digit [simp]: "cont (0x80 + c mod 0x40)"
  using mod64 [of c] unfolding cont_def by linarith

lemma second3_char:
  assumes "scalar c" and "0x800 \<le> c" and "c < 0x10000"
  shows "second3 (0xE0 + c div 0x1000) (0x80 + c div 0x40 mod 0x40)"
proof -
  define q r where "q = c div 0x1000" and "r = c div 0x40 mod 0x40"
  have "q * 0x1000 + r * 0x40 + c mod 0x40 = c" and "r < 0x40" and "c mod 0x40 < 0x40"
    using digits3 [of c] mod64 [of "c div 0x40"] mod64 [of c] unfolding q_def r_def by auto
  moreover from this assms have "q = 0 \<Longrightarrow> 0x20 \<le> r" "q = 0xD \<Longrightarrow> r < 0x20"
    unfolding scalar_def by linarith+
  ultimately show ?thesis unfolding second3_def cont_def q_def [symmetric] r_def [symmetric] by auto
qed

lemma second4_char:
  assumes "scalar c" and "0x10000 \<le> c"
  shows "second4 (0xF0 + c div 0x40000) (0x80 + c div 0x1000 mod 0x40)"
proof -
  define q r where "q = c div 0x40000" and "r = c div 0x1000 mod 0x40"
  have "q * 0x40000 + r * 0x1000 + c div 0x40 mod 0x40 * 0x40 + c mod 0x40 = c" and "r < 0x40"
    and "c mod 0x40 < 0x40" and "c div 0x40 mod 0x40 < 0x40"
    using digits4 [of c] mod64 [of "c div 0x1000"] mod64 [of c] mod64 [of "c div 0x40"]
    unfolding q_def r_def by auto
  moreover from this assms have "q = 0 \<Longrightarrow> 0x10 \<le> r" "q = 4 \<Longrightarrow> r < 0x10"
    unfolding scalar_def by linarith+
  ultimately show ?thesis unfolding second4_def cont_def q_def [symmetric] r_def [symmetric] by auto
qed

lemma decode_utf8_char:
  assumes "scalar c"
  obtains b bs where "utf8_char c = b # bs" and "\<And>rest. decode_char b (bs @ rest) = (c, rest)"
proof -
  consider "c < 0x80" | "0x80 \<le> c" "c < 0x800" | "0x800 \<le> c" "c < 0x10000" | "0x10000 \<le> c" "c < 0x110000"
    using assms unfolding scalar_def by linarith
  then show ?thesis
  proof cases
    case 1
    then show ?thesis by (intro that) (auto simp: utf8_char_def decode_char_def)
  next
    case 2
    then have "2 \<le> c div 0x40" "c div 0x40 < 0x20" by linarith+
    with 2 digits2 [of c] show ?thesis
      by (intro that [of "0xC0 + c div 0x40" "[0x80 + c mod 0x40]"])
        (auto simp: utf8_char_def decode_char_def)
  next
    case 3
    then have "c div 0x1000 < 0x10" by linarith
    with 3 digits3 [of c] second3_char [OF assms 3] show ?thesis
      by (intro that [of "0xE0 + c div 0x1000" "[0x80 + c div 0x40 mod 0x40, 0x80 + c mod 0x40]"])
        (auto simp: utf8_char_def decode_char_def decode3_def)
  next
    case 4
    then have "c div 0x40000 < 5" by linarith
    with 4 digits4 [of c] second4_char [OF assms 4(1)] show ?thesis
      by (intro that [of "0xF0 + c div 0x40000"
            "[0x80 + c div 0x1000 mod 0x40, 0x80 + c div 0x40 mod 0x40, 0x80 + c mod 0x40]"])
        (auto simp: utf8_char_def decode_char_def decode4_def)
  qed
qed

text \<open>A character whose bytes were cut off is one U+FFFD.\<close>

lemma decode_cut_char:
  assumes "scalar c" and "0 < n" and "n < length (utf8_char c)"
  obtains b bs where "take n (utf8_char c) = b # bs" and "decode_char b bs = (REPLACEMENT, [])"
proof -
  have big: "0x80 \<le> c"
    using assms(2, 3) by (simp add: utf8_char_def split: if_splits)
  consider "0x80 \<le> c" "c < 0x800" | "0x800 \<le> c" "c < 0x10000" | "0x10000 \<le> c" "c < 0x110000"
    using assms(1) big unfolding scalar_def by linarith
  then show ?thesis
  proof cases
    case 1
    then have "2 \<le> c div 0x40" "c div 0x40 < 0x20" and n: "n = 1"
      using assms by (auto simp: utf8_char_def)
    with 1 show ?thesis
      by (intro that [of "0xC0 + c div 0x40" "[]"]) (auto simp: utf8_char_def decode_char_def)
  next
    case 2
    then have "c div 0x1000 < 0x10" and n: "n = 1 \<or> n = 2"
      using assms by (auto simp: utf8_char_def)
    with 2 second3_char [OF assms(1) 2] show ?thesis
      by (intro that [of "0xE0 + c div 0x1000" "take (n - 1) [0x80 + c div 0x40 mod 0x40, 0x80 + c mod 0x40]"])
        (auto simp: utf8_char_def decode_char_def decode3_def)
  next
    case 3
    then have "c div 0x40000 < 5" and n: "n = 1 \<or> n = 2 \<or> n = 3"
      using assms by (auto simp: utf8_char_def)
    with 3 second4_char [OF assms(1) 3(1)] show ?thesis
      by (intro that [of "0xF0 + c div 0x40000"
            "take (n - 1) [0x80 + c div 0x1000 mod 0x40, 0x80 + c div 0x40 mod 0x40, 0x80 + c mod 0x40]"])
        (auto simp: utf8_char_def decode_char_def decode4_def)
  qed
qed

text \<open>The characters that fit into \<open>n\<close> bytes, and one U+FFFD for a character that fits in part.\<close>

fun cut :: "nat \<Rightarrow> nat list \<Rightarrow> nat list" where
  "cut n [] = []"
| "cut n (c # cs) =
     (if n = 0 then []
      else if length (utf8_char c) \<le> n then c # cut (n - length (utf8_char c)) cs
      else [REPLACEMENT])"

lemma decode_take: "\<forall>c \<in> set cs. scalar c \<Longrightarrow> utf8_decode (take n (utf8 cs)) = cut n cs"
proof (induction cs arbitrary: n)
  case Nil
  then show ?case by simp
next
  case (Cons c cs)
  then have c: "scalar c" by simp
  show ?case
  proof (cases "length (utf8_char c) \<le> n")
    case True
    obtain b bs where "utf8_char c = b # bs" "\<And>rest. decode_char b (bs @ rest) = (c, rest)"
      using decode_utf8_char [OF c] by blast
    moreover have "take n (utf8 (c # cs)) = utf8_char c @ take (n - length (utf8_char c)) (utf8 cs)"
      using True by simp
    moreover have "n \<noteq> 0" using True utf8_char_length(1) [of c] by linarith
    ultimately show ?thesis using True Cons by simp
  next
    case False
    show ?thesis
    proof (cases "n = 0")
      case True
      then show ?thesis by simp
    next
      case n: False
      obtain b bs where "take n (utf8_char c) = b # bs" "decode_char b bs = (REPLACEMENT, [])"
        using decode_cut_char [OF c, of n] n False by auto
      with False n show ?thesis by simp
    qed
  qed
qed

lemma cut_all: "length (utf8 cs) \<le> n \<Longrightarrow> cut n cs = cs"
proof (induction cs arbitrary: n)
  case Nil
  then show ?case by simp
next
  case (Cons c cs)
  then show ?case using utf8_char_length(1) [of c] by auto
qed

lemma utf8_decode_utf8: "\<forall>c \<in> set cs. scalar c \<Longrightarrow> utf8_decode (utf8 cs) = cs"
  using decode_take [of cs "length (utf8 cs)"] cut_all [of cs "length (utf8 cs)"] by simp

lemma REPLACEMENT_facts [simp]:
  "scalar REPLACEMENT" "length (utf8_char REPLACEMENT) = 3" "units_of REPLACEMENT = [REPLACEMENT]"
  by (simp_all add: scalar_def REPLACEMENT_def utf8_char_def units_of_def)

lemma cut_scalar: "\<forall>c \<in> set cs. scalar c \<Longrightarrow> \<forall>c \<in> set (cut n cs). scalar c"
  by (induction cs arbitrary: n) auto

lemma cut_shape: "\<exists>k. cut n cs = take k cs \<and> length (utf8 (take k cs)) \<le> n \<or>
    cut n cs = take k cs @ [REPLACEMENT] \<and> length (utf8 (take k cs)) < n"
proof (induction cs arbitrary: n)
  case Nil
  then show ?case by simp
next
  case (Cons c cs)
  consider "n = 0" | "0 < n" "n < length (utf8_char c)" | "0 < n" "length (utf8_char c) \<le> n"
    by linarith
  then show ?case
  proof cases
    case 1
    then show ?thesis by (intro exI [of _ 0]) simp
  next
    case 2
    then show ?thesis by (intro exI [of _ 0]) simp
  next
    case 3
    from Cons [of "n - length (utf8_char c)"] obtain k where
      "cut (n - length (utf8_char c)) cs = take k cs \<and> length (utf8 (take k cs)) \<le> n - length (utf8_char c) \<or>
       cut (n - length (utf8_char c)) cs = take k cs @ [REPLACEMENT] \<and>
         length (utf8 (take k cs)) < n - length (utf8_char c)" by blast
    with 3 show ?thesis by (intro exI [of _ "Suc k"]) auto
  qed
qed

lemma cut_bytes: "length (utf8 (cut n cs)) \<le> n + 2"
  using cut_shape [of n cs] by auto

subsection \<open>UTF-16 and back\<close>

lemma units_of_cases:
  assumes "scalar c"
  obtains "units_of c = [c]" "\<not> is_high c" "\<not> is_low c"
  | u v where "units_of c = [u, v]" "is_high u" "is_low v" "0x10000 + (u - 0xD800) * 0x400 + (v - 0xDC00) = c"
proof (cases "c < 0x10000")
  case True
  with assms show ?thesis
    by (intro that(1)) (auto simp: units_of_def scalar_def is_high_def is_low_def)
next
  case False
  have "(c - 0x10000) mod 0x400 < 0x400" by simp
  moreover have "(c - 0x10000) div 0x400 < 0x400"
    using assms unfolding scalar_def by linarith
  moreover have "(c - 0x10000) div 0x400 * 0x400 + (c - 0x10000) mod 0x400 = c - 0x10000" by simp
  ultimately show ?thesis
    using False by (intro that(2) [of "0xD800 + (c - 0x10000) div 0x400" "0xDC00 + (c - 0x10000) mod 0x400"])
      (auto simp: units_of_def is_high_def is_low_def)
qed

lemma scalars_plain: "\<not> is_high u \<Longrightarrow> \<not> is_low u \<Longrightarrow> scalars (u # us) = u # scalars us"
  by (cases us) (auto simp: lone_def)

lemma scalars_text_of: "\<forall>c \<in> set cs. scalar c \<Longrightarrow> scalars (text_of cs) = cs"
proof (induction cs)
  case Nil
  then show ?case by simp
next
  case (Cons c cs)
  then have "scalar c" by simp
  then show ?case
  proof (cases c rule: units_of_cases)
    case 1
    with Cons show ?thesis by (simp add: scalars_plain)
  next
    case (2 u v)
    with Cons show ?thesis by simp
  qed
qed

lemma scalars_append: "\<not> is_low v \<Longrightarrow> scalars (s @ v # r) = scalars s @ scalars (v # r)"
proof (induction s rule: scalars.induct)
  case (2 u)
  then show ?case by (cases r) auto
qed auto

lemma getByteSize_append: "\<not> is_low v \<Longrightarrow> getByteSize (s @ v # r) = getByteSize s + getByteSize (v # r)"
  by (simp add: getByteSize_def buffer_from_def scalars_append)

lemma getByteSize_text_of: "\<forall>c \<in> set cs. scalar c \<Longrightarrow> getByteSize (text_of cs) = length (utf8 cs)"
  by (simp add: getByteSize_def buffer_from_def scalars_text_of)

lemma getByteSize_Nil [simp]: "getByteSize [] = 0"
  by (simp add: getByteSize_def buffer_from_def)

lemma length_getByteSize: "length s \<le> getByteSize s"
proof (induction s rule: scalars.induct)
  case (3 u v us)
  have "length (utf8_char (0x10000 + (u - 0xD800) * 0x400 + (v - 0xDC00))) = 4"
    by (simp add: utf8_char_def)
  with 3 utf8_char_length(1) [of "lone u"] show ?case
    by (auto simp: getByteSize_def buffer_from_def)
qed (use utf8_char_length(1) in \<open>auto simp: getByteSize_def buffer_from_def\<close>)

subsection \<open>Truncation\<close>

text \<open>How many bytes \<open>slice(0, n)\<close> keeps.\<close>

definition kept :: "nat \<Rightarrow> int \<Rightarrow> nat" where
  "kept len n = (if 0 \<le> n then min len (nat n) else len - nat (- n))"

lemma buffer_slice_kept: "buffer_slice bs n = take (kept (length bs) n) bs"
  by (auto simp: buffer_slice_def kept_def min_def)

lemma slice_text:
  assumes "text_ok s"
  shows "buffer_toString (buffer_slice (buffer_from s) n) = text_of (cut (kept (getByteSize s) n) (scalars s))"
  using decode_take [OF scalars_scalar [OF assms]]
  by (simp add: buffer_slice_kept buffer_toString_def buffer_from_def getByteSize_def)

lemma slice_bytes:
  assumes "text_ok s"
  shows "getByteSize (buffer_toString (buffer_slice (buffer_from s) n)) \<le> kept (getByteSize s) n + 2"
  using cut_bytes [of "kept (getByteSize s) n" "scalars s"] cut_scalar [OF scalars_scalar [OF assms]]
  by (simp add: slice_text [OF assms] getByteSize_text_of)

lemma slice_nothing: "kept (getByteSize s) n = 0 \<Longrightarrow> buffer_toString (buffer_slice (buffer_from s) n) = []"
  by (simp add: buffer_slice_kept getByteSize_def buffer_toString_def)

text \<open>A text without lone surrogates survives, and what is cut off it is the text up to a
  character, perhaps followed by one U+FFFD.\<close>

lemma buffer_roundtrip:
  assumes "text_ok s" and "text_of (scalars s) = s"
  shows "buffer_toString (buffer_from s) = s"
  using utf8_decode_utf8 [OF scalars_scalar [OF assms(1)]] assms(2)
  by (simp add: buffer_toString_def buffer_from_def)

lemma slice_shape:
  assumes "text_ok s"
  obtains (whole) k where
    "buffer_toString (buffer_slice (buffer_from s) n) = text_of (take k (scalars s))"
    "length (utf8 (take k (scalars s))) \<le> kept (getByteSize s) n"
  | (part) k where
    "buffer_toString (buffer_slice (buffer_from s) n) = text_of (take k (scalars s)) @ [REPLACEMENT]"
    "length (utf8 (take k (scalars s))) < kept (getByteSize s) n"
  using cut_shape [of "kept (getByteSize s) n" "scalars s"] slice_text [OF assms, of n] by auto

lemma before_last_ws_split:
  assumes "before_last_ws s = Some t"
  obtains w r where "s = t @ w # r" and "ws_unit w"
proof -
  define d where "d = dropWhile (\<lambda>u. \<not> ws_unit u) (rev s)"
  have t: "t = rev (dropWhile ws_unit d)" and "d \<noteq> []"
    using assms unfolding before_last_ws_def d_def [symmetric] by (auto split: list.splits)
  then have w: "ws_unit (hd d)"
    unfolding d_def using hd_dropWhile [of "\<lambda>u. \<not> ws_unit u" "rev s"] by auto
  have tw: "takeWhile ws_unit d \<noteq> []"
    using w \<open>d \<noteq> []\<close> by (cases d) auto
  have "rev s = takeWhile (\<lambda>u. \<not> ws_unit u) (rev s) @ takeWhile ws_unit d @ dropWhile ws_unit d"
    unfolding d_def by simp
  then have "s = t @ rev (takeWhile ws_unit d) @ rev (takeWhile (\<lambda>u. \<not> ws_unit u) (rev s))"
    unfolding t by (metis append.assoc rev_append rev_rev_ident)
  moreover obtain v vs where "rev (takeWhile ws_unit d) = v # vs"
    using tw by (cases "rev (takeWhile ws_unit d)") auto
  moreover have "ws_unit v"
    using set_takeWhileD [of v ws_unit d] calculation(2) by (metis list.set_intros(1) set_rev)
  ultimately show ?thesis by (intro that [of v]) auto
qed

lemma ws_not_low: "ws_unit w \<Longrightarrow> \<not> is_low w"
  by (auto simp: ws_unit_def is_low_def)

lemma before_last_ws_bytes: "before_last_ws s = Some t \<Longrightarrow> getByteSize t < getByteSize s"
proof -
  assume "before_last_ws s = Some t"
  then obtain w r where "s = t @ w # r" "ws_unit w" by (rule before_last_ws_split)
  then show ?thesis
    using length_getByteSize [of "w # r"] by (simp add: getByteSize_append ws_not_low)
qed

lemma before_last_ws_snoc:
  "\<not> ws_unit v \<Longrightarrow> before_last_ws (s @ [v]) = before_last_ws s"
  by (simp add: before_last_ws_def)

text \<open>The result of \<open>truncateToByteLimit\<close> is within the bytes kept when it was cut at white space,
  and at most two bytes above them when a character was cut.\<close>

lemma truncate_bytes:
  assumes "text_ok s"
  shows "getByteSize (truncateToByteLimit s n) \<le> kept (getByteSize s) n + 2"
proof (cases "int (getByteSize s) \<le> n")
  case True
  then show ?thesis by (simp add: truncateToByteLimit_def kept_def)
next
  case False
  with slice_bytes [OF assms, of n] show ?thesis
    by (auto simp: truncateToByteLimit_def Let_def split: option.splits dest!: before_last_ws_bytes)
qed

lemma truncate_bytes_at_ws:
  assumes ok: "text_ok s" and "before_last_ws (buffer_toString (buffer_slice (buffer_from s) n)) \<noteq> None"
  shows "getByteSize (truncateToByteLimit s n) \<le> kept (getByteSize s) n"
proof (cases "int (getByteSize s) \<le> n")
  case True
  then show ?thesis by (simp add: truncateToByteLimit_def kept_def)
next
  case False
  let ?t = "buffer_toString (buffer_slice (buffer_from s) n)"
  obtain t where t: "before_last_ws ?t = Some t" using assms(2) by auto
  then have r: "truncateToByteLimit s n = t" using False by (simp add: truncateToByteLimit_def)
  have sc: "\<forall>c \<in> set (take k (scalars s)). scalar c" for k
    using scalars_scalar [OF ok] by (meson in_set_takeD)
  show ?thesis
  proof (rule slice_shape [OF ok, of n])
    fix k assume 1: "?t = text_of (take k (scalars s))"
      "length (utf8 (take k (scalars s))) \<le> kept (getByteSize s) n"
    with before_last_ws_bytes [OF t] show ?thesis by (simp add: r getByteSize_text_of [OF sc])
  next
    fix k assume 2: "?t = text_of (take k (scalars s)) @ [REPLACEMENT]"
      "length (utf8 (take k (scalars s))) < kept (getByteSize s) n"
    have "\<not> ws_unit REPLACEMENT" by (simp add: ws_unit_def REPLACEMENT_def)
    with t 2 have "before_last_ws (text_of (take k (scalars s))) = Some t"
      by (simp add: before_last_ws_snoc)
    with before_last_ws_bytes [OF this] 2 show ?thesis by (simp add: r getByteSize_text_of [OF sc])
  qed
qed

end
