(* ===== verification/Domain.thy ===== *)
theory Domain
  imports Byte_Size
begin

text \<open>
  The data the components pass around: positions and ranges of the LSP protocol, the document context
  \<open>IDocContext\<close> (\<open>src/common/document_transformer_service.ts\<close>), additional contexts and suggestion
  options (\<open>src/common/api_types.ts\<close>).  An optional field is an \<open>option\<close>.  Documents hold characters below
  256; the content of an additional context may have been cut at a byte and is a \<^typ>\<open>text16\<close>.
\<close>

record position =
  pos_line :: nat
  pos_character :: nat

record lsp_range =
  range_start :: position
  range_end :: position

record workspace_folder =
  wf_uri :: string
  wf_name :: string

record doc_context =
  dc_prefix :: string
  dc_suffix :: string
  dc_fileRelativePath :: string
  dc_position :: position
  dc_uri :: string
  dc_languageId :: string
  dc_workspaceFolder :: "workspace_folder option"

datatype context_type = Ctx_file | Ctx_snippet

datatype resolution_strategy = Strategy_open_tabs | Strategy_imports

record additional_context =
  ac_type :: context_type
  ac_name :: string
  ac_content :: text16
  ac_resolution_strategy :: resolution_strategy

record tokens_metadata =
  tm_input_tokens :: "nat option"
  tm_output_tokens :: "nat option"
  tm_context_tokens_sent :: "nat option"
  tm_context_tokens_used :: "nat option"

record suggestion_model =
  sm_lang :: "string option"
  sm_engine :: "string option"
  sm_name :: "string option"
  sm_tokens :: "tokens_metadata option"

record suggestion_option =
  so_index :: "nat option"
  so_text :: string
  so_uniqueTrackingId :: string
  so_model :: "suggestion_model option"

datatype trigger_kind = Invoked | Automatic

text \<open>At run time a range may also be the array of its two ends; \<open>sanitizeRange\<close>
  (\<open>src/common/utils/sanitize_range.ts\<close>) normalises it.\<close>

datatype wire_range = Range_object lsp_range | Range_array position position

fun sanitizeRange :: "wire_range \<Rightarrow> lsp_range" where
  "sanitizeRange (Range_array s e) = \<lparr>range_start = s, range_end = e\<rparr>"
| "sanitizeRange (Range_object r) = r"

record selected_completion =
  sc_range :: wire_range
  sc_text :: string

record inline_context =
  ic_triggerKind :: trigger_kind
  ic_selectedCompletionInfo :: "selected_completion option"

text \<open>The code units of a document's text.\<close>

definition widen :: "string \<Rightarrow> text16" where
  "widen s = map of_char s"

lemma widen_simps [simp]:
  "widen [] = []" "widen (c # s) = of_char c # widen s" "widen (s @ t) = widen s @ widen t"
  "(widen s = []) = (s = [])"
  by (auto simp: widen_def)

lemma of_char_less [simp]: "(of_char c :: nat) < 256"
  by (simp add: nat_of_char_less_256)

lemma text_ok_widen [simp]: "text_ok (widen s)"
  by (auto simp: text_ok_def widen_def intro: less_trans [OF of_char_less])

lemma plain_char [simp]: "\<not> is_high (of_char c)" "\<not> is_low (of_char c)"
  using of_char_less [of c] unfolding is_high_def is_low_def by linarith+

lemma utf8_of_char: "length (utf8_char (of_char c)) = char_bytes c"
proof -
  have "(of_char c :: nat) < 0x800" "(of_char c :: nat) < 0x10000"
    using of_char_less [of c] by linarith+
  then show ?thesis by (simp add: utf8_char_def char_bytes_def)
qed

lemma getByteSize_widen [simp]: "getByteSize (widen s) = byte_size s"
  by (induction s) (simp_all add: getByteSize_def buffer_from_def scalars_plain byte_size_def utf8_of_char)

text \<open>What the sources and the standard library throw: the native errors, and \<open>new Error(message)\<close>.\<close>

datatype js_error = TypeError | RangeError | URIError | JsError string

text \<open>The document events (\<open>src/common/text_document_change_listener_type.ts\<close>).\<close>

datatype change_type = OnDidOpen | OnDidChangeContent | OnDidSave | OnDidClose | OnDidSetActive | OnDocumentLanguageChange

end
