(* ===== verification/Node_Runtime.thy ===== *)
theory Node_Runtime
  imports Prelude
begin

text \<open>
  The two parts of Node's standard library that the components keep state in.

  \<^item> \<open>EventEmitter\<close>: the registered (event, listener) pairs in registration order.  A listener is
    named by a value of type \<open>'l\<close>; \<open>emit\<close> calls the listeners of the event in order.
  \<^item> timers: \<open>setTimeout\<close> returns a fresh id and adds a pending timer due after the given delay,
    \<open>clearTimeout\<close> removes it, and the event loop runs a pending timer once it is due.
\<close>

subsection \<open>EventEmitter\<close>

type_synonym ('e, 'l) emitter = "('e \<times> 'l) list"

definition em_on :: "'e \<Rightarrow> 'l \<Rightarrow> ('e, 'l) emitter \<Rightarrow> ('e, 'l) emitter" where
  "em_on e l em = em @ [(e, l)]"

text \<open>\<open>removeListener\<close> removes the most recently added instance of the listener, if any.\<close>

definition em_removeListener :: "'e \<Rightarrow> 'l \<Rightarrow> ('e, 'l) emitter \<Rightarrow> ('e, 'l) emitter" where
  "em_removeListener e l em = rev (remove1 (e, l) (rev em))"

definition em_listeners :: "'e \<Rightarrow> ('e, 'l) emitter \<Rightarrow> 'l list" where
  "em_listeners e em = map snd (filter (\<lambda>p. fst p = e) em)"

lemma em_remove_on [simp]: "em_removeListener e l (em_on e l em) = em"
  by (simp add: em_removeListener_def em_on_def)

lemma em_listeners_on [simp]:
  "em_listeners e (em_on e' l em) = em_listeners e em @ (if e = e' then [l] else [])"
  by (auto simp: em_listeners_def em_on_def)

lemma em_remove_other: "(e, l) \<notin> set em \<Longrightarrow> em_removeListener e l em = em"
  by (simp add: em_removeListener_def remove1_idem)

subsection \<open>Timers\<close>

record 'cb timers =
  rt_now :: nat
  rt_next :: nat
  rt_pending :: "(nat \<times> nat \<times> 'cb) list"

definition rt_init :: "'cb timers" where
  "rt_init = \<lparr>rt_now = 0, rt_next = 0, rt_pending = []\<rparr>"

definition setTimeout :: "'cb \<Rightarrow> nat \<Rightarrow> 'cb timers \<Rightarrow> nat \<times> 'cb timers" where
  "setTimeout cb ms rt =
     (rt_next rt,
      rt\<lparr>rt_next := Suc (rt_next rt),
         rt_pending := rt_pending rt @ [(rt_next rt, rt_now rt + ms, cb)]\<rparr>)"

definition clearTimeout :: "nat \<Rightarrow> 'cb timers \<Rightarrow> 'cb timers" where
  "clearTimeout i rt = rt\<lparr>rt_pending := filter (\<lambda>t. fst t \<noteq> i) (rt_pending rt)\<rparr>"

text \<open>The pending timers that may run now, and the clock moving on.\<close>

definition rt_due :: "'cb timers \<Rightarrow> (nat \<times> nat \<times> 'cb) list" where
  "rt_due rt = filter (\<lambda>t. fst (snd t) \<le> rt_now rt) (rt_pending rt)"

definition rt_tick :: "nat \<Rightarrow> 'cb timers \<Rightarrow> 'cb timers" where
  "rt_tick ms rt = rt\<lparr>rt_now := rt_now rt + ms\<rparr>"

definition rt_wf :: "'cb timers \<Rightarrow> bool" where
  "rt_wf rt \<longleftrightarrow> distinct (map fst (rt_pending rt)) \<and> (\<forall>t \<in> set (rt_pending rt). fst t < rt_next rt)"

lemma rt_wf_init [simp, inv_intros]: "rt_wf rt_init"
  by (simp add: rt_wf_def rt_init_def)

lemma rt_wf_setTimeout [inv_intros]: "rt_wf rt \<Longrightarrow> rt_wf (snd (setTimeout cb ms rt))"
  by (auto simp: rt_wf_def setTimeout_def less_Suc_eq)

lemma rt_wf_clearTimeout [inv_intros]: "rt_wf rt \<Longrightarrow> rt_wf (clearTimeout i rt)"
  by (auto simp: rt_wf_def clearTimeout_def distinct_map_filter)

lemma rt_wf_tick [inv_intros]: "rt_wf rt \<Longrightarrow> rt_wf (rt_tick ms rt)"
  by (simp add: rt_wf_def rt_tick_def)

lemma rt_pending_setTimeout [simp]:
  "rt_pending (snd (setTimeout cb ms rt)) = rt_pending rt @ [(rt_next rt, rt_now rt + ms, cb)]"
  "fst (setTimeout cb ms rt) = rt_next rt"
  "rt_now (snd (setTimeout cb ms rt)) = rt_now rt"
  "rt_next (snd (setTimeout cb ms rt)) = Suc (rt_next rt)"
  by (simp_all add: setTimeout_def)

lemma rt_pending_clearTimeout [simp]:
  "rt_pending (clearTimeout i rt) = filter (\<lambda>t. fst t \<noteq> i) (rt_pending rt)"
  "rt_now (clearTimeout i rt) = rt_now rt"
  "rt_next (clearTimeout i rt) = rt_next rt"
  by (simp_all add: clearTimeout_def)

lemma rt_pending_tick [simp]:
  "rt_pending (rt_tick ms rt) = rt_pending rt"
  "rt_now (rt_tick ms rt) = rt_now rt + ms"
  "rt_next (rt_tick ms rt) = rt_next rt"
  by (simp_all add: rt_tick_def)

end
