(* ===== verification/Telemetry_State.thy ===== *)
theory Telemetry_State
  imports Prelude
begin

text \<open>
  \<open>src/common/tracking/code_suggestions/constants.ts\<close> (events and the two transition graphs),
  \<open>code_suggestions_telemetry_state_manager.ts\<close> (the class \<open>CodeSuggestionTelemetryState\<close>, whose only
  state is the map from tracking ids to states) and \<open>utils.ts\<close>.

  Both graphs are acyclic, by the rank of a state: so a request is reported at most once per event,
  with the two exceptions the code makes: \<open>REQUESTED\<close> restarts a request and \<open>ACCEPTED\<close> is taken from
  any state.
\<close>

datatype tracking_event =
  REQUESTED | LOADED | NOT_PROVIDED | SHOWN | ERRORED | ACCEPTED | REJECTED | CANCELLED
| STREAM_STARTED | STREAM_COMPLETED

type_synonym state_graph = "(tracking_event, tracking_event list) jsmap"

definition END_STATE_NO_TRANSITIONS_ALLOWED :: "tracking_event list" where
  "END_STATE_NO_TRANSITIONS_ALLOWED = []"

definition endStatesGraph :: state_graph where
  "endStatesGraph =
     [(ERRORED, END_STATE_NO_TRANSITIONS_ALLOWED), (CANCELLED, END_STATE_NO_TRANSITIONS_ALLOWED),
      (NOT_PROVIDED, END_STATE_NO_TRANSITIONS_ALLOWED), (REJECTED, END_STATE_NO_TRANSITIONS_ALLOWED),
      (ACCEPTED, END_STATE_NO_TRANSITIONS_ALLOWED)]"

definition nonStreamingSuggestionStateGraph :: state_graph where
  "nonStreamingSuggestionStateGraph =
     [(REQUESTED, [LOADED, ERRORED]),
      (LOADED, [SHOWN, CANCELLED, NOT_PROVIDED]),
      (SHOWN, [ACCEPTED, REJECTED])] @ endStatesGraph"

definition streamingSuggestionStateGraph :: state_graph where
  "streamingSuggestionStateGraph =
     [(REQUESTED, [STREAM_STARTED, ERRORED, CANCELLED]),
      (STREAM_STARTED, [SHOWN, ERRORED, STREAM_COMPLETED]),
      (SHOWN, [ERRORED, STREAM_COMPLETED, ACCEPTED, REJECTED]),
      (STREAM_COMPLETED, [ACCEPTED, REJECTED, NOT_PROVIDED])] @ endStatesGraph"

definition endStates :: "tracking_event list" where
  "endStates = map fst endStatesGraph"

fun INSTANCE_TRACKING_EVENTS_MAP :: "tracking_event \<Rightarrow> string option" where
  "INSTANCE_TRACKING_EVENTS_MAP REQUESTED = None"
| "INSTANCE_TRACKING_EVENTS_MAP LOADED = None"
| "INSTANCE_TRACKING_EVENTS_MAP NOT_PROVIDED = None"
| "INSTANCE_TRACKING_EVENTS_MAP SHOWN = Some ''code_suggestion_shown_in_ide''"
| "INSTANCE_TRACKING_EVENTS_MAP ERRORED = None"
| "INSTANCE_TRACKING_EVENTS_MAP ACCEPTED = Some ''code_suggestion_accepted_in_ide''"
| "INSTANCE_TRACKING_EVENTS_MAP REJECTED = Some ''code_suggestion_rejected_in_ide''"
| "INSTANCE_TRACKING_EVENTS_MAP CANCELLED = None"
| "INSTANCE_TRACKING_EVENTS_MAP STREAM_STARTED = None"
| "INSTANCE_TRACKING_EVENTS_MAP STREAM_COMPLETED = None"

definition canClientTrackEvent :: "tracking_event list \<Rightarrow> tracking_event \<Rightarrow> bool" where
  "canClientTrackEvent actions event \<longleftrightarrow> event \<in> set actions"

subsection \<open>CodeSuggestionTelemetryState\<close>

type_synonym suggestion_states = "(string, tracking_event) jsmap"

definition canUpdateState :: "suggestion_states \<Rightarrow> string \<Rightarrow> tracking_event \<Rightarrow> bool \<Rightarrow> bool" where
  "canUpdateState states uniqueTrackingId newState isStreaming =
     (if newState = REQUESTED then True
      else case map_get states uniqueTrackingId of
             None \<Rightarrow> False
           | Some currentState \<Rightarrow>
               (case map_get (if isStreaming then streamingSuggestionStateGraph
                              else nonStreamingSuggestionStateGraph) currentState of
                  None \<Rightarrow> False
                | Some allowed \<Rightarrow> \<not> (newState \<notin> set allowed \<and> newState \<noteq> ACCEPTED)))"

definition updateSuggestionState ::
  "string \<Rightarrow> tracking_event \<Rightarrow> bool \<Rightarrow> suggestion_states \<Rightarrow> suggestion_states" where
  "updateSuggestionState uniqueTrackingId newState isStreaming states =
     (if \<not> canUpdateState states uniqueTrackingId newState isStreaming then states
      else map_set uniqueTrackingId newState states)"

definition getOpenedSuggestions :: "suggestion_states \<Rightarrow> string list" where
  "getOpenedSuggestions states = map fst (filter (\<lambda>p. snd p \<notin> set endStates) states)"

definition deleteSuggestion :: "string \<Rightarrow> suggestion_states \<Rightarrow> suggestion_states" where
  "deleteSuggestion uniqueTrackingId states = map_delete uniqueTrackingId states"

subsection \<open>Runs of one tracker\<close>

text \<open>What both trackers do with an event: report it exactly when the state manager takes it.\<close>

fun track_run ::
  "string \<Rightarrow> bool \<Rightarrow> tracking_event list \<Rightarrow> suggestion_states \<Rightarrow> tracking_event list \<times> suggestion_states" where
  "track_run i str [] st = ([], st)"
| "track_run i str (e # es) st =
     (if canUpdateState st i e str
      then apfst ((#) e) (track_run i str es (updateSuggestionState i e str st))
      else track_run i str es st)"

fun rank :: "tracking_event \<Rightarrow> nat" where
  "rank REQUESTED = 0"
| "rank LOADED = 1"
| "rank STREAM_STARTED = 1"
| "rank SHOWN = 2"
| "rank STREAM_COMPLETED = 3"
| "rank _ = 4"

lemmas graph_defs = nonStreamingSuggestionStateGraph_def streamingSuggestionStateGraph_def
  endStatesGraph_def END_STATE_NO_TRANSITIONS_ALLOWED_def

lemma endStates_eq [simp]: "set endStates = {ERRORED, CANCELLED, NOT_PROVIDED, REJECTED, ACCEPTED}"
  by (simp add: endStates_def endStatesGraph_def)

lemma graph_rank:
  "map_get nonStreamingSuggestionStateGraph s = Some es \<Longrightarrow> e \<in> set es \<Longrightarrow> rank s < rank e"
  "map_get streamingSuggestionStateGraph s = Some es \<Longrightarrow> e \<in> set es \<Longrightarrow> rank s < rank e"
  by (auto simp: graph_defs split: if_splits)

lemma graph_end_states:
  "s \<in> set endStates \<Longrightarrow> map_get nonStreamingSuggestionStateGraph s = Some []"
  "s \<in> set endStates \<Longrightarrow> map_get streamingSuggestionStateGraph s = Some []"
  by (auto simp: graph_defs)

lemma canUpdateState_rank:
  assumes "canUpdateState st i e str" and "map_get st i = Some s" and "e \<noteq> REQUESTED" and "e \<noteq> ACCEPTED"
  shows "rank s < rank e"
  using assms graph_rank
  by (auto simp: canUpdateState_def split: option.splits if_splits)

lemma canUpdateState_unknown: "map_get st i = None \<Longrightarrow> canUpdateState st i e str \<longleftrightarrow> e = REQUESTED"
  by (simp add: canUpdateState_def)

lemma canUpdateState_end:
  assumes "map_get st i = Some s" and "s \<in> set endStates"
  shows "canUpdateState st i e str \<longleftrightarrow> e = REQUESTED \<or> e = ACCEPTED"
  using assms graph_end_states [OF assms(2)] by (auto simp: canUpdateState_def)

lemma updateSuggestionState_get:
  "map_get (updateSuggestionState i e str st) j =
     (if j = i \<and> canUpdateState st i e str then Some e else map_get st j)"
  by (simp add: updateSuggestionState_def)

lemma updateSuggestionState_wf [inv_intros]:
  "map_wf st \<Longrightarrow> map_wf (updateSuggestionState i e str st)"
  by (simp add: updateSuggestionState_def)

lemma deleteSuggestion_wf [inv_intros]: "map_wf st \<Longrightarrow> map_wf (deleteSuggestion i st)"
  by (simp add: deleteSuggestion_def)

lemma strict_rank_distinct: "sorted_wrt (\<lambda>a b. f a < (f b :: nat)) xs \<Longrightarrow> distinct xs"
  by (induction xs) auto

lemma track_run_subset: "set (fst (track_run i str es st)) \<subseteq> set es"
  by (induction i str es st rule: track_run.induct) auto

lemma track_run_rank:
  assumes "REQUESTED \<notin> set es" and "ACCEPTED \<notin> set es"
  shows "sorted_wrt (\<lambda>a b. rank a < rank b) (fst (track_run i str es st)) \<and>
         (\<forall>s. map_get st i = Some s \<longrightarrow> (\<forall>e \<in> set (fst (track_run i str es st)). rank s < rank e))"
  using assms
proof (induction i str es st rule: track_run.induct)
  case (1 i str st)
  then show ?case by simp
next
  case (2 i str e es st)
  show ?case
  proof (cases "canUpdateState st i e str")
    case False
    with 2 show ?thesis by simp
  next
    case True
    let ?st = "updateSuggestionState i e str st"
    have get: "map_get ?st i = Some e" using True by (simp add: updateSuggestionState_get)
    have IH: "sorted_wrt (\<lambda>a b. rank a < rank b) (fst (track_run i str es ?st))"
      "\<forall>d \<in> set (fst (track_run i str es ?st)). rank e < rank d"
      using "2.IH"(1) [OF True] "2.prems" get by auto
    have "\<forall>s. map_get st i = Some s \<longrightarrow> rank s < rank e"
      using True "2.prems" canUpdateState_rank by auto
    with IH True show ?thesis by (fastforce dest: order.strict_trans)
  qed
qed

lemma opened_iff:
  "map_wf st \<Longrightarrow> i \<in> set (getOpenedSuggestions st) \<longleftrightarrow>
     (\<exists>s. map_get st i = Some s \<and> s \<notin> set endStates)"
  by (auto simp: getOpenedSuggestions_def map_get_in_set [symmetric] image_iff simp del: endStates_eq)

lemma opened_distinct: "map_wf st \<Longrightarrow> distinct (getOpenedSuggestions st)"
  by (simp add: getOpenedSuggestions_def map_wf_def distinct_map_filter)

subsection \<open>Properties\<close>

text \<open>Between two restarts of a request, a tracker reports each event other than \<open>ACCEPTED\<close> at most once,
  in an order the graph allows (the reported states strictly advance).\<close>

theorem reported_once:
  assumes "REQUESTED \<notin> set es" and "ACCEPTED \<notin> set es"
  shows "distinct (fst (track_run i str es st)) \<and>
         sorted_wrt (\<lambda>a b. rank a < rank b) (fst (track_run i str es st)) \<and>
         set (fst (track_run i str es st)) \<subseteq> set es"
proof -
  have s: "sorted_wrt (\<lambda>a b. rank a < rank b) (fst (track_run i str es st))"
    using track_run_rank [OF assms] by blast
  then have "distinct (fst (track_run i str es st))" by (rule strict_rank_distinct)
  with s track_run_subset show ?thesis by blast
qed

theorem reported_once_witness:
  "fst (track_run ''a'' False [LOADED, LOADED, SHOWN, REJECTED, SHOWN] [(''a'', REQUESTED)]) =
     [LOADED, SHOWN, REJECTED] \<and>
   distinct (fst (track_run ''a'' False [LOADED, LOADED, SHOWN, REJECTED, SHOWN] [(''a'', REQUESTED)]))"
proof
  show "fst (track_run ''a'' False [LOADED, LOADED, SHOWN, REJECTED, SHOWN] [(''a'', REQUESTED)]) =
     [LOADED, SHOWN, REJECTED]" by code_simp
  show "distinct (fst (track_run ''a'' False [LOADED, LOADED, SHOWN, REJECTED, SHOWN] [(''a'', REQUESTED)]))"
    using reported_once [of "[LOADED, LOADED, SHOWN, REJECTED, SHOWN]" "''a''" False "[(''a'', REQUESTED)]"]
    by simp
qed

text \<open>The end states are not final for \<open>ACCEPTED\<close>: from any of them (also from \<open>ERRORED\<close>,
  \<open>CANCELLED\<close>, \<open>REJECTED\<close> and from \<open>ACCEPTED\<close> itself) it is reported again, every time it comes, and
  nothing else but a new request is.\<close>

theorem end_state_events:
  assumes "map_get st i = Some s" and "s \<in> set endStates"
  shows "fst (track_run i str (replicate n ACCEPTED) st) = replicate n ACCEPTED \<and>
         (\<forall>e. e \<noteq> REQUESTED \<longrightarrow> e \<noteq> ACCEPTED \<longrightarrow> fst (track_run i str (replicate n e) st) = [])"
proof
  show "fst (track_run i str (replicate n ACCEPTED) st) = replicate n ACCEPTED"
    using assms
  proof (induction n arbitrary: st s)
    case 0
    then show ?case by simp
  next
    case (Suc n)
    then have c: "canUpdateState st i ACCEPTED str" using canUpdateState_end by blast
    then have "map_get (updateSuggestionState i ACCEPTED str st) i = Some ACCEPTED"
      by (simp add: updateSuggestionState_get)
    from Suc.IH [OF this] c show ?case by simp
  qed
  have "fst (track_run i str (replicate n e) st) = []" if "e \<noteq> REQUESTED" "e \<noteq> ACCEPTED" for e
    using that canUpdateState_end [OF assms] by (induction n) auto
  then show "\<forall>e. e \<noteq> REQUESTED \<longrightarrow> e \<noteq> ACCEPTED \<longrightarrow> fst (track_run i str (replicate n e) st) = []"
    by blast
qed

theorem end_state_events_witness:
  "fst (track_run ''a'' True (replicate 2 ACCEPTED) [(''a'', CANCELLED)]) = [ACCEPTED, ACCEPTED]"
  using end_state_events [of "[(''a'', CANCELLED)]" "''a''" CANCELLED True 2]
  by (simp add: numeral_2_eq_2)

end
