(* ===== verification/Telemetry_Tracker.thy ===== *)
theory Telemetry_Tracker
  imports Domain Node_Runtime Telemetry_State
begin

text \<open>
  What the two code suggestion trackers share: the partial context update
  \<open>Partial<ICodeSuggestionContextUpdate>\<close> (\<open>code_suggestions_tracking_types.ts\<close>), the garbage
  collection of contexts by a timer, and the interface \<open>TelemetryService\<close> as the locale
  \<open>telemetry_tracker\<close>.
\<close>

datatype suggestion_source = Source_cache | Source_network

datatype gitlab_realm = Realm_saas | Realm_selfManaged

record context_update =
  cu_documentContext :: "doc_context option"
  cu_source :: "suggestion_source option"
  cu_isStreaming :: "bool option"
  cu_model :: "suggestion_model option"
  cu_status :: "nat option"
  cu_optionsCount :: "nat option"
  cu_acceptedOption :: "nat option"
  cu_triggerKind :: "trigger_kind option"
  cu_additionalContexts :: "additional_context list option"
  cu_isDirectConnection :: "bool option"
  cu_suggestionOptions :: "suggestion_option list option"

definition no_update :: context_update where
  "no_update =
     \<lparr>cu_documentContext = None, cu_source = None, cu_isStreaming = None, cu_model = None,
      cu_status = None, cu_optionsCount = None, cu_acceptedOption = None, cu_triggerKind = None,
      cu_additionalContexts = None, cu_isDirectConnection = None, cu_suggestionOptions = None\<rparr>"

record telemetry_config =
  tc_baseUrl :: "string option"
  tc_enabled :: "bool option"
  tc_actions :: "tracking_event list option"

definition GC_TIME :: nat where
  "GC_TIME = 60000"

definition SAAS_INSTANCE_URL :: string where
  "SAAS_INSTANCE_URL = ''https://gitlab.com''"

subsection \<open>Garbage collection\<close>

text \<open>
  \<open>gc_ok ctx st rt\<close>: every state has a context, and every context has a pending timer that collects it
  within \<^const>\<open>GC_TIME\<close>.
\<close>

definition gc_ok :: "string set \<Rightarrow> string set \<Rightarrow> string timers \<Rightarrow> bool" where
  "gc_ok ctx st rt \<longleftrightarrow> st \<subseteq> ctx \<and> rt_wf rt \<and>
     (\<forall>k \<in> ctx. \<exists>i due. (i, due, k) \<in> set (rt_pending rt) \<and> due \<le> rt_now rt + GC_TIME)"

lemma gc_ok_init [simp]: "gc_ok {} {} rt_init"
  by (simp add: gc_ok_def)

lemma gc_ok_set:
  assumes "gc_ok ctx st rt"
  shows "gc_ok (insert k ctx) st (snd (setTimeout k GC_TIME rt))"
  using assms unfolding gc_ok_def by (fastforce intro: rt_wf_setTimeout)

lemma gc_ok_state: "gc_ok ctx st rt \<Longrightarrow> st' \<subseteq> insert k st \<Longrightarrow> k \<in> ctx \<Longrightarrow> gc_ok ctx st' rt"
  by (auto simp: gc_ok_def)

lemma gc_ok_subset: "gc_ok ctx st rt \<Longrightarrow> st' \<subseteq> st \<Longrightarrow> gc_ok ctx st' rt"
  by (auto simp: gc_ok_def)

lemma gc_ok_tick: "gc_ok ctx st rt \<Longrightarrow> gc_ok ctx st (rt_tick n rt)"
  by (fastforce simp: gc_ok_def rt_wf_tick intro: trans_le_add1 le_add1)

lemma gc_ok_fire:
  assumes ok: "gc_ok ctx st rt" and i: "(i, due, k) \<in> set (rt_pending rt)"
  shows "gc_ok (ctx - {k}) (st - {k}) (clearTimeout i rt)"
proof -
  have wf: "rt_wf rt" using ok by (simp add: gc_ok_def)
  have "\<exists>j d. (j, d, k') \<in> set (rt_pending (clearTimeout i rt)) \<and> d \<le> rt_now rt + GC_TIME"
    if k': "k' \<in> ctx - {k}" for k'
  proof -
    from k' ok obtain j d where j: "(j, d, k') \<in> set (rt_pending rt)" "d \<le> rt_now rt + GC_TIME"
      by (auto simp: gc_ok_def)
    have "j \<noteq> i"
    proof
      assume "j = i"
      with j(1) i wf have "(d, k') = (due, k)"
        unfolding rt_wf_def by (metis eq_key_imp_eq_value)
      with k' show False by simp
    qed
    with j show ?thesis by auto
  qed
  with ok show ?thesis by (auto simp: gc_ok_def rt_wf_clearTimeout)
qed

subsection \<open>The interface TelemetryService\<close>

fun track_all ::
  "(tracking_event \<Rightarrow> string \<Rightarrow> 's \<Rightarrow> 's) \<Rightarrow> (tracking_event \<times> string) list \<Rightarrow> 's \<Rightarrow> 's" where
  "track_all track [] s = s"
| "track_all track ((e, i) # es) s = track_all track es (track e i s)"

lemma track_all_Cons: "track_all track (p # es) s = track_all track es (track (fst p) (snd p) s)"
  by (cases p) simp

locale telemetry_tracker =
  fixes isEnabled :: "'s \<Rightarrow> bool"
    and trackEvent :: "tracking_event \<Rightarrow> string \<Rightarrow> 's \<Rightarrow> 's"
    and sent :: "'s \<Rightarrow> (tracking_event \<times> string) list"
    and inv :: "'s \<Rightarrow> bool"
  assumes enabled_track: "isEnabled (trackEvent e i s) = isEnabled s"
    and sent_disabled: "\<not> isEnabled s \<Longrightarrow> sent (trackEvent e i s) = sent s"
    and sent_track: "sent (trackEvent e i s) \<in> {sent s, sent s @ [(e, i)]}"
    and inv_track: "e \<noteq> REQUESTED \<Longrightarrow> inv s \<Longrightarrow> inv (trackEvent e i s)"
begin

lemma enabled_all: "isEnabled (track_all trackEvent es s) = isEnabled s"
  by (induction es arbitrary: s) (simp_all add: track_all_Cons enabled_track)

lemma sent_all_disabled: "\<not> isEnabled s \<Longrightarrow> sent (track_all trackEvent es s) = sent s"
  by (induction es arbitrary: s) (simp_all add: track_all_Cons enabled_track sent_disabled)

text \<open>What a tracker sends is a subsequence of the events it is given, in their order.\<close>

lemma sent_all: "\<exists>out. subseq out es \<and> sent (track_all trackEvent es s) = sent s @ out"
proof (induction es arbitrary: s)
  case Nil
  show ?case by simp
next
  case (Cons p es)
  obtain e i where p: "p = (e, i)" by (cases p)
  obtain out where out: "subseq out es"
    "sent (track_all trackEvent es (trackEvent e i s)) = sent (trackEvent e i s) @ out"
    using Cons.IH by blast
  from sent_track [of e i s] show ?case
  proof (elim insertE)
    assume "sent (trackEvent e i s) = sent s"
    with out p show ?thesis by (intro exI [of _ out]) auto
  next
    assume "sent (trackEvent e i s) = sent s @ [(e, i)]"
    with out p show ?thesis by (intro exI [of _ "(e, i) # out"]) auto
  qed simp
qed

lemma inv_all: "REQUESTED \<notin> fst ` set es \<Longrightarrow> inv s \<Longrightarrow> inv (track_all trackEvent es s)"
proof (induction es arbitrary: s)
  case Nil
  then show ?case by simp
next
  case (Cons p es)
  then have "fst p \<noteq> REQUESTED" by force
  with Cons show ?case by (simp add: track_all_Cons inv_track)
qed

end

end
