(* ===== verification/Circuit_Breaker.thy ===== *)
theory Circuit_Breaker
  imports Node_Runtime
begin

text \<open>
  The circuit breakers of \<open>src/common/circuit_breaker/\<close>: \<open>FixedTimeCircuitBreaker\<close> and
  \<open>ExponentialBackoffCircuitBreaker\<close>, each a record of its private fields together with the timers
  of the event loop it uses and the listeners it has called.  The interface \<open>CircuitBreaker\<close> is the
  locale \<open>circuit_breaker\<close>; both classes interpret it.

  The step relations \<open>fb_step\<close> and \<open>eb_step\<close> are the public methods, the clock, and a due timer
  running the callback \<open>() => this.#close()\<close>.  The lemmas say which timers exist in every reachable
  state: an open breaker always has a pending timer that will close it, no later than the break
  time after its last error.
\<close>

subsection \<open>The interface\<close>

datatype CircuitBreakerState = OPEN | CLOSED

datatype cb_event = open_event | close_event

definition CIRCUIT_BREAK_INTERVAL_MS :: nat where
  "CIRCUIT_BREAK_INTERVAL_MS = 10000"

definition MAX_ERRORS_BEFORE_CIRCUIT_BREAK :: nat where
  "MAX_ERRORS_BEFORE_CIRCUIT_BREAK = 4"

datatype cb_call = Call_error | Call_success

fun cb_run :: "('s \<Rightarrow> 's) \<Rightarrow> ('s \<Rightarrow> 's) \<Rightarrow> cb_call list \<Rightarrow> 's \<Rightarrow> 's" where
  "cb_run err suc [] s = s"
| "cb_run err suc (Call_error # cs) s = cb_run err suc cs (err s)"
| "cb_run err suc (Call_success # cs) s = cb_run err suc cs (suc s)"

lemma cb_run_append: "cb_run err suc (cs @ ds) s = cb_run err suc ds (cb_run err suc cs s)"
  by (induction err suc cs s rule: cb_run.induct) auto

locale circuit_breaker =
  fixes err :: "'s \<Rightarrow> 's" and suc :: "'s \<Rightarrow> 's" and isOpen :: "'s \<Rightarrow> bool" and inv :: "'s \<Rightarrow> bool"
  assumes suc_closes: "\<not> isOpen (suc s)"
    and err_keeps_open: "isOpen s \<Longrightarrow> isOpen (err s)"
    and err_inv: "inv s \<Longrightarrow> inv (err s)"
    and suc_inv: "inv s \<Longrightarrow> inv (suc s)"
begin

lemma run_inv: "inv s \<Longrightarrow> inv (cb_run err suc cs s)"
proof (induction cs arbitrary: s)
  case Nil
  then show ?case by simp
next
  case (Cons c cs)
  then show ?case by (cases c) (auto intro: err_inv suc_inv)
qed

lemma run_errors_open:
  "isOpen s \<Longrightarrow> isOpen (cb_run err suc (replicate n Call_error) s)"
  by (induction n arbitrary: s) (auto intro: err_keeps_open)

lemma run_success_last: "\<not> isOpen (cb_run err suc (cs @ [Call_success]) s)"
  by (simp add: cb_run_append suc_closes)

text \<open>A breaker that was closed is open only because of an error since the last success.\<close>

lemma open_needs_error:
  assumes "\<not> isOpen s" and "isOpen (cb_run err suc cs s)"
  shows "\<exists>ds es. cs = ds @ Call_error # es \<and> Call_success \<notin> set es"
  using assms(2)
proof (induction cs rule: rev_induct)
  case Nil
  with assms(1) show ?case by simp
next
  case (snoc c cs)
  then have "c = Call_error"
    by (cases c) (auto simp: cb_run_append suc_closes)
  then show ?case by (intro exI [of _ cs] exI [of _ "[]"]) simp
qed

end

subsection \<open>FixedTimeCircuitBreaker\<close>

record 'l fixed_breaker =
  fb_state :: CircuitBreakerState
  fb_maxErrors :: nat
  fb_breakTimeMs :: nat
  fb_errorCount :: nat
  fb_emitter :: "(cb_event, 'l) emitter"
  fb_timeoutId :: "nat option"
  fb_timers :: "unit timers"
  fb_calls :: "'l list"

definition fb_new :: "nat \<Rightarrow> nat \<Rightarrow> 'l fixed_breaker" where
  "fb_new maxErrors breakTimeMs =
     \<lparr>fb_state = CLOSED, fb_maxErrors = maxErrors, fb_breakTimeMs = breakTimeMs, fb_errorCount = 0,
      fb_emitter = [], fb_timeoutId = None, fb_timers = rt_init, fb_calls = []\<rparr>"

definition fb_default :: "'l fixed_breaker" where
  "fb_default = fb_new MAX_ERRORS_BEFORE_CIRCUIT_BREAK CIRCUIT_BREAK_INTERVAL_MS"

definition fb_emit :: "cb_event \<Rightarrow> 'l fixed_breaker \<Rightarrow> 'l fixed_breaker" where
  "fb_emit e b = b\<lparr>fb_calls := fb_calls b @ em_listeners e (fb_emitter b)\<rparr>"

definition fb_open :: "'l fixed_breaker \<Rightarrow> 'l fixed_breaker" where
  "fb_open b =
     (let b1 = b\<lparr>fb_state := OPEN\<rparr>;
          (i, rt) = setTimeout () (fb_breakTimeMs b1) (fb_timers b1);
          b2 = b1\<lparr>fb_timeoutId := Some i, fb_timers := rt\<rparr>
      in fb_emit open_event b2)"

definition fb_error :: "'l fixed_breaker \<Rightarrow> 'l fixed_breaker" where
  "fb_error b =
     (let b1 = b\<lparr>fb_errorCount := fb_errorCount b + 1\<rparr>
      in if fb_maxErrors b1 \<le> fb_errorCount b1 then fb_open b1 else b1)"

definition fb_isOpen :: "'l fixed_breaker \<Rightarrow> bool" where
  "fb_isOpen b \<longleftrightarrow> fb_state b = OPEN"

definition fb_close :: "'l fixed_breaker \<Rightarrow> 'l fixed_breaker" where
  "fb_close b =
     (if fb_state b = CLOSED then b
      else let b1 = (case fb_timeoutId b of
                       None \<Rightarrow> b
                     | Some i \<Rightarrow> b\<lparr>fb_timers := clearTimeout i (fb_timers b)\<rparr>)
           in fb_emit close_event (b1\<lparr>fb_state := CLOSED\<rparr>))"

definition fb_success :: "'l fixed_breaker \<Rightarrow> 'l fixed_breaker" where
  "fb_success b = fb_close (b\<lparr>fb_errorCount := 0\<rparr>)"

definition fb_onOpen :: "'l \<Rightarrow> 'l fixed_breaker \<Rightarrow> 'l fixed_breaker" where
  "fb_onOpen l b = b\<lparr>fb_emitter := em_on open_event l (fb_emitter b)\<rparr>"

definition fb_onOpen_dispose :: "'l \<Rightarrow> 'l fixed_breaker \<Rightarrow> 'l fixed_breaker" where
  "fb_onOpen_dispose l b = b\<lparr>fb_emitter := em_removeListener open_event l (fb_emitter b)\<rparr>"

definition fb_onClose :: "'l \<Rightarrow> 'l fixed_breaker \<Rightarrow> 'l fixed_breaker" where
  "fb_onClose l b = b\<lparr>fb_emitter := em_on close_event l (fb_emitter b)\<rparr>"

definition fb_onClose_dispose :: "'l \<Rightarrow> 'l fixed_breaker \<Rightarrow> 'l fixed_breaker" where
  "fb_onClose_dispose l b = b\<lparr>fb_emitter := em_removeListener close_event l (fb_emitter b)\<rparr>"

text \<open>The event loop takes a due timer off the queue and runs its callback.\<close>

definition fb_fire :: "nat \<Rightarrow> 'l fixed_breaker \<Rightarrow> 'l fixed_breaker" where
  "fb_fire i b = fb_close (b\<lparr>fb_timers := clearTimeout i (fb_timers b)\<rparr>)"

inductive fb_step :: "'l fixed_breaker \<Rightarrow> 'l fixed_breaker \<Rightarrow> bool" where
  fb_step_error: "fb_step b (fb_error b)"
| fb_step_success: "fb_step b (fb_success b)"
| fb_step_onOpen: "fb_step b (fb_onOpen l b)"
| fb_step_onOpen_dispose: "fb_step b (fb_onOpen_dispose l b)"
| fb_step_onClose: "fb_step b (fb_onClose l b)"
| fb_step_onClose_dispose: "fb_step b (fb_onClose_dispose l b)"
| fb_step_fire: "(i, due, ()) \<in> set (rt_due (fb_timers b)) \<Longrightarrow> fb_step b (fb_fire i b)"
| fb_step_tick: "rt_due (fb_timers b) = [] \<Longrightarrow> fb_step b (b\<lparr>fb_timers := rt_tick 1 (fb_timers b)\<rparr>)"

inductive fb_reachable :: "nat \<Rightarrow> nat \<Rightarrow> 'l fixed_breaker \<Rightarrow> bool" for m t where
  fb_reach_new: "fb_reachable m t (fb_new m t)"
| fb_reach_step: "fb_reachable m t b \<Longrightarrow> fb_step b b' \<Longrightarrow> fb_reachable m t b'"

lemmas fb_defs = fb_emit_def fb_open_def fb_error_def fb_isOpen_def fb_close_def fb_success_def
  fb_onOpen_def fb_onOpen_dispose_def fb_onClose_def fb_onClose_dispose_def fb_fire_def

text \<open>
  The invariant: the thresholds never change, timers are well formed and due within the break time,
  and while the breaker is open its error count has reached the threshold and \<open>#timeoutId\<close> is a
  pending timer.
\<close>

definition fb_inv :: "'l fixed_breaker \<Rightarrow> bool" where
  "fb_inv b \<longleftrightarrow>
     rt_wf (fb_timers b) \<and>
     (\<forall>t \<in> set (rt_pending (fb_timers b)).
        fst (snd t) \<le> rt_now (fb_timers b) + fb_breakTimeMs b) \<and>
     (fb_state b = OPEN \<longrightarrow>
        fb_maxErrors b \<le> fb_errorCount b \<and>
        (\<exists>i due. fb_timeoutId b = Some i \<and> (i, due, ()) \<in> set (rt_pending (fb_timers b))))"

lemma fb_inv_new [inv_intros]: "fb_inv (fb_new m t)"
  by (simp add: fb_inv_def fb_new_def rt_init_def rt_wf_def)

lemma fb_inv_open:
  assumes "fb_inv b" and "fb_maxErrors b \<le> fb_errorCount b"
  shows "fb_inv (fb_open b)"
  using assms rt_wf_setTimeout [of "fb_timers b" "()" "fb_breakTimeMs b"]
  by (auto simp: fb_inv_def fb_open_def fb_emit_def Let_def split: prod.splits)
    (auto simp: setTimeout_def)

lemma fb_inv_close [inv_intros]: "fb_inv b \<Longrightarrow> fb_inv (fb_close b)"
  by (auto simp: fb_inv_def fb_close_def fb_emit_def Let_def rt_wf_clearTimeout split: option.splits)

lemma fb_inv_errorCount:
  "fb_inv b \<Longrightarrow> fb_state b = OPEN \<longrightarrow> fb_maxErrors b \<le> n \<Longrightarrow> fb_inv (b\<lparr>fb_errorCount := n\<rparr>)"
  by (simp add: fb_inv_def)

lemma fb_inv_error [inv_intros]: "fb_inv b \<Longrightarrow> fb_inv (fb_error b)"
proof -
  assume b: "fb_inv b"
  then have "fb_inv (b\<lparr>fb_errorCount := fb_errorCount b + 1\<rparr>)"
    by (rule fb_inv_errorCount) (use b in \<open>auto simp: fb_inv_def\<close>)
  then show ?thesis by (simp add: fb_error_def Let_def fb_inv_open)
qed

text \<open>Closing clears the error count first, which is harmless: the breaker ends closed.\<close>

lemma fb_close_errorCount:
  "fb_close (b\<lparr>fb_errorCount := n\<rparr>) = (fb_close b)\<lparr>fb_errorCount := n\<rparr>"
  by (cases "fb_timeoutId b") (simp_all add: fb_close_def fb_emit_def Let_def)

lemma fb_close_closed [simp]: "fb_state (fb_close b) = CLOSED"
  by (auto simp: fb_close_def fb_emit_def Let_def split: option.splits)

lemma fb_inv_success [inv_intros]: "fb_inv b \<Longrightarrow> fb_inv (fb_success b)"
  unfolding fb_success_def fb_close_errorCount
  by (rule fb_inv_errorCount) (auto intro: inv_intros)

lemma fb_close_clear_timer:
  assumes "fb_inv b"
  shows "fb_inv (fb_fire i b)"
proof (cases "fb_state b")
  case OPEN
  with assms show ?thesis
    by (auto simp: fb_inv_def fb_fire_def fb_close_def fb_emit_def Let_def rt_wf_clearTimeout
        split: option.splits)
next
  case CLOSED
  with assms show ?thesis
    by (auto simp: fb_inv_def fb_fire_def fb_close_def rt_wf_clearTimeout)
qed

lemma fb_inv_listeners [inv_intros]:
  "fb_inv b \<Longrightarrow> fb_inv (fb_onOpen l b)" "fb_inv b \<Longrightarrow> fb_inv (fb_onOpen_dispose l b)"
  "fb_inv b \<Longrightarrow> fb_inv (fb_onClose l b)" "fb_inv b \<Longrightarrow> fb_inv (fb_onClose_dispose l b)"
  by (simp_all add: fb_inv_def fb_onOpen_def fb_onOpen_dispose_def fb_onClose_def
      fb_onClose_dispose_def)

lemma fb_inv_step: "fb_step b b' \<Longrightarrow> fb_inv b \<Longrightarrow> fb_inv b'"
proof (induction rule: fb_step.induct)
  case (fb_step_fire i due b)
  from fb_step_fire.prems show ?case by (rule fb_close_clear_timer)
next
  case (fb_step_tick b)
  then show ?case by (force simp: fb_inv_def rt_wf_tick)
qed (auto intro: inv_intros)

lemma fb_reachable_inv: "fb_reachable m t b \<Longrightarrow> fb_inv b"
  by (induction rule: fb_reachable.induct) (auto intro: fb_inv_new fb_inv_step)

lemma fb_frame [frame_simps]:
  "fb_maxErrors (fb_error b) = fb_maxErrors b" "fb_breakTimeMs (fb_error b) = fb_breakTimeMs b"
  "fb_maxErrors (fb_close b) = fb_maxErrors b" "fb_breakTimeMs (fb_close b) = fb_breakTimeMs b"
  "fb_maxErrors (fb_success b) = fb_maxErrors b" "fb_breakTimeMs (fb_success b) = fb_breakTimeMs b"
  by (auto simp: fb_defs Let_def setTimeout_def split: option.splits)

lemma fb_step_frame:
  "fb_step b b' \<Longrightarrow> fb_maxErrors b' = fb_maxErrors b \<and> fb_breakTimeMs b' = fb_breakTimeMs b"
  by (induction rule: fb_step.induct)
    (auto simp: frame_simps fb_onOpen_def fb_onOpen_dispose_def fb_onClose_def
      fb_onClose_dispose_def fb_fire_def)

lemma fb_reachable_frame: "fb_reachable m t b \<Longrightarrow> fb_maxErrors b = m \<and> fb_breakTimeMs b = t"
  by (induction rule: fb_reachable.induct) (auto simp: fb_new_def dest: fb_step_frame)

interpretation fb: circuit_breaker fb_error fb_success fb_isOpen fb_inv
proof unfold_locales
  fix b :: "'l fixed_breaker"
  show "\<not> fb_isOpen (fb_success b)" by (simp add: fb_isOpen_def fb_success_def)
  show "fb_isOpen b \<Longrightarrow> fb_isOpen (fb_error b)"
    by (simp add: fb_isOpen_def fb_error_def fb_open_def fb_emit_def Let_def setTimeout_def)
qed (auto intro: inv_intros)

text \<open>The number of errors it takes: the breaker opens exactly at the threshold.\<close>

lemma fb_error_isOpen:
  "fb_isOpen (fb_error b) \<longleftrightarrow> fb_isOpen b \<or> fb_maxErrors b \<le> fb_errorCount b + 1"
  by (simp add: fb_isOpen_def fb_error_def fb_open_def fb_emit_def Let_def setTimeout_def)

lemma fb_error_count [simp]: "fb_errorCount (fb_error b) = fb_errorCount b + 1"
  by (simp add: fb_error_def fb_open_def fb_emit_def Let_def setTimeout_def)

lemma fb_errors_isOpen:
  "\<not> fb_isOpen b \<Longrightarrow> fb_errorCount b < fb_maxErrors b \<Longrightarrow>
   fb_isOpen (cb_run fb_error fb_success (replicate n Call_error) b) \<longleftrightarrow>
     fb_maxErrors b \<le> fb_errorCount b + n"
proof (induction n arbitrary: b)
  case 0
  then show ?case by simp
next
  case (Suc n)
  show ?case
  proof (cases "fb_maxErrors b \<le> fb_errorCount b + 1")
    case True
    then have "fb_isOpen (fb_error b)" by (simp add: fb_error_isOpen)
    with True show ?thesis using fb.run_errors_open [of "fb_error b" n] by simp
  next
    case False
    with Suc.prems have "\<not> fb_isOpen (fb_error b)" by (simp add: fb_error_isOpen)
    with False Suc.IH [of "fb_error b"] show ?thesis by (simp add: frame_simps)
  qed
qed

subsection \<open>ExponentialBackoffCircuitBreaker\<close>

definition DEFAULT_INITIAL_BACKOFF_MS :: nat where
  "DEFAULT_INITIAL_BACKOFF_MS = 1000"

definition DEFAULT_MAX_BACKOFF_MS :: nat where
  "DEFAULT_MAX_BACKOFF_MS = 60000"

definition DEFAULT_BACKOFF_MULTIPLIER :: nat where
  "DEFAULT_BACKOFF_MULTIPLIER = 2"

record 'l backoff_breaker =
  eb_state :: CircuitBreakerState
  eb_initialBackoffMs :: nat
  eb_maxBackoffMs :: nat
  eb_backoffMultiplier :: nat
  eb_errorCount :: nat
  eb_emitter :: "(cb_event, 'l) emitter"
  eb_timeoutId :: "nat option"
  eb_timers :: "unit timers"
  eb_calls :: "'l list"

text \<open>The option \<open>maxErrorsBeforeBreaking\<close> of the constructor's argument type is not read by the code.\<close>

definition eb_new :: "nat option \<Rightarrow> nat option \<Rightarrow> nat option \<Rightarrow> 'l backoff_breaker" where
  "eb_new initialBackoffMs maxBackoffMs backoffMultiplier =
     \<lparr>eb_state = CLOSED,
      eb_initialBackoffMs = case_option DEFAULT_INITIAL_BACKOFF_MS id initialBackoffMs,
      eb_maxBackoffMs = case_option DEFAULT_MAX_BACKOFF_MS id maxBackoffMs,
      eb_backoffMultiplier = case_option DEFAULT_BACKOFF_MULTIPLIER id backoffMultiplier,
      eb_errorCount = 0, eb_emitter = [], eb_timeoutId = None, eb_timers = rt_init, eb_calls = []\<rparr>"

definition eb_emit :: "cb_event \<Rightarrow> 'l backoff_breaker \<Rightarrow> 'l backoff_breaker" where
  "eb_emit e b = b\<lparr>eb_calls := eb_calls b @ em_listeners e (eb_emitter b)\<rparr>"

text \<open>Called after at least one error: the exponent is the error count less one.\<close>

definition eb_getBackoffTime :: "'l backoff_breaker \<Rightarrow> nat" where
  "eb_getBackoffTime b =
     min (eb_initialBackoffMs b * eb_backoffMultiplier b ^ (eb_errorCount b - 1)) (eb_maxBackoffMs b)"

definition eb_open :: "'l backoff_breaker \<Rightarrow> 'l backoff_breaker" where
  "eb_open b =
     (if eb_state b = OPEN then b
      else let b1 = b\<lparr>eb_state := OPEN\<rparr>;
               (i, rt) = setTimeout () (eb_getBackoffTime b1) (eb_timers b1)
           in eb_emit open_event (b1\<lparr>eb_timeoutId := Some i, eb_timers := rt\<rparr>))"

definition eb_error :: "'l backoff_breaker \<Rightarrow> 'l backoff_breaker" where
  "eb_error b = eb_open (b\<lparr>eb_errorCount := eb_errorCount b + 1\<rparr>)"

definition eb_megaError :: "'l backoff_breaker \<Rightarrow> 'l backoff_breaker" where
  "eb_megaError b = eb_open (b\<lparr>eb_errorCount := eb_errorCount b + 3\<rparr>)"

definition eb_close :: "'l backoff_breaker \<Rightarrow> 'l backoff_breaker" where
  "eb_close b =
     (if eb_state b = CLOSED then b
      else let b1 = (case eb_timeoutId b of
                       None \<Rightarrow> b
                     | Some i \<Rightarrow> b\<lparr>eb_timers := clearTimeout i (eb_timers b)\<rparr>)
           in eb_emit close_event (b1\<lparr>eb_state := CLOSED\<rparr>))"

definition eb_isOpen :: "'l backoff_breaker \<Rightarrow> bool" where
  "eb_isOpen b \<longleftrightarrow> eb_state b = OPEN"

definition eb_success :: "'l backoff_breaker \<Rightarrow> 'l backoff_breaker" where
  "eb_success b = eb_close (b\<lparr>eb_errorCount := 0\<rparr>)"

definition eb_onOpen :: "'l \<Rightarrow> 'l backoff_breaker \<Rightarrow> 'l backoff_breaker" where
  "eb_onOpen l b = b\<lparr>eb_emitter := em_on open_event l (eb_emitter b)\<rparr>"

definition eb_onClose :: "'l \<Rightarrow> 'l backoff_breaker \<Rightarrow> 'l backoff_breaker" where
  "eb_onClose l b = b\<lparr>eb_emitter := em_on close_event l (eb_emitter b)\<rparr>"

definition eb_onOpen_dispose :: "'l \<Rightarrow> 'l backoff_breaker \<Rightarrow> 'l backoff_breaker" where
  "eb_onOpen_dispose l b = b\<lparr>eb_emitter := em_removeListener open_event l (eb_emitter b)\<rparr>"

definition eb_onClose_dispose :: "'l \<Rightarrow> 'l backoff_breaker \<Rightarrow> 'l backoff_breaker" where
  "eb_onClose_dispose l b = b\<lparr>eb_emitter := em_removeListener close_event l (eb_emitter b)\<rparr>"

definition eb_fire :: "nat \<Rightarrow> 'l backoff_breaker \<Rightarrow> 'l backoff_breaker" where
  "eb_fire i b = eb_close (b\<lparr>eb_timers := clearTimeout i (eb_timers b)\<rparr>)"

inductive eb_step :: "'l backoff_breaker \<Rightarrow> 'l backoff_breaker \<Rightarrow> bool" where
  eb_step_error: "eb_step b (eb_error b)"
| eb_step_megaError: "eb_step b (eb_megaError b)"
| eb_step_success: "eb_step b (eb_success b)"
| eb_step_onOpen: "eb_step b (eb_onOpen l b)"
| eb_step_onOpen_dispose: "eb_step b (eb_onOpen_dispose l b)"
| eb_step_onClose: "eb_step b (eb_onClose l b)"
| eb_step_onClose_dispose: "eb_step b (eb_onClose_dispose l b)"
| eb_step_fire: "(i, due, ()) \<in> set (rt_due (eb_timers b)) \<Longrightarrow> eb_step b (eb_fire i b)"
| eb_step_tick: "rt_due (eb_timers b) = [] \<Longrightarrow> eb_step b (b\<lparr>eb_timers := rt_tick 1 (eb_timers b)\<rparr>)"

inductive eb_reachable :: "'l backoff_breaker \<Rightarrow> 'l backoff_breaker \<Rightarrow> bool" for b0 where
  eb_reach_new: "eb_reachable b0 b0"
| eb_reach_step: "eb_reachable b0 b \<Longrightarrow> eb_step b b' \<Longrightarrow> eb_reachable b0 b'"

text \<open>
  Because \<open>#open\<close> returns early when the breaker is open, there is exactly one pending timer while
  it is open and none while it is closed.
\<close>

definition eb_inv :: "'l backoff_breaker \<Rightarrow> bool" where
  "eb_inv b \<longleftrightarrow>
     rt_wf (eb_timers b) \<and>
     (case eb_state b of
        CLOSED \<Rightarrow> rt_pending (eb_timers b) = []
      | OPEN \<Rightarrow> 1 \<le> eb_errorCount b \<and>
          (\<exists>i due. eb_timeoutId b = Some i \<and> rt_pending (eb_timers b) = [(i, due, ())] \<and>
             due \<le> rt_now (eb_timers b) + eb_maxBackoffMs b))"

lemma eb_inv_new [inv_intros]: "eb_inv (eb_new i m k)"
  by (simp add: eb_inv_def eb_new_def rt_init_def rt_wf_def)

lemma eb_backoff_le_max: "eb_getBackoffTime b \<le> eb_maxBackoffMs b"
  by (simp add: eb_getBackoffTime_def)

lemma eb_inv_open: "eb_inv (b\<lparr>eb_errorCount := n\<rparr>) \<Longrightarrow> 1 \<le> m \<Longrightarrow> eb_inv (eb_open (b\<lparr>eb_errorCount := m\<rparr>))"
  by (auto simp: eb_inv_def eb_open_def eb_emit_def Let_def setTimeout_def rt_wf_def
      eb_getBackoffTime_def split: CircuitBreakerState.splits)

lemma eb_errorCount_update [simp]: "b\<lparr>eb_errorCount := eb_errorCount b\<rparr> = b"
  by simp

lemma eb_inv_error [inv_intros]: "eb_inv b \<Longrightarrow> eb_inv (eb_error b)" "eb_inv b \<Longrightarrow> eb_inv (eb_megaError b)"
  using eb_inv_open [where b = b and n = "eb_errorCount b"] by (simp_all add: eb_error_def eb_megaError_def)

lemma eb_inv_close:
  assumes "eb_inv b"
  shows "eb_inv ((eb_close b)\<lparr>eb_errorCount := n\<rparr>)"
  using assms
  by (cases "eb_state b")
    (auto simp: eb_inv_def eb_close_def eb_emit_def Let_def rt_wf_def)

lemma eb_close_errorCount:
  "eb_close (b\<lparr>eb_errorCount := n\<rparr>) = (eb_close b)\<lparr>eb_errorCount := n\<rparr>"
  by (cases "eb_timeoutId b") (simp_all add: eb_close_def eb_emit_def Let_def)

lemma eb_inv_success [inv_intros]: "eb_inv b \<Longrightarrow> eb_inv (eb_success b)"
  unfolding eb_success_def eb_close_errorCount by (rule eb_inv_close)

lemma eb_inv_fire [inv_intros]: "eb_inv b \<Longrightarrow> eb_inv (eb_fire i b)"
  by (cases "eb_state b")
    (auto simp: eb_inv_def eb_fire_def eb_close_def eb_emit_def Let_def rt_wf_def split: option.splits)

lemma eb_inv_listeners [inv_intros]:
  "eb_inv b \<Longrightarrow> eb_inv (eb_onOpen l b)" "eb_inv b \<Longrightarrow> eb_inv (eb_onOpen_dispose l b)"
  "eb_inv b \<Longrightarrow> eb_inv (eb_onClose l b)" "eb_inv b \<Longrightarrow> eb_inv (eb_onClose_dispose l b)"
  by (simp_all add: eb_inv_def eb_onOpen_def eb_onOpen_dispose_def eb_onClose_def
      eb_onClose_dispose_def cong: CircuitBreakerState.case_cong)

lemma eb_inv_step: "eb_step b b' \<Longrightarrow> eb_inv b \<Longrightarrow> eb_inv b'"
proof (induction rule: eb_step.induct)
  case (eb_step_tick b)
  then show ?case
    by (cases "eb_state b") (auto simp: eb_inv_def rt_wf_tick)
qed (auto intro: inv_intros)

lemma eb_reachable_inv: "eb_reachable b0 b \<Longrightarrow> eb_inv b0 \<Longrightarrow> eb_inv b"
  by (induction rule: eb_reachable.induct) (auto intro: eb_inv_step)

interpretation eb: circuit_breaker eb_error eb_success eb_isOpen eb_inv
proof unfold_locales
  fix b :: "'l backoff_breaker"
  show "\<not> eb_isOpen (eb_success b)"
    by (auto simp: eb_isOpen_def eb_success_def eb_close_def eb_emit_def Let_def split: option.splits)
  show "eb_isOpen b \<Longrightarrow> eb_isOpen (eb_error b)"
    by (simp add: eb_isOpen_def eb_error_def eb_open_def)
qed (auto intro: inv_intros)

text \<open>With a multiplier of at least one the backoff never shrinks as errors accumulate.\<close>

lemma eb_backoff_mono:
  assumes "1 \<le> eb_backoffMultiplier b" and "m \<le> n"
  shows "eb_getBackoffTime (b\<lparr>eb_errorCount := m\<rparr>) \<le> eb_getBackoffTime (b\<lparr>eb_errorCount := n\<rparr>)"
proof -
  have "eb_backoffMultiplier b ^ (m - 1) \<le> eb_backoffMultiplier b ^ (n - 1)"
    using assms by (intro power_increasing) auto
  then show ?thesis by (simp add: eb_getBackoffTime_def min.coboundedI1 le_diff_conv)
qed

subsection \<open>Properties\<close>

text \<open>C31: a reachable open \<open>FixedTimeCircuitBreaker\<close> is never stuck: the timer it remembers is pending,
  it is due within the break time, and running its callback closes the breaker.\<close>

theorem fixed_breaker_never_stuck:
  assumes "fb_reachable m t b" and "fb_isOpen b"
  shows "\<exists>i due. fb_timeoutId b = Some i \<and> (i, due, ()) \<in> set (rt_pending (fb_timers b)) \<and>
           due \<le> rt_now (fb_timers b) + t \<and> \<not> fb_isOpen (fb_fire i b)"
proof -
  have inv: "fb_inv b" and t: "fb_breakTimeMs b = t"
    using fb_reachable_inv [OF assms(1)] fb_reachable_frame [OF assms(1)] by auto
  then obtain i due where "fb_timeoutId b = Some i" "(i, due, ()) \<in> set (rt_pending (fb_timers b))"
    using assms(2) by (auto simp: fb_inv_def fb_isOpen_def)
  moreover have "due \<le> rt_now (fb_timers b) + t"
    using inv calculation(2) t by (force simp: fb_inv_def)
  moreover have "\<not> fb_isOpen (fb_fire i b)" by (simp add: fb_isOpen_def fb_fire_def)
  ultimately show ?thesis by blast
qed

theorem fixed_breaker_never_stuck_witness:
  "\<exists>i due. fb_timeoutId (fb_error (fb_new 1 5 :: nat fixed_breaker)) = Some i \<and>
     (i, due, ()) \<in> set (rt_pending (fb_timers (fb_error (fb_new 1 5 :: nat fixed_breaker)))) \<and>
     due \<le> rt_now (fb_timers (fb_error (fb_new 1 5 :: nat fixed_breaker))) + 5 \<and>
     \<not> fb_isOpen (fb_fire i (fb_error (fb_new 1 5 :: nat fixed_breaker)))"
proof (rule fixed_breaker_never_stuck [where m = 1])
  show "fb_reachable 1 5 (fb_error (fb_new 1 5 :: nat fixed_breaker))"
    by (rule fb_reach_step [OF fb_reach_new fb_step_error])
  show "fb_isOpen (fb_error (fb_new 1 5 :: nat fixed_breaker))"
    by (simp add: fb_error_isOpen) (simp add: fb_new_def)
qed

text \<open>From its initial state the breaker opens exactly at the configured number of consecutive errors,
  and one success closes it whatever came before.\<close>

theorem fixed_breaker_threshold:
  assumes "0 < m"
  shows "(fb_isOpen (cb_run fb_error fb_success (replicate n Call_error) (fb_new m t)) \<longleftrightarrow> m \<le> n) \<and>
         \<not> fb_isOpen (cb_run fb_error fb_success (cs @ [Call_success]) (fb_new m t))"
proof
  have "\<not> fb_isOpen (fb_new m t)" by (simp add: fb_isOpen_def fb_new_def)
  moreover have "fb_errorCount (fb_new m t) < fb_maxErrors (fb_new m t)"
    using assms by (simp add: fb_new_def)
  ultimately show "fb_isOpen (cb_run fb_error fb_success (replicate n Call_error) (fb_new m t)) \<longleftrightarrow> m \<le> n"
    using fb_errors_isOpen [of "fb_new m t" n] by (simp add: fb_new_def)
  show "\<not> fb_isOpen (cb_run fb_error fb_success (cs @ [Call_success]) (fb_new m t))"
    by (rule fb.run_success_last)
qed

theorem fixed_breaker_threshold_witness:
  "fb_isOpen (cb_run fb_error fb_success (replicate 4 Call_error) (fb_default :: nat fixed_breaker)) \<and>
   \<not> fb_isOpen (cb_run fb_error fb_success (replicate 3 Call_error) (fb_default :: nat fixed_breaker))"
  unfolding fb_default_def MAX_ERRORS_BEFORE_CIRCUIT_BREAK_def
  using fixed_breaker_threshold [of 4 4] fixed_breaker_threshold [of 4 3] by auto

text \<open>
  The clock can move by several milliseconds when no timer is due in between.
\<close>

lemma fb_reach_ticks:
  assumes "fb_reachable m t b" and "\<forall>p \<in> set (rt_pending (fb_timers b)). rt_now (fb_timers b) + n \<le> fst (snd p)"
  shows "fb_reachable m t (b\<lparr>fb_timers := rt_tick n (fb_timers b)\<rparr>)"
  using assms(2)
proof (induction n)
  case 0
  with assms(1) show ?case by (simp add: rt_tick_def)
next
  case (Suc n)
  let ?b = "b\<lparr>fb_timers := rt_tick n (fb_timers b)\<rparr>"
  have "fb_reachable m t ?b" using Suc by force
  moreover have "rt_due (fb_timers ?b) = []"
    using Suc.prems by (force simp: rt_due_def filter_empty_conv)
  then have "fb_step ?b (?b\<lparr>fb_timers := rt_tick 1 (fb_timers ?b)\<rparr>)" by (rule fb_step_tick)
  ultimately have "fb_reachable m t (?b\<lparr>fb_timers := rt_tick 1 (fb_timers ?b)\<rparr>)"
    by (rule fb_reach_step)
  then show ?case by (simp add: rt_tick_def)
qed

lemma fb_reach_run: "fb_reachable m t b \<Longrightarrow> fb_reachable m t (cb_run fb_error fb_success cs b)"
proof (induction cs arbitrary: b)
  case Nil
  then show ?case by simp
next
  case (Cons c cs)
  then show ?case by (cases c) (auto intro: fb_reach_step fb_step_error fb_step_success)
qed

definition fb_leak_start :: "nat fixed_breaker" where
  "fb_leak_start =
     cb_run fb_error fb_success
       [Call_error, Call_error, Call_error, Call_error, Call_error, Call_success] fb_default"

definition fb_leak_open :: "nat fixed_breaker" where
  "fb_leak_open =
     cb_run fb_error fb_success [Call_error, Call_error, Call_error, Call_error]
       (fb_leak_start\<lparr>fb_timers := rt_tick 9999 (fb_timers fb_leak_start)\<rparr>)"

definition fb_leak_due :: "nat fixed_breaker" where
  "fb_leak_due = fb_leak_open\<lparr>fb_timers := rt_tick 1 (fb_timers fb_leak_open)\<rparr>"

lemmas fb_eval = fb_default_def fb_new_def fb_error_def fb_open_def fb_emit_def
  fb_success_def fb_close_def fb_fire_def fb_isOpen_def MAX_ERRORS_BEFORE_CIRCUIT_BREAK_def
  CIRCUIT_BREAK_INTERVAL_MS_def rt_init_def setTimeout_def clearTimeout_def rt_tick_def rt_due_def
  em_listeners_def Let_def

lemma fb_leak_start_eval:
  "fb_leak_start =
     \<lparr>fb_state = CLOSED, fb_maxErrors = 4, fb_breakTimeMs = 10000, fb_errorCount = 0, fb_emitter = [],
      fb_timeoutId = Some 1,
      fb_timers = \<lparr>rt_now = 0, rt_next = 2, rt_pending = [(0, 10000, ())]\<rparr>, fb_calls = []\<rparr>"
  by (simp add: fb_leak_start_def fb_eval)

lemma fb_leak_open_eval:
  "fb_leak_open =
     \<lparr>fb_state = OPEN, fb_maxErrors = 4, fb_breakTimeMs = 10000, fb_errorCount = 4, fb_emitter = [],
      fb_timeoutId = Some 2,
      fb_timers = \<lparr>rt_now = 9999, rt_next = 3, rt_pending = [(0, 10000, ()), (2, 19999, ())]\<rparr>,
      fb_calls = []\<rparr>"
  by (simp add: fb_leak_open_def fb_leak_start_eval) (simp add: fb_eval)

text \<open>An error while the breaker is already open starts another timer and forgets the one before, so
  a success does not clear that one.  With the default settings: after five errors and a success, four
  errors at time 9999 open the breaker and the forgotten timer closes it one millisecond later,
  although the break time is 10000.
\<close>

theorem fixed_breaker_forgotten_timer:
  "fb_reachable MAX_ERRORS_BEFORE_CIRCUIT_BREAK CIRCUIT_BREAK_INTERVAL_MS fb_leak_due \<and>
   fb_isOpen fb_leak_due \<and> rt_now (fb_timers fb_leak_due) = 10000 \<and>
   fb_timeoutId fb_leak_due = Some 2 \<and> (2, 19999, ()) \<in> set (rt_pending (fb_timers fb_leak_due)) \<and>
   (0, 10000, ()) \<in> set (rt_due (fb_timers fb_leak_due)) \<and> \<not> fb_isOpen (fb_fire 0 fb_leak_due)"
proof -
  let ?R = "fb_reachable MAX_ERRORS_BEFORE_CIRCUIT_BREAK CIRCUIT_BREAK_INTERVAL_MS"
  have "?R fb_leak_start"
    unfolding fb_leak_start_def fb_default_def by (rule fb_reach_run [OF fb_reach_new])
  then have "?R (fb_leak_start\<lparr>fb_timers := rt_tick 9999 (fb_timers fb_leak_start)\<rparr>)"
    by (rule fb_reach_ticks) (simp add: fb_leak_start_eval)
  then have "?R fb_leak_open" unfolding fb_leak_open_def by (rule fb_reach_run)
  then have "?R fb_leak_due"
    unfolding fb_leak_due_def by (rule fb_reach_ticks) (simp add: fb_leak_open_eval)
  moreover have "\<not> fb_isOpen (fb_fire 0 fb_leak_due)" by (simp add: fb_isOpen_def fb_fire_def)
  ultimately show ?thesis
    by (simp add: fb_leak_due_def fb_leak_open_eval fb_isOpen_def rt_tick_def rt_due_def)
qed

text \<open>An \<open>ExponentialBackoffCircuitBreaker\<close> has exactly one pending timer while it is open, due within
  the maximal backoff, whose callback closes it, and no pending timer while it is closed.\<close>

theorem backoff_breaker_one_timer:
  assumes "eb_reachable (eb_new i m k) b"
  shows "if eb_isOpen b
         then \<exists>j due. eb_timeoutId b = Some j \<and> rt_pending (eb_timers b) = [(j, due, ())] \<and>
                due \<le> rt_now (eb_timers b) + eb_maxBackoffMs b \<and> \<not> eb_isOpen (eb_fire j b)
         else rt_pending (eb_timers b) = []"
proof -
  have "eb_inv b" using assms eb_inv_new by (rule eb_reachable_inv)
  moreover have "eb_state (eb_close c) = CLOSED" for c :: "'a backoff_breaker"
    by (auto simp: eb_close_def eb_emit_def Let_def split: option.splits)
  then have "\<not> eb_isOpen (eb_fire j b)" for j by (simp add: eb_isOpen_def eb_fire_def)
  ultimately show ?thesis
    by (cases "eb_state b") (auto simp: eb_inv_def eb_isOpen_def)
qed

theorem backoff_breaker_one_timer_witness:
  "\<exists>j due. rt_pending (eb_timers (eb_error (eb_new None None None :: nat backoff_breaker))) = [(j, due, ())]"
proof -
  let ?b = "eb_error (eb_new None None None :: nat backoff_breaker)"
  have "eb_reachable (eb_new None None None) ?b" by (rule eb_reach_step [OF eb_reach_new eb_step_error])
  from backoff_breaker_one_timer [OF this] show ?thesis
    by (simp add: eb_isOpen_def eb_error_def eb_open_def eb_emit_def eb_new_def Let_def setTimeout_def)
qed

definition eb_delay :: "'l backoff_breaker \<Rightarrow> nat \<Rightarrow> nat" where
  "eb_delay b n = eb_getBackoffTime (b\<lparr>eb_errorCount := n\<rparr>)"

text \<open>While the breaker stays in use, the delay before it closes again is the initial backoff times the
  multiplier to the number of earlier errors, capped at the maximum; it never decreases from one error
  to the next.\<close>

theorem backoff_breaker_delay:
  assumes "\<not> eb_isOpen b" and "1 \<le> eb_backoffMultiplier b"
  shows "rt_pending (eb_timers (eb_error b)) =
           rt_pending (eb_timers b) @
             [(rt_next (eb_timers b),
               rt_now (eb_timers b) +
                 min (eb_initialBackoffMs b * eb_backoffMultiplier b ^ eb_errorCount b) (eb_maxBackoffMs b),
               ())] \<and>
         eb_delay b (eb_errorCount b) \<le> eb_delay b (eb_errorCount (eb_error b))"
proof
  have closed: "eb_state b = CLOSED" using assms(1) by (cases "eb_state b") (auto simp: eb_isOpen_def)
  then show "rt_pending (eb_timers (eb_error b)) =
           rt_pending (eb_timers b) @
             [(rt_next (eb_timers b),
               rt_now (eb_timers b) +
                 min (eb_initialBackoffMs b * eb_backoffMultiplier b ^ eb_errorCount b) (eb_maxBackoffMs b),
               ())]"
    by (simp add: eb_error_def eb_open_def eb_emit_def Let_def setTimeout_def eb_getBackoffTime_def)
  have "eb_errorCount (eb_error b) = eb_errorCount b + 1"
    by (simp add: eb_error_def eb_open_def eb_emit_def Let_def setTimeout_def)
  with assms(2) show "eb_delay b (eb_errorCount b) \<le> eb_delay b (eb_errorCount (eb_error b))"
    unfolding eb_delay_def by (intro eb_backoff_mono) simp_all
qed

theorem backoff_breaker_delay_witness:
  "rt_pending (eb_timers (eb_error (eb_new (Some 500) None None :: nat backoff_breaker))) = [(0, 500, ())]"
proof -
  let ?b = "eb_new (Some 500) None None :: nat backoff_breaker"
  have "\<not> eb_isOpen ?b" "1 \<le> eb_backoffMultiplier ?b"
    by (simp_all add: eb_isOpen_def eb_new_def DEFAULT_BACKOFF_MULTIPLIER_def)
  from backoff_breaker_delay [OF this] show ?thesis
    by (simp add: eb_new_def rt_init_def DEFAULT_BACKOFF_MULTIPLIER_def DEFAULT_MAX_BACKOFF_MS_def)
qed

end
