(* ===== verification/Instance_Tracker.thy ===== *)
theory Instance_Tracker
  imports Telemetry_Tracker Circuit_Breaker
begin

text \<open>
  \<open>src/common/tracking/code_suggestions/code_suggestions_instance_tracker.ts\<close>: the tracker that posts
  shown, accepted and rejected suggestions to the instance.

  A request is sent when \<open>#trackCodeSuggestionsEvent\<close> reaches \<open>fetchFromApi\<close>; its promise settles
  later, so the rest of that method is the two steps \<open>it_fetch_ok\<close> and \<open>it_fetch_failed\<close>.  The clock of
  the timers stands for \<open>new Date()\<close>.
\<close>

record instance_context =
  ix_language :: "string option"
  ix_suggestion_size :: "nat option"
  ix_timestamp :: nat
  ix_is_streaming :: "bool option"

record instance_request =
  ir_event :: string
  ir_unique_tracking_id :: string
  ir_timestamp :: nat
  ir_language :: "string option"
  ir_suggestion_size :: "nat option"

record instance_tracker =
  it_contexts :: "(string, instance_context) jsmap"
  it_breaker :: "string fixed_breaker"
  it_enabled :: bool
  it_baseUrl :: "string option"
  it_actions :: "tracking_event list"
  it_states :: suggestion_states
  it_invalidInstanceMsgLogged :: bool
  it_gc :: "string timers"
  it_requests :: "instance_request list"
  it_sent :: "(tracking_event \<times> string) list"
  it_warnings :: nat

text \<open>The listeners of the constructor, by the message they log.\<close>

definition msg_retry_later :: string where
  "msg_retry_later = ''Warning: Too many failures when sending telemetry to your KhulnaSoft instance. Please retry later.''"

definition msg_try_again :: string where
  "msg_try_again = ''From now on, we will try to send telemetry to your KhulnaSoft instance again''"

definition it_new :: instance_tracker where
  "it_new =
     \<lparr>it_contexts = [],
      it_breaker = fb_onOpen msg_try_again (fb_onClose msg_retry_later fb_default),
      it_enabled = True, it_baseUrl = None, it_actions = [], it_states = [],
      it_invalidInstanceMsgLogged = False, it_gc = rt_init, it_requests = [], it_sent = [],
      it_warnings = 0\<rparr>"

definition it_reconfigure :: "telemetry_config \<Rightarrow> instance_tracker \<Rightarrow> instance_tracker" where
  "it_reconfigure config t =
     (let t1 = (case tc_enabled config of
                  Some b \<Rightarrow> if it_enabled t \<noteq> b then t\<lparr>it_enabled := b\<rparr> else t
                | None \<Rightarrow> t);
          t2 = (case tc_baseUrl config of
                  Some url \<Rightarrow> if url \<noteq> [] then t1\<lparr>it_baseUrl := Some url\<rparr> else t1
                | None \<Rightarrow> t1)
      in case tc_actions config of Some as \<Rightarrow> t2\<lparr>it_actions := as\<rparr> | None \<Rightarrow> t2)"

definition it_isEnabled :: "instance_tracker \<Rightarrow> bool" where
  "it_isEnabled t = it_enabled t"

definition it_isStreamingSuggestion :: "instance_tracker \<Rightarrow> string \<Rightarrow> bool" where
  "it_isStreamingSuggestion t i =
     (case map_get (it_contexts t) i of None \<Rightarrow> False | Some c \<Rightarrow> ix_is_streaming c = Some True)"

fun countLines :: "string \<Rightarrow> nat" where
  "countLines text = (if text = [] then 0 else length (split_on newline text))"

definition calculateSuggestionSize :: "suggestion_option list option \<Rightarrow> nat" where
  "calculateSuggestionSize options =
     (case options of None \<Rightarrow> 0 | Some os \<Rightarrow> fold max (map (countLines \<circ> so_text) os) 0)"

definition it_trackCodeSuggestionsEvent ::
  "tracking_event \<Rightarrow> string \<Rightarrow> instance_tracker \<Rightarrow> instance_tracker" where
  "it_trackCodeSuggestionsEvent eventType i t =
     (case INSTANCE_TRACKING_EVENTS_MAP eventType of
        None \<Rightarrow> t
      | Some event \<Rightarrow>
          t\<lparr>it_requests := it_requests t @
              [\<lparr>ir_event = event, ir_unique_tracking_id = i, ir_timestamp = rt_now (it_gc t),
                ir_language = Option.bind (map_get (it_contexts t) i) ix_language,
                ir_suggestion_size = Option.bind (map_get (it_contexts t) i) ix_suggestion_size\<rparr>],
            it_sent := it_sent t @ [(eventType, i)]\<rparr>)"

definition it_fetch_ok :: "instance_tracker \<Rightarrow> instance_tracker" where
  "it_fetch_ok t = t\<lparr>it_breaker := fb_success (it_breaker t)\<rparr>"

definition it_fetch_failed :: "bool \<Rightarrow> instance_tracker \<Rightarrow> instance_tracker" where
  "it_fetch_failed invalidInstanceVersion t =
     (if invalidInstanceVersion \<and> it_invalidInstanceMsgLogged t then t
      else let t1 = (if invalidInstanceVersion then t\<lparr>it_invalidInstanceMsgLogged := True\<rparr> else t)
           in t1\<lparr>it_warnings := it_warnings t1 + 1, it_breaker := fb_error (it_breaker t1)\<rparr>)"

definition it_trackEvent :: "tracking_event \<Rightarrow> string \<Rightarrow> instance_tracker \<Rightarrow> instance_tracker" where
  "it_trackEvent event i t =
     (if \<not> it_isEnabled t then t
      else let isStreaming = it_isStreamingSuggestion t i
           in if isStreaming then t
              else if canUpdateState (it_states t) i event isStreaming
              then it_trackCodeSuggestionsEvent event i
                     (t\<lparr>it_states := updateSuggestionState i event isStreaming (it_states t)\<rparr>)
              else t)"

definition it_rejectOpenedSuggestions :: "instance_tracker \<Rightarrow> instance_tracker" where
  "it_rejectOpenedSuggestions t =
     track_all it_trackEvent (map (Pair REJECTED) (getOpenedSuggestions (it_states t))) t"

definition it_setCodeSuggestionsContext ::
  "string \<Rightarrow> context_update \<Rightarrow> instance_tracker \<Rightarrow> instance_tracker" where
  "it_setCodeSuggestionsContext i context t =
     (if fb_isOpen (it_breaker t) then t
      else
        let t1 = (if canClientTrackEvent (it_actions t) ACCEPTED \<and> \<not> canClientTrackEvent (it_actions t) REJECTED
                  then it_rejectOpenedSuggestions t else t);
            t2 = t1\<lparr>it_gc := snd (setTimeout i GC_TIME (it_gc t1))\<rparr>;
            t3 = t2\<lparr>it_contexts := map_set i
                      \<lparr>ix_language = Option.bind (cu_model context) sm_lang,
                       ix_suggestion_size = Some (calculateSuggestionSize (cu_suggestionOptions context)),
                       ix_timestamp = rt_now (it_gc t2),
                       ix_is_streaming = cu_isStreaming context\<rparr> (it_contexts t2)\<rparr>
        in if it_isStreamingSuggestion t3 i then t3 else it_trackEvent REQUESTED i t3)"

definition it_updateCodeSuggestionsContext ::
  "string \<Rightarrow> context_update \<Rightarrow> instance_tracker \<Rightarrow> instance_tracker" where
  "it_updateCodeSuggestionsContext i u t =
     (if fb_isOpen (it_breaker t) then t
      else if it_isStreamingSuggestion t i then t
      else case map_get (it_contexts t) i of
             None \<Rightarrow> t
           | Some c \<Rightarrow>
               let c1 = (case cu_model u of Some m \<Rightarrow> c\<lparr>ix_language := sm_lang m\<rparr> | None \<Rightarrow> c);
                   c2 = (case cu_suggestionOptions u of
                           Some os \<Rightarrow> if os \<noteq> [] then c1\<lparr>ix_suggestion_size := Some (calculateSuggestionSize (Some os))\<rparr> else c1
                         | None \<Rightarrow> c1);
                   c3 = (case cu_isStreaming u of Some b \<Rightarrow> c2\<lparr>ix_is_streaming := Some b\<rparr> | None \<Rightarrow> c2)
               in t\<lparr>it_contexts := map_set i c3 (it_contexts t)\<rparr>)"

definition it_setTrackingContext ::
  "string \<Rightarrow> context_update \<Rightarrow> instance_tracker \<Rightarrow> instance_tracker" where
  "it_setTrackingContext i context t =
     (if map_get (it_contexts t) i \<noteq> None then it_updateCodeSuggestionsContext i context t
      else it_setCodeSuggestionsContext i context t)"

text \<open>The callback of the timer started by \<open>setCodeSuggestionsContext\<close>.\<close>

definition it_gc_fire :: "nat \<Rightarrow> string \<Rightarrow> instance_tracker \<Rightarrow> instance_tracker" where
  "it_gc_fire timer i t =
     (let t1 = t\<lparr>it_gc := clearTimeout timer (it_gc t)\<rparr>
      in if map_get (it_contexts t1) i \<noteq> None
         then t1\<lparr>it_contexts := map_delete i (it_contexts t1),
                it_states := deleteSuggestion i (it_states t1)\<rparr>
         else t1)"

inductive it_step :: "instance_tracker \<Rightarrow> instance_tracker \<Rightarrow> bool" where
  it_step_config: "it_step t (it_reconfigure c t)"
| it_step_context: "it_step t (it_setTrackingContext i u t)"
| it_step_track: "e \<noteq> REQUESTED \<Longrightarrow> it_step t (it_trackEvent e i t)"
| it_step_ok: "it_step t (it_fetch_ok t)"
| it_step_failed: "it_step t (it_fetch_failed b t)"
| it_step_breaker: "fb_step (it_breaker t) b \<Longrightarrow> it_step t (t\<lparr>it_breaker := b\<rparr>)"
| it_step_gc: "(n, due, i) \<in> set (rt_due (it_gc t)) \<Longrightarrow> it_step t (it_gc_fire n i t)"
| it_step_tick: "rt_due (it_gc t) = [] \<Longrightarrow> it_step t (t\<lparr>it_gc := rt_tick 1 (it_gc t)\<rparr>)"

inductive it_reachable :: "instance_tracker \<Rightarrow> bool" where
  it_reach_new: "it_reachable it_new"
| it_reach_step: "it_reachable t \<Longrightarrow> it_step t t' \<Longrightarrow> it_reachable t'"

definition it_ctx_ids :: "instance_tracker \<Rightarrow> string set" where
  "it_ctx_ids t = set (map_keys (it_contexts t))"

definition it_state_ids :: "instance_tracker \<Rightarrow> string set" where
  "it_state_ids t = set (map_keys (it_states t))"

definition it_inv :: "instance_tracker \<Rightarrow> bool" where
  "it_inv t \<longleftrightarrow> gc_ok (it_ctx_ids t) (it_state_ids t) (it_gc t) \<and> map_wf (it_contexts t) \<and> map_wf (it_states t)"

lemmas it_id_defs = it_ctx_ids_def it_state_ids_def

lemma it_track_frame [frame_simps]:
  "it_enabled (it_trackEvent e i t) = it_enabled t"
  "it_contexts (it_trackEvent e i t) = it_contexts t"
  "it_gc (it_trackEvent e i t) = it_gc t"
  "it_actions (it_trackEvent e i t) = it_actions t"
  by (simp_all add: it_trackEvent_def it_trackCodeSuggestionsEvent_def Let_def split: option.splits)

lemma it_track_states:
  "it_states (it_trackEvent e i t) =
     (if it_enabled t \<and> \<not> it_isStreamingSuggestion t i
      then updateSuggestionState i e False (it_states t) else it_states t)"
  by (simp add: it_trackEvent_def it_trackCodeSuggestionsEvent_def it_isEnabled_def
      updateSuggestionState_def split: option.splits)

lemma it_track_state_ids:
  "it_state_ids (it_trackEvent e i t) \<subseteq> insert i (it_state_ids t)"
  by (auto simp: it_state_ids_def it_track_states updateSuggestionState_def dom_update)

lemma it_track_state_ids_known:
  "e \<noteq> REQUESTED \<Longrightarrow> it_state_ids (it_trackEvent e i t) = it_state_ids t"
proof -
  assume e: "e \<noteq> REQUESTED"
  show ?thesis
  proof (cases "canUpdateState (it_states t) i e False")
    case True
    with e have "map_get (it_states t) i \<noteq> None"
      by (auto simp: canUpdateState_def split: option.splits)
    then have "i \<in> it_state_ids t" by (auto simp: it_state_ids_def map_get_None_keys)
    then show ?thesis
      by (auto simp: it_state_ids_def it_track_states updateSuggestionState_def dom_update)
  next
    case False
    then show ?thesis by (simp add: it_state_ids_def it_track_states updateSuggestionState_def)
  qed
qed

lemma it_inv_track [inv_intros]:
  assumes "it_inv t" and "e \<noteq> REQUESTED \<or> i \<in> it_ctx_ids t"
  shows "it_inv (it_trackEvent e i t)"
proof -
  have ctx: "it_ctx_ids (it_trackEvent e i t) = it_ctx_ids t" by (simp add: it_ctx_ids_def frame_simps)
  have "gc_ok (it_ctx_ids t) (it_state_ids (it_trackEvent e i t)) (it_gc t)"
    using assms it_track_state_ids [of e i t] it_track_state_ids_known [of e i t]
    by (auto simp: it_inv_def intro: gc_ok_state)
  with assms(1) show ?thesis
    by (auto simp: it_inv_def ctx frame_simps it_track_states intro: inv_intros)
qed

interpretation it: telemetry_tracker it_isEnabled it_trackEvent it_sent it_inv
proof unfold_locales
  fix e i t
  show "it_isEnabled (it_trackEvent e i t) = it_isEnabled t"
    by (simp add: it_isEnabled_def frame_simps)
  show "\<not> it_isEnabled t \<Longrightarrow> it_sent (it_trackEvent e i t) = it_sent t"
    by (simp add: it_trackEvent_def)
  show "it_sent (it_trackEvent e i t) \<in> {it_sent t, it_sent t @ [(e, i)]}"
    by (simp add: it_trackEvent_def it_trackCodeSuggestionsEvent_def Let_def split: option.splits)
  show "e \<noteq> REQUESTED \<Longrightarrow> it_inv t \<Longrightarrow> it_inv (it_trackEvent e i t)"
    by (simp add: it_inv_track)
qed

lemma it_track_all_frame [frame_simps]:
  "it_contexts (track_all it_trackEvent es t) = it_contexts t"
  "it_gc (track_all it_trackEvent es t) = it_gc t"
  by (induction es arbitrary: t) (auto simp: frame_simps)

lemma it_inv_rejectOpened [inv_intros]: "it_inv t \<Longrightarrow> it_inv (it_rejectOpenedSuggestions t)"
  unfolding it_rejectOpenedSuggestions_def by (rule it.inv_all) auto

lemma it_inv_setContext [inv_intros]:
  assumes "it_inv t"
  shows "it_inv (it_setCodeSuggestionsContext i u t)"
proof (cases "fb_isOpen (it_breaker t)")
  case True
  with assms show ?thesis by (simp add: it_setCodeSuggestionsContext_def)
next
  case False
  define t1 where "t1 = (if canClientTrackEvent (it_actions t) ACCEPTED \<and>
      \<not> canClientTrackEvent (it_actions t) REJECTED then it_rejectOpenedSuggestions t else t)"
  define t2 where "t2 = t1\<lparr>it_gc := snd (setTimeout i GC_TIME (it_gc t1))\<rparr>"
  define t3 where "t3 = t2\<lparr>it_contexts := map_set i
      \<lparr>ix_language = Option.bind (cu_model u) sm_lang,
       ix_suggestion_size = Some (calculateSuggestionSize (cu_suggestionOptions u)),
       ix_timestamp = rt_now (it_gc t2), ix_is_streaming = cu_isStreaming u\<rparr> (it_contexts t2)\<rparr>"
  have "it_inv t1" using assms by (simp add: t1_def it_inv_rejectOpened)
  then have t3: "it_inv t3" "i \<in> it_ctx_ids t3"
    using gc_ok_set [of "it_ctx_ids t1" "it_state_ids t1" "it_gc t1" i]
    by (auto simp: it_inv_def t3_def t2_def it_id_defs dom_update)
  have "it_setCodeSuggestionsContext i u t =
      (if it_isStreamingSuggestion t3 i then t3 else it_trackEvent REQUESTED i t3)"
    using False by (simp add: it_setCodeSuggestionsContext_def t1_def t2_def t3_def Let_def)
  with t3 show ?thesis by (simp add: it_inv_track)
qed

lemma it_inv_updateContext [inv_intros]:
  assumes "it_inv t"
  shows "it_inv (it_updateCodeSuggestionsContext i u t)"
proof (cases "map_get (it_contexts t) i")
  case None
  with assms show ?thesis by (simp add: it_updateCodeSuggestionsContext_def)
next
  case (Some c)
  then have "i \<in> set (map_keys (it_contexts t))" by (metis map_get_None_keys option.distinct(1))
  then have "insert i (set (map_keys (it_contexts t))) = set (map_keys (it_contexts t))" by blast
  with assms Some show ?thesis
    by (auto simp: it_updateCodeSuggestionsContext_def it_inv_def it_id_defs Let_def dom_update)
qed

lemma it_inv_gc_fire:
  assumes "it_inv t" and "(n, due, i) \<in> set (rt_due (it_gc t))"
  shows "it_inv (it_gc_fire n i t)"
proof -
  have "(n, due, i) \<in> set (rt_pending (it_gc t))" using assms(2) by (simp add: rt_due_def)
  with assms(1) have ok: "gc_ok (it_ctx_ids t - {i}) (it_state_ids t - {i}) (clearTimeout n (it_gc t))"
    by (auto simp: it_inv_def intro: gc_ok_fire)
  show ?thesis
  proof (cases "map_get (it_contexts t) i")
    case None
    then have "i \<notin> it_ctx_ids t" by (simp add: it_ctx_ids_def map_get_None_keys)
    moreover have "it_state_ids t \<subseteq> it_ctx_ids t" using assms(1) by (simp add: it_inv_def gc_ok_def)
    ultimately have "it_ctx_ids t - {i} = it_ctx_ids t" "it_state_ids t - {i} = it_state_ids t" by auto
    with ok None assms(1) show ?thesis by (simp add: it_inv_def it_gc_fire_def it_id_defs)
  next
    case (Some c)
    with ok assms(1) show ?thesis
      by (simp add: it_inv_def it_gc_fire_def it_id_defs deleteSuggestion_def delete_keys)
  qed
qed

lemma it_inv_step: "it_step t t' \<Longrightarrow> it_inv t \<Longrightarrow> it_inv t'"
proof (induction rule: it_step.induct)
  case (it_step_config t c)
  then show ?case
    by (auto simp: it_reconfigure_def it_inv_def it_id_defs Let_def split: option.splits)
next
  case (it_step_context t i u)
  then show ?case by (simp add: it_setTrackingContext_def inv_intros)
next
  case (it_step_gc n due i t)
  then show ?case by (blast intro: it_inv_gc_fire)
next
  case (it_step_tick t)
  then show ?case by (simp add: it_inv_def it_id_defs gc_ok_tick)
next
  case (it_step_track e t i)
  then show ?case by (simp add: it_inv_track)
qed (auto simp: it_fetch_ok_def it_fetch_failed_def it_inv_def it_id_defs Let_def)

lemma it_reachable_inv: "it_reachable t \<Longrightarrow> it_inv t"
proof (induction rule: it_reachable.induct)
  case it_reach_new
  show ?case by (simp add: it_inv_def it_new_def it_id_defs)
next
  case (it_reach_step t t')
  then show ?case by (blast intro: it_inv_step)
qed

subsection \<open>Properties\<close>

text \<open>Nothing is kept for ever: in every reachable state each suggestion the tracker knows (its context or
  its state) has a pending timer due within \<open>GC_TIME\<close> that removes it from both maps.\<close>

theorem it_contexts_collected:
  assumes "it_reachable t" and "i \<in> it_ctx_ids t \<union> it_state_ids t"
  shows "\<exists>n due. (n, due, i) \<in> set (rt_pending (it_gc t)) \<and> due \<le> rt_now (it_gc t) + GC_TIME \<and>
           i \<notin> it_ctx_ids (it_gc_fire n i t) \<union> it_state_ids (it_gc_fire n i t)"
proof -
  have ok: "gc_ok (it_ctx_ids t) (it_state_ids t) (it_gc t)"
    using it_reachable_inv [OF assms(1)] by (simp add: it_inv_def)
  with assms(2) have i: "i \<in> it_ctx_ids t" by (auto simp: gc_ok_def)
  with ok obtain n due where "(n, due, i) \<in> set (rt_pending (it_gc t))"
    "due \<le> rt_now (it_gc t) + GC_TIME"
    by (auto simp: gc_ok_def)
  moreover have "map_get (it_contexts t) i \<noteq> None"
    using i by (auto simp: it_ctx_ids_def map_get_None_keys)
  then have "i \<notin> it_ctx_ids (it_gc_fire n i t) \<union> it_state_ids (it_gc_fire n i t)"
    by (simp add: it_gc_fire_def it_id_defs deleteSuggestion_def delete_keys)
  ultimately show ?thesis by blast
qed

definition it_demo :: instance_tracker where
  "it_demo = it_setTrackingContext ''a'' no_update it_new"

lemma it_demo_reachable: "it_reachable it_demo"
  unfolding it_demo_def by (rule it_reach_step [OF it_reach_new it_step_context])

lemma it_new_simps [simp]:
  "it_contexts it_new = []" "it_states it_new = []" "it_actions it_new = []" "it_enabled it_new"
  "\<not> fb_isOpen (it_breaker it_new)"
  by (simp_all add: it_new_def fb_isOpen_def fb_onOpen_def fb_onClose_def fb_default_def fb_new_def)

lemma it_demo_ids:
  "''a'' \<in> it_ctx_ids it_demo" "it_enabled it_demo" "map_get (it_states it_demo) ''a'' = Some REQUESTED"
  by (simp_all add: it_demo_def it_setTrackingContext_def it_setCodeSuggestionsContext_def Let_def
      canClientTrackEvent_def it_isStreamingSuggestion_def no_update_def it_ctx_ids_def frame_simps
      it_track_states updateSuggestionState_def canUpdateState_def)

theorem it_contexts_collected_witness:
  "\<exists>n due. (n, due, ''a'') \<in> set (rt_pending (it_gc it_demo)) \<and> due \<le> rt_now (it_gc it_demo) + GC_TIME"
  using it_contexts_collected [OF it_demo_reachable, of "''a''"] it_demo_ids by blast

lemma it_reject_all:
  assumes "distinct is"
  shows "map_get (it_states (track_all it_trackEvent (map (Pair REJECTED) is) t)) i =
         (if i \<in> set is \<and> it_enabled t \<and> \<not> it_isStreamingSuggestion t i \<and>
             canUpdateState (it_states t) i REJECTED False
          then Some REJECTED else map_get (it_states t) i)"
  using assms
proof (induction "is" arbitrary: t)
  case Nil
  then show ?case by simp
next
  case (Cons j js)
  have str: "it_isStreamingSuggestion (it_trackEvent REJECTED j t) k = it_isStreamingSuggestion t k" for k
    by (simp add: it_isStreamingSuggestion_def frame_simps)
  have get: "map_get (it_states (it_trackEvent REJECTED j t)) k = map_get (it_states t) k" if "k \<noteq> j" for k
    using that by (simp add: it_track_states updateSuggestionState_get)
  have can: "canUpdateState (it_states (it_trackEvent REJECTED j t)) k REJECTED False =
      canUpdateState (it_states t) k REJECTED False" if "k \<noteq> j" for k
    using get [OF that] by (simp add: canUpdateState_def)
  show ?case
  proof (cases "i = j")
    case True
    with Cons show ?thesis
      by (simp add: str frame_simps it_track_states updateSuggestionState_get)
  next
    case False
    with Cons get can str show ?thesis by (simp add: frame_simps)
  qed
qed

text \<open>Auto-rejection closes exactly the shown suggestions: after \<open>#rejectOpenedSuggestions\<close> of an enabled
  tracker a shown, not streamed suggestion is rejected and every other one has the state it had.\<close>

theorem it_reject_opened:
  assumes "it_reachable t" and "it_enabled t"
  shows "map_get (it_states (it_rejectOpenedSuggestions t)) i =
         (if map_get (it_states t) i = Some SHOWN \<and> \<not> it_isStreamingSuggestion t i
          then Some REJECTED else map_get (it_states t) i)"
proof -
  have wf: "map_wf (it_states t)" using it_reachable_inv [OF assms(1)] by (simp add: it_inv_def)
  have can: "canUpdateState (it_states t) i REJECTED False \<longleftrightarrow> map_get (it_states t) i = Some SHOWN"
    by (auto simp: canUpdateState_def graph_defs split: option.splits if_splits)
  show ?thesis
    using assms(2) can opened_iff [OF wf, of i]
    by (simp add: it_rejectOpenedSuggestions_def it_reject_all [OF opened_distinct [OF wf]])
qed

theorem it_reject_opened_witness:
  "map_get (it_states (it_rejectOpenedSuggestions it_demo)) ''a'' = Some REQUESTED"
  using it_reject_opened [OF it_demo_reachable it_demo_ids(2), of "''a''"] it_demo_ids(3) by simp

text \<open>The two breaker messages are registered the wrong way round: opening the breaker logs that
  telemetry will be sent again from now on, closing it logs that there were too many failures.\<close>

theorem it_breaker_messages:
  "fb_calls (fb_open (it_breaker it_new)) = [msg_try_again] \<and>
   fb_calls (fb_success (fb_open (it_breaker it_new))) = [msg_try_again, msg_retry_later]"
  by (simp add: it_new_def fb_default_def fb_new_def fb_onOpen_def fb_onClose_def fb_open_def
      fb_emit_def fb_success_def fb_close_def Let_def setTimeout_def em_listeners_def em_on_def)

end
