(* ===== verification/Supported_Languages.thy ===== *)
theory Supported_Languages
  imports Node_Runtime
begin

text \<open>
  \<open>src/common/suggestion/supported_languages_service.ts\<close> with the table of
  \<open>code_suggestions_config.json\<close>: which languages code suggestions are enabled for, recomputed on
  every configuration change.  A \<open>Set\<close> is a list without repetitions, in insertion order.
\<close>

definition supportedLanguages :: "(string \<times> string list) list" where
  "supportedLanguages =
    [
     (''c'', [''.c'']),
     (''cpp'', [''.cpp'', ''.cc'', ''.cxx'', ''.c++'', ''.h'', ''.hpp'', ''.hxx'', ''.h++'']),
     (''csharp'', [''.cs'']),
     (''go'', [''.go'']),
     (''haml'', [''.haml'']),
     (''handlebars'', [''.hbs'', ''.handlebars'']),
     (''java'', [''.java'']),
     (''javascript'', [''.js'']),
     (''javascriptreact'', [''.jsx'']),
     (''kotlin'', [''.kt'', ''.kts'']),
     (''python'', [''.py'']),
     (''php'', [''.php'']),
     (''ruby'', [''.rb'']),
     (''rust'', [''.rs'']),
     (''scala'', [''.scala'']),
     (''shellscript'', [''.sh'']),
     (''sql'', [''.sql'']),
     (''swift'', [''.swift'']),
     (''typescript'', [''.ts'']),
     (''typescriptreact'', [''.tsx'']),
     (''svelte'', [''.svelte'']),
     (''terraform'', [''.tf'', ''.tfvars'']),
     (''terragrunt'', [''.hcl'']),
     (''vue'', [''.vue''])
    ]"

definition BASE_SUPPORTED_CODE_SUGGESTIONS_LANGUAGES :: "string list" where
  "BASE_SUPPORTED_CODE_SUGGESTIONS_LANGUAGES = map fst supportedLanguages"

definition EXTENSION_TO_LANG_MAP :: "(string, string) jsmap" where
  "EXTENSION_TO_LANG_MAP =
     fold (\<lambda>(l, exts). fold (\<lambda>e. map_set e l) exts) supportedLanguages []"

definition getLanguageForFile :: "string option \<Rightarrow> string option" where
  "getLanguageForFile filename =
     map_get EXTENSION_TO_LANG_MAP
       (CHR ''.'' # (case filename of None \<Rightarrow> ''undefined'' | Some f \<Rightarrow> last (split_on CHR ''.'' f)))"

datatype sl_event = languageChange | configChange

record 'l supported_languages =
  sl_enabledLanguages :: "string list"
  sl_supportedLanguages :: "string list"
  sl_emitter :: "(sl_event, 'l) emitter"
  sl_calls :: "'l list"
  sl_warnings :: nat

record languages_config =
  lc_additionalLanguages :: "string list option"
  lc_disabledSupportedLanguages :: "string list option"

definition sl_new :: "'l supported_languages" where
  "sl_new =
     \<lparr>sl_enabledLanguages = BASE_SUPPORTED_CODE_SUGGESTIONS_LANGUAGES,
      sl_supportedLanguages = BASE_SUPPORTED_CODE_SUGGESTIONS_LANGUAGES,
      sl_emitter = [], sl_calls = [], sl_warnings = 0\<rparr>"

definition normalizeLanguageIdentifier :: "string \<Rightarrow> string" where
  "normalizeLanguageIdentifier language =
     (case to_lower (trim language) of
        [] \<Rightarrow> []
      | c # cs \<Rightarrow> if c = CHR ''.'' then cs else c # cs)"

definition getConfiguredLanguages :: "languages_config \<Rightarrow> string list option \<times> string list option" where
  "getConfiguredLanguages config =
     (map_option (map normalizeLanguageIdentifier) (lc_additionalLanguages config),
      lc_disabledSupportedLanguages config)"

definition sl_triggerChange :: "'l supported_languages \<Rightarrow> 'l supported_languages" where
  "sl_triggerChange s = s\<lparr>sl_calls := sl_calls s @ em_listeners languageChange (sl_emitter s)\<rparr>"

definition sl_newSet :: "languages_config \<Rightarrow> string list" where
  "sl_newSet config =
     (let (allow, deny) = getConfiguredLanguages config;
          s1 = fold (\<lambda>l. set_add (trim l)) (case_option [] id allow) BASE_SUPPORTED_CODE_SUGGESTIONS_LANGUAGES
      in fold set_delete (case_option [] id deny) s1)"

text \<open>\<open>isEqual\<close> of lodash compares two sets without their order.\<close>

definition sl_update :: "languages_config \<Rightarrow> 'l supported_languages \<Rightarrow> 'l supported_languages" where
  "sl_update config s =
     (let newSet = sl_newSet config;
          s1 = (if newSet = [] then s\<lparr>sl_warnings := sl_warnings s + 1\<rparr> else s);
          previous = sl_enabledLanguages s1;
          s2 = s1\<lparr>sl_enabledLanguages := newSet\<rparr>
      in if set previous \<noteq> set newSet then sl_triggerChange s2 else s2)"

definition isLanguageSupported :: "'l supported_languages \<Rightarrow> string \<Rightarrow> bool" where
  "isLanguageSupported s languageId \<longleftrightarrow> languageId \<in> set (sl_supportedLanguages s)"

definition isLanguageEnabled :: "'l supported_languages \<Rightarrow> string \<Rightarrow> bool" where
  "isLanguageEnabled s languageId \<longleftrightarrow> languageId \<in> set (sl_enabledLanguages s)"

definition onLanguageChange :: "'l \<Rightarrow> 'l supported_languages \<Rightarrow> 'l supported_languages" where
  "onLanguageChange l s = s\<lparr>sl_emitter := em_on languageChange l (sl_emitter s)\<rparr>"

definition onLanguageChange_dispose :: "'l \<Rightarrow> 'l supported_languages \<Rightarrow> 'l supported_languages" where
  "onLanguageChange_dispose l s = s\<lparr>sl_emitter := em_removeListener configChange l (sl_emitter s)\<rparr>"

lemma set_sl_newSet:
  "set (sl_newSet config) =
     (set BASE_SUPPORTED_CODE_SUGGESTIONS_LANGUAGES \<union>
        (trim \<circ> normalizeLanguageIdentifier) ` set (case_option [] id (lc_additionalLanguages config))) -
     set (case_option [] id (lc_disabledSupportedLanguages config))"
  by (cases "lc_additionalLanguages config")
    (simp_all add: sl_newSet_def getConfiguredLanguages_def set_fold_add set_fold_delete image_image comp_def)

subsection \<open>Properties\<close>

text \<open>After a configuration change a language is enabled exactly when it is a base language or one of the
  (normalised) additional ones and is not listed, verbatim, among the disabled ones; listeners are
  called exactly when the set of enabled languages changed.\<close>

theorem languages_update:
  "(isLanguageEnabled (sl_update config s) l \<longleftrightarrow>
      (l \<in> set BASE_SUPPORTED_CODE_SUGGESTIONS_LANGUAGES \<or>
       (\<exists>a \<in> set (case_option [] id (lc_additionalLanguages config)).
          l = trim (normalizeLanguageIdentifier a))) \<and>
      l \<notin> set (case_option [] id (lc_disabledSupportedLanguages config))) \<and>
   sl_calls (sl_update config s) =
     sl_calls s @ (if set (sl_enabledLanguages s) = set (sl_newSet config) then []
                   else em_listeners languageChange (sl_emitter s))"
proof
  have "set (sl_enabledLanguages (sl_update config s)) = set (sl_newSet config)"
    by (simp add: sl_update_def sl_triggerChange_def Let_def)
  then show "isLanguageEnabled (sl_update config s) l \<longleftrightarrow>
      (l \<in> set BASE_SUPPORTED_CODE_SUGGESTIONS_LANGUAGES \<or>
       (\<exists>a \<in> set (case_option [] id (lc_additionalLanguages config)).
          l = trim (normalizeLanguageIdentifier a))) \<and>
      l \<notin> set (case_option [] id (lc_disabledSupportedLanguages config))"
    by (auto simp: isLanguageEnabled_def set_sl_newSet)
  show "sl_calls (sl_update config s) =
     sl_calls s @ (if set (sl_enabledLanguages s) = set (sl_newSet config) then []
                   else em_listeners languageChange (sl_emitter s))"
    by (simp add: sl_update_def sl_triggerChange_def Let_def)
qed

text \<open>Disposing a language listener does not remove it: it is registered for \<open>languageChange\<close> and the
  removal asks for \<open>configChange\<close>.\<close>

theorem language_listener_not_disposed:
  "em_listeners languageChange (sl_emitter (onLanguageChange_dispose l (onLanguageChange l s))) =
     em_listeners languageChange (sl_emitter s) @ [l]"
proof -
  have "em_listeners e (em_removeListener e' l em) = em_listeners e em" if "e \<noteq> e'" for e e' :: sl_event and em :: "(sl_event, 'a) emitter"
  proof -
    have "filter (\<lambda>p. fst p = e) (remove1 (e', l) xs) = filter (\<lambda>p. fst p = e) xs" for xs
      using that by (induction xs) auto
    then show ?thesis by (simp add: em_listeners_def em_removeListener_def rev_filter [symmetric])
  qed
  then show ?thesis by (simp add: onLanguageChange_dispose_def onLanguageChange_def)
qed

end
