(* ===== verification/Snowplow_Tracker.thy ===== *)
theory Snowplow_Tracker
  imports Telemetry_Tracker Supported_Languages
begin

text \<open>
  \<open>src/common/tracking/code_suggestions/code_suggestions_snowplow_tracker.ts\<close>.

  What the tracker asks of other services when it acts is the record \<open>snowplow_env\<close>: the tracker
  options of the configuration, whether advanced context is in use, the instance version and the two
  schema validations of the \<open>SnowplowService\<close>.  \<open>trackStructuredEvent\<close> appends to \<open>st_sent\<close> the event
  with the contexts it carries.
\<close>

record context_item =
  ci_file_extension :: string
  ci_type :: context_type
  ci_resolution_strategy :: resolution_strategy
  ci_byte_size :: nat

record snowplow_context =
  sx_prefix_length :: nat
  sx_suffix_length :: nat
  sx_language :: "string option"
  sx_gitlab_realm :: gitlab_realm
  sx_model_engine :: "string option"
  sx_model_name :: "string option"
  sx_api_status_code :: "nat option"
  sx_debounce_interval :: nat
  sx_suggestion_source :: suggestion_source
  sx_gitlab_global_user_id :: "string option"
  sx_gitlab_instance_id :: "string option"
  sx_gitlab_host_name :: "string option"
  sx_gitlab_saas_duo_pro_namespace_ids :: "nat list option"
  sx_gitlab_instance_version :: "string option"
  sx_is_streaming :: bool
  sx_is_invoked :: "bool option"
  sx_options_count :: "nat option"
  sx_accepted_option :: "nat option"
  sx_has_advanced_context :: "bool option"
  sx_is_direct_connection :: "bool option"
  sx_total_context_size_bytes :: nat
  sx_content_above_cursor_size_bytes :: nat
  sx_content_below_cursor_size_bytes :: nat
  sx_context_items :: "context_item list option"
  sx_input_tokens :: "nat option"
  sx_output_tokens :: "nat option"
  sx_context_tokens_sent :: "nat option"
  sx_context_tokens_used :: "nat option"

record ide_info =
  ide_name :: string
  ide_version :: string
  ide_vendor :: string

record client_context_data =
  cd_ide_name :: "string option"
  cd_ide_vendor :: "string option"
  cd_ide_version :: "string option"
  cd_extension_name :: "string option"
  cd_extension_version :: "string option"
  cd_language_server_version :: "string option"

record extension_info =
  ext_name :: string
  ext_version :: "string option"

record snowplow_tracker_options =
  to_instance_id :: "string option"
  to_global_user_id :: "string option"
  to_host_name :: "string option"
  to_namespace_ids :: "nat list option"

record snowplow_env =
  se_trackerOptions :: "snowplow_tracker_options option"
  se_useAdvancedContext :: bool
  se_instanceVersion :: "string option"
  se_validSuggestion :: "snowplow_context option \<Rightarrow> bool"
  se_validIde :: "client_context_data option \<Rightarrow> bool"

record sent_event =
  ev_action :: tracking_event
  ev_label :: string
  ev_ide :: "client_context_data option"
  ev_suggestion :: "snowplow_context option"

record snowplow_tracker =
  st_states :: suggestion_states
  st_enabled :: bool
  st_baseUrl :: string
  st_actions :: "tracking_event list"
  st_clientContext :: "client_context_data option"
  st_gitlabRealm :: gitlab_realm
  st_contexts :: "(string, snowplow_context) jsmap"
  st_gc :: "string timers"
  st_sent :: "sent_event list"

definition SUGGESTIONS_DEBOUNCE_INTERVAL_MS :: nat where
  "SUGGESTIONS_DEBOUNCE_INTERVAL_MS = 250"

definition st_new :: snowplow_tracker where
  "st_new =
     \<lparr>st_states = [], st_enabled = True, st_baseUrl = SAAS_INSTANCE_URL, st_actions = [],
      st_clientContext = None, st_gitlabRealm = Realm_saas, st_contexts = [], st_gc = rt_init,
      st_sent = []\<rparr>"

definition st_isEnabled :: "snowplow_tracker \<Rightarrow> bool" where
  "st_isEnabled t = st_enabled t"

definition st_setClientContext ::
  "string option \<Rightarrow> ide_info option \<Rightarrow> extension_info option \<Rightarrow> snowplow_tracker \<Rightarrow> snowplow_tracker" where
  "st_setClientContext lsVersion ide extension t =
     t\<lparr>st_clientContext := Some
        \<lparr>cd_ide_name = map_option ide_name ide, cd_ide_vendor = map_option ide_vendor ide,
         cd_ide_version = map_option ide_version ide, cd_extension_name = map_option ext_name extension,
         cd_extension_version = Option.bind extension ext_version,
         cd_language_server_version = lsVersion\<rparr>\<rparr>"

definition st_reconfigure ::
  "string option \<Rightarrow> telemetry_config \<Rightarrow> ide_info option \<Rightarrow> extension_info option \<Rightarrow>
   snowplow_tracker \<Rightarrow> snowplow_tracker" where
  "st_reconfigure lsVersion config ide extension t =
     (let t1 = (case tc_enabled config of
                  Some b \<Rightarrow> if st_enabled t \<noteq> b then t\<lparr>st_enabled := b\<rparr> else t
                | None \<Rightarrow> t);
          t2 = (case tc_baseUrl config of
                  Some url \<Rightarrow>
                    if url \<noteq> []
                    then t1\<lparr>st_baseUrl := url,
                            st_gitlabRealm := (if ends_with url SAAS_INSTANCE_URL then Realm_saas
                                               else Realm_selfManaged)\<rparr>
                    else t1
                | None \<Rightarrow> t1);
          t3 = (case tc_actions config of Some as \<Rightarrow> t2\<lparr>st_actions := as\<rparr> | None \<Rightarrow> t2)
      in st_setClientContext lsVersion ide extension t3)"

definition isCompletionInvoked :: "trigger_kind option \<Rightarrow> bool option" where
  "isCompletionInvoked k =
     (case k of None \<Rightarrow> None | Some Invoked \<Rightarrow> Some True | Some Automatic \<Rightarrow> Some False)"

definition st_hasAdvancedContext :: "snowplow_env \<Rightarrow> additional_context list option \<Rightarrow> bool option" where
  "st_hasAdvancedContext env cs =
     (if se_useAdvancedContext env then Some (case cs of None \<Rightarrow> False | Some xs \<Rightarrow> xs \<noteq> []) else None)"

definition mk_context_item :: "additional_context \<Rightarrow> context_item" where
  "mk_context_item item =
     \<lparr>ci_file_extension = last (split_on CHR ''.'' (ac_name item)), ci_type = ac_type item,
      ci_resolution_strategy = ac_resolution_strategy item,
      ci_byte_size = (if ac_content item \<noteq> [] then getByteSize (ac_content item) else 0)\<rparr>"

definition st_contextItems :: "additional_context list option \<Rightarrow> context_item list option" where
  "st_contextItems cs = map_option (map mk_context_item) cs"

definition st_totalContextSize :: "context_item list option \<Rightarrow> nat" where
  "st_totalContextSize items = (case items of None \<Rightarrow> 0 | Some xs \<Rightarrow> fold (\<lambda>i n. n + ci_byte_size i) xs 0)"

definition st_sentPair :: "sent_event \<Rightarrow> tracking_event \<times> string" where
  "st_sentPair e = (ev_action e, ev_label e)"

definition st_trackCodeSuggestionsEvent ::
  "snowplow_env \<Rightarrow> tracking_event \<Rightarrow> string \<Rightarrow> snowplow_tracker \<Rightarrow> snowplow_tracker" where
  "st_trackCodeSuggestionsEvent env eventType i t =
     (if \<not> st_isEnabled t then t
      else let c = map_get (st_contexts t) i
           in if \<not> se_validSuggestion env c then t
              else if \<not> se_validIde env (st_clientContext t) then t
              else t\<lparr>st_sent := st_sent t @
                       [\<lparr>ev_action = eventType, ev_label = i, ev_ide = st_clientContext t,
                         ev_suggestion = c\<rparr>]\<rparr>)"

definition st_trackEvent ::
  "snowplow_env \<Rightarrow> tracking_event \<Rightarrow> string \<Rightarrow> snowplow_tracker \<Rightarrow> snowplow_tracker" where
  "st_trackEvent env event i t =
     (let isStreaming = (case map_get (st_contexts t) i of None \<Rightarrow> False | Some c \<Rightarrow> sx_is_streaming c)
      in if canUpdateState (st_states t) i event isStreaming
         then st_trackCodeSuggestionsEvent env event i
                (t\<lparr>st_states := updateSuggestionState i event isStreaming (st_states t)\<rparr>)
         else t)"

definition st_rejectOpenedSuggestions :: "snowplow_env \<Rightarrow> snowplow_tracker \<Rightarrow> snowplow_tracker" where
  "st_rejectOpenedSuggestions env t =
     track_all (st_trackEvent env) (map (Pair REJECTED) (getOpenedSuggestions (st_states t))) t"

definition st_newContext :: "snowplow_env \<Rightarrow> gitlab_realm \<Rightarrow> context_update \<Rightarrow> snowplow_context" where
  "st_newContext env realm u =
     (let source = (case cu_source u of None \<Rightarrow> Source_network | Some s \<Rightarrow> s);
          opts = se_trackerOptions env;
          items = st_contextItems (cu_additionalContexts u);
          doc = cu_documentContext u
      in \<lparr>sx_prefix_length = (case doc of None \<Rightarrow> 0 | Some d \<Rightarrow> length (dc_prefix d)),
          sx_suffix_length = (case doc of None \<Rightarrow> 0 | Some d \<Rightarrow> length (dc_suffix d)),
          sx_language = (case Option.bind (cu_model u) sm_lang of
                           Some l \<Rightarrow> Some l
                         | None \<Rightarrow> getLanguageForFile (map_option dc_fileRelativePath doc)),
          sx_gitlab_realm = realm,
          sx_model_engine = Option.bind (cu_model u) sm_engine,
          sx_model_name = Option.bind (cu_model u) sm_name,
          sx_api_status_code = None,
          sx_debounce_interval = (if source = Source_cache then 0 else SUGGESTIONS_DEBOUNCE_INTERVAL_MS),
          sx_suggestion_source = source,
          sx_gitlab_global_user_id = Option.bind opts to_global_user_id,
          sx_gitlab_instance_id = Option.bind opts to_instance_id,
          sx_gitlab_host_name = Option.bind opts to_host_name,
          sx_gitlab_saas_duo_pro_namespace_ids = Option.bind opts to_namespace_ids,
          sx_gitlab_instance_version = se_instanceVersion env,
          sx_is_streaming = (cu_isStreaming u = Some True),
          sx_is_invoked = isCompletionInvoked (cu_triggerKind u),
          sx_options_count = cu_optionsCount u,
          sx_accepted_option = None,
          sx_has_advanced_context = st_hasAdvancedContext env (cu_additionalContexts u),
          sx_is_direct_connection = cu_isDirectConnection u,
          sx_total_context_size_bytes = st_totalContextSize items,
          sx_content_above_cursor_size_bytes = (case doc of None \<Rightarrow> 0 | Some d \<Rightarrow> byte_size (dc_prefix d)),
          sx_content_below_cursor_size_bytes = (case doc of None \<Rightarrow> 0 | Some d \<Rightarrow> byte_size (dc_suffix d)),
          sx_context_items = items,
          sx_input_tokens = None, sx_output_tokens = None, sx_context_tokens_sent = None,
          sx_context_tokens_used = None\<rparr>)"

definition st_setCodeSuggestionsContext ::
  "snowplow_env \<Rightarrow> string \<Rightarrow> context_update \<Rightarrow> snowplow_tracker \<Rightarrow> snowplow_tracker" where
  "st_setCodeSuggestionsContext env i u t =
     (let t1 = (if canClientTrackEvent (st_actions t) ACCEPTED \<and> \<not> canClientTrackEvent (st_actions t) REJECTED
                then st_rejectOpenedSuggestions env t else t);
          t2 = t1\<lparr>st_gc := snd (setTimeout i GC_TIME (st_gc t1))\<rparr>;
          t3 = t2\<lparr>st_contexts := map_set i (st_newContext env (st_gitlabRealm t2) u) (st_contexts t2)\<rparr>
      in st_trackEvent env REQUESTED i t3)"

definition sx_update_model :: "suggestion_model \<Rightarrow> snowplow_context \<Rightarrow> snowplow_context" where
  "sx_update_model m c =
     (let c1 = (case sm_lang m of Some l \<Rightarrow> if l \<noteq> [] then c\<lparr>sx_language := Some l\<rparr> else c | None \<Rightarrow> c)
      in c1\<lparr>sx_model_engine := sm_engine m, sx_model_name := sm_name m,
            sx_input_tokens := Option.bind (sm_tokens m) tm_input_tokens,
            sx_output_tokens := Option.bind (sm_tokens m) tm_output_tokens,
            sx_context_tokens_sent := Option.bind (sm_tokens m) tm_context_tokens_sent,
            sx_context_tokens_used := Option.bind (sm_tokens m) tm_context_tokens_used\<rparr>)"

text \<open>A number that is absent or zero is falsy.\<close>

definition truthy_nat :: "nat option \<Rightarrow> bool" where
  "truthy_nat n = (case n of None \<Rightarrow> False | Some k \<Rightarrow> k \<noteq> 0)"

definition sx_update :: "context_update \<Rightarrow> snowplow_context \<Rightarrow> snowplow_context" where
  "sx_update u c =
     (let c1 = (case cu_model u of Some m \<Rightarrow> sx_update_model m c | None \<Rightarrow> c);
          c2 = (if truthy_nat (cu_status u) then c1\<lparr>sx_api_status_code := cu_status u\<rparr> else c1);
          c3 = (if truthy_nat (cu_optionsCount u) then c2\<lparr>sx_options_count := cu_optionsCount u\<rparr> else c2);
          c4 = (if cu_isDirectConnection u \<noteq> None
                then c3\<lparr>sx_is_direct_connection := cu_isDirectConnection u\<rparr> else c3)
      in if truthy_nat (cu_acceptedOption u) then c4\<lparr>sx_accepted_option := cu_acceptedOption u\<rparr> else c4)"

definition st_updateCodeSuggestionsContext ::
  "string \<Rightarrow> context_update \<Rightarrow> snowplow_tracker \<Rightarrow> snowplow_tracker" where
  "st_updateCodeSuggestionsContext i u t =
     (case map_get (st_contexts t) i of
        None \<Rightarrow> t
      | Some c \<Rightarrow> t\<lparr>st_contexts := map_set i (sx_update u c) (st_contexts t)\<rparr>)"

definition st_setTrackingContext ::
  "snowplow_env \<Rightarrow> string \<Rightarrow> context_update \<Rightarrow> snowplow_tracker \<Rightarrow> snowplow_tracker" where
  "st_setTrackingContext env i u t =
     (if map_get (st_contexts t) i \<noteq> None then st_updateCodeSuggestionsContext i u t
      else st_setCodeSuggestionsContext env i u t)"

definition st_gc_fire :: "nat \<Rightarrow> string \<Rightarrow> snowplow_tracker \<Rightarrow> snowplow_tracker" where
  "st_gc_fire timer i t =
     (let t1 = t\<lparr>st_gc := clearTimeout timer (st_gc t)\<rparr>
      in if map_get (st_contexts t1) i \<noteq> None
         then t1\<lparr>st_contexts := map_delete i (st_contexts t1),
                st_states := deleteSuggestion i (st_states t1)\<rparr>
         else t1)"

inductive st_step :: "snowplow_env \<Rightarrow> snowplow_tracker \<Rightarrow> snowplow_tracker \<Rightarrow> bool" for env where
  st_step_config: "st_step env t (st_reconfigure v c ide x t)"
| st_step_context: "st_step env t (st_setTrackingContext env i u t)"
| st_step_track: "e \<noteq> REQUESTED \<Longrightarrow> st_step env t (st_trackEvent env e i t)"
| st_step_gc: "(n, due, i) \<in> set (rt_due (st_gc t)) \<Longrightarrow> st_step env t (st_gc_fire n i t)"
| st_step_tick: "rt_due (st_gc t) = [] \<Longrightarrow> st_step env t (t\<lparr>st_gc := rt_tick 1 (st_gc t)\<rparr>)"

inductive st_reachable :: "snowplow_env \<Rightarrow> snowplow_tracker \<Rightarrow> bool" for env where
  st_reach_new: "st_reachable env st_new"
| st_reach_step: "st_reachable env t \<Longrightarrow> st_step env t t' \<Longrightarrow> st_reachable env t'"

definition st_ctx_ids :: "snowplow_tracker \<Rightarrow> string set" where
  "st_ctx_ids t = set (map_keys (st_contexts t))"

definition st_state_ids :: "snowplow_tracker \<Rightarrow> string set" where
  "st_state_ids t = set (map_keys (st_states t))"

definition st_inv :: "snowplow_tracker \<Rightarrow> bool" where
  "st_inv t \<longleftrightarrow> gc_ok (st_ctx_ids t) (st_state_ids t) (st_gc t) \<and> map_wf (st_contexts t) \<and> map_wf (st_states t)"

lemmas st_id_defs = st_ctx_ids_def st_state_ids_def

lemma st_track_frame [frame_simps]:
  "st_enabled (st_trackEvent env e i t) = st_enabled t"
  "st_contexts (st_trackEvent env e i t) = st_contexts t"
  "st_gc (st_trackEvent env e i t) = st_gc t"
  "st_actions (st_trackEvent env e i t) = st_actions t"
  "st_clientContext (st_trackEvent env e i t) = st_clientContext t"
  by (simp_all add: st_trackEvent_def st_trackCodeSuggestionsEvent_def Let_def)

definition st_streaming :: "snowplow_tracker \<Rightarrow> string \<Rightarrow> bool" where
  "st_streaming t i = (case map_get (st_contexts t) i of None \<Rightarrow> False | Some c \<Rightarrow> sx_is_streaming c)"

lemma st_track_states:
  "st_states (st_trackEvent env e i t) = updateSuggestionState i e (st_streaming t i) (st_states t)"
  by (simp add: st_trackEvent_def st_trackCodeSuggestionsEvent_def st_streaming_def Let_def
      updateSuggestionState_def)

lemma st_track_state_ids: "st_state_ids (st_trackEvent env e i t) \<subseteq> insert i (st_state_ids t)"
  by (auto simp: st_state_ids_def st_track_states updateSuggestionState_def dom_update)

lemma st_track_state_ids_known:
  assumes e: "e \<noteq> REQUESTED"
  shows "st_state_ids (st_trackEvent env e i t) = st_state_ids t"
proof (cases "canUpdateState (st_states t) i e (st_streaming t i)")
  case True
  with e have "map_get (st_states t) i \<noteq> None"
    by (auto simp: canUpdateState_def split: option.splits)
  then have "i \<in> st_state_ids t" by (auto simp: st_state_ids_def map_get_None_keys)
  then show ?thesis
    by (auto simp: st_state_ids_def st_track_states updateSuggestionState_def dom_update)
next
  case False
  then show ?thesis by (simp add: st_state_ids_def st_track_states updateSuggestionState_def)
qed

lemma st_inv_track [inv_intros]:
  assumes "st_inv t" and "e \<noteq> REQUESTED \<or> i \<in> st_ctx_ids t"
  shows "st_inv (st_trackEvent env e i t)"
proof -
  have ctx: "st_ctx_ids (st_trackEvent env e i t) = st_ctx_ids t" by (simp add: st_ctx_ids_def frame_simps)
  have "gc_ok (st_ctx_ids t) (st_state_ids (st_trackEvent env e i t)) (st_gc t)"
    using assms st_track_state_ids [of env e i t] st_track_state_ids_known [of e env i t]
    by (auto simp: st_inv_def intro: gc_ok_state)
  with assms(1) show ?thesis
    by (auto simp: st_inv_def ctx frame_simps st_track_states intro: inv_intros)
qed

interpretation st: telemetry_tracker st_isEnabled "st_trackEvent env" "map st_sentPair \<circ> st_sent" st_inv
proof unfold_locales
  fix e i t
  show "st_isEnabled (st_trackEvent env e i t) = st_isEnabled t"
    by (simp add: st_isEnabled_def frame_simps)
  show "\<not> st_isEnabled t \<Longrightarrow> (map st_sentPair \<circ> st_sent) (st_trackEvent env e i t) = (map st_sentPair \<circ> st_sent) t"
    by (simp add: st_trackEvent_def st_trackCodeSuggestionsEvent_def st_isEnabled_def Let_def)
  show "(map st_sentPair \<circ> st_sent) (st_trackEvent env e i t)
      \<in> {(map st_sentPair \<circ> st_sent) t, (map st_sentPair \<circ> st_sent) t @ [(e, i)]}"
    by (simp add: st_trackEvent_def st_trackCodeSuggestionsEvent_def Let_def st_sentPair_def)
  show "e \<noteq> REQUESTED \<Longrightarrow> st_inv t \<Longrightarrow> st_inv (st_trackEvent env e i t)"
    by (simp add: st_inv_track)
qed

lemma st_inv_rejectOpened [inv_intros]: "st_inv t \<Longrightarrow> st_inv (st_rejectOpenedSuggestions env t)"
  unfolding st_rejectOpenedSuggestions_def by (rule st.inv_all) auto

lemma st_inv_setContext [inv_intros]:
  assumes "st_inv t"
  shows "st_inv (st_setCodeSuggestionsContext env i u t)"
proof -
  define t1 where "t1 = (if canClientTrackEvent (st_actions t) ACCEPTED \<and>
      \<not> canClientTrackEvent (st_actions t) REJECTED then st_rejectOpenedSuggestions env t else t)"
  define t2 where "t2 = t1\<lparr>st_gc := snd (setTimeout i GC_TIME (st_gc t1))\<rparr>"
  define t3 where "t3 = t2\<lparr>st_contexts := map_set i (st_newContext env (st_gitlabRealm t2) u) (st_contexts t2)\<rparr>"
  have "st_inv t1" using assms by (simp add: t1_def st_inv_rejectOpened)
  then have t3: "st_inv t3" "i \<in> st_ctx_ids t3"
    using gc_ok_set [of "st_ctx_ids t1" "st_state_ids t1" "st_gc t1" i]
    by (auto simp: st_inv_def t3_def t2_def st_id_defs dom_update)
  have "st_setCodeSuggestionsContext env i u t = st_trackEvent env REQUESTED i t3"
    by (simp add: st_setCodeSuggestionsContext_def t1_def t2_def t3_def Let_def)
  with t3 show ?thesis by (simp add: st_inv_track)
qed

lemma st_inv_updateContext [inv_intros]:
  assumes "st_inv t"
  shows "st_inv (st_updateCodeSuggestionsContext i u t)"
proof (cases "map_get (st_contexts t) i")
  case None
  with assms show ?thesis by (simp add: st_updateCodeSuggestionsContext_def)
next
  case (Some c)
  then have "i \<in> set (map_keys (st_contexts t))" by (metis map_get_None_keys option.distinct(1))
  then have "insert i (set (map_keys (st_contexts t))) = set (map_keys (st_contexts t))" by blast
  with assms Some show ?thesis
    by (auto simp: st_updateCodeSuggestionsContext_def st_inv_def st_id_defs dom_update)
qed

lemma st_inv_gc_fire:
  assumes "st_inv t" and "(n, due, i) \<in> set (rt_due (st_gc t))"
  shows "st_inv (st_gc_fire n i t)"
proof -
  have "(n, due, i) \<in> set (rt_pending (st_gc t))" using assms(2) by (simp add: rt_due_def)
  with assms(1) have ok: "gc_ok (st_ctx_ids t - {i}) (st_state_ids t - {i}) (clearTimeout n (st_gc t))"
    by (auto simp: st_inv_def intro: gc_ok_fire)
  show ?thesis
  proof (cases "map_get (st_contexts t) i")
    case None
    then have "i \<notin> st_ctx_ids t" by (simp add: st_ctx_ids_def map_get_None_keys)
    moreover have "st_state_ids t \<subseteq> st_ctx_ids t" using assms(1) by (simp add: st_inv_def gc_ok_def)
    ultimately have "st_ctx_ids t - {i} = st_ctx_ids t" "st_state_ids t - {i} = st_state_ids t" by auto
    with ok None assms(1) show ?thesis by (simp add: st_inv_def st_gc_fire_def st_id_defs)
  next
    case (Some c)
    with ok assms(1) show ?thesis
      by (simp add: st_inv_def st_gc_fire_def st_id_defs deleteSuggestion_def delete_keys)
  qed
qed

lemma st_inv_step: "st_step env t t' \<Longrightarrow> st_inv t \<Longrightarrow> st_inv t'"
proof (induction rule: st_step.induct)
  case (st_step_config t v c ide x)
  then show ?case
    by (auto simp: st_reconfigure_def st_setClientContext_def st_inv_def st_id_defs Let_def
        split: option.splits)
next
  case (st_step_context t i u)
  then show ?case by (simp add: st_setTrackingContext_def inv_intros)
next
  case (st_step_track e t i)
  then show ?case by (simp add: st_inv_track)
next
  case (st_step_gc n due i t)
  then show ?case by (blast intro: st_inv_gc_fire)
next
  case (st_step_tick t)
  then show ?case by (simp add: st_inv_def st_id_defs gc_ok_tick)
qed

lemma st_reachable_inv: "st_reachable env t \<Longrightarrow> st_inv t"
proof (induction rule: st_reachable.induct)
  case st_reach_new
  show ?case by (simp add: st_inv_def st_new_def st_id_defs)
next
  case (st_reach_step t t')
  then show ?case by (blast intro: st_inv_step)
qed

subsection \<open>Properties\<close>

text \<open>The reported size of the additional contexts is the sum of the UTF-8 sizes of their contents, and it
  is zero exactly when no context has content.\<close>

theorem context_size_reported:
  "sx_total_context_size_bytes (st_newContext env realm u) =
     (\<Sum>c\<leftarrow>(case cu_additionalContexts u of None \<Rightarrow> [] | Some cs \<Rightarrow> cs). getByteSize (ac_content c)) \<and>
   (sx_total_context_size_bytes (st_newContext env realm u) = 0 \<longleftrightarrow>
      list_all (\<lambda>c. ac_content c = []) (case cu_additionalContexts u of None \<Rightarrow> [] | Some cs \<Rightarrow> cs))"
proof -
  have f: "fold (\<lambda>i n. n + ci_byte_size i) (map mk_context_item cs) n =
      n + (\<Sum>c\<leftarrow>cs. getByteSize (ac_content c))" for cs n
    by (induction cs arbitrary: n) (auto simp: mk_context_item_def)
  have z: "(getByteSize s = 0) = (s = [])" for s
    using length_getByteSize [of s] by (cases s) auto
  show ?thesis
    by (cases "cu_additionalContexts u")
      (simp_all add: st_newContext_def st_totalContextSize_def st_contextItems_def Let_def f z list_all_iff)
qed

text \<open>In every reachable state each suggestion the tracker knows has a pending timer due within
  \<open>GC_TIME\<close> that removes it, so its maps hold no suggestion older than that.\<close>

theorem st_contexts_collected:
  assumes "st_reachable env t" and "i \<in> st_ctx_ids t \<union> st_state_ids t"
  shows "\<exists>n due. (n, due, i) \<in> set (rt_pending (st_gc t)) \<and> due \<le> rt_now (st_gc t) + GC_TIME \<and>
           i \<notin> st_ctx_ids (st_gc_fire n i t) \<union> st_state_ids (st_gc_fire n i t)"
proof -
  have ok: "gc_ok (st_ctx_ids t) (st_state_ids t) (st_gc t)"
    using st_reachable_inv [OF assms(1)] by (simp add: st_inv_def)
  with assms(2) have i: "i \<in> st_ctx_ids t" by (auto simp: gc_ok_def)
  with ok obtain n due where "(n, due, i) \<in> set (rt_pending (st_gc t))"
    "due \<le> rt_now (st_gc t) + GC_TIME"
    by (auto simp: gc_ok_def)
  moreover have "map_get (st_contexts t) i \<noteq> None"
    using i by (auto simp: st_ctx_ids_def map_get_None_keys)
  then have "i \<notin> st_ctx_ids (st_gc_fire n i t) \<union> st_state_ids (st_gc_fire n i t)"
    by (simp add: st_gc_fire_def st_id_defs deleteSuggestion_def delete_keys)
  ultimately show ?thesis by blast
qed

definition st_demo_env :: snowplow_env where
  "st_demo_env =
     \<lparr>se_trackerOptions = None, se_useAdvancedContext = True, se_instanceVersion = None,
      se_validSuggestion = (\<lambda>c. c \<noteq> None), se_validIde = (\<lambda>_. True)\<rparr>"

definition st_demo :: snowplow_tracker where
  "st_demo = st_setTrackingContext st_demo_env ''a'' no_update st_new"

lemma st_demo_reachable: "st_reachable st_demo_env st_demo"
  unfolding st_demo_def by (rule st_reach_step [OF st_reach_new st_step_context])

lemma st_demo_ids: "''a'' \<in> st_ctx_ids st_demo"
  by (simp add: st_demo_def st_setTrackingContext_def st_setCodeSuggestionsContext_def Let_def
      canClientTrackEvent_def st_ctx_ids_def frame_simps st_new_def)

theorem st_contexts_collected_witness:
  "\<exists>n due. (n, due, ''a'') \<in> set (rt_pending (st_gc st_demo)) \<and> due \<le> rt_now (st_gc st_demo) + GC_TIME"
  using st_contexts_collected [OF st_demo_reachable, of "''a''"] st_demo_ids by blast

end
