(* ===== verification/Multi_Tracker.thy ===== *)
theory Multi_Tracker
  imports Instance_Tracker Snowplow_Tracker
begin

text \<open>
  \<open>src/common/tracking/code_suggestions/code_suggestions_multi_tracker.ts\<close>: the tracker the suggestion
  service uses, which hands every call to the enabled ones of its two trackers, the Snowplow tracker
  first.  The locale \<open>two_trackers\<close> is what it needs of them; it is a \<open>telemetry_tracker\<close> itself.
\<close>

type_synonym multi_tracker = "snowplow_tracker \<times> instance_tracker"

definition mt_isEnabled :: "multi_tracker \<Rightarrow> bool" where
  "mt_isEnabled m \<longleftrightarrow> st_isEnabled (fst m) \<or> it_isEnabled (snd m)"

definition mt_setTrackingContext ::
  "snowplow_env \<Rightarrow> string \<Rightarrow> context_update \<Rightarrow> multi_tracker \<Rightarrow> multi_tracker" where
  "mt_setTrackingContext env i u m =
     ((if st_isEnabled (fst m) then st_setTrackingContext env i u (fst m) else fst m),
      (if it_isEnabled (snd m) then it_setTrackingContext i u (snd m) else snd m))"

definition mt_trackEvent ::
  "snowplow_env \<Rightarrow> tracking_event \<Rightarrow> string \<Rightarrow> multi_tracker \<Rightarrow> multi_tracker" where
  "mt_trackEvent env e i m =
     ((if st_isEnabled (fst m) then st_trackEvent env e i (fst m) else fst m),
      (if it_isEnabled (snd m) then it_trackEvent e i (snd m) else snd m))"

definition both_trackers ::
  "('a \<Rightarrow> bool) \<Rightarrow> (tracking_event \<Rightarrow> string \<Rightarrow> 'a \<Rightarrow> 'a) \<Rightarrow>
   ('b \<Rightarrow> bool) \<Rightarrow> (tracking_event \<Rightarrow> string \<Rightarrow> 'b \<Rightarrow> 'b) \<Rightarrow>
   tracking_event \<Rightarrow> string \<Rightarrow> 'a \<times> 'b \<Rightarrow> 'a \<times> 'b" where
  "both_trackers enA trA enB trB e i m =
     ((if enA (fst m) then trA e i (fst m) else fst m),
      (if enB (snd m) then trB e i (snd m) else snd m))"

locale two_trackers =
  a: telemetry_tracker enA trA sentA invA + b: telemetry_tracker enB trB sentB invB
  for enA :: "'a \<Rightarrow> bool" and trA sentA invA and enB :: "'b \<Rightarrow> bool" and trB sentB invB
begin

lemma both_all:
  "track_all (both_trackers enA trA enB trB) es m =
     ((if enA (fst m) then track_all trA es (fst m) else fst m),
      (if enB (snd m) then track_all trB es (snd m) else snd m))"
proof (induction es arbitrary: m)
  case Nil
  then show ?case by simp
next
  case (Cons p es)
  then show ?case by (simp add: track_all_Cons both_trackers_def a.enabled_track b.enabled_track)
qed

lemma both_independent:
  "sentA (fst (track_all (both_trackers enA trA enB trB) es m)) = sentA (track_all trA es (fst m)) \<and>
   sentB (snd (track_all (both_trackers enA trA enB trB) es m)) = sentB (track_all trB es (snd m))"
  by (simp add: both_all a.sent_all_disabled b.sent_all_disabled)

end

interpretation mt: two_trackers st_isEnabled "st_trackEvent env" "map st_sentPair \<circ> st_sent" st_inv
  it_isEnabled it_trackEvent it_sent it_inv
  by unfold_locales

lemma mt_both:
  "both_trackers st_isEnabled (st_trackEvent env) it_isEnabled it_trackEvent = mt_trackEvent env"
  by (intro ext) (simp add: both_trackers_def mt_trackEvent_def)

subsection \<open>Properties\<close>

text \<open>Each tracker sends exactly what it would send alone, whichever of the two is enabled: a disabled
  tracker neither sends anything nor keeps the other from sending.\<close>

theorem multi_tracker_independent:
  "map st_sentPair (st_sent (fst (track_all (mt_trackEvent env) es m))) =
     (if st_isEnabled (fst m) then map st_sentPair (st_sent (track_all (st_trackEvent env) es (fst m)))
      else map st_sentPair (st_sent (fst m))) \<and>
   it_sent (snd (track_all (mt_trackEvent env) es m)) =
     (if it_isEnabled (snd m) then it_sent (track_all it_trackEvent es (snd m)) else it_sent (snd m))"
  using mt.both_independent [of env es m]
    st.sent_all_disabled [of "fst m" env es] it.sent_all_disabled [of "snd m" es]
  by (simp add: mt_both)

end
