(* ===== verification/Document_Context.thy ===== *)
theory Document_Context
  imports Domain
begin

text \<open>
  From a text document to the context a suggestion request carries:
  \<open>src/common/tree_sitter/languages.ts\<close> (the language table), \<open>src/common/utils/path.ts\<close>,
  \<open>src/common/secret_redaction/index.ts\<close> and \<open>src/common/document_transformer_service.ts\<close>.

  A \<open>TextDocument\<close> is a value of the package \<open>vscode-languageserver-textdocument\<close>: its methods are
  fields of the record \<open>text_document\<close>, and what is used of them is a hypothesis where a lemma needs it.
  A rule's compiled regular expression is the function from a string to its list of matches, a match
  being its list of groups (\<open>None\<close> for a group that did not take part).
\<close>

subsection \<open>The language table\<close>

record tree_sitter_language =
  tl_name :: string
  tl_extensions :: "string list"
  tl_editorLanguageIds :: "string list"
  tl_wasmPath :: string
  tl_nodeModulesPath :: "string option"

definition mk_lang ::
  "string \<Rightarrow> string list \<Rightarrow> string list \<Rightarrow> string \<Rightarrow> string option \<Rightarrow> tree_sitter_language" where
  "mk_lang n es ids w p =
     \<lparr>tl_name = n, tl_extensions = es, tl_editorLanguageIds = ids, tl_wasmPath = w,
      tl_nodeModulesPath = p\<rparr>"

definition COMMON_TREE_SITTER_LANGUAGES :: "tree_sitter_language list" where
  "COMMON_TREE_SITTER_LANGUAGES =
    [
     mk_lang ''c'' [''.c''] [''c''] ''vendor/grammars/tree-sitter-c.wasm'' (Some ''tree-sitter-c''),
     mk_lang ''cpp'' [''.cpp''] [''cpp''] ''vendor/grammars/tree-sitter-cpp.wasm'' (Some ''tree-sitter-cpp''),
     mk_lang ''c_sharp'' [''.cs''] [''csharp''] ''vendor/grammars/tree-sitter-c_sharp.wasm'' (Some ''tree-sitter-c-sharp''),
     mk_lang ''css'' [''.css''] [''css''] ''vendor/grammars/tree-sitter-css.wasm'' (Some ''tree-sitter-css''),
     mk_lang ''go'' [''.go''] [''go''] ''vendor/grammars/tree-sitter-go.wasm'' (Some ''tree-sitter-go''),
     mk_lang ''java'' [''.java''] [''java''] ''vendor/grammars/tree-sitter-java.wasm'' (Some ''tree-sitter-java''),
     mk_lang ''javascript'' [''.js''] [''javascript''] ''vendor/grammars/tree-sitter-javascript.wasm'' (Some ''tree-sitter-javascript''),
     mk_lang ''python'' [''.py''] [''python''] ''vendor/grammars/tree-sitter-python.wasm'' (Some ''tree-sitter-python''),
     mk_lang ''ruby'' [''.rb''] [''ruby''] ''vendor/grammars/tree-sitter-ruby.wasm'' (Some ''tree-sitter-ruby''),
     mk_lang ''scala'' [''.scala''] [''scala''] ''vendor/grammars/tree-sitter-scala.wasm'' (Some ''tree-sitter-scala''),
     mk_lang ''typescript'' [''.ts''] [''typescript''] ''vendor/grammars/tree-sitter-typescript.wasm'' (Some ''tree-sitter-typescript/typescript''),
     mk_lang ''tsx'' [''.tsx'', ''.jsx''] [''typescriptreact'', ''javascriptreact''] ''vendor/grammars/tree-sitter-tsx.wasm'' (Some ''tree-sitter-typescript/tsx''),
     mk_lang ''kotlin'' [''.kt''] [''kotlin''] ''vendor/grammars/tree-sitter-kotlin.wasm'' (Some ''tree-sitter-kotlin''),
     mk_lang ''powershell'' [''.ps1''] [''powershell''] ''vendor/grammars/tree-sitter-powershell.wasm'' (Some ''tree-sitter-powershell''),
     mk_lang ''rust'' [''.rs''] [''rust''] ''vendor/grammars/tree-sitter-rust.wasm'' (Some ''tree-sitter-rust''),
     mk_lang ''yaml'' [''.yaml'', ''.yml''] [''yaml''] ''vendor/grammars/tree-sitter-yaml.wasm'' (Some ''@tree-sitter-grammars/tree-sitter-yaml''),
     mk_lang ''html'' [''.html''] [''html''] ''vendor/grammars/tree-sitter-html.wasm'' (Some ''tree-sitter-html''),
     mk_lang ''bash'' [''.sh'', ''.bash'', ''.bashrc'', ''.bash_profile''] [''shellscript''] ''vendor/grammars/tree-sitter-bash.wasm'' (Some ''tree-sitter-bash''),
     mk_lang ''json'' [''.json''] [''json''] ''vendor/grammars/tree-sitter-json.wasm'' (Some ''tree-sitter-json'')
    ]"

subsection \<open>Paths\<close>

text \<open>\<open>xs[i]\<close>, \<open>None\<close> when out of range, and \<open>indexOf\<close>.\<close>

definition nth_opt :: "'a list \<Rightarrow> nat \<Rightarrow> 'a option" where
  "nth_opt xs i = (if i < length xs then Some (xs ! i) else None)"

fun indexOf :: "'a \<Rightarrow> 'a list \<Rightarrow> nat option" where
  "indexOf x [] = None"
| "indexOf x (y # ys) = (if x = y then Some 0 else map_option Suc (indexOf x ys))"

definition slash :: char where
  "slash = CHR ''/''"

definition ext_chars :: "string \<Rightarrow> string" where
  "ext_chars s = rev (takeWhile (\<lambda>c. c \<noteq> slash \<and> c \<noteq> CHR ''.'') (rev s))"

text \<open>The regular expression: a dot, then characters other than slash and dot up to the end.\<close>

definition fileNeedsExtension :: "string \<Rightarrow> bool" where
  "fileNeedsExtension s =
     (\<not> (ext_chars s \<noteq> [] \<and> length (ext_chars s) < length s \<and>
         rev s ! length (ext_chars s) = CHR ''.''))"

definition last_segment :: "string \<Rightarrow> string" where
  "last_segment s = rev (takeWhile (\<lambda>c. c \<noteq> slash \<and> c \<noteq> CHR 0x5C) (rev s))"

definition drop_leading_slash :: "string \<Rightarrow> string" where
  "drop_leading_slash s = (case s of [] \<Rightarrow> [] | c # cs \<Rightarrow> if c = slash then cs else s)"

fun getRelativePath :: "string \<Rightarrow> workspace_folder option \<Rightarrow> string" where
  "getRelativePath fileUri None = last_segment fileUri"
| "getRelativePath fileUri (Some w) = drop_leading_slash (drop (length (wf_uri w)) fileUri)"

fun extension_from :: "tree_sitter_language list \<Rightarrow> string \<Rightarrow> string" where
  "extension_from [] languageId = []"
| "extension_from (l # ls) languageId =
     (case indexOf languageId (tl_editorLanguageIds l) of
        None \<Rightarrow> extension_from ls languageId
      | Some i \<Rightarrow>
          (case nth_opt (tl_extensions l) i of
             None \<Rightarrow> (case tl_extensions l of [] \<Rightarrow> ''undefined'' | e # _ \<Rightarrow> e)
           | Some e \<Rightarrow> if e = [] then (case tl_extensions l of [] \<Rightarrow> ''undefined'' | e # _ \<Rightarrow> e) else e))"

definition getFileExtensionByLanguageId :: "string \<Rightarrow> string" where
  "getFileExtensionByLanguageId languageId = extension_from COMMON_TREE_SITTER_LANGUAGES languageId"

subsection \<open>Secret redaction\<close>

record gitleaks_rule =
  gr_id :: string
  gr_secretGroup :: "nat option"
  gr_keywords :: "string list"
  gr_matchAll :: "(string \<Rightarrow> string option list list) option"

text \<open>\<open>s.replace(pat, rep)\<close> for a string pattern: its first occurrence.\<close>

fun replace_first :: "string \<Rightarrow> string \<Rightarrow> string \<Rightarrow> string" where
  "replace_first pat rep [] = (if pat = [] then rep else [])"
| "replace_first pat rep (c # cs) =
     (if prefix pat (c # cs) then rep @ drop (length pat) (c # cs)
      else c # replace_first pat rep cs)"

definition stars :: "nat \<Rightarrow> string" where
  "stars n = replicate n (CHR ''*'')"

definition keywordHit :: "gitleaks_rule \<Rightarrow> string \<Rightarrow> bool" where
  "keywordHit rule raw \<longleftrightarrow>
     gr_keywords rule = [] \<or> (\<exists>k \<in> set (gr_keywords rule). str_includes (to_lower raw) k)"

fun redact_matches :: "nat \<Rightarrow> string option list list \<Rightarrow> string \<Rightarrow> js_error + string" where
  "redact_matches g [] redacted = Inr redacted"
| "redact_matches g (m # ms) redacted =
     (case nth_opt m g of
        Some (Some secret) \<Rightarrow>
          redact_matches g ms (replace_first secret (stars (length secret)) redacted)
      | _ \<Rightarrow> Inl TypeError)"

definition redactRuleSecret :: "gitleaks_rule \<Rightarrow> string \<Rightarrow> js_error + string" where
  "redactRuleSecret rule str =
     (case gr_matchAll rule of
        None \<Rightarrow> Inr str
      | Some matchAll \<Rightarrow>
          if \<not> keywordHit rule str then Inr str
          else redact_matches (case_option 0 id (gr_secretGroup rule)) (matchAll str) str)"

fun redactSecrets :: "gitleaks_rule list \<Rightarrow> string \<Rightarrow> js_error + string" where
  "redactSecrets [] raw = Inr raw"
| "redactSecrets (r # rs) raw =
     (case redactRuleSecret r raw of Inl e \<Rightarrow> Inl e | Inr s \<Rightarrow> redactSecrets rs s)"

text \<open>\<open>transform\<close>, with the value of \<open>client.codeCompletion.enableSecretRedaction\<close>.\<close>

definition redactor_transform ::
  "gitleaks_rule list \<Rightarrow> bool option \<Rightarrow> doc_context \<Rightarrow> js_error + doc_context" where
  "redactor_transform rules enabled ctx =
     (if enabled \<noteq> Some True then Inr ctx
      else case redactSecrets rules (dc_prefix ctx) of
             Inl e \<Rightarrow> Inl e
           | Inr p \<Rightarrow>
               (case redactSecrets rules (dc_suffix ctx) of
                  Inl e \<Rightarrow> Inl e
                | Inr s \<Rightarrow> Inr (ctx\<lparr>dc_prefix := p, dc_suffix := s\<rparr>)))"

subsection \<open>Document context\<close>

record text_document =
  td_uri :: string
  td_languageId :: string
  td_text :: string
  td_getText :: "lsp_range \<Rightarrow> string"
  td_positionAt :: "nat \<Rightarrow> position"

definition getMatchingWorkspaceFolder ::
  "string \<Rightarrow> workspace_folder list \<Rightarrow> workspace_folder option" where
  "getMatchingWorkspaceFolder fileUri folders = find (\<lambda>w. starts_with fileUri (wf_uri w)) folders"

definition getDocContext ::
  "text_document \<Rightarrow> position \<Rightarrow> workspace_folder list \<Rightarrow> inline_context option \<Rightarrow> doc_context" where
  "getDocContext doc position folders completionContext =
     (let prefix =
            (case Option.bind completionContext ic_selectedCompletionInfo of
               Some info \<Rightarrow>
                 td_getText doc \<lparr>range_start = td_positionAt doc 0,
                                 range_end = range_start (sanitizeRange (sc_range info))\<rparr> @ sc_text info
             | None \<Rightarrow>
                 td_getText doc \<lparr>range_start = td_positionAt doc 0, range_end = position\<rparr>);
          suffix = td_getText doc \<lparr>range_start = position,
                                   range_end = td_positionAt doc (length (td_text doc))\<rparr>;
          folder = getMatchingWorkspaceFolder (td_uri doc) folders;
          path = getRelativePath (td_uri doc) folder;
          path' = (if fileNeedsExtension path
                   then path @ getFileExtensionByLanguageId (td_languageId doc) else path)
      in \<lparr>dc_prefix = prefix, dc_suffix = suffix, dc_fileRelativePath = path',
          dc_position = position, dc_uri = td_uri doc, dc_languageId = td_languageId doc,
          dc_workspaceFolder = folder\<rparr>)"

text \<open>\<open>transform\<close> of the service folds its transformers over the context; an exception ends the fold.\<close>

fun dts_transform ::
  "(doc_context \<Rightarrow> js_error + doc_context) list \<Rightarrow> doc_context \<Rightarrow> js_error + doc_context" where
  "dts_transform [] ctx = Inr ctx"
| "dts_transform (t # ts) ctx = (case t ctx of Inl e \<Rightarrow> Inl e | Inr ctx' \<Rightarrow> dts_transform ts ctx')"

definition dts_getContext ::
  "(string \<Rightarrow> text_document option) \<Rightarrow> (doc_context \<Rightarrow> js_error + doc_context) list \<Rightarrow>
   string \<Rightarrow> position \<Rightarrow> workspace_folder list \<Rightarrow> inline_context option \<Rightarrow>
   js_error + doc_context option" where
  "dts_getContext documents transformers uri position folders completionContext =
     (case documents uri of
        None \<Rightarrow> Inr None
      | Some doc \<Rightarrow>
          (case dts_transform transformers (getDocContext doc position folders completionContext) of
             Inl e \<Rightarrow> Inl e
           | Inr ctx \<Rightarrow> Inr (Some ctx)))"

subsection \<open>Lemmas\<close>

lemma replace_first_self: "replace_first p rep (p @ z) = rep @ z"
proof (cases "p @ z")
  case Nil
  then show ?thesis by simp
next
  case (Cons c cs)
  then have "prefix p (c # cs)" by (metis prefixI)
  then show ?thesis using Cons [symmetric] by (metis append_eq_conv_conj replace_first.simps(2))
qed

lemma length_replace_first:
  "length rep = length pat \<Longrightarrow> length (replace_first pat rep s) = length s"
  by (induction pat rep s rule: replace_first.induct) (auto dest: prefix_length_le)

lemma stars_length [simp]: "length (stars n) = n"
  by (simp add: stars_def)

lemma redact_matches_length: "redact_matches g ms s = Inr s' \<Longrightarrow> length s' = length s"
  by (induction g ms s rule: redact_matches.induct)
    (auto simp: length_replace_first split: option.splits)

lemma redactRuleSecret_length: "redactRuleSecret r s = Inr s' \<Longrightarrow> length s' = length s"
  by (auto simp: redactRuleSecret_def redact_matches_length split: option.splits if_splits)

lemma redactSecrets_length: "redactSecrets rs s = Inr s' \<Longrightarrow> length s' = length s"
  by (induction rs s rule: redactSecrets.induct)
    (auto dest: redactRuleSecret_length split: sum.splits)

text \<open>Redaction only ever writes stars: a unit of the result is the unit at its place or a star.\<close>

definition starred :: "string \<Rightarrow> string \<Rightarrow> bool" where
  "starred s t \<longleftrightarrow> list_all2 (\<lambda>a b. b = a \<or> b = CHR ''*'') s t"

lemma starred_refl [simp]: "starred s s"
  by (simp add: starred_def list.rel_refl)

lemma starred_trans: "starred s t \<Longrightarrow> starred t u \<Longrightarrow> starred s u"
  unfolding starred_def list_all2_conv_all_nth by metis

lemma starred_stars: "starred s (stars (length s))"
  by (simp add: starred_def stars_def list_all2_conv_all_nth)

lemma starred_append: "starred s t \<Longrightarrow> starred u v \<Longrightarrow> starred (s @ u) (t @ v)"
  by (simp add: starred_def list_all2_appendI)

lemma starred_replace_first: "starred s (replace_first p (stars (length p)) s)"
proof (induction s)
  case Nil
  then show ?case by (simp add: stars_def)
next
  case (Cons c cs)
  show ?case
  proof (cases "prefix p (c # cs)")
    case True
    then obtain z where z: "c # cs = p @ z" by (auto simp: prefix_def)
    show ?thesis unfolding z replace_first_self
      by (rule starred_append [OF starred_stars starred_refl])
  next
    case False
    with Cons.IH show ?thesis by (simp add: starred_def)
  qed
qed

lemma starred_redact_matches: "redact_matches g ms s = Inr s' \<Longrightarrow> starred s s'"
  by (induction g ms s rule: redact_matches.induct)
    (auto split: option.splits intro: starred_trans starred_replace_first)

lemma starred_redactRuleSecret: "redactRuleSecret r s = Inr s' \<Longrightarrow> starred s s'"
  by (auto simp: redactRuleSecret_def starred_redact_matches split: option.splits if_splits)

lemma starred_redactSecrets: "redactSecrets rs s = Inr s' \<Longrightarrow> starred s s'"
  by (induction rs s rule: redactSecrets.induct)
    (auto split: sum.splits dest: starred_redactRuleSecret intro: starred_trans)

text \<open>Extensions of the table complete a file name.\<close>

definition good_ext :: "string \<Rightarrow> bool" where
  "good_ext e = (case e of [] \<Rightarrow> False
     | c # cs \<Rightarrow> c = CHR ''.'' \<and> cs \<noteq> [] \<and> list_all (\<lambda>d. d \<noteq> slash \<and> d \<noteq> CHR ''.'') cs)"

lemma good_ext_completes:
  assumes "good_ext e"
  shows "\<not> fileNeedsExtension (s @ e)"
proof -
  from assms obtain cs where e: "e = CHR ''.'' # cs" "cs \<noteq> []"
    and cs: "\<forall>d \<in> set cs. d \<noteq> slash \<and> d \<noteq> CHR ''.''"
    by (auto simp: good_ext_def list_all_iff split: list.splits)
  have "takeWhile (\<lambda>c. c \<noteq> slash \<and> c \<noteq> CHR ''.'') (rev cs @ CHR ''.'' # rev s) = rev cs"
    using cs by (subst takeWhile_append2) auto
  then have "ext_chars (s @ e) = cs" by (simp add: ext_chars_def e)
  moreover have "rev (s @ e) ! length cs = CHR ''.''"
    by (simp add: e nth_append)
  ultimately show ?thesis using e by (simp add: fileNeedsExtension_def)
qed

definition langs_ok :: "tree_sitter_language list \<Rightarrow> bool" where
  "langs_ok ls = list_all (\<lambda>l. tl_extensions l \<noteq> [] \<and> list_all good_ext (tl_extensions l)) ls"

lemma langs_ok_common: "langs_ok COMMON_TREE_SITTER_LANGUAGES"
  by code_simp

lemma extension_from_good:
  "langs_ok ls \<Longrightarrow> extension_from ls i = [] \<or> good_ext (extension_from ls i)"
proof (induction ls)
  case Nil
  then show ?case by simp
next
  case (Cons l ls)
  then have l: "tl_extensions l \<noteq> []" "\<forall>e \<in> set (tl_extensions l). good_ext e"
    by (auto simp: langs_ok_def list_all_iff)
  have hd: "good_ext (hd (tl_extensions l))" using l by simp
  from Cons have IH: "extension_from ls i = [] \<or> good_ext (extension_from ls i)"
    by (simp add: langs_ok_def)
  show ?case
    using IH l hd
    by (auto simp: nth_opt_def neq_Nil_conv split: option.splits)
qed

subsection \<open>Properties\<close>

text \<open>Redaction keeps every position valid: a transformed context differs from the original only in
  characters of its prefix and suffix that became stars, and with redaction off it is unchanged.\<close>

theorem redaction_shape:
  assumes "redactor_transform rules enabled ctx = Inr ctx'"
  shows "starred (dc_prefix ctx) (dc_prefix ctx') \<and> starred (dc_suffix ctx) (dc_suffix ctx') \<and>
         length (dc_prefix ctx') = length (dc_prefix ctx) \<and>
         length (dc_suffix ctx') = length (dc_suffix ctx) \<and>
         ctx' = ctx\<lparr>dc_prefix := dc_prefix ctx', dc_suffix := dc_suffix ctx'\<rparr> \<and>
         (enabled \<noteq> Some True \<longrightarrow> ctx' = ctx)"
  using assms
  by (auto simp: redactor_transform_def redactSecrets_length starred_redactSecrets
      split: if_splits sum.splits)

definition demo_rule :: gitleaks_rule where
  "demo_rule =
     \<lparr>gr_id = ''demo'', gr_secretGroup = Some 1, gr_keywords = [''key''],
      gr_matchAll = Some (\<lambda>s. if s = ''ab key=ab'' then [[Some ''key=ab'', Some ''ab'']] else [])\<rparr>"

definition demo_ctx :: "string \<Rightarrow> doc_context" where
  "demo_ctx p =
     \<lparr>dc_prefix = p, dc_suffix = [], dc_fileRelativePath = ''a.ts'',
      dc_position = \<lparr>pos_line = 0, pos_character = 0\<rparr>, dc_uri = ''file:///w/a.ts'',
      dc_languageId = ''typescript'', dc_workspaceFolder = None\<rparr>"

lemma demo_redacted: "redactor_transform [demo_rule] (Some True) (demo_ctx ''ab key=ab'') =
    Inr (demo_ctx ''** key=ab'')"
  by code_simp

theorem redaction_shape_witness:
  "starred (dc_prefix (demo_ctx ''ab key=ab'')) (dc_prefix (demo_ctx ''** key=ab''))"
  using redaction_shape [OF demo_redacted] by blast

text \<open>What is replaced is the first occurrence of the matched text in the string, wherever the match
  itself is.  In the witness the secret also occurs before the match: the earlier text is starred and
  the matched secret stays.\<close>

theorem redaction_first_occurrence:
  assumes "gr_matchAll rule = Some m" and "gr_secretGroup rule = Some g" and "keywordHit rule (u @ secret @ v)"
    and "m (u @ secret @ v) = [match]" and "nth_opt match g = Some (Some secret)"
    and "\<And>k. k < length u \<Longrightarrow> \<not> prefix secret (drop k (u @ secret @ v))"
  shows "redactRuleSecret rule (u @ secret @ v) = Inr (u @ stars (length secret) @ v)"
proof -
  have "replace_first secret (stars (length secret)) (u @ secret @ v) = u @ stars (length secret) @ v"
    using assms(6)
  proof (induction u)
    case Nil
    show ?case by (simp add: replace_first_self)
  next
    case (Cons c u)
    have "\<not> prefix secret (drop k (u @ secret @ v))" if "k < length u" for k
      using Cons.prems [of "Suc k"] that by simp
    then show ?case using Cons.IH Cons.prems [of 0] by simp
  qed
  then show ?thesis using assms by (simp add: redactRuleSecret_def)
qed

theorem redaction_first_occurrence_witness:
  "redactRuleSecret demo_rule ''ab key=ab'' = Inr ''** key=ab''"
proof -
  have "keywordHit demo_rule ([] @ ''ab'' @ '' key=ab'')" by code_simp
  from redaction_first_occurrence [of demo_rule _ 1 "[]" "''ab''" "'' key=ab''", OF _ _ this]
  show ?thesis by (simp add: demo_rule_def nth_opt_def stars_def numeral_2_eq_2)
qed

text \<open>A document whose file name has no extension gets the one of its language: for a language of the
  table, the path in the context has an extension, and it is the path relative to the workspace folder,
  extended only where that path has none.\<close>

theorem context_path_extension:
  assumes "getFileExtensionByLanguageId (td_languageId doc) \<noteq> []"
  shows "\<not> fileNeedsExtension (dc_fileRelativePath (getDocContext doc p folders c)) \<and>
    dc_fileRelativePath (getDocContext doc p folders c) =
      (let path = getRelativePath (td_uri doc) (getMatchingWorkspaceFolder (td_uri doc) folders)
       in if fileNeedsExtension path then path @ getFileExtensionByLanguageId (td_languageId doc) else path)"
proof -
  let ?e = "getFileExtensionByLanguageId (td_languageId doc)"
  have "?e = [] \<or> good_ext ?e"
    unfolding getFileExtensionByLanguageId_def by (rule extension_from_good [OF langs_ok_common])
  then show ?thesis
    using assms good_ext_completes [of ?e] by (auto simp: getDocContext_def Let_def)
qed

definition demo_doc :: text_document where
  "demo_doc =
     \<lparr>td_uri = ''file:///w/main'', td_languageId = ''python'', td_text = [], td_getText = \<lambda>r. [],
      td_positionAt = \<lambda>n. \<lparr>pos_line = 0, pos_character = n\<rparr>\<rparr>"

lemma demo_doc_ext: "getFileExtensionByLanguageId (td_languageId demo_doc) = ''.py''"
  by code_simp

theorem context_path_extension_witness:
  "\<not> fileNeedsExtension (dc_fileRelativePath
     (getDocContext demo_doc \<lparr>pos_line = 0, pos_character = 0\<rparr> [\<lparr>wf_uri = ''file:///w'', wf_name = ''w''\<rparr>] None))"
proof -
  have "getFileExtensionByLanguageId (td_languageId demo_doc) \<noteq> []" by (simp add: demo_doc_ext)
  from context_path_extension [OF this, THEN conjunct1] show ?thesis .
qed

end
