(* ===== verification/Suggestions_Cache.thy ===== *)
theory Suggestions_Cache
  imports Domain
begin

text \<open>
  The suggestions cache (\<open>src/common/suggestion/suggestions_cache.ts\<close>).

  The entries live in the package \<open>lru-cache\<close>, which may drop entries (least recently used over
  \<open>maxSize\<close>, older than \<open>ttl\<close>): the map of the entries is the state, and each operation takes
  the parameter \<open>lru\<close>, what the package keeps of the map at that access, with the documented law
  \<open>lru_ok\<close>: an entry is kept unchanged or dropped.  \<open>uuid n\<close> is the \<open>n\<close>-th value of
  \<open>generateUniqueTrackingId\<close>; the operations thread the number of ids drawn.
\<close>

subsection \<open>Data and configuration\<close>

record cache_entry =
  ce_character :: nat
  ce_suggestions :: "suggestion_option list"
  ce_additionalContexts :: "additional_context list option"
  ce_currentLine :: string
  ce_timesRetrievedByPosition :: "(nat, nat) jsmap"

record cache_request =
  cr_document_uri :: string
  cr_context :: doc_context
  cr_position :: position
  cr_additionalContexts :: "additional_context list option"

record cache_result =
  cres_options :: "suggestion_option list"
  cres_additionalContexts :: "additional_context list option"

type_synonym cache_map = "(string, cache_entry) jsmap"

record cache_config =
  cc_enabled :: bool
  cc_maxSize :: nat
  cc_ttl :: nat
  cc_prefixLines :: nat
  cc_suffixLines :: nat

text \<open>\<open>ISuggestionsCacheOptions\<close>: every field optional.\<close>

record cache_options =
  co_enabled :: "bool option"
  co_maxSize :: "nat option"
  co_ttl :: "nat option"
  co_prefixLines :: "nat option"
  co_suffixLines :: "nat option"

definition DEFAULT_CONFIG :: cache_config where
  "DEFAULT_CONFIG =
     \<lparr>cc_enabled = True, cc_maxSize = 1024 * 1024, cc_ttl = 60 * 1000,
      cc_prefixLines = 1, cc_suffixLines = 1\<rparr>"

definition or_else :: "'a option \<Rightarrow> 'a \<Rightarrow> 'a" where
  "or_else x d = (case x of None \<Rightarrow> d | Some y \<Rightarrow> y)"

definition sc_getCurrentConfig :: "cache_options option \<Rightarrow> cache_config" where
  "sc_getCurrentConfig opts =
     (case opts of
        None \<Rightarrow> DEFAULT_CONFIG
      | Some co \<Rightarrow>
          \<lparr>cc_enabled = or_else (co_enabled co) (cc_enabled DEFAULT_CONFIG),
           cc_maxSize = or_else (co_maxSize co) (cc_maxSize DEFAULT_CONFIG),
           cc_ttl = or_else (co_ttl co) (cc_ttl DEFAULT_CONFIG),
           cc_prefixLines = or_else (co_prefixLines co) (cc_prefixLines DEFAULT_CONFIG),
           cc_suffixLines = or_else (co_suffixLines co) (cc_suffixLines DEFAULT_CONFIG)\<rparr>)"

definition sc_entry_size :: "string \<Rightarrow> cache_entry \<Rightarrow> nat" where
  "sc_entry_size key v = foldl (\<lambda>acc s. acc + length (so_text s)) 0 (ce_suggestions v) + length key"

subsection \<open>Keys\<close>

definition isNonEmptyLine :: "string \<Rightarrow> bool" where
  "isNonEmptyLine s \<longleftrightarrow> length (trim s) > 0"

definition digit :: "nat \<Rightarrow> char" where
  "digit n = char_of (48 + n)"

fun nat_str :: "nat \<Rightarrow> string" where
  "nat_str n = (if n < 10 then [digit n] else nat_str (n div 10) @ [digit (n mod 10)])"

declare nat_str.simps [simp del]

definition current_line :: "doc_context \<Rightarrow> string" where
  "current_line ctx = last (split_on newline (dc_prefix ctx))"

definition indentation :: "string \<Rightarrow> nat" where
  "indentation line = length (takeWhile is_ws line)"

definition sc_getSuggestionKey :: "cache_options option \<Rightarrow> cache_request \<Rightarrow> string" where
  "sc_getSuggestionKey opts ctx =
     (let prefixLines = split_on newline (dc_prefix (cr_context ctx));
          currentLine = last prefixLines;
          config = sc_getCurrentConfig opts;
          cachedPrefixLines =
            join [newline] (slice_last (cc_prefixLines config) (filter isNonEmptyLine (butlast prefixLines)));
          cachedSuffixLines =
            join [newline] (take (cc_suffixLines config)
              (filter isNonEmptyLine (split_on newline (dc_suffix (cr_context ctx)))))
      in join '':''
           [cr_document_uri ctx, nat_str (pos_line (cr_position ctx)), cachedPrefixLines,
            cachedSuffixLines, nat_str (indentation currentLine)])"

subsection \<open>Operations\<close>

definition times_retrieved :: "nat \<Rightarrow> cache_entry \<Rightarrow> nat" where
  "times_retrieved c e = or_else (map_get (ce_timesRetrievedByPosition e) c) 0"

text \<open>The entry is shared with the cache by reference, so that the count is a write to the cache.\<close>

definition sc_increaseCount :: "string \<Rightarrow> nat \<Rightarrow> cache_map \<Rightarrow> cache_map" where
  "sc_increaseCount key c m =
     (case map_get m key of
        None \<Rightarrow> m
      | Some e \<Rightarrow>
          map_set key
            (e\<lparr>ce_timesRetrievedByPosition :=
                 map_set c (times_retrieved c e + 1) (ce_timesRetrievedByPosition e)\<rparr>) m)"

definition sc_addToSuggestionCache ::
  "(cache_map \<Rightarrow> cache_map) \<Rightarrow> cache_options option \<Rightarrow> cache_request \<Rightarrow> suggestion_option list \<Rightarrow>
   cache_map \<Rightarrow> cache_map" where
  "sc_addToSuggestionCache lru opts request suggestions m =
     (if \<not> cc_enabled (sc_getCurrentConfig opts) then m
      else lru (map_set (sc_getSuggestionKey opts request)
        \<lparr>ce_character = pos_character (cr_position request),
         ce_suggestions = suggestions,
         ce_additionalContexts = cr_additionalContexts request,
         ce_currentLine = current_line (cr_context request),
         ce_timesRetrievedByPosition = []\<rparr> m))"

text \<open>The function mapped over \<open>candidate.suggestions\<close>; \<open>None\<close> is \<open>null\<close>.\<close>

definition sc_option_text :: "string \<Rightarrow> string \<Rightarrow> string \<Rightarrow> string option" where
  "sc_option_text currentLine previousLine text =
     (if length currentLine < length previousLine then None
      else let diff = length currentLine - length previousLine in
        if diff \<ge> length text then None
        else if take (length previousLine) currentLine \<noteq> previousLine
                \<or> take diff text \<noteq> drop (length previousLine) currentLine then None
        else Some (drop diff text))"

fun sc_options ::
  "(nat \<Rightarrow> string) \<Rightarrow> string \<Rightarrow> string \<Rightarrow> suggestion_option list \<Rightarrow> nat \<Rightarrow> suggestion_option list \<times> nat" where
  "sc_options uuid cur prev [] n = ([], n)"
| "sc_options uuid cur prev (s # ss) n =
     (case sc_option_text cur prev (so_text s) of
        None \<Rightarrow> sc_options uuid cur prev ss n
      | Some t \<Rightarrow>
          apfst (Cons (s\<lparr>so_text := t, so_uniqueTrackingId := uuid n\<rparr>))
            (sc_options uuid cur prev ss (Suc n)))"

definition sc_getCachedSuggestions ::
  "(nat \<Rightarrow> string) \<Rightarrow> (cache_map \<Rightarrow> cache_map) \<Rightarrow> cache_options option \<Rightarrow> cache_request \<Rightarrow>
   nat \<Rightarrow> cache_map \<Rightarrow> cache_result option \<times> nat \<times> cache_map" where
  "sc_getCachedSuggestions uuid lru opts request n m =
     (if \<not> cc_enabled (sc_getCurrentConfig opts) then (None, n, m)
      else let key = sc_getSuggestionKey opts request; m = lru m in
        case map_get m key of
          None \<Rightarrow> (None, n, m)
        | Some candidate \<Rightarrow>
            let character = pos_character (cr_position request) in
            if times_retrieved character candidate > 0 then (None, n, map_delete key m)
            else
              (let res = sc_options uuid (current_line (cr_context request))
                           (ce_currentLine candidate) (ce_suggestions candidate) n
               in (Some \<lparr>cres_options = fst res,
                         cres_additionalContexts = ce_additionalContexts candidate\<rparr>,
                   snd res, sc_increaseCount key character m)))"

subsection \<open>The law of the package\<close>

definition lru_ok :: "(cache_map \<Rightarrow> cache_map) \<Rightarrow> bool" where
  "lru_ok lru \<longleftrightarrow> (\<forall>m k. map_get (lru m) k = map_get m k \<or> map_get (lru m) k = None)"

lemma lru_ok_get: "lru_ok lru \<Longrightarrow> map_get (lru m) k = Some e \<Longrightarrow> map_get m k = Some e"
  by (metis lru_ok_def option.distinct(1))

subsection \<open>What a cached option is\<close>

lemma sc_option_text_Some_iff:
  "sc_option_text cur prev text = Some t \<longleftrightarrow>
     t \<noteq> [] \<and> cur @ t = prev @ text \<and> length prev \<le> length cur"
proof
  assume a: "sc_option_text cur prev text = Some t"
  let ?d = "length cur - length prev"
  from a have len: "length prev \<le> length cur" and d: "?d < length text"
    and p: "take (length prev) cur = prev" and q: "take ?d text = drop (length prev) cur"
    and t: "t = drop ?d text"
    by (auto simp: sc_option_text_def Let_def split: if_splits)
  have "cur = prev @ take ?d text" using p q append_take_drop_id [of "length prev" cur] by simp
  then have "cur @ t = prev @ text" by (metis append_assoc append_take_drop_id t)
  with len d t show "t \<noteq> [] \<and> cur @ t = prev @ text \<and> length prev \<le> length cur" by simp
next
  assume a: "t \<noteq> [] \<and> cur @ t = prev @ text \<and> length prev \<le> length cur"
  then obtain w where cur: "cur = prev @ w" by (metis append_eq_append_conv_if append_take_drop_id)
  with a have "text = w @ t" by simp
  with cur a show "sc_option_text cur prev text = Some t"
    by (simp add: sc_option_text_def)
qed

lemma sc_options_counter: "snd (sc_options uuid cur prev ss n) = n + length (fst (sc_options uuid cur prev ss n))"
  by (induction ss arbitrary: n) (auto split: option.splits)

lemma sc_options_texts:
  "map so_text (fst (sc_options uuid cur prev ss n)) =
     List.map_filter (\<lambda>s. sc_option_text cur prev (so_text s)) ss"
  by (induction ss arbitrary: n) (auto split: option.splits simp: List.map_filter_simps)

lemma sc_options_ids:
  "map so_uniqueTrackingId (fst (sc_options uuid cur prev ss n)) =
     map uuid [n..<n + length (fst (sc_options uuid cur prev ss n))]"
proof (induction ss arbitrary: n)
  case (Cons s ss)
  show ?case
  proof (cases "sc_option_text cur prev (so_text s)")
    case None
    with Cons.IH show ?thesis by simp
  next
    case (Some t)
    have "[n..<n + Suc k] = n # [Suc n..<Suc n + k]" for k by (simp add: upt_conv_Cons)
    with Some Cons.IH [of "Suc n"] show ?thesis by simp
  qed
qed simp

lemma sc_options_sound:
  "opt \<in> set (fst (sc_options uuid cur prev ss n)) \<Longrightarrow>
   \<exists>s \<in> set ss. sc_option_text cur prev (so_text s) = Some (so_text opt) \<and>
     so_index opt = so_index s \<and> so_model opt = so_model s"
  by (induction ss arbitrary: n) (auto split: option.splits)

subsection \<open>Keys are stable while a line is typed\<close>

lemma indentation_append:
  "\<not> (\<forall>c \<in> set line. is_ws c) \<or> w = [] \<or> \<not> is_ws (hd w) \<Longrightarrow> indentation (line @ w) = indentation line"
proof (cases "\<forall>c \<in> set line. is_ws c")
  case True
  moreover assume "\<not> (\<forall>c \<in> set line. is_ws c) \<or> w = [] \<or> \<not> is_ws (hd w)"
  ultimately have "w = [] \<or> \<not> is_ws (hd w)" by simp
  then have "takeWhile is_ws w = []" by (cases w) auto
  moreover from True have tw: "takeWhile is_ws line = line" by (simp add: takeWhile_eq_all_conv)
  ultimately show ?thesis using True by (simp add: indentation_def takeWhile_append tw)
next
  case False
  then show ?thesis by (auto simp: indentation_def takeWhile_append1)
qed

definition typed :: "string \<Rightarrow> cache_request \<Rightarrow> cache_request" where
  "typed w r =
     r\<lparr>cr_context := (cr_context r)\<lparr>dc_prefix := dc_prefix (cr_context r) @ w\<rparr>,
       cr_position := (cr_position r)\<lparr>pos_character := pos_character (cr_position r) + length w\<rparr>\<rparr>"

lemma current_line_typed:
  "newline \<notin> set w \<Longrightarrow> current_line (cr_context (typed w r)) = current_line (cr_context r) @ w"
  by (simp add: current_line_def typed_def last_split_on)

lemma key_typed:
  assumes "newline \<notin> set w"
    and "\<not> (\<forall>c \<in> set (current_line (cr_context r)). is_ws c) \<or> w = [] \<or> \<not> is_ws (hd w)"
  shows "sc_getSuggestionKey opts (typed w r) = sc_getSuggestionKey opts r"
  using assms indentation_append [of "current_line (cr_context r)" w]
  by (simp add: sc_getSuggestionKey_def typed_def last_split_on butlast_split_on current_line_def Let_def)

subsection \<open>Reading back what was added\<close>

lemma get_after_add:
  assumes lru: "map_get (lru2 (lru1 m')) (sc_getSuggestionKey opts r) = map_get m' (sc_getSuggestionKey opts r)"
    and m': "m' = map_set (sc_getSuggestionKey opts r)
               \<lparr>ce_character = pos_character (cr_position r), ce_suggestions = ss,
                ce_additionalContexts = cr_additionalContexts r,
                ce_currentLine = current_line (cr_context r), ce_timesRetrievedByPosition = []\<rparr> m"
    and en: "cc_enabled (sc_getCurrentConfig opts)"
    and key: "sc_getSuggestionKey opts r' = sc_getSuggestionKey opts r"
  shows "fst (sc_getCachedSuggestions uuid lru2 opts r' n (sc_addToSuggestionCache lru1 opts r ss m)) =
    Some \<lparr>cres_options = fst (sc_options uuid (current_line (cr_context r')) (current_line (cr_context r)) ss n),
          cres_additionalContexts = cr_additionalContexts r\<rparr>"
  using lru en unfolding sc_getCachedSuggestions_def sc_addToSuggestionCache_def key
  by (simp add: m' [symmetric] Let_def) (simp add: m' times_retrieved_def or_else_def Let_def)

subsection \<open>Properties\<close>

text \<open>A suggestion served from the cache continues the text the user has typed: each returned
  option comes from a suggestion of the entry stored under the request's key, is not empty, and
  appended to the line up to the cursor gives exactly what the cached suggestion gave on the line it
  was computed for.  Its tracking id is a fresh one.\<close>

theorem cached_options_extend_line:
  assumes "lru_ok lru"
    and "sc_getCachedSuggestions uuid lru opts request n m = (Some res, n', m')"
    and "opt \<in> set (cres_options res)"
  shows "so_text opt \<noteq> [] \<and> so_uniqueTrackingId opt \<in> uuid ` {n..<n'} \<and>
    (\<exists>e s. map_get m (sc_getSuggestionKey opts request) = Some e \<and> s \<in> set (ce_suggestions e) \<and>
       current_line (cr_context request) @ so_text opt = ce_currentLine e @ so_text s)"
proof -
  let ?cur = "current_line (cr_context request)"
  from assms(2) obtain e where e: "map_get (lru m) (sc_getSuggestionKey opts request) = Some e"
    and res: "cres_options res = fst (sc_options uuid ?cur (ce_currentLine e) (ce_suggestions e) n)"
    and n': "n' = snd (sc_options uuid ?cur (ce_currentLine e) (ce_suggestions e) n)"
    by (auto simp: sc_getCachedSuggestions_def Let_def split: if_splits option.splits)
  from assms(3) res obtain s where s: "s \<in> set (ce_suggestions e)"
    "sc_option_text ?cur (ce_currentLine e) (so_text s) = Some (so_text opt)"
    using sc_options_sound by fastforce
  have "so_uniqueTrackingId opt \<in> set (map so_uniqueTrackingId (cres_options res))"
    using assms(3) by simp
  then have "so_uniqueTrackingId opt \<in> uuid ` {n..<n'}"
    unfolding res sc_options_ids n' sc_options_counter by simp
  with s lru_ok_get [OF assms(1) e] show ?thesis by (auto simp: sc_option_text_Some_iff)
qed

text \<open>C4: Typing ahead: after suggestions were cached, a request made once the user typed the text
  \<open>w\<close> on the same line (not starting with whitespace on a blank line, which changes the indentation
  in the key), while the package keeps the entry, is answered from the cache with the rest of every
  suggestion that begins with \<open>w\<close> and is longer, in order, and with the additional contexts of the
  cached request.\<close>

theorem cache_serves_typed_ahead:
  assumes "cc_enabled (sc_getCurrentConfig opts)"
    and "newline \<notin> set w"
    and "\<not> (\<forall>c \<in> set (current_line (cr_context r)). is_ws c) \<or> w = [] \<or> \<not> is_ws (hd w)"
    and "\<And>m. map_get (lru1 m) (sc_getSuggestionKey opts r) = map_get m (sc_getSuggestionKey opts r)"
    and "\<And>m. map_get (lru2 m) (sc_getSuggestionKey opts r) = map_get m (sc_getSuggestionKey opts r)"
  shows "\<exists>res. fst (sc_getCachedSuggestions uuid lru2 opts (typed w r) n
                 (sc_addToSuggestionCache lru1 opts r ss m)) = Some res \<and>
    map so_text (cres_options res) =
      map (\<lambda>s. drop (length w) (so_text s))
        (filter (\<lambda>s. prefix w (so_text s) \<and> length w < length (so_text s)) ss) \<and>
    cres_additionalContexts res = cr_additionalContexts r"
proof -
  have cont: "sc_option_text (l @ w) l t =
      (if prefix w t \<and> length w < length t then Some (drop (length w) t) else None)" for l t
    by (auto simp: sc_option_text_def prefix_def Let_def) (metis append_take_drop_id)
  have "List.map_filter (\<lambda>s. sc_option_text (l @ w) l (so_text s)) ss =
      map (\<lambda>s. drop (length w) (so_text s))
        (filter (\<lambda>s. prefix w (so_text s) \<and> length w < length (so_text s)) ss)" for l
    by (induction ss) (auto simp: List.map_filter_simps cont)
  moreover note get_after_add [OF _ refl assms(1) key_typed [OF assms(2,3)], of lru2 lru1]
  ultimately show ?thesis
    using assms(4,5) by (simp add: current_line_typed [OF assms(2)] sc_options_texts)
qed

text \<open>A cached answer is served once per cursor column: after an answered request, the same
  request again (with the entry still in the package) is not answered, and the entry is deleted from
  the cache, so that the next request reaches the network.\<close>

theorem cache_served_once_per_position:
  assumes "sc_getCachedSuggestions uuid lru opts request n m = (Some res, n', m')"
    and "map_get (lru' m') (sc_getSuggestionKey opts request) = map_get m' (sc_getSuggestionKey opts request)"
  shows "sc_getCachedSuggestions uuid lru' opts request k m' =
    (None, k, map_delete (sc_getSuggestionKey opts request) (lru' m'))"
  using assms
  by (auto simp: sc_getCachedSuggestions_def sc_increaseCount_def times_retrieved_def or_else_def Let_def
      split: if_splits option.splits)


subsection \<open>Witnesses\<close>

definition demo_request :: cache_request where
  "demo_request =
     \<lparr>cr_document_uri = ''file:///a.ts'',
      cr_context = \<lparr>dc_prefix = ''let x'', dc_suffix = '''', dc_fileRelativePath = ''a.ts'',
        dc_position = \<lparr>pos_line = 0, pos_character = 5\<rparr>, dc_uri = ''file:///a.ts'',
        dc_languageId = ''typescript'', dc_workspaceFolder = None\<rparr>,
      cr_position = \<lparr>pos_line = 0, pos_character = 5\<rparr>, cr_additionalContexts = None\<rparr>"

definition demo_option :: suggestion_option where
  "demo_option = \<lparr>so_index = Some 0, so_text = '' = 1;'', so_uniqueTrackingId = ''u'', so_model = None\<rparr>"

definition demo_cache :: cache_map where
  "demo_cache = sc_addToSuggestionCache id None demo_request [demo_option] []"

lemma demo_enabled: "cc_enabled (sc_getCurrentConfig None)"
  by (simp add: sc_getCurrentConfig_def DEFAULT_CONFIG_def)

lemma demo_line: "current_line (cr_context demo_request) = ''let x''"
  by (simp add: current_line_def demo_request_def)

lemma demo_cached:
  "fst (sc_getCachedSuggestions uuid id None demo_request n demo_cache) =
    Some \<lparr>cres_options = [demo_option\<lparr>so_uniqueTrackingId := uuid n\<rparr>], cres_additionalContexts = None\<rparr>"
  unfolding demo_cache_def
  by (subst get_after_add [OF _ refl demo_enabled refl])
     (simp_all add: demo_line demo_option_def sc_option_text_def demo_request_def [THEN arg_cong, of cr_additionalContexts])

lemma demo_cached_all:
  "\<exists>n' m'. sc_getCachedSuggestions uuid id None demo_request n demo_cache =
    (Some \<lparr>cres_options = [demo_option\<lparr>so_uniqueTrackingId := uuid n\<rparr>], cres_additionalContexts = None\<rparr>, n', m')"
  using demo_cached [of uuid n] by (metis prod.collapse)

theorem cached_options_extend_line_witness:
  "so_text demo_option \<noteq> [] \<and>
   (\<exists>e s. map_get demo_cache (sc_getSuggestionKey None demo_request) = Some e \<and> s \<in> set (ce_suggestions e) \<and>
     ''let x'' @ so_text demo_option = ce_currentLine e @ so_text s)"
proof -
  obtain n' m' where g: "sc_getCachedSuggestions (\<lambda>n. []) id None demo_request 0 demo_cache =
    (Some \<lparr>cres_options = [demo_option\<lparr>so_uniqueTrackingId := []\<rparr>], cres_additionalContexts = None\<rparr>, n', m')"
    using demo_cached_all [of "\<lambda>n. []" 0] by blast
  have "lru_ok id" by (simp add: lru_ok_def)
  from cached_options_extend_line [OF this g, of "demo_option\<lparr>so_uniqueTrackingId := []\<rparr>"]
  show ?thesis by (simp add: demo_line)
qed

theorem cache_serves_typed_ahead_witness:
  "\<exists>res. fst (sc_getCachedSuggestions (\<lambda>n. []) id None (typed '' ='' demo_request) 0 demo_cache) = Some res \<and>
    map so_text (cres_options res) = ['' 1;'']"
proof -
  have "\<not> (\<forall>c \<in> set (current_line (cr_context demo_request)). is_ws c)"
    by (simp add: demo_line is_ws_def)
  then show ?thesis
    using cache_serves_typed_ahead [of None "'' =''" demo_request id id "\<lambda>n. []" 0 "[demo_option]" "[]"]
      demo_enabled
    by (auto simp: demo_cache_def demo_option_def)
qed

theorem cache_served_once_per_position_witness:
  "\<exists>m'. sc_getCachedSuggestions (\<lambda>n. []) id None demo_request 7 m' =
     (None, 7, map_delete (sc_getSuggestionKey None demo_request) m')"
proof -
  obtain n' m' where g: "sc_getCachedSuggestions (\<lambda>n. []) id None demo_request 0 demo_cache =
    (Some \<lparr>cres_options = [demo_option\<lparr>so_uniqueTrackingId := []\<rparr>], cres_additionalContexts = None\<rparr>, n', m')"
    using demo_cached_all [of "\<lambda>n. []" 0] by blast
  from cache_served_once_per_position [OF g, of id 7] show ?thesis by auto
qed

end
