(* ===== verification/Suggestion_Filter.thy ===== *)
theory Suggestion_Filter
  imports Document_Context Suggestions_Cache
begin

text \<open>
  When a suggestion is asked for and how it is handed to the client: the filters of
  \<open>src/common/suggestion/suggestion_filter.ts\<close> and the mappers of
  \<open>src/common/utils/suggestion_mappers.ts\<close>.  The regular expression of the first filter is modelled
  by the greedy scan it compiles to, and by its declarative reading \<open>near_eol_regex\<close>; the two agree.
\<close>

subsection \<open>Is the cursor at or near the end of its line?\<close>

text \<open>The line up to the first \<open>\r?\n\<close>.\<close>

fun line_suffix :: "string \<Rightarrow> string" where
  "line_suffix [] = []"
| "line_suffix (c # s) =
     (if c = newline then []
      else if c = CHR 0x0D \<and> prefix [newline] s then []
      else c # line_suffix s)"

definition closers :: "char set" where
  "closers = {CHR '')'', CHR ''}'', CHR '']'', CHR 0x22, CHR 0x27, CHR 0x60}"

definition terminators :: "char set" where
  "terminators = {CHR '':'', CHR ''{'', CHR '';'', CHR '',''}"

text \<open>\<open>/^\s*[)}\]"'`]*\s*[:{;,]?\s*$/\<close>, scanned greedily.\<close>

definition near_eol :: "string \<Rightarrow> bool" where
  "near_eol s =
     (let r1 = dropWhile is_ws s;
          r2 = dropWhile (\<lambda>c. c \<in> closers) r1;
          r3 = dropWhile is_ws r2;
          r4 = (case r3 of [] \<Rightarrow> [] | c # r \<Rightarrow> if c \<in> terminators then r else r3)
      in dropWhile is_ws r4 = [])"

definition isAtOrNearEndOfLine :: "string \<Rightarrow> bool" where
  "isAtOrNearEndOfLine suf = near_eol (line_suffix suf)"

text \<open>What the regular expression says.\<close>

definition near_eol_regex :: "string \<Rightarrow> bool" where
  "near_eol_regex s \<longleftrightarrow>
     (\<exists>a b c d e. s = a @ b @ c @ d @ e \<and> (\<forall>x \<in> set a. is_ws x) \<and> set b \<subseteq> closers \<and>
        (\<forall>x \<in> set c. is_ws x) \<and> (d = [] \<or> (\<exists>t \<in> terminators. d = [t])) \<and> (\<forall>x \<in> set e. is_ws x))"

subsection \<open>A selection of the autocompletion widget\<close>

text \<open>\<open>getText\<close> is \<open>TextDocument.getText\<close> of the document of the request, \<open>None\<close> when there is none.\<close>

definition shouldRejectCompletion ::
  "inline_context \<Rightarrow> (lsp_range \<Rightarrow> string) option \<Rightarrow> bool" where
  "shouldRejectCompletion context document =
     (case (ic_selectedCompletionInfo context, document) of
        (Some info, Some getText) \<Rightarrow>
          \<not> starts_with (sc_text info) (getText (sanitizeRange (sc_range info)))
      | _ \<Rightarrow> False)"

subsection \<open>Suggestion options and streams\<close>

datatype option_or_stream =
    Start_stream (ss_streamId: string) (ss_uniqueTrackingId: string)
  | Suggestion suggestion_option

fun isStream :: "option_or_stream \<Rightarrow> bool" where
  "isStream (Start_stream sid tid) = (sid \<noteq> [])"
| "isStream (Suggestion s) = False"

fun isTextSuggestion :: "option_or_stream \<Rightarrow> bool" where
  "isTextSuggestion (Start_stream sid tid) = False"
| "isTextSuggestion (Suggestion s) = (so_text s \<noteq> [])"

definition SUGGESTION_ACCEPTED_COMMAND :: string where
  "SUGGESTION_ACCEPTED_COMMAND = ''gitlab.ls.codeSuggestionAccepted''"

definition START_STREAMING_COMMAND :: string where
  "START_STREAMING_COMMAND = ''gitlab.ls.startStreaming''"

datatype command_arg = Arg_string string | Arg_index "nat option"

record lsp_command =
  cmd_title :: string
  cmd_command :: string
  cmd_arguments :: "command_arg list"

record completion_item =
  ci_label :: string
  ci_insertText :: string
  ci_detail :: string
  ci_command :: lsp_command
  ci_data_index :: nat
  ci_data_trackingId :: string

definition completionOptionMapper :: "suggestion_option list \<Rightarrow> completion_item list" where
  "completionOptionMapper options =
     map (\<lambda>(option, index).
       \<lparr>ci_label = ''KhulnaSoft Suggestion '' @ nat_str (index + 1) @ '': '' @ so_text option,
        ci_insertText = so_text option,
        ci_detail = so_text option,
        ci_command = \<lparr>cmd_title = ''Accept suggestion'', cmd_command = SUGGESTION_ACCEPTED_COMMAND,
                      cmd_arguments = [Arg_string (so_uniqueTrackingId option)]\<rparr>,
        ci_data_index = index,
        ci_data_trackingId = so_uniqueTrackingId option\<rparr>)
       (zip options [0..<length options])"

definition getOptionTrackingIndex :: "suggestion_option \<Rightarrow> nat option" where
  "getOptionTrackingIndex option = map_option (\<lambda>i. i + 1) (so_index option)"

text \<open>An item of the inline list; the one that starts a stream has no range.  An option without a
  stream id that is not a suggestion has no text either (the \<open>undefined\<close> of the source).\<close>

record inline_item =
  ii_insertText :: "string option"
  ii_range :: "lsp_range option"
  ii_command :: lsp_command

fun option_text :: "option_or_stream \<Rightarrow> string option" where
  "option_text (Start_stream sid tid) = None"
| "option_text (Suggestion s) = Some (so_text s)"

fun option_tracking_id :: "option_or_stream \<Rightarrow> string" where
  "option_tracking_id (Start_stream sid tid) = tid"
| "option_tracking_id (Suggestion s) = so_uniqueTrackingId s"

fun option_tracking_index :: "option_or_stream \<Rightarrow> nat option" where
  "option_tracking_index (Start_stream sid tid) = None"
| "option_tracking_index (Suggestion s) = getOptionTrackingIndex s"

text \<open>\<open>substring\<close> reads a negative start as 0, which is what truncated subtraction gives.\<close>

definition inline_item_of ::
  "position \<Rightarrow> selected_completion option \<Rightarrow> option_or_stream \<Rightarrow> inline_item" where
  "inline_item_of pos completionInfo option =
     (if isStream option
      then \<lparr>ii_insertText = Some [], ii_range = None,
            ii_command = \<lparr>cmd_title = ''Start streaming'', cmd_command = START_STREAMING_COMMAND,
              cmd_arguments = [Arg_string (ss_streamId option), Arg_string (ss_uniqueTrackingId option)]\<rparr>\<rparr>
      else
        let rangeDiff = (case completionInfo of
              None \<Rightarrow> 0
            | Some info \<Rightarrow>
                let range = sanitizeRange (sc_range info)
                in pos_character (range_end range) - pos_character (range_start range))
        in \<lparr>ii_insertText = (case completionInfo of
                None \<Rightarrow> option_text option
              | Some info \<Rightarrow>
                  Some (drop rangeDiff (sc_text info) @ or_else (option_text option) ''undefined'')),
            ii_range = Some \<lparr>range_start = pos, range_end = pos\<rparr>,
            ii_command = \<lparr>cmd_title = ''Accept suggestion'', cmd_command = SUGGESTION_ACCEPTED_COMMAND,
              cmd_arguments = [Arg_string (option_tracking_id option), Arg_index (option_tracking_index option)]\<rparr>\<rparr>)"

definition inlineCompletionOptionMapper ::
  "position \<Rightarrow> inline_context \<Rightarrow> option_or_stream list \<Rightarrow> inline_item list" where
  "inlineCompletionOptionMapper pos context options =
     map (inline_item_of pos (ic_selectedCompletionInfo context)) options"

subsection \<open>The greedy scan decides the regular expression\<close>

lemma ws_not_closer: "is_ws c \<Longrightarrow> c \<notin> closers \<and> c \<notin> terminators"
  by (auto simp: is_ws_def closers_def terminators_def)

lemma closer_not_terminator: "c \<in> closers \<Longrightarrow> c \<notin> terminators"
  by (auto simp: closers_def terminators_def)

lemma dropWhile_split: "\<exists>a. s = a @ dropWhile P s \<and> (\<forall>x \<in> set a. P x)"
  by (metis set_takeWhileD takeWhile_dropWhile_id)

lemma dropWhile_ws_all: "dropWhile is_ws s = [] \<longleftrightarrow> (\<forall>x \<in> set s. is_ws x)"
  by (simp add: dropWhile_eq_Nil_conv)

lemma near_eol_regex_parts:
  "\<forall>x \<in> set a. is_ws x \<Longrightarrow> set b \<subseteq> closers \<Longrightarrow> \<forall>x \<in> set c. is_ws x \<Longrightarrow>
   d = [] \<or> (\<exists>t \<in> terminators. d = [t]) \<Longrightarrow> \<forall>x \<in> set e. is_ws x \<Longrightarrow> near_eol_regex (a @ b @ c @ d @ e)"
  unfolding near_eol_regex_def by (rule exI)+ (intro conjI, rule refl)

lemma near_eol_regexI:
  assumes "near_eol s"
  shows "near_eol_regex s"
proof -
  obtain a where a: "s = a @ dropWhile is_ws s" "\<forall>x \<in> set a. is_ws x"
    using dropWhile_split [of s is_ws] by (elim exE conjE)
  define r1 where "r1 = dropWhile is_ws s"
  obtain b where b: "r1 = b @ dropWhile (\<lambda>c. c \<in> closers) r1" "\<forall>x \<in> set b. x \<in> closers"
    using dropWhile_split [of r1 "\<lambda>c. c \<in> closers"] by (elim exE conjE)
  define r2 where "r2 = dropWhile (\<lambda>c. c \<in> closers) r1"
  obtain c where c: "r2 = c @ dropWhile is_ws r2" "\<forall>x \<in> set c. is_ws x"
    using dropWhile_split [of r2 is_ws] by (elim exE conjE)
  define r3 where "r3 = dropWhile is_ws r2"
  define r4 where "r4 = (case r3 of [] \<Rightarrow> [] | x # r \<Rightarrow> if x \<in> terminators then r else r3)"
  have e: "\<forall>x \<in> set r4. is_ws x"
    using assms unfolding near_eol_def Let_def r4_def r3_def r2_def r1_def by (simp only: dropWhile_ws_all)
  have "\<exists>d. r3 = d @ r4 \<and> (d = [] \<or> (\<exists>t \<in> terminators. d = [t]))"
    by (auto simp: r4_def split: list.splits)
  then obtain d where d: "r3 = d @ r4" "d = [] \<or> (\<exists>t \<in> terminators. d = [t])" by blast
  have "s = a @ b @ c @ d @ r4"
    using a(1) b(1) c(1) d(1) by (simp add: r1_def [symmetric] r2_def [symmetric] r3_def [symmetric])
  moreover have "set b \<subseteq> closers" using b(2) by auto
  ultimately show ?thesis using near_eol_regex_parts [OF a(2) _ c(2) d(2) e] by simp
qed

lemma dropWhile_all_append: "\<forall>x \<in> set a. P x \<Longrightarrow> dropWhile P (a @ s) = dropWhile P s"
  by (induction a) auto

lemma near_eol_ws: "\<forall>x \<in> set s. is_ws x \<Longrightarrow> near_eol s"
  by (simp add: near_eol_def dropWhile_ws_all [THEN iffD2])

lemma near_eol_term: "t \<in> terminators \<Longrightarrow> \<forall>x \<in> set e. is_ws x \<Longrightarrow> near_eol (t # e)"
  using ws_not_closer [of t] closer_not_terminator [of t] dropWhile_ws_all [of e]
  by (simp add: near_eol_def Let_def) blast

lemma near_eol_ws_app: "\<forall>x \<in> set a. is_ws x \<Longrightarrow> near_eol s \<Longrightarrow> near_eol (a @ s)"
  by (simp add: near_eol_def dropWhile_all_append)

text \<open>The scan after a run of closers.\<close>

definition tail_ok :: "string \<Rightarrow> bool" where
  "tail_ok s = (let r3 = dropWhile is_ws s;
                    r4 = (case r3 of [] \<Rightarrow> [] | c # r \<Rightarrow> if c \<in> terminators then r else r3)
                in dropWhile is_ws r4 = [])"

lemma near_eol_tail: "near_eol s = tail_ok (dropWhile (\<lambda>c. c \<in> closers) (dropWhile is_ws s))"
  by (simp add: near_eol_def tail_ok_def Let_def)

lemma tail_okI:
  assumes "\<forall>x \<in> set c. is_ws x" "d = [] \<or> (\<exists>t \<in> terminators. d = [t])" "\<forall>x \<in> set e. is_ws x"
  shows "tail_ok (c @ d @ e)"
proof -
  have e: "dropWhile is_ws e = []" using assms(3) dropWhile_ws_all by blast
  from assms(2) show ?thesis
  proof
    assume "d = []"
    with e assms(1) show ?thesis by (simp add: tail_ok_def dropWhile_all_append Let_def del: dropWhile_eq_Nil_conv)
  next
    assume "\<exists>t \<in> terminators. d = [t]"
    then obtain t where "t \<in> terminators" "d = [t]" by blast
    with e assms(1) ws_not_closer [of t] show ?thesis
      by (simp add: tail_ok_def dropWhile_all_append Let_def del: dropWhile_eq_Nil_conv)
  qed
qed

lemma tail_no_closer:
  assumes "\<forall>x \<in> set c. is_ws x" "d = [] \<or> (\<exists>t \<in> terminators. d = [t])" "\<forall>x \<in> set e. is_ws x"
  shows "dropWhile (\<lambda>x. x \<in> closers) (c @ d @ e) = c @ d @ e"
proof (cases "c @ d @ e")
  case (Cons x xs)
  have "x \<in> set (c @ d @ e)" by (simp only: Cons) simp
  then have "x \<notin> closers"
    using assms ws_not_closer closer_not_terminator by auto
  with Cons show ?thesis by simp
qed simp

lemma near_eol_regexD:
  assumes "near_eol_regex s"
  shows "near_eol s"
proof -
  obtain a b c d e where s: "s = a @ b @ c @ d @ e" and a: "\<forall>x \<in> set a. is_ws x"
    and b: "set b \<subseteq> closers" and c: "\<forall>x \<in> set c. is_ws x"
    and d: "d = [] \<or> (\<exists>t \<in> terminators. d = [t])" and e: "\<forall>x \<in> set e. is_ws x"
    using assms unfolding near_eol_regex_def by blast
  have "near_eol (b @ c @ d @ e)"
  proof (cases b)
    case Nil
    have "near_eol (d @ e)" using d near_eol_ws [OF e] near_eol_term e by auto
    with Nil show ?thesis by (simp add: near_eol_ws_app [OF c])
  next
    case (Cons x xs)
    then have "\<not> is_ws x" using b ws_not_closer by auto
    then have "dropWhile is_ws (b @ c @ d @ e) = b @ c @ d @ e" by (simp add: Cons)
    moreover have "dropWhile (\<lambda>c. c \<in> closers) (b @ c @ d @ e) = c @ d @ e"
      using b tail_no_closer [OF c d e] by (subst dropWhile_all_append) auto
    ultimately show ?thesis using tail_okI [OF c d e] by (simp add: near_eol_tail)
  qed
  then show ?thesis by (simp add: s near_eol_ws_app [OF a])
qed

subsection \<open>Properties\<close>

text \<open>The check that gates every request is exactly its regular expression on the rest of the
  cursor's line: whitespace, closing brackets or quotes, whitespace, at most one of \<open>: { ; ,\<close> and
  whitespace.\<close>

theorem near_end_of_line_regex: "isAtOrNearEndOfLine s \<longleftrightarrow> near_eol_regex (line_suffix s)"
  unfolding isAtOrNearEndOfLine_def using near_eol_regexI near_eol_regexD by blast

text \<open>When the widget's selected entry is not rejected and its range lies on one line (the text of
  the range is as long as the range), what the user has plus what the inline item inserts is the
  selected entry followed by the suggestion.\<close>

theorem inline_item_completes_selection:
  assumes "\<not> shouldRejectCompletion context (Some getText)"
    and "ic_selectedCompletionInfo context = Some info"
    and "r = sanitizeRange (sc_range info)"
    and "length (getText r) = pos_character (range_end r) - pos_character (range_start r)"
  shows "\<exists>ins. map ii_insertText (inlineCompletionOptionMapper pos context [Suggestion s]) = [Some ins] \<and>
    getText r @ ins = sc_text info @ so_text s"
proof -
  from assms(1-3) have "prefix (getText r) (sc_text info)"
    by (simp add: shouldRejectCompletion_def)
  with assms(2-4) show ?thesis
    by (auto simp: inlineCompletionOptionMapper_def inline_item_of_def or_else_def Let_def prefix_def)
qed

theorem inline_item_completes_selection_witness:
  "\<exists>ins. map ii_insertText (inlineCompletionOptionMapper \<lparr>pos_line = 0, pos_character = 2\<rparr>
      \<lparr>ic_triggerKind = Automatic, ic_selectedCompletionInfo = Some
        \<lparr>sc_range = Range_array \<lparr>pos_line = 0, pos_character = 0\<rparr> \<lparr>pos_line = 0, pos_character = 2\<rparr>,
         sc_text = ''log''\<rparr>\<rparr> [Suggestion demo_option]) = [Some ins] \<and> ''lo'' @ ins = ''log = 1;''"
  using inline_item_completes_selection [of "\<lparr>ic_triggerKind = Automatic, ic_selectedCompletionInfo = Some
        \<lparr>sc_range = Range_array \<lparr>pos_line = 0, pos_character = 0\<rparr> \<lparr>pos_line = 0, pos_character = 2\<rparr>,
         sc_text = ''log''\<rparr>\<rparr>" "\<lambda>r. ''lo''" _ _ "\<lparr>pos_line = 0, pos_character = 2\<rparr>" demo_option,
      OF _ _ refl]
  by (simp add: shouldRejectCompletion_def demo_option_def)

end
