(* ===== verification/Suggestion_Client.thy ===== *)
theory Suggestion_Client
  imports Domain Circuit_Breaker Suggestions_Cache
begin

text \<open>
  Where suggestions come from (\<open>src/common/suggestion_client/\<close>): the request of the code suggestions
  API (\<open>create_v2_request.ts\<close>), the client that asks the instance (\<open>default_suggestion_client.ts\<close>), the
  one that asks the cloud directly (\<open>direct_connection_client.ts\<close>), the client that tries several
  (\<open>fallback_client.ts\<close>), the middleware pipeline (\<open>suggestion_client_pipeline.ts\<close>) and the tree-sitter
  middleware that adds the intent.

  An asynchronous function is a state transformer that returns the error it rejects with or its value.
  The network is the record \<open>api_env\<close>: what each endpoint answers; the requests sent are logged.
\<close>

subsection \<open>Data\<close>

datatype intent = Generation | Completion

datatype client_error = Fetch_error nat | Js_error string

record suggestion_context =
  sctx_document :: doc_context
  sctx_intent :: "intent option"
  sctx_projectPath :: "string option"
  sctx_optionsCount :: "nat option"
  sctx_additionalContexts :: "additional_context list option"

record suggestion_response =
  sr_choices :: "string list option"
  sr_model :: "suggestion_model option"
  sr_status :: nat
  sr_error :: "string option"
  sr_isDirectConnection :: "bool option"

definition MANUAL_REQUEST_OPTIONS_COUNT :: nat where
  "MANUAL_REQUEST_OPTIONS_COUNT = 4"

datatype generation_type = Gen_comment | Gen_small_file | Gen_empty_function

record model_details =
  md_model_provider :: string
  md_model_name :: string

record current_file =
  cf_content_above_cursor :: string
  cf_content_below_cursor :: string
  cf_file_name :: string

record suggestion_request =
  rq_prompt_version :: nat
  rq_project_path :: string
  rq_project_id :: int
  rq_current_file :: current_file
  rq_intent :: "intent option"
  rq_stream :: "bool option"
  rq_choices_count :: "nat option"
  rq_context :: "additional_context list option"
  rq_user_instruction :: "string option"
  rq_generation_type :: "generation_type option"
  rq_model_details :: "model_details option"

text \<open>\<open>xs?.length && {context: xs}\<close>: an empty list is left out.\<close>

definition non_empty :: "'a list option \<Rightarrow> 'a list option" where
  "non_empty xs = (case xs of None \<Rightarrow> None | Some [] \<Rightarrow> None | Some (y # ys) \<Rightarrow> Some (y # ys))"

definition current_file_of :: "doc_context \<Rightarrow> current_file" where
  "current_file_of ctx =
     \<lparr>cf_content_above_cursor = dc_prefix ctx, cf_content_below_cursor = dc_suffix ctx,
      cf_file_name = dc_fileRelativePath ctx\<rparr>"

definition createV2Request :: "suggestion_context \<Rightarrow> model_details option \<Rightarrow> suggestion_request" where
  "createV2Request ctx modelDetails =
     \<lparr>rq_prompt_version = 1,
      rq_project_path = or_else (sctx_projectPath ctx) '''',
      rq_project_id = -1,
      rq_current_file = current_file_of (sctx_document ctx),
      rq_intent = sctx_intent ctx,
      rq_stream = None,
      rq_choices_count = sctx_optionsCount ctx,
      rq_context = non_empty (sctx_additionalContexts ctx),
      rq_user_instruction = None,
      rq_generation_type = None,
      rq_model_details = modelDetails\<rparr>"

type_synonym ('s, 'a) async = "'s \<Rightarrow> (client_error + 'a) \<times> 's"

type_synonym 's client = "suggestion_context \<Rightarrow> ('s, suggestion_response option) async"

type_synonym 's middleware = "suggestion_context \<Rightarrow> 's client \<Rightarrow> ('s, suggestion_response option) async"

subsection \<open>Connection details and their headers\<close>

record connection_headers =
  ch_global_user_id :: "string option"
  ch_instance_id :: "string option"
  ch_host_name :: "string option"
  ch_duo_pro_namespace_ids :: "string option"

record connection_details =
  cd_base_url :: string
  cd_token :: string
  cd_expires_at :: nat
  cd_headers :: connection_headers
  cd_model_details :: "model_details option"

record snowplow_options =
  spo_instance_id :: "string option"
  spo_global_user_id :: "string option"
  spo_host_name :: "string option"
  spo_duo_pro_namespace_ids :: "int list option"

definition is_digit :: "char \<Rightarrow> bool" where
  "is_digit c \<longleftrightarrow> 48 \<le> (of_char c :: nat) \<and> (of_char c :: nat) \<le> 57"

definition digits_value :: "string \<Rightarrow> int" where
  "digits_value ds = foldl (\<lambda>n c. 10 * n + int (of_char c - 48)) 0 ds"

text \<open>\<open>parseInt(s, 10)\<close>: leading whitespace, a sign, the longest run of digits; \<open>None\<close> is \<open>NaN\<close>.\<close>

definition js_parseInt :: "string \<Rightarrow> int option" where
  "js_parseInt s =
     (let t = trim_start s;
          neg = prefix ''-'' t;
          u = (if neg \<or> prefix ''+'' t then drop 1 t else t);
          ds = takeWhile is_digit u
      in if ds = [] then None else Some (if neg then - digits_value ds else digits_value ds))"

definition transformHeaders :: "connection_headers option \<Rightarrow> snowplow_options" where
  "transformHeaders headers =
     \<lparr>spo_instance_id = Option.bind headers ch_instance_id,
      spo_global_user_id = Option.bind headers ch_global_user_id,
      spo_host_name = Option.bind headers ch_host_name,
      spo_duo_pro_namespace_ids =
        map_option (\<lambda>s. List.map_filter js_parseInt (split_on (CHR '','') s))
          (Option.bind headers ch_duo_pro_namespace_ids)\<rparr>"

subsection \<open>The direct connection\<close>

definition SECOND :: nat where "SECOND = 1000"
definition MINUTE :: nat where "MINUTE = 60 * SECOND"
definition HOUR :: nat where "HOUR = 60 * MINUTE"

definition SMALL_GRACE_DURATION :: nat where
  "SMALL_GRACE_DURATION = 40 * SECOND"

definition areExpired :: "nat \<Rightarrow> connection_details \<Rightarrow> bool" where
  "areExpired now dcd \<longleftrightarrow>
     int now > int (cd_expires_at dcd * SECOND) - int SMALL_GRACE_DURATION"

text \<open>\<open>dcc_fetching\<close> counts the fetches of the details that have not returned yet, \<open>dcc_merged\<close> lists
  what was merged into the configuration.\<close>

record direct_client =
  dcc_connectionDetails :: "connection_details option"
  dcc_isValidApi :: bool
  dcc_detailsBreaker :: "string backoff_breaker"
  dcc_directBreaker :: "string backoff_breaker"
  dcc_fetching :: nat
  dcc_merged :: "snowplow_options list"

definition dcc_new :: direct_client where
  "dcc_new =
     \<lparr>dcc_connectionDetails = None, dcc_isValidApi = True,
      dcc_detailsBreaker = eb_onOpen ''too many failures requesting details'' (eb_new (Some SECOND) (Some HOUR) (Some 3)),
      dcc_directBreaker = eb_onOpen ''direct requests failed too often'' (eb_new (Some SECOND) (Some (10 * MINUTE)) (Some 5)),
      dcc_fetching = 0, dcc_merged = []\<rparr>"

definition dcc_onApiReconfigured :: "bool \<Rightarrow> direct_client \<Rightarrow> direct_client" where
  "dcc_onApiReconfigured isInValidState c =
     c\<lparr>dcc_connectionDetails := None, dcc_isValidApi := isInValidState,
       dcc_directBreaker := eb_success (dcc_directBreaker c)\<rparr>"

text \<open>\<open>#fetchDirectConnectionDetails\<close> up to the request, and from its answer on.\<close>

definition dcc_fetchDetails :: "direct_client \<Rightarrow> direct_client" where
  "dcc_fetchDetails c =
     (if eb_isOpen (dcc_detailsBreaker c) then c else c\<lparr>dcc_fetching := dcc_fetching c + 1\<rparr>)"

definition dcc_detailsReturned :: "client_error + connection_details \<Rightarrow> direct_client \<Rightarrow> direct_client" where
  "dcc_detailsReturned result c =
     (let c1 = (case result of
            Inr d \<Rightarrow> c
          | Inl e \<Rightarrow>
              (if e = Fetch_error 401
               then c\<lparr>dcc_detailsBreaker := eb_megaError (dcc_detailsBreaker c)\<rparr>
               else c\<lparr>dcc_detailsBreaker := eb_error (dcc_detailsBreaker c)\<rparr>));
          details = (case result of Inr d \<Rightarrow> Some d | Inl e \<Rightarrow> None)
      in c1\<lparr>dcc_connectionDetails := details,
            dcc_merged := dcc_merged c1 @ [transformHeaders (map_option cd_headers details)],
            dcc_fetching := dcc_fetching c1 - 1\<rparr>)"

text \<open>The network, and what was asked of it.\<close>

record api_env =
  ae_now :: nat
  ae_direct :: "string \<Rightarrow> string \<Rightarrow> suggestion_request \<Rightarrow> client_error + suggestion_response option"
  ae_instance :: "suggestion_request \<Rightarrow> client_error + suggestion_response option"

record client_state =
  cst_direct :: direct_client
  cst_sentDirect :: "(string \<times> string \<times> suggestion_request) list"
  cst_sentInstance :: "suggestion_request list"

definition set_isDirect :: "bool \<Rightarrow> suggestion_response \<Rightarrow> suggestion_response" where
  "set_isDirect b r = r\<lparr>sr_isDirectConnection := Some b\<rparr>"

text \<open>\<open>#fetchUsingDirectConnection\<close>: the endpoint, the token and the request.\<close>

definition dcc_endpoint :: "connection_details \<Rightarrow> string" where
  "dcc_endpoint d = cd_base_url d @ ''/v2/completions''"

definition dcc_fetchUsingDirectConnection ::
  "api_env \<Rightarrow> suggestion_request \<Rightarrow> (client_state, suggestion_response option) async" where
  "dcc_fetchUsingDirectConnection env request s =
     (case dcc_connectionDetails (cst_direct s) of
        None \<Rightarrow> (Inl (Js_error ''Assertion error: connection details are undefined''), s)
      | Some d \<Rightarrow>
          (ae_direct env (dcc_endpoint d) (cd_token d) request,
           s\<lparr>cst_sentDirect := cst_sentDirect s @ [(dcc_endpoint d, cd_token d, request)]\<rparr>))"

definition dcc_getSuggestions :: "api_env \<Rightarrow> client_state client" where
  "dcc_getSuggestions env ctx s =
     (let c = cst_direct s in
      if sctx_intent ctx = Some Generation then (Inr None, s)
      else if \<not> dcc_isValidApi c then (Inr None, s)
      else if eb_isOpen (dcc_directBreaker c) then (Inr None, s)
      else case dcc_connectionDetails c of
          None \<Rightarrow> (Inr None, s\<lparr>cst_direct := dcc_fetchDetails c\<rparr>)
        | Some d \<Rightarrow>
            if areExpired (ae_now env) d then (Inr None, s\<lparr>cst_direct := dcc_fetchDetails c\<rparr>)
            else
              (case dcc_fetchUsingDirectConnection env (createV2Request ctx (cd_model_details d)) s of
                 (Inr r, s1) \<Rightarrow> (Inr (map_option (set_isDirect True) r), s1)
               | (Inl e, s1) \<Rightarrow>
                   (Inr None,
                    s1\<lparr>cst_direct := (cst_direct s1)\<lparr>dcc_directBreaker :=
                         eb_error (dcc_directBreaker (cst_direct s1))\<rparr>\<rparr>)))"

subsection \<open>The instance, the fallback and the pipeline\<close>

definition dsc_getSuggestions :: "api_env \<Rightarrow> client_state client" where
  "dsc_getSuggestions env ctx s =
     (let request = createV2Request ctx None in
      (map_sum id (map_option (set_isDirect False)) (ae_instance env request),
       s\<lparr>cst_sentInstance := cst_sentInstance s @ [request]\<rparr>))"

fun fbc_getSuggestions :: "'s client list \<Rightarrow> 's client" where
  "fbc_getSuggestions [] ctx s = (Inr None, s)"
| "fbc_getSuggestions (c # cs) ctx s =
     (case c ctx s of
        (Inl e, s1) \<Rightarrow> (Inl e, s1)
      | (Inr (Some r), s1) \<Rightarrow> (Inr (Some r), s1)
      | (Inr None, s1) \<Rightarrow> fbc_getSuggestions cs ctx s1)"

definition clientToMiddleware :: "'s client \<Rightarrow> 's middleware" where
  "clientToMiddleware c ctx next = c ctx"

definition end_of_pipeline :: "'s client" where
  "end_of_pipeline ctx s =
     (Inl (Js_error ''[SuggestionClientPipeline] Reached end of the pipeline without resolution!''), s)"

definition buildPipeline :: "'s middleware list \<Rightarrow> 's client" where
  "buildPipeline middlewares = foldl (\<lambda>acc middleware x. middleware x acc) end_of_pipeline middlewares"

definition pipeline_use :: "'s middleware \<Rightarrow> 's middleware list \<Rightarrow> 's middleware list" where
  "pipeline_use m ms = ms @ [m]"

text \<open>The middleware of \<open>tree_sitter_middleware.ts\<close>; the parser and the intent resolver are
  components of their own, hence parameters here.\<close>

definition treeSitterMiddleware ::
  "(doc_context \<Rightarrow> ('s, 't option) async) \<Rightarrow> ('t \<Rightarrow> doc_context \<Rightarrow> client_error + intent option) \<Rightarrow>
   's middleware" where
  "treeSitterMiddleware parseFile getIntentFn ctx next s =
     (if sctx_intent ctx \<noteq> None then next ctx s
      else case parseFile (sctx_document ctx) s of
          (Inl e, s1) \<Rightarrow> next ctx s1
        | (Inr None, s1) \<Rightarrow> next ctx s1
        | (Inr (Some tree), s1) \<Rightarrow>
            (case getIntentFn tree (sctx_document ctx) of
               Inl e \<Rightarrow> (Inl e, s1)
             | Inr i \<Rightarrow> next (ctx\<lparr>sctx_intent := i\<rparr>) s1))"

text \<open>How the suggestion service wires them.\<close>

definition suggestion_pipeline ::
  "api_env \<Rightarrow> (doc_context \<Rightarrow> (client_state, 't option) async) \<Rightarrow>
   ('t \<Rightarrow> doc_context \<Rightarrow> client_error + intent option) \<Rightarrow> client_state client" where
  "suggestion_pipeline env parseFile getIntentFn =
     buildPipeline
       [clientToMiddleware (fbc_getSuggestions [dcc_getSuggestions env, dsc_getSuggestions env]),
        treeSitterMiddleware parseFile getIntentFn]"

subsection \<open>The interface SuggestionClient\<close>

text \<open>A client keeps its invariant; so does any fallback over such clients, and the first client that
  answers or rejects decides.\<close>

locale suggestion_clients =
  fixes clients :: "'s client list" and inv :: "'s \<Rightarrow> bool"
  assumes keeps: "c \<in> set clients \<Longrightarrow> inv s \<Longrightarrow> inv (snd (c ctx s))"
begin

lemma fallback_keeps_sub:
  "set cs \<subseteq> set clients \<Longrightarrow> inv s \<Longrightarrow> inv (snd (fbc_getSuggestions cs ctx s))"
proof (induction cs arbitrary: s)
  case Nil
  then show ?case by simp
next
  case (Cons c cs)
  then have "inv (snd (c ctx s))" using keeps by simp
  with Cons show ?case by (auto split: prod.splits sum.splits option.splits)
qed

lemma fallback_keeps: "inv s \<Longrightarrow> inv (snd (fbc_getSuggestions clients ctx s))"
  by (rule fallback_keeps_sub) simp

end

lemma fbc_first:
  "\<forall>c \<in> set cs. \<exists>s'. c ctx s = (Inr None, s') \<and> s' = s \<Longrightarrow>
   fbc_getSuggestions (cs @ ds) ctx s = fbc_getSuggestions ds ctx s"
  by (induction cs) auto

definition dcc_inv :: "direct_client \<Rightarrow> bool" where
  "dcc_inv c \<longleftrightarrow> eb_inv (dcc_detailsBreaker c) \<and> eb_inv (dcc_directBreaker c)"

lemma dcc_inv_new [inv_intros]: "dcc_inv dcc_new"
  by (auto simp: dcc_inv_def dcc_new_def intro: inv_intros)

lemma dcc_inv_ops [inv_intros]:
  "dcc_inv c \<Longrightarrow> dcc_inv (dcc_onApiReconfigured b c)"
  "dcc_inv c \<Longrightarrow> dcc_inv (dcc_fetchDetails c)"
  "dcc_inv c \<Longrightarrow> dcc_inv (dcc_detailsReturned r c)"
  by (auto simp: dcc_inv_def dcc_onApiReconfigured_def dcc_fetchDetails_def dcc_detailsReturned_def Let_def
      intro: inv_intros split: sum.splits)

lemma dcc_getSuggestions_inv:
  "dcc_inv (cst_direct s) \<Longrightarrow> dcc_inv (cst_direct (snd (dcc_getSuggestions env ctx s)))"
  by (auto simp: dcc_getSuggestions_def dcc_fetchUsingDirectConnection_def Let_def dcc_inv_def
      dcc_fetchDetails_def intro: inv_intros split: option.splits sum.splits)

lemma dsc_frame [frame_simps]: "cst_direct (snd (dsc_getSuggestions env ctx s)) = cst_direct s"
  by (simp add: dsc_getSuggestions_def Let_def)

interpretation clients: suggestion_clients "[dcc_getSuggestions env, dsc_getSuggestions env]"
  "\<lambda>s. dcc_inv (cst_direct s)" for env
  by unfold_locales (auto simp: dcc_getSuggestions_inv frame_simps)

subsection \<open>Lemmas\<close>

lemma fbc_single: "fbc_getSuggestions [c] ctx s = c ctx s"
  by (cases "c ctx s") (auto split: sum.splits option.splits)

lemma fbc_two:
  "fbc_getSuggestions [c, d] ctx s =
     (case c ctx s of (Inr None, s1) \<Rightarrow> d ctx s1 | r \<Rightarrow> r)"
  by (cases "c ctx s") (auto simp: fbc_single simp del: fbc_getSuggestions.simps(2)
      simp: fbc_getSuggestions.simps(2) [of c "[d]"] split: sum.splits option.splits)

lemma pipeline_snoc: "buildPipeline (pipeline_use m ms) ctx = m ctx (buildPipeline ms)"
  by (simp add: buildPipeline_def pipeline_use_def)

lemma pipeline_eq:
  "suggestion_pipeline env parseFile getIntentFn ctx =
     treeSitterMiddleware parseFile getIntentFn ctx
       (fbc_getSuggestions [dcc_getSuggestions env, dsc_getSuggestions env])"
  by (simp add: suggestion_pipeline_def buildPipeline_def clientToMiddleware_def
      del: fbc_getSuggestions.simps)

text \<open>When the direct connection sends anything.\<close>

lemma dcc_sends_iff:
  "cst_sentDirect (snd (dcc_getSuggestions env ctx s)) \<noteq> cst_sentDirect s \<longleftrightarrow>
     sctx_intent ctx \<noteq> Some Generation \<and> dcc_isValidApi (cst_direct s) \<and>
     \<not> eb_isOpen (dcc_directBreaker (cst_direct s)) \<and>
     (\<exists>d. dcc_connectionDetails (cst_direct s) = Some d \<and> \<not> areExpired (ae_now env) d)"
  by (auto simp: dcc_getSuggestions_def dcc_fetchUsingDirectConnection_def Let_def
      split: option.splits sum.splits)

lemma dcc_never_rejects: "\<exists>r. fst (dcc_getSuggestions env ctx s) = Inr r"
  by (auto simp: dcc_getSuggestions_def dcc_fetchUsingDirectConnection_def Let_def
      split: option.splits sum.splits)

lemma dcc_sentInstance [frame_simps]:
  "cst_sentInstance (snd (dcc_getSuggestions env ctx s)) = cst_sentInstance s"
  by (auto simp: dcc_getSuggestions_def dcc_fetchUsingDirectConnection_def Let_def
      split: option.splits sum.splits)

lemma eb_errorCount_open [simp]: "eb_errorCount (eb_open b) = eb_errorCount b"
  by (simp add: eb_open_def eb_emit_def Let_def split: prod.splits)

lemma eb_errorCount_error [simp]:
  "eb_errorCount (eb_error b) = eb_errorCount b + 1" "eb_errorCount (eb_megaError b) = eb_errorCount b + 3"
  by (simp_all add: eb_error_def eb_megaError_def)

subsection \<open>Properties\<close>

text \<open>Every suggestion request reaches the network once the pipeline runs: the direct connection
  never makes the request fail, and unless it answers, the instance is asked exactly once, with the
  request of the context the tree-sitter middleware passed on.\<close>

theorem direct_failure_falls_back:
  "fbc_getSuggestions [dcc_getSuggestions env, dsc_getSuggestions env] ctx s =
     (case dcc_getSuggestions env ctx s of
        (Inr (Some r), s1) \<Rightarrow> (Inr (Some r), s1)
      | (_, s1) \<Rightarrow>
          (map_sum id (map_option (set_isDirect False)) (ae_instance env (createV2Request ctx None)),
           s1\<lparr>cst_sentInstance := cst_sentInstance s @ [createV2Request ctx None]\<rparr>))"
  using dcc_never_rejects [of env ctx s] dcc_sentInstance [of env ctx s]
  by (cases "dcc_getSuggestions env ctx s")
    (auto simp: fbc_two dsc_getSuggestions_def Let_def simp del: fbc_getSuggestions.simps split: option.splits sum.splits)

text \<open>Code generation never uses the direct connection, whatever its state: a pipeline whose context
  asks for generation sends nothing directly and asks the instance.\<close>

theorem generation_goes_to_instance:
  assumes "sctx_intent ctx = Some Generation"
  shows "cst_sentDirect (snd (suggestion_pipeline env parseFile getIntentFn ctx s)) = cst_sentDirect s \<and>
    cst_sentInstance (snd (suggestion_pipeline env parseFile getIntentFn ctx s)) =
      cst_sentInstance s @ [createV2Request ctx None]"
  using assms
  by (simp add: pipeline_eq treeSitterMiddleware_def fbc_two dcc_getSuggestions_def dsc_getSuggestions_def
      Let_def del: fbc_getSuggestions.simps)

definition demo_sctx :: "intent option \<Rightarrow> suggestion_context" where
  "demo_sctx i =
     \<lparr>sctx_document = cr_context demo_request, sctx_intent = i, sctx_projectPath = None,
      sctx_optionsCount = Some 1, sctx_additionalContexts = Some []\<rparr>"

definition demo_env :: api_env where
  "demo_env = \<lparr>ae_now = 0, ae_direct = \<lambda>url tok rq. Inl (Fetch_error 500), ae_instance = \<lambda>rq. Inr None\<rparr>"

definition demo_client :: client_state where
  "demo_client = \<lparr>cst_direct = dcc_new, cst_sentDirect = [], cst_sentInstance = []\<rparr>"

theorem generation_goes_to_instance_witness:
  "cst_sentInstance (snd (suggestion_pipeline demo_env (\<lambda>d s. (Inr (Some ()), s)) (\<lambda>t d. Inr None)
     (demo_sctx (Some Generation)) demo_client)) = [createV2Request (demo_sctx (Some Generation)) None]"
  using generation_goes_to_instance [of "demo_sctx (Some Generation)" demo_env
      "\<lambda>d s. (Inr (Some ()), s)" "\<lambda>t d. Inr None" demo_client]
  by (simp add: demo_sctx_def demo_client_def)

text \<open>The runs of the direct client: configuration changes, requests, and the details arriving.\<close>

inductive dcc_step :: "client_state \<Rightarrow> client_state \<Rightarrow> bool" where
  dcc_step_reconfigured:
    "dcc_step s (s\<lparr>cst_direct := dcc_onApiReconfigured b (cst_direct s)\<rparr>)"
| dcc_step_get: "dcc_step s (snd (dcc_getSuggestions env ctx s))"
| dcc_step_details:
    "0 < dcc_fetching (cst_direct s) \<Longrightarrow>
     dcc_step s (s\<lparr>cst_direct := dcc_detailsReturned r (cst_direct s)\<rparr>)"
| dcc_step_fire_details:
    "dcc_step s (s\<lparr>cst_direct := (cst_direct s)\<lparr>dcc_detailsBreaker := eb_fire i (dcc_detailsBreaker (cst_direct s))\<rparr>\<rparr>)"
| dcc_step_fire_direct:
    "dcc_step s (s\<lparr>cst_direct := (cst_direct s)\<lparr>dcc_directBreaker := eb_fire i (dcc_directBreaker (cst_direct s))\<rparr>\<rparr>)"

inductive dcc_steps :: "client_state \<Rightarrow> client_state \<Rightarrow> bool" for s0 where
  dcc_steps_refl: "dcc_steps s0 s0"
| dcc_steps_step: "dcc_steps s0 s \<Longrightarrow> dcc_step s s' \<Longrightarrow> dcc_steps s0 s'"

lemma eb_errorCount_fire [simp]: "eb_errorCount (eb_fire i b) = eb_errorCount b"
  by (auto simp: eb_fire_def eb_close_def eb_emit_def Let_def split: option.splits)

lemma dcc_step_details_count:
  "dcc_step s s' \<Longrightarrow>
   eb_errorCount (dcc_detailsBreaker (cst_direct s)) \<le> eb_errorCount (dcc_detailsBreaker (cst_direct s'))"
  by (induction rule: dcc_step.induct)
    (auto simp: dcc_onApiReconfigured_def dcc_getSuggestions_def dcc_fetchDetails_def
      dcc_fetchUsingDirectConnection_def dcc_detailsReturned_def Let_def split: option.splits sum.splits)

text \<open>The breaker of the connection details is never reset: no operation of the client calls its
  \<open>success\<close>, so its error count, which sets the backoff, only grows, over configuration changes and
  successful fetches too, and every further failed fetch adds to all the earlier ones.\<close>

theorem details_breaker_never_recovers:
  assumes "dcc_steps s s'"
  shows "eb_errorCount (dcc_detailsBreaker (cst_direct s)) \<le>
         eb_errorCount (dcc_detailsBreaker (cst_direct s')) \<and>
         eb_errorCount (dcc_detailsBreaker (dcc_detailsReturned (Inl e) (cst_direct s'))) >
         eb_errorCount (dcc_detailsBreaker (cst_direct s))"
proof -
  from assms have "eb_errorCount (dcc_detailsBreaker (cst_direct s)) \<le>
      eb_errorCount (dcc_detailsBreaker (cst_direct s'))"
    by (induction rule: dcc_steps.induct) (auto dest: dcc_step_details_count)
  then show ?thesis by (auto simp: dcc_detailsReturned_def Let_def)
qed

theorem details_breaker_never_recovers_witness:
  "1 < eb_errorCount (dcc_detailsBreaker (dcc_detailsReturned (Inl (Fetch_error 401))
     (dcc_onApiReconfigured True (dcc_detailsReturned (Inl (Fetch_error 500)) dcc_new))))"
proof -
  let ?s = "demo_client\<lparr>cst_direct := dcc_detailsReturned (Inl (Fetch_error 500)) dcc_new\<rparr>"
  have "dcc_steps ?s (?s\<lparr>cst_direct := dcc_onApiReconfigured True (cst_direct ?s)\<rparr>)"
    by (rule dcc_steps_step [OF dcc_steps_refl dcc_step_reconfigured])
  from details_breaker_never_recovers [OF this, of "Fetch_error 401"] show ?thesis
    by (simp add: dcc_detailsReturned_def [of "Inl (Fetch_error 500)"] dcc_new_def eb_new_def eb_onOpen_def Let_def)
qed

end
