(* ===== verification/Streaming_Handler.thy ===== *)
theory Streaming_Handler
  imports Suggestion_Client Telemetry_Tracker "HOL-Library.Monad_Syntax"
begin

text \<open>
  Code generation as a stream (\<open>src/common/suggestion/streaming_handler.ts\<close>).

  A call of \<open>startStream\<close> is the record \<open>stream\<close>: the variables its closures share, the queue of
  pending notifications (\<open>PQueue\<close> with concurrency 1: how many jobs wait, and the one that has begun), and where
  the body is suspended.  A job that is added to an idle queue begins at once, a waiting one when the job before it is
  over; it reads the text received when it begins.  Each \<open>await\<close> ends an action; between two actions the client may cancel, which
  is how the interleavings of the code arise.  What the stream does to the tracker, the circuit breaker
  and the client is logged in order in \<open>sh_out\<close>.

  Parameters: the parser of server-sent events and \<open>JSON.parse\<close> give the events of a chunk
  (\<open>se_data = None\<close> is text that is not JSON); \<open>sv_post\<close> is the post-processor pipeline; \<open>sv_open\<close> what
  the circuit breaker answers at that step; \<open>sv_ready\<close> says whether \<open>init\<close> was called.
\<close>

subsection \<open>The schema of server-sent events\<close>

datatype json =
  JNull | JBool bool | JNum int | JStr string | JArr "json list" | JObj "(string \<times> json) list"

fun z_string :: "json \<Rightarrow> string option" where
  "z_string (JStr s) = Some s" | "z_string _ = None"

fun z_number :: "json \<Rightarrow> int option" where
  "z_number (JNum n) = Some n" | "z_number _ = None"

fun z_object :: "json \<Rightarrow> (string \<times> json) list option" where
  "z_object (JObj kvs) = Some kvs" | "z_object _ = None"

fun z_array :: "(json \<Rightarrow> 'a option) \<Rightarrow> json \<Rightarrow> 'a list option" where
  "z_array p (JArr js) = those (map p js)" | "z_array p _ = None"

definition z_required :: "(json \<Rightarrow> 'a option) \<Rightarrow> json option \<Rightarrow> 'a option" where
  "z_required p x = Option.bind x p"

definition z_optional :: "(json \<Rightarrow> 'a option) \<Rightarrow> json option \<Rightarrow> 'a option option" where
  "z_optional p x = (case x of None \<Rightarrow> Some None | Some j \<Rightarrow> map_option Some (p j))"

definition z_nullable :: "(json \<Rightarrow> 'a option) \<Rightarrow> json \<Rightarrow> 'a option option" where
  "z_nullable p j = (if j = JNull then Some None else map_option Some (p j))"

datatype sse_type = Stream_start | Content_chunk | Stream_end

record sse_model =
  sem_engine :: string
  sem_name :: string

record sse_data =
  sed_model :: "sse_model option"
  sed_choices :: "string list option"

text \<open>\<open>ChoiceSchema\<close>; of a choice only the content is used.\<close>

definition ChoiceSchema :: "json \<Rightarrow> string option" where
  "ChoiceSchema j = do {
     kvs \<leftarrow> z_object j;
     delta \<leftarrow> z_required z_object (map_of kvs ''delta'');
     content \<leftarrow> z_required z_string (map_of delta ''content'');
     index \<leftarrow> z_required z_number (map_of kvs ''index'');
     Some content }"

definition ModelSchema :: "json \<Rightarrow> sse_model option" where
  "ModelSchema j = do {
     kvs \<leftarrow> z_object j;
     engine \<leftarrow> z_required z_string (map_of kvs ''engine'');
     name \<leftarrow> z_required z_string (map_of kvs ''name'');
     Some \<lparr>sem_engine = engine, sem_name = name\<rparr> }"

definition MetadataSchema :: "json \<Rightarrow> sse_model option option" where
  "MetadataSchema j = do {
     kvs \<leftarrow> z_object j;
     model \<leftarrow> z_optional ModelSchema (map_of kvs ''model'');
     timestamp \<leftarrow> z_optional z_number (map_of kvs ''timestamp'');
     Some model }"

definition SSEEventDataSchema :: "json \<Rightarrow> sse_data option" where
  "SSEEventDataSchema j = do {
     kvs \<leftarrow> z_object j;
     metadata \<leftarrow> z_optional MetadataSchema (map_of kvs ''metadata'');
     choices \<leftarrow> z_optional (z_array ChoiceSchema) (map_of kvs ''choices'');
     Some \<lparr>sed_model = Option.bind metadata id, sed_choices = choices\<rparr> }"

definition sse_type_of :: "string option \<Rightarrow> sse_type option" where
  "sse_type_of e =
     (if e = Some ''stream_start'' then Some Stream_start
      else if e = Some ''content_chunk'' then Some Content_chunk
      else if e = Some ''stream_end'' then Some Stream_end
      else None)"

definition SSEEventSchema :: "string option \<Rightarrow> json \<Rightarrow> (sse_type \<times> sse_data option) option" where
  "SSEEventSchema event j = do {
     t \<leftarrow> sse_type_of event;
     d \<leftarrow> z_nullable SSEEventDataSchema j;
     Some (t, d) }"

record sse_event =
  se_event :: "string option"
  se_data :: "json option"

subsection \<open>The state of one stream\<close>

datatype stream_out =
    Out_context context_update
  | Out_event tracking_event
  | Out_response "string option" bool
  | Out_breaker_error
  | Out_breaker_success
  | Out_request suggestion_request

text \<open>Where the body of \<open>startStream\<close> waits: for the next item; for the post-processing of the legacy
  buffer, and for the client to take it; for the queue to be idle; for the client to take the last
  response.  \<open>Rejected\<close>: the promise of \<open>startStream\<close> was rejected.\<close>

datatype phase =
  Reading | Legacy_processing string | Legacy_sent | Draining | Ending | Finished | Rejected

text \<open>A job is post-processing a text, or has returned and the queue does not know yet: nothing was to be done, the
  post-processing failed, or the client takes what was sent.\<close>

datatype job = Job_processing string | Job_returned

record stream =
  sh_streamId :: string
  sh_trackingId :: string
  sh_context :: doc_context
  sh_streamShown :: bool
  sh_suggestionProvided :: bool
  sh_cancelledOrErrored :: bool
  sh_tokenCancelled :: bool
  sh_started :: bool
  sh_parserCancelledOrErrored :: bool
  sh_legacyBuffer :: string
  sh_sseBuffer :: string
  sh_queue :: nat
  sh_job :: "job option"
  sh_phase :: phase
  sh_out :: "stream_out list"

record stream_env =
  sv_ready :: bool
  sv_open :: bool
  sv_post :: "doc_context \<Rightarrow> string \<Rightarrow> client_error + string"

definition sh_emit :: "stream_out \<Rightarrow> stream \<Rightarrow> stream" where
  "sh_emit out s = s\<lparr>sh_out := sh_out s @ [out]\<rparr>"

text \<open>\<open>#sendStreamingResponse\<close>: \<open>None\<close> is the error thrown before \<open>init\<close>.\<close>

definition sendStreamingResponse :: "stream_env \<Rightarrow> string option \<Rightarrow> bool \<Rightarrow> stream \<Rightarrow> stream option" where
  "sendStreamingResponse env completion fin s =
     (if sv_ready env then Some (sh_emit (Out_response completion fin) s) else None)"

text \<open>\<open>trackStreamStarted\<close> and \<open>trackStreamShown\<close>, each run \<open>once\<close>; the latter also sets \<open>streamShown\<close>.\<close>

definition trackStreamStarted :: "stream \<Rightarrow> stream" where
  "trackStreamStarted s =
     (if sh_started s then s else sh_emit (Out_event STREAM_STARTED) (s\<lparr>sh_started := True\<rparr>))"

definition trackStreamShown :: "stream \<Rightarrow> stream" where
  "trackStreamShown s =
     (if sh_streamShown s then s else sh_emit (Out_event SHOWN) (s\<lparr>sh_streamShown := True\<rparr>))"

definition sh_cancel :: "stream \<Rightarrow> stream" where
  "sh_cancel s =
     sh_emit (Out_event (if sh_streamShown s then REJECTED else CANCELLED))
       (s\<lparr>sh_cancelledOrErrored := True, sh_tokenCancelled := True\<rparr>)"

definition status_update :: "nat \<Rightarrow> context_update" where
  "status_update n = no_update\<lparr>cu_status := Some n\<rparr>"

definition sh_handleError :: "client_error \<Rightarrow> stream \<Rightarrow> stream" where
  "sh_handleError err s =
     (let s1 = sh_emit Out_breaker_error s;
          s2 = (case err of Fetch_error status \<Rightarrow> sh_emit (Out_context (status_update status)) s1 | Js_error m \<Rightarrow> s1);
          s3 = sh_emit (Out_event ERRORED) s2
      in s3\<lparr>sh_cancelledOrErrored := True\<rparr>)"

text \<open>\<open>endStream\<close>: the last response, and, once it was taken, the events.\<close>

definition sh_endSend :: "stream_env \<Rightarrow> stream \<Rightarrow> stream option" where
  "sh_endSend env s = sendStreamingResponse env None True s"

definition sh_endTrack :: "stream \<Rightarrow> stream" where
  "sh_endTrack s =
     (if sh_cancelledOrErrored s then s
      else let s1 = sh_emit (Out_event STREAM_COMPLETED) s
           in if sh_suggestionProvided s1 then s1 else sh_emit (Out_event NOT_PROVIDED) s1)"

definition visible :: "string \<Rightarrow> bool" where
  "visible buffer \<longleftrightarrow> filter (\<lambda>c. \<not> is_ws c) buffer \<noteq> []"

subsection \<open>Server-sent events and notifications\<close>

definition model_update :: "sse_model option \<Rightarrow> context_update" where
  "model_update m =
     no_update\<lparr>cu_model := map_option (\<lambda>d. \<lparr>sm_lang = None, sm_engine = Some (sem_engine d),
       sm_name = Some (sem_name d), sm_tokens = None\<rparr>) m\<rparr>"

text \<open>\<open>onEvent\<close>: text that is not JSON ends in its \<open>catch\<close>; the cancellation flag is the one that was
  passed by value when the parser was created.\<close>

definition sh_onStart :: "sse_data option \<Rightarrow> stream \<Rightarrow> stream" where
  "sh_onStart d s = sh_emit (Out_context (model_update (Option.bind d sed_model))) s"

definition sh_onChunk :: "sse_data option \<Rightarrow> stream \<Rightarrow> stream" where
  "sh_onChunk d s =
     (case Option.bind d sed_choices of
        None \<Rightarrow> s
      | Some contents \<Rightarrow>
          let s1 = s\<lparr>sh_sseBuffer := sh_sseBuffer s @ concat contents\<rparr>
          in if visible (sh_sseBuffer s1) \<and> \<not> sh_parserCancelledOrErrored s1
             then (trackStreamShown s1)\<lparr>sh_suggestionProvided := True\<rparr> else s1)"

text \<open>\<open>#handleStreamNotification\<close> up to the post-processing: is there anything to process?\<close>

definition notification_dropped :: "stream_env \<Rightarrow> stream \<Rightarrow> bool" where
  "notification_dropped env s \<longleftrightarrow> sh_tokenCancelled s \<or> sv_open env"

definition sh_jobStart :: "stream_env \<Rightarrow> stream \<Rightarrow> stream" where
  "sh_jobStart env s =
     (if notification_dropped env s then s\<lparr>sh_job := Some Job_returned\<rparr>
      else (trackStreamStarted s)\<lparr>sh_job := Some (Job_processing (sh_sseBuffer s))\<rparr>)"

definition sh_enqueue :: "stream_env \<Rightarrow> stream \<Rightarrow> stream" where
  "sh_enqueue env s = (if sh_job s = None then sh_jobStart env s else s\<lparr>sh_queue := sh_queue s + 1\<rparr>)"

definition sh_onEvent :: "stream_env \<Rightarrow> sse_event \<Rightarrow> stream \<Rightarrow> stream" where
  "sh_onEvent env e s =
     (case se_data e of
        None \<Rightarrow>
          let s1 = sh_handleError (Js_error ''SyntaxError'') s
          in (case sh_endSend env s1 of None \<Rightarrow> s1 | Some s2 \<Rightarrow> sh_endTrack s2)
      | Some j \<Rightarrow>
          (case SSEEventSchema (se_event e) j of
             None \<Rightarrow> s
           | Some (Stream_start, d) \<Rightarrow> sh_enqueue env (sh_onStart d s)
           | Some (Content_chunk, d) \<Rightarrow> sh_enqueue env (sh_onChunk d s)
           | Some (Stream_end, d) \<Rightarrow> sh_enqueue env (s\<lparr>sh_suggestionProvided := True\<rparr>)))"

definition sh_legacyCheck :: "stream \<Rightarrow> stream" where
  "sh_legacyCheck s =
     (if visible (sh_legacyBuffer s) \<and> \<not> sh_cancelledOrErrored s
      then (trackStreamShown s)\<lparr>sh_suggestionProvided := True\<rparr> else s)"

subsection \<open>Actions\<close>

datatype stream_item = Sse_item "sse_event list" | Legacy_item string

datatype action =
    Act_item stream_item
  | Act_legacy_processed
  | Act_legacy_taken
  | Act_stream_end
  | Act_stream_error client_error
  | Act_job_start
  | Act_job_done
  | Act_idle
  | Act_end_taken

definition sh_item :: "stream_env \<Rightarrow> stream_item \<Rightarrow> stream \<Rightarrow> stream" where
  "sh_item env item s =
     (case item of
        Sse_item es \<Rightarrow> foldl (\<lambda>t e. sh_onEvent env e t) s es
      | Legacy_item chunk \<Rightarrow>
          let s1 = s\<lparr>sh_legacyBuffer := sh_legacyBuffer s @ chunk\<rparr>
          in if notification_dropped env s1 then sh_legacyCheck s1
             else (trackStreamStarted s1)\<lparr>sh_phase := Legacy_processing (sh_legacyBuffer s1)\<rparr>)"

text \<open>A failure of the awaited notification of a legacy chunk is caught by the body.\<close>

definition sh_legacyProcessed :: "stream_env \<Rightarrow> string \<Rightarrow> stream \<Rightarrow> stream" where
  "sh_legacyProcessed env buffer s =
     (case sv_post env (sh_context s) buffer of
        Inl e \<Rightarrow> (sh_handleError e s)\<lparr>sh_phase := Draining\<rparr>
      | Inr t \<Rightarrow>
          (case sendStreamingResponse env (Some t) False s of
             None \<Rightarrow> (sh_handleError (Js_error ''not initialized'') s)\<lparr>sh_phase := Draining\<rparr>
           | Some s1 \<Rightarrow> s1\<lparr>sh_phase := Legacy_sent\<rparr>))"

text \<open>A job is over: the next one begins, if any waits.\<close>

definition sh_nextJob :: "stream_env \<Rightarrow> stream \<Rightarrow> stream" where
  "sh_nextJob env s =
     (case sh_queue s of 0 \<Rightarrow> s\<lparr>sh_job := None\<rparr> | Suc n \<Rightarrow> sh_jobStart env (s\<lparr>sh_queue := n\<rparr>))"

definition sh_jobDone :: "stream_env \<Rightarrow> string \<Rightarrow> stream \<Rightarrow> stream" where
  "sh_jobDone env buffer s =
     (let s1 = s\<lparr>sh_job := Some Job_returned\<rparr>
      in case sv_post env (sh_context s1) buffer of
           Inl e \<Rightarrow> s1
         | Inr t \<Rightarrow> or_else (sendStreamingResponse env (Some t) False s1) s1)"

definition job_running :: "stream \<Rightarrow> bool" where
  "job_running s \<longleftrightarrow> (case sh_job s of Some (Job_processing b) \<Rightarrow> True | _ \<Rightarrow> False)"

definition sh_idle :: "stream_env \<Rightarrow> stream \<Rightarrow> stream" where
  "sh_idle env s =
     (case sh_endSend env s of None \<Rightarrow> s\<lparr>sh_phase := Rejected\<rparr> | Some s1 \<Rightarrow> s1\<lparr>sh_phase := Ending\<rparr>)"

text \<open>An action that is not possible in a state is \<open>None\<close>.  The queue is idle at the moment the last job is over.\<close>

fun sh_act :: "stream_env \<Rightarrow> action \<Rightarrow> stream \<Rightarrow> stream option" where
  "sh_act env (Act_item item) s = (if sh_phase s = Reading then Some (sh_item env item s) else None)"
| "sh_act env Act_legacy_processed s =
     (case sh_phase s of Legacy_processing b \<Rightarrow> Some (sh_legacyProcessed env b s) | _ \<Rightarrow> None)"
| "sh_act env Act_legacy_taken s =
     (if sh_phase s = Legacy_sent then Some (sh_legacyCheck (s\<lparr>sh_phase := Reading\<rparr>)) else None)"
| "sh_act env Act_stream_end s = (if sh_phase s = Reading then Some (s\<lparr>sh_phase := Draining\<rparr>) else None)"
| "sh_act env (Act_stream_error e) s =
     (if sh_phase s = Reading then Some ((sh_handleError e s)\<lparr>sh_phase := Draining\<rparr>) else None)"
| "sh_act env Act_job_start s =
     (if job_running s then None else Some (sh_nextJob env s))"
| "sh_act env Act_job_done s =
     (case sh_job s of Some (Job_processing b) \<Rightarrow> Some (sh_jobDone env b s) | _ \<Rightarrow> None)"
| "sh_act env Act_idle s =
     (if sh_phase s = Draining \<and> sh_queue s = 0 \<and> \<not> job_running s
      then Some (sh_idle env (s\<lparr>sh_job := None\<rparr>)) else None)"
| "sh_act env Act_end_taken s =
     (if sh_phase s = Ending then Some (sh_endTrack (s\<lparr>sh_phase := Finished\<rparr>)) else None)"

text \<open>The cancellation handler exists until the stream is disposed of.\<close>

inductive stream_step :: "stream_env \<Rightarrow> stream \<Rightarrow> stream \<Rightarrow> bool" for env where
  stream_act: "sh_act (env\<lparr>sv_open := b\<rparr>) a s = Some s' \<Longrightarrow> stream_step env s s'"
| stream_cancel: "sh_phase s \<noteq> Finished \<Longrightarrow> stream_step env s (sh_cancel s)"

inductive stream_steps :: "stream_env \<Rightarrow> stream \<Rightarrow> stream \<Rightarrow> bool" for env and s0 where
  stream_refl: "stream_steps env s0 s0"
| stream_next: "stream_steps env s0 s \<Longrightarrow> stream_step env s s' \<Longrightarrow> stream_steps env s0 s'"

subsection \<open>Starting a stream, and the handler\<close>

record start_params =
  sp_streamId :: string
  sp_uniqueTrackingId :: string
  sp_documentContext :: doc_context
  sp_userInstruction :: "string option"
  sp_generationType :: "generation_type option"
  sp_additionalContexts :: "additional_context list option"
  sp_contextProjectPath :: "string option"

definition non_empty_string :: "string option \<Rightarrow> string option" where
  "non_empty_string x = (if x = Some [] then None else x)"

definition stream_request :: "start_params \<Rightarrow> suggestion_request" where
  "stream_request p =
     \<lparr>rq_prompt_version = 1,
      rq_project_path = or_else (sp_contextProjectPath p) '''',
      rq_project_id = -1,
      rq_current_file = current_file_of (sp_documentContext p),
      rq_intent = Some Generation,
      rq_stream = Some True,
      rq_choices_count = None,
      rq_context = non_empty (sp_additionalContexts p),
      rq_user_instruction = non_empty_string (sp_userInstruction p),
      rq_generation_type = sp_generationType p,
      rq_model_details = None\<rparr>"

definition start_update :: "start_params \<Rightarrow> context_update" where
  "start_update p =
     no_update\<lparr>cu_documentContext := Some (sp_documentContext p),
       cu_additionalContexts := sp_additionalContexts p,
       cu_source := Some Source_network, cu_isStreaming := Some True\<rparr>"

text \<open>\<open>startStream\<close> up to its first \<open>await\<close>; \<open>has_stream\<close>: the API gave a stream to read.\<close>

definition sh_start :: "stream_env \<Rightarrow> bool \<Rightarrow> start_params \<Rightarrow> stream" where
  "sh_start env has_stream p =
     (let s = \<lparr>sh_streamId = sp_streamId p, sh_trackingId = sp_uniqueTrackingId p,
               sh_context = sp_documentContext p, sh_streamShown = False, sh_suggestionProvided = False,
               sh_cancelledOrErrored = False, sh_tokenCancelled = False, sh_started = False,
               sh_parserCancelledOrErrored = False, sh_legacyBuffer = [], sh_sseBuffer = [],
               sh_queue = 0, sh_job = None, sh_phase = Reading,
               sh_out = [Out_context (start_update p), Out_breaker_success, Out_request (stream_request p)]\<rparr>
      in if has_stream then s else sh_idle env s)"

text \<open>The handler: \<open>#streamCancellations\<close> maps a stream id to the stream its listener closes over.\<close>

record streaming_handler =
  hd_ready :: bool
  hd_streams :: "stream list"
  hd_cancellations :: "(string, nat) jsmap"

definition hd_new :: streaming_handler where
  "hd_new = \<lparr>hd_ready = False, hd_streams = [], hd_cancellations = []\<rparr>"

definition hd_init :: "streaming_handler \<Rightarrow> streaming_handler" where
  "hd_init h = h\<lparr>hd_ready := True\<rparr>"

definition hd_startStream :: "stream_env \<Rightarrow> bool \<Rightarrow> start_params \<Rightarrow> streaming_handler \<Rightarrow> streaming_handler" where
  "hd_startStream env has_stream p h =
     h\<lparr>hd_streams := hd_streams h @ [sh_start (env\<lparr>sv_ready := hd_ready h\<rparr>) has_stream p],
       hd_cancellations := map_set (sp_streamId p) (length (hd_streams h)) (hd_cancellations h)\<rparr>"

definition hd_notificationHandler :: "string \<Rightarrow> streaming_handler \<Rightarrow> streaming_handler" where
  "hd_notificationHandler streamId h =
     (case map_get (hd_cancellations h) streamId of
        None \<Rightarrow> h
      | Some i \<Rightarrow> h\<lparr>hd_streams := (hd_streams h)[i := sh_cancel (hd_streams h ! i)]\<rparr>)"

text \<open>An action of the \<open>i\<close>-th stream; the last one disposes of its cancellation handler.\<close>

definition hd_act :: "stream_env \<Rightarrow> nat \<Rightarrow> action \<Rightarrow> streaming_handler \<Rightarrow> streaming_handler" where
  "hd_act env i a h =
     (if i < length (hd_streams h) then
        (case sh_act (env\<lparr>sv_ready := hd_ready h\<rparr>) a (hd_streams h ! i) of
           None \<Rightarrow> h
         | Some s \<Rightarrow>
             h\<lparr>hd_streams := (hd_streams h)[i := s],
               hd_cancellations :=
                 (if sh_phase s = Finished \<and> sh_phase (hd_streams h ! i) \<noteq> Finished
                  then map_delete (sh_streamId s) (hd_cancellations h) else hd_cancellations h)\<rparr>)
      else h)"

subsection \<open>Events and completions of a stream\<close>

fun out_event :: "stream_out \<Rightarrow> tracking_event option" where
  "out_event (Out_event e) = Some e" | "out_event _ = None"

fun out_completion :: "stream_out \<Rightarrow> string option" where
  "out_completion (Out_response c fin) = c" | "out_completion _ = None"

definition sh_events :: "stream \<Rightarrow> tracking_event list" where
  "sh_events s = List.map_filter out_event (sh_out s)"

definition sh_completions :: "stream \<Rightarrow> string list" where
  "sh_completions s = List.map_filter out_completion (sh_out s)"

lemma sh_events_emit [simp]:
  "sh_events (sh_emit out s) = sh_events s @ (case out_event out of None \<Rightarrow> [] | Some e \<Rightarrow> [e])"
  by (simp add: sh_events_def sh_emit_def List.map_filter_def split: option.splits)

lemma sh_completions_emit [simp]:
  "sh_completions (sh_emit out s) = sh_completions s @ (case out_completion out of None \<Rightarrow> [] | Some e \<Rightarrow> [e])"
  by (simp add: sh_completions_def sh_emit_def List.map_filter_def split: option.splits)

lemma sh_emit_frame [simp]:
  "sh_context (sh_emit out s) = sh_context s" "sh_streamShown (sh_emit out s) = sh_streamShown s"
  "sh_suggestionProvided (sh_emit out s) = sh_suggestionProvided s"
  "sh_cancelledOrErrored (sh_emit out s) = sh_cancelledOrErrored s"
  "sh_tokenCancelled (sh_emit out s) = sh_tokenCancelled s" "sh_started (sh_emit out s) = sh_started s"
  "sh_legacyBuffer (sh_emit out s) = sh_legacyBuffer s" "sh_sseBuffer (sh_emit out s) = sh_sseBuffer s"
  "sh_queue (sh_emit out s) = sh_queue s" "sh_job (sh_emit out s) = sh_job s"
  "sh_phase (sh_emit out s) = sh_phase s" "sh_streamId (sh_emit out s) = sh_streamId s"
  "sh_parserCancelledOrErrored (sh_emit out s) = sh_parserCancelledOrErrored s"
  by (simp_all add: sh_emit_def)

text \<open>Writes to the other fields leave both lists alone.\<close>

lemma sh_lists_frame [simp]:
  "sh_events (s\<lparr>sh_streamShown := b\<rparr>) = sh_events s" "sh_events (s\<lparr>sh_suggestionProvided := b\<rparr>) = sh_events s"
  "sh_events (s\<lparr>sh_cancelledOrErrored := b\<rparr>) = sh_events s" "sh_events (s\<lparr>sh_tokenCancelled := b\<rparr>) = sh_events s"
  "sh_events (s\<lparr>sh_started := b\<rparr>) = sh_events s" "sh_events (s\<lparr>sh_legacyBuffer := x\<rparr>) = sh_events s"
  "sh_events (s\<lparr>sh_sseBuffer := x\<rparr>) = sh_events s" "sh_events (s\<lparr>sh_queue := q\<rparr>) = sh_events s"
  "sh_events (s\<lparr>sh_job := j\<rparr>) = sh_events s" "sh_events (s\<lparr>sh_phase := p\<rparr>) = sh_events s"
  "sh_completions (s\<lparr>sh_streamShown := b\<rparr>) = sh_completions s"
  "sh_completions (s\<lparr>sh_suggestionProvided := b\<rparr>) = sh_completions s"
  "sh_completions (s\<lparr>sh_cancelledOrErrored := b\<rparr>) = sh_completions s"
  "sh_completions (s\<lparr>sh_tokenCancelled := b\<rparr>) = sh_completions s"
  "sh_completions (s\<lparr>sh_started := b\<rparr>) = sh_completions s"
  "sh_completions (s\<lparr>sh_legacyBuffer := x\<rparr>) = sh_completions s"
  "sh_completions (s\<lparr>sh_sseBuffer := x\<rparr>) = sh_completions s"
  "sh_completions (s\<lparr>sh_queue := q\<rparr>) = sh_completions s" "sh_completions (s\<lparr>sh_job := j\<rparr>) = sh_completions s"
  "sh_completions (s\<lparr>sh_phase := p\<rparr>) = sh_completions s"
  by (simp_all add: sh_events_def sh_completions_def)

lemmas sh_ops = sendStreamingResponse_def trackStreamStarted_def trackStreamShown_def sh_cancel_def
  sh_handleError_def sh_endSend_def sh_endTrack_def sh_onStart_def sh_onChunk_def sh_enqueue_def
  notification_dropped_def sh_legacyCheck_def sh_legacyProcessed_def sh_jobStart_def sh_nextJob_def sh_jobDone_def
  sh_idle_def or_else_def

subsection \<open>Each event is tracked once\<close>

definition event_inv :: "stream \<Rightarrow> bool" where
  "event_inv s \<longleftrightarrow>
     count_list (sh_events s) SHOWN = of_bool (sh_streamShown s) \<and>
     count_list (sh_events s) STREAM_STARTED = of_bool (sh_started s) \<and>
     count_list (sh_events s) STREAM_COMPLETED \<le> of_bool (sh_phase s = Finished \<and> \<not> sh_cancelledOrErrored s) \<and>
     count_list (sh_events s) NOT_PROVIDED \<le> count_list (sh_events s) STREAM_COMPLETED \<and>
     (set (sh_events s) \<inter> {ERRORED, CANCELLED, REJECTED} \<noteq> {} \<longrightarrow> sh_cancelledOrErrored s) \<and>
     (sh_phase s = Finished \<longrightarrow> sh_queue s = 0 \<and> sh_job s = None) \<and>
     (sh_phase s = Ending \<longrightarrow> sh_queue s = 0 \<and> sh_job s = None)"

lemma count_snoc [simp]: "count_list (xs @ ys) x = count_list xs x + count_list ys x"
  by (induction xs) auto

lemma event_inv_start: "event_inv (sh_start env has_stream p)"
  by (auto simp: event_inv_def sh_start_def sh_events_def List.map_filter_simps sh_ops sh_emit_def Let_def
      split: option.splits)

lemma event_inv_shown [inv_intros]: "event_inv s \<Longrightarrow> event_inv (trackStreamShown s)"
  by (auto simp: event_inv_def trackStreamShown_def)

lemma event_inv_started [inv_intros]: "event_inv s \<Longrightarrow> event_inv (trackStreamStarted s)"
  by (auto simp: event_inv_def trackStreamStarted_def)

lemma event_inv_other [inv_intros]:
  "event_inv s \<Longrightarrow> out_event out = None \<Longrightarrow> event_inv (sh_emit out s)"
  "event_inv s \<Longrightarrow> event_inv (s\<lparr>sh_suggestionProvided := b\<rparr>)"
  "event_inv s \<Longrightarrow> event_inv (s\<lparr>sh_sseBuffer := x\<rparr>)"
  "event_inv s \<Longrightarrow> event_inv (s\<lparr>sh_legacyBuffer := x\<rparr>)"
  by (auto simp: event_inv_def)

lemma trackers_frame [simp]:
  "sh_phase (trackStreamShown s) = sh_phase s" "sh_phase (trackStreamStarted s) = sh_phase s"
  "sh_queue (trackStreamShown s) = sh_queue s" "sh_queue (trackStreamStarted s) = sh_queue s"
  "sh_job (trackStreamShown s) = sh_job s" "sh_job (trackStreamStarted s) = sh_job s"
  "sh_sseBuffer (trackStreamShown s) = sh_sseBuffer s" "sh_sseBuffer (trackStreamStarted s) = sh_sseBuffer s"
  "sh_context (trackStreamShown s) = sh_context s" "sh_context (trackStreamStarted s) = sh_context s"
  "sh_tokenCancelled (trackStreamShown s) = sh_tokenCancelled s"
  "sh_tokenCancelled (trackStreamStarted s) = sh_tokenCancelled s"
  "sh_completions (trackStreamShown s) = sh_completions s"
  "sh_completions (trackStreamStarted s) = sh_completions s"
  by (simp_all add: trackStreamShown_def trackStreamStarted_def)

lemma handleError_frame [simp]:
  "sh_phase (sh_handleError e s) = sh_phase s" "sh_queue (sh_handleError e s) = sh_queue s"
  "sh_job (sh_handleError e s) = sh_job s" "sh_sseBuffer (sh_handleError e s) = sh_sseBuffer s"
  "sh_context (sh_handleError e s) = sh_context s"
  "sh_tokenCancelled (sh_handleError e s) = sh_tokenCancelled s"
  "sh_completions (sh_handleError e s) = sh_completions s"
  "sh_cancelledOrErrored (sh_handleError e s) = True"
  by (simp_all add: sh_handleError_def Let_def split: client_error.splits)

lemma event_inv_error [inv_intros]:
  "event_inv s \<Longrightarrow> sh_phase s \<noteq> Finished \<Longrightarrow> event_inv (sh_handleError e s)"
  by (auto simp: event_inv_def sh_handleError_def Let_def split: client_error.splits)

lemma event_inv_cancel [inv_intros]: "event_inv s \<Longrightarrow> sh_phase s \<noteq> Finished \<Longrightarrow> event_inv (sh_cancel s)"
  by (auto simp: event_inv_def sh_cancel_def)

lemma event_inv_phase [inv_intros]:
  "event_inv s \<Longrightarrow> sh_phase s \<noteq> Finished \<Longrightarrow> p \<notin> {Ending, Finished} \<Longrightarrow> event_inv (s\<lparr>sh_phase := p\<rparr>)"
  by (auto simp: event_inv_def)

lemma event_inv_queue [inv_intros]:
  "event_inv s \<Longrightarrow> sh_phase s \<notin> {Ending, Finished} \<Longrightarrow> event_inv (s\<lparr>sh_queue := q\<rparr>)"
  "event_inv s \<Longrightarrow> sh_phase s \<notin> {Ending, Finished} \<Longrightarrow> event_inv (s\<lparr>sh_job := j\<rparr>)"
  by (auto simp: event_inv_def)

lemma jobStart_frame [simp]:
  "sh_phase (sh_jobStart env s) = sh_phase s" "sh_queue (sh_jobStart env s) = sh_queue s"
  "sh_sseBuffer (sh_jobStart env s) = sh_sseBuffer s" "sh_context (sh_jobStart env s) = sh_context s"
  "sh_tokenCancelled (sh_jobStart env s) = sh_tokenCancelled s"
  "sh_completions (sh_jobStart env s) = sh_completions s"
  by (simp_all add: sh_jobStart_def)

lemma enqueue_frame [simp]:
  "sh_phase (sh_enqueue env s) = sh_phase s" "sh_sseBuffer (sh_enqueue env s) = sh_sseBuffer s"
  "sh_context (sh_enqueue env s) = sh_context s" "sh_tokenCancelled (sh_enqueue env s) = sh_tokenCancelled s"
  "sh_completions (sh_enqueue env s) = sh_completions s"
  by (simp_all add: sh_enqueue_def)

lemma nextJob_frame [simp]:
  "sh_phase (sh_nextJob env s) = sh_phase s" "sh_context (sh_nextJob env s) = sh_context s"
  "sh_tokenCancelled (sh_nextJob env s) = sh_tokenCancelled s" "sh_completions (sh_nextJob env s) = sh_completions s"
  "sh_queue (sh_nextJob env s) = sh_queue s - 1"
  by (simp_all add: sh_nextJob_def split: nat.split)

lemma event_inv_jobStart [inv_intros]:
  "event_inv s \<Longrightarrow> sh_phase s \<notin> {Ending, Finished} \<Longrightarrow> event_inv (sh_jobStart env s)"
  by (auto simp: sh_jobStart_def intro!: event_inv_queue event_inv_started)

lemma event_inv_enqueue [inv_intros]:
  "event_inv s \<Longrightarrow> sh_phase s \<notin> {Ending, Finished} \<Longrightarrow> event_inv (sh_enqueue env s)"
  by (simp add: sh_enqueue_def event_inv_jobStart event_inv_queue)

lemma event_inv_jobs_over: "event_inv s \<Longrightarrow> event_inv (s\<lparr>sh_job := None\<rparr>)"
  by (simp add: event_inv_def)

lemma event_inv_nextJob:
  assumes "event_inv s"
  shows "event_inv (sh_nextJob env s)"
proof (cases "sh_queue s")
  case 0
  with assms show ?thesis by (simp only: sh_nextJob_def nat.case event_inv_jobs_over)
next
  case (Suc n)
  with assms have phase: "sh_phase s \<notin> {Ending, Finished}" by (auto simp: event_inv_def)
  have "event_inv (sh_jobStart env (s\<lparr>sh_queue := n\<rparr>))"
    by (rule event_inv_jobStart, rule event_inv_queue(1) [OF assms phase]) (use phase in simp)
  with Suc show ?thesis by (simp only: sh_nextJob_def nat.case)
qed

lemma onEvent_phase [simp]: "sh_phase (sh_onEvent env e s) = sh_phase s"
  by (auto simp: sh_onEvent_def sh_endSend_def sendStreamingResponse_def sh_endTrack_def
      sh_onStart_def sh_onChunk_def Let_def split: option.splits sse_type.splits prod.splits)

lemma event_inv_onEvent:
  assumes "event_inv s" and "sh_phase s = Reading"
  shows "event_inv (sh_onEvent env e s)"
  using assms
  by (auto simp: sh_onEvent_def sh_endSend_def sendStreamingResponse_def sh_endTrack_def
      sh_onStart_def sh_onChunk_def Let_def intro!: inv_intros
      split: option.splits sse_type.splits prod.splits)

lemma event_inv_events:
  "event_inv s \<Longrightarrow> sh_phase s = Reading \<Longrightarrow>
   event_inv (foldl (\<lambda>t e. sh_onEvent env e t) s es) \<and> sh_phase (foldl (\<lambda>t e. sh_onEvent env e t) s es) = Reading"
  by (induction es arbitrary: s) (simp_all add: event_inv_onEvent)

lemma event_inv_legacyCheck [inv_intros]: "event_inv s \<Longrightarrow> event_inv (sh_legacyCheck s)"
  by (auto simp: sh_legacyCheck_def intro: inv_intros)

lemma event_inv_item:
  "event_inv s \<Longrightarrow> sh_phase s = Reading \<Longrightarrow> event_inv (sh_item env item s)"
  by (cases item) (auto simp: sh_item_def event_inv_events Let_def intro!: inv_intros)

lemma event_inv_endTrack:
  "event_inv s \<Longrightarrow> sh_phase s = Ending \<Longrightarrow> event_inv (sh_endTrack (s\<lparr>sh_phase := Finished\<rparr>))"
  by (auto simp: event_inv_def sh_endTrack_def Let_def)

lemma event_inv_ending:
  "event_inv s \<Longrightarrow> sh_phase s = Draining \<Longrightarrow> sh_queue s = 0 \<Longrightarrow> sh_job s = None \<Longrightarrow>
   event_inv (s\<lparr>sh_phase := Ending\<rparr>)"
  by (simp add: event_inv_def)

lemma event_inv_idle:
  assumes "event_inv s" and "sh_phase s = Draining" and "sh_queue s = 0" and "sh_job s = None"
  shows "event_inv (sh_idle env s)"
  using assms
  by (cases "sv_ready env")
    (simp_all add: sh_idle_def sh_endSend_def sendStreamingResponse_def inv_intros event_inv_ending)

lemma event_inv_act: "sh_act env a s = Some s' \<Longrightarrow> event_inv s \<Longrightarrow> event_inv s'"
proof (induction env a s rule: sh_act.induct)
  case (2 env s)
  then show ?case
    by (auto simp: sh_legacyProcessed_def sendStreamingResponse_def intro!: inv_intros
        split: phase.splits sum.splits option.splits if_splits)
next
  case (6 env s)
  then show ?case by (auto intro: event_inv_nextJob split: if_splits)
next
  case (7 env s)
  then have "sh_phase s \<notin> {Ending, Finished}"
    by (auto simp: event_inv_def split: option.splits job.splits)
  with 7 show ?case
    by (auto simp: sh_jobDone_def or_else_def sendStreamingResponse_def Let_def intro!: inv_intros
        split: option.splits sum.splits if_splits job.splits)
next
  case (8 env s)
  then show ?case by (auto intro!: event_inv_idle event_inv_queue split: if_splits)
next
  case (9 env s)
  then show ?case by (auto intro: event_inv_endTrack split: if_splits)
qed (auto intro!: inv_intros event_inv_item split: if_splits)

lemma event_inv_step: "stream_step env s s' \<Longrightarrow> event_inv s \<Longrightarrow> event_inv s'"
  by (induction rule: stream_step.induct) (auto intro: event_inv_act event_inv_cancel)

lemma event_inv_steps: "stream_steps env s s' \<Longrightarrow> event_inv s \<Longrightarrow> event_inv s'"
  by (induction rule: stream_steps.induct) (auto intro: event_inv_step)

subsection \<open>After a cancellation\<close>

text \<open>Cancelled, and nothing is being post-processed: no completion leaves any more.\<close>

definition quiet :: "stream \<Rightarrow> bool" where
  "quiet s \<longleftrightarrow> sh_tokenCancelled s \<and> \<not> job_running s \<and> (\<forall>b. sh_phase s \<noteq> Legacy_processing b)"

lemma onEvent_frame [simp]:
  "sh_tokenCancelled (sh_onEvent env e s) = sh_tokenCancelled s"
  "sh_completions (sh_onEvent env e s) = sh_completions s"
  "sh_context (sh_onEvent env e s) = sh_context s"
  by (auto simp: sh_onEvent_def sh_endSend_def sendStreamingResponse_def sh_endTrack_def
      sh_onStart_def sh_onChunk_def Let_def split: option.splits sse_type.splits prod.splits)

lemma job_running_frame [simp]:
  "job_running (sh_emit out s) = job_running s" "job_running (trackStreamShown s) = job_running s"
  "job_running (sh_handleError e s) = job_running s" "job_running (sh_legacyCheck s) = job_running s"
  "job_running (sh_endTrack s) = job_running s" "job_running (trackStreamStarted s) = job_running s"
  "job_running (s\<lparr>sh_suggestionProvided := b\<rparr>) = job_running s" "job_running (s\<lparr>sh_sseBuffer := x\<rparr>) = job_running s"
  "job_running (s\<lparr>sh_phase := p\<rparr>) = job_running s" "job_running (s\<lparr>sh_legacyBuffer := x\<rparr>) = job_running s"
  "job_running (s\<lparr>sh_queue := q\<rparr>) = job_running s" "job_running (s\<lparr>sh_job := Some Job_returned\<rparr>) = False"
  "job_running (s\<lparr>sh_job := None\<rparr>) = False" "job_running (s\<lparr>sh_job := Some (Job_processing x)\<rparr>) = True"
  by (simp_all add: job_running_def sh_legacyCheck_def sh_endTrack_def Let_def)

lemma processing_running [simp]: "sh_job s = Some (Job_processing b) \<Longrightarrow> job_running s"
  by (simp add: job_running_def)

lemma job_running_start:
  "job_running (sh_onStart d s) = job_running s" "sh_tokenCancelled (sh_onStart d s) = sh_tokenCancelled s"
  by (simp_all add: sh_onStart_def)

lemma job_running_chunk:
  "job_running (sh_onChunk d s) = job_running s" "sh_tokenCancelled (sh_onChunk d s) = sh_tokenCancelled s"
  by (simp_all add: sh_onChunk_def Let_def split: option.split)

lemma cancelled_jobs:
  "sh_tokenCancelled s \<Longrightarrow> \<not> job_running (sh_jobStart env s)"
  "sh_tokenCancelled s \<Longrightarrow> \<not> job_running s \<Longrightarrow> \<not> job_running (sh_enqueue env s)"
  "sh_tokenCancelled s \<Longrightarrow> \<not> job_running (sh_nextJob env s)"
  by (simp_all add: sh_enqueue_def sh_nextJob_def sh_jobStart_def notification_dropped_def split: nat.split)

lemma cancelled_onEvent: "sh_tokenCancelled s \<Longrightarrow> \<not> job_running s \<Longrightarrow> \<not> job_running (sh_onEvent env e s)"
  by (cases "se_data e")
    (simp_all add: sh_onEvent_def sh_endSend_def sendStreamingResponse_def cancelled_jobs job_running_start
      job_running_chunk Let_def split: option.split sse_type.split)

lemma cancelled_onEvents:
  "sh_tokenCancelled s \<Longrightarrow> \<not> job_running s \<Longrightarrow> \<not> job_running (foldl (\<lambda>t e. sh_onEvent env e t) s es)"
  by (induction es arbitrary: s) (simp_all add: cancelled_onEvent)

lemma onEvents_frame [simp]:
  "sh_tokenCancelled (foldl (\<lambda>t e. sh_onEvent env e t) s es) = sh_tokenCancelled s"
  "sh_completions (foldl (\<lambda>t e. sh_onEvent env e t) s es) = sh_completions s"
  "sh_phase (foldl (\<lambda>t e. sh_onEvent env e t) s es) = sh_phase s"
  "sh_context (foldl (\<lambda>t e. sh_onEvent env e t) s es) = sh_context s"
  by (induction es arbitrary: s) simp_all

lemma legacyCheck_frame [simp]:
  "sh_tokenCancelled (sh_legacyCheck s) = sh_tokenCancelled s" "sh_job (sh_legacyCheck s) = sh_job s"
  "sh_completions (sh_legacyCheck s) = sh_completions s" "sh_phase (sh_legacyCheck s) = sh_phase s"
  by (simp_all add: sh_legacyCheck_def)

lemma endTrack_frame [simp]:
  "sh_tokenCancelled (sh_endTrack s) = sh_tokenCancelled s" "sh_job (sh_endTrack s) = sh_job s"
  "sh_completions (sh_endTrack s) = sh_completions s" "sh_phase (sh_endTrack s) = sh_phase s"
  by (simp_all add: sh_endTrack_def Let_def)

lemma quiet_act:
  assumes "sh_act env a s = Some s'" and "quiet s"
  shows "quiet s' \<and> sh_completions s' = sh_completions s"
  using assms
  by (induction env a s rule: sh_act.induct)
    (auto simp: quiet_def sh_item_def notification_dropped_def cancelled_jobs cancelled_onEvents sh_idle_def
      sh_endSend_def sendStreamingResponse_def Let_def
      split: if_splits phase.splits option.splits stream_item.splits job.splits)

lemma quiet_cancel: "quiet s \<Longrightarrow> quiet (sh_cancel s) \<and> sh_completions (sh_cancel s) = sh_completions s"
  by (simp add: quiet_def sh_cancel_def job_running_def)

lemma quiet_steps:
  "stream_steps env s s' \<Longrightarrow> quiet s \<Longrightarrow> quiet s' \<and> sh_completions s' = sh_completions s"
proof (induction rule: stream_steps.induct)
  case (stream_next s1 s2)
  then show ?case
    using quiet_act quiet_cancel by (auto elim!: stream_step.cases)
qed simp

subsection \<open>Runs\<close>

datatype stream_input = Do bool action | Cancel_stream

fun sh_run :: "stream_env \<Rightarrow> stream_input list \<Rightarrow> stream \<Rightarrow> stream option" where
  "sh_run env [] s = Some s"
| "sh_run env (Do b a # is) s =
     (case sh_act (env\<lparr>sv_open := b\<rparr>) a s of None \<Rightarrow> None | Some s1 \<Rightarrow> sh_run env is s1)"
| "sh_run env (Cancel_stream # is) s =
     (if sh_phase s = Finished then None else sh_run env is (sh_cancel s))"

lemma stream_steps_trans:
  "stream_steps env s1 s2 \<Longrightarrow> stream_steps env s0 s1 \<Longrightarrow> stream_steps env s0 s2"
  by (induction rule: stream_steps.induct) (auto intro: stream_next)

lemma sh_run_steps: "sh_run env is s = Some s' \<Longrightarrow> stream_steps env s s'"
proof (induction env "is" s rule: sh_run.induct)
  case (2 env b a "is" s)
  then obtain s1 where "sh_act (env\<lparr>sv_open := b\<rparr>) a s = Some s1" "sh_run env is s1 = Some s'"
    by (auto split: option.splits)
  from 2(1) [OF this] stream_next [OF stream_refl stream_act [OF \<open>sh_act _ a s = Some s1\<close>]]
  show ?case by (rule stream_steps_trans)
next
  case (3 env "is" s)
  then have "stream_steps env (sh_cancel s) s'" "sh_phase s \<noteq> Finished" by (auto split: if_splits)
  from stream_steps_trans [OF this(1) stream_next [OF stream_refl stream_cancel [OF this(2)]]]
  show ?case .
qed (simp add: stream_refl)

lemma sh_run_append:
  "sh_run env (is @ js) s = Option.bind (sh_run env is s) (sh_run env js)"
  by (induction env "is" s rule: sh_run.induct) (auto split: option.splits)

subsection \<open>Completions of a server-sent stream grow\<close>

text \<open>What was sent are post-processed texts, each a prefix of the next, of the one in work and of the
  text received so far.\<close>

definition pending :: "stream \<Rightarrow> string list" where
  "pending s = (case sh_job s of Some (Job_processing b) \<Rightarrow> [b] | _ \<Rightarrow> [])"

definition chain_inv :: "(doc_context \<Rightarrow> string \<Rightarrow> client_error + string) \<Rightarrow> stream \<Rightarrow> bool" where
  "chain_inv post s \<longleftrightarrow>
     (\<exists>bs. map Inr (sh_completions s) = map (post (sh_context s)) bs \<and>
        sorted_wrt prefix (bs @ pending s @ [sh_sseBuffer s])) \<and>
     (\<forall>b. sh_phase s \<noteq> Legacy_processing b)"

lemma chain_inv_start: "chain_inv post (sh_start env has_stream p)"
  by (auto simp: chain_inv_def pending_def sh_start_def sh_completions_def List.map_filter_simps sh_ops
      sh_emit_def Let_def split: option.splits)

text \<open>A step keeps the invariant when its completions and pending buffers stay in line.\<close>

lemma chain_inv_mono:
  assumes "chain_inv post s" and "sh_completions s' = sh_completions s" and "sh_context s' = sh_context s"
    and "\<And>bs. sorted_wrt prefix (bs @ pending s @ [sh_sseBuffer s]) \<Longrightarrow>
            sorted_wrt prefix (bs @ pending s' @ [sh_sseBuffer s'])"
    and "\<forall>b. sh_phase s' \<noteq> Legacy_processing b"
  shows "chain_inv post s'"
  using assms unfolding chain_inv_def by fastforce

lemma sorted_extend:
  "sorted_wrt prefix (xs @ ys @ [b]) \<Longrightarrow> sorted_wrt prefix (xs @ ys @ [b @ w])"
  by (auto simp: sorted_wrt_append intro: prefix_order.trans)


lemma chain_inv_extend:
  assumes "chain_inv post s" and "sh_completions s' = sh_completions s" and "sh_context s' = sh_context s"
    and "sh_job s' = sh_job s" and "sh_sseBuffer s' = sh_sseBuffer s @ w"
    and "sh_phase s' = sh_phase s"
  shows "chain_inv post s'"
  using assms(1)
  by (rule chain_inv_mono)
    (use assms in \<open>auto simp: pending_def chain_inv_def sorted_wrt_append intro: prefix_order.trans\<close>)

lemma chain_inv_jobStart:
  assumes "chain_inv post s"
  shows "chain_inv post (sh_jobStart env s)"
  using assms
  by (rule chain_inv_mono)
    (use assms in \<open>auto simp: sh_jobStart_def pending_def chain_inv_def sorted_wrt_append\<close>)

lemma chain_inv_queue: "chain_inv post s \<Longrightarrow> chain_inv post (s\<lparr>sh_queue := q\<rparr>)"
  by (simp add: pending_def chain_inv_def)

lemma chain_inv_returned:
  assumes "chain_inv post s" and "j = None \<or> j = Some Job_returned"
  shows "chain_inv post (s\<lparr>sh_job := j\<rparr>)"
  using assms(1)
  by (rule chain_inv_mono) (use assms in \<open>auto simp: pending_def chain_inv_def sorted_wrt_append\<close>)

lemma chain_inv_enqueue: "chain_inv post s \<Longrightarrow> chain_inv post (sh_enqueue env s)"
  by (simp add: sh_enqueue_def chain_inv_jobStart chain_inv_queue)

lemma chain_inv_nextJob: "chain_inv post s \<Longrightarrow> chain_inv post (sh_nextJob env s)"
  by (auto simp: sh_nextJob_def intro: chain_inv_jobStart chain_inv_queue chain_inv_returned split: nat.split)

lemma chain_inv_onEvent:
  assumes "chain_inv post s"
  shows "chain_inv post (sh_onEvent env e s)"
proof -
  have chunk: "chain_inv post (sh_onChunk d s)" for d
  proof (cases "Option.bind d sed_choices")
    case None
    with assms show ?thesis by (simp add: sh_onChunk_def)
  next
    case (Some cs)
    then show ?thesis
      by (intro chain_inv_extend [OF assms, of _ "concat cs"]) (auto simp: sh_onChunk_def Let_def)
  qed
  have start: "chain_inv post (sh_onStart d s)" for d
    by (rule chain_inv_extend [OF assms, of _ "[]"]) (auto simp: sh_onStart_def)
  have provided: "chain_inv post (s\<lparr>sh_suggestionProvided := True\<rparr>)"
    by (rule chain_inv_extend [OF assms, of _ "[]"]) auto
  have err: "chain_inv post (sh_handleError er s)" for er
    by (rule chain_inv_extend [OF assms, of _ "[]"]) auto
  have err2: "chain_inv post (sh_emit (Out_response None True) (sh_handleError er s))" for er
    by (rule chain_inv_extend [OF assms, of _ "[]"]) auto
  show ?thesis
    using assms chunk start provided err err2 chain_inv_enqueue
    by (auto simp: sh_onEvent_def sh_endSend_def sendStreamingResponse_def sh_endTrack_def Let_def
        split: option.splits sse_type.splits prod.splits)
qed

lemma chain_inv_events: "chain_inv post s \<Longrightarrow> chain_inv post (foldl (\<lambda>t e. sh_onEvent env e t) s es)"
  by (induction es arbitrary: s) (auto intro: chain_inv_onEvent)

fun sse_only :: "stream_input \<Rightarrow> bool" where
  "sse_only (Do b (Act_item (Legacy_item c))) = False"
| "sse_only _ = True"

lemma chain_inv_jobDone:
  assumes "chain_inv (sv_post env) s" and "sh_job s = Some (Job_processing b)"
  shows "chain_inv (sv_post env) (sh_jobDone env b s)"
proof -
  from assms obtain bs where bs: "map Inr (sh_completions s) = map (sv_post env (sh_context s)) bs"
    and sorted: "sorted_wrt prefix (bs @ b # [sh_sseBuffer s])"
    and ph: "\<forall>b. sh_phase s \<noteq> Legacy_processing b"
    by (auto simp: chain_inv_def pending_def)
  have drop: "chain_inv (sv_post env) (s\<lparr>sh_job := Some Job_returned\<rparr>)"
    using assms(1) by (rule chain_inv_returned) simp
  show ?thesis
  proof (cases "sv_post env (sh_context s) b")
    case (Inl e)
    with drop show ?thesis by (simp add: sh_jobDone_def Let_def)
  next
    case (Inr t)
    have "chain_inv (sv_post env) (sh_emit (Out_response (Some t) False) (s\<lparr>sh_job := Some Job_returned\<rparr>))"
      unfolding chain_inv_def
      by (intro conjI exI [of _ "bs @ [b]"]) (use bs sorted ph Inr in \<open>auto simp: pending_def\<close>)
    with drop Inr show ?thesis
      by (simp add: sh_jobDone_def Let_def sendStreamingResponse_def or_else_def)
  qed
qed

lemma chain_inv_act:
  assumes "sh_act env a s = Some s'" and "sse_only (Do b a)" and "chain_inv (sv_post env) s"
  shows "chain_inv (sv_post env) s'"
proof (cases a)
  case (Act_item item)
  with assms show ?thesis by (cases item) (auto simp: sh_item_def chain_inv_events split: if_splits)
next
  case Act_legacy_processed
  with assms show ?thesis by (auto simp: chain_inv_def split: phase.splits)
next
  case Act_legacy_taken
  with assms have "s' = sh_legacyCheck (s\<lparr>sh_phase := Reading\<rparr>)" by (simp split: if_splits)
  then show ?thesis
    by (intro chain_inv_mono [OF assms(3)]) (auto simp: sh_legacyCheck_def pending_def)
next
  case Act_stream_end
  with assms show ?thesis
    by (intro chain_inv_mono [OF assms(3)]) (auto simp: pending_def split: if_splits)
next
  case (Act_stream_error e)
  with assms show ?thesis
    by (intro chain_inv_mono [OF assms(3)]) (auto simp: pending_def split: if_splits)
next
  case Act_job_start
  with assms show ?thesis by (auto intro: chain_inv_nextJob split: if_splits)
next
  case Act_job_done
  with assms show ?thesis by (auto intro: chain_inv_jobDone split: option.splits job.splits)
next
  case Act_idle
  with assms have "s' = sh_idle env (s\<lparr>sh_job := None\<rparr>)" by (simp split: if_splits)
  then show ?thesis
    by (intro chain_inv_mono [OF chain_inv_returned [OF assms(3), of None]])
      (auto simp: pending_def sh_idle_def sh_endSend_def sendStreamingResponse_def)
next
  case Act_end_taken
  with assms show ?thesis
    by (intro chain_inv_mono [OF assms(3)])
      (auto simp: pending_def sh_endTrack_def Let_def split: if_splits)
qed

lemma chain_inv_run:
  "sh_run env is s = Some s' \<Longrightarrow> list_all sse_only is \<Longrightarrow> chain_inv (sv_post env) s \<Longrightarrow>
   chain_inv (sv_post env) s'"
proof (induction env "is" s rule: sh_run.induct)
  case (2 env b a "is" s)
  then obtain s1 where s1: "sh_act (env\<lparr>sv_open := b\<rparr>) a s = Some s1" "sh_run env is s1 = Some s'"
    by (auto split: option.splits)
  from chain_inv_act [OF s1(1), of b] 2 s1 show ?case by simp
next
  case (3 env "is" s)
  have "chain_inv (sv_post env) (sh_cancel s)"
    by (rule chain_inv_extend [OF 3(4), of _ "[]"]) (auto simp: sh_cancel_def)
  with 3 show ?case by (auto split: if_splits)
qed simp

subsection \<open>Draining\<close>

text \<open>Running the waiting jobs to their end: every job takes one or two actions.\<close>

lemma jobDone_frame [simp]:
  "sh_phase (sh_jobDone env b s) = sh_phase s" "sh_queue (sh_jobDone env b s) = sh_queue s"
  "\<not> job_running (sh_jobDone env b s)"
  by (auto simp: sh_jobDone_def sendStreamingResponse_def or_else_def Let_def split: sum.splits)

lemma drain_queue:
  assumes "\<not> job_running s"
  shows "\<exists>is s'. sh_run env is s = Some s' \<and> sh_phase s' = sh_phase s \<and> sh_queue s' = 0 \<and>
    \<not> job_running s' \<and> length is \<le> 2 * sh_queue s"
  using assms
proof (induction "sh_queue s" arbitrary: s)
  case 0
  then show ?case by (intro exI [of _ "[]"]) simp
next
  case (Suc n)
  let ?e = "env\<lparr>sv_open := False\<rparr>"
  let ?s1 = "sh_nextJob ?e s"
  have a1: "sh_act ?e Act_job_start s = Some ?s1" using Suc.prems by simp
  have left: "n = sh_queue ?s1" using Suc.hyps(2) by simp
  show ?case
  proof (cases "job_running ?s1")
    case False
    obtain "is" s' where r: "sh_run env is ?s1 = Some s'" "sh_phase s' = sh_phase ?s1" "sh_queue s' = 0"
      "\<not> job_running s'" "length is \<le> 2 * sh_queue ?s1"
      using Suc.hyps(1) [of ?s1] left False by auto
    with a1 Suc.hyps(2) show ?thesis by (intro exI [of _ "Do False Act_job_start # is"] exI [of _ s']) simp
  next
    case True
    then obtain c where c: "sh_job ?s1 = Some (Job_processing c)"
      by (auto simp: job_running_def split: option.splits job.splits)
    let ?s2 = "sh_jobDone ?e c ?s1"
    obtain "is" s' where r: "sh_run env is ?s2 = Some s'" "sh_phase s' = sh_phase ?s2" "sh_queue s' = 0"
      "\<not> job_running s'" "length is \<le> 2 * sh_queue ?s2"
      using Suc.hyps(1) [of ?s2] left by auto
    with a1 c Suc.hyps(2) show ?thesis
      by (intro exI [of _ "Do False Act_job_start # Do False Act_job_done # is"] exI [of _ s']) simp
  qed
qed

lemma drain_all:
  "\<exists>is s'. sh_run env is s = Some s' \<and> sh_phase s' = sh_phase s \<and> sh_queue s' = 0 \<and>
    \<not> job_running s' \<and> length is \<le> 2 * sh_queue s + 1"
proof (cases "job_running s")
  case False
  then show ?thesis using drain_queue [of s env] by fastforce
next
  case True
  then obtain b where b: "sh_job s = Some (Job_processing b)"
    by (auto simp: job_running_def split: option.splits job.splits)
  let ?s1 = "sh_jobDone (env\<lparr>sv_open := False\<rparr>) b s"
  obtain "is" s' where "sh_run env is ?s1 = Some s'" "sh_phase s' = sh_phase s" "sh_queue s' = 0"
      "\<not> job_running s'" "length is \<le> 2 * sh_queue s"
    using drain_queue [of ?s1 env] by auto
  with b show ?thesis by (intro exI [of _ "Do False Act_job_done # is"] exI [of _ s']) simp
qed

subsection \<open>The handler\<close>

inductive hd_step :: "streaming_handler \<Rightarrow> streaming_handler \<Rightarrow> bool" where
  hd_step_init: "hd_step h (hd_init h)"
| hd_step_start: "hd_step h (hd_startStream env b p h)"
| hd_step_cancel: "hd_step h (hd_notificationHandler streamId h)"
| hd_step_act: "hd_step h (hd_act env i a h)"

inductive hd_reachable :: "streaming_handler \<Rightarrow> bool" where
  hd_reach_new: "hd_reachable hd_new"
| hd_reach_step: "hd_reachable h \<Longrightarrow> hd_step h h' \<Longrightarrow> hd_reachable h'"

inductive_cases hd_stepE: "hd_step h h'"

definition hd_inv :: "streaming_handler \<Rightarrow> bool" where
  "hd_inv h \<longleftrightarrow>
     map_wf (hd_cancellations h) \<and> list_all event_inv (hd_streams h) \<and>
     (\<forall>sid i. map_get (hd_cancellations h) sid = Some i \<longrightarrow>
        i < length (hd_streams h) \<and> sh_streamId (hd_streams h ! i) = sid \<and>
        sh_phase (hd_streams h ! i) \<noteq> Finished)"

lemma sh_cancel_frame [simp]:
  "sh_phase (sh_cancel s) = sh_phase s" "sh_streamId (sh_cancel s) = sh_streamId s"
  by (simp_all add: sh_cancel_def)

lemma start_frame [simp]:
  "sh_streamId (sh_start env b p) = sp_streamId p" "sh_phase (sh_start env b p) \<noteq> Finished"
  by (auto simp: sh_start_def sh_idle_def sh_endSend_def sendStreamingResponse_def Let_def sh_emit_def
      split: option.splits)

lemma emitters_streamId [simp]:
  "sh_streamId (trackStreamShown s) = sh_streamId s" "sh_streamId (trackStreamStarted s) = sh_streamId s"
  "sh_streamId (sh_handleError e s) = sh_streamId s" "sh_streamId (sh_endTrack s) = sh_streamId s"
  "sh_streamId (sh_legacyCheck s) = sh_streamId s"
  by (simp_all add: trackStreamShown_def trackStreamStarted_def sh_handleError_def sh_endTrack_def
      sh_legacyCheck_def Let_def split: client_error.splits)

lemma jobs_streamId [simp]:
  "sh_streamId (sh_jobStart env s) = sh_streamId s" "sh_streamId (sh_enqueue env s) = sh_streamId s"
  "sh_streamId (sh_nextJob env s) = sh_streamId s"
  by (simp_all add: sh_jobStart_def sh_enqueue_def sh_nextJob_def split: nat.split)

lemma onEvent_streamId [simp]: "sh_streamId (sh_onEvent env e s) = sh_streamId s"
  by (auto simp: sh_onEvent_def sh_endSend_def sendStreamingResponse_def
      sh_onStart_def sh_onChunk_def Let_def split: option.splits sse_type.splits prod.splits)

lemma onEvents_streamId [simp]: "sh_streamId (foldl (\<lambda>t e. sh_onEvent env e t) s es) = sh_streamId s"
  by (induction es arbitrary: s) simp_all

lemma act_streamId: "sh_act env a s = Some s' \<Longrightarrow> sh_streamId s' = sh_streamId s"
  by (induction env a s rule: sh_act.induct)
    (auto simp: sh_item_def sh_legacyProcessed_def sh_jobDone_def sh_idle_def sh_endSend_def
      sendStreamingResponse_def or_else_def Let_def
      split: if_splits phase.splits option.splits job.splits stream_item.splits sum.splits)

lemma hd_inv_act:
  assumes "hd_inv h"
  shows "hd_inv (hd_act env i a h)"
proof (cases "i < length (hd_streams h)")
  case False
  with assms show ?thesis by (simp add: hd_act_def)
next
  case i: True
  show ?thesis
  proof (cases "sh_act (env\<lparr>sv_ready := hd_ready h\<rparr>) a (hd_streams h ! i)")
    case None
    with assms show ?thesis by (simp add: hd_act_def)
  next
    case (Some s)
    have sid: "sh_streamId s = sh_streamId (hd_streams h ! i)" using Some by (rule act_streamId)
    have "event_inv s"
      using event_inv_act [OF Some] assms i by (simp add: hd_inv_def list_all_length)
    with i assms have "list_all event_inv ((hd_streams h)[i := s])"
      by (auto simp: hd_inv_def list_all_iff dest!: set_update_subset_insert [THEN subsetD])
    with i assms Some sid show ?thesis
      unfolding hd_inv_def hd_act_def by (auto simp: nth_list_update split: if_splits)
  qed
qed

lemma hd_inv_cancel:
  assumes "hd_inv h"
  shows "hd_inv (hd_notificationHandler sid h)"
proof (cases "map_get (hd_cancellations h) sid")
  case None
  with assms show ?thesis by (simp add: hd_notificationHandler_def)
next
  case (Some i)
  with assms have i: "i < length (hd_streams h)" "sh_phase (hd_streams h ! i) \<noteq> Finished"
    by (auto simp: hd_inv_def)
  with assms have "event_inv (sh_cancel (hd_streams h ! i))"
    by (auto simp: hd_inv_def list_all_length intro: inv_intros)
  with i assms Some show ?thesis
    unfolding hd_inv_def hd_notificationHandler_def
    by (auto simp: nth_list_update list_all_length)
qed

lemma hd_inv_start: "hd_inv h \<Longrightarrow> hd_inv (hd_startStream env b p h)"
  by (auto simp: hd_inv_def hd_startStream_def nth_append event_inv_start intro: less_SucI split: if_splits)

lemma hd_reachable_inv: "hd_reachable h \<Longrightarrow> hd_inv h"
proof (induction rule: hd_reachable.induct)
  case hd_reach_new
  then show ?case by (simp add: hd_inv_def hd_new_def)
next
  case (hd_reach_step h h')
  from hd_reach_step.hyps(2) show ?case
    using hd_reach_step.IH hd_inv_act hd_inv_cancel hd_inv_start
    by (cases rule: hd_step.cases) (auto simp: hd_init_def hd_inv_def)
qed

subsection \<open>The flag of the parser\<close>

lemma emitters_parser [simp]:
  "sh_parserCancelledOrErrored (trackStreamShown s) = sh_parserCancelledOrErrored s"
  "sh_parserCancelledOrErrored (trackStreamStarted s) = sh_parserCancelledOrErrored s"
  "sh_parserCancelledOrErrored (sh_handleError e s) = sh_parserCancelledOrErrored s"
  "sh_parserCancelledOrErrored (sh_endTrack s) = sh_parserCancelledOrErrored s"
  "sh_parserCancelledOrErrored (sh_legacyCheck s) = sh_parserCancelledOrErrored s"
  "sh_parserCancelledOrErrored (sh_cancel s) = sh_parserCancelledOrErrored s"
  by (simp_all add: trackStreamShown_def trackStreamStarted_def sh_handleError_def sh_endTrack_def
      sh_legacyCheck_def sh_cancel_def Let_def split: client_error.splits)

lemma jobs_parser [simp]:
  "sh_parserCancelledOrErrored (sh_jobStart env s) = sh_parserCancelledOrErrored s"
  "sh_parserCancelledOrErrored (sh_enqueue env s) = sh_parserCancelledOrErrored s"
  "sh_parserCancelledOrErrored (sh_nextJob env s) = sh_parserCancelledOrErrored s"
  by (simp_all add: sh_jobStart_def sh_enqueue_def sh_nextJob_def split: nat.split)

lemma onEvent_parser [simp]:
  "sh_parserCancelledOrErrored (sh_onEvent env e s) = sh_parserCancelledOrErrored s"
  by (auto simp: sh_onEvent_def sh_endSend_def sendStreamingResponse_def
      sh_onStart_def sh_onChunk_def Let_def split: option.splits sse_type.splits prod.splits)

lemma onEvents_parser [simp]:
  "sh_parserCancelledOrErrored (foldl (\<lambda>t e. sh_onEvent env e t) s es) = sh_parserCancelledOrErrored s"
  by (induction es arbitrary: s) simp_all

lemma act_parser:
  "sh_act env a s = Some s' \<Longrightarrow> sh_parserCancelledOrErrored s' = sh_parserCancelledOrErrored s"
  by (induction env a s rule: sh_act.induct)
    (auto simp: sh_item_def sh_legacyProcessed_def sh_jobDone_def sh_idle_def sh_endSend_def
      sendStreamingResponse_def or_else_def Let_def
      split: if_splits phase.splits option.splits job.splits stream_item.splits sum.splits)

lemma steps_parser:
  "stream_steps env s s' \<Longrightarrow> sh_parserCancelledOrErrored s' = sh_parserCancelledOrErrored s"
  by (induction rule: stream_steps.induct) (auto elim!: stream_step.cases dest: act_parser)

lemma start_parser [simp]: "\<not> sh_parserCancelledOrErrored (sh_start env b p)"
  by (auto simp: sh_start_def sh_idle_def sh_endSend_def sendStreamingResponse_def Let_def sh_emit_def
      split: option.splits)

subsection \<open>Properties\<close>

definition demo_params :: start_params where
  "demo_params =
     \<lparr>sp_streamId = ''s1'', sp_uniqueTrackingId = ''u1'', sp_documentContext = cr_context demo_request,
      sp_userInstruction = None, sp_generationType = Some Gen_comment, sp_additionalContexts = Some [],
      sp_contextProjectPath = None\<rparr>"

definition demo_stream_env :: stream_env where
  "demo_stream_env = \<lparr>sv_ready = True, sv_open = False, sv_post = \<lambda>ctx b. Inr b\<rparr>"

definition demo_stream :: stream where
  "demo_stream = sh_start demo_stream_env True demo_params"

text \<open>C1: Whatever the server sends, however the client cancels and however the asynchronous parts
  interleave, each stream reports that it started, was shown, completed or provided nothing at most once
  each, and never reports completion next to an error, a cancellation or a rejection.\<close>

theorem stream_events_once:
  assumes "hd_reachable h" and "s \<in> set (hd_streams h)"
  shows "count_list (sh_events s) STREAM_STARTED \<le> 1 \<and> count_list (sh_events s) SHOWN \<le> 1 \<and>
    count_list (sh_events s) STREAM_COMPLETED \<le> 1 \<and> count_list (sh_events s) NOT_PROVIDED \<le> 1 \<and>
    (STREAM_COMPLETED \<in> set (sh_events s) \<longrightarrow> set (sh_events s) \<inter> {ERRORED, CANCELLED, REJECTED} = {})"
proof -
  have inv: "event_inv s"
    using hd_reachable_inv [OF assms(1)] assms(2) by (simp add: hd_inv_def list_all_iff)
  have "set (sh_events s) \<inter> {ERRORED, CANCELLED, REJECTED} = {}" if "STREAM_COMPLETED \<in> set (sh_events s)"
  proof -
    from that have "count_list (sh_events s) STREAM_COMPLETED \<noteq> 0" by (simp add: count_list_0_iff)
    with inv have "\<not> sh_cancelledOrErrored s" by (auto simp: event_inv_def)
    with inv show ?thesis by (auto simp: event_inv_def)
  qed
  with inv show ?thesis by (auto simp: event_inv_def of_bool_def split: if_splits)
qed

theorem stream_events_once_witness:
  "count_list (sh_events (sh_start (demo_stream_env\<lparr>sv_ready := False\<rparr>) True demo_params)) SHOWN \<le> 1"
proof -
  have "hd_reachable (hd_startStream demo_stream_env True demo_params hd_new)"
    by (rule hd_reach_step [OF hd_reach_new hd_step_start])
  from stream_events_once [OF this, of "sh_start (demo_stream_env\<lparr>sv_ready := False\<rparr>) True demo_params"]
  show ?thesis by (simp add: hd_startStream_def hd_new_def)
qed

text \<open>A cancellation handler exists only for a stream that runs: the entry of an id leads to a stream
  with this id that has not finished, also when the same id was used twice.\<close>

theorem cancellation_handlers_running:
  assumes "hd_reachable h" and "map_get (hd_cancellations h) sid = Some i"
  shows "i < length (hd_streams h) \<and> sh_streamId (hd_streams h ! i) = sid \<and>
    sh_phase (hd_streams h ! i) \<noteq> Finished"
  using hd_reachable_inv [OF assms(1)] assms(2) by (simp add: hd_inv_def)

theorem cancellation_handlers_running_witness:
  "sh_phase (hd_streams (hd_startStream demo_stream_env True demo_params hd_new) ! 0) \<noteq> Finished"
proof -
  have "hd_reachable (hd_startStream demo_stream_env True demo_params hd_new)"
    by (rule hd_reach_step [OF hd_reach_new hd_step_start])
  from cancellation_handlers_running [OF this, of "sp_streamId demo_params" 0] show ?thesis
    by (simp add: hd_startStream_def hd_new_def)
qed

text \<open>Once the client has cancelled a stream, no further text reaches it: if no buffer is being
  post-processed at that moment, the completions sent stay what they are for ever.\<close>

theorem cancelled_stream_is_silent:
  assumes "stream_steps env (sh_cancel s) s'"
    and "\<forall>b. sh_job s \<noteq> Some (Job_processing b)" and "\<forall>b. sh_phase s \<noteq> Legacy_processing b"
  shows "sh_completions s' = sh_completions s"
  using quiet_steps [OF assms(1)] assms(2,3)
  by (auto simp: quiet_def sh_cancel_def job_running_def split: option.split job.split)

theorem cancelled_stream_is_silent_witness:
  "sh_completions (foldl (\<lambda>t e. sh_onEvent demo_stream_env e t) (sh_cancel demo_stream) []) = []"
proof -
  have "stream_steps demo_stream_env (sh_cancel demo_stream) (sh_cancel demo_stream)" by (rule stream_refl)
  from cancelled_stream_is_silent [OF this] show ?thesis
    by (simp add: demo_stream_def sh_start_def sh_completions_def List.map_filter_simps Let_def)
qed

text \<open>C23: The completions of a stream of server-sent events are post-processed buffers sent in order: each
  buffer extends the one before, and all are prefixes of the text received, so that the client, which
  shows the last one, never loses text.\<close>

theorem stream_completions_grow:
  assumes "sh_run env is (sh_start env has_stream p) = Some s" and "list_all sse_only is"
  shows "\<exists>bs. map Inr (sh_completions s) = map (sv_post env (sh_context s)) bs \<and>
    sorted_wrt prefix bs \<and> (\<forall>b \<in> set bs. prefix b (sh_sseBuffer s))"
proof -
  from chain_inv_run [OF assms chain_inv_start] obtain bs
    where "map Inr (sh_completions s) = map (sv_post env (sh_context s)) bs"
      "sorted_wrt prefix (bs @ pending s @ [sh_sseBuffer s])"
    by (auto simp: chain_inv_def)
  then show ?thesis by (intro exI [of _ bs]) (auto simp: sorted_wrt_append)
qed

definition demo_chunk :: "string \<Rightarrow> sse_event" where
  "demo_chunk c =
     \<lparr>se_event = Some ''content_chunk'',
      se_data = Some (JObj [(''choices'', JArr [JObj [(''delta'', JObj [(''content'', JStr c)]), (''index'', JNum 0)]])])\<rparr>"

definition demo_inputs :: "stream_input list" where
  "demo_inputs =
     [Do False (Act_item (Sse_item [demo_chunk ''x'', demo_chunk ''y''])),
      Do False Act_job_done, Do False Act_job_start, Do False Act_job_done]"

lemmas sse_eval = demo_chunk_def SSEEventSchema_def SSEEventDataSchema_def ChoiceSchema_def z_required_def
  z_optional_def z_nullable_def sse_type_of_def

lemma demo_run:
  "\<exists>s. sh_run demo_stream_env demo_inputs demo_stream = Some s \<and> sh_completions s = [''x'', ''xy'']"
  by (simp add: demo_inputs_def demo_stream_def sh_start_def sh_item_def sh_onEvent_def sse_eval
      demo_stream_env_def sh_onChunk_def sh_enqueue_def visible_def is_ws_def trackStreamShown_def sh_emit_def
      sh_jobStart_def notification_dropped_def trackStreamStarted_def sh_jobDone_def sendStreamingResponse_def
      sh_nextJob_def job_running_def or_else_def sh_completions_def List.map_filter_simps Let_def)

theorem stream_completions_grow_witness:
  "\<exists>bs. map Inr [''x'', ''xy''] = map (\<lambda>b. Inr b :: client_error + string) bs \<and> sorted_wrt prefix bs"
proof -
  obtain s where s: "sh_run demo_stream_env demo_inputs (sh_start demo_stream_env True demo_params) = Some s"
    "sh_completions s = [''x'', ''xy'']"
    using demo_run by (auto simp: demo_stream_def)
  have "list_all sse_only demo_inputs" by (simp add: demo_inputs_def)
  from stream_completions_grow [OF s(1) this] s(2) show ?thesis
    by (simp only: demo_stream_env_def stream_env.simps) blast
qed

text \<open>C37: Every stream can finish: when the server's stream ends, at most two actions per waiting
  notification and three more end the stream, whether or not it was cancelled or failed, and the client
  is told that it is done.\<close>

theorem stream_can_finish:
  assumes "sv_ready env" and "sh_phase s = Draining"
  shows "\<exists>is s'. sh_run env is s = Some s' \<and> sh_phase s' = Finished \<and>
    Out_response None True \<in> set (sh_out s') \<and> length is \<le> 2 * sh_queue s + 3"
proof -
  obtain "is" s1 where r: "sh_run env is s = Some s1" "sh_phase s1 = Draining" "sh_queue s1 = 0"
    "\<not> job_running s1" "length is \<le> 2 * sh_queue s + 1"
    using drain_all [of env s] assms(2) by auto
  let ?e = "env\<lparr>sv_open := False\<rparr>"
  define s2 where "s2 = sh_idle ?e (s1\<lparr>sh_job := None\<rparr>)"
  have s2: "sh_phase s2 = Ending" "Out_response None True \<in> set (sh_out s2)"
    using assms(1) by (simp_all add: s2_def sh_idle_def sh_endSend_def sendStreamingResponse_def sh_emit_def)
  define s3 where "s3 = sh_endTrack (s2\<lparr>sh_phase := Finished\<rparr>)"
  have s3: "sh_phase s3 = Finished" "Out_response None True \<in> set (sh_out s3)"
    using s2 by (simp_all add: s3_def sh_endTrack_def sh_emit_def Let_def)
  have "sh_run env (is @ [Do False Act_idle, Do False Act_end_taken]) s = Some s3"
    using r s2 by (simp add: sh_run_append s2_def [symmetric] s3_def [symmetric])
  with s3 r(5) show ?thesis
    by (intro exI [of _ "is @ [Do False Act_idle, Do False Act_end_taken]"] exI [of _ s3]) simp
qed

theorem stream_can_finish_witness:
  "\<exists>is s'. sh_run demo_stream_env is (demo_stream\<lparr>sh_phase := Draining\<rparr>) = Some s' \<and>
    sh_phase s' = Finished \<and> length is \<le> 3"
  using stream_can_finish [of demo_stream_env "demo_stream\<lparr>sh_phase := Draining\<rparr>"]
  by (auto simp: demo_stream_env_def demo_stream_def sh_start_def Let_def)

text \<open>The two kinds of streams differ after a cancellation: a content chunk of a server-sent stream that
  arrives after the client cancelled still reports the suggestion as shown (the parser was given the flag
  by value), while a chunk of a legacy stream does not.\<close>

theorem sse_reports_shown_after_cancel:
  assumes "stream_steps env (sh_start env True p) s" and "\<not> sh_streamShown s"
    and "sed_choices d = Some contents" and "visible (sh_sseBuffer s @ concat contents)"
  shows "sh_events (sh_onChunk (Some d) (sh_cancel s)) = sh_events s @ [CANCELLED, SHOWN] \<and>
    sh_events (sh_legacyCheck (sh_cancel s)) = sh_events s @ [CANCELLED]"
proof -
  have "\<not> sh_parserCancelledOrErrored s" using steps_parser [OF assms(1)] by simp
  with assms(2-4) show ?thesis
    by (simp add: sh_onChunk_def sh_cancel_def sh_legacyCheck_def trackStreamShown_def Let_def)
qed

theorem sse_reports_shown_after_cancel_witness:
  "sh_events (sh_onChunk (Some \<lparr>sed_model = None, sed_choices = Some [''x'']\<rparr>) (sh_cancel demo_stream)) =
     [CANCELLED, SHOWN]"
  using sse_reports_shown_after_cancel [OF stream_refl, of demo_stream_env demo_params
      "\<lparr>sed_model = None, sed_choices = Some [''x'']\<rparr>" "[''x'']"]
  by (simp add: demo_stream_def sh_start_def visible_def is_ws_def sh_events_def List.map_filter_simps Let_def)

end
