(* ===== verification/Intent.thy ===== *)
theory Intent
  imports Suggestion_Client
begin

text \<open>
  What the user wants at the cursor (\<open>src/common/tree_sitter/intent_resolver.ts\<close>), from the syntax tree:
  the comments around the cursor (\<open>comments/comment_resolver.ts\<close>), the size of the file
  (\<open>small_files.ts\<close>) and empty functions (\<open>empty_function/empty_function_resolver.ts\<close>); and the script of
  a Vue file (\<open>src/common/utils/vue_utils.ts\<close>).

  The package \<open>web-tree-sitter\<close> is a parameter: a query of a language is a function from the tree to its
  captures, and a captured node is what the resolvers read of it.
\<close>

subsection \<open>Nodes\<close>

record ts_point =
  pt_row :: int
  pt_column :: int

record ts_span =
  sp_start :: ts_point
  sp_end :: ts_point

text \<open>A node with its parent's span and the spans of the parent's children, the end of the sibling before
  its last child and the start of its last child, and the number of children of its body.\<close>

record ts_node =
  tn_span :: ts_span
  tn_text :: string
  tn_parent :: "(ts_span \<times> ts_span list) option"
  tn_emptyBodyStart :: "ts_point option"
  tn_emptyBodyEnd :: "ts_point option"
  tn_bodyChildCount :: "nat option"

abbreviation end_row :: "ts_node \<Rightarrow> int" where
  "end_row n \<equiv> pt_row (sp_end (tn_span n))"

abbreviation start_row :: "ts_node \<Rightarrow> int" where
  "start_row n \<equiv> pt_row (sp_start (tn_span n))"

text \<open>\<open>'tree query\<close> gives the captures of a tree in document order.  A resolver keeps the queries it
  has compiled; \<open>sources\<close> is the table of query texts, \<open>compile\<close> the method \<open>Language.query\<close>.\<close>

type_synonym 'tree query = "'tree \<Rightarrow> ts_node list"

definition getQueryByLanguage ::
  "(string \<Rightarrow> string option) \<Rightarrow> (string \<Rightarrow> 'tree query) \<Rightarrow> string \<Rightarrow> (string, 'tree query) jsmap \<Rightarrow>
   'tree query option \<times> (string, 'tree query) jsmap" where
  "getQueryByLanguage sources compile language queries =
     (case map_get queries language of
        Some q \<Rightarrow> (Some q, queries)
      | None \<Rightarrow>
          (case sources language of
             None \<Rightarrow> (None, queries)
           | Some [] \<Rightarrow> (None, queries)
           | Some (c # cs) \<Rightarrow> (Some (compile (c # cs)), map_set language (compile (c # cs)) queries)))"

subsection \<open>Comments\<close>

datatype comment_resolution = Comment_at_cursor ts_node | Comment_above_cursor ts_node

text \<open>The stable sort by descending last row, and its head.\<close>

definition getLastComment :: "ts_node list \<Rightarrow> ts_node option" where
  "getLastComment comments =
     (case sort_key (\<lambda>c. - end_row c) comments of [] \<Rightarrow> None | c # cs \<Rightarrow> Some c)"

definition getCommentAboveCursor :: "ts_node list \<Rightarrow> ts_point \<Rightarrow> ts_node option" where
  "getCommentAboveCursor comments cursor = getLastComment (filter (\<lambda>c. end_row c < pt_row cursor) comments)"

definition getCommentAtCursor :: "ts_node list \<Rightarrow> ts_point \<Rightarrow> ts_node option" where
  "getCommentAtCursor comments cursor =
     getLastComment (filter (\<lambda>c. start_row c \<le> pt_row cursor \<and> pt_row cursor \<le> end_row c) comments)"

definition isPositionInNode :: "ts_point \<Rightarrow> ts_span \<Rightarrow> bool" where
  "isPositionInNode position node \<longleftrightarrow>
     pt_row (sp_start node) \<le> pt_row position \<and> pt_row position \<le> pt_row (sp_end node)"

text \<open>\<open>comments\<close> are the captures, \<open>None\<close> when the language has no comment query.\<close>

definition getCommentForCursor :: "ts_node list option \<Rightarrow> ts_point \<Rightarrow> comment_resolution option" where
  "getCommentForCursor comments cursor =
     (case comments of
        None \<Rightarrow> None
      | Some cs \<Rightarrow>
          (case getCommentAtCursor cs cursor of
             Some c \<Rightarrow> Some (Comment_at_cursor c)
           | None \<Rightarrow>
               (case getCommentAboveCursor cs cursor of
                  None \<Rightarrow> None
                | Some c \<Rightarrow>
                    (case tn_parent c of
                       None \<Rightarrow> None
                     | Some (parent, children) \<Rightarrow>
                         if \<not> isPositionInNode cursor parent then None
                         else if list_ex (\<lambda>child. pt_row (sp_start child) > end_row c \<and>
                                                 pt_row (sp_start child) \<le> pt_row cursor) children
                         then None
                         else Some (Comment_above_cursor c)))))"

text \<open>The set of rows the comments cover, row by row.\<close>

definition comment_rows :: "ts_node list \<Rightarrow> int set" where
  "comment_rows captures = fold (\<lambda>c rows. rows \<union> {start_row c .. end_row c}) captures {}"

definition getTotalCommentLines :: "ts_node list option \<Rightarrow> nat" where
  "getTotalCommentLines comments = card (comment_rows (or_else comments []))"

definition is_alphanumeric :: "char \<Rightarrow> bool" where
  "is_alphanumeric c \<longleftrightarrow>
     (let n = of_char c :: nat in 48 \<le> n \<and> n \<le> 57 \<or> 65 \<le> n \<and> n \<le> 90 \<or> 97 \<le> n \<and> n \<le> 122)"

definition isCommentEmpty :: "ts_node \<Rightarrow> bool" where
  "isCommentEmpty comment \<longleftrightarrow>
     (let trimmedContent =
            map (\<lambda>c. if c = newline \<or> c = CHR 0x0D \<or> c = CHR 0x5C then CHR '' '' else c)
              (trim (tn_text comment))
      in length (filter is_alphanumeric trimmedContent) \<le> 2)"

subsection \<open>Small files\<close>

definition getTotalNonEmptyLines :: "string \<Rightarrow> nat" where
  "getTotalNonEmptyLines textContent = length (filter (\<lambda>line. trim line \<noteq> []) (split_on newline textContent))"

definition isSmallFile :: "string \<Rightarrow> nat \<Rightarrow> bool" where
  "isSmallFile textContent totalCommentLines \<longleftrightarrow>
     int (getTotalNonEmptyLines textContent) - int totalCommentLines < 5"

subsection \<open>Empty functions\<close>

definition isCursorInsideNode :: "ts_point \<Rightarrow> ts_point \<Rightarrow> ts_point \<Rightarrow> bool" where
  "isCursorInsideNode cursor s e \<longleftrightarrow>
     (pt_row cursor > pt_row s \<or> pt_row cursor = pt_row s \<and> pt_column cursor \<ge> pt_column s) \<and>
     (pt_row cursor < pt_row e \<or> pt_row cursor = pt_row e \<and> pt_column cursor \<le> pt_column e)"

definition isCursorRightAfterNode :: "ts_point \<Rightarrow> ts_point \<Rightarrow> bool" where
  "isCursorRightAfterNode cursor e \<longleftrightarrow>
     pt_row cursor - pt_row e = 1 \<or> pt_row cursor = pt_row e \<and> pt_column cursor > pt_column e"

definition isCursorAfterEmptyPythonFunction :: "string \<Rightarrow> ts_node list \<Rightarrow> ts_point \<Rightarrow> bool" where
  "isCursorAfterEmptyPythonFunction languageName pythonCaptures cursor =
     (if languageName \<noteq> ''python'' then False
      else if pythonCaptures = [] then False
      else list_ex (\<lambda>c. tn_bodyChildCount c = Some 0 \<and>
                        isCursorRightAfterNode cursor (sp_end (tn_span c))) pythonCaptures)"

definition isCursorInEmptyFunction ::
  "string \<Rightarrow> ts_node list option \<Rightarrow> ts_node list \<Rightarrow> ts_point \<Rightarrow> bool" where
  "isCursorInEmptyFunction languageName functions pythonCaptures cursor =
     (case functions of
        None \<Rightarrow> False
      | Some captures \<Rightarrow>
          list_ex (\<lambda>c. case (tn_emptyBodyStart c, tn_emptyBodyEnd c) of
                         (Some s, Some e) \<Rightarrow> isCursorInsideNode cursor s e
                       | _ \<Rightarrow> False) captures \<or>
          isCursorAfterEmptyPythonFunction languageName pythonCaptures cursor)"

subsection \<open>The intent\<close>

record intent_resolution =
  ir_intent :: "intent option"
  ir_commentForCursor :: "ts_node option"
  ir_generationType :: "generation_type option"

text \<open>What the queries capture in the tree of the document.\<close>

record tree_captures =
  tr_languageName :: string
  tr_comments :: "ts_node list option"
  tr_functions :: "ts_node list option"
  tr_python :: "ts_node list"

definition getIntent :: "tree_captures \<Rightarrow> ts_point \<Rightarrow> string \<Rightarrow> string \<Rightarrow> intent_resolution" where
  "getIntent tr cursor prefix' suffix' =
     (case getCommentForCursor (tr_comments tr) cursor of
        Some (Comment_at_cursor c) \<Rightarrow>
          \<lparr>ir_intent = Some Completion, ir_commentForCursor = None, ir_generationType = None\<rparr>
      | Some (Comment_above_cursor c) \<Rightarrow>
          if isCommentEmpty c
          then \<lparr>ir_intent = Some Completion, ir_commentForCursor = None, ir_generationType = None\<rparr>
          else \<lparr>ir_intent = Some Generation, ir_commentForCursor = Some c,
                ir_generationType = Some Gen_comment\<rparr>
      | None \<Rightarrow>
          if isSmallFile (prefix' @ suffix') (getTotalCommentLines (tr_comments tr))
          then \<lparr>ir_intent = Some Generation, ir_commentForCursor = None,
                ir_generationType = Some Gen_small_file\<rparr>
          else if isCursorInEmptyFunction (tr_languageName tr) (tr_functions tr) (tr_python tr) cursor
          then \<lparr>ir_intent = Some Generation, ir_commentForCursor = None,
                ir_generationType = Some Gen_empty_function\<rparr>
          else \<lparr>ir_intent = None, ir_commentForCursor = None, ir_generationType = None\<rparr>)"

subsection \<open>The script of a Vue file\<close>

definition prefix_ci :: "string \<Rightarrow> string \<Rightarrow> bool" where
  "prefix_ci p s \<longleftrightarrow> prefix p (to_lower s)"

text \<open>\<open><script(?:\s+[^>]*)?\s*>\<close> at the start of \<open>s\<close>: what follows the tag.\<close>

definition after_open_tag :: "string \<Rightarrow> string option" where
  "after_open_tag s =
     (if \<not> prefix_ci ''<script'' s then None
      else case drop 7 s of
          [] \<Rightarrow> None
        | c # cs \<Rightarrow>
            if c = CHR ''>'' then Some cs
            else if is_ws c then
              (case dropWhile (\<lambda>d. d \<noteq> CHR ''>'') cs of [] \<Rightarrow> None | d # ds \<Rightarrow> Some ds)
            else None)"

text \<open>The text up to the first closing tag.\<close>

fun until_close :: "string \<Rightarrow> string option" where
  "until_close [] = None"
| "until_close (c # cs) =
     (if prefix_ci ''</script>'' (c # cs) then Some [] else map_option (Cons c) (until_close cs))"

text \<open>The leftmost match: what precedes it, the opening tag and the content.\<close>

fun find_script :: "string \<Rightarrow> (string \<times> string \<times> string) option" where
  "find_script [] = None"
| "find_script (c # cs) =
     (case Option.bind (after_open_tag (c # cs)) until_close of
        Some script \<Rightarrow>
          Some ([], take (length (c # cs) - length (the (after_open_tag (c # cs)))) (c # cs), script)
      | None \<Rightarrow> map_option (\<lambda>(before, tag, script). (c # before, tag, script)) (find_script cs))"

definition is_word :: "char \<Rightarrow> bool" where
  "is_word c \<longleftrightarrow> is_alphanumeric c \<or> c = CHR ''_''"

definition is_quote :: "char \<Rightarrow> bool" where
  "is_quote c \<longleftrightarrow> c = CHR 0x22 \<or> c = CHR 0x27"

text \<open>\<open>/\blang=["'](\w+)["']/i\<close>, searched from the left; \<open>w\<close>: is the unit before a word unit?\<close>

definition lang_here :: "string \<Rightarrow> string option" where
  "lang_here s =
     (if \<not> prefix_ci ''lang='' s then None
      else case drop 5 s of
          [] \<Rightarrow> None
        | q # r \<Rightarrow>
            if \<not> is_quote q then None
            else case dropWhile is_word r of
                [] \<Rightarrow> None
              | q' # _ \<Rightarrow> if is_quote q' \<and> takeWhile is_word r \<noteq> [] then Some (takeWhile is_word r) else None)"

fun find_lang :: "bool \<Rightarrow> string \<Rightarrow> string option" where
  "find_lang w [] = None"
| "find_lang w (c # cs) =
     (case (if w then None else lang_here (c # cs)) of
        Some l \<Rightarrow> Some l
      | None \<Rightarrow> find_lang (is_word c) cs)"

record vue_script =
  vs_scriptContent :: string
  vs_scriptStartCharacter :: nat
  vs_scriptStartLine :: nat
  vs_language :: string

definition extractScript :: "string \<Rightarrow> vue_script option" where
  "extractScript content =
     (case find_script content of
        None \<Rightarrow> None
      | Some (before, tag, script) \<Rightarrow>
          let matched = tag @ script @ take 9 (drop (length before + length tag + length script) content);
              scriptStartCharacter = length before + length (takeWhile (\<lambda>c. c \<noteq> CHR ''>'') matched) + 1
          in Some \<lparr>vs_scriptContent = script,
                   vs_scriptStartCharacter = scriptStartCharacter,
                   vs_scriptStartLine = length (split_on newline (take scriptStartCharacter content)) - 1,
                   vs_language = or_else (find_lang False matched) ''js''\<rparr>)"

text \<open>The cursor in the script, as \<open>#getIntent\<close> of \<open>suggestion_service.ts\<close> computes it.\<close>

definition vue_position :: "position \<Rightarrow> vue_script \<Rightarrow> ts_point" where
  "vue_position p v =
     \<lparr>pt_row = int (pos_line p) - int (vs_scriptStartLine v),
      pt_column = int (pos_character p) - int (vs_scriptStartCharacter v)\<rparr>"

subsection \<open>Lemmas\<close>

lemma getLastComment_None [simp]: "getLastComment cs = None \<longleftrightarrow> cs = []"
  by (auto simp: getLastComment_def split: list.splits) (metis length_sort list.size(3) length_0_conv)

lemma getLastComment_max:
  assumes "getLastComment cs = Some c"
  shows "c \<in> set cs \<and> (\<forall>d \<in> set cs. end_row d \<le> end_row c)"
proof -
  from assms obtain ds where s: "sort_key (\<lambda>c. - end_row c) cs = c # ds"
    by (auto simp: getLastComment_def split: list.splits)
  have "sorted (map (\<lambda>c. - end_row c) (c # ds))"
    using sorted_sort_key [of "\<lambda>c. - end_row c" cs] by (simp only: s)
  moreover have "set cs = set (c # ds)" by (metis s set_sort)
  ultimately show ?thesis by auto
qed

lemma comment_rows_Union: "comment_rows cs = (\<Union>c \<in> set cs. {start_row c .. end_row c})"
proof -
  have "fold (\<lambda>c rows. rows \<union> {start_row c .. end_row c}) cs A = A \<union> (\<Union>c \<in> set cs. {start_row c .. end_row c})"
    for A by (induction cs arbitrary: A) auto
  then show ?thesis by (simp add: comment_rows_def)
qed

lemma until_close_append: "until_close s = Some t \<Longrightarrow> \<exists>u. s = t @ u \<and> prefix_ci ''</script>'' u"
  by (induction s arbitrary: t) (auto split: if_splits)

lemma after_open_tag_app:
  assumes "after_open_tag s = Some r"
  shows "\<exists>t. s = t @ [CHR ''>''] @ r \<and> CHR ''>'' \<notin> set t"
proof -
  from assms have p: "prefix_ci ''<script'' s" by (auto simp: after_open_tag_def split: if_splits)
  have "CHR ''>'' \<notin> set (take 7 s)"
  proof
    assume "CHR ''>'' \<in> set (take 7 s)"
    then have "char_lower (CHR ''>'') \<in> set (take 7 (to_lower s))"
      unfolding to_lower_def take_map set_map by (rule imageI)
    moreover have "take 7 (to_lower s) = ''<script''"
      using p by (auto simp: prefix_ci_def prefix_def)
    ultimately show False by (simp add: char_lower_def Let_def)
  qed
  note no = this
  obtain c cs where d: "drop 7 s = c # cs"
    using assms by (auto simp: after_open_tag_def split: if_splits list.splits)
  have s: "s = take 7 s @ c # cs" using d by (metis append_take_drop_id)
  show ?thesis
  proof (cases "c = CHR ''>''")
    case True
    with assms d p have "r = cs" by (simp add: after_open_tag_def)
    with s True no show ?thesis by (intro exI [of _ "take 7 s"]) auto
  next
    case False
    with assms d p obtain ds where ds: "dropWhile (\<lambda>d. d \<noteq> CHR ''>'') cs = CHR ''>'' # r" "ds = r"
      by (auto simp: after_open_tag_def split: if_splits list.splits dest: dropWhile_eq_Cons_conv [THEN iffD1])
    have "cs = takeWhile (\<lambda>d. d \<noteq> CHR ''>'') cs @ CHR ''>'' # r"
      by (metis ds(1) takeWhile_dropWhile_id)
    moreover have "CHR ''>'' \<notin> set (takeWhile (\<lambda>d. d \<noteq> CHR ''>'') cs)"
      by (auto dest: set_takeWhileD)
    ultimately show ?thesis using s no False
      by (intro exI [of _ "take 7 s @ c # takeWhile (\<lambda>d. d \<noteq> CHR ''>'') cs"]) auto
  qed
qed

lemma find_script_app:
  "find_script s = Some (before, tag, script) \<Longrightarrow>
   \<exists>t u. tag = t @ [CHR ''>''] \<and> CHR ''>'' \<notin> set t \<and> s = before @ tag @ script @ u \<and> prefix_ci ''</script>'' u"
proof (induction s arbitrary: before)
  case Nil
  then show ?case by simp
next
  case (Cons c cs)
  show ?case
  proof (cases "Option.bind (after_open_tag (c # cs)) until_close")
    case None
    with Cons.prems obtain b where "find_script cs = Some (b, tag, script)" "before = c # b"
      by (auto split: prod.splits)
    with Cons.IH show ?thesis by fastforce
  next
    case (Some x)
    then obtain r where r: "after_open_tag (c # cs) = Some r" "until_close r = Some x"
      by (auto simp: bind_eq_Some_conv)
    obtain t where t: "c # cs = t @ [CHR ''>''] @ r" "CHR ''>'' \<notin> set t"
      using after_open_tag_app [OF r(1)] by blast
    obtain u where u: "r = x @ u" "prefix_ci ''</script>'' u" using until_close_append [OF r(2)] by blast
    have "length (c # cs) - length r = length t + 1" by (simp only: t(1)) simp
    then have "take (length (c # cs) - length r) (c # cs) = t @ [CHR ''>'']" by (simp only: t(1)) simp
    with Cons.prems Some r have "before = []" "tag = t @ [CHR ''>'']" "script = x" by auto
    with t u show ?thesis by auto
  qed
qed

subsection \<open>Properties\<close>

text \<open>The comment above the cursor that starts a generation is the right one: when the intent comes from
  a comment, that comment is one of the captures, ends above the cursor, ends last among the comments
  above the cursor, has more than two letters or digits, lies in the node the cursor is in, and no sibling
  starts between the two.\<close>

theorem generation_comment:
  assumes "getIntent tr cursor p q = r" and "ir_commentForCursor r = Some c"
  shows "ir_intent r = Some Generation \<and> ir_generationType r = Some Gen_comment \<and> \<not> isCommentEmpty c \<and>
    (\<exists>cs parent children. tr_comments tr = Some cs \<and> c \<in> set cs \<and> end_row c < pt_row cursor \<and>
       (\<forall>d \<in> set cs. end_row d < pt_row cursor \<longrightarrow> end_row d \<le> end_row c) \<and>
       tn_parent c = Some (parent, children) \<and> isPositionInNode cursor parent \<and>
       (\<forall>s \<in> set children. pt_row (sp_start s) \<le> end_row c \<or> pt_row cursor < pt_row (sp_start s)))"
proof -
  from assms have g: "getCommentForCursor (tr_comments tr) cursor = Some (Comment_above_cursor c)"
    and r: "\<not> isCommentEmpty c" "ir_intent r = Some Generation" "ir_generationType r = Some Gen_comment"
    by (auto simp: getIntent_def split: option.splits comment_resolution.splits if_splits)
  from g obtain cs parent children where cs: "tr_comments tr = Some cs"
    "getCommentAboveCursor cs cursor = Some c" "tn_parent c = Some (parent, children)"
    "isPositionInNode cursor parent"
    "\<forall>s \<in> set children. \<not> (pt_row (sp_start s) > end_row c \<and> pt_row (sp_start s) \<le> pt_row cursor)"
    by (auto simp: getCommentForCursor_def list_ex_iff split: option.splits if_splits)
  from getLastComment_max [OF cs(2) [unfolded getCommentAboveCursor_def]]
  have "c \<in> set cs \<and> end_row c < pt_row cursor \<and>
      (\<forall>d \<in> set cs. end_row d < pt_row cursor \<longrightarrow> end_row d \<le> end_row c)" by simp
  with r cs show ?thesis by (auto simp: not_less not_le)
qed

definition demo_comment :: ts_node where
  "demo_comment =
     \<lparr>tn_span = \<lparr>sp_start = \<lparr>pt_row = 0, pt_column = 0\<rparr>, sp_end = \<lparr>pt_row = 0, pt_column = 9\<rparr>\<rparr>,
      tn_text = ''// a sum'',
      tn_parent = Some (\<lparr>sp_start = \<lparr>pt_row = 0, pt_column = 0\<rparr>, sp_end = \<lparr>pt_row = 5, pt_column = 0\<rparr>\<rparr>, []),
      tn_emptyBodyStart = None, tn_emptyBodyEnd = None, tn_bodyChildCount = None\<rparr>"

definition demo_tree :: tree_captures where
  "demo_tree = \<lparr>tr_languageName = ''go'', tr_comments = Some [demo_comment], tr_functions = None, tr_python = []\<rparr>"

lemma demo_intent:
  "ir_commentForCursor (getIntent demo_tree \<lparr>pt_row = 1, pt_column = 0\<rparr> [] []) = Some demo_comment"
  by (simp add: getIntent_def getCommentForCursor_def getCommentAtCursor_def getCommentAboveCursor_def
      getLastComment_def isPositionInNode_def demo_tree_def demo_comment_def isCommentEmpty_def
      trim_def trim_end_def trim_start_def is_ws_def is_alphanumeric_def Let_def)

theorem generation_comment_witness:
  "ir_generationType (getIntent demo_tree \<lparr>pt_row = 1, pt_column = 0\<rparr> [] []) = Some Gen_comment"
  using generation_comment [OF refl demo_intent] by simp

text \<open>The script of a Vue file is found where it is said to be: the content is the text at the returned
  offset, right after the first \<open>>\<close> of the tag and up to a closing tag, and the returned line is the number of
  line breaks before it.\<close>

theorem vue_script_located:
  assumes "extractScript content = Some v"
  shows "\<exists>before after. content = before @ vs_scriptContent v @ after \<and>
    length before = vs_scriptStartCharacter v \<and> prefix_ci ''</script>'' after \<and>
    last before = CHR ''>'' \<and>
    Suc (vs_scriptStartLine v) = length (split_on newline before)"
proof -
  from assms obtain b tag script where f: "find_script content = Some (b, tag, script)"
    by (auto simp: extractScript_def split: option.splits)
  from find_script_app [OF f] obtain t u where tag: "tag = t @ [CHR ''>'']" "CHR ''>'' \<notin> set t"
    and c: "content = b @ tag @ script @ u" and u: "prefix_ci ''</script>'' u"
    by blast
  have "takeWhile (\<lambda>x. x \<noteq> CHR ''>'') (tag @ y) = t" for y
    using tag by (simp add: takeWhile_append2) (subst takeWhile_append2, auto)
  then have n: "vs_scriptStartCharacter v = length b + length tag" "vs_scriptContent v = script"
    and l: "vs_scriptStartLine v = length (split_on newline (take (length b + length tag) content)) - 1"
    using assms f tag(1) by (auto simp: extractScript_def Let_def)
  have "take (length b + length tag) content = b @ tag" by (simp add: c)
  with l have "vs_scriptStartLine v = length (split_on newline (b @ tag)) - 1" by simp
  moreover have "length (split_on newline (b @ tag)) > 0" by simp
  ultimately have "Suc (vs_scriptStartLine v) = length (split_on newline (b @ tag))" by linarith
  with n c u tag show ?thesis by (intro exI [of _ "b @ tag"] exI [of _ u]) simp
qed

definition demo_vue :: string where
  "demo_vue = ''<script lang='' @ [CHR 0x22] @ ''ts'' @ [CHR 0x22] @ ''>'' @ [newline] @ ''x</script>''"

lemma demo_vue_script:
  "extractScript demo_vue =
     Some \<lparr>vs_scriptContent = [newline] @ ''x'', vs_scriptStartCharacter = 18, vs_scriptStartLine = 0,
           vs_language = ''ts''\<rparr>"
  by code_simp

theorem vue_script_located_witness:
  "\<exists>before after. demo_vue = before @ ([newline] @ ''x'') @ after \<and> length before = 18"
  using vue_script_located [OF demo_vue_script] by auto

text \<open>The column that \<open>#getIntent\<close> passes on subtracts the offset of the script in the document, also for
  a cursor on a later line: the second column of the second line becomes column \<open>-17\<close>.\<close>

theorem vue_column_off:
  "vue_position \<lparr>pos_line = 1, pos_character = 1\<rparr> (the (extractScript demo_vue)) =
     \<lparr>pt_row = 1, pt_column = -17\<rparr>"
  by (simp add: demo_vue_script vue_position_def)

end
