(* ===== verification/Suggestion_Service.thy ===== *)
theory Suggestion_Service
  imports Suggestion_Filter Streaming_Handler Document_Context Intent
begin

text \<open>
  The suggestion service (\<open>src/common/suggestion/suggestion_service.ts\<close>): from a completion request of
  the client to the list of options, through the document context, the suggestions cache, the debounce,
  the intent, a stream or the client pipeline, the post-processors and the tracker.

  The state holds the cache, the supplies of tracking and stream ids, the state \<open>'c\<close> of the suggestion
  clients, the streams scheduled by \<open>setTimeout\<close> and the log of what the service tells the tracker, the
  circuit breaker and the error handler.  The record \<open>service_env\<close> holds what the other components
  answer while one request runs (configuration, flags, circuit breaker, cancellation, parsers,
  post-processors); each of them is a component or a package of its own.
\<close>

subsection \<open>State and environment\<close>

datatype service_out =
    Track_context string context_update
  | Track_event tracking_event string
  | Breaker_error
  | Breaker_success
  | Error_handled string

record 'c service_state =
  v_cache :: cache_map
  v_ids :: nat
  v_streams :: nat
  v_client :: 'c
  v_scheduled :: "start_params list"
  v_out :: "service_out list"

record 'c service_env =
  ve_documents :: "string \<Rightarrow> text_document option"
  ve_transformers :: "(doc_context \<Rightarrow> js_error + doc_context) list"
  ve_workspaceFolders :: "workspace_folder list option"
  ve_cacheOptions :: "cache_options option"
  ve_lru :: "cache_map \<Rightarrow> cache_map"
  ve_uuid :: "nat \<Rightarrow> string"
  ve_streamName :: "nat \<Rightarrow> string"
  ve_breakerOpen :: bool
  ve_token :: "string option"
  ve_projectPath :: "string option"
  ve_telemetryActions :: "tracking_event list option"
  ve_cancelledAfterDebounce :: bool
  ve_cancelledAtEnd :: bool
  ve_streamFlag :: bool
  ve_parseFile :: "doc_context \<Rightarrow> client_error + tree_captures option"
  ve_parseContent :: "string \<Rightarrow> string \<Rightarrow> client_error + tree_captures option"
  ve_additionalContexts :: "doc_context \<Rightarrow> additional_context list"
  ve_projectPathOf :: "string \<Rightarrow> workspace_folder \<Rightarrow> string option"
  ve_pipeline :: "'c client"
  ve_post :: "doc_context \<Rightarrow> suggestion_option list \<Rightarrow> client_error + suggestion_option list"

record completion_request =
  cq_uri :: string
  cq_position :: position
  cq_context :: "inline_context option"

definition v_log :: "service_out list \<Rightarrow> 'c service_state \<Rightarrow> 'c service_state" where
  "v_log outs s = s\<lparr>v_out := v_out s @ outs\<rparr>"

definition newTrackingId :: "'c service_env \<Rightarrow> 'c service_state \<Rightarrow> string \<times> 'c service_state" where
  "newTrackingId env s = (ve_uuid env (v_ids s), s\<lparr>v_ids := v_ids s + 1\<rparr>)"

definition triggerKind :: "completion_request \<Rightarrow> trigger_kind option" where
  "triggerKind request = map_option ic_triggerKind (cq_context request)"

definition trackShowIfNeeded :: "'c service_env \<Rightarrow> string \<Rightarrow> 'c service_state \<Rightarrow> 'c service_state" where
  "trackShowIfNeeded env i s =
     (if canClientTrackEvent (or_else (ve_telemetryActions env) []) SHOWN then s
      else v_log [Track_event SHOWN i] s)"

subsection \<open>Suggestions of the clients\<close>

text \<open>The checks before anything is tracked or sent.\<close>

definition request_admitted :: "'c service_env \<Rightarrow> doc_context \<Rightarrow> bool" where
  "request_admitted env ctx \<longleftrightarrow>
     \<not> ve_breakerOpen env \<and> (ve_token env \<noteq> None \<and> ve_token env \<noteq> Some []) \<and>
     \<not> length (dc_prefix ctx) + length (dc_suffix ctx) < 10 \<and>
     isAtOrNearEndOfLine (dc_suffix ctx)"

definition optionsCount :: "completion_request \<Rightarrow> nat" where
  "optionsCount request = (if triggerKind request = Some Invoked then MANUAL_REQUEST_OPTIONS_COUNT else 1)"

definition response_update :: "suggestion_response option \<Rightarrow> context_update" where
  "response_update resp =
     no_update\<lparr>cu_model := Option.bind resp sr_model, cu_status := map_option sr_status resp,
       cu_optionsCount := map_option length (Option.bind resp sr_choices),
       cu_isDirectConnection := Option.bind resp sr_isDirectConnection\<rparr>"

definition notProvided :: "suggestion_response option \<Rightarrow> bool" where
  "notProvided resp \<longleftrightarrow> list_all (\<lambda>text. text = []) (or_else (Option.bind resp sr_choices) [])"

definition options_of :: "string \<Rightarrow> suggestion_response option \<Rightarrow> suggestion_option list" where
  "options_of i resp =
     map (\<lambda>(text, index). \<lparr>so_index = Some index, so_text = text, so_uniqueTrackingId = i,
            so_model = Option.bind resp sr_model\<rparr>)
       (let choices = or_else (Option.bind resp sr_choices) [] in zip choices [0..<length choices])"

definition cache_request_of :: "completion_request \<Rightarrow> doc_context \<Rightarrow> additional_context list option \<Rightarrow> cache_request" where
  "cache_request_of request ctx contexts =
     \<lparr>cr_document_uri = cq_uri request, cr_context = ctx, cr_position = cq_position request,
      cr_additionalContexts = contexts\<rparr>"

text \<open>\<open>#getSuggestions\<close> once the clients have answered.  The boolean of the result says whether the
  returned list is the very array that was put into the cache.\<close>

definition suggestions_answered ::
  "'c service_env \<Rightarrow> completion_request \<Rightarrow> string \<Rightarrow> doc_context \<Rightarrow> additional_context list option \<Rightarrow>
   suggestion_response option \<Rightarrow> 'c service_state \<Rightarrow>
   (client_error + suggestion_option list \<times> bool) \<times> 'c service_state" where
  "suggestions_answered env request i ctx contexts resp s =
     (let s1 = v_log [Track_context i (response_update resp)] s in
      case Option.bind resp sr_error of
        Some (c # msg) \<Rightarrow> (Inl (Js_error (c # msg)), s1)
      | _ \<Rightarrow>
          let s2 = v_log [Track_event LOADED i, Breaker_success] s1;
              suggestionOptions = options_of i resp
          in case ve_post env ctx suggestionOptions of
               Inl e \<Rightarrow> (Inl e, s2)
             | Inr processed \<Rightarrow>
                 let s3 = s2\<lparr>v_cache := sc_addToSuggestionCache (ve_lru env) (ve_cacheOptions env)
                                 (cache_request_of request ctx contexts) processed (v_cache s2)\<rparr>
                 in if ve_cancelledAtEnd env then (Inr ([], False), v_log [Track_event CANCELLED i] s3)
                    else if notProvided resp then (Inr ([], False), v_log [Track_event NOT_PROVIDED i] s3)
                    else
                      (Inr (processed, True),
                       trackShowIfNeeded env i
                         (v_log [Track_context i (no_update\<lparr>cu_suggestionOptions := Some suggestionOptions\<rparr>)] s3)))"

definition v_getSuggestions ::
  "'c service_env \<Rightarrow> completion_request \<Rightarrow> string \<Rightarrow> doc_context \<Rightarrow> additional_context list option \<Rightarrow>
   'c service_state \<Rightarrow> (client_error + suggestion_option list \<times> bool) \<times> 'c service_state" where
  "v_getSuggestions env request i ctx contexts s =
     (if \<not> request_admitted env ctx then (Inr ([], False), s)
      else
        let s1 = v_log [Track_context i (no_update\<lparr>cu_documentContext := Some ctx,
                          cu_triggerKind := triggerKind request, cu_additionalContexts := contexts\<rparr>)] s;
            (resp, c) = ve_pipeline env
              \<lparr>sctx_document = ctx, sctx_intent = None, sctx_projectPath = ve_projectPath env,
               sctx_optionsCount = Some (optionsCount request), sctx_additionalContexts = contexts\<rparr> (v_client s1);
            s2 = s1\<lparr>v_client := c\<rparr>
        in case resp of
             Inl e \<Rightarrow> (Inl e, s2)
           | Inr r \<Rightarrow> suggestions_answered env request i ctx contexts r s2)"

definition handleNonStreaming ::
  "'c service_env \<Rightarrow> completion_request \<Rightarrow> doc_context \<Rightarrow> additional_context list option \<Rightarrow>
   'c service_state \<Rightarrow> (suggestion_option list \<times> bool) \<times> 'c service_state" where
  "handleNonStreaming env request ctx contexts s =
     (let (i, s1) = newTrackingId env s in
      case v_getSuggestions env request i ctx contexts s1 of
        (Inr r, s2) \<Rightarrow> (r, s2)
      | (Inl e, s2) \<Rightarrow>
          let s3 = (case e of
                      Fetch_error status \<Rightarrow> v_log [Track_context i (status_update status)] s2
                    | Js_error m \<Rightarrow> s2)
          in (([], False),
              v_log [Track_event ERRORED i, Breaker_error, Error_handled ''Failed to get code suggestions!''] s3))"

subsection \<open>Streams and intents\<close>

definition handleStreaming ::
  "'c service_env \<Rightarrow> doc_context \<Rightarrow> string option \<Rightarrow> generation_type option \<Rightarrow>
   additional_context list \<Rightarrow> 'c service_state \<Rightarrow> option_or_stream list \<times> 'c service_state" where
  "handleStreaming env ctx userInstruction generationType contexts s =
     (if ve_breakerOpen env then ([], s)
      else
        let path = (case dc_workspaceFolder ctx of
                      None \<Rightarrow> None | Some w \<Rightarrow> ve_projectPathOf env (dc_uri ctx) w);
            streamId = ve_streamName env (v_streams s);
            (i, s1) = newTrackingId env (s\<lparr>v_streams := v_streams s + 1\<rparr>)
        in ([Start_stream streamId i],
            s1\<lparr>v_scheduled := v_scheduled s1 @
                 [\<lparr>sp_streamId = streamId, sp_uniqueTrackingId = i, sp_documentContext = ctx,
                   sp_userInstruction = userInstruction, sp_generationType = generationType,
                   sp_additionalContexts = Some contexts, sp_contextProjectPath = path\<rparr>]\<rparr>))"

text \<open>\<open>#getIntent\<close>: a failing parser is reported and means no intent.\<close>

definition v_getIntent ::
  "'c service_env \<Rightarrow> doc_context \<Rightarrow> 'c service_state \<Rightarrow> intent_resolution option \<times> 'c service_state" where
  "v_getIntent env ctx s =
     (if dc_languageId ctx = ''vue''
      then case extractScript (dc_prefix ctx @ dc_suffix ctx) of
             None \<Rightarrow> (None, s)
           | Some v \<Rightarrow>
               (case ve_parseContent env (vs_scriptContent v) (vs_language v) of
                  Inl e \<Rightarrow> (None, v_log [Error_handled ''Failed to parse with tree sitter''] s)
                | Inr None \<Rightarrow> (None, s)
                | Inr (Some tr) \<Rightarrow>
                    (Some (getIntent tr (vue_position (dc_position ctx) v) (dc_prefix ctx) (dc_suffix ctx)), s))
      else case ve_parseFile env ctx of
             Inl e \<Rightarrow> (None, v_log [Error_handled ''Failed to parse with tree sitter''] s)
           | Inr None \<Rightarrow> (None, s)
           | Inr (Some tr) \<Rightarrow>
               (Some (getIntent tr \<lparr>pt_row = int (pos_line (dc_position ctx)),
                                    pt_column = int (pos_character (dc_position ctx))\<rparr>
                        (dc_prefix ctx) (dc_suffix ctx)), s))"

subsection \<open>The cache\<close>

definition reindex :: "suggestion_option list \<Rightarrow> suggestion_option list" where
  "reindex options = map (\<lambda>(option, index). option\<lparr>so_index := Some index\<rparr>) (zip options [0..<length options])"

definition useAndTrackCachedSuggestions ::
  "'c service_env \<Rightarrow> completion_request \<Rightarrow> doc_context \<Rightarrow> 'c service_state \<Rightarrow>
   suggestion_option list option \<times> 'c service_state" where
  "useAndTrackCachedSuggestions env request ctx s =
     (let (res, n, m) = sc_getCachedSuggestions (ve_uuid env) (ve_lru env) (ve_cacheOptions env)
            (cache_request_of request ctx None) (v_ids s) (v_cache s);
          s1 = s\<lparr>v_ids := n, v_cache := m\<rparr>
      in case res of
           None \<Rightarrow> (None, s1)
         | Some r \<Rightarrow>
             (case cres_options r of
                [] \<Rightarrow> (None, s1)
              | first # _ \<Rightarrow>
                  let i = so_uniqueTrackingId first
                  in (Some (reindex (cres_options r)),
                      trackShowIfNeeded env i
                        (v_log [Track_context i
                           (no_update\<lparr>cu_documentContext := Some ctx, cu_source := Some Source_cache,
                              cu_triggerKind := triggerKind request,
                              cu_suggestionOptions := Some (cres_options r), cu_model := so_model first,
                              cu_additionalContexts := cres_additionalContexts r\<rparr>),
                         Track_event LOADED i] s1))))"

text \<open>\<open>options.unshift(...cached)\<close> writes to the array the cache entry shares.\<close>

definition unshift_cached ::
  "'c service_env \<Rightarrow> cache_request \<Rightarrow> bool \<Rightarrow> suggestion_option list \<Rightarrow> 'c service_state \<Rightarrow> 'c service_state" where
  "unshift_cached env creq shared cached s =
     (if \<not> shared \<or> \<not> cc_enabled (sc_getCurrentConfig (ve_cacheOptions env)) then s
      else let key = sc_getSuggestionKey (ve_cacheOptions env) creq
           in case map_get (v_cache s) key of
                None \<Rightarrow> s
              | Some e \<Rightarrow> s\<lparr>v_cache := map_set key (e\<lparr>ce_suggestions := cached @ ce_suggestions e\<rparr>) (v_cache s)\<rparr>)"

subsection \<open>Requests\<close>

text \<open>A manual request always asks the clients and puts the cached options first.\<close>

definition manual_request ::
  "'c service_env \<Rightarrow> completion_request \<Rightarrow> doc_context \<Rightarrow> suggestion_option list option \<Rightarrow>
   'c service_state \<Rightarrow> suggestion_option list \<times> 'c service_state" where
  "manual_request env request ctx cached s =
     (let ((fetched, shared), s1) = handleNonStreaming env request ctx None s;
          cs = or_else cached [];
          s2 = unshift_cached env (cache_request_of request ctx None) shared cs s1;
          options = cs @ fetched
      in (options,
          v_log (map (\<lambda>c. Track_context (so_uniqueTrackingId c)
                   (no_update\<lparr>cu_optionsCount := Some (length options), cu_suggestionOptions := cached\<rparr>)) cs) s2))"

text \<open>An automatic request after the cache had nothing and the debounce passed.\<close>

definition automatic_request ::
  "'c service_env \<Rightarrow> completion_request \<Rightarrow> doc_context \<Rightarrow> 'c service_state \<Rightarrow>
   option_or_stream list \<times> 'c service_state" where
  "automatic_request env request ctx s =
     (if ve_cancelledAfterDebounce env then ([], s)
      else if (case cq_context request of
                 None \<Rightarrow> False
               | Some c \<Rightarrow> shouldRejectCompletion c (map_option td_getText (ve_documents env (cq_uri request))))
      then ([], s)
      else
        let contexts = ve_additionalContexts env ctx;
            (resolution, s1) = (if cq_context request \<noteq> None \<and> ve_streamFlag env
                                then v_getIntent env ctx s else (None, s))
        in if Option.bind resolution ir_intent = Some Generation
           then handleStreaming env ctx
                  (map_option tn_text (Option.bind resolution ir_commentForCursor))
                  (Option.bind resolution ir_generationType) contexts s1
           else
             let ((fetched, shared), s2) = handleNonStreaming env request ctx (Some contexts) s1
             in (map Suggestion fetched, s2))"

definition v_getSuggestionOptions ::
  "'c service_env \<Rightarrow> completion_request \<Rightarrow> 'c service_state \<Rightarrow>
   (js_error + option_or_stream list) \<times> 'c service_state" where
  "v_getSuggestionOptions env request s =
     (case dts_getContext (ve_documents env) (ve_transformers env) (cq_uri request) (cq_position request)
             (or_else (ve_workspaceFolders env) []) (cq_context request) of
        Inl e \<Rightarrow> (Inl e, s)
      | Inr None \<Rightarrow> (Inr [], s)
      | Inr (Some ctx) \<Rightarrow>
          let (cached, s1) = useAndTrackCachedSuggestions env request ctx s
          in if triggerKind request = Some Invoked
             then apfst (\<lambda>os. Inr (map Suggestion os)) (manual_request env request ctx cached s1)
             else (case cached of
                     Some cs \<Rightarrow> (Inr (map Suggestion cs), s1)
                   | None \<Rightarrow> apfst Inr (automatic_request env request ctx s1)))"

definition text_options :: "option_or_stream list \<Rightarrow> suggestion_option list" where
  "text_options options =
     List.map_filter (\<lambda>opt. case opt of Suggestion s \<Rightarrow> if isTextSuggestion opt then Some s else None
                                     | Start_stream a b \<Rightarrow> None) options"

definition completionHandler ::
  "'c service_env \<Rightarrow> string \<Rightarrow> position \<Rightarrow> 'c service_state \<Rightarrow>
   (js_error + completion_item list) \<times> 'c service_state" where
  "completionHandler env uri pos s =
     apfst (map_sum id (\<lambda>os. completionOptionMapper (text_options os)))
       (v_getSuggestionOptions env \<lparr>cq_uri = uri, cq_position = pos, cq_context = None\<rparr> s)"

definition inlineCompletionHandler ::
  "'c service_env \<Rightarrow> string \<Rightarrow> position \<Rightarrow> inline_context \<Rightarrow> 'c service_state \<Rightarrow>
   (js_error + inline_item list) \<times> 'c service_state" where
  "inlineCompletionHandler env uri pos context s =
     apfst (map_sum id (inlineCompletionOptionMapper pos context))
       (v_getSuggestionOptions env \<lparr>cq_uri = uri, cq_position = pos, cq_context = Some context\<rparr> s)"

subsection \<open>The events of one request\<close>

fun event_of :: "string \<Rightarrow> service_out \<Rightarrow> tracking_event option" where
  "event_of i (Track_event e j) = (if j = i then Some e else None)"
| "event_of i _ = None"

definition events_of :: "string \<Rightarrow> service_out list \<Rightarrow> tracking_event list" where
  "events_of i outs = List.map_filter (event_of i) outs"

lemma events_of_simps [simp]:
  "events_of i [] = []"
  "events_of i (x # xs) = (case event_of i x of None \<Rightarrow> events_of i xs | Some e \<Rightarrow> e # events_of i xs)"
  "events_of i (xs @ ys) = events_of i xs @ events_of i ys"
  by (auto simp: events_of_def List.map_filter_def split: option.splits)

text \<open>What a part of the service appends to its log.\<close>

definition logs :: "'c service_state \<Rightarrow> 'c service_state \<Rightarrow> service_out list" where
  "logs s s' = drop (length (v_out s)) (v_out s')"

lemma v_log_frame [simp]:
  "v_cache (v_log outs s) = v_cache s" "v_ids (v_log outs s) = v_ids s" "v_client (v_log outs s) = v_client s"
  "v_scheduled (v_log outs s) = v_scheduled s" "v_out (v_log outs s) = v_out s @ outs"
  by (simp_all add: v_log_def)

lemma trackShow_frame [simp]:
  "v_cache (trackShowIfNeeded env i s) = v_cache s" "v_ids (trackShowIfNeeded env i s) = v_ids s"
  "v_client (trackShowIfNeeded env i s) = v_client s"
  "v_scheduled (trackShowIfNeeded env i s) = v_scheduled s"
  by (simp_all add: trackShowIfNeeded_def)

lemma trackShow_out:
  "v_out (trackShowIfNeeded env i s) =
     v_out s @ (if canClientTrackEvent (or_else (ve_telemetryActions env) []) SHOWN then [] else [Track_event SHOWN i])"
  by (simp add: trackShowIfNeeded_def)

text \<open>The log of an answered request, with what its end was.\<close>

lemma suggestions_answered_out:
  assumes "suggestions_answered env request i ctx contexts resp s = (r, s')"
  shows "\<exists>outs. v_out s' = v_out s @ outs \<and>
    (case r of
       Inl e \<Rightarrow> events_of i outs = [] \<or>
         events_of i outs = [LOADED] \<and> ve_post env ctx (options_of i resp) = Inl e
     | Inr x \<Rightarrow> events_of i outs \<in> {[LOADED], [LOADED, SHOWN], [LOADED, CANCELLED], [LOADED, NOT_PROVIDED]})"
  using assms
  by (auto simp: suggestions_answered_def trackShow_out Let_def
      split: option.splits list.splits sum.splits if_splits)

lemma v_getSuggestions_out:
  assumes "v_getSuggestions env request i ctx contexts s = (r, s')"
  shows "\<exists>outs. v_out s' = v_out s @ outs \<and>
    (case r of
       Inl e \<Rightarrow> events_of i outs = [] \<or>
         events_of i outs = [LOADED] \<and> (\<exists>os. ve_post env ctx os = Inl e)
     | Inr x \<Rightarrow> events_of i outs \<in> {[], [LOADED], [LOADED, SHOWN], [LOADED, CANCELLED], [LOADED, NOT_PROVIDED]})"
proof (cases "request_admitted env ctx")
  case False
  with assms show ?thesis by (auto simp: v_getSuggestions_def)
next
  case True
  define s1 where "s1 = v_log [Track_context i (no_update\<lparr>cu_documentContext := Some ctx,
                          cu_triggerKind := triggerKind request, cu_additionalContexts := contexts\<rparr>)] s"
  obtain resp c where rc: "ve_pipeline env
              \<lparr>sctx_document = ctx, sctx_intent = None, sctx_projectPath = ve_projectPath env,
               sctx_optionsCount = Some (optionsCount request), sctx_additionalContexts = contexts\<rparr> (v_client s1)
      = (resp, c)" by fastforce
  have out1: "v_out (s1\<lparr>v_client := c\<rparr>) = v_out s @ [Track_context i (no_update\<lparr>cu_documentContext := Some ctx,
                          cu_triggerKind := triggerKind request, cu_additionalContexts := contexts\<rparr>)]"
    by (simp add: s1_def)
  have eq: "v_getSuggestions env request i ctx contexts s =
      (case resp of Inl e \<Rightarrow> (Inl e, s1\<lparr>v_client := c\<rparr>)
       | Inr r \<Rightarrow> suggestions_answered env request i ctx contexts r (s1\<lparr>v_client := c\<rparr>))"
    using True rc by (simp add: v_getSuggestions_def s1_def [symmetric] Let_def)
  show ?thesis
  proof (cases resp)
    case (Inl e)
    with assms eq out1 show ?thesis by auto
  next
    case (Inr x)
    with assms eq have a: "suggestions_answered env request i ctx contexts x (s1\<lparr>v_client := c\<rparr>) = (r, s')" by simp
    from suggestions_answered_out [OF a] out1 show ?thesis
      by (cases r) auto
  qed
qed

lemma handleNonStreaming_out:
  "\<exists>outs. v_out (snd (handleNonStreaming env request ctx contexts s)) = v_out s @ outs \<and>
    (events_of (ve_uuid env (v_ids s)) outs
       \<in> {[], [ERRORED], [LOADED], [LOADED, SHOWN], [LOADED, CANCELLED], [LOADED, NOT_PROVIDED]} \<or>
     events_of (ve_uuid env (v_ids s)) outs = [LOADED, ERRORED] \<and> (\<exists>os e. ve_post env ctx os = Inl e))"
proof -
  let ?i = "ve_uuid env (v_ids s)"
  obtain r s2 where g: "v_getSuggestions env request ?i ctx contexts (s\<lparr>v_ids := v_ids s + 1\<rparr>) = (r, s2)"
    by fastforce
  from v_getSuggestions_out [OF g] obtain outs where o: "v_out s2 = v_out s @ outs"
    "case r of
       Inl e \<Rightarrow> events_of ?i outs = [] \<or> events_of ?i outs = [LOADED] \<and> (\<exists>os. ve_post env ctx os = Inl e)
     | Inr x \<Rightarrow> events_of ?i outs \<in> {[], [LOADED], [LOADED, SHOWN], [LOADED, CANCELLED], [LOADED, NOT_PROVIDED]}"
    by auto
  show ?thesis
  proof (cases r)
    case (Inr x)
    with o g show ?thesis by (auto simp: handleNonStreaming_def newTrackingId_def)
  next
    case (Inl e)
    with o g show ?thesis
      by (cases e) (auto simp: handleNonStreaming_def newTrackingId_def Let_def)
  qed
qed

lemma run_requested:
  "track_run i False [ERRORED] [(i, REQUESTED)] = ([ERRORED], [(i, ERRORED)])"
  "fst (track_run i False [LOADED] [(i, REQUESTED)]) = [LOADED]"
  "fst (track_run i False [LOADED, SHOWN] [(i, REQUESTED)]) = [LOADED, SHOWN]"
  "fst (track_run i False [LOADED, CANCELLED] [(i, REQUESTED)]) = [LOADED, CANCELLED]"
  "fst (track_run i False [LOADED, NOT_PROVIDED] [(i, REQUESTED)]) = [LOADED, NOT_PROVIDED]"
  "fst (track_run i False [LOADED, ERRORED] [(i, REQUESTED)]) = [LOADED]"
  by (simp_all add: canUpdateState_def updateSuggestionState_def graph_defs)

subsection \<open>Frames\<close>

lemma suggestions_answered_frame [frame_simps]:
  "v_client (snd (suggestions_answered env request i ctx contexts resp s)) = v_client s"
  "v_scheduled (snd (suggestions_answered env request i ctx contexts resp s)) = v_scheduled s"
  by (auto simp: suggestions_answered_def Let_def split: option.splits list.splits sum.splits)

lemma handleNonStreaming_open:
  assumes "ve_breakerOpen env"
  shows "handleNonStreaming env request ctx contexts s = (([], False), s\<lparr>v_ids := v_ids s + 1\<rparr>)"
  using assms by (simp add: handleNonStreaming_def newTrackingId_def v_getSuggestions_def request_admitted_def)

lemma v_getIntent_frame [frame_simps]:
  "v_client (snd (v_getIntent env ctx s)) = v_client s" "v_scheduled (snd (v_getIntent env ctx s)) = v_scheduled s"
  "v_cache (snd (v_getIntent env ctx s)) = v_cache s"
  by (auto simp: v_getIntent_def split: option.splits sum.splits)

lemma useCached_frame [frame_simps]:
  "v_client (snd (useAndTrackCachedSuggestions env request ctx s)) = v_client s"
  "v_scheduled (snd (useAndTrackCachedSuggestions env request ctx s)) = v_scheduled s"
  by (auto simp: useAndTrackCachedSuggestions_def Let_def split: prod.splits option.splits list.splits)

lemma unshift_frame [frame_simps]:
  "v_client (unshift_cached env c b cs s) = v_client s" "v_scheduled (unshift_cached env c b cs s) = v_scheduled s"
  by (auto simp: unshift_cached_def Let_def split: option.splits)

lemma manual_open:
  assumes "ve_breakerOpen env"
  shows "v_client (snd (manual_request env request ctx cached s)) = v_client s \<and>
    v_scheduled (snd (manual_request env request ctx cached s)) = v_scheduled s \<and>
    fst (manual_request env request ctx cached s) = or_else cached []"
  using assms by (simp add: manual_request_def handleNonStreaming_open frame_simps Let_def)

lemma automatic_open:
  assumes "ve_breakerOpen env"
  shows "v_client (snd (automatic_request env request ctx s)) = v_client s \<and>
    v_scheduled (snd (automatic_request env request ctx s)) = v_scheduled s \<and>
    fst (automatic_request env request ctx s) = []"
  using assms
  by (auto simp: automatic_request_def handleStreaming_def handleNonStreaming_open frame_simps Let_def
      split: prod.splits) (metis snd_conv v_getIntent_frame(1), metis snd_conv v_getIntent_frame(2))

subsection \<open>The streams a request schedules\<close>

lemma v_getSuggestions_scheduled [frame_simps]:
  "v_scheduled (snd (v_getSuggestions env request i ctx contexts s)) = v_scheduled s"
  by (simp add: v_getSuggestions_def Let_def frame_simps split: prod.splits sum.splits)

lemma handleNonStreaming_scheduled [frame_simps]:
  "v_scheduled (snd (handleNonStreaming env request ctx contexts s)) = v_scheduled s"
proof -
  obtain r s2 where g: "v_getSuggestions env request (ve_uuid env (v_ids s)) ctx contexts (s\<lparr>v_ids := v_ids s + 1\<rparr>) = (r, s2)"
    by fastforce
  with v_getSuggestions_scheduled [of env request "ve_uuid env (v_ids s)" ctx contexts "s\<lparr>v_ids := v_ids s + 1\<rparr>"]
  have "v_scheduled s2 = v_scheduled s" by simp
  with g show ?thesis
    by (cases r) (simp_all add: handleNonStreaming_def newTrackingId_def Let_def split: client_error.splits)
qed

definition streams_added ::
  "(start_params \<Rightarrow> bool) \<Rightarrow> 'c service_state \<Rightarrow> 'c service_state \<Rightarrow> bool" where
  "streams_added P s s' \<longleftrightarrow> (\<exists>ps. v_scheduled s' = v_scheduled s @ ps \<and> list_all P ps)"

lemma streams_added_refl: "v_scheduled s' = v_scheduled s \<Longrightarrow> streams_added P s s'"
  by (simp add: streams_added_def)

lemma handleStreaming_scheduled:
  "streams_added (\<lambda>p. sp_documentContext p = ctx \<and> sp_additionalContexts p = Some contexts) s
     (snd (handleStreaming env ctx ui gt contexts s))"
  by (simp add: streams_added_def handleStreaming_def newTrackingId_def Let_def)

lemma automatic_scheduled:
  "streams_added (\<lambda>p. sp_additionalContexts p = Some (ve_additionalContexts env (sp_documentContext p))) s
     (snd (automatic_request env request ctx s))"
proof -
  have stream: "streams_added (\<lambda>p. sp_additionalContexts p = Some (ve_additionalContexts env (sp_documentContext p))) s
      (snd (handleStreaming env ctx ui gt (ve_additionalContexts env ctx) s1))"
    if "v_scheduled s1 = v_scheduled s" for ui gt s1
    using handleStreaming_scheduled [of ctx "ve_additionalContexts env ctx" s1 env ui gt] that
    by (auto simp: streams_added_def list_all_iff)
  define stage where "stage = (if cq_context request \<noteq> None \<and> ve_streamFlag env then v_getIntent env ctx s else (None, s))"
  obtain resolution s1 where st: "stage = (resolution, s1)" by fastforce
  have s1: "v_scheduled s1 = v_scheduled s"
    using st unfolding stage_def
    by (metis snd_conv v_getIntent_frame(2))
  obtain f sh s2 where ns: "handleNonStreaming env request ctx (Some (ve_additionalContexts env ctx)) s1 = ((f, sh), s2)"
    by (metis surj_pair)
  have s2: "v_scheduled s2 = v_scheduled s"
    using handleNonStreaming_scheduled [of env request ctx "Some (ve_additionalContexts env ctx)" s1] s1 ns by simp
  have "snd (automatic_request env request ctx s) = s \<or>
      snd (automatic_request env request ctx s) =
        snd (handleStreaming env ctx (map_option tn_text (Option.bind resolution ir_commentForCursor))
               (Option.bind resolution ir_generationType) (ve_additionalContexts env ctx) s1) \<or>
      snd (automatic_request env request ctx s) = s2"
    unfolding automatic_request_def stage_def [symmetric] Let_def st by (simp add: ns)
  with stream [OF s1] s2 show ?thesis
    by (metis streams_added_refl)
qed

text \<open>Every stream a request schedules carries the additional contexts of its document.\<close>

lemma scheduled_contexts:
  "streams_added (\<lambda>p. sp_additionalContexts p = Some (ve_additionalContexts env (sp_documentContext p))) s
     (snd (v_getSuggestionOptions env request s))"
proof (cases "dts_getContext (ve_documents env) (ve_transformers env) (cq_uri request) (cq_position request)
             (or_else (ve_workspaceFolders env) []) (cq_context request)")
  case (Inl e)
  then show ?thesis by (simp add: v_getSuggestionOptions_def streams_added_refl)
next
  case (Inr m)
  show ?thesis
  proof (cases m)
    case None
    with Inr show ?thesis by (simp add: v_getSuggestionOptions_def streams_added_refl)
  next
    case (Some ctx)
    obtain cached s1 where u: "useAndTrackCachedSuggestions env request ctx s = (cached, s1)" by fastforce
    have s1: "v_scheduled s1 = v_scheduled s"
      using useCached_frame(2) [of env request ctx s] u by simp
    have manual: "v_scheduled (snd (manual_request env request ctx cached s1)) = v_scheduled s"
    proof -
      obtain f sh s2 where ns: "handleNonStreaming env request ctx None s1 = ((f, sh), s2)"
        by (metis surj_pair)
      with handleNonStreaming_scheduled [of env request ctx None s1] s1 show ?thesis
        by (simp add: manual_request_def Let_def frame_simps)
    qed
    have auto: "streams_added (\<lambda>p. sp_additionalContexts p = Some (ve_additionalContexts env (sp_documentContext p))) s
        (snd (automatic_request env request ctx s1))"
      using automatic_scheduled [of env s1 request ctx] s1 by (simp add: streams_added_def)
    have "snd (v_getSuggestionOptions env request s) \<in>
        {snd (manual_request env request ctx cached s1), s1, snd (automatic_request env request ctx s1)}"
      using Inr Some u by (simp add: v_getSuggestionOptions_def Let_def snd_apfst split: option.splits)
    with manual auto s1 show ?thesis by (auto intro: streams_added_refl)
  qed
qed

subsection \<open>Properties\<close>

text \<open>The events the service reports for one request of the clients follow the protocol of the
  trackers: as long as the post-processors do not fail, the state graph of non-streaming suggestions
  accepts every event reported under the request's tracking id, in order, so that no tracker drops
  one, and the request ends with at most one of shown, cancelled, not provided or errored.\<close>

theorem request_events_accepted:
  assumes "\<And>os. \<exists>r. ve_post env ctx os = Inr r"
  shows "\<exists>outs. v_out (snd (handleNonStreaming env request ctx contexts s)) = v_out s @ outs \<and>
    fst (track_run i False (events_of (ve_uuid env (v_ids s)) outs) [(i, REQUESTED)]) =
      events_of (ve_uuid env (v_ids s)) outs"
proof -
  obtain outs where o: "v_out (snd (handleNonStreaming env request ctx contexts s)) = v_out s @ outs"
    "events_of (ve_uuid env (v_ids s)) outs
       \<in> {[], [ERRORED], [LOADED], [LOADED, SHOWN], [LOADED, CANCELLED], [LOADED, NOT_PROVIDED]}"
    using handleNonStreaming_out [of env request ctx contexts s] assms
    by (metis sum.distinct(1))
  then have "fst (track_run i False (events_of (ve_uuid env (v_ids s)) outs) [(i, REQUESTED)]) =
      events_of (ve_uuid env (v_ids s)) outs"
    using run_requested [of i] by (elim insertE) (simp_all del: track_run.simps, simp add: track_run.simps)
  with o(1) show ?thesis by blast
qed

text \<open>C21: With the circuit breaker open nothing leaves the server: whatever the request, the suggestion
  clients are not asked, no stream is scheduled, and every returned option was in the cache.\<close>

theorem breaker_open_serves_cache_only:
  assumes "ve_breakerOpen env" and "v_getSuggestionOptions env request s = (r, s')"
  shows "v_client s' = v_client s \<and> v_scheduled s' = v_scheduled s \<and>
    (\<forall>os. r = Inr os \<longrightarrow> os = [] \<or>
       (\<exists>ctx cached s1. useAndTrackCachedSuggestions env request ctx s = (Some cached, s1) \<and> os = map Suggestion cached))"
proof (cases "dts_getContext (ve_documents env) (ve_transformers env) (cq_uri request) (cq_position request)
             (or_else (ve_workspaceFolders env) []) (cq_context request)")
  case (Inl e)
  with assms show ?thesis by (auto simp: v_getSuggestionOptions_def)
next
  case (Inr x)
  show ?thesis
  proof (cases x)
    case None
    with Inr assms show ?thesis by (auto simp: v_getSuggestionOptions_def)
  next
    case (Some ctx)
    obtain cached s1 where c: "useAndTrackCachedSuggestions env request ctx s = (cached, s1)" by fastforce
    then have f: "v_client s1 = v_client s" "v_scheduled s1 = v_scheduled s"
      using useCached_frame [of env request ctx s] by simp_all
    show ?thesis
    proof (cases "triggerKind request = Some Invoked")
      case True
      with assms(2) Inr Some c have "r = Inr (map Suggestion (fst (manual_request env request ctx cached s1)))"
        "s' = snd (manual_request env request ctx cached s1)"
        by (auto simp: v_getSuggestionOptions_def apfst_def map_prod_def split: prod.splits)
      with manual_open [OF assms(1), of request ctx cached s1] f c show ?thesis
        by (cases cached) (auto simp: or_else_def)
    next
      case False
      show ?thesis
      proof (cases cached)
        case (Some cs)
        with assms(2) Inr \<open>x = Some ctx\<close> c False have "r = Inr (map Suggestion cs)" "s' = s1"
          by (auto simp: v_getSuggestionOptions_def)
        with f c Some show ?thesis by auto
      next
        case None
        with assms(2) Inr \<open>x = Some ctx\<close> c False have "r = Inr (fst (automatic_request env request ctx s1))"
          "s' = snd (automatic_request env request ctx s1)"
          by (auto simp: v_getSuggestionOptions_def apfst_def map_prod_def split: prod.splits)
        with automatic_open [OF assms(1), of request ctx s1] f show ?thesis by auto
      qed
    qed
  qed
qed

text \<open>Manual requests pile up in the cache: \<open>unshift\<close> writes the cached options into the array that
  was just cached, so that, while the package keeps the entry, the entry holds the options that had been
  cached before the request followed by the fetched ones, exactly what the client was given.\<close>

theorem manual_requests_accumulate:
  assumes "cc_enabled (sc_getCurrentConfig (ve_cacheOptions env))"
    and "handleNonStreaming env request ctx None s = ((fetched, True), s1)"
    and "map_get (v_cache s1) (sc_getSuggestionKey (ve_cacheOptions env) (cache_request_of request ctx None)) = Some e"
    and "ce_suggestions e = fetched"
  shows "fst (manual_request env request ctx (Some cached) s) = cached @ fetched \<and>
    map_option ce_suggestions
      (map_get (v_cache (snd (manual_request env request ctx (Some cached) s)))
         (sc_getSuggestionKey (ve_cacheOptions env) (cache_request_of request ctx None))) =
      Some (cached @ fetched)"
  using assms by (simp add: manual_request_def or_else_def unshift_cached_def Let_def)

subsection \<open>Witnesses\<close>

definition demo_service_env :: "bool \<Rightarrow> unit service_env" where
  "demo_service_env broken =
     \<lparr>ve_documents = \<lambda>u. Some (demo_doc\<lparr>td_getText := \<lambda>r. if range_start r = range_end r then [] else ''let x = 12''\<rparr>),
      ve_transformers = [], ve_workspaceFolders = None, ve_cacheOptions = None, ve_lru = id,
      ve_uuid = \<lambda>n. replicate (Suc n) (CHR ''u''), ve_streamName = \<lambda>n. ''s'', ve_breakerOpen = broken,
      ve_token = Some ''t'', ve_projectPath = None, ve_telemetryActions = None,
      ve_cancelledAfterDebounce = False, ve_cancelledAtEnd = False, ve_streamFlag = False,
      ve_parseFile = \<lambda>c. Inr None, ve_parseContent = \<lambda>c l. Inr None, ve_additionalContexts = \<lambda>c. [],
      ve_projectPathOf = \<lambda>u w. None,
      ve_pipeline = \<lambda>c s. (Inr (Some \<lparr>sr_choices = Some [''3''], sr_model = None, sr_status = 200,
                             sr_error = None, sr_isDirectConnection = None\<rparr>), s),
      ve_post = \<lambda>c os. Inr os\<rparr>"

definition demo_service :: "unit service_state" where
  "demo_service = \<lparr>v_cache = [], v_ids = 0, v_streams = 0, v_client = (), v_scheduled = [], v_out = []\<rparr>"

definition demo_completion :: completion_request where
  "demo_completion = \<lparr>cq_uri = ''file:///w/main'', cq_position = \<lparr>pos_line = 0, pos_character = 10\<rparr>, cq_context = None\<rparr>"

definition demo_ctx10 :: doc_context where
  "demo_ctx10 = (cr_context demo_request)\<lparr>dc_prefix := ''let x = 12'', dc_suffix := []\<rparr>"

theorem request_events_accepted_witness:
  "\<exists>outs. v_out (snd (handleNonStreaming (demo_service_env False) demo_completion demo_ctx10 None demo_service)) = outs \<and>
    fst (track_run ''i'' False (events_of ''u'' outs) [(''i'', REQUESTED)]) = events_of ''u'' outs"
  using request_events_accepted [of "demo_service_env False" demo_ctx10 demo_completion None demo_service "''i''"]
  by (simp add: demo_service_env_def [of False, THEN arg_cong, of ve_post]
      demo_service_env_def [of False, THEN arg_cong, of ve_uuid] demo_service_def)

theorem breaker_open_serves_cache_only_witness:
  "v_scheduled (snd (v_getSuggestionOptions (demo_service_env True) demo_completion demo_service)) = []"
proof -
  obtain r s' where g: "v_getSuggestionOptions (demo_service_env True) demo_completion demo_service = (r, s')"
    by fastforce
  have "ve_breakerOpen (demo_service_env True)" by (simp add: demo_service_env_def)
  from breaker_open_serves_cache_only [OF this g] g show ?thesis by (simp add: demo_service_def)
qed

definition demo_fetched :: suggestion_option where
  "demo_fetched = \<lparr>so_index = Some 0, so_text = ''3'', so_uniqueTrackingId = ''u'', so_model = None\<rparr>"

lemma demo_fetch:
  "\<exists>s1 e. handleNonStreaming (demo_service_env False) demo_completion demo_ctx10 None demo_service =
      (([demo_fetched], True), s1) \<and>
    map_get (v_cache s1) (sc_getSuggestionKey None (cache_request_of demo_completion demo_ctx10 None)) = Some e \<and>
    ce_suggestions e = [demo_fetched]"
  by (simp add: handleNonStreaming_def newTrackingId_def v_getSuggestions_def request_admitted_def
      demo_service_env_def demo_ctx10_def demo_request_def isAtOrNearEndOfLine_def near_eol_def
      suggestions_answered_def options_of_def notProvided_def sc_addToSuggestionCache_def
      sc_getCurrentConfig_def DEFAULT_CONFIG_def demo_service_def or_else_def demo_fetched_def Let_def)

theorem manual_requests_accumulate_witness:
  "fst (manual_request (demo_service_env False) demo_completion demo_ctx10 (Some [demo_option]) demo_service) =
     [demo_option, demo_fetched]"
proof -
  have opts: "ve_cacheOptions (demo_service_env False) = None" by (simp add: demo_service_env_def)
  obtain s1 e where f: "handleNonStreaming (demo_service_env False) demo_completion demo_ctx10 None demo_service =
      (([demo_fetched], True), s1)"
    "map_get (v_cache s1) (sc_getSuggestionKey (ve_cacheOptions (demo_service_env False))
       (cache_request_of demo_completion demo_ctx10 None)) = Some e"
    "ce_suggestions e = [demo_fetched]"
    using demo_fetch unfolding opts by blast
  have "cc_enabled (sc_getCurrentConfig (ve_cacheOptions (demo_service_env False)))"
    by (simp add: opts demo_enabled)
  from manual_requests_accumulate [OF this f, of "[demo_option]"] show ?thesis by simp
qed

end
