(* ===== verification/Js_Regex.thy ===== *)
theory Js_Regex
  imports Prelude
begin

text \<open>
  The regular expressions of the language, as far as the sources use them: characters, sequence, ordered
  choice, greedy and lazy repetition, capturing groups, \<open>^\<close> and \<open>$\<close>.  The value of \<open>rx_run\<close> is the list of all
  ways to match at a position, in the order a backtracking matcher tries them, so that its first element is
  the match the language defines.  A position is the text before it (reversed), the text from it on, and the
  groups captured so far, the latest first.  Groups inside a repetition do not occur.
\<close>

type_synonym rx_state = "string \<times> string \<times> (nat \<times> string) list"

datatype rx =
  Rx_empty
| Rx_begin
| Rx_end
| Rx_char "char \<Rightarrow> bool"
| Rx_seq rx rx
| Rx_alt rx rx
| Rx_star bool rx
| Rx_group nat rx

text \<open>Repetition: an iteration that matches nothing ends it.  The number bounds the iterations; each takes at
  least one character, so the length of the text is enough.\<close>

primrec rx_iter :: "(rx_state \<Rightarrow> rx_state list) \<Rightarrow> bool \<Rightarrow> nat \<Rightarrow> rx_state \<Rightarrow> rx_state list" where
  "rx_iter f greedy 0 st = [st]"
| "rx_iter f greedy (Suc n) st =
     (let more = concat (map (\<lambda>st'. if length (fst (snd st')) < length (fst (snd st))
                                    then rx_iter f greedy n st' else []) (f st))
      in if greedy then more @ [st] else st # more)"

primrec rx_run :: "rx \<Rightarrow> rx_state \<Rightarrow> rx_state list" where
  "rx_run Rx_empty st = [st]"
| "rx_run Rx_begin st = (if fst st = [] then [st] else [])"
| "rx_run Rx_end st = (if fst (snd st) = [] then [st] else [])"
| "rx_run (Rx_char P) st =
     (case fst (snd st) of [] \<Rightarrow> [] | c # t \<Rightarrow> if P c then [(c # fst st, t, snd (snd st))] else [])"
| "rx_run (Rx_seq r q) st = concat (map (rx_run q) (rx_run r st))"
| "rx_run (Rx_alt r q) st = rx_run r st @ rx_run q st"
| "rx_run (Rx_star greedy r) st = rx_iter (rx_run r) greedy (length (fst (snd st))) st"
| "rx_run (Rx_group n r) st =
     map (\<lambda>(b, s, cs). (b, s, (n, rev (take (length b - length (fst st)) b)) # cs)) (rx_run r st)"

definition rx_opt :: "rx \<Rightarrow> rx" where
  "rx_opt r = Rx_alt r Rx_empty"

definition rx_plus :: "bool \<Rightarrow> rx \<Rightarrow> rx" where
  "rx_plus greedy r = Rx_seq r (Rx_star greedy r)"

primrec rx_str :: "string \<Rightarrow> rx" where
  "rx_str [] = Rx_empty"
| "rx_str (c # s) = Rx_seq (Rx_char (\<lambda>x. x = c)) (rx_str s)"

primrec rx_cat :: "rx list \<Rightarrow> rx" where
  "rx_cat [] = Rx_empty"
| "rx_cat (r # rs) = Rx_seq r (rx_cat rs)"

definition rx_any :: "char \<Rightarrow> bool" where
  "rx_any c \<longleftrightarrow> c \<noteq> newline \<and> c \<noteq> CHR 0x0D"

text \<open>\<open>s.match(r)\<close>: the text before the match, and the state after it, at the first position with one.\<close>

fun rx_search :: "rx \<Rightarrow> string \<Rightarrow> string \<Rightarrow> (string \<times> rx_state) option" where
  "rx_search r before [] =
     (case rx_run r (before, [], []) of [] \<Rightarrow> None | st # _ \<Rightarrow> Some (before, st))"
| "rx_search r before (c # s) =
     (case rx_run r (before, c # s, []) of [] \<Rightarrow> rx_search r (c # before) s | st # _ \<Rightarrow> Some (before, st))"

definition rx_match :: "rx \<Rightarrow> string \<Rightarrow> (nat \<Rightarrow> string option) option" where
  "rx_match r s = map_option (\<lambda>(_, _, _, cs). map_of cs) (rx_search r [] s)"

definition rx_test :: "rx \<Rightarrow> string \<Rightarrow> bool" where
  "rx_test r s \<longleftrightarrow> rx_search r [] s \<noteq> None"

text \<open>\<open>s.replace(r, f)\<close> for an expression without the flag \<open>g\<close>.\<close>

definition rx_replace :: "rx \<Rightarrow> ((nat \<Rightarrow> string option) \<Rightarrow> string) \<Rightarrow> string \<Rightarrow> string" where
  "rx_replace r f s =
     (case rx_search r [] s of
        None \<Rightarrow> s
      | Some (before, _, rest, cs) \<Rightarrow> rev before @ f (map_of cs) @ rest)"

subsection \<open>Finding the first match\<close>

definition rx_first :: "rx \<Rightarrow> rx_state \<Rightarrow> rx_state option" where
  "rx_first r st = (case rx_run r st of [] \<Rightarrow> None | st' # _ \<Rightarrow> Some st')"

primrec first_some :: "('a \<Rightarrow> 'b option) \<Rightarrow> 'a list \<Rightarrow> 'b option" where
  "first_some f [] = None"
| "first_some f (x # xs) = (case f x of None \<Rightarrow> first_some f xs | Some y \<Rightarrow> Some y)"

lemma first_some_append: "first_some f (xs @ ys) = (case first_some f xs of None \<Rightarrow> first_some f ys | Some y \<Rightarrow> Some y)"
  by (induction xs) (auto split: option.splits)

lemma first_some_None: "first_some f xs = None \<longleftrightarrow> (\<forall>x \<in> set xs. f x = None)"
  by (induction xs) (auto split: option.splits)

lemma first_some_map: "first_some f (map g xs) = first_some (\<lambda>x. f (g x)) xs"
  by (induction xs) (auto split: option.splits)

lemma first_some_at:
  "i < length xs \<Longrightarrow> f (xs ! i) = Some y \<Longrightarrow> (\<And>j. j < i \<Longrightarrow> f (xs ! j) = None) \<Longrightarrow> first_some f xs = Some y"
proof (induction xs arbitrary: i)
  case Nil
  then show ?case by simp
next
  case (Cons x xs)
  show ?case
  proof (cases i)
    case 0
    with Cons.prems show ?thesis by simp
  next
    case (Suc k)
    then have "f x = None" using Cons.prems(3) [of 0] by simp
    moreover have "first_some f xs = Some y"
      using Cons.IH [of k] Cons.prems Suc by force
    ultimately show ?thesis by simp
  qed
qed

lemma rx_first_seq: "rx_first (Rx_seq r q) st = first_some (rx_first q) (rx_run r st)"
proof -
  have "(case concat (map (rx_run q) sts) of [] \<Rightarrow> None | st' # _ \<Rightarrow> Some st') = first_some (rx_first q) sts" for sts
  proof (induction sts)
    case (Cons st sts)
    then show ?case by (cases "rx_run q st") (simp_all add: rx_first_def)
  qed simp
  then show ?thesis by (simp add: rx_first_def [of "Rx_seq r q"])
qed

lemma rx_first_group:
  "rx_first (Rx_group n r) st =
     map_option (\<lambda>(b, s, cs). (b, s, (n, rev (take (length b - length (fst st)) b)) # cs)) (rx_first r st)"
  by (auto simp: rx_first_def split: list.splits)

lemma rx_search_here: "rx_first r (b, s, []) = Some st \<Longrightarrow> rx_search r b s = Some (b, st)"
  by (cases s) (auto simp: rx_first_def split: list.splits)

lemma rx_search_begin: "rx_first r ([], s, []) = None \<Longrightarrow> (\<And>b s'. b \<noteq> [] \<Longrightarrow> rx_run r (b, s', []) = []) \<Longrightarrow>
    rx_search r [] s = None"
proof -
  assume no: "\<And>b s'. b \<noteq> [] \<Longrightarrow> rx_run r (b, s', []) = []" and first: "rx_first r ([], s, []) = None"
  have "rx_search r b s' = None" if "b \<noteq> []" for b s'
    using that by (induction s' arbitrary: b) (auto simp: no)
  with first show ?thesis by (cases s) (auto simp: rx_first_def split: list.splits)
qed

text \<open>A repeated character class: the lengths of its run, longest first when greedy.\<close>

definition rx_after :: "rx_state \<Rightarrow> nat \<Rightarrow> rx_state" where
  "rx_after st k = (rev (take k (fst (snd st))) @ fst st, drop k (fst (snd st)), snd (snd st))"

lemma rx_after_simps [simp]:
  "rx_after st 0 = st" "fst (rx_after (b, s, cs) k) = rev (take k s) @ b"
  "fst (snd (rx_after (b, s, cs) k)) = drop k s" "snd (snd (rx_after (b, s, cs) k)) = cs"
  by (auto simp: rx_after_def)

definition star_lengths :: "bool \<Rightarrow> nat \<Rightarrow> nat list" where
  "star_lengths greedy n = (if greedy then rev [0..<Suc n] else [0..<Suc n])"

lemma star_lengths_Suc:
  "star_lengths greedy (Suc n) =
     (if greedy then map Suc (star_lengths greedy n) @ [0] else 0 # map Suc (star_lengths greedy n))"
proof -
  have *: "[0..<Suc (Suc n)] = 0 # map Suc [0..<Suc n]"
    by (metis map_Suc_upt upt_conv_Cons zero_less_Suc)
  show ?thesis unfolding star_lengths_def * by (simp add: rev_map)
qed

lemma star_lengths_0 [simp]: "star_lengths greedy 0 = [0]"
  by (simp add: star_lengths_def)

lemma rx_iter_char:
  fixes P :: "char \<Rightarrow> bool"
  defines "f \<equiv> rx_run (Rx_char P)"
  shows "length s \<le> n \<Longrightarrow> rx_iter f greedy n (b, s, cs) =
     map (rx_after (b, s, cs)) (star_lengths greedy (length (takeWhile P s)))"
proof (induction n arbitrary: b s)
  case 0
  then show ?case by simp
next
  case (Suc n)
  show ?case
  proof (cases s)
    case Nil
    then show ?thesis by (simp add: f_def)
  next
    case (Cons c t)
    have after: "rx_after (c # b, t, cs) k = rx_after (b, c # t, cs) (Suc k)" for k
      by (simp add: rx_after_def)
    have f: "f (b, c # t, cs) = (if P c then [(c # b, t, cs)] else [])"
      by (simp add: f_def)
    show ?thesis
    proof (cases "P c")
      case True
      with Suc Cons show ?thesis
        by (simp add: f after star_lengths_Suc o_def)
    next
      case False
      then show ?thesis by (simp add: Cons f)
    qed
  qed
qed

declare rx_run.simps(7) [simp del]

lemma rx_run_star_char [simp]:
  "rx_run (Rx_star greedy (Rx_char P)) (b, s, cs) =
     map (rx_after (b, s, cs)) (star_lengths greedy (length (takeWhile P s)))"
  by (simp add: rx_iter_char rx_run.simps(7))

lemma rx_run_plus_char:
  "rx_run (rx_plus greedy (Rx_char P)) (b, s, cs) =
     (case takeWhile P s of [] \<Rightarrow> []
      | _ # w \<Rightarrow> map (\<lambda>k. rx_after (b, s, cs) (Suc k)) (star_lengths greedy (length w)))"
  by (cases s) (auto simp: rx_plus_def rx_after_def)

lemma rx_run_str [simp]:
  "rx_run (rx_str w) (b, s, cs) = (if prefix w s then [(rev w @ b, drop (length w) s, cs)] else [])"
  by (induction w arbitrary: b s) (auto split: list.splits)

end
