(* ===== verification/Git_Remote.thy ===== *)
theory Git_Remote
  imports Js_Regex Domain Document_Context
begin

text \<open>
  The remotes of a repository: from a remote's URL to the project it names
  (\<open>src/common/services/git/git_remote_parser.ts\<close>) and to the address its default branch is asked at
  (\<open>src/common/services/git/git_remote_repository_info.ts\<close>).  The class \<open>URL\<close> is a parameter: \<open>parse\<close> gives
  the parts of a valid URL and \<open>None\<close> where the constructor throws.
\<close>

record url_parts =
  url_host :: string
  url_hostname :: string
  url_pathname :: string

type_synonym url_parser = "string \<Rightarrow> url_parts option"

record git_remote =
  gr_host :: string
  gr_namespace :: string
  gr_projectPath :: string
  gr_namespaceWithPath :: string

definition tryParseUrl :: "url_parser \<Rightarrow> string \<Rightarrow> url_parts option" where
  "tryParseUrl parse url = parse url"

definition strip_slash :: "string \<Rightarrow> string" where
  "strip_slash s = (if s \<noteq> [] \<and> last s = slash then butlast s else s)"

definition getInstancePath :: "url_parser \<Rightarrow> string \<Rightarrow> string" where
  "getInstancePath parse instanceUrl =
     (case tryParseUrl parse instanceUrl of
        None \<Rightarrow> []
      | Some u \<Rightarrow> strip_slash (url_pathname u))"

subsection \<open>SSH remotes\<close>

definition user_char :: "char \<Rightarrow> bool" where
  "user_char c \<longleftrightarrow> (let n = of_char c :: nat in
     48 \<le> n \<and> n \<le> 57 \<or> 65 \<le> n \<and> n \<le> 90 \<or> 97 \<le> n \<and> n \<le> 122 \<or> n = 95 \<or> n = 45)"

definition digit_char :: "char \<Rightarrow> bool" where
  "digit_char c \<longleftrightarrow> 48 \<le> (of_char c :: nat) \<and> (of_char c :: nat) \<le> 57"

abbreviation rx_lit :: "char \<Rightarrow> rx" where
  "rx_lit c \<equiv> Rx_char (\<lambda>x. x = c)"

definition user_at_host :: rx where
  "user_at_host = Rx_group 1
     (Rx_seq (rx_plus True (Rx_char user_char)) (Rx_seq (rx_lit CHR ''@'') (Rx_star False (Rx_char rx_any))))"

definition rest_of_line :: rx where
  "rest_of_line = Rx_group 2 (Rx_star True (Rx_char rx_any))"

definition sshRemoteWithCustomPort :: rx where
  "sshRemoteWithCustomPort =
     rx_cat [Rx_begin, rx_lit CHR ''['', user_at_host, rx_lit CHR '':'', rx_plus True (Rx_char digit_char),
             rx_lit CHR '']'', rest_of_line, Rx_end]"

definition sshRemoteWithSchemeAndCustomPort :: rx where
  "sshRemoteWithSchemeAndCustomPort =
     rx_cat [Rx_begin, rx_str ''ssh://'', user_at_host, rx_lit CHR '':'', rx_plus True (Rx_char digit_char),
             rest_of_line, Rx_end]"

definition sshRemoteWithPath :: rx where
  "sshRemoteWithPath = rx_cat [user_at_host, rx_lit CHR '':'', rest_of_line]"

definition ssh_start :: rx where
  "ssh_start = rx_cat [Rx_begin, rx_plus True (Rx_char user_char), rx_lit CHR ''@'']"

definition match_group :: "(nat \<Rightarrow> string option) \<Rightarrow> nat \<Rightarrow> string" where
  "match_group m n = (case m n of None \<Rightarrow> ''undefined'' | Some s \<Rightarrow> s)"

definition normalizeSshRemote :: "string \<Rightarrow> string" where
  "normalizeSshRemote remote =
     (case rx_match sshRemoteWithCustomPort remote of
        Some m \<Rightarrow> ''ssh://'' @ match_group m 1 @ ''/'' @ match_group m 2
      | None \<Rightarrow>
     (case rx_match sshRemoteWithSchemeAndCustomPort remote of
        Some m \<Rightarrow> ''ssh://'' @ match_group m 1 @ match_group m 2
      | None \<Rightarrow>
     (case rx_match sshRemoteWithPath remote of
        Some m \<Rightarrow> ''ssh://'' @ match_group m 1 @ ''/'' @ match_group m 2
      | None \<Rightarrow> if rx_test ssh_start remote then ''ssh://'' @ remote else remote)))"

subsection \<open>The project of a remote\<close>

text \<open>The expression over the path: the instance's own path is escaped, so it matches itself.\<close>

definition project_regex :: "string \<Rightarrow> rx" where
  "project_regex instancePath =
     rx_cat [rx_opt (rx_str instancePath), rx_lit slash, rx_opt (rx_lit CHR '':''),
             Rx_group 1 (rx_plus True (Rx_char rx_any)), rx_lit slash,
             Rx_group 2 (rx_plus False (Rx_char (\<lambda>c. c \<noteq> slash))),
             rx_opt (Rx_seq (Rx_char rx_any) (rx_str ''git'')), rx_opt (rx_lit slash), Rx_end]"

definition parseKhulnaSoftRemote :: "url_parser \<Rightarrow> string \<Rightarrow> string \<Rightarrow> git_remote option" where
  "parseKhulnaSoftRemote parse remote instanceUrl =
     (case tryParseUrl parse (normalizeSshRemote remote) of
        None \<Rightarrow> None
      | Some u \<Rightarrow>
          if url_host u = [] \<or> url_pathname u = [] then None
          else if map_option url_hostname (tryParseUrl parse (normalizeSshRemote instanceUrl)) \<noteq> Some (url_hostname u)
          then None
          else
            (case rx_match
                    (project_regex (if instanceUrl \<noteq> [] \<or> trim instanceUrl \<noteq> [] then getInstancePath parse instanceUrl else []))
                    (url_pathname u) of
               None \<Rightarrow> None
             | Some m \<Rightarrow>
                 Some \<lparr>gr_host = url_host u, gr_namespace = match_group m 1, gr_projectPath = match_group m 2,
                       gr_namespaceWithPath = match_group m 1 @ ''/'' @ match_group m 2\<rparr>))"

subsection \<open>The address of a remote\<close>

definition git_at_host :: rx where
  "git_at_host =
     rx_cat [rx_str ''git@'', Rx_group 1 (rx_plus True (Rx_char (\<lambda>c. c \<noteq> CHR '':''))), rx_lit CHR '':'',
             Rx_group 2 (rx_plus True (Rx_char rx_any))]"

definition convertToHttpUrl :: "string \<Rightarrow> string" where
  "convertToHttpUrl remoteUrl =
     (case (if starts_with remoteUrl ''git@'' then rx_match git_at_host remoteUrl else None) of
        Some m \<Rightarrow> ''https://'' @ match_group m 1 @ ''/'' @ match_group m 2
      | None \<Rightarrow>
          if starts_with remoteUrl ''git://'' then replace_first ''git://'' ''https://'' remoteUrl
          else if starts_with remoteUrl ''ssh://'' then
            rx_replace (Rx_seq (rx_str ''git@'') (Rx_group 1 (rx_plus True (Rx_char (\<lambda>c. c \<noteq> slash)))))
              (\<lambda>m. match_group m 1) (replace_first ''ssh://'' ''https://'' remoteUrl)
          else remoteUrl)"

subsection \<open>How the expressions match\<close>

lemma takeWhile_run: "list_all P w \<Longrightarrow> (t = [] \<or> \<not> P (hd t)) \<Longrightarrow> takeWhile P (w @ t) = w"
  by (cases t) (auto simp: takeWhile_append list_all_iff)

lemma rx_first_char [simp]:
  "rx_first (Rx_seq (Rx_char P) q) (b, [], cs) = None"
  "rx_first (Rx_seq (Rx_char P) q) (b, c # t, cs) = (if P c then rx_first q (c # b, t, cs) else None)"
  by (simp_all add: rx_first_def)

lemma rx_first_empty [simp]: "rx_first Rx_empty st = Some st"
  by (simp add: rx_first_def)

lemma rx_first_begin [simp]: "rx_first (Rx_seq Rx_begin q) (b, s, cs) = (if b = [] then rx_first q (b, s, cs) else None)"
  by (simp add: rx_first_def)

lemma rx_first_end [simp]: "rx_first (Rx_seq Rx_end q) (b, s, cs) = (if s = [] then rx_first q (b, s, cs) else None)"
  by (simp add: rx_first_def)

lemma rx_first_str [simp]:
  "rx_first (Rx_seq (rx_str w) q) (b, s, cs) =
     (if prefix w s then rx_first q (rev w @ b, drop (length w) s, cs) else None)"
  by (simp add: rx_first_def)

text \<open>A run of one class up to a character outside of it.\<close>

lemma rx_first_plus_then:
  assumes "list_all P w" and "w \<noteq> []" and "\<not> P c"
  shows "rx_first (Rx_seq (rx_plus True (Rx_char P)) (Rx_seq (Rx_char (\<lambda>x. x = c)) q)) (b, w @ c # t, cs) =
    rx_first q (c # rev w @ b, t, cs)"
proof -
  obtain x w' where w: "w = x # w'" using assms(2) by (cases w) auto
  have tw: "takeWhile P (w @ c # t) = x # w'"
    using takeWhile_run [of P w "c # t"] assms w by simp
  have none: "rx_first (Rx_seq (Rx_char (\<lambda>x. x = c)) q) (rx_after (b, w @ c # t, cs) (Suc k)) = None"
    if "k < length w'" for k
  proof -
    from that w have "drop (Suc k) (w @ c # t) = w ! Suc k # drop (Suc (Suc k)) (w @ c # t)"
      by (simp add: Cons_nth_drop_Suc [symmetric] nth_append)
    moreover have "w ! Suc k \<noteq> c"
      using assms that w by (auto simp: list_all_length)
    ultimately show ?thesis by (simp add: rx_after_def)
  qed
  have "rx_first (Rx_seq (Rx_char (\<lambda>x. x = c)) q) (rx_after (b, w @ c # t, cs) (Suc (length w'))) =
      rx_first q (c # rev w @ b, t, cs)"
    by (simp add: rx_after_def w)
  moreover have "first_some (\<lambda>k. rx_first (Rx_seq (Rx_char (\<lambda>x. x = c)) q) (rx_after (b, w @ c # t, cs) (Suc k)))
      (rev [0..<length w']) = None"
    by (auto simp: first_some_None none)
  ultimately show ?thesis
    by (simp add: rx_first_seq [of "rx_plus True (Rx_char P)"] rx_run_plus_char tw first_some_map star_lengths_def
        split: option.splits)
qed

text \<open>The rest of a line, up to its end.\<close>

lemma rx_first_rest:
  assumes "list_all P s" and "\<And>st. fst (snd st) = [] \<Longrightarrow> rx_first q st = Some st"
  shows "rx_first (Rx_seq (Rx_group n (Rx_star True (Rx_char P))) q) (b, s, cs) = Some (rev s @ b, [], (n, s) # cs)"
proof -
  have tw: "takeWhile P s = s" using assms(1) by (simp add: takeWhile_eq_all_conv list_all_iff)
  show ?thesis
    using assms(2) [of "(rev s @ b, [], (n, s) # cs)"]
    by (simp add: rx_first_seq tw first_some_map star_lengths_def rx_after_def)
qed

lemma rx_run_user_at:
  assumes "list_all user_char u" and "u \<noteq> []"
  shows "rx_run user_at_host (b, u @ CHR ''@'' # r, cs) =
    map (\<lambda>k. (rev (u @ CHR ''@'' # take k r) @ b, drop k r, (1, u @ CHR ''@'' # take k r) # cs))
      [0..<Suc (length (takeWhile rx_any r))]"
proof -
  obtain x w where w: "u = x # w" using assms(2) by (cases u) auto
  have at: "\<not> user_char CHR ''@''" by (simp add: user_char_def)
  have tw: "takeWhile user_char (u @ CHR ''@'' # r) = x # w"
    using takeWhile_run [of user_char u "CHR ''@'' # r"] assms at w by simp
  let ?q = "Rx_seq (rx_lit CHR ''@'') (Rx_star False (Rx_char rx_any))"
  have none: "rx_run ?q (rx_after (b, u @ CHR ''@'' # r, cs) (Suc k)) = []" if "k < length w" for k
  proof -
    from that w have "drop (Suc k) (u @ CHR ''@'' # r) = u ! Suc k # drop (Suc (Suc k)) (u @ CHR ''@'' # r)"
      by (simp add: Cons_nth_drop_Suc [symmetric] nth_append)
    moreover have "u ! Suc k \<noteq> CHR ''@''"
      using assms(1) that w at by (auto simp: list_all_length)
    ultimately show ?thesis by (simp add: rx_after_def)
  qed
  have "rx_run ?q (rx_after (b, u @ CHR ''@'' # r, cs) (Suc (length w))) =
      map (\<lambda>k. (rev (u @ CHR ''@'' # take k r) @ b, drop k r, cs)) [0..<Suc (length (takeWhile rx_any r))]"
    by (simp add: rx_after_def w star_lengths_def)
  moreover have "concat (map (\<lambda>k. rx_run ?q (rx_after (b, u @ CHR ''@'' # r, cs) (Suc k))) (rev [0..<length w])) = []"
    using none by (simp del: rx_run.simps)
  ultimately have "rx_run (Rx_seq (rx_plus True (Rx_char user_char)) ?q) (b, u @ CHR ''@'' # r, cs) =
      map (\<lambda>k. (rev (u @ CHR ''@'' # take k r) @ b, drop k r, cs)) [0..<Suc (length (takeWhile rx_any r))]"
    by (simp add: rx_run.simps(5) [of "rx_plus True (Rx_char user_char)"] rx_run_plus_char tw star_lengths_def o_def
        del: rx_run.simps)
  then show ?thesis
    by (simp add: user_at_host_def o_def del: rx_run.simps(5) upt_Suc)
qed

text \<open>The user and host of a remote end at the first colon.\<close>

lemma rx_first_user_host:
  assumes "list_all user_char u" and "u \<noteq> []" and "list_all rx_any h" and "CHR '':'' \<notin> set h"
    and "rx_first q (CHR '':'' # rev (u @ CHR ''@'' # h) @ b, t, (1, u @ CHR ''@'' # h) # cs) = Some st"
  shows "rx_first (Rx_seq user_at_host (Rx_seq (rx_lit CHR '':'') q)) (b, u @ CHR ''@'' # h @ CHR '':'' # t, cs) = Some st"
proof -
  let ?r = "h @ CHR '':'' # t"
  let ?q = "Rx_seq (rx_lit CHR '':'') q"
  let ?st = "\<lambda>k. (rev (u @ CHR ''@'' # take k ?r) @ b, drop k ?r, (1, u @ CHR ''@'' # take k ?r) # cs)"
  have len: "length h < length [0..<Suc (length (takeWhile rx_any ?r))]"
    using assms(3) by (simp add: takeWhile_append list_all_iff rx_any_def)
  have "rx_first ?q (?st k) = None" if "k < length h" for k
  proof -
    from that have "drop k ?r = h ! k # drop (Suc k) ?r"
      by (simp add: Cons_nth_drop_Suc [symmetric] nth_append)
    moreover have "h ! k \<noteq> CHR '':''" using assms(4) that nth_mem by metis
    ultimately show ?thesis by simp
  qed
  moreover have "rx_first ?q (?st (length h)) = Some st" using assms(5) by simp
  ultimately have "first_some (\<lambda>k. rx_first ?q (?st k)) [0..<Suc (length (takeWhile rx_any ?r))] = Some st"
    using len by (intro first_some_at [of "length h"]) (simp_all del: upt_Suc)
  then show ?thesis
    by (simp add: rx_first_seq [of user_at_host] rx_run_user_at [OF assms(1,2)] first_some_map del: upt_Suc)
qed

text \<open>No position but the first can match an expression that starts with \<open>^\<close>.\<close>

lemma rx_match_begin:
  "rx_match (Rx_seq Rx_begin q) s = map_option (\<lambda>(_, _, cs). map_of cs) (rx_first q ([], s, []))"
proof (cases "rx_first q ([], s, [])")
  case None
  have "rx_search (Rx_seq Rx_begin q) [] s = None"
    by (rule rx_search_begin) (simp_all add: None)
  with None show ?thesis by (simp add: rx_match_def)
next
  case (Some st)
  then have "rx_search (Rx_seq Rx_begin q) [] s = Some ([], st)"
    by (intro rx_search_here) simp
  with Some show ?thesis by (cases st) (simp add: rx_match_def)
qed

lemma rx_match_here: "rx_first r ([], s, []) = Some (b, t, cs) \<Longrightarrow> rx_match r s = Some (map_of cs)"
  by (simp add: rx_match_def rx_search_here)

lemma user_char_bracket [simp]: "\<not> user_char CHR ''@''" "\<not> user_char CHR '':''" "\<not> user_char CHR ''[''"
    "\<not> user_char slash"
  by (simp_all add: user_char_def slash_def)

lemma rx_first_to_end:
  "list_all rx_any p \<Longrightarrow> rx_first (Rx_seq rest_of_line (Rx_seq Rx_end Rx_empty)) (b, p, cs) = Some (rev p @ b, [], (2, p) # cs)"
  "list_all rx_any p \<Longrightarrow> rx_first (Rx_seq rest_of_line Rx_empty) (b, p, cs) = Some (rev p @ b, [], (2, p) # cs)"
  unfolding rest_of_line_def by (rule rx_first_rest; force)+

lemma user_not_ssh:
  assumes "list_all user_char u"
  shows "\<not> prefix ''ssh://'' (u @ CHR ''@'' # r)"
proof
  assume "prefix ''ssh://'' (u @ CHR ''@'' # r)"
  then obtain v where v: "u @ CHR ''@'' # r = ''ssh://'' @ v" unfolding prefix_def by blast
  have at: "(u @ CHR ''@'' # r) ! i = ''ssh://'' ! i" if "i < 6" for i
    unfolding v using that by (subst nth_append) simp
  show False
  proof (cases "length u > 3")
    case True
    with at [of 3] have "u ! 3 = CHR '':''" by (simp add: nth_append)
    with assms True user_char_bracket(2) show False by (auto simp: list_all_length)
  next
    case False
    then have "length u = 0 \<or> length u = 1 \<or> length u = 2 \<or> length u = 3" by linarith
    moreover from False at [of "length u"] have "''ssh://'' ! length u = CHR ''@''" by simp
    ultimately show False by (elim disjE) (simp_all add: nth_Cons')
  qed
qed

lemma normalize_scp:
  assumes "list_all user_char u" and "u \<noteq> []" and "list_all rx_any h" and "CHR '':'' \<notin> set h" and "list_all rx_any p"
  shows "normalizeSshRemote (u @ ''@'' @ h @ '':'' @ p) = ''ssh://'' @ u @ ''@'' @ h @ ''/'' @ p"
proof -
  let ?s = "u @ CHR ''@'' # h @ CHR '':'' # p"
  have "hd ?s \<noteq> CHR ''[''"
    using assms(1,2) by (cases u) auto
  then have "rx_match sshRemoteWithCustomPort ?s = None"
    using assms(2) by (cases u) (auto simp: sshRemoteWithCustomPort_def rx_match_begin)
  moreover have "rx_match sshRemoteWithSchemeAndCustomPort ?s = None"
    using user_not_ssh [OF assms(1), of "h @ CHR '':'' # p"]
    by (simp add: sshRemoteWithSchemeAndCustomPort_def rx_match_begin del: rx_str.simps)
  moreover have "rx_match sshRemoteWithPath ?s = Some (map_of [(2, p), (1, u @ CHR ''@'' # h)])"
    unfolding sshRemoteWithPath_def rx_cat.simps
    by (rule rx_match_here, rule rx_first_user_host [OF assms(1-4)], rule rx_first_to_end(2) [OF assms(5)])
  ultimately show ?thesis by (simp add: normalizeSshRemote_def match_group_def)
qed

lemma normalize_bracket:
  assumes "list_all user_char u" and "u \<noteq> []" and "list_all rx_any h" and "CHR '':'' \<notin> set h"
    and "list_all digit_char d" and "d \<noteq> []" and "list_all rx_any p"
  shows "normalizeSshRemote (''['' @ u @ ''@'' @ h @ '':'' @ d @ '']'' @ p) = ''ssh://'' @ u @ ''@'' @ h @ ''/'' @ p"
proof -
  let ?s = "CHR ''['' # u @ CHR ''@'' # h @ CHR '':'' # d @ CHR '']'' # p"
  have nd: "\<not> digit_char CHR '']''" by (simp add: digit_char_def)
  have "rx_match sshRemoteWithCustomPort ?s = Some (map_of [(2, p), (1, u @ CHR ''@'' # h)])"
    unfolding sshRemoteWithCustomPort_def rx_cat.simps
    apply (rule rx_match_here)
    apply (simp del: One_nat_def)
    apply (rule rx_first_user_host [OF assms(1-4)])
    apply (subst rx_first_plus_then [OF assms(5,6) nd])
    apply (rule rx_first_to_end(1) [OF assms(7)])
    done
  then show ?thesis by (simp add: normalizeSshRemote_def match_group_def)
qed

lemma rx_first_digits:
  assumes "list_all digit_char d" and "d \<noteq> []" and "p = [] \<or> \<not> digit_char (hd p)"
    and "rx_first q (rev d @ b, p, cs) = Some st"
  shows "rx_first (Rx_seq (rx_plus True (Rx_char digit_char)) q) (b, d @ p, cs) = Some st"
proof -
  obtain x w where w: "d = x # w" using assms(2) by (cases d) auto
  have tw: "takeWhile digit_char (d @ p) = x # w"
    using takeWhile_run [of digit_char d p] assms w by simp
  have "rx_first q (rx_after (b, d @ p, cs) (Suc (length w))) = Some st"
    using assms(4) by (simp add: rx_after_def w)
  then show ?thesis
    by (simp add: rx_first_seq rx_run_plus_char tw first_some_map star_lengths_def)
qed

lemma normalize_scheme:
  assumes "list_all user_char u" and "u \<noteq> []" and "list_all rx_any h" and "CHR '':'' \<notin> set h"
    and "list_all digit_char d" and "d \<noteq> []" and "list_all rx_any p" and "p = [] \<or> \<not> digit_char (hd p)"
  shows "normalizeSshRemote (''ssh://'' @ u @ ''@'' @ h @ '':'' @ d @ p) = ''ssh://'' @ u @ ''@'' @ h @ p"
proof -
  let ?s = "''ssh://'' @ u @ CHR ''@'' # h @ CHR '':'' # d @ p"
  have "rx_match sshRemoteWithCustomPort ?s = None"
    by (simp add: sshRemoteWithCustomPort_def rx_match_begin)
  moreover have "rx_match sshRemoteWithSchemeAndCustomPort ?s = Some (map_of [(2, p), (1, u @ CHR ''@'' # h)])"
    unfolding sshRemoteWithSchemeAndCustomPort_def rx_cat.simps
    apply (rule rx_match_here)
    apply (simp del: rx_str.simps One_nat_def)
    apply (rule rx_first_user_host [OF assms(1-4)])
    apply (rule rx_first_digits [OF assms(5,6,8)])
    apply (rule rx_first_to_end(1) [OF assms(7)])
    done
  ultimately show ?thesis by (simp add: normalizeSshRemote_def match_group_def)
qed

subsection \<open>The project in a path\<close>

lemma rx_first_opt:
  "rx_first (Rx_seq (rx_opt r) q) st = (case rx_first (Rx_seq r q) st of None \<Rightarrow> rx_first q st | Some x \<Rightarrow> Some x)"
  by (simp add: rx_opt_def rx_first_seq first_some_append split: option.splits)

lemma rx_first_assoc: "rx_first (Rx_seq (Rx_seq r q) p) st = rx_first (Rx_seq r (Rx_seq q p)) st"
proof -
  have "concat (map (rx_run p) (concat (map (rx_run q) sts))) = concat (map (rx_run (Rx_seq q p)) sts)" for sts
    by (induction sts) simp_all
  then show ?thesis by (simp only: rx_first_def rx_run.simps(5) [of "Rx_seq r q"] rx_run.simps(5) [of r])
qed

lemma rx_first_seq_empty [simp]: "rx_first (Rx_seq Rx_empty q) st = rx_first q st"
  by (simp add: rx_first_def)

lemma suffix_iff_drop: "suffix w n \<longleftrightarrow> length w \<le> length n \<and> drop (length n - length w) n = w"
  unfolding suffix_def by (auto intro!: exI [of _ "take (length n - length w) n"]) (metis append_take_drop_id)

lemma suffix_of_drop: "k + length w \<le> length n \<Longrightarrow> suffix w (drop k n) \<longleftrightarrow> suffix w n"
  by (auto simp: suffix_iff_drop)

text \<open>What is left of a name after the end of the expression cut off one character and \<open>git\<close>.\<close>

definition strip_git :: "string \<Rightarrow> string" where
  "strip_git n = (if 5 \<le> length n \<and> ends_with n ''git'' then take (length n - 4) n else n)"

definition project_end :: rx where
  "project_end = Rx_seq (rx_opt (Rx_seq (Rx_char rx_any) (rx_str ''git'')))
     (Rx_seq (rx_opt (rx_lit slash)) (Rx_seq Rx_end Rx_empty))"

lemma rx_first_project_end:
  assumes "list_all rx_any s" and "slash \<notin> set s"
  shows "rx_first project_end (b, s, cs) =
    (if s = [] \<or> length s = 4 \<and> ends_with s ''git'' then Some (rev s @ b, [], cs) else None)"
proof -
  have tail: "rx_first (Rx_seq (rx_opt (rx_lit slash)) (Rx_seq Rx_end Rx_empty)) (b', s', cs) =
      (if s' = [] then Some (b', [], cs) else None)" if "slash \<notin> set s'" for b' s'
    using that by (cases s') (auto simp: rx_first_opt)
  show ?thesis
  proof (cases "\<exists>c. s = c # ''git''")
    case True
    then obtain c where "s = c # ''git''" by blast
    with assms tail [of "[]"] show ?thesis
      by (simp add: project_end_def rx_first_opt [of "Rx_seq _ _"] rx_first_assoc suffix_def)
  next
    case False
    then have no: "\<not> (length s = 4 \<and> ends_with s ''git'')"
      by (auto simp: suffix_def length_Suc_conv append_eq_Cons_conv numeral_eq_Suc)
    have "rx_first (Rx_seq (Rx_seq (Rx_char rx_any) (rx_str ''git''))
        (Rx_seq (rx_opt (rx_lit slash)) (Rx_seq Rx_end Rx_empty))) (b, s, cs) = None"
    proof (cases s)
      case (Cons c t)
      have "slash \<notin> set (drop 3 t)" using assms(2) Cons by (auto dest: in_set_dropD)
      moreover have "prefix ''git'' t \<Longrightarrow> drop 3 t \<noteq> []" using False Cons by (auto simp: prefix_def)
      ultimately show ?thesis
        using tail [of "drop 3 t"] assms(1) Cons
        by (auto simp: rx_first_assoc numeral_3_eq_3 simp del: rx_str.simps)
    qed (simp add: rx_first_assoc)
    with no tail [of s] assms show ?thesis by (simp add: project_end_def rx_first_opt)
  qed
qed

lemma rx_first_project_name:
  assumes "list_all rx_any n" and "slash \<notin> set n" and "n \<noteq> []"
  shows "rx_first (Rx_seq (Rx_group 2 (rx_plus False (Rx_char (\<lambda>c. c \<noteq> slash)))) project_end) (b, n, cs) =
    Some (rev n @ b, [], (2, strip_git n) # cs)"
proof -
  obtain x w where w: "n = x # w" using assms(3) by (cases n) auto
  have tw: "takeWhile (\<lambda>c. c \<noteq> slash) n = x # w"
    using assms(2) w by (auto simp: takeWhile_eq_all_conv)
  let ?f = "\<lambda>k. rx_first project_end (rev (take (Suc k) n) @ b, drop (Suc k) n, (2, take (Suc k) n) # cs)"
  have f: "?f k = (if Suc k = length n \<or> Suc k + 4 = length n \<and> ends_with n ''git''
      then Some (rev n @ b, [], (2, take (Suc k) n) # cs) else None)" if "k < length n" for k
  proof -
    have "rev (drop (Suc k) n) @ rev (take (Suc k) n) = rev n"
      by (metis append_take_drop_id rev_append)
    moreover have "ends_with (drop (Suc k) n) ''git'' \<longleftrightarrow> ends_with n ''git''" if "Suc k + 4 = length n"
      using that by (intro suffix_of_drop) simp
    moreover have "list_all rx_any (drop (Suc k) n)" "slash \<notin> set (drop (Suc k) n)"
      using assms(1,2) by (auto simp: list_all_iff dest: in_set_dropD)
    ultimately show ?thesis
      using that by (auto simp: rx_first_project_end)
  qed
  define i where "i = length (strip_git n) - 1"
  have i: "i < length n" "Suc i = length (strip_git n)" "take (Suc i) n = strip_git n"
      "Suc i = length n \<or> Suc i + 4 = length n \<and> ends_with n ''git''"
    using assms(3) by (auto simp: i_def strip_git_def)
  have least: "?f j = None" if "j < i" for j
    using that i f [of j] by (auto simp: strip_git_def split: if_splits)
  have "first_some ?f [0..<Suc (length w)] = Some (rev n @ b, [], (2, strip_git n) # cs)"
  proof (rule first_some_at [of i])
    show "i < length [0..<Suc (length w)]" using i(1) w by simp
    then have "[0..<Suc (length w)] ! i = i" by (simp del: upt_Suc)
    with f [OF i(1)] i(3,4) show "?f ([0..<Suc (length w)] ! i) = Some (rev n @ b, [], (2, strip_git n) # cs)"
      by simp
    fix j
    assume "j < i"
    moreover from this i(1) w have "[0..<Suc (length w)] ! j = j" by (simp del: upt_Suc)
    ultimately show "?f ([0..<Suc (length w)] ! j) = None" using least by simp
  qed
  then show ?thesis
    by (simp add: rx_first_seq [of "Rx_group 2 _"] rx_run_plus_char tw first_some_map star_lengths_def rx_after_def
        del: upt_Suc)
qed

lemma rx_run_group_plus:
  "rx_run (Rx_group n (rx_plus greedy (Rx_char P))) (b, s, cs) =
     map (\<lambda>k. (rev (take (Suc k) s) @ b, drop (Suc k) s, (n, take (Suc k) s) # cs))
       (case takeWhile P s of [] \<Rightarrow> [] | _ # w \<Rightarrow> star_lengths greedy (length w))"
proof (cases "takeWhile P s")
  case Nil
  then show ?thesis by (simp add: rx_run_plus_char)
next
  case (Cons x w)
  have "length (take (Suc k) s) = Suc k" if "k \<le> length w" for k
  proof -
    from Cons have "length (takeWhile P s) = Suc (length w)" by simp
    with that length_takeWhile_le [of P s] show ?thesis by simp
  qed
  then show ?thesis
    by (auto simp: rx_run_plus_char Cons rx_after_def star_lengths_def)
qed

lemma project_regex_eq:
  "project_regex instancePath =
     Rx_seq (rx_opt (rx_str instancePath)) (Rx_seq (rx_lit slash) (Rx_seq (rx_opt (rx_lit CHR '':''))
       (Rx_seq (Rx_group 1 (rx_plus True (Rx_char rx_any))) (Rx_seq (rx_lit slash)
         (Rx_seq (Rx_group 2 (rx_plus False (Rx_char (\<lambda>c. c \<noteq> slash)))) project_end)))))"
  by (simp add: project_regex_def project_end_def)

lemma project_match:
  assumes "x = instancePath \<or> x = [] \<and> \<not> prefix instancePath (slash # ns @ slash # n)"
    and "list_all rx_any ns" and "ns \<noteq> []" and "hd ns \<noteq> CHR '':''"
    and "list_all rx_any n" and "slash \<notin> set n" and "n \<noteq> []"
  shows "rx_match (project_regex instancePath) (x @ slash # ns @ slash # n) = Some (map_of [(2, strip_git n), (1, ns)])"
proof -
  let ?s = "ns @ slash # n"
  let ?q = "Rx_seq (rx_lit slash) (Rx_seq (Rx_group 2 (rx_plus False (Rx_char (\<lambda>c. c \<noteq> slash)))) project_end)"
  have any: "takeWhile rx_any ?s = ?s"
    using assms(2,5) by (simp add: takeWhile_eq_all_conv list_all_iff rx_any_def slash_def)
  obtain y v where yv: "?s = y # v" using assms(3) by (cases ns) auto
  have main: "rx_first (Rx_seq (Rx_group 1 (rx_plus True (Rx_char rx_any))) ?q) (b, ?s, []) =
      Some (rev n @ slash # rev ns @ b, [], [(2, strip_git n), (1, ns)])" for b
  proof -
    let ?f = "\<lambda>k. rx_first ?q (rev (take (Suc k) ?s) @ b, drop (Suc k) ?s, [(1, take (Suc k) ?s)])"
    let ?m = "length v"
    have m: "Suc ?m = length ns + Suc (length n)"
      using arg_cong [OF yv, of length] by simp
    have none: "?f k = None" if "length ns \<le> k" for k
    proof -
      have "drop (Suc k) ?s = drop (k - length ns) n" using that by (simp add: Suc_diff_le)
      moreover have "slash \<notin> set (drop (k - length ns) n)" using assms(6) by (auto dest: in_set_dropD)
      ultimately show ?thesis by (cases "drop (Suc k) ?s") auto
    qed
    have last: "?f (length ns - 1) = Some (rev n @ slash # rev ns @ b, [], [(2, strip_git n), (1, ns)])"
      using rx_first_project_name [OF assms(5-7)] assms(3) by (simp del: rx_first_seq_empty)
    have at: "rev [0..<Suc ?m] ! j = ?m - j" if "j \<le> ?m" for j
      using that by (simp add: rev_nth del: upt_Suc)
    have "first_some ?f (rev [0..<Suc ?m]) = Some (rev n @ slash # rev ns @ b, [], [(2, strip_git n), (1, ns)])"
    proof (rule first_some_at [of "length n + 1"])
      show "length n + 1 < length (rev [0..<Suc ?m])" using m assms(3) by (cases ns) simp_all
      have "rev [0..<Suc ?m] ! (length n + 1) = length ns - 1"
        using m assms(3) at [of "length n + 1"] by (cases ns) simp_all
      with last show "?f (rev [0..<Suc ?m] ! (length n + 1)) =
          Some (rev n @ slash # rev ns @ b, [], [(2, strip_git n), (1, ns)])" by metis
      fix j
      assume "j < length n + 1"
      with m have "j \<le> ?m" "length ns \<le> ?m - j" by linarith+
      with at none show "?f (rev [0..<Suc ?m] ! j) = None" by metis
    qed
    moreover have "rx_run (Rx_group 1 (rx_plus True (Rx_char rx_any))) (b, ?s, []) =
        map (\<lambda>k. (rev (take (Suc k) ?s) @ b, drop (Suc k) ?s, [(1, take (Suc k) ?s)])) (rev [0..<Suc ?m])"
      unfolding rx_run_group_plus any by (simp only: yv list.case star_lengths_def if_True)
    ultimately show ?thesis
      by (simp only: rx_first_seq [of "Rx_group 1 (rx_plus True (Rx_char rx_any))"] first_some_map)
  qed
  have "rx_first (Rx_seq (rx_lit slash) (Rx_seq (rx_opt (rx_lit CHR '':''))
      (Rx_seq (Rx_group 1 (rx_plus True (Rx_char rx_any))) ?q))) (b, slash # ?s, []) =
      Some (rev n @ slash # rev ns @ slash # b, [], [(2, strip_git n), (1, ns)])" for b
    using main [of "slash # b"] assms(3,4) by (cases ns) (auto simp: rx_first_opt)
  then have "rx_first (project_regex instancePath) ([], x @ slash # ?s, []) =
      Some (rev n @ slash # rev ns @ slash # rev x, [], [(2, strip_git n), (1, ns)])"
    using assms(1)
    by (auto simp: project_regex_eq rx_first_opt [of "rx_str instancePath"])
  then show ?thesis by (rule rx_match_here)
qed

lemma rx_first_group_plus:
  assumes "list_all P w" and "w \<noteq> []" and "t = [] \<or> \<not> P (hd t)"
    and "rx_first q (rev w @ b, t, (n, w) # cs) = Some st"
  shows "rx_first (Rx_seq (Rx_group n (rx_plus True (Rx_char P))) q) (b, w @ t, cs) = Some st"
proof -
  obtain x v where w: "w = x # v" using assms(2) by (cases w) auto
  have tw: "takeWhile P (w @ t) = x # v" using takeWhile_run [OF assms(1,3)] w by simp
  have run: "rx_run (Rx_group n (rx_plus True (Rx_char P))) (b, w @ t, cs) =
      map (\<lambda>k. (rev (take (Suc k) (w @ t)) @ b, drop (Suc k) (w @ t), (n, take (Suc k) (w @ t)) # cs))
        (rev [0..<Suc (length v)])"
    unfolding rx_run_group_plus tw by (simp only: list.case star_lengths_def if_True)
  have len: "length w = Suc (length v)" by (simp add: w)
  then show ?thesis
    using assms(4) by (simp add: rx_first_seq [of "Rx_group n (rx_plus True (Rx_char P))"] run first_some_map
        del: rx_run.simps)
qed

lemma http_of_scp:
  assumes "CHR '':'' \<notin> set d" and "d \<noteq> []" and "list_all rx_any p" and "p \<noteq> []"
  shows "convertToHttpUrl (''git@'' @ d @ '':'' @ p) = ''https://'' @ d @ ''/'' @ p"
proof -
  have d: "list_all (\<lambda>c. c \<noteq> CHR '':'') d" using assms(1) by (auto simp: list_all_iff)
  have "rx_first (Rx_seq (Rx_group 2 (rx_plus True (Rx_char rx_any))) Rx_empty) (b, p @ [], cs) =
      Some (rev p @ b, [], (2, p) # cs)" for b cs
    by (rule rx_first_group_plus [OF assms(3,4)]) simp_all
  then have "rx_first git_at_host ([], ''git@'' @ d @ CHR '':'' # p, []) =
      Some (rev p @ CHR '':'' # rev d @ rev ''git@'', [], [(2, p), (1, d)])"
    unfolding git_at_host_def rx_cat.simps rx_first_str
    by (auto intro!: rx_first_group_plus [OF d assms(2)])
  from rx_match_here [OF this] show ?thesis
    by (simp add: convertToHttpUrl_def match_group_def)
qed

text \<open>The spellings of an SSH remote that git knows, with and without a port, normalise to addresses on the
  same host with the port left out.\<close>

theorem ssh_forms_normalised:
  assumes "list_all user_char u" and "u \<noteq> []" and "list_all rx_any h" and "CHR '':'' \<notin> set h"
    and "list_all digit_char d" and "d \<noteq> []" and "list_all rx_any p" and "p = [] \<or> \<not> digit_char (hd p)"
  shows "normalizeSshRemote (u @ ''@'' @ h @ '':'' @ p) = ''ssh://'' @ u @ ''@'' @ h @ ''/'' @ p \<and>
    normalizeSshRemote (''['' @ u @ ''@'' @ h @ '':'' @ d @ '']'' @ p) = ''ssh://'' @ u @ ''@'' @ h @ ''/'' @ p \<and>
    normalizeSshRemote (''ssh://'' @ u @ ''@'' @ h @ '':'' @ d @ p) = ''ssh://'' @ u @ ''@'' @ h @ p"
  by (simp only: normalize_scp [OF assms(1-4,7)] normalize_bracket [OF assms(1-7)] normalize_scheme [OF assms])

theorem ssh_forms_normalised_witness:
  "normalizeSshRemote (''git@host:g/p.git'') = ''ssh://git@host/g/p.git''"
  using ssh_forms_normalised [of "''git''" "''host''" "''22''" "''g/p.git''"]
  by (simp add: user_char_def rx_any_def digit_char_def)

text \<open>A remote on the user's instance names the last part of its path as the project and what is before it as
  the namespace, with or without the instance's own path; the ending \<open>.git\<close> is removed (and so are, as the dot
  of the expression is not escaped, the last four characters of any name of five or more that ends in \<open>git\<close>).\<close>

theorem remote_names_project:
  assumes "parse (normalizeSshRemote remote) = Some u" and "url_host u \<noteq> []"
    and "parse (normalizeSshRemote instanceUrl) = Some v" and "url_hostname v = url_hostname u"
    and "x = getInstancePath parse instanceUrl \<and> instanceUrl \<noteq> [] \<or>
         x = [] \<and> \<not> prefix (getInstancePath parse instanceUrl) (url_pathname u)"
    and "url_pathname u = x @ slash # ns @ slash # n"
    and "list_all rx_any ns" and "ns \<noteq> []" and "hd ns \<noteq> CHR '':''"
    and "list_all rx_any n" and "slash \<notin> set n" and "n \<noteq> []"
  shows "parseKhulnaSoftRemote parse remote instanceUrl =
    Some \<lparr>gr_host = url_host u, gr_namespace = ns, gr_projectPath = strip_git n,
          gr_namespaceWithPath = ns @ ''/'' @ strip_git n\<rparr>"
proof -
  let ?P = "if instanceUrl \<noteq> [] \<or> trim instanceUrl \<noteq> [] then getInstancePath parse instanceUrl else []"
  have "rx_match (project_regex ?P) (url_pathname u) = Some (map_of [(2, strip_git n), (1, ns)])"
    unfolding assms(6) using assms(5)
    by (intro project_match [OF _ assms(7-12)]) (auto simp: assms(6) trim_Nil_iff)
  with assms(1-4,6) show ?thesis
    by (simp add: parseKhulnaSoftRemote_def tryParseUrl_def match_group_def)
qed

text \<open>The parts of some addresses.\<close>

definition demo_urls :: url_parser where
  "demo_urls s =
     (if s = ''ssh://git@host/g/p.git'' then Some \<lparr>url_host = ''host'', url_hostname = ''host'', url_pathname = ''/g/p.git''\<rparr>
      else if s = ''https://host'' then Some \<lparr>url_host = ''host'', url_hostname = ''host'', url_pathname = ''/''\<rparr>
      else None)"

lemma demo_normalized [simp]: "normalizeSshRemote ''https://host'' = ''https://host''"
proof -
  have "rx_search sshRemoteWithPath [] ''https://host'' = None"
    by (simp add: sshRemoteWithPath_def user_at_host_def rx_run_plus_char star_lengths_def user_char_def rx_after_def)
  then show ?thesis
    by (simp add: normalizeSshRemote_def sshRemoteWithCustomPort_def sshRemoteWithSchemeAndCustomPort_def rx_match_begin
        rx_match_def rx_test_def ssh_start_def user_at_host_def rx_run_plus_char star_lengths_def user_char_def
        rx_after_def)
qed

theorem remote_names_project_witness:
  "parseKhulnaSoftRemote demo_urls ''git@host:g/p.git'' ''https://host'' =
     Some \<lparr>gr_host = ''host'', gr_namespace = ''g'', gr_projectPath = ''p'', gr_namespaceWithPath = ''g/p''\<rparr>"
proof -
  let ?u = "\<lparr>url_host = ''host'', url_hostname = ''host'', url_pathname = ''/g/p.git''\<rparr>"
  have "normalizeSshRemote ''git@host:g/p.git'' = ''ssh://git@host/g/p.git''"
    using normalize_scp [of "''git''" "''host''" "''g/p.git''"] by (simp add: user_char_def rx_any_def)
  then have "demo_urls (normalizeSshRemote ''git@host:g/p.git'') = Some ?u"
    by (simp add: demo_urls_def)
  moreover have "strip_git ''p.git'' = ''p''" by (simp add: strip_git_def suffix_def)
  ultimately show ?thesis
    using remote_names_project [of demo_urls "''git@host:g/p.git''" ?u "''https://host''"
        "\<lparr>url_host = ''host'', url_hostname = ''host'', url_pathname = ''/''\<rparr>" "[]" "''g''" "''p.git''"]
    by (simp add: demo_urls_def getInstancePath_def tryParseUrl_def strip_slash_def slash_def rx_any_def)
qed

end
