(* ===== verification/Duo_Access.thy ===== *)
theory Duo_Access
  imports Git_Remote Node_Runtime Suggestions_Cache
begin

text \<open>
  Whether the Duo features may be used for a document (\<open>src/common/services/duo_access/\<close>): the cache of the
  projects of the workspace folders (\<open>workspace_project_access_cache.ts\<close>), the deepest project a document
  lies in (\<open>project_access_checker.ts\<close>) and the cache of projects by id (\<open>api_project_access_cache.ts\<close>).

  Parameters: the directory walker and the file system give the configuration files and their contents
  (the package \<open>ini\<close> parses them into sections), \<open>ws_urls\<close> is the class \<open>URL\<close>, and the API answers queries.
\<close>

subsection \<open>Data\<close>

record duo_project =
  dp_remote :: git_remote
  dp_uri :: string
  dp_enabled :: bool

datatype duo_project_status = DuoEnabled | DuoDisabled | NonGitlabProject

text \<open>The cache: projects by the URI of a workspace folder, and the listeners of its updates.\<close>

record 'l project_cache =
  pc_duoProjects :: "(string, duo_project list) jsmap"
  pc_emitter :: "(unit, 'l) emitter"
  pc_calls :: "'l list"

definition pc_new :: "'l project_cache" where
  "pc_new = \<lparr>pc_duoProjects = [], pc_emitter = [], pc_calls = []\<rparr>"

definition getProjectsForWorkspaceFolder :: "'l project_cache \<Rightarrow> workspace_folder \<Rightarrow> duo_project list" where
  "getProjectsForWorkspaceFolder c folder = or_else (map_get (pc_duoProjects c) (wf_uri folder)) []"

definition onDuoProjectCacheUpdate :: "'l \<Rightarrow> 'l project_cache \<Rightarrow> 'l project_cache" where
  "onDuoProjectCacheUpdate l c = c\<lparr>pc_emitter := em_on () l (pc_emitter c)\<rparr>"

definition onDuoProjectCacheUpdate_dispose :: "'l \<Rightarrow> 'l project_cache \<Rightarrow> 'l project_cache" where
  "onDuoProjectCacheUpdate_dispose l c = c\<lparr>pc_emitter := em_removeListener () l (pc_emitter c)\<rparr>"

definition pc_triggerChange :: "'l project_cache \<Rightarrow> 'l project_cache" where
  "pc_triggerChange c = c\<lparr>pc_calls := pc_calls c @ em_listeners () (pc_emitter c)\<rparr>"

subsection \<open>Finding the projects of a folder\<close>

text \<open>Each section of a git configuration with its \<open>url\<close>; a section without one gives \<open>undefined\<close>.\<close>

definition getRemoteUrls :: "(string \<times> string option) list \<Rightarrow> string option list" where
  "getRemoteUrls config = map snd (filter (\<lambda>s. starts_with (fst s) ''remote '') config)"

text \<open>\<open>ws_configs\<close>: the configuration files below a folder; \<open>ws_read\<close>: a file's sections, \<open>None\<close> when it
  cannot be read or parsed; \<open>ws_enabled\<close>: the answer of the API, \<open>None\<close> when the request failed.\<close>

record workspace_env =
  ws_configs :: "string \<Rightarrow> string list"
  ws_read :: "string \<Rightarrow> (string \<times> string option) list option"
  ws_urls :: url_parser
  ws_baseUrl :: string
  ws_enabled :: "string \<Rightarrow> bool option"

definition remoteUrlsFromGitConfig :: "workspace_env \<Rightarrow> string \<Rightarrow> string option list" where
  "remoteUrlsFromGitConfig env fileUri =
     (case ws_read env fileUri of None \<Rightarrow> [] | Some config \<Rightarrow> getRemoteUrls config)"

text \<open>Parsing \<open>undefined\<close> throws.\<close>

fun parse_remotes :: "workspace_env \<Rightarrow> string \<Rightarrow> string option list \<Rightarrow> js_error + (git_remote \<times> string) list" where
  "parse_remotes env fileUri [] = Inr []"
| "parse_remotes env fileUri (None # us) = Inl TypeError"
| "parse_remotes env fileUri (Some u # us) =
     (case parse_remotes env fileUri us of
        Inl e \<Rightarrow> Inl e
      | Inr rs \<Rightarrow> Inr (case parseKhulnaSoftRemote (ws_urls env) u (ws_baseUrl env) of None \<Rightarrow> rs | Some r \<Rightarrow> (r, fileUri) # rs))"

fun collect :: "('a \<Rightarrow> js_error + 'b list) \<Rightarrow> 'a list \<Rightarrow> js_error + 'b list" where
  "collect f [] = Inr []"
| "collect f (x # xs) =
     (case f x of
        Inl e \<Rightarrow> Inl e
      | Inr ys \<Rightarrow> (case collect f xs of Inl e \<Rightarrow> Inl e | Inr zs \<Rightarrow> Inr (ys @ zs)))"

definition gitlabRemotesForWorkspaceFolder ::
  "workspace_env \<Rightarrow> workspace_folder \<Rightarrow> js_error + (git_remote \<times> string) list" where
  "gitlabRemotesForWorkspaceFolder env folder =
     collect (\<lambda>fileUri. parse_remotes env fileUri (remoteUrlsFromGitConfig env fileUri))
       (ws_configs env (wf_uri folder))"

text \<open>A project whose query fails counts as enabled.\<close>

definition checkDuoFeaturesEnabled :: "workspace_env \<Rightarrow> string \<Rightarrow> bool" where
  "checkDuoFeaturesEnabled env projectPath = or_else (ws_enabled env projectPath) True"

definition duoProjectsForWorkspaceFolder ::
  "workspace_env \<Rightarrow> workspace_folder \<Rightarrow> js_error + duo_project list" where
  "duoProjectsForWorkspaceFolder env folder =
     map_sum id
       (map (\<lambda>(r, fileUri). \<lparr>dp_remote = r, dp_uri = fileUri,
                dp_enabled = checkDuoFeaturesEnabled env (gr_namespaceWithPath r)\<rparr>))
       (gitlabRemotesForWorkspaceFolder env folder)"

text \<open>\<open>updateCache\<close> up to its \<open>await\<close>, and from there on.\<close>

definition pc_updateStart :: "'l project_cache \<Rightarrow> 'l project_cache" where
  "pc_updateStart c = c\<lparr>pc_duoProjects := []\<rparr>"

definition pc_updateDone ::
  "workspace_env \<Rightarrow> workspace_folder list \<Rightarrow> 'l project_cache \<Rightarrow> 'l project_cache" where
  "pc_updateDone env folders c =
     (case collect (\<lambda>f. map_sum id (\<lambda>ps. [(wf_uri f, ps)]) (duoProjectsForWorkspaceFolder env f)) folders of
        Inl e \<Rightarrow> c
      | Inr entries \<Rightarrow>
          pc_triggerChange
            (c\<lparr>pc_duoProjects := fold (\<lambda>(u, ps) m. map_set u ps m) entries (pc_duoProjects c)\<rparr>))"

definition pc_updateCache ::
  "workspace_env \<Rightarrow> workspace_folder list \<Rightarrow> 'l project_cache \<Rightarrow> 'l project_cache" where
  "pc_updateCache env folders c = pc_updateDone env folders (pc_updateStart c)"

subsection \<open>The project of a document\<close>

definition project_dir :: "duo_project \<Rightarrow> string" where
  "project_dir p = replace_first ''.git/config'' [] (dp_uri p)"

fun findDeepest :: "string \<Rightarrow> duo_project list \<Rightarrow> duo_project option \<Rightarrow> duo_project option" where
  "findDeepest uri [] deepest = deepest"
| "findDeepest uri (p # ps) deepest =
     findDeepest uri ps
       (if starts_with uri (project_dir p) then
          (case deepest of
             None \<Rightarrow> Some p
           | Some d \<Rightarrow> if length (dp_uri p) > length (dp_uri d) then Some p else Some d)
        else deepest)"

definition findDeepestProjectByPath :: "string \<Rightarrow> duo_project list \<Rightarrow> duo_project option" where
  "findDeepestProjectByPath uri projects = findDeepest uri projects None"

definition checkProjectStatus ::
  "'l project_cache \<Rightarrow> string \<Rightarrow> workspace_folder \<Rightarrow> duo_project option \<times> duo_project_status" where
  "checkProjectStatus c uri folder =
     (let projects = getProjectsForWorkspaceFolder c folder in
      if projects = [] then (None, NonGitlabProject)
      else case findDeepestProjectByPath uri projects of
          None \<Rightarrow> (None, NonGitlabProject)
        | Some p \<Rightarrow> (Some p, if dp_enabled p then DuoEnabled else DuoDisabled))"

subsection \<open>Projects by id\<close>

text \<open>The record \<open>#duoProjects\<close>; \<open>query\<close> is the answer of the API for the ids asked, by id, without
  the edges whose id cannot be parsed, and \<open>None\<close> when the request failed.\<close>

type_synonym id_cache = "(nat, bool) jsmap"

definition ac_onApiReconfigured :: "id_cache \<Rightarrow> id_cache" where
  "ac_onApiReconfigured c = []"

definition missingFromCache :: "nat list \<Rightarrow> id_cache \<Rightarrow> nat list" where
  "missingFromCache ids c = rev (remdups (rev (filter (\<lambda>i. map_get c i \<noteq> Some True) ids)))"

definition ac_checkDuoFeaturesEnabled ::
  "(nat list \<Rightarrow> (nat option \<times> bool) list option) \<Rightarrow> nat list \<Rightarrow> (nat \<times> bool) list" where
  "ac_checkDuoFeaturesEnabled query ids =
     (case query ids of
        None \<Rightarrow> []
      | Some edges \<Rightarrow>
          List.map_filter (\<lambda>(gid, b). case gid of None \<Rightarrow> None | Some i \<Rightarrow> if i = 0 then None else Some (i, b)) edges)"

definition getEnabledForProjects ::
  "(nat list \<Rightarrow> (nat option \<times> bool) list option) \<Rightarrow> nat list \<Rightarrow> id_cache \<Rightarrow> (nat \<times> bool) list \<times> id_cache" where
  "getEnabledForProjects query ids c =
     (let missing = missingFromCache ids c;
          c' = (if missing = [] then c
                else fold (\<lambda>(i, b) m. map_set i b m) (ac_checkDuoFeaturesEnabled query missing) c)
      in (fold (\<lambda>i m. map_set i (or_else (map_get c' i) False) m) ids [], c'))"

definition checkProjectStatusesByIds ::
  "(nat list \<Rightarrow> (nat option \<times> bool) list option) \<Rightarrow> nat list \<Rightarrow> id_cache \<Rightarrow>
   (nat \<times> duo_project_status) list \<times> id_cache" where
  "checkProjectStatusesByIds query ids c =
     apfst (\<lambda>statuses.
       fold (\<lambda>i m. map_set i (if map_get statuses i = Some True then DuoEnabled else DuoDisabled) m) ids [])
       (getEnabledForProjects query ids c)"

subsection \<open>Lemmas\<close>

lemma findDeepest_Some:
  "\<exists>x. findDeepest uri ps (Some y) = Some x \<and> (x = y \<or> x \<in> set ps \<and> starts_with uri (project_dir x)) \<and>
     length (dp_uri y) \<le> length (dp_uri x) \<and>
     (\<forall>p \<in> set ps. starts_with uri (project_dir p) \<longrightarrow> length (dp_uri p) \<le> length (dp_uri x))"
proof (induction ps arbitrary: y)
  case Nil
  then show ?case by simp
next
  case (Cons p ps)
  show ?case
  proof (cases "starts_with uri (project_dir p) \<and> length (dp_uri p) > length (dp_uri y)")
    case True
    with Cons.IH [of p] show ?thesis by auto
  next
    case False
    then have "findDeepest uri (p # ps) (Some y) = findDeepest uri ps (Some y)" by auto
    with False Cons.IH [of y] show ?thesis by (auto simp: not_less intro: le_trans)
  qed
qed

lemma findDeepest_None:
  "case findDeepest uri ps None of
     None \<Rightarrow> \<forall>p \<in> set ps. \<not> starts_with uri (project_dir p)
   | Some x \<Rightarrow> x \<in> set ps \<and> starts_with uri (project_dir x) \<and>
       (\<forall>p \<in> set ps. starts_with uri (project_dir p) \<longrightarrow> length (dp_uri p) \<le> length (dp_uri x))"
proof (induction ps)
  case Nil
  then show ?case by simp
next
  case (Cons p ps)
  show ?case
  proof (cases "starts_with uri (project_dir p)")
    case True
    with findDeepest_Some [of uri ps p] show ?thesis by auto
  next
    case False
    with Cons.IH show ?thesis by (auto split: option.splits)
  qed
qed

lemma parse_remotes_None: "None \<in> set us \<Longrightarrow> \<exists>e. parse_remotes env u us = Inl e"
proof (induction us)
  case (Cons x us)
  then show ?case by (cases x) (auto split: sum.splits)
qed simp

lemma collect_error: "\<exists>e. g x = Inl e \<Longrightarrow> x \<in> set xs \<Longrightarrow> \<exists>e. collect g xs = Inl e"
  by (induction xs) (auto split: sum.splits)

lemma map_get_fold_update:
  "map_get (fold (\<lambda>(u, ps) m. map_set u ps m) es m) k =
     (case map_of (rev es) k of None \<Rightarrow> map_get m k | Some v \<Rightarrow> Some v)"
  by (induction es arbitrary: m) (auto simp: map_add_def split: option.splits)

lemma map_get_fold_set:
  "map_get (fold (\<lambda>i m. map_set i (f i) m) ids m) k = (if k \<in> set ids then Some (f k) else map_get m k)"
  by (induction ids arbitrary: m) auto

subsection \<open>Properties\<close>

text \<open>A document belongs to the deepest project around it: the status of a document comes from a cached
  project of the folder whose directory contains the document and whose URI is the longest of those, and
  it counts as outside every project exactly when no cached project's directory contains it.\<close>

theorem deepest_project_decides:
  "(case checkProjectStatus c uri folder of
      (Some p, st) \<Rightarrow>
        p \<in> set (getProjectsForWorkspaceFolder c folder) \<and> starts_with uri (project_dir p) \<and>
        list_all (\<lambda>q. \<not> (starts_with uri (project_dir q) \<and> length (dp_uri q) > length (dp_uri p)))
          (getProjectsForWorkspaceFolder c folder) \<and>
        st = (if dp_enabled p then DuoEnabled else DuoDisabled)
    | (None, st) \<Rightarrow>
        st = NonGitlabProject \<and>
        list_all (\<lambda>q. \<not> starts_with uri (project_dir q)) (getProjectsForWorkspaceFolder c folder))"
  using findDeepest_None [where uri = uri and ps = "getProjectsForWorkspaceFolder c folder"]
  by (auto simp: checkProjectStatus_def findDeepestProjectByPath_def Let_def list_all_iff not_less
      split: option.splits)

text \<open>One remote section without a URL in any folder makes the whole update fail: the cache stays
  empty and nobody is told.\<close>

theorem remote_without_url_empties_cache:
  assumes "f \<in> set folders" and "u \<in> set (ws_configs env (wf_uri f))"
    and "None \<in> set (remoteUrlsFromGitConfig env u)"
  shows "pc_updateCache env folders c = c\<lparr>pc_duoProjects := []\<rparr>"
proof -
  have "\<exists>e. parse_remotes env u (remoteUrlsFromGitConfig env u) = Inl e"
    by (rule parse_remotes_None [OF assms(3)])
  then have "\<exists>e. gitlabRemotesForWorkspaceFolder env f = Inl e"
    unfolding gitlabRemotesForWorkspaceFolder_def using assms(2) by (rule collect_error)
  then have "\<exists>e. map_sum id (\<lambda>ps. [(wf_uri f, ps)]) (duoProjectsForWorkspaceFolder env f) = Inl e"
    by (auto simp: duoProjectsForWorkspaceFolder_def)
  then have "\<exists>e. collect (\<lambda>f. map_sum id (\<lambda>ps. [(wf_uri f, ps)]) (duoProjectsForWorkspaceFolder env f)) folders = Inl e"
    using assms(1) by (rule collect_error)
  then show ?thesis by (auto simp: pc_updateCache_def pc_updateDone_def pc_updateStart_def)
qed

text \<open>The answer about projects by id is complete and cautious: exactly the ids asked are answered; an id
  is reported as the query just made says, and without an answer (a failed query, no query because
  nothing was missing) as enabled only if it was cached as enabled.\<close>

theorem enabled_for_projects:
  "map_get (fst (getEnabledForProjects query ids c)) i =
     (if i \<notin> set ids then None
      else Some (case (if missingFromCache ids c = [] then None
                       else map_of (rev (ac_checkDuoFeaturesEnabled query (missingFromCache ids c))) i) of
                   Some b \<Rightarrow> b
                 | None \<Rightarrow> map_get c i = Some True))"
  by (auto simp: getEnabledForProjects_def map_get_fold_set map_get_fold_update or_else_def Let_def
      split: option.splits)

text \<open>A workspace with two nested projects, the inner one disabled.\<close>

definition demo_cache_projects :: "nat project_cache" where
  "demo_cache_projects =
     pc_new\<lparr>pc_duoProjects := [(''file:///w'',
       [\<lparr>dp_remote = \<lparr>gr_host = ''h'', gr_namespace = ''g'', gr_projectPath = ''a'', gr_namespaceWithPath = ''g/a''\<rparr>,
         dp_uri = ''file:///w/.git/config'', dp_enabled = True\<rparr>,
        \<lparr>dp_remote = \<lparr>gr_host = ''h'', gr_namespace = ''g'', gr_projectPath = ''b'', gr_namespaceWithPath = ''g/b''\<rparr>,
         dp_uri = ''file:///w/b/.git/config'', dp_enabled = False\<rparr>])]\<rparr>"

lemma nested_project_disabled:
  "snd (checkProjectStatus demo_cache_projects ''file:///w/b/x.ts'' \<lparr>wf_uri = ''file:///w'', wf_name = ''w''\<rparr>) = DuoDisabled"
  by code_simp

end
