(* ===== verification/Feature_State.thy ===== *)
theory Feature_State
  imports Circuit_Breaker Supported_Languages Duo_Access
begin

text \<open>
  Which features are available and why not (\<open>src/common/feature_state/\<close>): the checks, each a small state
  machine that fires \<open>change\<close>, and the manager that remembers which checks are engaged and tells the
  client.  The interface \<open>StateCheck\<close> is the locale \<open>state_check\<close>: what a check shows (its id and whether
  it is engaged) changes only together with a \<open>change\<close> event.  That law is what the manager needs to
  report the truth; every check interprets it.
\<close>

subsection \<open>Ids and priorities (\<open>feature_state_management_types.ts\<close>)\<close>

datatype feature = Feature_authentication | Feature_code_suggestions | Feature_chat

datatype check_id =
    AUTHENTICATION_REQUIRED | INVALID_TOKEN | SUGGESTIONS_AUTHENTICATION_REQUIRED | SUGGESTIONS_NO_LICENSE
  | CHAT_AUTHENTICATION_REQUIRED | CHAT_NO_LICENSE | DUO_DISABLED_FOR_PROJECT
  | UNSUPPORTED_KHULNASOFT_VERSION | UNSUPPORTED_LANGUAGE | DISABLED_LANGUAGE | SUGGESTIONS_API_ERROR
  | CHAT_DISABLED_BY_USER | SUGGESTIONS_DISABLED_BY_USER

definition AUTHENTICATION_CHECK_PRIORITY_ORDERED :: "check_id list" where
  "AUTHENTICATION_CHECK_PRIORITY_ORDERED = [AUTHENTICATION_REQUIRED]"

definition CODE_SUGGESTIONS_CHECKS_PRIORITY_ORDERED :: "check_id list" where
  "CODE_SUGGESTIONS_CHECKS_PRIORITY_ORDERED =
     AUTHENTICATION_CHECK_PRIORITY_ORDERED @
     [SUGGESTIONS_DISABLED_BY_USER, SUGGESTIONS_API_ERROR, UNSUPPORTED_KHULNASOFT_VERSION,
      SUGGESTIONS_NO_LICENSE, DUO_DISABLED_FOR_PROJECT, UNSUPPORTED_LANGUAGE, DISABLED_LANGUAGE]"

definition CHAT_CHECKS_PRIORITY_ORDERED :: "check_id list" where
  "CHAT_CHECKS_PRIORITY_ORDERED =
     AUTHENTICATION_CHECK_PRIORITY_ORDERED @
     [CHAT_DISABLED_BY_USER, CHAT_NO_LICENSE, DUO_DISABLED_FOR_PROJECT]"

definition CHECKS_PER_FEATURE :: "(feature \<times> check_id list) list" where
  "CHECKS_PER_FEATURE =
     [(Feature_authentication, AUTHENTICATION_CHECK_PRIORITY_ORDERED),
      (Feature_code_suggestions, CODE_SUGGESTIONS_CHECKS_PRIORITY_ORDERED),
      (Feature_chat, CHAT_CHECKS_PRIORITY_ORDERED)]"

subsection \<open>The interface StateCheck\<close>

text \<open>A run of a check: after each step, whether it fired \<open>change\<close>, and its state.  \<open>watch\<close> is what the
  manager's listener does with the set of engaged ids.\<close>

fun watch ::
  "('s \<Rightarrow> check_id) \<Rightarrow> ('s \<Rightarrow> bool) \<Rightarrow> (bool \<times> 's) list \<Rightarrow> check_id set \<Rightarrow> check_id set" where
  "watch cid engaged [] E = E"
| "watch cid engaged ((fired, s) # r) E =
     watch cid engaged r
       (if fired then (if engaged s then insert (cid s) E else E - {cid s}) else E)"

fun run_of :: "('s \<Rightarrow> bool \<Rightarrow> 's \<Rightarrow> bool) \<Rightarrow> 's \<Rightarrow> (bool \<times> 's) list \<Rightarrow> bool" where
  "run_of step s [] = True"
| "run_of step s ((fired, s') # r) \<longleftrightarrow> step s fired s' \<and> run_of step s' r"

fun last_state :: "'s \<Rightarrow> (bool \<times> 's) list \<Rightarrow> 's" where
  "last_state s [] = s"
| "last_state s ((fired, s') # r) = last_state s' r"

locale state_check =
  fixes cid :: "'s \<Rightarrow> check_id" and engaged :: "'s \<Rightarrow> bool" and step :: "'s \<Rightarrow> bool \<Rightarrow> 's \<Rightarrow> bool"
  assumes silent: "step s False s' \<Longrightarrow> cid s' = cid s \<and> engaged s' = engaged s"
begin

lemma in_sync:
  "run_of step s r \<Longrightarrow> cid s \<in> E \<longleftrightarrow> engaged s \<Longrightarrow>
   cid (last_state s r) \<in> watch cid engaged r E \<longleftrightarrow> engaged (last_state s r)"
proof (induction r arbitrary: s E)
  case Nil
  then show ?case by simp
next
  case (Cons p r)
  obtain fired s' where p: "p = (fired, s')" by (cases p)
  with Cons.prems have st: "step s fired s'" "run_of step s' r" by simp_all
  show ?case
  proof (cases fired)
    case True
    with p st Cons.IH [of s' "if engaged s' then insert (cid s') E else E - {cid s'}"]
    show ?thesis by auto
  next
    case False
    with p st silent Cons.prems Cons.IH [of s' E] show ?thesis by auto
  qed
qed

text \<open>Once the check has fired, whatever set the manager had.\<close>

lemma in_sync_fired:
  "run_of step s r \<Longrightarrow> True \<in> fst ` set r \<Longrightarrow>
   cid (last_state s r) \<in> watch cid engaged r E \<longleftrightarrow> engaged (last_state s r)"
proof (induction r arbitrary: s E)
  case Nil
  then show ?case by simp
next
  case (Cons p r)
  obtain fired s' where p: "p = (fired, s')" by (cases p)
  with Cons.prems have st: "step s fired s'" "run_of step s' r" by simp_all
  show ?case
  proof (cases fired)
    case True
    with p st in_sync [of s' r "if engaged s' then insert (cid s') E else E - {cid s'}"]
    show ?thesis by auto
  next
    case False
    with p st Cons show ?thesis by auto
  qed
qed

end

subsection \<open>Checks of the configuration\<close>

text \<open>\<open>authentication_required_check.ts\<close>.\<close>

record auth_check =
  auc_isApiInValidState :: bool

definition auc_new :: auth_check where "auc_new = \<lparr>auc_isApiInValidState = False\<rparr>"

definition auc_engaged :: "auth_check \<Rightarrow> bool" where
  "auc_engaged c \<longleftrightarrow> \<not> auc_isApiInValidState c"

text \<open>A handler gives the new state and whether \<open>change\<close> was emitted.\<close>

definition auc_onApiReconfigured :: "bool \<Rightarrow> auth_check \<Rightarrow> bool \<times> auth_check" where
  "auc_onApiReconfigured isInValidState c = (True, c\<lparr>auc_isApiInValidState := isInValidState\<rparr>)"

inductive auc_step :: "auth_check \<Rightarrow> bool \<Rightarrow> auth_check \<Rightarrow> bool" where
  "auc_onApiReconfigured b c = (fired, c') \<Longrightarrow> auc_step c fired c'"

interpretation auc: state_check "\<lambda>c. AUTHENTICATION_REQUIRED" auc_engaged auc_step
  by unfold_locales (auto elim!: auc_step.cases simp: auc_onApiReconfigured_def)

text \<open>What the checks read of the client configuration.\<close>

record check_config =
  kc_token :: "string option"
  kc_baseUrl :: "string option"
  kc_duoChatEnabled :: "bool option"
  kc_codeCompletionEnabled :: "bool option"
  kc_enabledWithoutProject :: "bool option"
  kc_workspaceFolders :: "workspace_folder list option"

record feature_check =
  fc_checkId :: check_id
  fc_details :: "string option"
  fc_context :: "(string \<times> string) option"
  fc_engaged :: bool

text \<open>\<open>chat_enabled_check.ts\<close> and \<open>code_suggestions_enabled_check.ts\<close>.\<close>

record enabled_check =
  ec_isEnabledByUser :: bool

definition ec_new :: enabled_check where "ec_new = \<lparr>ec_isEnabledByUser = True\<rparr>"

definition ec_engaged :: "enabled_check \<Rightarrow> bool" where
  "ec_engaged c \<longleftrightarrow> \<not> ec_isEnabledByUser c"

definition cec_onConfigChange :: "check_config \<Rightarrow> enabled_check \<Rightarrow> bool \<times> enabled_check" where
  "cec_onConfigChange config c =
     (case kc_duoChatEnabled config of
        None \<Rightarrow> (False, c)
      | Some b \<Rightarrow> (True, c\<lparr>ec_isEnabledByUser := b\<rparr>))"

definition cec_validate :: "check_config \<Rightarrow> feature_check option" where
  "cec_validate config =
     (if kc_duoChatEnabled config = Some False
      then Some \<lparr>fc_checkId = CHAT_DISABLED_BY_USER, fc_details = Some ''Duo Chat manually disabled.'',
                 fc_context = None, fc_engaged = True\<rparr>
      else None)"

definition sec_onConfigChange :: "check_config \<Rightarrow> enabled_check \<Rightarrow> bool \<times> enabled_check" where
  "sec_onConfigChange config c =
     (case kc_codeCompletionEnabled config of
        None \<Rightarrow> (False, c)
      | Some b \<Rightarrow> (True, c\<lparr>ec_isEnabledByUser := b\<rparr>))"

definition sec_validate :: "check_config \<Rightarrow> feature_check option" where
  "sec_validate config =
     (if kc_codeCompletionEnabled config = Some False
      then Some \<lparr>fc_checkId = SUGGESTIONS_DISABLED_BY_USER, fc_details = Some ''Code Suggestions manually disabled.'',
                 fc_context = None, fc_engaged = True\<rparr>
      else None)"

inductive cec_step :: "enabled_check \<Rightarrow> bool \<Rightarrow> enabled_check \<Rightarrow> bool" where
  "cec_onConfigChange config c = (fired, c') \<Longrightarrow> cec_step c fired c'"

inductive sec_step :: "enabled_check \<Rightarrow> bool \<Rightarrow> enabled_check \<Rightarrow> bool" where
  "sec_onConfigChange config c = (fired, c') \<Longrightarrow> sec_step c fired c'"

interpretation cec: state_check "\<lambda>c. CHAT_DISABLED_BY_USER" ec_engaged cec_step
  by unfold_locales (auto elim!: cec_step.cases simp: cec_onConfigChange_def split: option.splits)

interpretation sec: state_check "\<lambda>c. SUGGESTIONS_DISABLED_BY_USER" ec_engaged sec_step
  by unfold_locales (auto elim!: sec_step.cases simp: sec_onConfigChange_def split: option.splits)

subsection \<open>Checks against the API\<close>

text \<open>\<open>api_state_check.ts\<close>: the licence checks of code suggestions and of chat are instances.  The answer
  of the API is a value, the error that the instance is too old, or another error.\<close>

datatype api_failure = Invalid_instance_version | Other_failure

record api_check =
  apc_isSuccessful :: bool
  apc_querying :: nat

definition apc_new :: api_check where "apc_new = \<lparr>apc_isSuccessful = False, apc_querying = 0\<rparr>"

definition apc_engaged :: "api_check \<Rightarrow> bool" where
  "apc_engaged c \<longleftrightarrow> \<not> apc_isSuccessful c"

definition apc_onApiReconfigured :: "bool \<Rightarrow> api_check \<Rightarrow> bool \<times> api_check" where
  "apc_onApiReconfigured isInValidState c =
     (False, if \<not> isInValidState then c else c\<lparr>apc_querying := apc_querying c + 1\<rparr>)"

definition apc_answered :: "('r \<Rightarrow> bool) \<Rightarrow> api_failure + 'r \<Rightarrow> api_check \<Rightarrow> bool \<times> api_check" where
  "apc_answered checkSuccessful answer c =
     (let c1 = c\<lparr>apc_querying := apc_querying c - 1\<rparr> in
      case answer of
        Inr response \<Rightarrow> (True, c1\<lparr>apc_isSuccessful := checkSuccessful response\<rparr>)
      | Inl Invalid_instance_version \<Rightarrow> (False, c1)
      | Inl Other_failure \<Rightarrow> (True, c1\<lparr>apc_isSuccessful := False\<rparr>))"

definition apc_validate :: "('r \<Rightarrow> bool) \<Rightarrow> api_failure + 'r \<Rightarrow> bool" where
  "apc_validate checkSuccessful answer =
     (case answer of Inr response \<Rightarrow> checkSuccessful response | Inl e \<Rightarrow> False)"

definition SUGGESTIONS_LICENSE_DETAILS :: string where
  "SUGGESTIONS_LICENSE_DETAILS =
     ''Code Suggestions is now a paid feature, part of Duo Pro. Contact your KhulnaSoft administrator to upgrade''"

definition CHAT_LICENSE_DETAILS :: string where
  "CHAT_LICENSE_DETAILS =
     ''Duo Chat is now a paid feature, part of Duo Pro. Contact your KhulnaSoft administrator to upgrade''"

definition slc_validate :: "api_failure + bool \<Rightarrow> feature_check option" where
  "slc_validate answer =
     (if \<not> apc_validate id answer
      then Some \<lparr>fc_checkId = SUGGESTIONS_NO_LICENSE, fc_details = Some SUGGESTIONS_LICENSE_DETAILS,
                 fc_context = None, fc_engaged = True\<rparr>
      else None)"

definition clc_validate :: "api_failure + bool \<Rightarrow> feature_check option" where
  "clc_validate answer =
     (if \<not> apc_validate id answer
      then Some \<lparr>fc_checkId = CHAT_NO_LICENSE, fc_details = Some CHAT_LICENSE_DETAILS,
                 fc_context = None, fc_engaged = True\<rparr>
      else None)"

inductive apc_step :: "api_check \<Rightarrow> bool \<Rightarrow> api_check \<Rightarrow> bool" where
  "apc_onApiReconfigured b c = (fired, c') \<Longrightarrow> apc_step c fired c'"
| "0 < apc_querying c \<Longrightarrow> apc_answered (id :: bool \<Rightarrow> bool) answer c = (fired, c') \<Longrightarrow> apc_step c fired c'"

interpretation slc: state_check "\<lambda>c. SUGGESTIONS_NO_LICENSE" apc_engaged apc_step
  by unfold_locales
    (auto elim!: apc_step.cases simp: apc_onApiReconfigured_def apc_answered_def apc_engaged_def Let_def
      split: sum.splits api_failure.splits if_splits)

interpretation clc: state_check "\<lambda>c. CHAT_NO_LICENSE" apc_engaged apc_step
  by unfold_locales
    (auto elim!: apc_step.cases simp: apc_onApiReconfigured_def apc_answered_def apc_engaged_def Let_def
      split: sum.splits api_failure.splits if_splits)

text \<open>\<open>minimal_khulnasoft_version_for_code_suggestions_check.ts\<close> and \<open>utils/if_version_gte.ts\<close>.  The
  package \<open>semver\<close> is a parameter: \<open>valid\<close>, \<open>coerce\<close> and \<open>gte\<close>; \<open>None\<close> is the thrown error.\<close>

definition ifVersionGte ::
  "(string \<Rightarrow> bool) \<Rightarrow> (string \<Rightarrow> 'v option) \<Rightarrow> ('v \<Rightarrow> string \<Rightarrow> bool) \<Rightarrow>
   string \<Rightarrow> string \<Rightarrow> 'a \<Rightarrow> 'a \<Rightarrow> 'a option" where
  "ifVersionGte valid coerce gte current minimumRequired thn otherwise =
     (if \<not> valid minimumRequired then None
      else case coerce current of
          None \<Rightarrow> Some thn
        | Some parsedCurrent \<Rightarrow> if gte parsedCurrent minimumRequired then Some thn else Some otherwise)"

definition MINIMUM_CODE_SUGGESTIONS_VERSION :: string where
  "MINIMUM_CODE_SUGGESTIONS_VERSION = ''16.8.0''"

record version_check =
  vc_isVersionDeprecated :: bool
  vc_token :: "string option"
  vc_baseUrl :: "string option"
  vc_instanceVersion :: "string option"
  vc_details :: "string option"
  vc_context :: "(string \<times> string) option"
  vc_fetching :: nat

definition vc_new :: version_check where
  "vc_new =
     \<lparr>vc_isVersionDeprecated = False, vc_token = None, vc_baseUrl = None, vc_instanceVersion = None,
      vc_details = None, vc_context = None, vc_fetching = 0\<rparr>"

definition truthy :: "string option \<Rightarrow> bool" where
  "truthy x \<longleftrightarrow> x \<noteq> None \<and> x \<noteq> Some []"

definition vc_onConfigChange :: "check_config \<Rightarrow> version_check \<Rightarrow> bool \<times> version_check" where
  "vc_onConfigChange config c =
     (False,
      if truthy (kc_baseUrl config) \<and> truthy (kc_token config) \<and>
         (vc_baseUrl c \<noteq> kc_baseUrl config \<or> vc_token c \<noteq> kc_token config)
      then c\<lparr>vc_baseUrl := kc_baseUrl config, vc_token := kc_token config, vc_fetching := vc_fetching c + 1\<rparr>
      else c)"

text \<open>The package \<open>semver\<close>.\<close>

record 'v semver =
  sv_valid :: "string \<Rightarrow> bool"
  sv_coerce :: "string \<Rightarrow> 'v option"
  sv_gte :: "'v \<Rightarrow> string \<Rightarrow> bool"

text \<open>The answer of \<open>/version\<close>: \<open>Inl\<close> a rejected request; a missing version is \<open>None\<close>.\<close>

definition vc_answered :: "'v semver \<Rightarrow> unit + string option \<Rightarrow> version_check \<Rightarrow> bool \<times> version_check" where
  "vc_answered sem answer c =
     (let c1 = c\<lparr>vc_fetching := vc_fetching c - 1\<rparr> in
      case answer of
        Inl u \<Rightarrow> (False, c1)
      | Inr v \<Rightarrow>
          if \<not> truthy v then (False, c1)
          else
            let version = the v;
                c2 = c1\<lparr>vc_instanceVersion := Some version\<rparr>;
                baseUrl = or_else (vc_baseUrl c2) ''undefined''
            in case ifVersionGte (sv_valid sem) (sv_coerce sem) (sv_gte sem) version
                      MINIMUM_CODE_SUGGESTIONS_VERSION
                      (c2\<lparr>vc_isVersionDeprecated := False\<rparr>)
                      (c2\<lparr>vc_isVersionDeprecated := True,
                          vc_details := Some (''KhulnaSoft Duo Code Suggestions requires KhulnaSoft version 16.8 or later. KhulnaSoft instance located at: '' @
                            baseUrl @ '' is currently using '' @ version),
                          vc_context := Some (baseUrl, version)\<rparr>) of
                 None \<Rightarrow> (False, c2)
               | Some c3 \<Rightarrow> (True, c3))"

definition vc_validate :: "'v semver \<Rightarrow> string \<Rightarrow> feature_check option option" where
  "vc_validate sem version =
     ifVersionGte (sv_valid sem) (sv_coerce sem) (sv_gte sem) version MINIMUM_CODE_SUGGESTIONS_VERSION None
       (Some \<lparr>fc_checkId = UNSUPPORTED_KHULNASOFT_VERSION,
              fc_details = Some (''KhulnaSoft Duo Code Suggestions requires KhulnaSoft version 16.8 or later. Current version is '' @
                version @ ''.''),
              fc_context = None, fc_engaged = True\<rparr>)"

inductive vc_step :: "version_check \<Rightarrow> bool \<Rightarrow> version_check \<Rightarrow> bool" where
  "vc_onConfigChange config c = (fired, c') \<Longrightarrow> vc_step c fired c'"
| "0 < vc_fetching c \<Longrightarrow> vc_answered (sem :: string semver) answer c = (fired, c') \<Longrightarrow> vc_step c fired c'"

interpretation vc: state_check "\<lambda>c. UNSUPPORTED_KHULNASOFT_VERSION" vc_isVersionDeprecated vc_step
  by unfold_locales
    (auto elim!: vc_step.cases simp: vc_onConfigChange_def vc_answered_def Let_def
      split: sum.splits if_splits option.splits)

subsection \<open>The check of the project\<close>

text \<open>\<open>project_duo_acces_check.ts\<close>.  \<open>status\<close> is \<open>checkProjectStatus\<close> of the project access checker; the
  awaited configuration is at hand, so a check of the access is one step.\<close>

record project_check =
  pda_hasDuoAccess :: "bool option"
  pda_currentDocument :: "string option"
  pda_isEnabledInSettings :: bool

definition pda_new :: project_check where
  "pda_new = \<lparr>pda_hasDuoAccess = None, pda_currentDocument = None, pda_isEnabledInSettings = True\<rparr>"

definition pda_engaged :: "project_check \<Rightarrow> bool" where
  "pda_engaged c \<longleftrightarrow> pda_hasDuoAccess c \<noteq> Some True"

definition pda_check ::
  "(string \<Rightarrow> workspace_folder \<Rightarrow> duo_project_status) \<Rightarrow> workspace_folder list option \<Rightarrow> project_check \<Rightarrow>
   bool \<times> project_check" where
  "pda_check status folders c =
     (let c1 = c\<lparr>pda_hasDuoAccess := Some (pda_isEnabledInSettings c)\<rparr> in
      case pda_currentDocument c1 of
        None \<Rightarrow> (True, c1)
      | Some uri \<Rightarrow>
          (case find (\<lambda>f. starts_with uri (wf_uri f)) (or_else folders []) of
             None \<Rightarrow> (True, c1)
           | Some folder \<Rightarrow>
               (case status uri folder of
                  DuoEnabled \<Rightarrow> (True, c1\<lparr>pda_hasDuoAccess := Some True\<rparr>)
                | DuoDisabled \<Rightarrow> (True, c1\<lparr>pda_hasDuoAccess := Some False\<rparr>)
                | NonGitlabProject \<Rightarrow> (True, c1))))"

definition pda_onDocumentChange ::
  "(string \<Rightarrow> workspace_folder \<Rightarrow> duo_project_status) \<Rightarrow> workspace_folder list option \<Rightarrow> string \<Rightarrow> change_type \<Rightarrow>
   project_check \<Rightarrow> bool \<times> project_check" where
  "pda_onDocumentChange status folders uri handlerType c =
     (if handlerType = OnDidSetActive then pda_check status folders (c\<lparr>pda_currentDocument := Some uri\<rparr>)
      else (False, c))"

definition pda_onConfigChange ::
  "(string \<Rightarrow> workspace_folder \<Rightarrow> duo_project_status) \<Rightarrow> check_config \<Rightarrow> project_check \<Rightarrow> bool \<times> project_check" where
  "pda_onConfigChange status config c =
     pda_check status (kc_workspaceFolders config)
       (c\<lparr>pda_isEnabledInSettings := (kc_enabledWithoutProject config = Some True)\<rparr>)"

definition pda_validate ::
  "(string \<Rightarrow> workspace_folder \<Rightarrow> duo_project option \<times> duo_project_status) \<Rightarrow> check_config \<Rightarrow>
   feature_check option" where
  "pda_validate check config =
     (if kc_enabledWithoutProject config = Some True then None
      else
        let disabled = filter (\<lambda>r. snd r = DuoDisabled)
              (map (\<lambda>f. check (wf_uri f) f) (or_else (kc_workspaceFolders config) []));
            paths = join '', '' (List.map_filter (\<lambda>r. map_option (gr_projectPath \<circ> dp_remote) (fst r)) disabled)
        in if disabled \<noteq> []
           then Some \<lparr>fc_checkId = DUO_DISABLED_FOR_PROJECT,
                      fc_details = Some (''Duo features are disabled for one or more projects in the workspace. ('' @ paths @ '')''),
                      fc_context = None, fc_engaged = True\<rparr>
           else None)"

inductive pda_step :: "project_check \<Rightarrow> bool \<Rightarrow> project_check \<Rightarrow> bool" where
  "pda_onDocumentChange status folders uri t c = (fired, c') \<Longrightarrow> pda_step c fired c'"
| "pda_onConfigChange status config c = (fired, c') \<Longrightarrow> pda_step c fired c'"
| "pda_check status folders c = (fired, c') \<Longrightarrow> pda_step c fired c'"

lemma pda_check_fires: "fst (pda_check status folders c)"
  by (simp add: pda_check_def Let_def split: option.splits duo_project_status.splits)

lemma pda_check_not_silent [simp]: "pda_check status folders c \<noteq> (False, c')"
  using pda_check_fires [of status folders c] by (metis fst_conv)

lemma pda_silent: "pda_step c False c' \<Longrightarrow> c' = c"
  by (cases rule: pda_step.cases)
    (auto simp: pda_onDocumentChange_def pda_onConfigChange_def split: if_splits)

interpretation pda: state_check "\<lambda>c. DUO_DISABLED_FOR_PROJECT" pda_engaged pda_step
  by unfold_locales (auto dest: pda_silent)

subsection \<open>The check of the language\<close>

text \<open>\<open>supported_language_check.ts\<close>: its id depends on its state.  \<open>enabled\<close> and \<open>supported\<close> are the two
  questions to the supported languages service.\<close>

record language_check =
  lac_isLanguageEnabled :: bool
  lac_isLanguageSupported :: bool
  lac_currentDocument :: "string option"

definition lac_new :: language_check where
  "lac_new = \<lparr>lac_isLanguageEnabled = False, lac_isLanguageSupported = False, lac_currentDocument = None\<rparr>"

definition lac_engaged :: "language_check \<Rightarrow> bool" where
  "lac_engaged c \<longleftrightarrow> \<not> lac_isLanguageEnabled c"

definition lac_id :: "language_check \<Rightarrow> check_id" where
  "lac_id c = (if lac_isLanguageSupported c \<and> \<not> lac_isLanguageEnabled c then DISABLED_LANGUAGE else UNSUPPORTED_LANGUAGE)"

definition lac_update :: "'l supported_languages \<Rightarrow> language_check \<Rightarrow> bool \<times> language_check" where
  "lac_update service c =
     (True,
      case lac_currentDocument c of
        None \<Rightarrow> c\<lparr>lac_isLanguageEnabled := False, lac_isLanguageSupported := False\<rparr>
      | Some languageId \<Rightarrow>
          c\<lparr>lac_isLanguageEnabled := isLanguageEnabled service languageId,
            lac_isLanguageSupported := isLanguageSupported service languageId\<rparr>)"

definition lac_onDocumentChange ::
  "'l supported_languages \<Rightarrow> string \<Rightarrow> change_type \<Rightarrow> language_check \<Rightarrow> bool \<times> language_check" where
  "lac_onDocumentChange service languageId handlerType c =
     (if handlerType = OnDidSetActive \<or> handlerType = OnDocumentLanguageChange
      then lac_update service (c\<lparr>lac_currentDocument := Some languageId\<rparr>)
      else (False, c))"

inductive lac_step :: "language_check \<Rightarrow> bool \<Rightarrow> language_check \<Rightarrow> bool" where
  "lac_onDocumentChange (service :: nat supported_languages) l t c = (fired, c') \<Longrightarrow> lac_step c fired c'"
| "lac_update (service :: nat supported_languages) c = (fired, c') \<Longrightarrow> lac_step c fired c'"

interpretation lac: state_check lac_id lac_engaged lac_step
  by unfold_locales
    (auto elim!: lac_step.cases simp: lac_onDocumentChange_def lac_update_def split: if_splits)

subsection \<open>The check of the suggestion API\<close>

text \<open>\<open>suggestion_api_error_check.ts\<close> wraps a circuit breaker and fires on its events;
  \<open>suggestion_api_error_notifier.ts\<close> tells the client about them.  Listeners of the breaker are named by
  strings; the fired events are the calls of \<open>#fireChange\<close>.\<close>

definition fire_change :: string where "fire_change = ''fireChange''"

definition aec_new :: "string fixed_breaker" where
  "aec_new = fb_onClose fire_change (fb_onOpen fire_change fb_default)"

definition aec_engaged :: "string fixed_breaker \<Rightarrow> bool" where
  "aec_engaged b = fb_isOpen b"

text \<open>An operation of the breaker fires \<open>change\<close> when it calls the listener.\<close>

definition aec_fired :: "string fixed_breaker \<Rightarrow> string fixed_breaker \<Rightarrow> bool" where
  "aec_fired b b' \<longleftrightarrow> fire_change \<in> set (drop (length (fb_calls b)) (fb_calls b'))"

definition aec_listening :: "string fixed_breaker \<Rightarrow> bool" where
  "aec_listening b \<longleftrightarrow> (open_event, fire_change) \<in> set (fb_emitter b) \<and> (close_event, fire_change) \<in> set (fb_emitter b)"

inductive aec_step :: "string fixed_breaker \<Rightarrow> bool \<Rightarrow> string fixed_breaker \<Rightarrow> bool" where
  "aec_listening b \<Longrightarrow> b' \<in> {fb_error b, fb_success b, fb_fire i b} \<Longrightarrow> aec_step b (aec_fired b b') b'"
| "l \<noteq> fire_change \<Longrightarrow> b' \<in> {fb_onOpen l b, fb_onClose l b, fb_onOpen_dispose l b, fb_onClose_dispose l b} \<Longrightarrow>
   aec_step b False b'"

lemma em_listeners_mem: "(e, l) \<in> set em \<Longrightarrow> l \<in> set (em_listeners e em)"
  by (force simp: em_listeners_def)

lemma aec_error_fired: "aec_listening b \<Longrightarrow> \<not> aec_fired b (fb_error b) \<Longrightarrow> fb_state (fb_error b) = fb_state b"
  by (auto simp: aec_fired_def aec_listening_def fb_error_def fb_open_def fb_emit_def Let_def setTimeout_def
      dest!: em_listeners_mem)

lemma aec_close_fired:
  "aec_listening b \<Longrightarrow> fire_change \<notin> set (drop (length (fb_calls b)) (fb_calls (fb_close b))) \<Longrightarrow>
   fb_state (fb_close b) = fb_state b"
  by (auto simp: aec_listening_def fb_close_def fb_emit_def Let_def dest!: em_listeners_mem
      split: option.splits if_splits)

lemma aec_success_fired: "aec_listening b \<Longrightarrow> \<not> aec_fired b (fb_success b) \<Longrightarrow> fb_state (fb_success b) = fb_state b"
  using aec_close_fired [of "b\<lparr>fb_errorCount := 0\<rparr>"] by (simp add: aec_fired_def fb_success_def aec_listening_def)

lemma aec_fire_fired: "aec_listening b \<Longrightarrow> \<not> aec_fired b (fb_fire i b) \<Longrightarrow> fb_state (fb_fire i b) = fb_state b"
  using aec_close_fired [of "b\<lparr>fb_timers := clearTimeout i (fb_timers b)\<rparr>"]
  by (simp add: aec_fired_def fb_fire_def aec_listening_def)

interpretation aec: state_check "\<lambda>b. SUGGESTIONS_API_ERROR" aec_engaged aec_step
proof unfold_locales
  fix b b' :: "string fixed_breaker"
  assume "aec_step b False b'"
  then have "fb_state b' = fb_state b"
    by (cases rule: aec_step.cases)
      (auto dest: aec_error_fired aec_success_fired aec_fire_fired
        simp: fb_onOpen_def fb_onClose_def fb_onOpen_dispose_def fb_onClose_dispose_def)
  then show "SUGGESTIONS_API_ERROR = SUGGESTIONS_API_ERROR \<and> aec_engaged b' = aec_engaged b"
    by (simp add: aec_engaged_def fb_isOpen_def)
qed

record error_notifier =
  sen_errorNotify :: bool
  sen_recoveryNotify :: bool
  sen_sent :: "string list"

definition sen_new :: error_notifier where
  "sen_new = \<lparr>sen_errorNotify = False, sen_recoveryNotify = False, sen_sent = []\<rparr>"

definition setErrorNotifyFn :: "error_notifier \<Rightarrow> error_notifier" where
  "setErrorNotifyFn n = n\<lparr>sen_errorNotify := True\<rparr>"

definition setRecoveryNotifyFn :: "error_notifier \<Rightarrow> error_notifier" where
  "setRecoveryNotifyFn n = n\<lparr>sen_recoveryNotify := True\<rparr>"

text \<open>Without its function the first only logs; the second throws to the caller of the breaker.\<close>

definition sendErrorNotification :: "error_notifier \<Rightarrow> string + error_notifier" where
  "sendErrorNotification n =
     (if \<not> sen_errorNotify n then Inr n else Inr (n\<lparr>sen_sent := sen_sent n @ [''error'']\<rparr>))"

definition sendRecoveryNotification :: "error_notifier \<Rightarrow> string + error_notifier" where
  "sendRecoveryNotification n =
     (if \<not> sen_recoveryNotify n then Inl ''test'' else Inr (n\<lparr>sen_sent := sen_sent n @ [''recovery'']\<rparr>))"

subsection \<open>The manager (\<open>feature_state_manager.ts\<close>)\<close>

text \<open>What the manager reads of a check object.\<close>

record check_view =
  cv_id :: check_id
  cv_engaged :: bool
  cv_details :: "string option"
  cv_context :: "(string \<times> string) option"

record feature_state =
  fs_featureId :: feature
  fs_engagedChecks :: "feature_check list"
  fs_allChecks :: "feature_check list"

text \<open>The checks in the order of the constructor; the precomputed lists hold them by reference, hence by
  their index.\<close>

record state_manager =
  fm_checks :: "check_view list"
  fm_precomputedSortedChecks :: "(feature, nat list) jsmap"
  fm_engagedChecksSet :: "check_id set"
  fm_initialized :: bool
  fm_notified :: "feature_state list list"

fun find_index :: "('a \<Rightarrow> bool) \<Rightarrow> 'a list \<Rightarrow> nat option" where
  "find_index P [] = None"
| "find_index P (x # xs) = (if P x then Some 0 else map_option Suc (find_index P xs))"

definition sortChecksInPriority :: "check_id list \<Rightarrow> check_view list \<Rightarrow> nat list" where
  "sortChecksInPriority orderedChecks unorderedChecks =
     List.map_filter (\<lambda>checkId. find_index (\<lambda>check. cv_id check = checkId) unorderedChecks) orderedChecks"

definition fm_new :: "check_view list \<Rightarrow> state_manager" where
  "fm_new checks =
     \<lparr>fm_checks = checks,
      fm_precomputedSortedChecks =
        fold (\<lambda>(featureId, ordered) m. map_set featureId (sortChecksInPriority ordered checks) m) CHECKS_PER_FEATURE [],
      fm_engagedChecksSet = {}, fm_initialized = False, fm_notified = []\<rparr>"

definition fm_report :: "bool \<Rightarrow> check_view \<Rightarrow> feature_check" where
  "fm_report engaged check =
     \<lparr>fc_checkId = cv_id check, fc_details = cv_details check, fc_context = cv_context check, fc_engaged = engaged\<rparr>"

definition fm_state :: "state_manager \<Rightarrow> feature_state list" where
  "fm_state m =
     map (\<lambda>(featureId, ordered).
       let sortedChecks = map (\<lambda>i. fm_checks m ! i) (or_else (map_get (fm_precomputedSortedChecks m) featureId) [])
       in \<lparr>fs_featureId = featureId,
           fs_engagedChecks =
             map (fm_report True) (filter (\<lambda>c. cv_id c \<in> fm_engagedChecksSet m) sortedChecks),
           fs_allChecks =
             map (\<lambda>c. fm_report (cv_id c \<in> fm_engagedChecksSet m) c) sortedChecks\<rparr>)
       CHECKS_PER_FEATURE"

definition fm_notifyClient :: "state_manager \<Rightarrow> state_manager" where
  "fm_notifyClient m = m\<lparr>fm_notified := fm_notified m @ [fm_state m]\<rparr>"

definition fm_init :: "state_manager \<Rightarrow> state_manager" where
  "fm_init m = m\<lparr>fm_initialized := True\<rparr>"

text \<open>The listener on \<open>change\<close> of the \<open>i\<close>-th check.\<close>

definition fm_onChanged :: "nat \<Rightarrow> state_manager \<Rightarrow> state_manager" where
  "fm_onChanged i m =
     fm_notifyClient
       (m\<lparr>fm_engagedChecksSet :=
            (if cv_engaged (fm_checks m ! i) then insert (cv_id (fm_checks m ! i)) (fm_engagedChecksSet m)
             else fm_engagedChecksSet m - {cv_id (fm_checks m ! i)})\<rparr>)"

text \<open>The \<open>i\<close>-th check becomes \<open>v\<close>, with or without an event; listeners exist from \<open>init\<close> on.\<close>

definition fm_change :: "nat \<Rightarrow> check_view \<Rightarrow> bool \<Rightarrow> state_manager \<Rightarrow> state_manager" where
  "fm_change i v fired m =
     (let m1 = m\<lparr>fm_checks := (fm_checks m)[i := v]\<rparr>
      in if fired \<and> fm_initialized m then fm_onChanged i m1 else m1)"

subsection \<open>What the manager reports\<close>

text \<open>The ids each check can have, and those it has at construction time.\<close>

definition own_ids :: "check_id list list" where
  "own_ids =
     [[AUTHENTICATION_REQUIRED], [UNSUPPORTED_KHULNASOFT_VERSION], [SUGGESTIONS_NO_LICENSE],
      [DUO_DISABLED_FOR_PROJECT], [UNSUPPORTED_LANGUAGE, DISABLED_LANGUAGE], [CHAT_DISABLED_BY_USER],
      [SUGGESTIONS_DISABLED_BY_USER], [CHAT_NO_LICENSE], [SUGGESTIONS_API_ERROR]]"

definition initial_ids :: "check_id list" where
  "initial_ids = map hd own_ids"

definition feature_order :: "feature \<Rightarrow> nat list" where
  "feature_order f = (case f of
     Feature_authentication \<Rightarrow> [0]
   | Feature_code_suggestions \<Rightarrow> [0, 6, 8, 1, 2, 3, 4]
   | Feature_chat \<Rightarrow> [0, 5, 7, 3])"

text \<open>\<open>fm_reach F m\<close>: \<open>m\<close> is reachable, and \<open>F\<close> holds the checks that have fired since \<open>init\<close>.  A step
  of a check obeys the law of \<open>StateCheck\<close>.\<close>

inductive fm_reach :: "nat set \<Rightarrow> state_manager \<Rightarrow> bool" where
  fm_reach_new: "map cv_id views = initial_ids \<Longrightarrow> fm_reach {} (fm_new views)"
| fm_reach_init: "fm_reach F m \<Longrightarrow> fm_reach F (fm_init m)"
| fm_reach_change:
    "fm_reach F m \<Longrightarrow> i < length own_ids \<Longrightarrow> cv_id v \<in> set (own_ids ! i) \<Longrightarrow>
     fired \<or> cv_id v = cv_id (fm_checks m ! i) \<and> cv_engaged v = cv_engaged (fm_checks m ! i) \<Longrightarrow>
     fm_reach (if fired \<and> fm_initialized m then insert i F else F) (fm_change i v fired m)"

lemma own_ids_disjoint:
  "i < length own_ids \<Longrightarrow> j < length own_ids \<Longrightarrow> i \<noteq> j \<Longrightarrow> set (own_ids ! i) \<inter> set (own_ids ! j) = {}"
proof -
  assume "i < length own_ids" "j < length own_ids" "i \<noteq> j"
  moreover have "\<forall>i \<in> set [0..<length own_ids]. \<forall>j \<in> set [0..<length own_ids].
      i \<noteq> j \<longrightarrow> set (own_ids ! i) \<inter> set (own_ids ! j) = {}" by code_simp
  ultimately show ?thesis by simp
qed

definition fm_inv :: "nat set \<Rightarrow> state_manager \<Rightarrow> bool" where
  "fm_inv F m \<longleftrightarrow>
     length (fm_checks m) = length own_ids \<and>
     (\<forall>f. map_get (fm_precomputedSortedChecks m) f = Some (feature_order f)) \<and>
     (\<forall>i < length own_ids. cv_id (fm_checks m ! i) \<in> set (own_ids ! i) \<and>
        (if i \<in> F then cv_id (fm_checks m ! i) \<in> fm_engagedChecksSet m \<longleftrightarrow> cv_engaged (fm_checks m ! i)
         else set (own_ids ! i) \<inter> fm_engagedChecksSet m = {})) \<and>
     (F \<noteq> {} \<longrightarrow> fm_initialized m)"

lemma fm_new_sorted:
  assumes "map cv_id views = initial_ids"
  shows "map_get (fm_precomputedSortedChecks (fm_new views)) f = Some (feature_order f)"
proof -
  have idx: "find_index (\<lambda>check. cv_id check = c) views = find_index (\<lambda>d. d = c) (map cv_id views)" for c
    by (induction views) auto
  have "sortChecksInPriority AUTHENTICATION_CHECK_PRIORITY_ORDERED views = [0]"
    "sortChecksInPriority CODE_SUGGESTIONS_CHECKS_PRIORITY_ORDERED views = [0, 6, 8, 1, 2, 3, 4]"
    "sortChecksInPriority CHAT_CHECKS_PRIORITY_ORDERED views = [0, 5, 7, 3]"
    unfolding sortChecksInPriority_def idx assms
    by (simp_all add: initial_ids_def own_ids_def AUTHENTICATION_CHECK_PRIORITY_ORDERED_def
        CODE_SUGGESTIONS_CHECKS_PRIORITY_ORDERED_def CHAT_CHECKS_PRIORITY_ORDERED_def List.map_filter_simps)
  then show ?thesis
    by (cases f) (simp_all add: fm_new_def CHECKS_PER_FEATURE_def feature_order_def)
qed

lemma fm_inv_change:
  assumes inv: "fm_inv F m" and i: "i < length own_ids" and v: "cv_id v \<in> set (own_ids ! i)"
    and law: "fired \<or> cv_id v = cv_id (fm_checks m ! i) \<and> cv_engaged v = cv_engaged (fm_checks m ! i)"
  shows "fm_inv (if fired \<and> fm_initialized m then insert i F else F) (fm_change i v fired m)"
proof -
  have len: "i < length (fm_checks m)" using inv i by (simp add: fm_inv_def)
  have other: "cv_id v \<notin> set (own_ids ! j)" if "j < length own_ids" "j \<noteq> i" for j
    using own_ids_disjoint [OF i that(1)] that(2) v by auto
  have otherc: "cv_id (fm_checks m ! j) \<noteq> cv_id v" if "j < length own_ids" "j \<noteq> i" for j
    using inv that other [OF that] unfolding fm_inv_def by metis
  show ?thesis
  proof (cases "fired \<and> fm_initialized m")
    case True
    have "set (own_ids ! j) \<inter> fm_engagedChecksSet (fm_change i v fired m) = {}"
      if "j < length own_ids" "j \<noteq> i" "j \<notin> F" for j
    proof -
      have "set (own_ids ! j) \<inter> fm_engagedChecksSet m = {}" using inv that by (simp add: fm_inv_def)
      with other [OF that(1,2)] True len show ?thesis
        by (auto simp: fm_change_def fm_onChanged_def fm_notifyClient_def Let_def)
    qed
    note rest = this
    let ?m = "fm_change i v fired m"
    have "cv_id (fm_checks ?m ! j) \<in> set (own_ids ! j) \<and>
        (if j \<in> insert i F then cv_id (fm_checks ?m ! j) \<in> fm_engagedChecksSet ?m \<longleftrightarrow> cv_engaged (fm_checks ?m ! j)
         else set (own_ids ! j) \<inter> fm_engagedChecksSet ?m = {})" if j: "j < length own_ids" for j
    proof (cases "j = i")
      case True
      with \<open>fired \<and> fm_initialized m\<close> len v show ?thesis
        by (simp add: fm_change_def fm_onChanged_def fm_notifyClient_def Let_def)
    next
      case False
      have same: "fm_checks ?m ! j = fm_checks m ! j"
        using False True by (simp add: fm_change_def fm_onChanged_def fm_notifyClient_def Let_def)
      have "cv_id (fm_checks m ! j) \<in> fm_engagedChecksSet ?m \<longleftrightarrow> cv_id (fm_checks m ! j) \<in> fm_engagedChecksSet m"
        using True len otherc [OF j False]
        by (simp add: fm_change_def fm_onChanged_def fm_notifyClient_def Let_def)
      moreover have "cv_id (fm_checks m ! j) \<in> set (own_ids ! j) \<and>
          (j \<in> F \<longrightarrow> (cv_id (fm_checks m ! j) \<in> fm_engagedChecksSet m \<longleftrightarrow> cv_engaged (fm_checks m ! j)))"
        using inv j by (auto simp: fm_inv_def)
      ultimately show ?thesis using rest [OF j False] False by (simp add: same)
    qed
    moreover have "length (fm_checks ?m) = length own_ids \<and> fm_precomputedSortedChecks ?m = fm_precomputedSortedChecks m \<and>
        fm_initialized ?m"
      using inv True by (simp add: fm_inv_def fm_change_def fm_onChanged_def fm_notifyClient_def Let_def)
    moreover have "\<forall>f. map_get (fm_precomputedSortedChecks m) f = Some (feature_order f)"
      using inv by (simp add: fm_inv_def)
    moreover have "(if fired \<and> fm_initialized m then insert i F else F) = insert i F" using True by simp
    ultimately show ?thesis unfolding fm_inv_def by presburger
  next
    case False
    have "i \<in> F \<longrightarrow> cv_id v = cv_id (fm_checks m ! i) \<and> cv_engaged v = cv_engaged (fm_checks m ! i)"
      using False law inv by (auto simp: fm_inv_def)
    with False inv len v show ?thesis
      by (auto simp: fm_inv_def fm_change_def Let_def nth_list_update)
  qed
qed

lemma fm_reach_inv: "fm_reach F m \<Longrightarrow> fm_inv F m"
proof (induction rule: fm_reach.induct)
  case (fm_reach_new views)
  have "length views = length own_ids"
    using arg_cong [OF fm_reach_new, of length] by (simp add: initial_ids_def)
  moreover have "cv_id (views ! i) \<in> set (own_ids ! i)" if "i < length own_ids" for i
  proof -
    have "cv_id (views ! i) = hd (own_ids ! i)"
      using arg_cong [OF fm_reach_new, of "\<lambda>l. l ! i"] that calculation by (simp add: initial_ids_def)
    moreover have "\<forall>l \<in> set own_ids. l \<noteq> []" by (simp add: own_ids_def)
    ultimately show ?thesis using that by (metis hd_in_set nth_mem)
  qed
  ultimately show ?case
    using fm_new_sorted [OF fm_reach_new] by (simp add: fm_inv_def) (simp add: fm_new_def)
next
  case (fm_reach_init F m)
  then show ?case by (auto simp: fm_inv_def fm_init_def)
next
  case (fm_reach_change F m i v fired)
  then show ?case by (intro fm_inv_change)
qed

lemma feature_order_bound: "i \<in> set (feature_order f) \<Longrightarrow> i < length own_ids"
  by (cases f) (auto simp: feature_order_def own_ids_def)

subsection \<open>Properties\<close>

text \<open>C3: The client is told the truth about every check that has fired: whatever the checks do, as long as
  each keeps the law of its interface, the state sent for a feature lists its checks in the order of
  priority, each with its current id and details, engaged exactly when the check has fired and is engaged;
  the deprecated list is the engaged part of it.  (A check that is engaged from the start, like the
  authentication check, is reported as not engaged until it fires.)\<close>

theorem manager_reports_checks:
  assumes "fm_reach F m"
  shows "map fs_featureId (fm_state m) = map fst CHECKS_PER_FEATURE \<and>
    list_all (\<lambda>s.
      fs_allChecks s =
        map (\<lambda>i. fm_report (i \<in> F \<and> cv_engaged (fm_checks m ! i)) (fm_checks m ! i))
          (feature_order (fs_featureId s)) \<and>
      fs_engagedChecks s = filter fc_engaged (fs_allChecks s)) (fm_state m)"
proof -
  have inv: "fm_inv F m" using assms by (rule fm_reach_inv)
  have e: "cv_id (fm_checks m ! i) \<in> fm_engagedChecksSet m \<longleftrightarrow> i \<in> F \<and> cv_engaged (fm_checks m ! i)"
    if "i \<in> set (feature_order f)" for i f
    using inv feature_order_bound [OF that] by (auto simp: fm_inv_def split: if_splits)
  have sorted: "or_else (map_get (fm_precomputedSortedChecks m) f) [] = feature_order f" for f
    using inv by (simp add: fm_inv_def or_else_def)
  have filt: "map (fm_report True) (filter P cs) = filter fc_engaged (map (\<lambda>c. fm_report (P c) c) cs)" for P cs
    by (induction cs) (auto simp: fm_report_def)
  show ?thesis
    by (auto simp: fm_state_def Let_def sorted filt e list_all_iff comp_def split: prod.splits)
qed

definition demo_views :: "check_view list" where
  "demo_views = map (\<lambda>i. \<lparr>cv_id = i, cv_engaged = True, cv_details = None, cv_context = None\<rparr>) initial_ids"

theorem manager_reports_checks_witness:
  "list_all (\<lambda>s. fs_engagedChecks s = filter fc_engaged (fs_allChecks s)) (fm_state (fm_init (fm_new demo_views)))"
proof -
  have "fm_reach {} (fm_init (fm_new demo_views))"
    by (intro fm_reach_init fm_reach_new) (simp add: demo_views_def comp_def)
  from manager_reports_checks [OF this] show ?thesis by (simp add: list_all_iff)
qed

text \<open>The check of the language changes its id while it runs, between an unsupported and a disabled
  language; still, once it has fired, the set of engaged ids the manager keeps by listening to it contains
  its current id exactly when it is engaged, whatever the set was before and however documents,
  languages and settings change.\<close>

theorem language_check_in_sync:
  assumes "run_of lac_step c r" and "True \<in> fst ` set r"
  shows "lac_id (last_state c r) \<in> watch lac_id lac_engaged r E \<longleftrightarrow> lac_engaged (last_state c r)"
  using assms by (rule lac.in_sync_fired)

theorem language_check_in_sync_witness:
  "lac_id (snd (lac_update (sl_new :: nat supported_languages) lac_new))
     \<in> watch lac_id lac_engaged [lac_update (sl_new :: nat supported_languages) lac_new] {DISABLED_LANGUAGE}"
proof -
  let ?u = "lac_update (sl_new :: nat supported_languages) lac_new"
  have "run_of lac_step lac_new [?u]"
    by (cases ?u) (auto intro: lac_step.intros(2))
  from language_check_in_sync [OF this, of "{DISABLED_LANGUAGE}"] show ?thesis
    by (simp add: lac_update_def lac_new_def lac_engaged_def)
qed

end
