(* ===== verification/Open_Tabs.thy ===== *)
theory Open_Tabs
  imports Document_Context
begin

text \<open>
  The open tabs (\<open>src/common/open_tabs/\<close>): a cache of the documents used last, kept by the document events and
  read by the context providers.

  The storage is the package \<open>lru-cache\<close>: its entries in the order of their last use, the latest first.  What
  it evicts to stay within its size is the parameter \<open>evict\<close>, of which \<open>evict_ok\<close> states the documented law: it
  drops entries without reordering them, keeps the total size within the limit, drops nothing
  when everything fits, and keeps the entry used last unless it is too large by itself.
\<close>

definition LRU_CACHE_BYTE_SIZE_LIMIT :: nat where
  "LRU_CACHE_BYTE_SIZE_LIMIT = 24 * 1024 * 1024"

type_synonym tab_cache = "(string, doc_context) jsmap"

definition getDocumentSize :: "doc_context \<Rightarrow> nat" where
  "getDocumentSize ctx = max 1 (byte_size (dc_prefix ctx @ dc_suffix ctx))"

definition cache_size :: "tab_cache \<Rightarrow> nat" where
  "cache_size c = (\<Sum>e\<leftarrow>c. getDocumentSize (snd e))"

definition evict_ok :: "nat \<Rightarrow> (tab_cache \<Rightarrow> tab_cache) \<Rightarrow> bool" where
  "evict_ok limit evict \<longleftrightarrow>
     (\<forall>c. subseq (evict c) c \<and> cache_size (evict c) \<le> limit \<and> (cache_size c \<le> limit \<longrightarrow> evict c = c) \<and>
       (c \<noteq> [] \<and> getDocumentSize (snd (hd c)) \<le> limit \<longrightarrow> evict c \<noteq> [] \<and> hd (evict c) = hd c))"

definition updateFile :: "(tab_cache \<Rightarrow> tab_cache) \<Rightarrow> doc_context \<Rightarrow> tab_cache \<Rightarrow> tab_cache" where
  "updateFile evict ctx c = evict ((dc_uri ctx, ctx) # map_delete (dc_uri ctx) c)"

definition deleteFile :: "string \<Rightarrow> tab_cache \<Rightarrow> bool \<times> tab_cache" where
  "deleteFile uri c = (map_get c uri \<noteq> None, map_delete uri c)"

text \<open>\<open>openFiles.get\<close> counts as a use.\<close>

definition getFile :: "string \<Rightarrow> tab_cache \<Rightarrow> doc_context option \<times> tab_cache" where
  "getFile uri c =
     (case map_get c uri of None \<Rightarrow> (None, c) | Some ctx \<Rightarrow> (Some ctx, (uri, ctx) # map_delete uri c))"

definition mostRecentFiles :: "doc_context option \<Rightarrow> bool \<Rightarrow> tab_cache \<Rightarrow> doc_context list" where
  "mostRecentFiles context includeCurrentFile c =
     (let files = map snd c in
      case context of
        None \<Rightarrow> files
      | Some ctx \<Rightarrow>
          filter (\<lambda>file. map_option wf_uri (dc_workspaceFolder ctx) = map_option wf_uri (dc_workspaceFolder file) \<and>
                         (includeCurrentFile \<or> dc_uri file \<noteq> dc_uri ctx)) files)"

subsection \<open>The service\<close>

record tabs_env =
  te_evict :: "tab_cache \<Rightarrow> tab_cache"
  te_transformers :: "(doc_context \<Rightarrow> js_error + doc_context) list"

text \<open>One document event: the document service's documents at that time and the workspace folders of the
  configuration.  A failing transformer ends the handler.\<close>

record tab_event =
  tv_uri :: string
  tv_kind :: change_type
  tv_documents :: "string \<Rightarrow> text_document option"
  tv_workspaceFolders :: "workspace_folder list option"

definition tab_context :: "tabs_env \<Rightarrow> tab_event \<Rightarrow> js_error + doc_context option" where
  "tab_context env e =
     dts_getContext (tv_documents e) (te_transformers env) (tv_uri e) \<lparr>pos_line = 0, pos_character = 0\<rparr>
       (case tv_workspaceFolders e of None \<Rightarrow> [] | Some fs \<Rightarrow> fs) None"

definition updateOpenTabs :: "tabs_env \<Rightarrow> tab_event \<Rightarrow> tab_cache \<Rightarrow> tab_cache" where
  "updateOpenTabs env e c =
     (case tv_kind e of
        OnDidClose \<Rightarrow> snd (deleteFile (tv_uri e) c)
      | OnDocumentLanguageChange \<Rightarrow> c
      | _ \<Rightarrow>
          (case tab_context env e of
             Inl err \<Rightarrow> c
           | Inr None \<Rightarrow> c
           | Inr (Some ctx) \<Rightarrow> updateFile (te_evict env) ctx c))"

definition open_tabs :: "tabs_env \<Rightarrow> tab_event list \<Rightarrow> tab_cache" where
  "open_tabs env es = fold (updateOpenTabs env) es []"

subsection \<open>What the cache holds\<close>

text \<open>The reference: the documents whose last event is a use, in the order of these events.\<close>

definition touches :: "tabs_env \<Rightarrow> tab_event \<Rightarrow> bool" where
  "touches env e \<longleftrightarrow> tv_kind e \<noteq> OnDidClose \<and> tv_kind e \<noteq> OnDocumentLanguageChange \<and>
     (\<exists>ctx. tab_context env e = Inr (Some ctx))"

fun recently_used :: "tabs_env \<Rightarrow> tab_event list \<Rightarrow> string list" where
  "recently_used env [] = []"
| "recently_used env (e # earlier) =
     (if tv_kind e = OnDidClose then removeAll (tv_uri e) (recently_used env earlier)
      else if touches env e then tv_uri e # removeAll (tv_uri e) (recently_used env earlier)
      else recently_used env earlier)"

definition keeps_uri :: "tabs_env \<Rightarrow> tab_event \<Rightarrow> bool" where
  "keeps_uri env e \<longleftrightarrow> (\<forall>ctx. tab_context env e = Inr (Some ctx) \<longrightarrow> dc_uri ctx = tv_uri e)"

lemma evict_subseq: "evict_ok limit evict \<Longrightarrow> subseq (evict c) c"
  by (simp add: evict_ok_def)

lemma map_fst_delete: "map fst (map_delete k c) = removeAll k (map fst c)"
  by (induction c) (auto simp: AList.delete_eq)

lemma subseq_distinct: "subseq xs ys \<Longrightarrow> distinct ys \<Longrightarrow> distinct xs"
  by (auto simp: subseq_conv_nths intro: distinct_nthsI)

lemma subseq_list_all: "subseq xs ys \<Longrightarrow> list_all P ys \<Longrightarrow> list_all P xs"
  by (induction rule: list_emb.induct) auto

lemma list_all_delete: "list_all P c \<Longrightarrow> list_all P (map_delete k c)"
  by (auto simp: AList.delete_eq list_all_iff)

lemma subseq_removeAll: "subseq xs ys \<Longrightarrow> subseq (removeAll x xs) (removeAll x ys)"
  by (simp add: removeAll_filter_not_eq subseq_filter)

lemma subseq_map_fst: "subseq c d \<Longrightarrow> subseq (map fst c) (map fst d)"
  by (rule subseq_map)

lemma updateFile_keys:
  assumes "evict_ok limit evict" and "subseq (map fst c) us"
  shows "subseq (map fst (updateFile evict ctx c)) (dc_uri ctx # removeAll (dc_uri ctx) us)"
proof -
  have "subseq (map fst (updateFile evict ctx c)) (dc_uri ctx # removeAll (dc_uri ctx) (map fst c))"
    using subseq_map_fst [OF evict_subseq [OF assms(1), of "(dc_uri ctx, ctx) # map_delete (dc_uri ctx) c"]]
    by (simp add: updateFile_def map_fst_delete)
  also have "subseq \<dots> (dc_uri ctx # removeAll (dc_uri ctx) us)"
    using subseq_removeAll [OF assms(2)] by simp
  finally show ?thesis .
qed

lemma updateOpenTabs_cases:
  obtains "tv_kind e = OnDidClose" "updateOpenTabs env e c = map_delete (tv_uri e) c"
  | ctx where "tv_kind e \<noteq> OnDidClose" "touches env e" "tab_context env e = Inr (Some ctx)"
      "updateOpenTabs env e c = updateFile (te_evict env) ctx c"
  | "tv_kind e \<noteq> OnDidClose" "\<not> touches env e" "updateOpenTabs env e c = c"
  by (cases "tv_kind e"; cases "tab_context env e")
    (auto simp: updateOpenTabs_def deleteFile_def touches_def split: option.splits)

lemma open_tabs_snoc: "open_tabs env (es @ [e]) = updateOpenTabs env e (open_tabs env es)"
  by (simp add: open_tabs_def)

text \<open>The size of all the contexts the events put into the cache.\<close>

fun used_size :: "tabs_env \<Rightarrow> tab_event list \<Rightarrow> nat" where
  "used_size env [] = 0"
| "used_size env (e # es) =
     (case tab_context env e of Inr (Some ctx) \<Rightarrow> getDocumentSize ctx | _ \<Rightarrow> 0) + used_size env es"

lemma used_size_append: "used_size env (es @ fs) = used_size env es + used_size env fs"
  by (induction es) auto

lemma cache_size_delete: "cache_size (map_delete k c) \<le> cache_size c"
  by (induction c) (auto simp: cache_size_def AList.delete_eq)

lemma open_tabs_nothing_evicted:
  assumes "evict_ok limit (te_evict env)" and "list_all (keeps_uri env) es" and "used_size env es \<le> limit"
  shows "map fst (open_tabs env es) = recently_used env (rev es) \<and> cache_size (open_tabs env es) \<le> used_size env es"
  using assms(2, 3)
proof (induction es rule: rev_induct)
  case Nil
  then show ?case by (simp add: open_tabs_def cache_size_def)
next
  case (snoc e es)
  let ?c = "open_tabs env es"
  from snoc have IH: "map fst ?c = recently_used env (rev es)" "cache_size ?c \<le> used_size env es"
    and e: "keeps_uri env e" by (auto simp: used_size_append)
  show ?case
  proof (cases rule: updateOpenTabs_cases [of e env ?c])
    case 1
    with IH cache_size_delete [of "tv_uri e" ?c] show ?thesis
      by (simp add: open_tabs_snoc map_fst_delete used_size_append)
  next
    case (2 ctx)
    with e have u: "dc_uri ctx = tv_uri e" by (simp add: keeps_uri_def)
    have "cache_size ((tv_uri e, ctx) # map_delete (tv_uri e) ?c) \<le> used_size env (es @ [e])"
      using IH(2) cache_size_delete [of "tv_uri e" ?c] 2(3) by (simp add: used_size_append cache_size_def)
    moreover from this have "te_evict env ((tv_uri e, ctx) # map_delete (tv_uri e) ?c) =
        (tv_uri e, ctx) # map_delete (tv_uri e) ?c"
      using assms(1) snoc.prems(2) le_trans unfolding evict_ok_def by blast
    ultimately show ?thesis
      using 2 IH(1) u by (simp add: open_tabs_snoc updateFile_def map_fst_delete)
  next
    case 3
    with IH show ?thesis by (simp add: open_tabs_snoc used_size_append)
  qed
qed

lemma open_tabs_inv:
  assumes "evict_ok limit (te_evict env)" and "list_all (keeps_uri env) es"
  shows "subseq (map fst (open_tabs env es)) (recently_used env (rev es)) \<and>
    distinct (map fst (open_tabs env es)) \<and> cache_size (open_tabs env es) \<le> limit \<and>
    list_all (\<lambda>(u, ctx). dc_uri ctx = u) (open_tabs env es)"
  using assms(2)
proof (induction es rule: rev_induct)
  case Nil
  then show ?case by (simp add: open_tabs_def cache_size_def)
next
  case (snoc e es)
  let ?c = "open_tabs env es"
  from snoc have IH: "subseq (map fst ?c) (recently_used env (rev es))" "distinct (map fst ?c)"
    "cache_size ?c \<le> limit" "list_all (\<lambda>(u, ctx). dc_uri ctx = u) ?c" and e: "keeps_uri env e" by auto
  show ?case
  proof (cases rule: updateOpenTabs_cases [of e env ?c])
    case 1
    have "subseq (map_delete (tv_uri e) ?c) ?c"
      by (simp add: AList.delete_eq)
    then have "cache_size (map_delete (tv_uri e) ?c) \<le> cache_size ?c"
      by (induction rule: list_emb.induct) (auto simp: cache_size_def)
    with 1 IH show ?thesis
      by (simp add: open_tabs_snoc map_fst_delete subseq_removeAll distinct_removeAll list_all_delete)
  next
    case (2 ctx)
    with e have u: "dc_uri ctx = tv_uri e" by (simp add: keeps_uri_def)
    have sub: "subseq (updateFile (te_evict env) ctx ?c) ((tv_uri e, ctx) # map_delete (tv_uri e) ?c)"
      using evict_subseq [OF assms(1)] by (simp add: updateFile_def u)
    then have "distinct (map fst (updateFile (te_evict env) ctx ?c))"
      using subseq_distinct [OF subseq_map_fst [OF sub]] IH(2)
      by (simp add: map_fst_delete distinct_removeAll)
    moreover have "list_all (\<lambda>(u, ctx). dc_uri ctx = u) (updateFile (te_evict env) ctx ?c)"
      using subseq_list_all [OF sub] list_all_delete [OF IH(4)] u by simp
    moreover have "cache_size (updateFile (te_evict env) ctx ?c) \<le> limit"
      using assms(1) by (simp add: updateFile_def evict_ok_def)
    moreover have "subseq (map fst (updateFile (te_evict env) ctx ?c)) (recently_used env (rev (es @ [e])))"
      using updateFile_keys [OF assms(1) IH(1), of ctx] 2(1,2) u by simp
    ultimately show ?thesis using 2 by (simp add: open_tabs_snoc)
  next
    case 3
    with IH show ?thesis by (simp add: open_tabs_snoc)
  qed
qed

text \<open>The open tabs are the documents whose last event was a use, the latest first, without those that
  were evicted; each once, and together within the size limit.  When all of them fit, nothing is missing.\<close>

theorem open_tabs_recently_used:
  assumes "evict_ok limit (te_evict env)" and "list_all (keeps_uri env) es"
  shows "subseq (map fst (open_tabs env es)) (recently_used env (rev es)) \<and>
    distinct (map fst (open_tabs env es)) \<and> cache_size (open_tabs env es) \<le> limit \<and>
    list_all (\<lambda>(u, ctx). dc_uri ctx = u) (open_tabs env es) \<and>
    (used_size env es \<le> limit \<longrightarrow> map fst (open_tabs env es) = recently_used env (rev es))"
proof -
  from assms have "subseq (map fst (open_tabs env es)) (recently_used env (rev es)) \<and>
    distinct (map fst (open_tabs env es)) \<and> cache_size (open_tabs env es) \<le> limit \<and>
    list_all (\<lambda>(u, ctx). dc_uri ctx = u) (open_tabs env es)"
    by (rule open_tabs_inv)
  with open_tabs_nothing_evicted [OF assms] show ?thesis by blast
qed

definition demo_evict :: "tab_cache \<Rightarrow> tab_cache" where
  "demo_evict c = (if cache_size c \<le> 10 then c else if getDocumentSize (snd (hd c)) \<le> 10 then take 1 c else [])"

definition demo_tab :: "string \<Rightarrow> change_type \<Rightarrow> tab_event" where
  "demo_tab uri k =
     \<lparr>tv_uri = uri, tv_kind = k,
      tv_documents = (\<lambda>u. Some \<lparr>td_uri = u, td_languageId = ''ruby'', td_text = ''puts'',
                                 td_getText = (\<lambda>r. ''pu''), td_positionAt = (\<lambda>n. \<lparr>pos_line = 0, pos_character = n\<rparr>)\<rparr>),
      tv_workspaceFolders = None\<rparr>"

definition demo_tabs_env :: tabs_env where
  "demo_tabs_env = \<lparr>te_evict = demo_evict, te_transformers = []\<rparr>"

lemma demo_evict_ok: "evict_ok 10 demo_evict"
proof -
  have "cache_size (take 1 c) \<le> 10" if "getDocumentSize (snd (hd c)) \<le> 10" for c
    using that by (cases c) (auto simp: cache_size_def)
  moreover have "cache_size c \<le> 10 \<Longrightarrow> c \<noteq> [] \<Longrightarrow> getDocumentSize (snd (hd c)) \<le> 10" for c
    by (cases c) (auto simp: cache_size_def)
  moreover have "subseq (take 1 c) c" for c :: tab_cache
    by (metis append_take_drop_id list_emb_append2 subseq_order.refl subseq_rev_drop_many)
  ultimately show ?thesis
    by (auto simp: evict_ok_def demo_evict_def take_Suc cache_size_def)
qed

lemma demo_tab_context:
  "\<exists>ctx. tab_context demo_tabs_env (demo_tab u k) = Inr (Some ctx) \<and> dc_uri ctx = u \<and> getDocumentSize ctx = 4"
  by (simp add: tab_context_def demo_tabs_env_def demo_tab_def dts_getContext_def getDocContext_def Let_def
      getDocumentSize_def byte_size_def char_bytes_def)

lemma demo_te_evict [simp]: "te_evict demo_tabs_env = demo_evict"
  by (simp add: demo_tabs_env_def)

lemma demo_tab_facts [simp]:
  "used_size demo_tabs_env [] = 0"
  "keeps_uri demo_tabs_env (demo_tab u k)" "tv_uri (demo_tab u k) = u" "tv_kind (demo_tab u k) = k"
  "touches demo_tabs_env (demo_tab u k) = (k \<noteq> OnDidClose \<and> k \<noteq> OnDocumentLanguageChange)"
  "used_size demo_tabs_env (demo_tab u k # es) = 4 + used_size demo_tabs_env es"
  using demo_tab_context [of u k] by (auto simp: keeps_uri_def demo_tab_def touches_def)

lemma open_tabs_recently_used_witness:
  "subseq (map fst (open_tabs demo_tabs_env
     [demo_tab ''a'' OnDidOpen, demo_tab ''b'' OnDidOpen, demo_tab ''c'' OnDidOpen,
      demo_tab ''a'' OnDidSave, demo_tab ''b'' OnDidClose])) [''a'', ''c''] \<and>
   map fst (open_tabs demo_tabs_env [demo_tab ''a'' OnDidOpen, demo_tab ''b'' OnDidOpen]) = [''b'', ''a'']"
  using open_tabs_recently_used [of 10 demo_tabs_env
      "[demo_tab ''a'' OnDidOpen, demo_tab ''b'' OnDidOpen, demo_tab ''c'' OnDidOpen,
        demo_tab ''a'' OnDidSave, demo_tab ''b'' OnDidClose]"]
    open_tabs_recently_used [of 10 demo_tabs_env "[demo_tab ''a'' OnDidOpen, demo_tab ''b'' OnDidOpen]"]
    demo_evict_ok
  by (simp del: used_size.simps)

end
