(* ===== verification/Advanced_Context.thy ===== *)
theory Advanced_Context
  imports Open_Tabs Duo_Access Supported_Languages
begin

text \<open>
  The additional contexts of a suggestion request (\<open>src/common/advanced_context/\<close>): the open tabs as context
  items (\<open>open_tabs_context_resolver.ts\<close>), the filters over them (\<open>advanced_context_filters.ts\<close>) and their
  form in the request (\<open>advanced_context_factory.ts\<close>, \<open>helpers.ts\<close>).  The items are those of
  \<open>packages/lib_ai_context\<close>; the type of their content is a parameter.
\<close>

subsection \<open>Context items\<close>

datatype ai_provider_type =
    Open_tab | Local_file_search | Issue | Merge_request | Snippet | Dependency | Local_git

datatype ai_category =
    Cat_file | Cat_snippet | Cat_issue | Cat_merge_request | Cat_dependency | Cat_local_git

text \<open>The fields a kind of item adds to the metadata are optional fields: \<open>webUrl\<close> of issues and merge requests,
  \<open>libs\<close> (name and, if known, version) of dependencies, and those of local git items.\<close>

record local_git_metadata =
  lg_repositoryUri :: string
  lg_repositoryName :: string
  lg_selectedBranch :: "string option"

record ai_metadata =
  am_title :: string
  am_enabled :: bool
  am_disabledReasons :: "string list option"
  am_subType :: ai_provider_type
  am_icon :: string
  am_secondaryText :: string
  am_subTypeLabel :: string
  am_languageId :: "string option"
  am_iid :: "string option"
  am_relativePath :: "string option"
  am_project :: "string option"
  am_workspaceFolder :: "workspace_folder option"
  am_webUrl :: "string option"
  am_libs :: "(string \<times> string option) list option"
  am_git :: "local_git_metadata option"

record 't ai_item =
  ai_id :: string
  ai_category :: ai_category
  ai_content :: "'t option"
  ai_metadata :: ai_metadata

type_synonym wide_item = "text16 ai_item"

definition item_text :: "wide_item \<Rightarrow> text16" where
  "item_text r = (case ai_content r of None \<Rightarrow> [] | Some t \<Rightarrow> t)"

subsection \<open>The resolver\<close>

definition tab_item :: "doc_context \<Rightarrow> wide_item" where
  "tab_item doc =
     \<lparr>ai_id = dc_uri doc, ai_category = Cat_file, ai_content = Some (widen (dc_prefix doc @ dc_suffix doc)),
      ai_metadata = \<lparr>am_title = dc_uri doc, am_enabled = True, am_disabledReasons = None, am_subType = Open_tab,
        am_icon = ''file'', am_secondaryText = dc_uri doc, am_subTypeLabel = ''Open Tab'',
        am_languageId = Some (dc_languageId doc), am_iid = Some (dc_uri doc),
        am_relativePath = Some (dc_fileRelativePath doc), am_project = None,
        am_workspaceFolder = dc_workspaceFolder doc, am_webUrl = None, am_libs = None, am_git = None\<rparr>\<rparr>"

definition buildContext :: "tab_cache \<Rightarrow> doc_context \<Rightarrow> wide_item list" where
  "buildContext tabs documentContext = map tab_item (mostRecentFiles (Some documentContext) False tabs)"

subsection \<open>The filters\<close>

definition CODE_SUGGESTIONS_REQUEST_BYTE_SIZE_LIMIT :: nat where
  "CODE_SUGGESTIONS_REQUEST_BYTE_SIZE_LIMIT = 50000"

definition is_blank :: "text16 \<Rightarrow> bool" where
  "is_blank content \<longleftrightarrow> filter (\<lambda>u. \<not> ws_unit u) content = []"

definition emptyContentFilter :: "wide_item list \<Rightarrow> wide_item list" where
  "emptyContentFilter rs = filter (\<lambda>r. \<not> is_blank (item_text r)) rs"

definition duoProjectAccessFilter ::
  "'l project_cache \<Rightarrow> doc_context \<Rightarrow> wide_item list \<Rightarrow> wide_item list" where
  "duoProjectAccessFilter projects documentContext rs =
     (case dc_workspaceFolder documentContext of
        None \<Rightarrow> rs
      | Some folder \<Rightarrow>
          fold (\<lambda>r acc. if snd (checkProjectStatus projects (ai_id r) folder) = DuoDisabled then acc else acc @ [r]) rs [])"

text \<open>Only files with a (not empty) language id are checked.\<close>

definition languageAllowed :: "'m supported_languages \<Rightarrow> 't ai_item \<Rightarrow> bool" where
  "languageAllowed languages r =
     (if ai_category r \<noteq> Cat_file then True
      else case am_languageId (ai_metadata r) of
          None \<Rightarrow> True
        | Some [] \<Rightarrow> True
        | Some (c # cs) \<Rightarrow> isLanguageEnabled languages (c # cs))"

definition supportedLanguageFilter :: "'m supported_languages \<Rightarrow> 't ai_item list \<Rightarrow> 't ai_item list" where
  "supportedLanguageFilter languages rs = filter (languageAllowed languages) rs"

fun limit_items :: "nat \<Rightarrow> nat \<Rightarrow> wide_item list \<Rightarrow> wide_item list" where
  "limit_items byteSizeLimit currentTotalSize [] = []"
| "limit_items byteSizeLimit currentTotalSize (r # rs) =
     (let used = currentTotalSize + getByteSize (item_text r) in
      if used > byteSizeLimit then
        (let trimmed = buffer_toString (buffer_slice (buffer_from (item_text r)) (int byteSizeLimit - int used))
         in if trimmed \<noteq> [] then [r\<lparr>ai_content := Some trimmed\<rparr>] else [])
      else r # limit_items byteSizeLimit used rs)"

definition byteSizeLimitFilter :: "nat \<Rightarrow> doc_context \<Rightarrow> wide_item list \<Rightarrow> wide_item list" where
  "byteSizeLimitFilter byteSizeLimit documentContext rs =
     limit_items byteSizeLimit (getByteSize (widen (dc_prefix documentContext @ dc_suffix documentContext))) rs"

definition filterContextResolutions ::
  "'l project_cache \<Rightarrow> 'm supported_languages \<Rightarrow> nat \<Rightarrow> doc_context \<Rightarrow> wide_item list \<Rightarrow> wide_item list" where
  "filterContextResolutions projects languages byteSizeLimit documentContext contextResolutions =
     foldl (\<lambda>rs f. f rs) contextResolutions
       [emptyContentFilter, duoProjectAccessFilter projects documentContext, supportedLanguageFilter languages,
        byteSizeLimitFilter byteSizeLimit documentContext]"

subsection \<open>The contexts of a request\<close>

definition getAdvancedContext ::
  "tab_cache \<Rightarrow> 'l project_cache \<Rightarrow> 'm supported_languages \<Rightarrow> doc_context \<Rightarrow> wide_item list" where
  "getAdvancedContext tabs projects languages documentContext =
     filterContextResolutions projects languages CODE_SUGGESTIONS_REQUEST_BYTE_SIZE_LIMIT documentContext
       (buildContext tabs documentContext)"

text \<open>\<open>ac.category as 'file' | 'snippet'\<close>: the resolver only yields files.\<close>

fun request_type :: "ai_category \<Rightarrow> context_type" where
  "request_type Cat_snippet = Ctx_snippet"
| "request_type _ = Ctx_file"

definition advancedContextToRequestBody :: "wide_item list \<Rightarrow> additional_context list" where
  "advancedContextToRequestBody advancedContext =
     map (\<lambda>r. \<lparr>ac_type = request_type (ai_category r), ac_name = ai_id r, ac_content = item_text r,
               ac_resolution_strategy = Strategy_open_tabs\<rparr>) advancedContext"

text \<open>The two instance flags and \<open>client.openTabsContext\<close>.\<close>

definition shouldUseAdvancedContext :: "bool \<Rightarrow> bool \<Rightarrow> bool option \<Rightarrow> bool" where
  "shouldUseAdvancedContext isEditorAdvancedContextEnabled isGenericContextEnabled openTabsContext \<longleftrightarrow>
     isEditorAdvancedContextEnabled \<and> isGenericContextEnabled \<and>
     (case openTabsContext of None \<Rightarrow> True | Some b \<Rightarrow> b)"

definition getAdditionalContexts ::
  "bool \<Rightarrow> tab_cache \<Rightarrow> 'l project_cache \<Rightarrow> 'm supported_languages \<Rightarrow> doc_context \<Rightarrow> additional_context list" where
  "getAdditionalContexts enabled tabs projects languages documentContext =
     (if \<not> enabled then []
      else advancedContextToRequestBody (getAdvancedContext tabs projects languages documentContext))"

subsection \<open>Lemmas\<close>

lemma duoProjectAccessFilter_filter:
  "duoProjectAccessFilter projects d rs =
     (case dc_workspaceFolder d of
        None \<Rightarrow> rs
      | Some folder \<Rightarrow> filter (\<lambda>r. snd (checkProjectStatus projects (ai_id r) folder) \<noteq> DuoDisabled) rs)"
proof -
  have "fold (\<lambda>r acc. if P r then acc else acc @ [r]) rs acc = acc @ filter (\<lambda>r. \<not> P r) rs"
    for P :: "wide_item \<Rightarrow> bool" and acc
    by (induction rs arbitrary: acc) auto
  then show ?thesis by (simp add: duoProjectAccessFilter_def split: option.splits)
qed

lemma cut_kept: "limit < used + n \<Longrightarrow> kept n (int limit - int (used + n)) = limit - used"
  by (auto simp: kept_def nat_diff_distrib')

lemma slice_over:
  "limit < used + getByteSize t \<Longrightarrow>
   buffer_slice (buffer_from t) (int limit - int (used + getByteSize t)) = take (limit - used) (buffer_from t)"
  unfolding getByteSize_def buffer_slice_kept by (simp only: cut_kept)

lemma limit_items_cut:
  "used + getByteSize (item_text r) > limit \<Longrightarrow>
   limit_items limit used (r # rs) =
     (let trimmed = buffer_toString (take (limit - used) (buffer_from (item_text r)))
      in if trimmed \<noteq> [] then [r\<lparr>ai_content := Some trimmed\<rparr>] else [])"
  by (simp only: limit_items.simps Let_def slice_over if_True)

lemma limit_items_over: "used > limit \<Longrightarrow> limit_items limit used rs = []"
  by (cases rs) (simp_all add: limit_items_cut buffer_toString_def del: limit_items.simps(2))

lemma item_text_Some [simp]: "item_text (r\<lparr>ai_content := Some t\<rparr>) = t"
  by (simp add: item_text_def)

lemma limit_items_bytes:
  "\<forall>r \<in> set rs. text_ok (item_text r) \<Longrightarrow>
   (\<Sum>r\<leftarrow>limit_items limit used rs. getByteSize (item_text r)) \<le> limit - used + 2"
proof (induction rs arbitrary: used)
  case Nil
  then show ?case by simp
next
  case (Cons r rs)
  show ?case
  proof (cases "used + getByteSize (item_text r) > limit")
    case True
    have "getByteSize (buffer_toString (take (limit - used) (buffer_from (item_text r)))) \<le> limit - used + 2"
      using slice_bytes [of "item_text r" "int limit - int (used + getByteSize (item_text r))"] Cons.prems
      unfolding slice_over [OF True] cut_kept [OF True] by simp
    with True show ?thesis by (simp add: limit_items_cut Let_def del: limit_items.simps(2))
  next
    case False
    with Cons.IH [of "used + getByteSize (item_text r)"] Cons.prems show ?thesis
      by (simp add: Let_def)
  qed
qed

text \<open>All but perhaps the last are complete, and the last is the beginning of its text, perhaps
  followed by U+FFFD.\<close>

lemma limit_items_ids:
  "\<exists>n. map (\<lambda>r. r\<lparr>ai_content := None\<rparr>) (limit_items limit used rs) =
     take n (map (\<lambda>r. r\<lparr>ai_content := None\<rparr>) rs) \<and>
     butlast (limit_items limit used rs) = butlast (take n rs)"
proof (induction rs arbitrary: used)
  case Nil
  then show ?case by simp
next
  case (Cons r rs)
  show ?case
  proof (cases "used + getByteSize (item_text r) > limit")
    case True
    then show ?thesis
      by (auto simp: limit_items_cut Let_def simp del: limit_items.simps(2) intro: exI [of _ 0] exI [of _ "Suc 0"])
  next
    case False
    obtain n where "map (\<lambda>r. r\<lparr>ai_content := None\<rparr>) (limit_items limit (used + getByteSize (item_text r)) rs) =
        take n (map (\<lambda>r. r\<lparr>ai_content := None\<rparr>) rs)"
      and "butlast (limit_items limit (used + getByteSize (item_text r)) rs) = butlast (take n rs)"
      using Cons.IH by blast
    moreover from this have "limit_items limit (used + getByteSize (item_text r)) rs = [] \<longleftrightarrow> take n rs = []"
      by (metis map_is_Nil_conv take_map)
    ultimately show ?thesis
      using False by (intro exI [of _ "Suc n"]) (auto simp: Let_def)
  qed
qed

subsection \<open>Properties\<close>

lemma in_limit_items_id:
  assumes "r \<in> set (limit_items limit used rs)"
  shows "\<exists>r' \<in> set rs. r\<lparr>ai_content := None\<rparr> = r'\<lparr>ai_content := None\<rparr>"
proof -
  define f :: "wide_item \<Rightarrow> wide_item" where "f = (\<lambda>r. r\<lparr>ai_content := None\<rparr>)"
  obtain n where n: "map f (limit_items limit used rs) = take n (map f rs)"
    using limit_items_ids [of limit used rs] unfolding f_def by blast
  from assms have "f r \<in> set (map f (limit_items limit used rs))" by simp
  then have "f r \<in> set (map f rs)"
    unfolding n by (rule in_set_takeD)
  then show ?thesis unfolding f_def by auto
qed

definition context_candidate ::
  "'l project_cache \<Rightarrow> 'm supported_languages \<Rightarrow> doc_context \<Rightarrow> doc_context \<Rightarrow> bool" where
  "context_candidate projects languages d doc \<longleftrightarrow>
     dc_uri doc \<noteq> dc_uri d \<and>
     map_option wf_uri (dc_workspaceFolder doc) = map_option wf_uri (dc_workspaceFolder d) \<and>
     (dc_languageId doc = [] \<or> isLanguageEnabled languages (dc_languageId doc)) \<and>
     (case dc_workspaceFolder d of
        None \<Rightarrow> True
      | Some folder \<Rightarrow> snd (checkProjectStatus projects (dc_uri doc) folder) \<noteq> DuoDisabled)"

lemma tab_item_simps [simp]:
  "ai_id (tab_item f) = dc_uri f" "ai_category (tab_item f) = Cat_file"
  "item_text (tab_item f) = widen (dc_prefix f @ dc_suffix f)"
  "am_languageId (ai_metadata (tab_item f)) = Some (dc_languageId f)"
  by (simp_all add: tab_item_def item_text_def)

text \<open>What the byte limit is applied to.\<close>

definition candidate_items ::
  "tab_cache \<Rightarrow> 'l project_cache \<Rightarrow> 'm supported_languages \<Rightarrow> doc_context \<Rightarrow> wide_item list" where
  "candidate_items tabs projects languages d =
     supportedLanguageFilter languages (duoProjectAccessFilter projects d (emptyContentFilter (buildContext tabs d)))"

lemma getAdvancedContext_eq:
  "getAdvancedContext tabs projects languages d =
     limit_items CODE_SUGGESTIONS_REQUEST_BYTE_SIZE_LIMIT (byte_size (dc_prefix d @ dc_suffix d))
       (candidate_items tabs projects languages d)"
  by (simp add: getAdvancedContext_def filterContextResolutions_def candidate_items_def byteSizeLimitFilter_def
      del: widen_simps byte_size_append)

lemma candidate_item:
  assumes "r \<in> set (candidate_items tabs projects languages d)"
  obtains doc where "doc \<in> snd ` set tabs" "r = tab_item doc" "context_candidate projects languages d doc"
proof -
  define fs where "fs = mostRecentFiles (Some d) False tabs"
  from assms have r: "r \<in> set (map tab_item fs)" "languageAllowed languages r"
    "\<And>folder. dc_workspaceFolder d = Some folder \<Longrightarrow> snd (checkProjectStatus projects (ai_id r) folder) \<noteq> DuoDisabled"
    unfolding candidate_items_def supportedLanguageFilter_def duoProjectAccessFilter_filter
      emptyContentFilter_def buildContext_def fs_def [symmetric]
    by (simp_all split: option.splits)
  then obtain doc where doc: "doc \<in> set fs" "r = tab_item doc" by auto
  then have "\<exists>doc. doc \<in> snd ` set tabs \<and> r = tab_item doc \<and>
    map_option wf_uri (dc_workspaceFolder d) = map_option wf_uri (dc_workspaceFolder doc) \<and> dc_uri doc \<noteq> dc_uri d \<and>
    languageAllowed languages (tab_item doc) \<and>
    (\<forall>folder. dc_workspaceFolder d = Some folder \<longrightarrow>
       snd (checkProjectStatus projects (dc_uri doc) folder) \<noteq> DuoDisabled)"
    using r by (intro exI [of _ doc]) (simp add: fs_def mostRecentFiles_def)
  then obtain doc where f: "doc \<in> snd ` set tabs" "r = tab_item doc"
    "map_option wf_uri (dc_workspaceFolder d) = map_option wf_uri (dc_workspaceFolder doc)" "dc_uri doc \<noteq> dc_uri d"
    "languageAllowed languages (tab_item doc)"
    "\<And>folder. dc_workspaceFolder d = Some folder \<Longrightarrow>
       snd (checkProjectStatus projects (dc_uri doc) folder) \<noteq> DuoDisabled"
    by blast
  then have "context_candidate projects languages d doc"
    by (cases "dc_languageId doc") (auto simp: context_candidate_def languageAllowed_def split: option.splits)
  with f show ?thesis by (intro that)
qed

lemma candidate_items_ok: "\<forall>r \<in> set (candidate_items tabs projects languages d). text_ok (item_text r)"
  by (auto elim: candidate_item simp del: widen_simps)

lemma contexts_ok:
  "list_all (\<lambda>c. list_ex (\<lambda>(u, doc). ac_name c = dc_uri doc \<and> context_candidate projects languages d doc) tabs)
     (getAdditionalContexts enabled tabs projects languages d) \<and>
   (getAdditionalContexts enabled tabs projects languages d = [] \<or>
    byte_size (dc_prefix d @ dc_suffix d) +
      (\<Sum>c\<leftarrow>getAdditionalContexts enabled tabs projects languages d. getByteSize (ac_content c)) \<le> 50000 + 2)"
proof (cases enabled)
  case False
  then show ?thesis by (simp add: getAdditionalContexts_def)
next
  case True
  let ?rs = "getAdvancedContext tabs projects languages d"
  let ?used = "byte_size (dc_prefix d @ dc_suffix d)"
  have body: "getAdditionalContexts enabled tabs projects languages d = advancedContextToRequestBody ?rs"
    using True by (simp add: getAdditionalContexts_def)
  have "list_ex (\<lambda>(u, doc). ai_id r = dc_uri doc \<and> context_candidate projects languages d doc) tabs"
    if r: "r \<in> set ?rs" for r
  proof -
    obtain r' where "r' \<in> set (candidate_items tabs projects languages d)" "r\<lparr>ai_content := None\<rparr> = r'\<lparr>ai_content := None\<rparr>"
      using in_limit_items_id r unfolding getAdvancedContext_eq by blast
    moreover from this(2) have "ai_id r = ai_id r'"
      by (metis ai_item.ext_inject ai_item.surjective ai_item.update_convs(3))
    ultimately show ?thesis
      by (elim candidate_item) (force simp: list_ex_iff)
  qed
  moreover have "?rs = [] \<or> ?used + (\<Sum>r\<leftarrow>?rs. getByteSize (item_text r)) \<le> 50000 + 2"
  proof (cases "?used > 50000")
    case True
    then show ?thesis
      by (simp add: getAdvancedContext_eq limit_items_over CODE_SUGGESTIONS_REQUEST_BYTE_SIZE_LIMIT_def)
  next
    case False
    with limit_items_bytes [OF candidate_items_ok [of tabs projects languages d], of 50000 ?used] show ?thesis
      by (intro disjI2) (simp add: getAdvancedContext_eq CODE_SUGGESTIONS_REQUEST_BYTE_SIZE_LIMIT_def)
  qed
  ultimately show ?thesis
    unfolding body by (simp add: advancedContextToRequestBody_def list_all_iff o_def)
qed

lemma contexts_within_limit:
  "getAdditionalContexts enabled tabs projects languages d = [] \<or>
   byte_size (dc_prefix d @ dc_suffix d) +
     (\<Sum>c\<leftarrow>getAdditionalContexts enabled tabs projects languages d. getByteSize (ac_content c)) \<le> 50000 + 2"
  using contexts_ok by blast

text \<open>The additional contexts of a request come from open tabs of the same workspace folder, other than the
  document, whose language is enabled and whose project has Duo; together with the document
  they stay within the limit of the request, exceeding it by at most two bytes, where a character was cut.\<close>

theorem additional_contexts_within_limit:
  "list_all (\<lambda>c. list_ex (\<lambda>(u, doc). ac_name c = dc_uri doc \<and> context_candidate projects languages d doc) tabs)
     (getAdditionalContexts enabled tabs projects languages d) \<and>
   (getAdditionalContexts enabled tabs projects languages d = [] \<or>
    byte_size (dc_prefix d @ dc_suffix d) +
      (\<Sum>c\<leftarrow>getAdditionalContexts enabled tabs projects languages d. getByteSize (ac_content c)) \<le> 50000 + 2)"
  by (rule contexts_ok)

text \<open>The limit can indeed be exceeded: one byte is left for a character of two, which becomes the
  three bytes of U+FFFD.\<close>

lemma limit_exceeded:
  "(\<Sum>r\<leftarrow>limit_items 50000 49999 [tab_item (d\<lparr>dc_prefix := [], dc_suffix := [CHR 0xE9]\<rparr>)].
      getByteSize (item_text r)) = 3"
proof -
  have "buffer_from [0xE9] = [195, 169]" "utf8_decode [195] = [REPLACEMENT]"
    by (simp_all add: buffer_from_def lone_def is_high_def is_low_def utf8_char_def decode_char_def)
  moreover have "getByteSize [REPLACEMENT] = 3"
    by (simp add: getByteSize_def buffer_from_def lone_def is_high_def is_low_def utf8_char_def REPLACEMENT_def)
  moreover have "getByteSize [0xE9] = 2"
    by (simp add: getByteSize_def buffer_from_def lone_def is_high_def is_low_def utf8_char_def)
  ultimately show ?thesis
    by (simp add: limit_items_cut Let_def buffer_toString_def text_of_def del: limit_items.simps(2))
qed

end
