(* ===== verification/Pre_Processors.thy ===== *)
theory Pre_Processors
  imports Advanced_Context
begin

text \<open>
  The pre-processors of a suggestion request (\<open>src/common/suggestion_client/pre_processors/\<close>): the pipeline and
  its three processors over the document and its context items.  The prefix and suffix are held as code
  units, because the byte limit may cut the suffix inside a character.
\<close>

record wide_document =
  wd_context :: doc_context
  wd_prefix :: text16
  wd_suffix :: text16

record pre_items =
  pi_document :: wide_document
  pi_items :: "wide_item list"

definition pre_items_of :: "doc_context \<Rightarrow> wide_item list \<Rightarrow> pre_items" where
  "pre_items_of d rs =
     \<lparr>pi_document = \<lparr>wd_context = d, wd_prefix = widen (dc_prefix d), wd_suffix = widen (dc_suffix d)\<rparr>,
      pi_items = rs\<rparr>"

datatype 'e processor_error = Fatal 'e | Continue 'e

type_synonym 'e pre_processor = "pre_items \<Rightarrow> pre_items \<times> 'e processor_error option"

subsection \<open>The processors\<close>

definition pre_emptyContent :: "'e pre_processor" where
  "pre_emptyContent items =
     (items\<lparr>pi_items := filter (\<lambda>r. \<not> is_blank (item_text r)) (pi_items items)\<rparr>, None)"

definition pre_supportedLanguage :: "'m supported_languages \<Rightarrow> 'e pre_processor" where
  "pre_supportedLanguage languages items =
     (items\<lparr>pi_items := filter (languageAllowed languages) (pi_items items)\<rparr>, None)"

fun pre_limit_items :: "nat \<Rightarrow> nat \<Rightarrow> wide_item list \<Rightarrow> wide_item list" where
  "pre_limit_items byteSizeLimit currentTotalSize [] = []"
| "pre_limit_items byteSizeLimit currentTotalSize (r # rs) =
     (let resolutionBuffer = buffer_from (item_text r) in
      if currentTotalSize + length resolutionBuffer > byteSizeLimit then
        (let remainingSpace = int byteSizeLimit - int currentTotalSize in
         if remainingSpace \<le> 0 then []
         else let trimmedContent = buffer_toString (buffer_slice resolutionBuffer remainingSpace)
              in if trimmedContent \<noteq> [] then [r\<lparr>ai_content := Some trimmedContent\<rparr>] else [])
      else r # pre_limit_items byteSizeLimit (currentTotalSize + length resolutionBuffer) rs)"

definition pre_byteSizeLimit :: "nat \<Rightarrow> 'e pre_processor" where
  "pre_byteSizeLimit byteSizeLimit items =
     (let d = pi_document items;
          documentSize = getByteSize (wd_prefix d @ wd_suffix d) in
      if documentSize > byteSizeLimit then
        (\<lparr>pi_document = d\<lparr>wd_suffix :=
             truncateToByteLimit (wd_suffix d) (int byteSizeLimit - int documentSize)\<rparr>,
          pi_items = []\<rparr>, None)
      else (items\<lparr>pi_items := pre_limit_items byteSizeLimit documentSize (pi_items items)\<rparr>, None))"

text \<open>\<open>run\<close>: a fatal error is thrown, another one only logged.\<close>

fun pre_run :: "'e pre_processor list \<Rightarrow> pre_items \<Rightarrow> 'e + pre_items" where
  "pre_run [] items = Inr items"
| "pre_run (p # ps) items =
     (case p items of
        (r, Some (Fatal e)) \<Rightarrow> Inl e
      | (r, Some (Continue e)) \<Rightarrow> pre_run ps r
      | (r, None) \<Rightarrow> pre_run ps r)"

subsection \<open>Properties\<close>

lemma pre_run_append:
  "pre_run (ps @ qs) items = (case pre_run ps items of Inl e \<Rightarrow> Inl e | Inr r \<Rightarrow> pre_run qs r)"
  by (induction ps arbitrary: items) (auto split: prod.splits option.splits processor_error.splits)

text \<open>Both byte limits cut the same: one takes a positive number of bytes, the other drops a negative one.\<close>

lemma limit_items_eq: "limit_items limit used rs = pre_limit_items limit used rs"
proof (induction rs arbitrary: used)
  case Nil
  then show ?case by simp
next
  case (Cons r rs)
  show ?case
  proof (cases "used + getByteSize (item_text r) > limit")
    case True
    then have "limit_items limit used (r # rs) =
        (let trimmed = buffer_toString (take (limit - used) (buffer_from (item_text r)))
         in if trimmed \<noteq> [] then [r\<lparr>ai_content := Some trimmed\<rparr>] else [])"
      by (rule limit_items_cut)
    moreover have "buffer_slice bs (int limit - int used) = take (limit - used) bs" if "used < limit" for bs
      using that by (simp add: buffer_slice_def nat_diff_distrib)
    ultimately show ?thesis
      using True by (auto simp: Let_def getByteSize_def buffer_toString_def simp del: limit_items.simps)
  next
    case False
    with Cons show ?thesis by (simp add: Let_def getByteSize_def)
  qed
qed

text \<open>The pre-processors in the order empty content, language, byte limit compute for a document within
  the limit what the filters of the advanced context compute when no project is excluded.\<close>

theorem pre_processors_agree:
  assumes "dc_workspaceFolder d = None"
    and "byte_size (dc_prefix d @ dc_suffix d) \<le> limit"
  shows "pre_run [pre_emptyContent, pre_supportedLanguage languages, pre_byteSizeLimit limit] (pre_items_of d rs) =
    Inr (pre_items_of d (filterContextResolutions projects languages limit d rs))"
  using assms
  by (simp add: pre_emptyContent_def pre_supportedLanguage_def pre_byteSizeLimit_def pre_items_of_def Let_def
      filterContextResolutions_def emptyContentFilter_def duoProjectAccessFilter_def supportedLanguageFilter_def
      byteSizeLimitFilter_def limit_items_eq flip: widen_simps(3))

text \<open>After the byte limit, the document and its items are within the limit, exceeding it by at most two
  bytes, unless the prefix alone is larger, which is never cut; then nothing else is left.\<close>

theorem pre_byte_limit:
  assumes "text_ok (wd_suffix (pi_document items))" and "\<forall>r \<in> set (pi_items items). text_ok (item_text r)"
    and "fst (pre_byteSizeLimit limit items) = r"
    and "wd_suffix (pi_document items) = [] \<or> \<not> is_low (hd (wd_suffix (pi_document items)))"
  shows "wd_prefix (pi_document r) = wd_prefix (pi_document items) \<and>
    getByteSize (wd_prefix (pi_document r)) + getByteSize (wd_suffix (pi_document r)) +
      (\<Sum>c\<leftarrow>pi_items r. getByteSize (item_text c)) \<le>
        max limit (getByteSize (wd_prefix (pi_document items))) + 2"
proof -
  let ?d = "pi_document items"
  let ?p = "getByteSize (wd_prefix ?d)" and ?s = "getByteSize (wd_suffix ?d)"
  have sum: "getByteSize (wd_prefix ?d @ wd_suffix ?d) = ?p + ?s"
    using assms(4) by (cases "wd_suffix ?d") (auto simp: getByteSize_append)
  show ?thesis
  proof (cases "?p + ?s > limit")
    case True
    then have r: "r = \<lparr>pi_document = ?d\<lparr>wd_suffix :=
        truncateToByteLimit (wd_suffix ?d) (int limit - int (?p + ?s))\<rparr>, pi_items = []\<rparr>"
      using assms(3) by (simp add: pre_byteSizeLimit_def Let_def sum)
    have "kept ?s (int limit - int (?p + ?s)) = limit - ?p"
      by (rule cut_kept [OF True])
    with truncate_bytes [OF assms(1), of "int limit - int (?p + ?s)"] True
    show ?thesis unfolding r by simp
  next
    case False
    then have "r = items\<lparr>pi_items := limit_items limit (?p + ?s) (pi_items items)\<rparr>"
      using assms(3) by (simp add: pre_byteSizeLimit_def Let_def sum limit_items_eq)
    with limit_items_bytes [OF assms(2), of limit "?p + ?s"] False show ?thesis by simp
  qed
qed

definition demo_pre_doc :: doc_context where
  "demo_pre_doc =
     \<lparr>dc_prefix = ''ab'', dc_suffix = ''cd ef'', dc_fileRelativePath = ''x.rb'',
      dc_position = \<lparr>pos_line = 0, pos_character = 2\<rparr>, dc_uri = ''file:///w/x.rb'', dc_languageId = ''ruby'',
      dc_workspaceFolder = None\<rparr>"

theorem pre_byte_limit_witness:
  "getByteSize (wd_suffix (pi_document (fst ((pre_byteSizeLimit 4 :: string pre_processor) (pre_items_of demo_pre_doc []))))) \<le> 4"
proof -
  let ?i = "pre_items_of demo_pre_doc []"
  have p: "wd_prefix (pi_document ?i) = widen ''ab''" and s: "wd_suffix (pi_document ?i) = widen ''cd ef''"
    by (simp_all only: pre_items_of_def pre_items.simps wide_document.simps demo_pre_doc_def doc_context.simps)
  have two: "getByteSize (widen ''ab'') = 2"
    by (simp only: getByteSize_widen) (simp add: byte_size_def char_bytes_def)
  have "\<not> is_low (hd (widen ''cd ef''))"
    by (simp add: is_low_def)
  moreover have "text_ok (wd_suffix (pi_document ?i))" "pi_items ?i = []"
    unfolding s by (simp_all add: pre_items_of_def del: widen_simps)
  ultimately have b: "wd_prefix (pi_document (fst ((pre_byteSizeLimit 4 :: string pre_processor) ?i))) = widen ''ab''"
    "getByteSize (wd_prefix (pi_document (fst ((pre_byteSizeLimit 4 :: string pre_processor) ?i)))) +
      getByteSize (wd_suffix (pi_document (fst ((pre_byteSizeLimit 4 :: string pre_processor) ?i)))) +
      (\<Sum>c\<leftarrow>pi_items (fst ((pre_byteSizeLimit 4 :: string pre_processor) ?i)). getByteSize (item_text c)) \<le> max 4 2 + 2"
    using pre_byte_limit [where 'a = string, of ?i 4, OF _ _ refl] two unfolding p s by (auto simp del: widen_simps)
  from b(2) show ?thesis using two unfolding b(1) by linarith
qed

theorem pre_processors_agree_witness:
  "pre_run [pre_emptyContent, pre_supportedLanguage (sl_new :: string supported_languages), pre_byteSizeLimit 10]
     (pre_items_of demo_pre_doc [tab_item (demo_pre_doc\<lparr>dc_uri := ''b''\<rparr>)]) =
   (Inr (pre_items_of demo_pre_doc
      (filterContextResolutions (pc_new :: string project_cache) (sl_new :: string supported_languages) 10 demo_pre_doc
          [tab_item (demo_pre_doc\<lparr>dc_uri := ''b''\<rparr>)])) :: string + pre_items)"
  by (rule pre_processors_agree) (simp_all add: demo_pre_doc_def byte_size_def char_bytes_def)

end
