(* ===== verification/Post_Processors.thy ===== *)
theory Post_Processors
  imports Suggestion_Client
begin

text \<open>
  The post-processors of suggestions (\<open>src/common/suggestion_client/post_processors/\<close>): URLs in \<open>$schema\<close>
  comments (YAML) and values (JSON) are replaced by a placeholder.  The syntax tree of JSON comes from
  \<open>web-tree-sitter\<close>, a parameter: a node with its type, text, code unit range, \<open>key\<close> field and children.
  The JSON loop reads the number of nodes anew after every edit, so it is a partial function: \<open>None\<close> means
  that it does not return.
\<close>

definition URL_PLACEHOLDER :: string where
  "URL_PLACEHOLDER = ''<YOUR_URL_GOES_HERE>''"

definition SchemaKey :: string where
  "SchemaKey = ''$schema''"

text \<open>\<open>indexOf\<close> of a string, and \<open>slice\<close> from a possibly negative index.\<close>

fun index_of :: "string \<Rightarrow> string \<Rightarrow> nat option" where
  "index_of p [] = (if p = [] then Some 0 else None)"
| "index_of p (c # s) = (if prefix p (c # s) then Some 0 else map_option Suc (index_of p s))"

definition js_index :: "string \<Rightarrow> string \<Rightarrow> int" where
  "js_index p s = (case index_of p s of None \<Rightarrow> -1 | Some i \<Rightarrow> int i)"

definition slice_from :: "int \<Rightarrow> string \<Rightarrow> string" where
  "slice_from i s = (if 0 \<le> i then drop (nat i) s else drop (length s - nat (- i)) s)"

definition slice_to :: "int \<Rightarrow> string \<Rightarrow> string" where
  "slice_to i s = (if 0 \<le> i then take (nat i) s else take (length s - nat (- i)) s)"

subsection \<open>YAML\<close>

definition isSchemaComment :: "string \<Rightarrow> bool" where
  "isSchemaComment line =
     (case index_of ''#'' line of None \<Rightarrow> False | Some i \<Rightarrow> str_includes (drop i line) SchemaKey)"

record line_range =
  lr_line :: string
  lr_startIndex :: int
  lr_endIndex :: int

fun line_ranges_from :: "int \<Rightarrow> string list \<Rightarrow> line_range list" where
  "line_ranges_from startIndex [] = []"
| "line_ranges_from startIndex (line # lines) =
     (let endIndex = max (startIndex + int (length line)) 0
      in \<lparr>lr_line = line, lr_startIndex = startIndex, lr_endIndex = endIndex\<rparr> #
         line_ranges_from (endIndex + 1) lines)"

definition convertToLineRanges :: "string \<Rightarrow> line_range list" where
  "convertToLineRanges combinedLines = line_ranges_from 0 (split_on newline combinedLines)"

definition sanitizeLine :: "string \<Rightarrow> int \<Rightarrow> line_range \<Rightarrow> string" where
  "sanitizeLine suggestionText suggestionStartIndex r =
     (let suggestionEndIndex = suggestionStartIndex + int (length suggestionText) - 1;
          commentEndIndexInSuggestion = min (lr_endIndex r - suggestionStartIndex) suggestionEndIndex
      in if \<not> (lr_endIndex r \<le> suggestionStartIndex \<or> lr_startIndex r \<ge> suggestionEndIndex) then
           (let schemaKeyPositionInLine = js_index SchemaKey (lr_line r);
                urlStartPosition =
                  max (lr_startIndex r - suggestionStartIndex + schemaKeyPositionInLine +
                       js_index ''='' (slice_from schemaKeyPositionInLine (lr_line r)) + 1) 0
            in slice_to urlStartPosition suggestionText @ URL_PLACEHOLDER @
               slice_from commentEndIndexInSuggestion suggestionText)
         else suggestionText)"

fun sanitize_ranges :: "int \<Rightarrow> string \<Rightarrow> int \<Rightarrow> line_range list \<Rightarrow> string" where
  "sanitize_ranges suggestionStartIndex sanitized offset [] = sanitized"
| "sanitize_ranges suggestionStartIndex sanitized offset (r # rs) =
     (let r' = r\<lparr>lr_startIndex := lr_startIndex r + offset, lr_endIndex := lr_endIndex r + offset\<rparr>;
          sanitized' = sanitizeLine sanitized suggestionStartIndex r'
      in sanitize_ranges suggestionStartIndex sanitized'
           (offset + int (length sanitized') - int (length sanitized)) rs)"

definition yaml_sanitized :: "doc_context \<Rightarrow> string \<Rightarrow> string" where
  "yaml_sanitized ctx suggestionText =
     (if suggestionText = [] then suggestionText
      else
        let lastPrefixLine = last (split_on newline (dc_prefix ctx));
            firstSuffixLine = hd (split_on newline (dc_suffix ctx));
            commentLineRanges =
              filter (\<lambda>r. isSchemaComment (lr_line r))
                (convertToLineRanges (lastPrefixLine @ suggestionText @ firstSuffixLine))
        in sanitize_ranges (int (length lastPrefixLine)) suggestionText 0 commentLineRanges)"

subsection \<open>JSON\<close>

datatype syntax_node =
  Syntax_node (sn_type: string) (sn_text: string) (sn_startIndex: nat) (sn_endIndex: nat)
    (sn_key: "syntax_node option") (sn_children: "syntax_node list")

fun findSchemaNodes :: "syntax_node \<Rightarrow> syntax_node list" where
  "findSchemaNodes (Syntax_node ty t a b k children) =
     (if ty \<noteq> ''object'' then concat (map findSchemaNodes children)
      else concat (map (\<lambda>c.
             (if sn_type c = ''pair''
              then (case sn_key c of None \<Rightarrow> [] | Some keyNode \<Rightarrow> if str_includes (sn_text keyNode) SchemaKey then [keyNode] else [])
              else []) @
             (if sn_type c = ''ERROR''
              then (case find (\<lambda>n. str_includes (sn_text n) SchemaKey) (sn_children c) of None \<Rightarrow> [] | Some keyNode \<Rightarrow> [keyNode])
              else [])) children))"

definition whole_text :: "doc_context \<Rightarrow> string \<Rightarrow> string" where
  "whole_text ctx suggestionText = dc_prefix ctx @ suggestionText @ dc_suffix ctx"

text \<open>The range of the value after a key: between the next two quotes.\<close>

definition getValueAbsolutePosition :: "syntax_node \<Rightarrow> doc_context \<Rightarrow> string \<Rightarrow> int \<times> int" where
  "getValueAbsolutePosition node ctx suggestionText =
     (let t = whole_text ctx suggestionText;
          start = js_index [CHR 0x22] (drop (sn_endIndex node) t) + int (sn_endIndex node) + 1;
          end = js_index [CHR 0x22] (slice_from start t) + start
      in (start, end))"

text \<open>The new text, \<open>None\<close> without an edit.\<close>

definition json_sanitizeUrl :: "syntax_node \<Rightarrow> doc_context \<Rightarrow> string \<Rightarrow> string option" where
  "json_sanitizeUrl node ctx suggestionText =
     (let suggestionStart = int (length (dc_prefix ctx));
          suggestionEnd = suggestionStart + int (length suggestionText) - 1;
          (valueStart, valueEnd) = getValueAbsolutePosition node ctx suggestionText
      in if valueEnd \<le> suggestionStart \<or> valueStart \<ge> suggestionEnd then None
         else Some (slice_to (max (valueStart - suggestionStart) 0) suggestionText @ URL_PLACEHOLDER @
                    slice_from (min (valueEnd - suggestionStart) (int (length suggestionText) - 1)) suggestionText))"

partial_function (option) json_loop ::
  "(string \<Rightarrow> syntax_node) \<Rightarrow> doc_context \<Rightarrow> nat \<Rightarrow> syntax_node list \<Rightarrow> string \<Rightarrow> string option" where
  "json_loop parse ctx i nodes suggestionText =
     (if i \<ge> length nodes then Some suggestionText
      else case json_sanitizeUrl (nodes ! i) ctx suggestionText of
          None \<Rightarrow> json_loop parse ctx (Suc i) nodes suggestionText
        | Some t \<Rightarrow> json_loop parse ctx (Suc i) (findSchemaNodes (parse (whole_text ctx t))) t)"

text \<open>\<open>parseFile\<close> may fail or have no parser.\<close>

record post_env =
  po_parseFile :: "doc_context \<Rightarrow> string \<Rightarrow> client_error + syntax_node option"
  po_parse :: "string \<Rightarrow> syntax_node"

definition json_sanitized :: "post_env \<Rightarrow> doc_context \<Rightarrow> string \<Rightarrow> (client_error + string) option" where
  "json_sanitized env ctx suggestionText =
     (case po_parseFile env ctx suggestionText of
        Inl e \<Rightarrow> Some (Inl e)
      | Inr None \<Rightarrow> Some (Inr suggestionText)
      | Inr (Some root) \<Rightarrow>
          (let commentNodes = findSchemaNodes root in
           if commentNodes = [] then Some (Inr suggestionText)
           else map_option Inr (json_loop (po_parse env) ctx 0 commentNodes suggestionText)))"

subsection \<open>The URL sanitization and the pipeline\<close>

text \<open>What the sub-processor of a language does to one text; \<open>Promise.all\<close> rejects with the first failure.\<close>

definition sub_processor :: "post_env \<Rightarrow> doc_context \<Rightarrow> (string \<Rightarrow> (client_error + string) option) option" where
  "sub_processor env ctx =
     (if dc_languageId ctx = ''json'' then Some (json_sanitized env ctx)
      else if dc_languageId ctx = ''yaml'' then Some (\<lambda>t. Some (Inr (yaml_sanitized ctx t)))
      else None)"

fun all_texts ::
  "(string \<Rightarrow> (client_error + string) option) \<Rightarrow> suggestion_option list \<Rightarrow> (client_error + suggestion_option list) option" where
  "all_texts f [] = Some (Inr [])"
| "all_texts f (opt # opts) =
     (case (f (so_text opt), all_texts f opts) of
        (Some (Inr t), Some (Inr os)) \<Rightarrow> Some (Inr (opt\<lparr>so_text := t\<rparr> # os))
      | (Some (Inl e), Some _) \<Rightarrow> Some (Inl e)
      | (Some (Inr t), Some (Inl e)) \<Rightarrow> Some (Inl e)
      | (Some (Inl e), None) \<Rightarrow> Some (Inl e)
      | (None, Some (Inl e)) \<Rightarrow> Some (Inl e)
      | (None, _) \<Rightarrow> None
      | (_, None) \<Rightarrow> None)"

definition url_processCompletion ::
  "post_env \<Rightarrow> doc_context \<Rightarrow> suggestion_option list \<Rightarrow> suggestion_option list option" where
  "url_processCompletion env ctx input =
     (case sub_processor env ctx of
        None \<Rightarrow> Some input
      | Some f \<Rightarrow>
          map_option (\<lambda>r. case r of Inl e \<Rightarrow> map (\<lambda>s. s\<lparr>so_text := []\<rparr>) input | Inr os \<Rightarrow> os) (all_texts f input))"

definition url_processStream :: "post_env \<Rightarrow> doc_context \<Rightarrow> string \<Rightarrow> string option" where
  "url_processStream env ctx completion =
     (case sub_processor env ctx of
        None \<Rightarrow> Some completion
      | Some f \<Rightarrow> map_option (\<lambda>r. case r of Inl e \<Rightarrow> [] | Inr t \<Rightarrow> t) (f completion))"

text \<open>\<open>AbstractPostProcessorPipeline.run\<close> over its processors, for the two kinds of input.\<close>

fun run_processors :: "('a \<Rightarrow> 'a option) list \<Rightarrow> 'a \<Rightarrow> 'a option" where
  "run_processors [] input = Some input"
| "run_processors (p # ps) input = Option.bind (p input) (run_processors ps)"

definition post_completion :: "post_env \<Rightarrow> doc_context \<Rightarrow> suggestion_option list \<Rightarrow> suggestion_option list option" where
  "post_completion env ctx input = run_processors [url_processCompletion env ctx] input"

definition post_stream :: "post_env \<Rightarrow> doc_context \<Rightarrow> string \<Rightarrow> string option" where
  "post_stream env ctx completion = run_processors [url_processStream env ctx] completion"

subsection \<open>The JSON loop returns\<close>

text \<open>The laws of the parser, as \<open>web-tree-sitter\<close> documents its nodes: the text of a node is the part of the source
  in its range, the children of a node lie in its range one after the other, and the child of a field is one of
  the children.\<close>

fun ranges_in :: "nat \<Rightarrow> nat \<Rightarrow> (nat \<times> nat) list \<Rightarrow> bool" where
  "ranges_in a b [] \<longleftrightarrow> a \<le> b"
| "ranges_in a b (r # rs) \<longleftrightarrow> a \<le> fst r \<and> fst r \<le> snd r \<and> ranges_in (snd r) b rs"

abbreviation node_range :: "syntax_node \<Rightarrow> nat \<times> nat" where
  "node_range n \<equiv> (sn_startIndex n, sn_endIndex n)"

fun node_of_source :: "string \<Rightarrow> syntax_node \<Rightarrow> bool" where
  "node_of_source w (Syntax_node ty t a b k children) \<longleftrightarrow>
     b \<le> length w \<and> t = take (b - a) (drop a w) \<and> ranges_in a b (map node_range children) \<and>
     (case k of None \<Rightarrow> True | Some keyNode \<Rightarrow> keyNode \<in> set children) \<and>
     (\<forall>c\<in>set children. node_of_source w c)"

definition parser_ok :: "post_env \<Rightarrow> doc_context \<Rightarrow> bool" where
  "parser_ok env ctx \<longleftrightarrow>
     (\<forall>t. node_of_source t (po_parse env t)) \<and>
     (\<forall>t root. po_parseFile env ctx t = Inr (Some root) \<longrightarrow> node_of_source (whole_text ctx t) root)"

text \<open>Where the schema key is in a part of the source.  Every schema node has an occurrence of its own.\<close>

definition keys_in :: "string \<Rightarrow> nat \<Rightarrow> nat \<Rightarrow> nat set" where
  "keys_in w a b = {i. a \<le> i \<and> i + length SchemaKey \<le> b \<and> prefix SchemaKey (drop i w)}"

lemma keys_in_finite [simp]: "finite (keys_in w a b)"
  by (rule finite_subset [of _ "{..b}"]) (auto simp: keys_in_def)

lemma SchemaKey_length: "length SchemaKey = 7"
  by (simp add: SchemaKey_def)

lemma keys_in_split: "a \<le> m \<Longrightarrow> m \<le> b \<Longrightarrow> card (keys_in w a m) + card (keys_in w m b) \<le> card (keys_in w a b)"
proof -
  assume "a \<le> m" and "m \<le> b"
  then have "keys_in w a m \<union> keys_in w m b \<subseteq> keys_in w a b" and "keys_in w a m \<inter> keys_in w m b = {}"
    by (auto simp: keys_in_def SchemaKey_length)
  then show ?thesis by (metis card_Un_disjoint card_mono keys_in_finite)
qed

lemma keys_in_mono: "a \<le> a' \<Longrightarrow> b' \<le> b \<Longrightarrow> card (keys_in w a' b') \<le> card (keys_in w a b)"
  by (rule card_mono [OF keys_in_finite]) (auto simp: keys_in_def)

lemma key_prefix: "prefix SchemaKey s \<longleftrightarrow> take 7 s = SchemaKey"
  using SchemaKey_length by (metis append_eq_conv_conj append_take_drop_id prefix_def)

lemma includes_key:
  assumes "str_includes (take (b - a) (drop a w)) SchemaKey" and "a \<le> b" and "b \<le> length w"
  shows "1 \<le> card (keys_in w a b)"
proof -
  obtain ps ss where s: "take (b - a) (drop a w) = ps @ SchemaKey @ ss"
    using assms(1) unfolding sublist_def by blast
  have "length (take (b - a) (drop a w)) \<le> b - a" by simp
  with s have len: "length ps + length SchemaKey \<le> b - a" by simp
  have "drop a w = ps @ SchemaKey @ ss @ drop (b - a) (drop a w)"
    using append_take_drop_id [of "b - a" "drop a w"] s by (metis append_assoc)
  then have "drop (length ps) (drop a w) = SchemaKey @ ss @ drop (b - a) (drop a w)" by (metis append_eq_conv_conj)
  then have "prefix SchemaKey (drop (a + length ps) w)" by (simp add: add.commute)
  with len assms(2) have "a + length ps \<in> keys_in w a b" by (simp add: keys_in_def)
  then have "keys_in w a b \<noteq> {}" by blast
  then show ?thesis by (simp add: Suc_leI card_gt_0_iff)
qed

lemma ranges_in_le: "ranges_in a b rs \<Longrightarrow> a \<le> b"
  by (induction rs arbitrary: a) (auto intro: le_trans)

lemma ranges_in_member: "ranges_in a b rs \<Longrightarrow> r \<in> set rs \<Longrightarrow> a \<le> fst r \<and> fst r \<le> snd r \<and> snd r \<le> b"
proof (induction rs arbitrary: a)
  case Nil
  then show ?case by simp
next
  case (Cons r' rs)
  then have r': "a \<le> fst r'" "fst r' \<le> snd r'" "ranges_in (snd r') b rs" by simp_all
  show ?case
  proof (cases "r = r'")
    case True
    with r' ranges_in_le [OF r'(3)] show ?thesis by simp
  next
    case False
    with Cons.prems(2) Cons.IH [OF r'(3)] r' show ?thesis by auto
  qed
qed

lemma children_keys:
  assumes "ranges_in a b (map node_range cs)"
    and "\<And>c. c \<in> set cs \<Longrightarrow> length (g c) \<le> card (keys_in w (sn_startIndex c) (sn_endIndex c))"
  shows "length (concat (map g cs)) \<le> card (keys_in w a b)"
  using assms
proof (induction cs arbitrary: a)
  case Nil
  then show ?case by simp
next
  case (Cons c cs)
  from Cons.prems(1) have r: "a \<le> sn_startIndex c" "sn_startIndex c \<le> sn_endIndex c"
    "ranges_in (sn_endIndex c) b (map node_range cs)" by simp_all
  from Cons.IH [OF r(3)] Cons.prems(2) have "length (concat (map g cs)) \<le> card (keys_in w (sn_endIndex c) b)"
    by simp
  moreover have "length (g c) \<le> card (keys_in w a (sn_endIndex c))"
    using Cons.prems(2) [of c] keys_in_mono [OF r(1) order_refl] by (meson le_trans list.set_intros(1))
  moreover have "card (keys_in w a (sn_endIndex c)) + card (keys_in w (sn_endIndex c) b) \<le> card (keys_in w a b)"
    using r ranges_in_le [OF r(3)] by (intro keys_in_split) simp_all
  ultimately show ?case by simp
qed

lemma node_includes_key:
  assumes "node_of_source w n" and "str_includes (sn_text n) SchemaKey" and "sn_startIndex n \<le> sn_endIndex n"
  shows "1 \<le> card (keys_in w (sn_startIndex n) (sn_endIndex n))"
  using assms by (cases n) (simp del: One_nat_def add: includes_key)

lemma child_includes_key:
  assumes "node_of_source w c" and "n \<in> set (sn_children c)" and "str_includes (sn_text n) SchemaKey"
  shows "1 \<le> card (keys_in w (sn_startIndex c) (sn_endIndex c))"
proof -
  from assms(1,2) have n: "node_of_source w n"
    and r: "ranges_in (sn_startIndex c) (sn_endIndex c) (map node_range (sn_children c))"
    by (cases c; simp)+
  from ranges_in_member [OF r, of "node_range n"] assms(2)
  have "sn_startIndex c \<le> sn_startIndex n" "sn_startIndex n \<le> sn_endIndex n" "sn_endIndex n \<le> sn_endIndex c"
    by auto
  with node_includes_key [OF n assms(3)] show ?thesis by (meson keys_in_mono le_trans)
qed

lemma findSchemaNodes_keys:
  "node_of_source w n \<Longrightarrow> length (findSchemaNodes n) \<le> card (keys_in w (sn_startIndex n) (sn_endIndex n))"
proof (induction n rule: findSchemaNodes.induct)
  case (1 ty t a b k children)
  then have r: "ranges_in a b (map node_range children)"
    and c: "\<And>c. c \<in> set children \<Longrightarrow> node_of_source w c" by simp_all
  show ?case
  proof (cases "ty = ''object''")
    case False
    have "length (concat (map findSchemaNodes children)) \<le> card (keys_in w a b)"
      by (rule children_keys [OF r]) (simp add: 1 False c)
    with False show ?thesis by simp
  next
    case True
    have key: "length (case sn_key x of None \<Rightarrow> [] | Some keyNode \<Rightarrow> if str_includes (sn_text keyNode) SchemaKey then [keyNode] else [])
        \<le> card (keys_in w (sn_startIndex x) (sn_endIndex x))" if "x \<in> set children" for x
      using c [OF that] child_includes_key [OF c [OF that]] by (cases x) (auto split: option.split)
    have error: "length (case find (\<lambda>n. str_includes (sn_text n) SchemaKey) (sn_children x) of None \<Rightarrow> [] | Some keyNode \<Rightarrow> [keyNode])
        \<le> card (keys_in w (sn_startIndex x) (sn_endIndex x))" if "x \<in> set children" for x
      using child_includes_key [OF c [OF that]] by (auto split: option.split simp: find_Some_iff dest: nth_mem)
    show ?thesis unfolding True
      by (simp only: findSchemaNodes.simps not_True_eq_False if_False simp_thms sn_startIndex_def [symmetric]
            syntax_node.sel, rule children_keys [OF r]) (use key error in auto)
  qed
qed

text \<open>Replacing a value makes no new occurrence: the placeholder shares no character with the key, and what is
  left of the text before and after it overlaps in at most one character.\<close>

definition key_count :: "string \<Rightarrow> nat" where
  "key_count w = card (keys_in w 0 (length w))"

lemma keys_around_placeholder:
  "keys_in (x @ URL_PLACEHOLDER @ y) 0 (length (x @ URL_PLACEHOLDER @ y)) \<subseteq>
   keys_in x 0 (length x) \<union> (\<lambda>i. i + length (x @ URL_PLACEHOLDER)) ` keys_in y 0 (length y)"
proof
  fix i assume "i \<in> keys_in (x @ URL_PLACEHOLDER @ y) 0 (length (x @ URL_PLACEHOLDER @ y))"
  then have i: "i + 7 \<le> length (x @ URL_PLACEHOLDER @ y)" and p: "prefix SchemaKey (drop i (x @ URL_PLACEHOLDER @ y))"
    by (simp_all add: keys_in_def SchemaKey_length)
  consider "i + 7 \<le> length x" | "length (x @ URL_PLACEHOLDER) \<le> i" | "length x < i + 7" "i < length (x @ URL_PLACEHOLDER)"
    by linarith
  then show "i \<in> keys_in x 0 (length x) \<union> (\<lambda>i. i + length (x @ URL_PLACEHOLDER)) ` keys_in y 0 (length y)"
  proof cases
    case 1
    then have "drop i (x @ URL_PLACEHOLDER @ y) = drop i x @ URL_PLACEHOLDER @ y" by simp
    with p 1 have "prefix SchemaKey (drop i x)" by (simp add: key_prefix)
    with 1 show ?thesis by (simp add: keys_in_def SchemaKey_length)
  next
    case 2
    then have "drop i (x @ URL_PLACEHOLDER @ y) = drop (i - length (x @ URL_PLACEHOLDER)) y" by simp
    with p i 2 have "i - length (x @ URL_PLACEHOLDER) \<in> keys_in y 0 (length y)"
      by (simp add: keys_in_def SchemaKey_length)
    with 2 show ?thesis by (metis (no_types, lifting) UnI2 image_eqI le_add_diff_inverse2)
  next
    case 3
    define j where "j = max i (length x)"
    from 3 have j: "i \<le> j" "j < i + 7" "length x \<le> j" "j < length (x @ URL_PLACEHOLDER)"
      by (auto simp: j_def URL_PLACEHOLDER_def)
    from p obtain z where z: "drop i (x @ URL_PLACEHOLDER @ y) = SchemaKey @ z" by (auto simp: prefix_def)
    have "(x @ URL_PLACEHOLDER @ y) ! j = (SchemaKey @ z) ! (j - i)"
      unfolding z [symmetric] using nth_drop [of i "x @ URL_PLACEHOLDER @ y" "j - i"] j(1) i
      by (simp del: drop_append append_assoc)
    also have "\<dots> = SchemaKey ! (j - i)" using j by (simp add: nth_append SchemaKey_length less_diff_conv2)
    also have "\<dots> \<in> set SchemaKey" using j by (intro nth_mem) (simp add: SchemaKey_length)
    finally have "(x @ URL_PLACEHOLDER @ y) ! j \<in> set SchemaKey" .
    moreover have "(x @ URL_PLACEHOLDER @ y) ! j = URL_PLACEHOLDER ! (j - length x)"
      using j by (simp add: nth_append less_diff_conv2)
    moreover have "URL_PLACEHOLDER ! (j - length x) \<in> set URL_PLACEHOLDER" using j by (intro nth_mem) (simp add: less_diff_conv2)
    moreover have "set URL_PLACEHOLDER \<inter> set SchemaKey = {}" by (simp add: URL_PLACEHOLDER_def SchemaKey_def)
    ultimately show ?thesis by auto
  qed
qed

lemma key_count_replaced:
  assumes "m \<le> Suc n"
  shows "key_count (take m w @ URL_PLACEHOLDER @ drop n w) \<le> key_count w"
proof -
  let ?f = "\<lambda>i. i + length (take m w @ URL_PLACEHOLDER)"
  let ?x = "keys_in (take m w) 0 (length (take m w))" and ?y = "keys_in (drop n w) 0 (length (drop n w))"
  have x: "?x \<subseteq> {i \<in> keys_in w 0 (length w). i + 7 \<le> m}"
    by (auto simp: keys_in_def SchemaKey_length drop_take dest: prefix_order.trans [OF _ take_is_prefix])
  have y: "(\<lambda>i. i + n) ` ?y \<subseteq> {i \<in> keys_in w 0 (length w). n \<le> i}"
    by (auto simp: keys_in_def SchemaKey_length add.commute)
  have "key_count (take m w @ URL_PLACEHOLDER @ drop n w) \<le> card (?x \<union> ?f ` ?y)"
    unfolding key_count_def by (rule card_mono [OF _ keys_around_placeholder]) simp
  also have "\<dots> \<le> card ?x + card (?f ` ?y)" by (rule card_Un_le)
  also have "card (?f ` ?y) = card ((\<lambda>i. i + n) ` ?y)"
    by (simp add: card_image inj_on_def)
  also have "card ?x + card ((\<lambda>i. i + n) ` ?y) = card (?x \<union> (\<lambda>i. i + n) ` ?y)"
  proof (rule card_Un_disjoint [symmetric])
    show "?x \<inter> (\<lambda>i. i + n) ` ?y = {}" using x y assms by fastforce
  qed simp_all
  also have "\<dots> \<le> key_count w"
    unfolding key_count_def using x y by (intro card_mono) auto
  finally show ?thesis .
qed

lemma sanitizeUrl_keys:
  assumes "json_sanitizeUrl node ctx t = Some t'"
  shows "key_count (whole_text ctx t') \<le> key_count (whole_text ctx t)"
proof -
  obtain vs ve where v: "getValueAbsolutePosition node ctx t = (vs, ve)" by fastforce
  then have order: "vs \<le> ve + 1"
    by (auto simp: getValueAbsolutePosition_def Let_def js_index_def split: option.splits)
  define s where "s = int (length (dc_prefix ctx))"
  define a where "a = max (vs - s) 0"
  define b where "b = min (ve - s) (int (length t) - 1)"
  from assms v have in_range: "s < ve" "vs < s + int (length t) - 1"
    and t': "t' = slice_to a t @ URL_PLACEHOLDER @ slice_from b t"
    by (auto simp: json_sanitizeUrl_def Let_def a_def b_def s_def split: if_splits)
  obtain m n where mn: "slice_to a t = take m t" "slice_from b t = drop n t" "m \<le> Suc n" "m \<le> length t" "n \<le> length t"
  proof (cases "t = []")
    case True
    with that [of 0 0] show ?thesis by (simp add: slice_to_def slice_from_def)
  next
    case False
    then have "0 \<le> b" using in_range by (cases t) (auto simp: b_def)
    with in_range order False that [of "nat a" "nat b"] show ?thesis
      by (auto simp: slice_to_def slice_from_def a_def b_def)
  qed
  let ?p = "length (dc_prefix ctx)"
  have "whole_text ctx t' = take (?p + m) (whole_text ctx t) @ URL_PLACEHOLDER @ drop (?p + n) (whole_text ctx t)"
    using mn by (simp add: whole_text_def t')
  with mn(3) show ?thesis by (simp add: key_count_replaced)
qed

lemma node_of_source_keys:
  assumes "node_of_source w n"
  shows "length (findSchemaNodes n) \<le> key_count w"
proof -
  have "sn_endIndex n \<le> length w" using assms by (cases n) simp
  then have "card (keys_in w (sn_startIndex n) (sn_endIndex n)) \<le> key_count w"
    unfolding key_count_def by (intro keys_in_mono) simp_all
  with findSchemaNodes_keys [OF assms] show ?thesis by simp
qed

text \<open>So the loop makes at most as many rounds as the key occurs in the text.\<close>

lemma json_loop_returns:
  assumes "\<And>t. node_of_source t (parse t)" and "length nodes \<le> key_count (whole_text ctx t)"
  shows "\<exists>t'. json_loop parse ctx i nodes t = Some t'"
  using assms(2)
proof (induction "key_count (whole_text ctx t) - i" arbitrary: i t nodes rule: less_induct)
  case less
  show ?case
  proof (cases "i < length nodes")
    case False
    then show ?thesis by (subst json_loop.simps) simp
  next
    case True
    with less.prems have lt: "i < key_count (whole_text ctx t)" by simp
    show ?thesis
    proof (cases "json_sanitizeUrl (nodes ! i) ctx t")
      case None
      have "\<exists>t'. json_loop parse ctx (Suc i) nodes t = Some t'"
        using lt by (intro less.hyps less.prems) simp
      with True None show ?thesis by (subst json_loop.simps) simp
    next
      case (Some u)
      have "\<exists>t'. json_loop parse ctx (Suc i) (findSchemaNodes (parse (whole_text ctx u))) u = Some t'"
        using lt sanitizeUrl_keys [OF Some] node_of_source_keys [OF assms(1)] by (intro less.hyps) simp_all
      with True Some show ?thesis by (subst json_loop.simps) simp
    qed
  qed
qed

lemma json_sanitized_returns:
  assumes "parser_ok env ctx"
  shows "\<exists>r. json_sanitized env ctx t = Some r"
proof (cases "po_parseFile env ctx t")
  case (Inl e)
  then show ?thesis by (simp add: json_sanitized_def)
next
  case (Inr m)
  show ?thesis
  proof (cases m)
    case None
    with Inr show ?thesis by (simp add: json_sanitized_def)
  next
    case (Some root)
    with Inr assms have "length (findSchemaNodes root) \<le> key_count (whole_text ctx t)"
      unfolding parser_ok_def by (blast intro: node_of_source_keys)
    then obtain t' where "json_loop (po_parse env) ctx 0 (findSchemaNodes root) t = Some t'"
      using json_loop_returns [of "po_parse env"] assms unfolding parser_ok_def by blast
    with Inr Some show ?thesis by (simp add: json_sanitized_def Let_def)
  qed
qed

lemma sub_processor_returns:
  "parser_ok env ctx \<Longrightarrow> sub_processor env ctx = Some f \<Longrightarrow> \<exists>r. f t = Some r"
  using json_sanitized_returns [of env ctx t] by (auto simp: sub_processor_def split: if_splits)

lemma all_texts_returns:
  assumes "\<And>t. \<exists>r. f t = Some r"
  shows "\<exists>r. all_texts f opts = Some r \<and>
    (\<forall>os. r = Inr os \<longrightarrow> map (\<lambda>s. s\<lparr>so_text := []\<rparr>) os = map (\<lambda>s. s\<lparr>so_text := []\<rparr>) opts)"
proof (induction opts)
  case Nil
  then show ?case by simp
next
  case (Cons opt opts)
  obtain r where r: "f (so_text opt) = Some r" using assms by blast
  from Cons obtain r' where r': "all_texts f opts = Some r'"
    "\<forall>os. r' = Inr os \<longrightarrow> map (\<lambda>s. s\<lparr>so_text := []\<rparr>) os = map (\<lambda>s. s\<lparr>so_text := []\<rparr>) opts" by blast
  show ?case
  proof (cases r)
    case (Inl e)
    with r r'(1) show ?thesis by (cases r') simp_all
  next
    case (Inr u)
    show ?thesis
    proof (cases r')
      case (Inl e)
      with r Inr r'(1) show ?thesis by simp
    next
      case os: (Inr os)
      with r'(2) have "map (\<lambda>s. s\<lparr>so_text := []\<rparr>) os = map (\<lambda>s. s\<lparr>so_text := []\<rparr>) opts" by blast
      with r Inr r'(1) os show ?thesis by simp
    qed
  qed
qed

lemma post_completion_returns:
  assumes "parser_ok env ctx"
  shows "\<exists>os. post_completion env ctx input = Some os \<and>
    map (\<lambda>s. s\<lparr>so_text := []\<rparr>) os = map (\<lambda>s. s\<lparr>so_text := []\<rparr>) input"
proof (cases "sub_processor env ctx")
  case None
  then show ?thesis by (simp add: post_completion_def url_processCompletion_def)
next
  case (Some f)
  obtain r where r: "all_texts f input = Some r"
    "\<forall>os. r = Inr os \<longrightarrow> map (\<lambda>s. s\<lparr>so_text := []\<rparr>) os = map (\<lambda>s. s\<lparr>so_text := []\<rparr>) input"
    using all_texts_returns [of f input] sub_processor_returns [OF assms Some] by blast
  with Some show ?thesis
    by (cases r) (simp_all add: post_completion_def url_processCompletion_def o_def)
qed

text \<open>The post-processing of suggestions always returns and never fails: it gives the suggestions in their
  order, changed in nothing but their text, whatever the parser finds.\<close>

theorem post_completion_total:
  assumes "parser_ok env ctx"
  shows "\<exists>os. post_completion env ctx input = Some os \<and>
    map (\<lambda>s. s\<lparr>so_text := []\<rparr>) os = map (\<lambda>s. s\<lparr>so_text := []\<rparr>) input"
  using assms by (rule post_completion_returns)

lemma post_stream_total: "parser_ok env ctx \<Longrightarrow> \<exists>t'. post_stream env ctx t = Some t'"
proof (cases "sub_processor env ctx")
  case None
  then show ?thesis by (simp add: post_stream_def url_processStream_def)
next
  case (Some f)
  assume "parser_ok env ctx"
  from sub_processor_returns [OF this Some] obtain r where "f t = Some r" by blast
  with Some show ?thesis by (simp add: post_stream_def url_processStream_def)
qed

subsection \<open>YAML line by line\<close>

lemma index_of_Some: "index_of p s = Some j \<Longrightarrow> j + length p \<le> length s \<and> prefix p (drop j s)"
proof (induction s arbitrary: j)
  case Nil
  then show ?case by (simp split: if_splits)
next
  case (Cons c s)
  then show ?case by (auto split: if_splits dest: prefix_length_le)
qed

lemma index_of_sublist: "sublist p s \<Longrightarrow> \<exists>j. index_of p s = Some j"
proof (induction s)
  case Nil
  then show ?case by simp
next
  case (Cons c s)
  then show ?case by (auto simp: sublist_Cons_right)
qed

text \<open>What is left of a schema comment: up to the equals sign after the key.\<close>

definition comment_start :: "string \<Rightarrow> nat" where
  "comment_start line =
     (case index_of SchemaKey line of
        None \<Rightarrow> 0
      | Some j \<Rightarrow> (case index_of ''='' (drop j line) of None \<Rightarrow> j | Some m \<Rightarrow> j + m + 1))"

definition line_reference :: "string \<Rightarrow> string" where
  "line_reference line = (if isSchemaComment line then take (comment_start line) line @ URL_PLACEHOLDER else line)"

text \<open>The last line keeps its last character.\<close>

definition last_line_reference :: "string \<Rightarrow> string" where
  "last_line_reference line =
     (if isSchemaComment line then take (comment_start line) line @ URL_PLACEHOLDER @ [last line] else line)"

lemma schema_comment_key:
  assumes "isSchemaComment line"
  obtains j where "index_of SchemaKey line = Some j" "j + 7 \<le> length line" "comment_start line \<le> length line"
    "int (comment_start line) = int j + js_index ''='' (drop j line) + 1"
proof -
  from assms obtain i where "str_includes (drop i line) SchemaKey"
    by (auto simp: isSchemaComment_def split: option.splits)
  then have "sublist SchemaKey line"
    by (meson sublist_drop sublist_order.order_trans)
  then obtain j where j: "index_of SchemaKey line = Some j" using index_of_sublist by blast
  then have "j + 7 \<le> length line" using index_of_Some [OF j] by (simp add: SchemaKey_def)
  moreover have "comment_start line \<le> length line"
    using index_of_Some [of "''=''" "drop j line"] calculation j by (auto simp: comment_start_def split: option.splits)
  moreover have "int (comment_start line) = int j + js_index ''='' (drop j line) + 1"
    using j by (auto simp: comment_start_def js_index_def split: option.splits)
  ultimately show ?thesis using j that by blast
qed

lemma sanitizeLine_inner:
  assumes "isSchemaComment l"
  shows "sanitizeLine (front @ l @ rest) 0
      \<lparr>lr_line = l, lr_startIndex = int (length front), lr_endIndex = int (length front) + int (length l)\<rparr> =
    front @ take (comment_start l) l @ URL_PLACEHOLDER @ (if rest = [] then [last l] else rest)"
proof -
  obtain j where j: "index_of SchemaKey l = Some j" "j + 7 \<le> length l" "comment_start l \<le> length l"
    "int (comment_start l) = int j + js_index ''='' (drop j l) + 1"
    using assms by (rule schema_comment_key)
  have start: "int (length front) + js_index SchemaKey l + js_index ''='' (slice_from (js_index SchemaKey l) l) + 1 =
      int (length front + comment_start l)"
    using j(1, 4) by (simp add: js_index_def [of SchemaKey] slice_from_def)
  have last: "drop (length front + length l - 1) (front @ l) = [last l]"
    using j(2) by (cases l rule: rev_cases) auto
  let ?s = "front @ l @ rest" and ?e = "int (length front + length l)"
  have "sanitizeLine ?s 0 \<lparr>lr_line = l, lr_startIndex = int (length front), lr_endIndex = int (length front) + int (length l)\<rparr> =
      slice_to (int (length front + comment_start l)) ?s @ URL_PLACEHOLDER @
      slice_from (min ?e (int (length ?s) - 1)) ?s"
    using j(2) arg_cong [OF start, of "\<lambda>x. slice_to (max x 0) ?s"] unfolding sanitizeLine_def Let_def by simp
  also have "slice_to (int (length front + comment_start l)) ?s = front @ take (comment_start l) l"
    using j(3) by (simp add: slice_to_def nat_add_distrib)
  also have "slice_from (min ?e (int (length ?s) - 1)) ?s = (if rest = [] then [last l] else rest)"
  proof (cases "rest = []")
    case True
    then have "int (length ?s) - 1 = int (length front + length l - 1)"
      using j(2) by simp
    then have m: "min ?e (int (length ?s) - 1) = int (length front + length l - 1)"
      by (simp add: min_absorb2)
    have "slice_from (int (length front + length l - 1)) (front @ l) = [last l]"
      unfolding last [symmetric] by (simp only: slice_from_def of_nat_0_le_iff if_True nat_int)
    then show ?thesis unfolding m unfolding True by simp
  next
    case False
    then have "?e \<le> int (length ?s) - 1" using False by simp
    then have "min ?e (int (length ?s) - 1) = ?e" by (rule min_absorb1)
    moreover have "slice_from ?e ?s = rest" by (simp add: slice_from_def nat_add_distrib)
    ultimately show ?thesis using False by simp
  qed
  finally show ?thesis by simp
qed

lemma sanitize_ranges_lines:
  assumes "0 \<le> S" and "S + offset = int (length front)" and "lines \<noteq> []"
  shows "sanitize_ranges 0 (front @ join [newline] lines) offset
      (filter (\<lambda>r. isSchemaComment (lr_line r)) (line_ranges_from S lines)) =
    front @ join [newline] (map line_reference (butlast lines) @ [last_line_reference (last lines)])"
  using assms
proof (induction lines arbitrary: S offset front)
  case Nil
  then show ?case by simp
next
  case (Cons l ls)
  let ?range = "\<lparr>lr_line = l, lr_startIndex = int (length front), lr_endIndex = int (length front) + int (length l)\<rparr>"
  have max: "max (S + int (length l)) 0 = S + int (length l)" using Cons.prems(1) by simp
  have shift: "S + int (length l) + offset = int (length front) + int (length l)" using Cons.prems(2) by simp
  show ?case
  proof (cases "ls = []")
    case True
    show ?thesis
    proof (cases "isSchemaComment l")
      case False
      with True max show ?thesis by (simp add: last_line_reference_def)
    next
      case comment: True
      with True max Cons.prems(2) sanitizeLine_inner [OF comment, of front "[]"] show ?thesis
        by (simp add: last_line_reference_def Let_def shift)
    qed
  next
    case False
    have split: "join [newline] (l # ls) = l @ newline # join [newline] ls"
      using False by (cases ls) auto
    have after: "join [newline] (line_reference l # map line_reference (butlast ls) @ [last_line_reference (last ls)]) =
        line_reference l @ newline # join [newline] (map line_reference (butlast ls) @ [last_line_reference (last ls)])"
      by (cases "map line_reference (butlast ls) @ [last_line_reference (last ls)]") auto
    show ?thesis
    proof (cases "isSchemaComment l")
      case plain: False
      have "S + int (length l) + 1 + offset = int (length (front @ l @ [newline]))"
        using shift by simp
      moreover have "line_reference l = l" using plain by (simp add: line_reference_def)
      ultimately show ?thesis
        using Cons.IH [OF _ _ False, of "S + int (length l) + 1" offset "front @ l @ [newline]"]
          Cons.prems(1) max plain False after
        by (simp add: split Let_def)
    next
      case True
      let ?new = "take (comment_start l) l @ URL_PLACEHOLDER"
      have "S + int (length l) + 1 + (offset + int (length ?new) - int (length l)) =
          int (length (front @ ?new @ [newline]))"
        using shift by simp
      note IH = Cons.IH [OF _ this False]
      let ?rest = "newline # join [newline] ls" and ?rs = "line_ranges_from (S + int (length l) + 1) ls"
      have line: "sanitizeLine (front @ l @ ?rest) 0 ?range = front @ ?new @ ?rest"
        using sanitizeLine_inner [OF True, of front ?rest] by simp
      have "sanitize_ranges 0 (front @ l @ ?rest) offset
          (filter (\<lambda>r. isSchemaComment (lr_line r)) (line_ranges_from S (l # ls))) =
        sanitize_ranges 0 (front @ ?new @ ?rest)
          (offset + int (length (front @ ?new @ ?rest)) - int (length (front @ l @ ?rest)))
          (filter (\<lambda>r. isSchemaComment (lr_line r)) ?rs)"
        using max True by (simp only: line_ranges_from.simps Let_def filter.simps line_range.simps if_True
            sanitize_ranges.simps line_range.update_convs shift Cons.prems(2) line)
      also have "offset + int (length (front @ ?new @ ?rest)) - int (length (front @ l @ ?rest)) =
          offset + int (length ?new) - int (length l)"
        by simp
      also have "sanitize_ranges 0 (front @ ?new @ ?rest) \<dots> (filter (\<lambda>r. isSchemaComment (lr_line r)) ?rs) =
          front @ ?new @ newline # join [newline] (map line_reference (butlast ls) @ [last_line_reference (last ls)])"
        using IH Cons.prems(1) by simp
      finally show ?thesis
        using False True after by (simp add: split line_reference_def [of l])
    qed
  qed
qed

text \<open>A suggestion of whole lines is sanitized line by line: every schema comment keeps its text up to the
  equals sign and gets the placeholder, other lines stay; except that the last line, when it is a
  schema comment, also keeps the last character of its URL.\<close>

theorem yaml_sanitized_lines:
  assumes "last (split_on newline (dc_prefix ctx)) = []" and "hd (split_on newline (dc_suffix ctx)) = []"
  shows "yaml_sanitized ctx s =
    join [newline] (map line_reference (butlast (split_on newline s)) @
                    [last_line_reference (last (split_on newline s))])"
proof (cases "s = []")
  case True
  then show ?thesis by (simp add: yaml_sanitized_def last_line_reference_def isSchemaComment_def)
next
  case False
  with sanitize_ranges_lines [of 0 0 "[]" "split_on newline s"] show ?thesis
    by (simp add: yaml_sanitized_def convertToLineRanges_def assms)
qed

definition demo_yaml :: doc_context where
  "demo_yaml =
     \<lparr>dc_prefix = ''a'' @ [newline], dc_suffix = [newline], dc_fileRelativePath = ''x.yml'',
      dc_position = \<lparr>pos_line = 1, pos_character = 0\<rparr>, dc_uri = ''file:///w/x.yml'', dc_languageId = ''yaml'',
      dc_workspaceFolder = None\<rparr>"

theorem yaml_sanitized_lines_witness:
  "yaml_sanitized demo_yaml (''# $schema=ab'' @ newline # ''x'') = ''# $schema=<YOUR_URL_GOES_HERE>'' @ newline # ''x'' \<and>
   yaml_sanitized demo_yaml ''# $schema=ab'' = ''# $schema=<YOUR_URL_GOES_HERE>b''"
  using yaml_sanitized_lines [of demo_yaml "''# $schema=ab'' @ newline # ''x''"]
    yaml_sanitized_lines [of demo_yaml "''# $schema=ab''"]
  by (simp add: demo_yaml_def line_reference_def last_line_reference_def isSchemaComment_def SchemaKey_def
      comment_start_def URL_PLACEHOLDER_def sublist_Cons_right)

text \<open>A parser of JSON texts with one schema key: the pair starts at the key.\<close>

definition quoted_key :: string where
  "quoted_key = CHR 0x22 # SchemaKey @ [CHR 0x22]"

definition demo_json_parse :: "string \<Rightarrow> syntax_node" where
  "demo_json_parse t =
     Syntax_node ''document'' t 0 (length t) None
       (case index_of quoted_key t of
          None \<Rightarrow> []
        | Some j \<Rightarrow>
            (let key = Syntax_node ''string'' (take 9 (drop j t)) j (j + 9) None [];
                 pair = Syntax_node ''pair'' (drop j t) j (length t) (Some key) [key]
             in [Syntax_node ''object'' t 0 (length t) None [pair]]))"

definition demo_post :: post_env where
  "demo_post = \<lparr>po_parseFile = (\<lambda>c t. Inr (Some (demo_json_parse (whole_text c t)))), po_parse = demo_json_parse\<rparr>"

definition demo_json :: doc_context where
  "demo_json = demo_yaml\<lparr>dc_prefix := ''{'', dc_suffix := ''}'', dc_languageId := ''json''\<rparr>"

definition demo_schema_option :: suggestion_option where
  "demo_schema_option =
     \<lparr>so_index = None, so_text = CHR 0x22 # ''$schema'' @ CHR 0x22 # '': '' @ CHR 0x22 # ''http://s'' @ [CHR 0x22],
      so_uniqueTrackingId = ''i'', so_model = None\<rparr>"

lemma demo_json_parse_ok: "node_of_source t (demo_json_parse t)"
proof (cases "index_of quoted_key t")
  case None
  then show ?thesis by (simp add: demo_json_parse_def)
next
  case (Some j)
  from index_of_Some [OF Some] have "j + 9 \<le> length t" by (simp add: quoted_key_def SchemaKey_def)
  with Some show ?thesis by (simp add: demo_json_parse_def Let_def)
qed

lemma demo_parser_ok: "parser_ok demo_post ctx"
  by (auto simp: parser_ok_def demo_post_def demo_json_parse_ok)

lemma demo_schema_replaced:
  "map_option (map so_text) (post_completion demo_post demo_json [demo_schema_option]) =
     Some [CHR 0x22 # ''$schema'' @ CHR 0x22 # '': '' @ CHR 0x22 # URL_PLACEHOLDER @ [CHR 0x22]]"
proof -
  let ?t = "so_text demo_schema_option"
  let ?u = "CHR 0x22 # ''$schema'' @ CHR 0x22 # '': '' @ CHR 0x22 # URL_PLACEHOLDER @ [CHR 0x22]"
  have nodes: "findSchemaNodes (demo_json_parse (whole_text demo_json ?t)) = [Syntax_node ''string'' quoted_key 1 10 None []]"
    "findSchemaNodes (demo_json_parse (whole_text demo_json ?u)) = [Syntax_node ''string'' quoted_key 1 10 None []]"
    by code_simp+
  have "json_sanitizeUrl (Syntax_node ''string'' quoted_key 1 10 None []) demo_json ?t = Some ?u" by code_simp
  with nodes have "json_loop demo_json_parse demo_json 0 [Syntax_node ''string'' quoted_key 1 10 None []] ?t = Some ?u"
    by (subst json_loop.simps, simp) (subst json_loop.simps, simp)
  with nodes have "json_sanitized demo_post demo_json ?t = Some (Inr ?u)"
    by (simp add: json_sanitized_def demo_post_def)
  then show ?thesis
    by (simp add: post_completion_def url_processCompletion_def sub_processor_def demo_json_def demo_schema_option_def)
qed

theorem post_completion_total_witness:
  "\<exists>os. post_completion demo_post demo_json [demo_schema_option] = Some os \<and>
    map (\<lambda>s. s\<lparr>so_text := []\<rparr>) os = [demo_schema_option\<lparr>so_text := []\<rparr>] \<and>
    map so_text os = [CHR 0x22 # ''$schema'' @ CHR 0x22 # '': '' @ CHR 0x22 # URL_PLACEHOLDER @ [CHR 0x22]]"
  using post_completion_total [OF demo_parser_ok, of demo_json "[demo_schema_option]"] demo_schema_replaced by auto

end
