(* ===== verification/Uri_Path.thy ===== *)
theory Uri_Path
  imports Domain Document_Context
begin

text \<open>
  Resource identifiers and paths (\<open>src/common/services/fs/utils.ts\<close>).  The package \<open>vscode-uri\<close> is a
  parameter: a value of \<open>'u uri_api\<close> gives the operations of \<open>URI\<close> and \<open>Utils\<close> on a type \<open>'u\<close> of
  identifiers; what the components rely on is \<open>uri_ok\<close>.  Of the standard library the theory models
  \<open>decodeURIComponent\<close> and the POSIX version of the module \<open>path\<close> (\<open>path-browserify\<close> in the browser build).
\<close>

subsection \<open>URIs\<close>

record 'u uri_api =
  ua_toString :: "'u \<Rightarrow> string"
  ua_parse :: "string \<Rightarrow> 'u"
  ua_fsPath :: "'u \<Rightarrow> string"
  ua_path :: "'u \<Rightarrow> string"
  ua_scheme :: "'u \<Rightarrow> string"
  ua_file :: "string \<Rightarrow> 'u"
  ua_dirname :: "'u \<Rightarrow> 'u"
  ua_basename :: "'u \<Rightarrow> string"
  ua_resolvePath :: "'u \<Rightarrow> string list \<Rightarrow> 'u"

text \<open>Parsing what \<open>toString\<close> wrote gives an identifier with the same text, which is not empty.\<close>

definition uri_ok :: "'u uri_api \<Rightarrow> bool" where
  "uri_ok U \<longleftrightarrow> (\<forall>u. ua_toString U (ua_parse U (ua_toString U u)) = ua_toString U u \<and> ua_toString U u \<noteq> [])"

lemma uri_okD:
  "uri_ok U \<Longrightarrow> ua_toString U (ua_parse U (ua_toString U u)) = ua_toString U u"
  "uri_ok U \<Longrightarrow> ua_toString U u \<noteq> []"
  by (simp_all add: uri_ok_def)

definition fsPathToUri :: "'u uri_api \<Rightarrow> string \<Rightarrow> 'u" where
  "fsPathToUri U fsPath = ua_file U fsPath"

definition fsPathFromUri :: "'u uri_api \<Rightarrow> 'u \<Rightarrow> string" where
  "fsPathFromUri U fsUri = ua_fsPath U fsUri"

definition parseURIString :: "'u uri_api \<Rightarrow> string \<Rightarrow> 'u" where
  "parseURIString U uri = ua_parse U uri"

subsection \<open>\<open>decodeURIComponent\<close>\<close>

definition hex_value :: "char \<Rightarrow> nat option" where
  "hex_value c =
     (let n = of_char c :: nat in
      if 48 \<le> n \<and> n \<le> 57 then Some (n - 48)
      else if 65 \<le> n \<and> n \<le> 70 then Some (n - 55)
      else if 97 \<le> n \<and> n \<le> 102 then Some (n - 87)
      else None)"

fun percent_byte :: "string \<Rightarrow> (nat \<times> string) option" where
  "percent_byte (c # h # l # rest) =
     (if c = CHR ''%'' then
        (case (hex_value h, hex_value l) of
           (Some a, Some b) \<Rightarrow> Some (16 * a + b, rest)
         | _ \<Rightarrow> None)
      else None)"
| "percent_byte _ = None"

fun percent_bytes :: "nat \<Rightarrow> string \<Rightarrow> (nat list \<times> string) option" where
  "percent_bytes 0 s = Some ([], s)"
| "percent_bytes (Suc n) s =
     (case percent_byte s of
        None \<Rightarrow> None
      | Some (b, r) \<Rightarrow> map_option (\<lambda>(bs, r'). (b # bs, r')) (percent_bytes n r))"

definition code_point :: "nat \<Rightarrow> nat list \<Rightarrow> nat" where
  "code_point b bs = foldl (\<lambda>a c. a * 64 + c mod 64) (b mod 2 ^ (6 - length bs)) bs"

definition following_bytes :: "nat \<Rightarrow> nat" where
  "following_bytes b = (if b < 0xC0 then 0 else if b < 0xE0 then 1 else if b < 0xF0 then 2 else if b < 0xF8 then 3 else 0)"

text \<open>One escaped character: bytes that are the UTF-8 encoding of a scalar value, or nothing.\<close>

definition percent_char :: "string \<Rightarrow> (nat \<times> string) option" where
  "percent_char s =
     (case percent_byte s of
        None \<Rightarrow> None
      | Some (b, r) \<Rightarrow>
          if b < 128 then Some (b, r)
          else if following_bytes b = 0 then None
          else (case percent_bytes (following_bytes b) r of
                  None \<Rightarrow> None
                | Some (bs, r') \<Rightarrow>
                    if scalar (code_point b bs) \<and> utf8_char (code_point b bs) = b # bs
                    then Some (code_point b bs, r') else None))"

lemma percent_byte_shorter: "percent_byte s = Some (b, r) \<Longrightarrow> length r < length s"
  by (induction s rule: percent_byte.induct) (auto split: if_splits option.splits)

lemma percent_bytes_shorter: "percent_bytes n s = Some (bs, r) \<Longrightarrow> length r \<le> length s"
proof (induction n arbitrary: s bs)
  case 0
  then show ?case by simp
next
  case (Suc n)
  then obtain b r0 bs' where "percent_byte s = Some (b, r0)" "percent_bytes n r0 = Some (bs', r)"
    by (auto split: option.splits)
  with Suc.IH percent_byte_shorter show ?case by fastforce
qed

lemma percent_char_shorter: "percent_char s = Some (u, r) \<Longrightarrow> length r < length s"
  by (auto simp: percent_char_def split: option.splits if_splits
      dest!: percent_byte_shorter percent_bytes_shorter)

function decodeURIComponent :: "string \<Rightarrow> js_error + text16" where
  "decodeURIComponent [] = Inr []"
| "decodeURIComponent (c # s) =
     (if c = CHR ''%'' then
        (case percent_char (c # s) of
           None \<Rightarrow> Inl URIError
         | Some (u, r) \<Rightarrow> map_sum id (\<lambda>t. units_of u @ t) (decodeURIComponent r))
      else map_sum id (\<lambda>t. of_char c # t) (decodeURIComponent s))"
  by pat_completeness auto
termination
  by (relation "measure length") (auto dest: percent_char_shorter)

lemma decode_plain: "CHR ''%'' \<notin> set s \<Longrightarrow> decodeURIComponent s = Inr (widen s)"
  by (induction s) auto

text \<open>\<open>decodedPath.split\<close> at runs of slashes and backslashes, without the empty parts.\<close>

definition path_parts :: "text16 \<Rightarrow> text16 list" where
  "path_parts s = filter (\<lambda>w. w \<noteq> []) (split_on 47 (map (\<lambda>u. if u = 92 then 47 else u) s))"

definition splitPath :: "string \<Rightarrow> js_error + text16 list" where
  "splitPath s = map_sum id path_parts (decodeURIComponent s)"

subsection \<open>POSIX paths\<close>

definition posix_dirname :: "string \<Rightarrow> string" where
  "posix_dirname p =
     (case p of
        [] \<Rightarrow> ''.''
      | c # t \<Rightarrow>
          (let r = dropWhile (\<lambda>x. x \<noteq> slash) (dropWhile (\<lambda>x. x = slash) (rev t)) in
           if r = [] then (if c = slash then ''/'' else ''.'')
           else if c = slash \<and> length r = 1 then ''//''
           else c # rev (tl r)))"

text \<open>\<open>normalizeString\<close>: the parts kept so far, last first.\<close>

fun normalize_parts :: "bool \<Rightarrow> string list \<Rightarrow> string list \<Rightarrow> string list" where
  "normalize_parts up stack [] = rev stack"
| "normalize_parts up stack (w # ws) =
     (if w = [] \<or> w = ''.'' then normalize_parts up stack ws
      else if w = ''..'' then
        (case stack of
           [] \<Rightarrow> normalize_parts up (if up then [w] else []) ws
         | k # ks \<Rightarrow> normalize_parts up (if k = ''..'' then w # stack else ks) ws)
      else normalize_parts up (w # stack) ws)"

definition is_absolute :: "string \<Rightarrow> bool" where
  "is_absolute p = starts_with p ''/''"

definition posix_normalize :: "string \<Rightarrow> string" where
  "posix_normalize p =
     (if p = [] then ''.''
      else
        let q = join ''/'' (normalize_parts (\<not> is_absolute p) [] (split_on slash p)) in
        if q = [] then (if is_absolute p then ''/'' else if ends_with p ''/'' then ''./'' else ''.'')
        else (if is_absolute p then ''/'' else []) @ q @ (if ends_with p ''/'' then ''/'' else []))"

definition posix_join :: "string \<Rightarrow> string \<Rightarrow> string" where
  "posix_join a b = posix_normalize (join ''/'' (filter (\<lambda>w. w \<noteq> []) [a, b]))"

definition resolved_parts :: "string \<Rightarrow> string \<Rightarrow> string list" where
  "resolved_parts cwd p =
     normalize_parts False [] (split_on slash (if is_absolute p then p else cwd @ ''/'' @ p))"

text \<open>The parts of the second path below the longest common directory, after one step up for each part of
  the first one.\<close>

fun relative_parts :: "string list \<Rightarrow> string list \<Rightarrow> string list" where
  "relative_parts (a # as) (b # bs) =
     (if a = b then relative_parts as bs else map (\<lambda>_. ''..'') (a # as) @ b # bs)"
| "relative_parts as bs = map (\<lambda>_. ''..'') as @ bs"

definition posix_relative :: "string \<Rightarrow> string \<Rightarrow> string \<Rightarrow> string" where
  "posix_relative cwd from_path to_path =
     join ''/'' (relative_parts (resolved_parts cwd from_path) (resolved_parts cwd to_path))"

lemma posix_dirname_shorter:
  assumes "2 \<le> length p"
  shows "length (posix_dirname p) < length p"
proof (cases p)
  case Nil
  with assms show ?thesis by simp
next
  case (Cons c t)
  define q where "q = dropWhile (\<lambda>x. x = slash) (rev t)"
  define r where "r = dropWhile (\<lambda>x. x \<noteq> slash) q"
  have q: "length q \<le> length t"
    using length_dropWhile_le [of "\<lambda>x. x = slash" "rev t"] by (simp add: q_def)
  have r: "length r < length q" if "r \<noteq> []"
  proof -
    from that have "q \<noteq> []" by (auto simp: r_def)
    then obtain x ys where x: "q = x # ys" by (cases q) auto
    moreover from this have "x \<noteq> slash"
      using hd_dropWhile [of "\<lambda>x. x = slash" "rev t"] by (simp add: q_def)
    ultimately show ?thesis
      using length_dropWhile_le [of "\<lambda>x. x \<noteq> slash" ys] by (simp add: r_def)
  qed
  have "posix_dirname p = (if r = [] then (if c = slash then ''/'' else ''.'')
      else if c = slash \<and> length r = 1 then ''//'' else c # rev (tl r))"
    by (simp only: posix_dirname_def Cons list.case r_def q_def Let_def)
  moreover have "length p = Suc (length t)" by (simp add: Cons)
  ultimately show ?thesis using q r assms by (cases "r = []") (auto split: if_split)
qed

subsection \<open>Relative paths\<close>

definition toSlashes :: "string \<Rightarrow> string" where
  "toSlashes osPath = map (\<lambda>c. if c = CHR 0x5C then slash else c) osPath"

definition ignorePathCasing :: "'u uri_api \<Rightarrow> 'u \<Rightarrow> bool \<Rightarrow> bool" where
  "ignorePathCasing U uri isLinux = (if ua_scheme U uri = ''file'' then \<not> isLinux else True)"

fun casing_prefix :: "string \<Rightarrow> string \<Rightarrow> nat" where
  "casing_prefix (a # as) (b # bs) =
     (if a \<noteq> b \<and> char_lower a \<noteq> char_lower b then 0 else Suc (casing_prefix as bs))"
| "casing_prefix _ _ = 0"

record host =
  ho_platform :: string
  ho_cwd :: string

definition fs_getRelativePath :: "host \<Rightarrow> 'u uri_api \<Rightarrow> 'u \<Rightarrow> 'u \<Rightarrow> string" where
  "fs_getRelativePath h U source target =
     (if ua_scheme U source = ''file'' then
        let relativePath = posix_relative (ho_cwd h) (ua_fsPath U source) (ua_fsPath U target) in
        if ho_platform h = ''win32'' then toSlashes relativePath else relativePath
      else
        let fromPath = (if ua_path U source = [] then ''/'' else ua_path U source);
            toPath = (if ua_path U target = [] then ''/'' else ua_path U target);
            i = casing_prefix fromPath toPath in
        posix_relative (ho_cwd h)
          (if ignorePathCasing U source (ho_platform h = ''linux'')
           then take i toPath @ drop i fromPath else fromPath)
          toPath)"

subsection \<open>A concrete library of file URIs\<close>

definition file_uris :: "string uri_api" where
  "file_uris =
     \<lparr>ua_toString = (\<lambda>u. ''file://'' @ u), ua_parse = drop 7, ua_fsPath = id, ua_path = id,
      ua_scheme = (\<lambda>_. ''file''), ua_file = id, ua_dirname = posix_dirname, ua_basename = last_segment,
      ua_resolvePath = (\<lambda>u ps. ''/'' @ join ''/'' (resolved_parts [] (join ''/'' (u # ps))))\<rparr>"

definition posix_host :: host where
  "posix_host = \<lparr>ho_platform = ''linux'', ho_cwd = ''/''\<rparr>"

lemma file_uris_ok: "uri_ok file_uris"
  by (simp add: uri_ok_def file_uris_def)

lemma posix_dirname_values: "posix_dirname ''/a/b'' = ''/a''" "posix_dirname ''/a'' = ''/''" "posix_dirname ''/a//b/'' = ''/a/''"
  by (simp_all add: posix_dirname_def slash_def)

lemma relative_path_value: "fs_getRelativePath posix_host file_uris ''/a/b'' ''/a/c/d'' = ''../c/d''"
  by (simp add: fs_getRelativePath_def posix_host_def file_uris_def posix_relative_def resolved_parts_def
      is_absolute_def slash_def)

end
