(* ===== verification/Dir_Matcher.thy ===== *)
theory Dir_Matcher
  imports Uri_Path
begin

text \<open>
  The trie of directories (\<open>src/common/services/fs/dir_matcher.ts\<close>): which of the directories added lie on
  the way to a given file.  A node is a value of \<open>dir_trie\<close>; adding a path rebuilds the nodes along it, as
  the code updates them in place.  Splitting a path may throw, so every operation is a sum.

  The abstraction of a trie is the map \<open>trie_at\<close> from paths to the directory stored there.
\<close>

datatype dir_trie =
  Dir_trie (dt_pathSegment: text16) (dt_children: "(text16, dir_trie) jsmap") (dt_dirToMatch: "string option")

definition dt_new :: "text16 \<Rightarrow> dir_trie" where
  "dt_new dirPart = Dir_trie dirPart [] None"

primrec trie_add :: "text16 list \<Rightarrow> string \<Rightarrow> dir_trie \<Rightarrow> dir_trie" where
  "trie_add [] dir node = Dir_trie (dt_pathSegment node) (dt_children node) (Some dir)"
| "trie_add (w # ws) dir node =
     Dir_trie (dt_pathSegment node)
       (map_set w
          (trie_add ws dir (case map_get (dt_children node) w of Some child \<Rightarrow> child | None \<Rightarrow> dt_new w))
          (dt_children node))
       (dt_dirToMatch node)"

definition dir_here :: "dir_trie \<Rightarrow> string list" where
  "dir_here node = (case dt_dirToMatch node of None \<Rightarrow> [] | Some dir \<Rightarrow> if dir = [] then [] else [dir])"

primrec trie_find :: "text16 list \<Rightarrow> dir_trie \<Rightarrow> string list" where
  "trie_find [] node = []"
| "trie_find (w # ws) node =
     (case map_get (dt_children node) w of
        None \<Rightarrow> []
      | Some child \<Rightarrow> dir_here child @ trie_find ws child)"

subsection \<open>The matcher\<close>

definition fdm_new :: dir_trie where
  "fdm_new = dt_new []"

definition fdm_addPath :: "'u uri_api \<Rightarrow> 'u \<Rightarrow> dir_trie \<Rightarrow> js_error + dir_trie" where
  "fdm_addPath U dirUri root =
     map_sum id (\<lambda>pathSegments. trie_add pathSegments (ua_toString U dirUri) root) (splitPath (ua_toString U dirUri))"

definition addFileToMatch :: "'u uri_api \<Rightarrow> 'u \<Rightarrow> dir_trie \<Rightarrow> js_error + dir_trie" where
  "addFileToMatch U uri root = fdm_addPath U (ua_dirname U uri) root"

definition addDirectoryToMatch :: "'u uri_api \<Rightarrow> 'u \<Rightarrow> dir_trie \<Rightarrow> js_error + dir_trie" where
  "addDirectoryToMatch U directoryUri root = fdm_addPath U directoryUri root"

definition findMatchingDirectories :: "'u uri_api \<Rightarrow> 'u \<Rightarrow> dir_trie \<Rightarrow> js_error + 'u list" where
  "findMatchingDirectories U uri root =
     map_sum id (\<lambda>ws. map (ua_parse U) (trie_find ws root)) (splitPath (ua_toString U uri))"

definition fdm_dispose :: "dir_trie \<Rightarrow> dir_trie" where
  "fdm_dispose root = dt_new []"

subsection \<open>The abstract map\<close>

primrec trie_at :: "text16 list \<Rightarrow> dir_trie \<Rightarrow> string option" where
  "trie_at [] node = dt_dirToMatch node"
| "trie_at (w # ws) node =
     (case map_get (dt_children node) w of None \<Rightarrow> None | Some child \<Rightarrow> trie_at ws child)"

lemma trie_at_new [simp]: "trie_at ws (dt_new w) = None"
  by (cases ws) (auto simp: dt_new_def)

lemma trie_at_add [simp]: "trie_at q (trie_add p dir node) = (if q = p then Some dir else trie_at q node)"
  by (induction p arbitrary: q node; case_tac q) (auto split: option.splits)

definition nonempty_dir :: "string option \<Rightarrow> string option" where
  "nonempty_dir d = (case d of None \<Rightarrow> None | Some dir \<Rightarrow> if dir = [] then None else Some dir)"

lemma dir_here_at: "dir_here node = (case nonempty_dir (trie_at [] node) of None \<Rightarrow> [] | Some d \<Rightarrow> [d])"
  by (simp add: dir_here_def nonempty_dir_def split: option.splits)

lemma trie_find_None: "(\<And>p. p \<noteq> [] \<Longrightarrow> trie_at p node = None) \<Longrightarrow> trie_find ws node = []"
proof (induction ws arbitrary: node)
  case Nil
  then show ?case by simp
next
  case (Cons w ws)
  show ?case
  proof (cases "map_get (dt_children node) w")
    case (Some child)
    then have at: "trie_at p child = None" for p
      using Cons.prems [of "w # p"] by simp
    from Cons.IH [OF at] at [of "[]"] Some show ?thesis by (simp add: dir_here_at nonempty_dir_def)
  qed simp
qed

lemma trie_find_prefixes:
  "trie_find ws node = List.map_filter (\<lambda>p. nonempty_dir (trie_at p node)) (tl (prefixes ws))"
proof (induction ws arbitrary: node)
  case Nil
  then show ?case by (simp add: map_filter_simps)
next
  case (Cons w ws)
  have tl: "tl (prefixes (w # ws)) = [w] # map ((#) w) (tl (prefixes ws))"
    by (cases ws) simp_all
  show ?case
  proof (cases "map_get (dt_children node) w")
    case None
    then show ?thesis
      by (simp only: tl) (auto simp: map_filter_simps nonempty_dir_def List.map_filter_def o_def)
  next
    case (Some child)
    with Cons.IH [of child] show ?thesis
      by (simp only: tl)
         (auto simp: map_filter_simps dir_here_at List.map_filter_def o_def filter_map split: option.splits)
  qed
qed

text \<open>The directories added one after the other, and the one stored at a path: the last with these parts.\<close>

primrec fdm_addAll :: "'u uri_api \<Rightarrow> 'u list \<Rightarrow> dir_trie \<Rightarrow> js_error + dir_trie" where
  "fdm_addAll U [] root = Inr root"
| "fdm_addAll U (d # ds) root =
     (case addDirectoryToMatch U d root of Inl e \<Rightarrow> Inl e | Inr r \<Rightarrow> fdm_addAll U ds r)"

definition last_added :: "'u uri_api \<Rightarrow> 'u list \<Rightarrow> text16 list \<Rightarrow> 'u option" where
  "last_added U ds p = find (\<lambda>d. splitPath (ua_toString U d) = Inr p) (rev ds)"

lemma find_append: "find P (xs @ ys) = (case find P xs of None \<Rightarrow> find P ys | Some x \<Rightarrow> Some x)"
  by (induction xs) auto

lemma trie_at_addAll:
  "fdm_addAll U ds root = Inr t \<Longrightarrow>
   trie_at p t = (case last_added U ds p of Some d \<Rightarrow> Some (ua_toString U d) | None \<Rightarrow> trie_at p root)"
proof (induction ds arbitrary: root)
  case Nil
  then show ?case by (simp add: last_added_def)
next
  case (Cons d ds)
  then obtain r where r: "addDirectoryToMatch U d root = Inr r" "fdm_addAll U ds r = Inr t"
    by (auto split: sum.splits)
  then obtain ps where ps: "splitPath (ua_toString U d) = Inr ps" "r = trie_add ps (ua_toString U d) root"
    by (cases "splitPath (ua_toString U d)") (auto simp: addDirectoryToMatch_def fdm_addPath_def)
  from Cons.IH [OF r(2)] ps show ?case
    by (auto simp: last_added_def find_append split: option.splits)
qed

lemma findMatchingDirectories_added:
  assumes "uri_ok U" and "fdm_addAll U ds fdm_new = Inr t" and "splitPath (ua_toString U uri) = Inr ps"
  shows "findMatchingDirectories U uri t =
    Inr (map (\<lambda>d. ua_parse U (ua_toString U d)) (List.map_filter (last_added U ds) (tl (prefixes ps))))"
proof -
  have "nonempty_dir (trie_at p t) = map_option (ua_toString U) (last_added U ds p)" for p
    using uri_okD(2) [OF assms(1)]
    by (auto simp: trie_at_addAll [OF assms(2)] nonempty_dir_def fdm_new_def split: option.splits)
  then have "trie_find ps t = map (ua_toString U) (List.map_filter (last_added U ds) (tl (prefixes ps)))"
    by (auto simp: trie_find_prefixes List.map_filter_def o_def)
  with assms(3) show ?thesis by (simp add: findMatchingDirectories_def)
qed

text \<open>C39: The directories found for a file are exactly the added directories whose path is a prefix of the file's
  path, from the shallowest to the deepest, and of two directories with the same path the one added last.\<close>

theorem matcher_finds_prefixes:
  assumes "uri_ok U" and "fdm_addAll U ds fdm_new = Inr t" and "splitPath (ua_toString U uri) = Inr ps"
  shows "findMatchingDirectories U uri t =
    Inr (map (\<lambda>d. ua_parse U (ua_toString U d)) (List.map_filter (last_added U ds) (tl (prefixes ps))))"
  by (rule findMatchingDirectories_added [OF assms])

definition demo_dirs :: "string list" where
  "demo_dirs = [''/h/p'', ''/h/p/src'', ''/h/q'']"

lemma demo_split [simp]:
  "splitPath (ua_toString file_uris ''/h/p'') = Inr [widen ''file:'', widen ''h'', widen ''p'']"
  "splitPath (ua_toString file_uris ''/h/p/src'') = Inr [widen ''file:'', widen ''h'', widen ''p'', widen ''src'']"
  "splitPath (ua_toString file_uris ''/h/q'') = Inr [widen ''file:'', widen ''h'', widen ''q'']"
  "splitPath (ua_toString file_uris ''/h/p/src/a.ts'') =
     Inr [widen ''file:'', widen ''h'', widen ''p'', widen ''src'', widen ''a.ts'']"
  by (simp_all add: splitPath_def file_uris_def decode_plain path_parts_def)

theorem matcher_finds_prefixes_witness:
  "\<exists>t. fdm_addAll file_uris demo_dirs fdm_new = Inr t \<and>
     findMatchingDirectories file_uris ''/h/p/src/a.ts'' t = Inr [''/h/p'', ''/h/p/src'']"
proof -
  obtain t where t: "fdm_addAll file_uris demo_dirs fdm_new = Inr t"
    by (simp add: demo_dirs_def addDirectoryToMatch_def fdm_addPath_def)
  have "findMatchingDirectories file_uris ''/h/p/src/a.ts'' t = Inr [''/h/p'', ''/h/p/src'']"
    using matcher_finds_prefixes [OF file_uris_ok t demo_split(4)]
    by (simp add: last_added_def demo_dirs_def map_filter_simps) (simp add: file_uris_def)
  with t show ?thesis by blast
qed

end
