(* ===== verification/Git_Ignore.thy ===== *)
theory Git_Ignore
  imports Dir_Matcher
begin

text \<open>
  Which files git ignores (\<open>src/common/services/git/git_ignore_manager.ts\<close>).  The package \<open>ignore\<close> is a
  parameter: from the text of an ignore file and a relative path \<open>ig_test\<close> gives the two flags \<open>ignored\<close> and
  \<open>unignored\<close> (the last rule that matches decides, so they are never both set), and both operations throw
  for a path that is empty or leaves the directory.
\<close>

record ignore_lib =
  ig_ignores :: "string \<Rightarrow> string \<Rightarrow> js_error + bool"
  ig_test :: "string \<Rightarrow> string \<Rightarrow> js_error + bool \<times> bool"

definition ignore_ok :: "ignore_lib \<Rightarrow> bool" where
  "ignore_ok L \<longleftrightarrow> (\<forall>c p r. ig_test L c p = Inr r \<longrightarrow> \<not> (fst r \<and> snd r))"

record 'u ignore_env =
  ie_uri :: "'u uri_api"
  ie_host :: host
  ie_lib :: ignore_lib

record 'u ignore_manager =
  gim_rootUri :: 'u
  gim_matcher :: dir_trie
  gim_excludeFileIgnore :: "string option"
  gim_ignoreMap :: "(string, string) jsmap"

definition gim_new :: "'u \<Rightarrow> 'u ignore_manager" where
  "gim_new rootUri =
     \<lparr>gim_rootUri = rootUri, gim_matcher = fdm_new, gim_excludeFileIgnore = None, gim_ignoreMap = []\<rparr>"

definition addExcludeFile :: "string \<Rightarrow> 'u ignore_manager \<Rightarrow> 'u ignore_manager" where
  "addExcludeFile content m = m\<lparr>gim_excludeFileIgnore := Some content\<rparr>"

definition addGitignore ::
  "'u uri_api \<Rightarrow> 'u \<Rightarrow> string \<Rightarrow> 'u ignore_manager \<Rightarrow> js_error + 'u ignore_manager" where
  "addGitignore U uri content m =
     map_sum id
       (\<lambda>matcher. m\<lparr>gim_matcher := matcher,
          gim_ignoreMap := map_set (ua_toString U (ua_dirname U uri)) content (gim_ignoreMap m)\<rparr>)
       (addFileToMatch U uri (gim_matcher m))"

fun ignore_loop :: "'u ignore_env \<Rightarrow> 'u ignore_manager \<Rightarrow> 'u \<Rightarrow> 'u list \<Rightarrow> bool \<Rightarrow> js_error + bool" where
  "ignore_loop E m fileUri [] ignoredStatus = Inr ignoredStatus"
| "ignore_loop E m fileUri (dir # dirs) ignoredStatus =
     (case map_get (gim_ignoreMap m) (ua_toString (ie_uri E) dir) of
        None \<Rightarrow> ignore_loop E m fileUri dirs ignoredStatus
      | Some content \<Rightarrow>
          (case ig_test (ie_lib E) content (fs_getRelativePath (ie_host E) (ie_uri E) dir fileUri) of
             Inl e \<Rightarrow> Inl e
           | Inr (ignored, unignored) \<Rightarrow>
               ignore_loop E m fileUri dirs (if ignoredStatus then \<not> unignored else ignored)))"

definition exclude_status :: "'u ignore_env \<Rightarrow> 'u ignore_manager \<Rightarrow> 'u \<Rightarrow> js_error + bool" where
  "exclude_status E m fileUri =
     (case gim_excludeFileIgnore m of
        None \<Rightarrow> Inr False
      | Some content \<Rightarrow>
          ig_ignores (ie_lib E) content (fs_getRelativePath (ie_host E) (ie_uri E) (gim_rootUri m) fileUri))"

definition gim_isIgnored :: "'u ignore_env \<Rightarrow> 'u ignore_manager \<Rightarrow> 'u \<Rightarrow> js_error + bool" where
  "gim_isIgnored E m fileUri =
     (if ua_basename (ie_uri E) fileUri = ''.git'' then Inr True
      else if ua_path (ie_uri E) fileUri = ''.'' then Inr False
      else
        (case findMatchingDirectories (ie_uri E) fileUri (gim_matcher m) of
           Inl e \<Rightarrow> Inl e
         | Inr matchingDirs \<Rightarrow>
             (case exclude_status E m fileUri of
                Inl e \<Rightarrow> Inl e
              | Inr ignoredStatus \<Rightarrow> ignore_loop E m fileUri matchingDirs ignoredStatus)))"

definition gim_dispose :: "'u ignore_manager \<Rightarrow> 'u ignore_manager" where
  "gim_dispose m = m\<lparr>gim_matcher := fdm_dispose (gim_matcher m)\<rparr>"

subsection \<open>The deepest ignore file that says something decides\<close>

text \<open>What the ignore file of one directory says about a file: ignored, not ignored, or nothing.\<close>

definition verdict :: "'u ignore_env \<Rightarrow> 'u ignore_manager \<Rightarrow> 'u \<Rightarrow> 'u \<Rightarrow> bool option" where
  "verdict E m fileUri dir =
     (case map_get (gim_ignoreMap m) (ua_toString (ie_uri E) dir) of
        None \<Rightarrow> None
      | Some content \<Rightarrow>
          (case ig_test (ie_lib E) content (fs_getRelativePath (ie_host E) (ie_uri E) dir fileUri) of
             Inl e \<Rightarrow> None
           | Inr (ignored, unignored) \<Rightarrow> if ignored then Some True else if unignored then Some False else None))"

definition verdict_ok :: "'u ignore_env \<Rightarrow> 'u ignore_manager \<Rightarrow> 'u \<Rightarrow> 'u \<Rightarrow> bool" where
  "verdict_ok E m fileUri dir \<longleftrightarrow>
     (case map_get (gim_ignoreMap m) (ua_toString (ie_uri E) dir) of
        None \<Rightarrow> True
      | Some content \<Rightarrow>
          \<not> isl (ig_test (ie_lib E) content (fs_getRelativePath (ie_host E) (ie_uri E) dir fileUri)))"

definition deepest_verdict :: "bool \<Rightarrow> bool option list \<Rightarrow> bool" where
  "deepest_verdict b vs = (case List.find (\<lambda>v. v \<noteq> None) (rev vs) of Some (Some v) \<Rightarrow> v | _ \<Rightarrow> b)"

lemma deepest_verdict_Nil [simp]: "deepest_verdict b [] = b"
  by (simp add: deepest_verdict_def)

lemma deepest_verdict_Cons [simp]:
  "deepest_verdict b (v # vs) = deepest_verdict (case v of None \<Rightarrow> b | Some x \<Rightarrow> x) vs"
proof -
  have "\<exists>x. u = Some x" if "List.find (\<lambda>v. v \<noteq> None) vs' = Some u" for vs' :: "bool option list" and u
    using that by (auto simp: find_Some_iff)
  then show ?thesis
    by (auto simp: deepest_verdict_def find_append split: option.splits)
qed

lemma ignore_loop_deepest:
  assumes "ignore_ok (ie_lib E)"
  shows "list_all (verdict_ok E m fileUri) dirs \<Longrightarrow>
    ignore_loop E m fileUri dirs b = Inr (deepest_verdict b (map (verdict E m fileUri) dirs))"
proof (induction dirs arbitrary: b)
  case Nil
  then show ?case by simp
next
  case (Cons dir dirs)
  show ?case
  proof (cases "map_get (gim_ignoreMap m) (ua_toString (ie_uri E) dir)")
    case None
    with Cons show ?thesis by (simp add: verdict_def)
  next
    case (Some content)
    with Cons.prems obtain r where
      r: "ig_test (ie_lib E) content (fs_getRelativePath (ie_host E) (ie_uri E) dir fileUri) = Inr r"
      by (cases "ig_test (ie_lib E) content (fs_getRelativePath (ie_host E) (ie_uri E) dir fileUri)")
         (auto simp: verdict_ok_def)
    with assms have "\<not> (fst r \<and> snd r)" unfolding ignore_ok_def by blast
    with Cons Some r show ?thesis by (cases r) (auto simp: verdict_def)
  qed
qed

lemma ignore_loop_errors: "ignore_loop E m fileUri dirs b = Inr s \<Longrightarrow> list_all (verdict_ok E m fileUri) dirs"
  by (induction dirs arbitrary: b) (auto simp: verdict_ok_def split: option.splits sum.splits)

text \<open>When the question is answered, the answer for a file outside \<open>.git\<close> is that of the deepest directory on
  its path whose ignore file says something about it; then that of the exclude file; then \<open>false\<close>.\<close>

theorem deepest_gitignore_decides:
  assumes "ignore_ok (ie_lib E)" and "gim_isIgnored E m fileUri = Inr b"
    and "ua_basename (ie_uri E) fileUri \<noteq> ''.git''" and "ua_path (ie_uri E) fileUri \<noteq> ''.''"
  shows "\<exists>dirs x. findMatchingDirectories (ie_uri E) fileUri (gim_matcher m) = Inr dirs \<and>
    exclude_status E m fileUri = Inr x \<and> b = deepest_verdict x (map (verdict E m fileUri) dirs)"
proof -
  from assms obtain dirs x where *: "findMatchingDirectories (ie_uri E) fileUri (gim_matcher m) = Inr dirs"
      "exclude_status E m fileUri = Inr x" "ignore_loop E m fileUri dirs x = Inr b"
    by (auto simp: gim_isIgnored_def split: sum.splits)
  with ignore_loop_deepest [OF assms(1) ignore_loop_errors [OF *(3)]] show ?thesis by fastforce
qed

text \<open>A concrete library for literal patterns: a file lists names to ignore, one per line, and \<open>!name\<close> takes
  one back.\<close>

definition literal_test :: "string \<Rightarrow> string \<Rightarrow> js_error + bool \<times> bool" where
  "literal_test content p =
     (if p = [] \<or> starts_with p ''../'' then Inl RangeError
      else
        (case List.find (\<lambda>l. l = p \<or> l = CHR ''!'' # p) (rev (split_on newline content)) of
           None \<Rightarrow> Inr (False, False)
         | Some l \<Rightarrow> if l = p then Inr (True, False) else Inr (False, True)))"

definition literal_ignore :: ignore_lib where
  "literal_ignore =
     \<lparr>ig_ignores = (\<lambda>c p. map_sum id fst (literal_test c p)), ig_test = literal_test\<rparr>"

definition demo_ignore_env :: "string ignore_env" where
  "demo_ignore_env = \<lparr>ie_uri = file_uris, ie_host = posix_host, ie_lib = literal_ignore\<rparr>"

lemma literal_ignore_ok: "ignore_ok literal_ignore"
  by (auto simp: ignore_ok_def literal_ignore_def literal_test_def split: if_splits option.splits)

definition demo_manager :: "string ignore_manager" where
  "demo_manager =
     \<lparr>gim_rootUri = ''/h/p'', gim_matcher = trie_add [widen ''file:'', widen ''h'', widen ''p''] ''file:///h/p'' fdm_new,
      gim_excludeFileIgnore = Some ''a.ts'', gim_ignoreMap = [(''file:///h/p'', ''!src/a.ts'')]\<rparr>"

lemma demo_manager_added:
  "addGitignore file_uris ''/h/p/.gitignore'' ''!src/a.ts'' (addExcludeFile ''a.ts'' (gim_new ''/h/p'')) = Inr demo_manager"
  by (simp add: addGitignore_def addFileToMatch_def fdm_addPath_def splitPath_def file_uris_def decode_plain
      path_parts_def posix_dirname_def slash_def gim_new_def addExcludeFile_def demo_manager_def)

theorem deepest_gitignore_decides_witness:
  "\<exists>b dirs x. gim_isIgnored demo_ignore_env demo_manager ''/h/p/src/a.ts'' = Inr b \<and>
     b = deepest_verdict x (map (verdict demo_ignore_env demo_manager ''/h/p/src/a.ts'') dirs)"
proof -
  have b: "gim_isIgnored demo_ignore_env demo_manager ''/h/p/src/a.ts'' = Inr False"
    by (simp add: gim_isIgnored_def demo_ignore_env_def findMatchingDirectories_def exclude_status_def)
       (simp add: file_uris_def demo_manager_def fdm_new_def dt_new_def
        dir_here_def fs_getRelativePath_def posix_host_def posix_relative_def resolved_parts_def is_absolute_def slash_def
        last_segment_def literal_ignore_def literal_test_def split: option.splits)
  from deepest_gitignore_decides [OF _ b]
  have "\<exists>dirs x. False = deepest_verdict x (map (verdict demo_ignore_env demo_manager ''/h/p/src/a.ts'') dirs)"
    by (auto simp: demo_ignore_env_def literal_ignore_ok)
       (auto simp: file_uris_def last_segment_def slash_def)
  with b show ?thesis by blast
qed

end
