(* ===== verification/Repository.thy ===== *)
theory Repository
  imports Git_Ignore Git_Remote
begin

text \<open>
  One git repository of a workspace (\<open>src/common/services/git/repository.ts\<close>): its files and directories, which of
  them git ignores, and its branches.

  Parameters: the file system (\<open>ge_readFile\<close>, \<open>ge_isDirectory\<close>), the directory walker (\<open>ge_findFiles\<close>), the package
  \<open>isomorphic-git\<close> (the fields \<open>ge_listFiles\<close> to \<open>ge_remoteHead\<close>, each asked for the directory of a repository) and
  \<open>minimatch\<close> with the pattern of common paths (\<open>ge_skip\<close>).
\<close>

record 'u git_env =
  ge_ignore :: "'u ignore_env"
  ge_readFile :: "string \<Rightarrow> js_error + string"
  ge_isDirectory :: "string \<Rightarrow> js_error + bool"
  ge_findFiles :: "'u \<Rightarrow> js_error + 'u list"
  ge_listFiles :: "string \<Rightarrow> js_error + string list"
  ge_currentBranch :: "string \<Rightarrow> js_error + string option"
  ge_resolveRef :: "string \<Rightarrow> js_error + string"
  ge_listBranches :: "string \<Rightarrow> js_error + string list"
  ge_listRemotes :: "string \<Rightarrow> js_error + (string \<times> string) list"
  ge_remoteHead :: "string \<Rightarrow> js_error + string option"
  ge_skip :: "string \<Rightarrow> bool"

abbreviation ge_uri :: "'u git_env \<Rightarrow> 'u uri_api" where
  "ge_uri E \<equiv> ie_uri (ge_ignore E)"

abbreviation uri_str :: "'u git_env \<Rightarrow> 'u \<Rightarrow> string" where
  "uri_str E u \<equiv> ua_toString (ge_uri E) u"

record 'u repository_file =
  rf_uri :: 'u
  rf_repositoryUri :: 'u
  rf_isIgnored :: bool
  rf_workspaceFolder :: workspace_folder

record 'u repository_directory =
  rd_uri :: 'u
  rd_repositoryUri :: 'u
  rd_isIgnored :: bool
  rd_workspaceFolder :: workspace_folder

record get_file_options =
  gfo_excludeGitFolder :: bool
  gfo_excludeIgnored :: bool

definition no_options :: get_file_options where
  "no_options = \<lparr>gfo_excludeGitFolder = False, gfo_excludeIgnored = False\<rparr>"

text \<open>\<open>trackedFiles\<close> is a set in insertion order.\<close>

record 'u git_files =
  gf_ignoreFiles :: "('u \<times> string) list"
  gf_excludeFile :: "'u option"
  gf_trackedFiles :: "string list"

record 'u repository =
  re_workspaceFolder :: workspace_folder
  re_uri :: 'u
  re_configFileUri :: 'u
  re_files :: "(string, 'u repository_file) jsmap"
  re_directories :: "(string, 'u repository_directory) jsmap"
  re_ignoreManager :: "'u ignore_manager option"
  re_gitFiles :: "'u git_files"
  re_refreshPending :: bool

definition re_new :: "workspace_folder \<Rightarrow> 'u \<Rightarrow> 'u \<Rightarrow> 'u repository" where
  "re_new workspaceFolder uri configFileUri =
     \<lparr>re_workspaceFolder = workspaceFolder, re_uri = uri, re_configFileUri = configFileUri, re_files = [],
      re_directories = [], re_ignoreManager = None,
      re_gitFiles = \<lparr>gf_ignoreFiles = [], gf_excludeFile = None, gf_trackedFiles = []\<rparr>, re_refreshPending = False\<rparr>"

text \<open>\<open>new Set(xs)\<close>: the first occurrence of each element.\<close>

definition js_set :: "'a list \<Rightarrow> 'a list" where
  "js_set xs = rev (remdups (rev xs))"

lemma set_js_set [simp]: "set (js_set xs) = set xs"
  by (simp add: js_set_def)

subsection \<open>Files of git itself\<close>

definition isGitIgnoreFile :: "string \<Rightarrow> bool" where
  "isGitIgnoreFile u \<longleftrightarrow> ends_with u ''.gitignore''"

abbreviation bs :: string where "bs \<equiv> [CHR 0x5C]"

definition isGitConfigFile :: "string \<Rightarrow> bool" where
  "isGitConfigFile u \<longleftrightarrow> ends_with u ''/.git/config'' \<or> ends_with u (bs @ ''.git'' @ bs @ ''config'')"

definition isInGitFolder :: "string \<Rightarrow> bool" where
  "isInGitFolder u \<longleftrightarrow> str_includes u ''/.git/'' \<or> str_includes u (bs @ ''.git'' @ bs)"

definition isGitExcludeFile :: "string \<Rightarrow> bool" where
  "isGitExcludeFile u \<longleftrightarrow>
     str_includes u ''/.git/info/exclude'' \<or> str_includes u (bs @ ''.git'' @ bs @ ''info'' @ bs @ ''exclude'')"

definition getRepoRootFromGitConfig :: "'u git_env \<Rightarrow> 'u \<Rightarrow> 'u" where
  "getRepoRootFromGitConfig E gitConfigUri = ua_resolvePath (ge_uri E) gitConfigUri [''..'', ''..'']"

definition getRepoGitConfigFile :: "'u git_env \<Rightarrow> 'u \<Rightarrow> 'u" where
  "getRepoGitConfigFile E repoUri = ua_resolvePath (ge_uri E) repoUri [''.git'', ''config'']"

definition getGitConfigFiles :: "'u git_env \<Rightarrow> 'u list \<Rightarrow> 'u list" where
  "getGitConfigFiles E files = filter (\<lambda>file. isGitConfigFile (uri_str E file)) files"

definition re_dirUri :: "'u git_env \<Rightarrow> 'u \<Rightarrow> 'u" where
  "re_dirUri E fileUri = fsPathToUri (ge_uri E) (posix_dirname (ua_fsPath (ge_uri E) fileUri))"

subsection \<open>Files and directories\<close>

definition isFileIgnored :: "'u git_env \<Rightarrow> 'u repository \<Rightarrow> 'u \<Rightarrow> js_error + bool" where
  "isFileIgnored E r fileUri =
     (if uri_str E fileUri \<in> set (gf_trackedFiles (re_gitFiles r)) then Inr False
      else (case re_ignoreManager r of None \<Rightarrow> Inr False | Some m \<Rightarrow> gim_isIgnored (ge_ignore E) m fileUri))"

definition isDirectoryIgnored :: "'u git_env \<Rightarrow> 'u repository \<Rightarrow> 'u \<Rightarrow> js_error + bool" where
  "isDirectoryIgnored E r directoryUri =
     (case re_ignoreManager r of
        None \<Rightarrow> Inr False
      | Some m \<Rightarrow>
          gim_isIgnored (ge_ignore E) m
            (fsPathToUri (ge_uri E) (posix_join (ua_fsPath (ge_uri E) directoryUri) ''**'')))"

definition re_setFile :: "'u git_env \<Rightarrow> 'u \<Rightarrow> 'u repository \<Rightarrow> js_error + 'u repository_file \<times> 'u repository" where
  "re_setFile E fileUri r =
     map_sum id
       (\<lambda>isIgnored.
          let f = \<lparr>rf_uri = fileUri, rf_repositoryUri = re_uri r, rf_isIgnored = isIgnored,
                   rf_workspaceFolder = re_workspaceFolder r\<rparr>
          in (f, r\<lparr>re_files := map_set (uri_str E fileUri) f (re_files r)\<rparr>))
       (isFileIgnored E r fileUri)"

definition re_setDirectory ::
  "'u git_env \<Rightarrow> 'u \<Rightarrow> 'u repository \<Rightarrow> js_error + 'u repository_directory \<times> 'u repository" where
  "re_setDirectory E directoryUri r =
     map_sum id
       (\<lambda>isIgnored.
          let d = \<lparr>rd_uri = directoryUri, rd_repositoryUri = re_uri r, rd_isIgnored = isIgnored,
                   rd_workspaceFolder = re_workspaceFolder r\<rparr>
          in (d, r\<lparr>re_directories := map_set (uri_str E directoryUri) d (re_directories r)\<rparr>))
       (isDirectoryIgnored E r directoryUri)"

definition re_filter :: "'u git_env \<Rightarrow> 'u repository \<Rightarrow> 'u \<Rightarrow> bool \<Rightarrow> get_file_options \<Rightarrow> bool" where
  "re_filter E r uri isIgnored options =
     (if gfo_excludeGitFolder options \<and> isInGitFolder (uri_str E uri) then False
      else if uri_str E uri \<in> set (gf_trackedFiles (re_gitFiles r)) then True
      else if gfo_excludeIgnored options \<and> isIgnored then False
      else True)"

definition re_getFile :: "'u git_env \<Rightarrow> 'u repository \<Rightarrow> 'u \<Rightarrow> get_file_options \<Rightarrow> 'u repository_file option" where
  "re_getFile E r fileUri options =
     (case map_get (re_files r) (uri_str E fileUri) of
        None \<Rightarrow> None
      | Some f \<Rightarrow> if re_filter E r (rf_uri f) (rf_isIgnored f) options then Some f else None)"

definition re_getDirectory ::
  "'u git_env \<Rightarrow> 'u repository \<Rightarrow> 'u \<Rightarrow> get_file_options \<Rightarrow> 'u repository_directory option" where
  "re_getDirectory E r directoryUri options =
     (case map_get (re_directories r) (uri_str E directoryUri) of
        None \<Rightarrow> None
      | Some d \<Rightarrow> if re_filter E r (rd_uri d) (rd_isIgnored d) options then Some d else None)"

definition re_removeFile :: "'u git_env \<Rightarrow> 'u \<Rightarrow> 'u repository \<Rightarrow> 'u repository" where
  "re_removeFile E fileUri r = r\<lparr>re_files := map_delete (uri_str E fileUri) (re_files r)\<rparr>"

definition removeFilesUnderDirectory ::
  "'u git_env \<Rightarrow> 'u \<Rightarrow> 'u repository \<Rightarrow> 'u repository_file list \<times> 'u repository" where
  "removeFilesUnderDirectory E directoryUri r =
     (let directoryPath = uri_str E directoryUri;
          urisToDelete = map snd (filter (\<lambda>p. starts_with (fst p) directoryPath) (re_files r));
          files = fold (\<lambda>f m. map_delete (uri_str E (rf_uri f)) m) urisToDelete (re_files r);
          directories = filter (\<lambda>p. \<not> starts_with (fst p) directoryPath) (re_directories r)
      in (urisToDelete, r\<lparr>re_files := files, re_directories := directories\<rparr>))"

definition getCurrentTreeFiles :: "'u git_env \<Rightarrow> 'u repository \<Rightarrow> get_file_options \<Rightarrow> 'u repository_file list" where
  "getCurrentTreeFiles E r options =
     filter (\<lambda>f. re_filter E r (rf_uri f) (rf_isIgnored f) options) (map snd (re_files r))"

definition getCurrentTreeFile :: "'u git_env \<Rightarrow> 'u repository \<Rightarrow> 'u \<Rightarrow> 'u repository_file option" where
  "getCurrentTreeFile E r fileUri = map_get (re_files r) (uri_str E fileUri)"

definition getCurrentTrackedFiles :: "'u repository \<Rightarrow> string list" where
  "getCurrentTrackedFiles r = gf_trackedFiles (re_gitFiles r)"

subsection \<open>What git says about the files\<close>

definition getTrackedFiles :: "'u git_env \<Rightarrow> 'u repository \<Rightarrow> js_error + string list" where
  "getTrackedFiles E r =
     map_sum id (map (\<lambda>file. uri_str E (ua_resolvePath (ge_uri E) (re_uri r) [file])))
       (ge_listFiles E (ua_fsPath (ge_uri E) (re_uri r)))"

fun read_all :: "'u git_env \<Rightarrow> 'u list \<Rightarrow> js_error + ('u \<times> string) list" where
  "read_all E [] = Inr []"
| "read_all E (f # fs) =
     (case ge_readFile E (ua_fsPath (ge_uri E) f) of
        Inl e \<Rightarrow> Inl e
      | Inr content \<Rightarrow> map_sum id (\<lambda>rest. (f, content) # rest) (read_all E fs))"

definition getGitFiles :: "'u git_env \<Rightarrow> 'u list \<Rightarrow> 'u repository \<Rightarrow> js_error + 'u git_files" where
  "getGitFiles E files r =
     (let ignoreFiles = filter (\<lambda>f. isGitIgnoreFile (uri_str E f)) files;
          excludeFiles = filter (\<lambda>f. \<not> isGitIgnoreFile (uri_str E f) \<and> isGitExcludeFile (uri_str E f)) files
      in case read_all E ignoreFiles of
           Inl e \<Rightarrow> Inl e
         | Inr ignoreContents \<Rightarrow>
             map_sum id
               (\<lambda>trackedFiles.
                  \<lparr>gf_ignoreFiles = ignoreContents,
                   gf_excludeFile = (if excludeFiles = [] then None else Some (last excludeFiles)),
                   gf_trackedFiles = js_set trackedFiles\<rparr>)
               (getTrackedFiles E r))"

fun add_ignore_files ::
  "'u uri_api \<Rightarrow> ('u \<times> string) list \<Rightarrow> 'u ignore_manager \<Rightarrow> js_error + 'u ignore_manager" where
  "add_ignore_files U [] m = Inr m"
| "add_ignore_files U ((f, content) # fs) m =
     (case addGitignore U f content m of Inl e \<Rightarrow> Inl e | Inr m' \<Rightarrow> add_ignore_files U fs m')"

definition add_exclude ::
  "'u git_env \<Rightarrow> 'u option \<Rightarrow> 'u ignore_manager \<Rightarrow> js_error + 'u ignore_manager" where
  "add_exclude E excludeFile m =
     (case excludeFile of
        None \<Rightarrow> Inr m
      | Some f \<Rightarrow> map_sum id (\<lambda>content. addExcludeFile content m) (ge_readFile E (ua_fsPath (ge_uri E) f)))"

text \<open>The error, if any, is the value returned; the repository is then as before.\<close>

definition setupGitForRepository ::
  "'u git_env \<Rightarrow> 'u list \<Rightarrow> 'u repository \<Rightarrow> (js_error + 'u git_files) \<times> 'u repository" where
  "setupGitForRepository E files r =
     (case getGitFiles E files r of
        Inl e \<Rightarrow> (Inl e, r)
      | Inr gitFiles \<Rightarrow>
          (case add_ignore_files (ge_uri E) (gf_ignoreFiles gitFiles) (gim_new (re_uri r)) of
             Inl e \<Rightarrow> (Inl e, r)
           | Inr m \<Rightarrow>
               (case add_exclude E (gf_excludeFile gitFiles) m of
                  Inl e \<Rightarrow> (Inl e, r)
                | Inr m' \<Rightarrow> (Inr gitFiles, r\<lparr>re_ignoreManager := Some m', re_gitFiles := gitFiles\<rparr>))))"

text \<open>Refreshing is debounced: the call only starts the timer, and the work is done when it fires.\<close>

definition refreshTrackedFiles :: "'u repository \<Rightarrow> 'u repository" where
  "refreshTrackedFiles r = r\<lparr>re_refreshPending := True\<rparr>"

definition refreshTrackedFilesImpl :: "'u git_env \<Rightarrow> 'u repository \<Rightarrow> js_error + 'u repository" where
  "refreshTrackedFilesImpl E r =
     map_sum id
       (\<lambda>trackedFiles. r\<lparr>re_gitFiles := (re_gitFiles r)\<lparr>gf_trackedFiles := js_set trackedFiles\<rparr>, re_refreshPending := False\<rparr>)
       (getTrackedFiles E r)"

definition re_dispose :: "'u repository \<Rightarrow> 'u repository" where
  "re_dispose r = r\<lparr>re_ignoreManager := map_option gim_dispose (re_ignoreManager r), re_files := []\<rparr>"

subsection \<open>Branches\<close>

definition repo_dir :: "'u git_env \<Rightarrow> 'u repository \<Rightarrow> string" where
  "repo_dir E r = ua_fsPath (ge_uri E) (re_uri r)"

definition getMainBranchFromRef :: "'u git_env \<Rightarrow> 'u repository \<Rightarrow> string \<Rightarrow> string option" where
  "getMainBranchFromRef E r origin =
     (case ge_readFile E (posix_join (repo_dir E r) (''.git/refs/remotes/'' @ origin @ ''/HEAD'')) of
        Inl e \<Rightarrow> None
      | Inr remoteHeadRef \<Rightarrow> Some (replace_first (''ref: refs/remotes/'' @ origin @ ''/'') [] (trim remoteHeadRef)))"

definition getMainBranchFromRemoteRepoInfo :: "'u git_env \<Rightarrow> string \<Rightarrow> string option" where
  "getMainBranchFromRemoteRepoInfo E remoteUrl =
     (case ge_remoteHead E (convertToHttpUrl remoteUrl) of
        Inl e \<Rightarrow> None
      | Inr head \<Rightarrow> map_option (replace_first ''refs/head/'' []) head)"

definition mainBranchNames :: "string list" where
  "mainBranchNames = [''main'', ''master'', ''trunk'', ''development'']"

definition tryGetMainBranchFromLocalBranches :: "'u git_env \<Rightarrow> 'u repository \<Rightarrow> js_error + string option" where
  "tryGetMainBranchFromLocalBranches E r =
     map_sum id (\<lambda>branches. List.find (\<lambda>name. name \<in> set branches) mainBranchNames)
       (ge_listBranches E (repo_dir E r))"

definition truthy :: "string option \<Rightarrow> string option" where
  "truthy s = (case s of None \<Rightarrow> None | Some t \<Rightarrow> if t = [] then None else Some t)"

definition main_remote :: "(string \<times> string) list \<Rightarrow> (string \<times> string) option" where
  "main_remote remotes =
     (case List.find (\<lambda>r. fst r = ''origin'') remotes of
        Some r \<Rightarrow> Some r
      | None \<Rightarrow> (case remotes of [] \<Rightarrow> None | r # _ \<Rightarrow> Some r))"

definition branch_of_remote :: "'u git_env \<Rightarrow> 'u repository \<Rightarrow> (string \<times> string) option \<Rightarrow> string option" where
  "branch_of_remote E r origin =
     (case origin of
        None \<Rightarrow> None
      | Some (remote, url) \<Rightarrow>
          (case truthy (getMainBranchFromRef E r remote) of
             Some b \<Rightarrow> Some b
           | None \<Rightarrow> truthy (getMainBranchFromRemoteRepoInfo E url)))"

definition getMainBranch :: "'u git_env \<Rightarrow> 'u repository \<Rightarrow> string" where
  "getMainBranch E r =
     (case ge_listRemotes E (repo_dir E r) of
        Inl e \<Rightarrow> ''main''
      | Inr remotes \<Rightarrow>
          (case branch_of_remote E r (main_remote remotes) of
             Some b \<Rightarrow> b
           | None \<Rightarrow>
               (case tryGetMainBranchFromLocalBranches E r of
                  Inr (Some b) \<Rightarrow> b
                | _ \<Rightarrow> ''main'')))"

definition getCurrentBranch :: "'u git_env \<Rightarrow> 'u repository \<Rightarrow> js_error + string" where
  "getCurrentBranch E r =
     map_sum id (\<lambda>branch. case branch of Some b \<Rightarrow> b | None \<Rightarrow> getMainBranch E r)
       (ge_currentBranch E (repo_dir E r))"

definition getHeadRef :: "'u git_env \<Rightarrow> 'u repository \<Rightarrow> js_error + string" where
  "getHeadRef E r = ge_resolveRef E (repo_dir E r)"

definition listBranches :: "'u git_env \<Rightarrow> 'u repository \<Rightarrow> js_error + string list" where
  "listBranches E r = ge_listBranches E (repo_dir E r)"

definition getCurrentCommit :: "'u git_env \<Rightarrow> 'u repository \<Rightarrow> string" where
  "getCurrentCommit E r =
     (case getHeadRef E r of Inl e \<Rightarrow> getMainBranch E r | Inr headRef \<Rightarrow> replace_first ''refs/heads/'' [] headRef)"

subsection \<open>The directories of a file\<close>

text \<open>\<open>#setDirectoryForFile\<close> of the repository service: a \<open>while\<close> loop up to the root of the repository.  An
  exception ends it and is only logged.  Not returning is the value \<open>None\<close>.\<close>

partial_function (option) set_directories ::
  "'u git_env \<Rightarrow> 'u repository \<Rightarrow> string \<Rightarrow> 'u repository option" where
  "set_directories E r currentPath =
     (if starts_with currentPath (repo_dir E r) \<and> currentPath \<noteq> repo_dir E r then
        let dirUri = fsPathToUri (ge_uri E) currentPath in
        (case (if re_getDirectory E r dirUri no_options = None then map_sum id snd (re_setDirectory E dirUri r) else Inr r) of
           Inl e \<Rightarrow> Some r
         | Inr r' \<Rightarrow> set_directories E r' (posix_dirname currentPath))
      else Some r)"

definition setDirectoryForFile :: "'u git_env \<Rightarrow> 'u repository_file \<Rightarrow> 'u repository \<Rightarrow> 'u repository option" where
  "setDirectoryForFile E f r = set_directories E r (posix_dirname (ua_fsPath (ge_uri E) (rf_uri f)))"

subsection \<open>Properties\<close>

text \<open>A file is stored under its own identifier.\<close>

definition repo_ok :: "'u git_env \<Rightarrow> 'u repository \<Rightarrow> bool" where
  "repo_ok E r \<longleftrightarrow> map_wf (re_files r) \<and> map_wf (re_directories r) \<and>
     (\<forall>(k, f) \<in> set (re_files r). k = uri_str E (rf_uri f)) \<and>
     (\<forall>(k, d) \<in> set (re_directories r). k = uri_str E (rd_uri d))"

lemma set_update_iff: "x \<in> set (map_set k v m) \<Longrightarrow> x = (k, v) \<or> x \<in> set m"
  by (induction m) (auto split: if_splits)

lemma repo_ok_new [inv_intros]: "repo_ok E (re_new folder u c)"
  by (simp add: repo_ok_def re_new_def)

lemma repo_ok_setFile [inv_intros]: "repo_ok E r \<Longrightarrow> re_setFile E u r = Inr (f, r') \<Longrightarrow> repo_ok E r'"
  by (cases "isFileIgnored E r u") (auto simp: repo_ok_def re_setFile_def Let_def dest!: set_update_iff)

lemma repo_ok_setDirectory [inv_intros]: "repo_ok E r \<Longrightarrow> re_setDirectory E u r = Inr (d, r') \<Longrightarrow> repo_ok E r'"
  by (cases "isDirectoryIgnored E r u") (auto simp: repo_ok_def re_setDirectory_def Let_def dest!: set_update_iff)

lemma repo_ok_removeFile [inv_intros]: "repo_ok E r \<Longrightarrow> repo_ok E (re_removeFile E u r)"
  by (auto simp: repo_ok_def re_removeFile_def AList.delete_eq map_wf_def distinct_map_filter)

lemma fold_delete: "fold (\<lambda>f m. map_delete (g f) m) fs m = filter (\<lambda>p. fst p \<notin> g ` set fs) m"
proof (induction fs arbitrary: m)
  case (Cons f fs)
  have "(\<lambda>p. fst p \<noteq> g f \<and> fst p \<notin> g ` set fs) = (\<lambda>p. fst p \<notin> g ` set (f # fs))" for m :: "('b \<times> 'c) list"
    by auto
  with Cons show ?case by (auto simp: AList.delete_eq intro!: filter_cong)
qed simp

lemma removeFiles_eq:
  assumes "repo_ok E r"
  shows "removeFilesUnderDirectory E d r =
    (map snd (filter (\<lambda>p. starts_with (fst p) (uri_str E d)) (re_files r)),
     r\<lparr>re_files := filter (\<lambda>p. \<not> starts_with (fst p) (uri_str E d)) (re_files r),
       re_directories := filter (\<lambda>p. \<not> starts_with (fst p) (uri_str E d)) (re_directories r)\<rparr>)"
proof -
  let ?P = "\<lambda>p. starts_with (fst p) (uri_str E d)"
  have "(\<lambda>f. uri_str E (rf_uri f)) ` set (map snd (filter ?P (re_files r))) = fst ` set (filter ?P (re_files r))"
    unfolding set_map image_image
    by (rule image_cong [OF refl]) (use assms in \<open>auto simp: repo_ok_def\<close>)
  then have "fold (\<lambda>f m. map_delete (uri_str E (rf_uri f)) m) (map snd (filter ?P (re_files r))) (re_files r) =
      filter (\<lambda>p. fst p \<notin> fst ` set (filter ?P (re_files r))) (re_files r)"
    by (simp only: fold_delete)
  also have "\<dots> = filter (\<lambda>p. \<not> ?P p) (re_files r)"
    by (rule filter_cong) auto
  finally show ?thesis by (simp add: removeFilesUnderDirectory_def Let_def)
qed

lemma repo_ok_removeFiles [inv_intros]: "repo_ok E r \<Longrightarrow> repo_ok E (snd (removeFilesUnderDirectory E d r))"
  unfolding removeFiles_eq by (auto simp: repo_ok_def map_wf_def intro: distinct_map_filter)

text \<open>Deleting a directory returns exactly the files whose identifier starts with that of the directory and
  removes them and all such directories; as no slash is asked for after the directory's name, the files of a sibling
  whose name begins with it are removed too.\<close>

theorem directory_removal:
  assumes "repo_ok E r" and "removeFilesUnderDirectory E d r = (removed, r')"
  shows "(\<forall>u. getCurrentTreeFile E r' u =
            (if starts_with (uri_str E u) (uri_str E d) then None else getCurrentTreeFile E r u)) \<and>
    set removed = {f. \<exists>k. map_get (re_files r) k = Some f \<and> starts_with k (uri_str E d)} \<and>
    set (map_keys (re_directories r')) =
      {k \<in> set (map_keys (re_directories r)). \<not> starts_with k (uri_str E d)}"
proof -
  have get: "map_get (filter (\<lambda>p. \<not> starts_with (fst p) w) m) k = (if starts_with k w then None else map_get m k)"
    for m :: "(string, 'u repository_file) jsmap" and k w
    by (induction m) auto
  have "map_wf (re_files r)" using assms(1) by (simp add: repo_ok_def)
  then have "set removed = {f. \<exists>k. map_get (re_files r) k = Some f \<and> starts_with k (uri_str E d)}"
    using assms(2) by (force simp: removeFiles_eq [OF assms(1)] map_get_in_set [symmetric])
  moreover have "r' = snd (removeFilesUnderDirectory E d r)" by (simp add: assms(2))
  ultimately show ?thesis
    by (auto simp: removeFiles_eq [OF assms(1)] getCurrentTreeFile_def get)
qed

text \<open>A file git tracks is never taken for ignored: storing it succeeds, and unless it is one of git's own files
  and these are left out, it is found again, whatever the ignore files say.\<close>

theorem tracked_file_listed:
  assumes "uri_str E u \<in> set (getCurrentTrackedFiles r)"
  shows "\<exists>f r'. re_setFile E u r = Inr (f, r') \<and> \<not> rf_isIgnored f \<and>
    re_getFile E r' u options = (if gfo_excludeGitFolder options \<and> isInGitFolder (uri_str E u) then None else Some f)"
  using assms
  by (simp add: re_setFile_def isFileIgnored_def getCurrentTrackedFiles_def Let_def re_getFile_def re_filter_def)

subsection \<open>The loop over the directories ends\<close>

lemma setDirectory_frame [frame_simps]:
  "re_setDirectory E u r = Inr (d, r') \<Longrightarrow> repo_dir E r' = repo_dir E r \<and> re_ignoreManager r' = re_ignoreManager r \<and>
     re_files r' = re_files r \<and> re_uri r' = re_uri r \<and> re_gitFiles r' = re_gitFiles r \<and>
     (\<forall>k. map_get (re_directories r) k \<noteq> None \<longrightarrow> map_get (re_directories r') k \<noteq> None) \<and>
     map_get (re_directories r') (uri_str E u) \<noteq> None"
  by (cases "isDirectoryIgnored E r u") (auto simp: re_setDirectory_def Let_def repo_dir_def)

lemma getDirectory_all: "re_getDirectory E r u no_options = map_get (re_directories r) (uri_str E u)"
  by (simp add: re_getDirectory_def re_filter_def no_options_def split: option.splits)

definition in_repo :: "'u git_env \<Rightarrow> 'u repository \<Rightarrow> string \<Rightarrow> bool" where
  "in_repo E r p \<longleftrightarrow> starts_with p (repo_dir E r) \<and> p \<noteq> repo_dir E r"

lemma in_repo_long: "in_repo E r p \<Longrightarrow> repo_dir E r \<noteq> [] \<Longrightarrow> length (posix_dirname p) < length p"
proof (rule posix_dirname_shorter)
  assume "in_repo E r p" and ne: "repo_dir E r \<noteq> []"
  then obtain w where "p = repo_dir E r @ w" "w \<noteq> []" by (auto simp: in_repo_def prefix_def)
  with ne show "2 \<le> length p" by (cases "repo_dir E r"; cases w) auto
qed

text \<open>What the loop keeps, and what it has stored: the directories passed, unless an exception stopped it.\<close>

lemma set_directories_result:
  assumes "repo_dir E r \<noteq> []"
  shows "\<exists>r'. set_directories E r p = Some r' \<and> repo_dir E r' = repo_dir E r \<and>
    re_ignoreManager r' = re_ignoreManager r \<and> re_files r' = re_files r \<and> re_uri r' = re_uri r \<and>
    re_gitFiles r' = re_gitFiles r \<and> (repo_ok E r \<longrightarrow> repo_ok E r') \<and>
    (\<forall>k. map_get (re_directories r) k \<noteq> None \<longrightarrow> map_get (re_directories r') k \<noteq> None) \<and>
    ((\<forall>u. \<not> isl (isDirectoryIgnored E r u)) \<longrightarrow>
      (\<forall>k. (\<forall>j \<le> k. in_repo E r ((posix_dirname ^^ j) p)) \<longrightarrow>
         map_get (re_directories r') (uri_str E (fsPathToUri (ge_uri E) ((posix_dirname ^^ k) p))) \<noteq> None))"
  using assms
proof (induction "length p" arbitrary: p r rule: less_induct)
  case less
  show ?case
  proof (cases "in_repo E r p")
    case False
    then have "set_directories E r p = Some r"
      by (subst set_directories.simps) (auto simp: in_repo_def)
    with False show ?thesis by force
  next
    case True
    define u where "u = fsPathToUri (ge_uri E) p"
    define st where "st = (if re_getDirectory E r u no_options = None
      then map_sum id snd (re_setDirectory E u r) else Inr r)"
    have eq: "set_directories E r p = (case st of Inl e \<Rightarrow> Some r | Inr r1 \<Rightarrow> set_directories E r1 (posix_dirname p))"
      using True by (subst set_directories.simps) (simp add: in_repo_def u_def st_def Let_def)
    show ?thesis
    proof (cases st)
      case (Inl e)
      then have "isl (isDirectoryIgnored E r u)"
        by (cases "isDirectoryIgnored E r u") (auto simp: st_def re_setDirectory_def split: if_splits)
      with eq Inl show ?thesis by auto
    next
      case (Inr r1)
      have r1: "repo_dir E r1 = repo_dir E r \<and> re_ignoreManager r1 = re_ignoreManager r \<and> re_files r1 = re_files r \<and>
          re_uri r1 = re_uri r \<and> re_gitFiles r1 = re_gitFiles r \<and> (repo_ok E r \<longrightarrow> repo_ok E r1) \<and>
          (\<forall>k. map_get (re_directories r) k \<noteq> None \<longrightarrow> map_get (re_directories r1) k \<noteq> None) \<and>
          map_get (re_directories r1) (uri_str E u) \<noteq> None"
      proof (cases "re_getDirectory E r u no_options = None")
        case True
        with Inr obtain d where d: "re_setDirectory E u r = Inr (d, r1)"
          by (cases "re_setDirectory E u r") (auto simp: st_def)
        from setDirectory_frame [OF d] repo_ok_setDirectory [OF _ d] show ?thesis by blast
      next
        case False
        with Inr have "r1 = r" by (simp add: st_def)
        with False show ?thesis by (simp add: getDirectory_all)
      qed
      note r1 = r1 [THEN conjunct1] r1 [THEN conjunct2, THEN conjunct1]
        r1 [THEN conjunct2, THEN conjunct2, THEN conjunct2, THEN conjunct2, THEN conjunct2, THEN conjunct2]
        r1
      have ign: "isDirectoryIgnored E r1 v = isDirectoryIgnored E r v" for v
        by (simp add: isDirectoryIgnored_def r1(2))
      have short: "length (posix_dirname p) < length p" by (rule in_repo_long [OF True less.prems])
      obtain r' where r': "set_directories E r1 (posix_dirname p) = Some r'"
          "repo_dir E r' = repo_dir E r1" "re_ignoreManager r' = re_ignoreManager r1" "re_files r' = re_files r1"
          "re_uri r' = re_uri r1" "re_gitFiles r' = re_gitFiles r1" "repo_ok E r1 \<longrightarrow> repo_ok E r'"
          "\<And>k. map_get (re_directories r1) k \<noteq> None \<Longrightarrow> map_get (re_directories r') k \<noteq> None"
          "\<And>k. (\<forall>v. \<not> isl (isDirectoryIgnored E r v)) \<Longrightarrow>
             \<forall>j \<le> k. in_repo E r ((posix_dirname ^^ j) (posix_dirname p)) \<Longrightarrow>
             map_get (re_directories r') (uri_str E (fsPathToUri (ge_uri E) ((posix_dirname ^^ k) (posix_dirname p)))) \<noteq> None"
        using less.hyps [OF short, of r1] less.prems by (auto simp: r1(1) ign in_repo_def)
      have "map_get (re_directories r') (uri_str E (fsPathToUri (ge_uri E) ((posix_dirname ^^ k) p))) \<noteq> None"
        if all: "\<forall>v. \<not> isl (isDirectoryIgnored E r v)" and below: "\<forall>j \<le> k. in_repo E r ((posix_dirname ^^ j) p)" for k
      proof (cases k)
        case 0
        from r1(3) r'(8) have "map_get (re_directories r') (uri_str E u) \<noteq> None" by blast
        with 0 show ?thesis by (simp add: u_def)
      next
        case (Suc i)
        have "in_repo E r ((posix_dirname ^^ j) (posix_dirname p))" if "j \<le> i" for j
          using below [rule_format, of "Suc j"] that Suc by (simp add: funpow_swap1)
        with r'(9) [OF all, of i] Suc show ?thesis by (simp add: funpow_swap1)
      qed
      with r' r1(4) eq Inr show ?thesis by auto
    qed
  qed
qed

text \<open>Storing the directories of a file always ends, and unless git's ignore rules threw, every directory between
  the file and the root of its repository is then known.\<close>

theorem directories_of_file:
  assumes "repo_dir E r \<noteq> []" and "\<And>u. \<not> isl (isDirectoryIgnored E r u)"
  shows "\<exists>r'. setDirectoryForFile E f r = Some r' \<and>
    (\<forall>k. (\<forall>j \<le> k. in_repo E r ((posix_dirname ^^ Suc j) (ua_fsPath (ge_uri E) (rf_uri f)))) \<longrightarrow>
       re_getDirectory E r' (fsPathToUri (ge_uri E) ((posix_dirname ^^ Suc k) (ua_fsPath (ge_uri E) (rf_uri f)))) no_options
         \<noteq> None)"
proof -
  have "(posix_dirname ^^ Suc j) p = (posix_dirname ^^ j) (posix_dirname p)" for j p
    by (simp add: funpow_swap1)
  then show ?thesis
    using set_directories_result [OF assms(1), of "posix_dirname (ua_fsPath (ge_uri E) (rf_uri f))"] assms(2)
    unfolding setDirectoryForFile_def getDirectory_all by simp blast
qed

lemma replace_first_absent: "\<not> sublist pat s \<Longrightarrow> replace_first pat rep s = s"
proof (induction s)
  case (Cons c s)
  from Cons.prems have "\<not> prefix pat (c # s) \<and> \<not> sublist pat s"
    by (simp only: sublist_Cons_right de_Morgan_disj simp_thms)
  with Cons.IH show ?case by simp
qed simp

text \<open>When only the remote knows the main branch, \<open>getMainBranch\<close> returns the full name of its reference: the
  code removes \<open>refs/head/\<close>, but references to branches begin with \<open>refs/heads/\<close>.\<close>

theorem main_branch_of_remote_head:
  assumes "ge_listRemotes E (repo_dir E r) = Inr remotes" and "main_remote remotes = Some (origin, url)"
    and "truthy (getMainBranchFromRef E r origin) = None"
    and "ge_remoteHead E (convertToHttpUrl url) = Inr (Some (''refs/heads/'' @ branch))"
    and "\<not> str_includes (''refs/heads/'' @ branch) ''refs/head/''"
  shows "getMainBranch E r = ''refs/heads/'' @ branch"
proof -
  have "getMainBranchFromRemoteRepoInfo E url = Some (''refs/heads/'' @ branch)"
    by (simp only: getMainBranchFromRemoteRepoInfo_def assms(4) sum.case option.map replace_first_absent [OF assms(5)])
  then have "branch_of_remote E r (Some (origin, url)) = Some (''refs/heads/'' @ branch)"
    by (simp only: branch_of_remote_def option.case prod.case assms(3)) (simp add: truthy_def)
  with assms(1,2) show ?thesis by (simp only: getMainBranch_def sum.case option.case)
qed

subsection \<open>A concrete repository\<close>

definition demo_git :: "string git_env" where
  "demo_git =
     \<lparr>ge_ignore = demo_ignore_env, ge_readFile = (\<lambda>_. Inl (JsError ''ENOENT'')), ge_isDirectory = (\<lambda>_. Inr False),
      ge_findFiles = (\<lambda>_. Inr []), ge_listFiles = (\<lambda>_. Inr [''a.ts'']), ge_currentBranch = (\<lambda>_. Inr None),
      ge_resolveRef = (\<lambda>_. Inl (JsError ''NotFoundError'')), ge_listBranches = (\<lambda>_. Inr []),
      ge_listRemotes = (\<lambda>_. Inr [(''origin'', ''https://host/g/p'')]),
      ge_remoteHead = (\<lambda>_. Inr (Some ''refs/heads/dev'')), ge_skip = (\<lambda>_. False)\<rparr>"

definition demo_folder :: workspace_folder where
  "demo_folder = \<lparr>wf_uri = ''file:///h'', wf_name = ''h''\<rparr>"

definition demo_repo :: "string repository" where
  "demo_repo = (re_new demo_folder ''/h/p'' ''/h/p/.git/config'')
     \<lparr>re_gitFiles := \<lparr>gf_ignoreFiles = [], gf_excludeFile = None, gf_trackedFiles = [''file:///h/p/a.ts'']\<rparr>\<rparr>"

lemma demo_repo_ok: "repo_ok demo_git demo_repo"
  by (simp add: repo_ok_def demo_repo_def re_new_def)

definition demo_file :: "string \<Rightarrow> string repository_file" where
  "demo_file u = \<lparr>rf_uri = u, rf_repositoryUri = ''/h/p'', rf_isIgnored = False, rf_workspaceFolder = demo_folder\<rparr>"

definition demo_repo_files :: "string repository" where
  "demo_repo_files = demo_repo\<lparr>re_files :=
     [(''file:///h/p/foo/a'', demo_file ''/h/p/foo/a''), (''file:///h/p/foobar/b'', demo_file ''/h/p/foobar/b'')]\<rparr>"

text \<open>Deleting the directory \<open>foo\<close> also removes the file of \<open>foobar\<close>.\<close>

theorem directory_removal_witness:
  "getCurrentTreeFile demo_git (snd (removeFilesUnderDirectory demo_git ''/h/p/foo'' demo_repo_files)) ''/h/p/foobar/b'' = None \<and>
   demo_file ''/h/p/foobar/b'' \<in> set (fst (removeFilesUnderDirectory demo_git ''/h/p/foo'' demo_repo_files))"
proof -
  let ?x = "removeFilesUnderDirectory demo_git ''/h/p/foo'' demo_repo_files"
  have "repo_ok demo_git demo_repo_files"
    by (simp add: repo_ok_def demo_repo_files_def demo_repo_def re_new_def demo_git_def demo_ignore_env_def
        file_uris_def demo_file_def map_wf_def)
  from directory_removal [OF this, of "''/h/p/foo''" "fst ?x" "snd ?x"]
  have *: "\<forall>u. getCurrentTreeFile demo_git (snd ?x) u =
        (if starts_with (uri_str demo_git u) (uri_str demo_git ''/h/p/foo'') then None
         else getCurrentTreeFile demo_git demo_repo_files u)"
      "set (fst ?x) = {f. \<exists>k. map_get (re_files demo_repo_files) k = Some f \<and> starts_with k (uri_str demo_git ''/h/p/foo'')}"
    by simp_all
  have "starts_with (uri_str demo_git ''/h/p/foobar/b'') (uri_str demo_git ''/h/p/foo'')"
    by (simp add: demo_git_def demo_ignore_env_def file_uris_def)
  with *(1) have "getCurrentTreeFile demo_git (snd ?x) ''/h/p/foobar/b'' = None" by simp
  moreover have "demo_file ''/h/p/foobar/b'' \<in> set (fst ?x)"
    unfolding *(2) by (rule CollectI, rule exI [of _ "''file:///h/p/foobar/b''"])
      (simp add: demo_repo_files_def demo_git_def demo_ignore_env_def file_uris_def)
  ultimately show ?thesis ..
qed

theorem tracked_file_listed_witness:
  "\<exists>f r'. re_setFile demo_git ''/h/p/a.ts'' demo_repo = Inr (f, r') \<and>
    re_getFile demo_git r' ''/h/p/a.ts'' \<lparr>gfo_excludeGitFolder = False, gfo_excludeIgnored = True\<rparr> = Some f"
proof -
  have "uri_str demo_git ''/h/p/a.ts'' \<in> set (getCurrentTrackedFiles demo_repo)"
    by (simp add: getCurrentTrackedFiles_def demo_repo_def demo_git_def demo_ignore_env_def file_uris_def)
  from tracked_file_listed [OF this, of "\<lparr>gfo_excludeGitFolder = False, gfo_excludeIgnored = True\<rparr>"]
  show ?thesis by auto
qed

theorem directories_of_file_witness:
  "\<exists>r'. setDirectoryForFile demo_git (demo_file ''/h/p/src/x/b.ts'') demo_repo = Some r' \<and>
     re_getDirectory demo_git r' ''/h/p/src'' no_options \<noteq> None"
proof -
  have d: "posix_dirname ''/h/p/src/x/b.ts'' = ''/h/p/src/x''" "posix_dirname ''/h/p/src/x'' = ''/h/p/src''"
      "posix_dirname ''/h/p/src'' = ''/h/p''"
    by (simp_all add: posix_dirname_def slash_def)
  have dir: "repo_dir demo_git demo_repo = ''/h/p''"
    by (simp add: repo_dir_def demo_git_def demo_ignore_env_def file_uris_def demo_repo_def re_new_def)
  have "\<not> isl (isDirectoryIgnored demo_git demo_repo u)" for u
    by (simp add: isDirectoryIgnored_def demo_repo_def re_new_def)
  from directories_of_file [OF _ this, of "demo_file ''/h/p/src/x/b.ts''"] dir obtain r' where
    r': "setDirectoryForFile demo_git (demo_file ''/h/p/src/x/b.ts'') demo_repo = Some r'" and
    all: "\<And>k. \<forall>j \<le> k. in_repo demo_git demo_repo ((posix_dirname ^^ Suc j) ''/h/p/src/x/b.ts'') \<Longrightarrow>
      re_getDirectory demo_git r' ((posix_dirname ^^ Suc k) ''/h/p/src/x/b.ts'') no_options \<noteq> None"
    by (auto simp: demo_git_def demo_ignore_env_def file_uris_def demo_file_def fsPathToUri_def)
  have "\<forall>j \<le> 1. in_repo demo_git demo_repo ((posix_dirname ^^ Suc j) ''/h/p/src/x/b.ts'')"
    by (auto simp: le_Suc_eq in_repo_def dir d)
  from all [OF this] r' show ?thesis by (simp add: d)
qed

theorem main_branch_of_remote_head_witness: "getMainBranch demo_git demo_repo = ''refs/heads/dev''"
proof -
  have "convertToHttpUrl ''https://host/g/p'' = ''https://host/g/p''"
    by (simp add: convertToHttpUrl_def)
  moreover have "\<not> str_includes ''refs/heads/dev'' ''refs/head/''"
    by (simp add: sublist_code)
  ultimately show ?thesis
    using main_branch_of_remote_head [of demo_git demo_repo "[(''origin'', ''https://host/g/p'')]" "''origin''"
        "''https://host/g/p''" "''dev''"]
    by (simp add: demo_git_def main_remote_def getMainBranchFromRef_def truthy_def)
qed

end
