(* ===== verification/Repository_Service.thy ===== *)
theory Repository_Service
  imports Repository Node_Runtime
begin

text \<open>
  The repositories of the workspace folders (\<open>src/common/services/git/repository_service.ts\<close>).  A \<open>Repository\<close> is
  an object that maps and running rebuilds share, so the service keeps a heap of them and refers to them by index.

  A rebuild (\<open>#setWorkspaceRepositories\<close>) runs up to its first \<open>await\<close> in \<open>rs_begin\<close>, sets up one repository in each
  \<open>rs_setup\<close>, and ends in \<open>rs_end\<close>; a \<open>PQueue\<close> with concurrency 1 is a number whose waiting entries start one after
  the other.  The queue of file events runs one handler at a time.  A handler is a list of what is left to do: the
  events of the files of a created directory are handled in any order, the entry of the directory once they have been,
  and a rebuild a handler has asked for is an entry of the list until its queue is idle or the rebuild has failed.
\<close>

subsection \<open>State\<close>

record ws_entry =
  we_fastDirectoryMatcher :: dir_trie
  we_repositories :: "(string, nat) jsmap"

datatype file_change = Created | Changed | Deleted | Unknown_change nat

record file_event =
  fe_uri :: string
  fe_type :: file_change

text \<open>What a handler of a file event has left to do: an event, the entry of a directory once its files have been
  added, or the wait for the \<open>n\<close>-th rebuild still to settle of a queue and for the end of all of that queue (\<open>n = 0\<close>
  when that rebuild has ended).\<close>

datatype 'u file_work = Work_event file_event | Work_directory 'u | Work_rebuild nat nat

record 'u set_job =
  sj_queue :: nat
  sj_folder :: workspace_folder
  sj_todo :: "(nat \<times> 'u list) list"
  sj_failed :: bool

record 'u repo_service =
  rs_repos :: "'u repository list"
  rs_workspaceToRepositories :: "(string, ws_entry) jsmap"
  rs_queueMap :: "(string, nat) jsmap"
  rs_nextQueue :: nat
  rs_waiting :: "(nat \<times> workspace_folder \<times> 'u list) list"
  rs_jobs :: "'u set_job list"
  rs_fileChangeQueue :: "(file_event \<times> workspace_folder) list"
  rs_handling :: "(workspace_folder \<times> 'u file_work list) option"
  rs_paused :: bool
  rs_eventEmitter :: "(unit, nat) emitter"
  rs_set :: "(nat \<times> workspace_folder) list"

definition rs_new :: "'u repo_service" where
  "rs_new =
     \<lparr>rs_repos = [], rs_workspaceToRepositories = [], rs_queueMap = [], rs_nextQueue = 0, rs_waiting = [],
      rs_jobs = [], rs_fileChangeQueue = [], rs_handling = None, rs_paused = False, rs_eventEmitter = [], rs_set = []\<rparr>"

subsection \<open>Queries\<close>

definition getDirectoryMatcherForWorkspace :: "'u repo_service \<Rightarrow> string \<Rightarrow> dir_trie" where
  "getDirectoryMatcherForWorkspace s folderUri =
     (case map_get (rs_workspaceToRepositories s) folderUri of
        None \<Rightarrow> fdm_new
      | Some e \<Rightarrow> we_fastDirectoryMatcher e)"

definition getRepositoriesForWorkspace :: "'u repo_service \<Rightarrow> string \<Rightarrow> (string, nat) jsmap" where
  "getRepositoriesForWorkspace s folderUri =
     (case map_get (rs_workspaceToRepositories s) folderUri of None \<Rightarrow> [] | Some e \<Rightarrow> we_repositories e)"

definition getRepositoryUriForFile :: "'u git_env \<Rightarrow> 'u repo_service \<Rightarrow> 'u \<Rightarrow> string \<Rightarrow> js_error + 'u option" where
  "getRepositoryUriForFile E s fileUri folderUri =
     map_sum id (\<lambda>uris. if uris = [] then None else Some (last uris))
       (findMatchingDirectories (ge_uri E) fileUri (getDirectoryMatcherForWorkspace s folderUri))"

definition getMatchingRepository :: "'u git_env \<Rightarrow> 'u repo_service \<Rightarrow> 'u \<Rightarrow> string \<Rightarrow> js_error + nat option" where
  "getMatchingRepository E s fileUri folderUri =
     map_sum id
       (\<lambda>repositoryUri.
          case repositoryUri of
            None \<Rightarrow> None
          | Some u \<Rightarrow> map_get (getRepositoriesForWorkspace s folderUri) (uri_str E u))
       (getRepositoryUriForFile E s fileUri folderUri)"

definition getRepositoryForWorkspace :: "'u git_env \<Rightarrow> 'u repo_service \<Rightarrow> string \<Rightarrow> 'u \<Rightarrow> nat option" where
  "getRepositoryForWorkspace E s folderUri repositoryUri =
     map_get (getRepositoriesForWorkspace s folderUri) (uri_str E repositoryUri)"

definition getRepositoryFileForUri ::
  "'u git_env \<Rightarrow> 'u repo_service \<Rightarrow> 'u \<Rightarrow> 'u \<Rightarrow> workspace_folder \<Rightarrow> 'u repository_file option" where
  "getRepositoryFileForUri E s fileUri repositoryUri folder =
     (case getRepositoryForWorkspace E s (wf_uri folder) repositoryUri of
        None \<Rightarrow> None
      | Some i \<Rightarrow> re_getFile E (rs_repos s ! i) fileUri no_options)"

definition getCurrentFilesForRepository ::
  "'u git_env \<Rightarrow> 'u repo_service \<Rightarrow> 'u \<Rightarrow> string \<Rightarrow> get_file_options \<Rightarrow> 'u repository_file list" where
  "getCurrentFilesForRepository E s repositoryUri folderUri options =
     (case getRepositoryForWorkspace E s folderUri repositoryUri of
        None \<Rightarrow> []
      | Some i \<Rightarrow> getCurrentTreeFiles E (rs_repos s ! i) options)"

definition getCurrentFilesForWorkspace ::
  "'u git_env \<Rightarrow> 'u repo_service \<Rightarrow> string \<Rightarrow> get_file_options \<Rightarrow> 'u repository_file list" where
  "getCurrentFilesForWorkspace E s folderUri options =
     concat (map (\<lambda>(k, i). getCurrentTreeFiles E (rs_repos s ! i) options) (getRepositoriesForWorkspace s folderUri))"

subsection \<open>Rebuilding a workspace\<close>

definition modify_repo :: "nat \<Rightarrow> ('u repository \<Rightarrow> 'u repository) \<Rightarrow> 'u repo_service \<Rightarrow> 'u repo_service" where
  "modify_repo i f s = s\<lparr>rs_repos := (rs_repos s)[i := f (rs_repos s ! i)]\<rparr>"

text \<open>The entry of the folder is deleted before its repositories are asked for.\<close>

definition clearRepositoriesForWorkspace :: "string \<Rightarrow> 'u repo_service \<Rightarrow> 'u repo_service" where
  "clearRepositoriesForWorkspace folderUri s =
     (let s1 = s\<lparr>rs_workspaceToRepositories := map_delete folderUri (rs_workspaceToRepositories s)\<rparr>;
          repositoryMap = getRepositoriesForWorkspace s1 folderUri;
          s2 = fold (\<lambda>(k, i). modify_repo i re_dispose) repositoryMap s1
      in s2\<lparr>rs_workspaceToRepositories := map_delete folderUri (rs_workspaceToRepositories s2)\<rparr>)"

definition detectRepositories :: "'u git_env \<Rightarrow> 'u list \<Rightarrow> workspace_folder \<Rightarrow> 'u repository list" where
  "detectRepositories E files folder =
     map (\<lambda>file. re_new folder (getRepoRootFromGitConfig E file) file)
       (filter (\<lambda>file. isGitConfigFile (uri_str E file)) files)"

definition addRepositoryToWorkspace ::
  "'u git_env \<Rightarrow> workspace_folder \<Rightarrow> 'u repository \<Rightarrow> 'u repo_service \<Rightarrow> js_error + 'u repo_service" where
  "addRepositoryToWorkspace E folder repository s =
     map_sum id
       (\<lambda>matcher. s\<lparr>rs_repos := rs_repos s @ [repository],
          rs_workspaceToRepositories :=
            map_set (wf_uri folder)
              \<lparr>we_fastDirectoryMatcher = matcher,
               we_repositories =
                 map_set (uri_str E (re_uri repository)) (length (rs_repos s))
                   (getRepositoriesForWorkspace s (wf_uri folder))\<rparr>
              (rs_workspaceToRepositories s)\<rparr>)
       (addDirectoryToMatch (ge_uri E) (re_uri repository) (getDirectoryMatcherForWorkspace s (wf_uri folder)))"

fun add_repositories ::
  "'u git_env \<Rightarrow> workspace_folder \<Rightarrow> 'u repository list \<Rightarrow> 'u repo_service \<Rightarrow> js_error option \<times> 'u repo_service" where
  "add_repositories E folder [] s = (None, s)"
| "add_repositories E folder (r # rs) s =
     (case addRepositoryToWorkspace E folder r s of
        Inl e \<Rightarrow> (Some e, s)
      | Inr s' \<Rightarrow> add_repositories E folder rs s')"

fun getFilesByRepositories ::
  "'u git_env \<Rightarrow> 'u repo_service \<Rightarrow> workspace_folder \<Rightarrow> 'u list \<Rightarrow> (string, (string, 'u) jsmap) jsmap \<Rightarrow>
   js_error + (string, (string, 'u) jsmap) jsmap" where
  "getFilesByRepositories E s folder [] filesByRepositories = Inr filesByRepositories"
| "getFilesByRepositories E s folder (file # files) filesByRepositories =
     (case getRepositoryUriForFile E s file (wf_uri folder) of
        Inl e \<Rightarrow> Inl e
      | Inr None \<Rightarrow> getFilesByRepositories E s folder files filesByRepositories
      | Inr (Some repoUri) \<Rightarrow>
          (let repoFiles = (case map_get filesByRepositories (uri_str E repoUri) of None \<Rightarrow> [] | Some m \<Rightarrow> m)
           in getFilesByRepositories E s folder files
                (map_set (uri_str E repoUri) (map_set (uri_str E file) file repoFiles) filesByRepositories)))"

definition todo_of :: "(string, nat) jsmap \<Rightarrow> (string, (string, 'u) jsmap) jsmap \<Rightarrow> (nat \<times> 'u list) list" where
  "todo_of repositoryMap filesByRepositories =
     List.map_filter (\<lambda>(repositoryUri, repoFiles).
         map_option (\<lambda>i. (i, map snd repoFiles)) (map_get repositoryMap repositoryUri))
       filesByRepositories"

text \<open>The rebuilds of a queue that have not settled, and what happens to the handler when one of them settles: \<open>add\<close>
  is rejected for the handler whose rebuild has failed, and \<open>onIdle\<close> resolves for all when the queue is idle.\<close>

definition queue_count :: "nat \<Rightarrow> 'u repo_service \<Rightarrow> nat" where
  "queue_count q s =
     length (filter (\<lambda>w. fst w = q) (rs_waiting s)) +
     length (filter (\<lambda>job. sj_queue job = q \<and> \<not> sj_failed job) (rs_jobs s))"

fun await_settled :: "nat \<Rightarrow> bool \<Rightarrow> bool \<Rightarrow> 'u file_work \<Rightarrow> 'u file_work list" where
  "await_settled q failed idle (Work_rebuild q' n) =
     (if q' \<noteq> q then [Work_rebuild q' n]
      else if idle \<or> failed \<and> n = 1 then [] else [Work_rebuild q' (n - 1)])"
| "await_settled q failed idle w = [w]"

definition rebuild_settled :: "nat \<Rightarrow> bool \<Rightarrow> 'u repo_service \<Rightarrow> 'u repo_service" where
  "rebuild_settled q failed s =
     s\<lparr>rs_handling :=
         map_option (\<lambda>(folder, ws). (folder, concat (map (await_settled q failed (queue_count q s = 0)) ws)))
           (rs_handling s)\<rparr>"

text \<open>From the start of a rebuild to its first \<open>await\<close>; an exception rejects it.\<close>

definition rs_begin :: "'u git_env \<Rightarrow> nat \<Rightarrow> workspace_folder \<Rightarrow> 'u list \<Rightarrow> 'u repo_service \<Rightarrow> 'u repo_service" where
  "rs_begin E q folder files s =
     (let s1 = clearRepositoriesForWorkspace (wf_uri folder) (s\<lparr>rs_paused := True\<rparr>);
          (err, s2) = add_repositories E folder (detectRepositories E files folder) s1
      in case err of
           Some e \<Rightarrow> rebuild_settled q True s2
         | None \<Rightarrow>
             (case getFilesByRepositories E s2 folder files [] of
                Inl e \<Rightarrow> rebuild_settled q True s2
              | Inr filesByRepositories \<Rightarrow>
                  s2\<lparr>rs_jobs := rs_jobs s2 @
                       [\<lparr>sj_queue = q, sj_folder = folder,
                         sj_todo = todo_of (getRepositoriesForWorkspace s2 (wf_uri folder)) filesByRepositories,
                         sj_failed = False\<rparr>]\<rparr>))"

fun add_files :: "'u git_env \<Rightarrow> 'u list \<Rightarrow> 'u repository \<Rightarrow> (js_error option \<times> 'u repository) option" where
  "add_files E [] r = Some (None, r)"
| "add_files E (u # us) r =
     (case re_setFile E u r of
        Inl e \<Rightarrow> Some (Some e, r)
      | Inr (f, r') \<Rightarrow>
          (case setDirectoryForFile E f r' of None \<Rightarrow> None | Some r'' \<Rightarrow> add_files E us r''))"

definition setup_and_add ::
  "'u git_env \<Rightarrow> 'u list \<Rightarrow> 'u repository \<Rightarrow> (js_error option \<times> 'u repository) option" where
  "setup_and_add E files r =
     (case setupGitForRepository E files r of
        (Inl e, r') \<Rightarrow> Some (None, r')
      | (Inr gitFiles, r') \<Rightarrow> add_files E files r')"

text \<open>Setting up the \<open>k\<close>-th repository that is left of job \<open>n\<close>; the first failure settles the rebuild.\<close>

definition rs_setup :: "'u git_env \<Rightarrow> nat \<Rightarrow> nat \<Rightarrow> 'u repo_service \<Rightarrow> 'u repo_service option" where
  "rs_setup E n k s =
     (let job = rs_jobs s ! n; (i, files) = sj_todo job ! k in
      map_option
        (\<lambda>(err, r).
           (let s' = s\<lparr>rs_repos := (rs_repos s)[i := r],
                       rs_jobs := (rs_jobs s)[n := job\<lparr>sj_todo := take k (sj_todo job) @ drop (Suc k) (sj_todo job),
                                                      sj_failed := sj_failed job \<or> err \<noteq> None\<rparr>]\<rparr>
            in if err \<noteq> None \<and> \<not> sj_failed job then rebuild_settled (sj_queue job) True s' else s'))
        (setup_and_add E files (rs_repos s ! i)))"

text \<open>Listeners are named by numbers; what they are called with is recorded.\<close>

definition onWorkspaceRepositoriesSet :: "nat \<Rightarrow> 'u repo_service \<Rightarrow> 'u repo_service" where
  "onWorkspaceRepositoriesSet l s = s\<lparr>rs_eventEmitter := em_on () l (rs_eventEmitter s)\<rparr>"

definition onWorkspaceRepositoriesSet_dispose :: "nat \<Rightarrow> 'u repo_service \<Rightarrow> 'u repo_service" where
  "onWorkspaceRepositoriesSet_dispose l s = s\<lparr>rs_eventEmitter := em_removeListener () l (rs_eventEmitter s)\<rparr>"

definition triggerWorkspaceRepositoriesSet :: "workspace_folder \<Rightarrow> 'u repo_service \<Rightarrow> 'u repo_service" where
  "triggerWorkspaceRepositoriesSet folder s =
     s\<lparr>rs_set := rs_set s @ map (\<lambda>l. (l, folder)) (em_listeners () (rs_eventEmitter s))\<rparr>"

definition rs_end :: "nat \<Rightarrow> 'u repo_service \<Rightarrow> 'u repo_service" where
  "rs_end n s =
     (let job = rs_jobs s ! n; s1 = s\<lparr>rs_jobs := take n (rs_jobs s) @ drop (Suc n) (rs_jobs s)\<rparr> in
      if sj_failed job then s1
      else rebuild_settled (sj_queue job) False
             ((triggerWorkspaceRepositoriesSet (sj_folder job) s1)\<lparr>rs_paused := False,
                rs_queueMap := map_set (wf_uri (sj_folder job)) (sj_queue job) (rs_queueMap s1)\<rparr>))"

text \<open>Entering a rebuild in the queue of its folder, and what the promise returned waits for.\<close>

definition queueSetWorkspaceRepositories ::
  "workspace_folder \<Rightarrow> 'u list \<Rightarrow> 'u repo_service \<Rightarrow> 'u repo_service \<times> 'u file_work" where
  "queueSetWorkspaceRepositories folder files s =
     (let (q, s1) =
            (case map_get (rs_queueMap s) (wf_uri folder) of
               Some q \<Rightarrow> (q, s)
             | None \<Rightarrow> (rs_nextQueue s, s\<lparr>rs_nextQueue := Suc (rs_nextQueue s)\<rparr>));
          s2 = s1\<lparr>rs_waiting := rs_waiting s1 @ [(q, folder, files)]\<rparr>
      in (s2, Work_rebuild q (queue_count q s2)))"

definition handleWorkspaceFolderStateChange ::
  "'u git_env \<Rightarrow> workspace_folder \<Rightarrow> 'u repo_service \<Rightarrow> 'u repo_service \<times> 'u file_work list" where
  "handleWorkspaceFolderStateChange E folder s =
     (case ge_findFiles E (parseURIString (ge_uri E) (wf_uri folder)) of
        Inl e \<Rightarrow> (s, [])
      | Inr files \<Rightarrow> map_prod id (\<lambda>w. [w]) (queueSetWorkspaceRepositories folder files s))"

subsection \<open>File events\<close>

definition deleteFilesForDirectory ::
  "'u git_env \<Rightarrow> 'u \<Rightarrow> nat \<Rightarrow> workspace_folder \<Rightarrow> 'u repo_service \<Rightarrow> 'u repo_service \<times> 'u file_work list" where
  "deleteFilesForDirectory E dirUri i folder s =
     (let (deletedFiles, r) = removeFilesUnderDirectory E dirUri (rs_repos s ! i);
          s1 = s\<lparr>rs_repos := (rs_repos s)[i := r]\<rparr>
      in if \<exists>f \<in> set deletedFiles. isGitConfigFile (uri_str E (rf_uri f)) \<or> isGitIgnoreFile (uri_str E (rf_uri f))
         then handleWorkspaceFolderStateChange E folder s1 else (s1, []))"

definition add_file :: "'u git_env \<Rightarrow> 'u \<Rightarrow> nat \<Rightarrow> 'u repo_service \<Rightarrow> 'u repo_service option" where
  "add_file E fileUri i s =
     map_option (\<lambda>(err, r). s\<lparr>rs_repos := (rs_repos s)[i := r]\<rparr>) (add_files E [fileUri] (rs_repos s ! i))"

definition file_change_effect ::
  "'u git_env \<Rightarrow> 'u \<Rightarrow> file_change \<Rightarrow> nat \<Rightarrow> workspace_folder \<Rightarrow> 'u repo_service \<Rightarrow>
   ('u repo_service \<times> 'u file_work list) option" where
  "file_change_effect E fileUri change i folder s =
     (case change of
        Created \<Rightarrow>
          (case ge_isDirectory E (ua_fsPath (ge_uri E) fileUri) of
             Inl e \<Rightarrow> Some (s, [])
           | Inr True \<Rightarrow>
               (case ge_findFiles E fileUri of
                  Inl e \<Rightarrow> Some (s, [])
                | Inr files \<Rightarrow>
                    Some (s, map (\<lambda>f. Work_event \<lparr>fe_uri = uri_str E f, fe_type = Created\<rparr>) files @ [Work_directory fileUri]))
           | Inr False \<Rightarrow> map_option (\<lambda>s'. (s', [])) (add_file E fileUri i s))
      | Changed \<Rightarrow> map_option (\<lambda>s'. (s', [])) (add_file E fileUri i s)
      | Deleted \<Rightarrow>
          Some (if re_getDirectory E (rs_repos s ! i) fileUri no_options \<noteq> None
                then deleteFilesForDirectory E fileUri i folder s
                else (modify_repo i (re_removeFile E fileUri) s, []))
      | Unknown_change n \<Rightarrow> Some (s, []))"

definition handleWorkspaceFileUpdate ::
  "'u git_env \<Rightarrow> workspace_folder \<Rightarrow> file_event \<Rightarrow> 'u repo_service \<Rightarrow> ('u repo_service \<times> 'u file_work list) option" where
  "handleWorkspaceFileUpdate E folder ev s =
     (let fileUri = parseURIString (ge_uri E) (fe_uri ev) in
      if ge_skip E (ua_fsPath (ge_uri E) fileUri) then Some (s, [])
      else
        (case getMatchingRepository E s fileUri (wf_uri folder) of
           Inl e \<Rightarrow> Some (s, [])
         | Inr None \<Rightarrow> Some (s, [])
         | Inr (Some i) \<Rightarrow>
             if isGitConfigFile (uri_str E fileUri) \<or> isGitIgnoreFile (uri_str E fileUri) then
               Some (handleWorkspaceFolderStateChange E folder s)
             else
               let s1 = (if isInGitFolder (uri_str E fileUri) then modify_repo i refreshTrackedFiles s else s) in
               if map_get (getRepositoriesForWorkspace s1 (wf_uri folder)) (uri_str E fileUri) \<noteq> None then
                 Some (handleWorkspaceFolderStateChange E folder s1)
               else file_change_effect E fileUri (fe_type ev) i folder s1))"

text \<open>An entry of the list of a handler; a wait ends with its rebuild.\<close>

definition do_work ::
  "'u git_env \<Rightarrow> workspace_folder \<Rightarrow> 'u file_work \<Rightarrow> 'u repo_service \<Rightarrow> ('u repo_service \<times> 'u file_work list) option" where
  "do_work E folder w s =
     (case w of
        Work_event ev \<Rightarrow> handleWorkspaceFileUpdate E folder ev s
      | Work_directory dirUri \<Rightarrow>
          Some (case getMatchingRepository E s dirUri (wf_uri folder) of
                  Inr (Some i) \<Rightarrow>
                    (case re_setDirectory E dirUri (rs_repos s ! i) of
                       Inl e \<Rightarrow> s
                     | Inr (d, r) \<Rightarrow> s\<lparr>rs_repos := (rs_repos s)[i := r]\<rparr>)
                | _ \<Rightarrow> s, [])
      | Work_rebuild q n \<Rightarrow> Some (s, [w]))"

definition is_event :: "'u file_work \<Rightarrow> bool" where
  "is_event w = (case w of Work_event ev \<Rightarrow> True | _ \<Rightarrow> False)"

definition is_rebuild :: "'u file_work \<Rightarrow> bool" where
  "is_rebuild w = (case w of Work_rebuild q n \<Rightarrow> True | _ \<Rightarrow> False)"

text \<open>The queue of file events starts a handler when it is not paused and none runs; a handler does one of the
  entries it can do and ends when none is left.\<close>

definition take_event :: "'u repo_service \<Rightarrow> 'u repo_service option" where
  "take_event s =
     (case rs_fileChangeQueue s of
        (ev, folder) # rest \<Rightarrow>
          if \<not> rs_paused s \<and> rs_handling s = None
          then Some (s\<lparr>rs_fileChangeQueue := rest, rs_handling := Some (folder, [Work_event ev])\<rparr>) else None
      | [] \<Rightarrow> None)"

definition handler_work :: "'u git_env \<Rightarrow> nat \<Rightarrow> 'u repo_service \<Rightarrow> 'u repo_service option" where
  "handler_work E k s =
     (case rs_handling s of
        None \<Rightarrow> None
      | Some (folder, ws) \<Rightarrow>
          if k < length ws \<and> \<not> is_rebuild (ws ! k) \<and> (is_event (ws ! k) \<or> k = 0)
          then map_option (\<lambda>(s', added). s'\<lparr>rs_handling := Some (folder, take k ws @ added @ drop (Suc k) ws)\<rparr>)
                 (do_work E folder (ws ! k) s)
          else None)"

definition handler_end :: "'u repo_service \<Rightarrow> 'u repo_service option" where
  "handler_end s =
     (case rs_handling s of Some (folder, []) \<Rightarrow> Some (s\<lparr>rs_handling := None\<rparr>) | _ \<Rightarrow> None)"

subsection \<open>Steps\<close>

definition onWorkspaceFilesEvent :: "workspace_folder \<Rightarrow> 'u list \<Rightarrow> 'u repo_service \<Rightarrow> 'u repo_service" where
  "onWorkspaceFilesEvent folder files s = fst (queueSetWorkspaceRepositories folder files s)"

definition onWorkspaceFileEvent :: "file_event \<Rightarrow> workspace_folder \<Rightarrow> 'u repo_service \<Rightarrow> 'u repo_service" where
  "onWorkspaceFileEvent ev folder s = s\<lparr>rs_fileChangeQueue := rs_fileChangeQueue s @ [(ev, folder)]\<rparr>"

text \<open>What the service does by itself: rebuilds start, set up repositories and end, and a handler goes on.\<close>

inductive rs_own :: "'u git_env \<Rightarrow> 'u repo_service \<Rightarrow> 'u repo_service \<Rightarrow> bool" for E where
  rs_own_start: "rs_own E s (rs_begin E q folder files (s\<lparr>rs_waiting := ws1 @ ws2\<rparr>))"
    if "rs_waiting s = ws1 @ (q, folder, files) # ws2" and "q \<notin> fst ` set ws1"
      and "\<forall>job \<in> set (rs_jobs s). sj_failed job \<or> sj_queue job \<noteq> q"
| rs_own_setup: "rs_own E s s'"
    if "n < length (rs_jobs s)" and "k < length (sj_todo (rs_jobs s ! n))" and "rs_setup E n k s = Some s'"
| rs_own_end: "rs_own E s (rs_end n s)"
    if "n < length (rs_jobs s)" and "sj_todo (rs_jobs s ! n) = []"
| rs_own_work: "rs_own E s s'" if "handler_work E k s = Some s'"
| rs_own_handled: "rs_own E s s'" if "handler_end s = Some s'"

inductive rs_step :: "'u git_env \<Rightarrow> 'u repo_service \<Rightarrow> 'u repo_service \<Rightarrow> bool" for E where
  rs_step_files: "rs_step E s (onWorkspaceFilesEvent folder files s)"
| rs_step_file: "rs_step E s (onWorkspaceFileEvent ev folder s)"
| rs_step_listen: "rs_step E s (onWorkspaceRepositoriesSet l s)"
| rs_step_unlisten: "rs_step E s (onWorkspaceRepositoriesSet_dispose l s)"
| rs_step_own: "rs_step E s s'" if "rs_own E s s'"
| rs_step_take: "rs_step E s s'" if "take_event s = Some s'"
| rs_step_refresh: "rs_step E s (s\<lparr>rs_repos := (rs_repos s)[i := r]\<rparr>)"
    if "i < length (rs_repos s)" and "re_refreshPending (rs_repos s ! i)"
      and "refreshTrackedFilesImpl E (rs_repos s ! i) = Inr r"

inductive rs_reach :: "'u git_env \<Rightarrow> 'u repo_service \<Rightarrow> bool" for E where
  rs_reach_new: "rs_reach E rs_new"
| rs_reach_step: "rs_reach E s \<Longrightarrow> rs_step E s s' \<Longrightarrow> rs_reach E s'"

subsection \<open>What every operation keeps\<close>

definition same_repo :: "'u git_env \<Rightarrow> 'u repository \<Rightarrow> 'u repository \<Rightarrow> bool" where
  "same_repo E r r' \<longleftrightarrow> re_uri r' = re_uri r \<and> re_workspaceFolder r' = re_workspaceFolder r \<and> (repo_ok E r \<longrightarrow> repo_ok E r')"

lemma same_repo_refl [simp]: "same_repo E r r"
  by (simp add: same_repo_def)

lemma same_repo_trans: "same_repo E r r' \<Longrightarrow> same_repo E r' r'' \<Longrightarrow> same_repo E r r''"
  by (simp add: same_repo_def)

lemma same_setFile: "re_setFile E u r = Inr (f, r') \<Longrightarrow> same_repo E r r'"
  using repo_ok_setFile [of E r u f r']
  by (cases "isFileIgnored E r u") (auto simp: same_repo_def re_setFile_def Let_def)

lemma same_setDirectory: "re_setDirectory E u r = Inr (d, r') \<Longrightarrow> same_repo E r r'"
  using repo_ok_setDirectory [of E r u d r']
  by (cases "isDirectoryIgnored E r u") (auto simp: same_repo_def re_setDirectory_def Let_def)

lemma same_set_directories: "set_directories E r p = Some r' \<Longrightarrow> same_repo E r r'"
proof (induction rule: set_directories.raw_induct [rotated 1, consumes 1, case_names step])
  case (step f E r p r')
  show ?case
  proof (cases "starts_with p (repo_dir E r) \<and> p \<noteq> repo_dir E r")
    case False
    with step(2) have "r' = r" by (simp split: if_splits)
    then show ?thesis by simp
  next
    case True
    let ?u = "fsPathToUri (ge_uri E) p"
    let ?st = "if re_getDirectory E r ?u no_options = None then map_sum id snd (re_setDirectory E ?u r) else Inr r"
    from True step(2) have eq: "(case ?st of Inl e \<Rightarrow> Some r | Inr r1 \<Rightarrow> f E r1 (posix_dirname p)) = Some r'"
      by (simp only: if_True Let_def simp_thms)
    show ?thesis
    proof (cases ?st)
      case (Inl e)
      with eq have "r' = r" by (simp only: sum.case option.inject)
      then show ?thesis by simp
    next
      case (Inr r1)
      with eq have "f E r1 (posix_dirname p) = Some r'" by (simp only: sum.case)
      then have "same_repo E r1 r'" by (rule step(1))
      moreover have "same_repo E r r1"
        using Inr by (cases "re_setDirectory E ?u r") (auto simp: same_setDirectory split: if_splits)
      ultimately show ?thesis by (metis same_repo_trans)
    qed
  qed
qed

lemma same_add_files: "add_files E us r = Some (err, r') \<Longrightarrow> same_repo E r r'"
proof (induction us arbitrary: r)
  case (Cons u us)
  show ?case
  proof (cases "re_setFile E u r")
    case (Inr x)
    obtain f r1 where x: "x = (f, r1)" by (cases x)
    with Cons.prems Inr obtain r2 where "setDirectoryForFile E f r1 = Some r2" "add_files E us r2 = Some (err, r')"
      by (auto split: option.splits)
    with Cons.IH same_set_directories same_setFile Inr x same_repo_trans show ?thesis
      unfolding setDirectoryForFile_def by metis
  qed (use Cons.prems in simp)
qed simp

lemma same_setup: "same_repo E r (snd (setupGitForRepository E files r))"
  by (auto simp: same_repo_def repo_ok_def setupGitForRepository_def split: sum.splits)

lemma same_setup_and_add: "setup_and_add E files r = Some (err, r') \<Longrightarrow> same_repo E r r'"
  using same_setup [of E r files]
  by (auto simp: setup_and_add_def intro: same_repo_trans dest!: same_add_files split: prod.splits sum.splits)

lemma same_removeFile: "same_repo E r (re_removeFile E u r)"
  using repo_ok_removeFile [of E r u] by (simp add: same_repo_def re_removeFile_def)

lemma same_refresh: "same_repo E r (refreshTrackedFiles r)"
  by (simp add: same_repo_def refreshTrackedFiles_def repo_ok_def)

lemma same_removeFiles: "same_repo E r (snd (removeFilesUnderDirectory E u r))"
  using repo_ok_removeFiles [of E r u] by (simp add: same_repo_def removeFilesUnderDirectory_def Let_def)

lemma same_refreshImpl: "refreshTrackedFilesImpl E r = Inr r' \<Longrightarrow> same_repo E r r'"
  by (cases "getTrackedFiles E r") (auto simp: same_repo_def repo_ok_def refreshTrackedFilesImpl_def)

text \<open>The repositories of the heap keep their identity, and no map or job changes.\<close>

definition same_heap :: "'u git_env \<Rightarrow> 'u repository list \<Rightarrow> 'u repository list \<Rightarrow> bool" where
  "same_heap E h h' \<longleftrightarrow> length h' = length h \<and> (\<forall>i < length h. same_repo E (h ! i) (h' ! i))"

lemma same_heap_refl [simp]: "same_heap E h h"
  by (simp add: same_heap_def)

lemma same_heap_trans: "same_heap E h h' \<Longrightarrow> same_heap E h' h'' \<Longrightarrow> same_heap E h h''"
  unfolding same_heap_def by (metis same_repo_trans)

lemma same_heap_update: "same_repo E (h ! i) r \<Longrightarrow> same_heap E h (h[i := r])"
  unfolding same_heap_def by (metis length_list_update nth_list_update_eq nth_list_update_neq same_repo_refl)

definition same_shape :: "'u git_env \<Rightarrow> 'u repo_service \<Rightarrow> 'u repo_service \<Rightarrow> bool" where
  "same_shape E s s' \<longleftrightarrow> same_heap E (rs_repos s) (rs_repos s') \<and>
     rs_workspaceToRepositories s' = rs_workspaceToRepositories s \<and> rs_jobs s' = rs_jobs s \<and>
     rs_paused s' = rs_paused s"

lemma same_shape_refl [simp]: "same_shape E s s"
  by (simp add: same_shape_def)

lemma same_shape_trans: "same_shape E s s' \<Longrightarrow> same_shape E s' s'' \<Longrightarrow> same_shape E s s''"
  unfolding same_shape_def by (metis same_heap_trans)

lemma same_shape_update:
  "same_repo E (rs_repos s ! i) r \<Longrightarrow> same_shape E s (s\<lparr>rs_repos := (rs_repos s)[i := r]\<rparr>)"
  by (simp add: same_shape_def same_heap_update)

lemma same_shape_modify: "same_repo E (rs_repos s ! i) (f (rs_repos s ! i)) \<Longrightarrow> same_shape E s (modify_repo i f s)"
  unfolding modify_repo_def by (rule same_shape_update)

lemma same_shape_queue: "same_shape E s (fst (queueSetWorkspaceRepositories folder files s))"
  by (simp add: same_shape_def queueSetWorkspaceRepositories_def Let_def split: option.splits)

lemma same_shape_change: "same_shape E s (fst (handleWorkspaceFolderStateChange E folder s))"
  by (simp add: handleWorkspaceFolderStateChange_def same_shape_queue split: sum.splits)

lemma same_shape_changed: "handleWorkspaceFolderStateChange E folder s = (s', ws) \<Longrightarrow> same_shape E s s'"
  using same_shape_change [of E s folder] by simp

lemma same_shape_add_file: "add_file E u i s = Some s' \<Longrightarrow> same_shape E s s'"
  by (auto simp: add_file_def intro: same_shape_update same_add_files simp del: add_files.simps)

lemma same_shape_delete: "same_shape E s (fst (deleteFilesForDirectory E d i folder s))"
proof -
  obtain fs r where r: "removeFilesUnderDirectory E d (rs_repos s ! i) = (fs, r)" by fastforce
  with same_removeFiles have "same_repo E (rs_repos s ! i) r" by (metis snd_conv)
  then have "same_shape E s (s\<lparr>rs_repos := (rs_repos s)[i := r]\<rparr>)" by (rule same_shape_update)
  with r show ?thesis
    by (auto simp: deleteFilesForDirectory_def Let_def intro: same_shape_trans [OF _ same_shape_change])
qed

lemma same_shape_effect: "file_change_effect E u c i folder s = Some (s', ws) \<Longrightarrow> same_shape E s s'"
  using same_shape_delete [of E s u i folder]
  by (auto simp: file_change_effect_def
      intro: same_shape_add_file same_shape_modify same_removeFile split: file_change.splits sum.splits bool.splits if_splits)

lemma same_shape_handle:
  assumes "handleWorkspaceFileUpdate E folder ev s = Some (s', ws)"
  shows "same_shape E s s'"
proof -
  have refresh: "same_shape E s (modify_repo i refreshTrackedFiles s)" for i
    by (rule same_shape_modify) (rule same_refresh)
  show ?thesis
    using assms
    by (auto simp: handleWorkspaceFileUpdate_def Let_def refresh
        intro: same_shape_changed same_shape_trans [OF refresh same_shape_changed] same_shape_effect
          same_shape_trans [OF refresh same_shape_effect]
        split: if_splits sum.splits option.splits)
qed

lemma same_shape_work: "do_work E folder w s = Some (s', ws) \<Longrightarrow> same_shape E s s'"
  by (auto simp: do_work_def same_shape_handle intro!: same_shape_update same_setDirectory
      split: file_work.splits sum.splits option.splits)

subsection \<open>The invariant\<close>

text \<open>The matcher and the map of a folder hold the same repositories, each under its own identifier.\<close>

definition repo_at :: "'u git_env \<Rightarrow> 'u repository list \<Rightarrow> string \<Rightarrow> string \<Rightarrow> nat \<Rightarrow> bool" where
  "repo_at E h folderUri k i \<longleftrightarrow>
     i < length h \<and> uri_str E (re_uri (h ! i)) = k \<and> wf_uri (re_workspaceFolder (h ! i)) = folderUri"

definition entry_ok :: "'u git_env \<Rightarrow> 'u repository list \<Rightarrow> string \<Rightarrow> ws_entry \<Rightarrow> bool" where
  "entry_ok E h folderUri e \<longleftrightarrow>
     (\<exists>ds. fdm_addAll (ge_uri E) ds fdm_new = Inr (we_fastDirectoryMatcher e) \<and>
        set (map_keys (we_repositories e)) = uri_str E ` set ds) \<and>
     (\<forall>(k, i) \<in> set (we_repositories e). repo_at E h folderUri k i)"

definition job_ok :: "'u repository list \<Rightarrow> 'u set_job \<Rightarrow> bool" where
  "job_ok h job \<longleftrightarrow> (\<forall>(i, files) \<in> set (sj_todo job). i < length h)"

definition rs_ok :: "'u git_env \<Rightarrow> 'u repo_service \<Rightarrow> bool" where
  "rs_ok E s \<longleftrightarrow>
     (\<forall>(folderUri, e) \<in> set (rs_workspaceToRepositories s). entry_ok E (rs_repos s) folderUri e) \<and>
     (\<forall>job \<in> set (rs_jobs s). job_ok (rs_repos s) job) \<and> (\<forall>r \<in> set (rs_repos s). repo_ok E r)"

lemma rs_ok_fields [simp]:
  "rs_ok E (s\<lparr>rs_handling := h\<rparr>) = rs_ok E s" "rs_ok E (s\<lparr>rs_fileChangeQueue := c\<rparr>) = rs_ok E s"
  "rs_ok E (rebuild_settled q failed s) = rs_ok E s"
  by (simp_all add: rs_ok_def rebuild_settled_def)

lemma repo_at_same: "same_heap E h h' \<Longrightarrow> repo_at E h w k i \<Longrightarrow> repo_at E h' w k i"
  by (auto simp: same_heap_def repo_at_def same_repo_def)

lemma repo_at_append: "repo_at E h w k i \<Longrightarrow> repo_at E (h @ [r]) w k i"
  by (auto simp: repo_at_def nth_append)

lemma entry_ok_mono:
  "(\<And>k i. repo_at E h w k i \<Longrightarrow> repo_at E h' w k i) \<Longrightarrow> entry_ok E h w e \<Longrightarrow> entry_ok E h' w e"
  by (auto simp: entry_ok_def)

lemma rs_ok_same:
  assumes "same_shape E s s'" and "rs_ok E s"
  shows "rs_ok E s'"
proof -
  have h: "same_heap E (rs_repos s) (rs_repos s')" and eqs: "rs_workspaceToRepositories s' = rs_workspaceToRepositories s"
      "rs_jobs s' = rs_jobs s"
    using assms(1) by (simp_all add: same_shape_def)
  have "entry_ok E (rs_repos s') w e" if "entry_ok E (rs_repos s) w e" for w e
    using entry_ok_mono [OF repo_at_same [OF h] that] .
  moreover have "\<forall>r \<in> set (rs_repos s'). repo_ok E r"
    using h assms(2) by (auto simp: rs_ok_def same_heap_def same_repo_def all_set_conv_all_nth)
  moreover have "job_ok (rs_repos s') job" if "job_ok (rs_repos s) job" for job
    using that h by (auto simp: job_ok_def same_heap_def)
  ultimately show ?thesis using assms(2) by (auto simp: rs_ok_def eqs)
qed

lemma fdm_addAll_snoc:
  "fdm_addAll U ds root = Inr r \<Longrightarrow> addDirectoryToMatch U d r = Inr r' \<Longrightarrow> fdm_addAll U (ds @ [d]) root = Inr r'"
  by (induction ds arbitrary: root) (auto split: sum.splits)

lemma delete_keys: "x \<in> set (map_delete k m) \<Longrightarrow> x \<in> set m"
  by (simp add: AList.delete_eq)

lemma clear_eq:
  "clearRepositoriesForWorkspace folderUri s =
     s\<lparr>rs_workspaceToRepositories := map_delete folderUri (rs_workspaceToRepositories s)\<rparr>"
proof -
  have "map_delete folderUri (map_delete folderUri m) = map_delete folderUri m" for m :: "(string, ws_entry) jsmap"
    by (simp add: AList.delete_eq)
  moreover have "getRepositoriesForWorkspace
      (s\<lparr>rs_workspaceToRepositories := map_delete folderUri (rs_workspaceToRepositories s)\<rparr>) folderUri = []"
    by (simp add: getRepositoriesForWorkspace_def)
  ultimately show ?thesis by (simp add: clearRepositoriesForWorkspace_def Let_def)
qed

lemma rs_ok_clear: "rs_ok E s \<Longrightarrow> rs_ok E (clearRepositoriesForWorkspace w s)"
  unfolding clear_eq by (auto simp: rs_ok_def dest!: delete_keys)

lemma entry_of:
  assumes "rs_ok E s"
  shows "\<exists>ds. fdm_addAll (ge_uri E) ds fdm_new = Inr (getDirectoryMatcherForWorkspace s w) \<and>
    set (map_keys (getRepositoriesForWorkspace s w)) = uri_str E ` set ds \<and>
    (\<forall>(k, i) \<in> set (getRepositoriesForWorkspace s w). repo_at E (rs_repos s) w k i)"
proof (cases "map_get (rs_workspaceToRepositories s) w")
  case None
  then show ?thesis
    by (auto simp: getDirectoryMatcherForWorkspace_def getRepositoriesForWorkspace_def intro: exI [of _ "[]"])
next
  case (Some e)
  then have "(w, e) \<in> set (rs_workspaceToRepositories s)" by (rule map_of_SomeD)
  with assms have "entry_ok E (rs_repos s) w e" by (auto simp: rs_ok_def)
  with Some show ?thesis
    by (simp add: entry_ok_def getDirectoryMatcherForWorkspace_def getRepositoriesForWorkspace_def)
qed

lemma rs_ok_add:
  assumes "rs_ok E s" and "addRepositoryToWorkspace E folder r s = Inr s'" and "repo_ok E r"
    and "re_workspaceFolder r = folder"
  shows "rs_ok E s'"
proof -
  let ?w = "wf_uri folder"
  let ?m = "getRepositoriesForWorkspace s ?w"
  obtain ds where ds: "fdm_addAll (ge_uri E) ds fdm_new = Inr (getDirectoryMatcherForWorkspace s ?w)"
      "set (map_keys ?m) = uri_str E ` set ds" "\<forall>(k, i) \<in> set ?m. repo_at E (rs_repos s) ?w k i"
    using entry_of [OF assms(1)] by blast
  obtain t where t: "addDirectoryToMatch (ge_uri E) (re_uri r) (getDirectoryMatcherForWorkspace s ?w) = Inr t"
    using assms(2) by (cases "addDirectoryToMatch (ge_uri E) (re_uri r) (getDirectoryMatcherForWorkspace s ?w)")
      (auto simp: addRepositoryToWorkspace_def)
  define e where "e = \<lparr>we_fastDirectoryMatcher = t,
    we_repositories = map_set (uri_str E (re_uri r)) (length (rs_repos s)) ?m\<rparr>"
  have s': "s' = s\<lparr>rs_repos := rs_repos s @ [r], rs_workspaceToRepositories := map_set ?w e (rs_workspaceToRepositories s)\<rparr>"
    using assms(2) t by (simp add: addRepositoryToWorkspace_def e_def)
  have "set (map_keys (we_repositories e)) = uri_str E ` set (ds @ [re_uri r])"
    using ds(2) by (auto simp: e_def update_keys)
  moreover have "fdm_addAll (ge_uri E) (ds @ [re_uri r]) fdm_new = Inr (we_fastDirectoryMatcher e)"
    using fdm_addAll_snoc [OF ds(1) t] by (simp add: e_def)
  moreover have "repo_at E (rs_repos s @ [r]) ?w k i" if "(k, i) \<in> set (we_repositories e)" for k i
    using that ds(3) assms(4) unfolding e_def ws_entry.simps
    by (auto dest!: set_update_iff intro: repo_at_append) (simp add: repo_at_def)
  ultimately have "entry_ok E (rs_repos s @ [r]) ?w e" unfolding entry_ok_def by blast
  moreover have "entry_ok E (rs_repos s @ [r]) w e'" if "(w, e') \<in> set (rs_workspaceToRepositories s)" for w e'
    using assms(1) that by (auto simp: rs_ok_def intro: entry_ok_mono [OF repo_at_append])
  moreover have "job_ok (rs_repos s @ [r]) job" if "job \<in> set (rs_jobs s)" for job
    using assms(1) that by (fastforce simp: rs_ok_def job_ok_def)
  ultimately show ?thesis
    using assms(1,3) unfolding s' rs_ok_def by (auto dest!: set_update_iff)
qed

lemma rs_ok_add_repositories:
  "rs_ok E s \<Longrightarrow> \<forall>r \<in> set rs. repo_ok E r \<and> re_workspaceFolder r = folder \<Longrightarrow>
   rs_ok E (snd (add_repositories E folder rs s))"
proof (induction rs arbitrary: s)
  case (Cons r rs)
  show ?case
  proof (cases "addRepositoryToWorkspace E folder r s")
    case (Inr s1)
    with rs_ok_add [OF Cons.prems(1) Inr] Cons.prems(2) Cons.IH show ?thesis by simp
  qed (use Cons.prems in simp)
qed simp

lemma rs_ok_begin:
  assumes "rs_ok E s"
  shows "rs_ok E (rs_begin E q folder files s)"
proof -
  let ?s1 = "clearRepositoriesForWorkspace (wf_uri folder) (s\<lparr>rs_paused := True\<rparr>)"
  obtain err s2 where s2: "add_repositories E folder (detectRepositories E files folder) ?s1 = (err, s2)"
    by fastforce
  have "rs_ok E ?s1" using assms by (intro rs_ok_clear) (simp add: rs_ok_def)
  moreover have "\<forall>r \<in> set (detectRepositories E files folder). repo_ok E r \<and> re_workspaceFolder r = folder"
    by (auto simp: detectRepositories_def repo_ok_new) (simp add: re_new_def)
  ultimately have ok2: "rs_ok E s2"
    using rs_ok_add_repositories s2 by (metis snd_conv)
  have "job_ok (rs_repos s2) \<lparr>sj_queue = q, sj_folder = folder,
      sj_todo = todo_of (getRepositoriesForWorkspace s2 (wf_uri folder)) fs, sj_failed = False\<rparr>" for fs
  proof -
    have "i < length (rs_repos s2)" if "map_get (getRepositoriesForWorkspace s2 (wf_uri folder)) k = Some i" for k i
      using entry_of [OF ok2, of "wf_uri folder"] map_of_SomeD [OF that] by (auto simp: repo_at_def)
    then show ?thesis
      by (auto simp: job_ok_def todo_of_def List.map_filter_def)
  qed
  with ok2 show ?thesis
    by (auto simp: rs_begin_def s2 Let_def split: option.splits sum.splits) (simp add: rs_ok_def)
qed

lemma rs_ok_setup:
  assumes "rs_ok E s" and "n < length (rs_jobs s)" and "k < length (sj_todo (rs_jobs s ! n))"
    and "rs_setup E n k s = Some s'"
  shows "rs_ok E s'"
proof -
  let ?t = "take k (sj_todo (rs_jobs s ! n)) @ drop (Suc k) (sj_todo (rs_jobs s ! n))"
  obtain i files where i: "sj_todo (rs_jobs s ! n) ! k = (i, files)" by fastforce
  with assms(4) obtain err r where r: "setup_and_add E files (rs_repos s ! i) = Some (err, r)"
      and s': "rs_ok E s' = rs_ok E (s\<lparr>rs_repos := (rs_repos s)[i := r],
           rs_jobs := (rs_jobs s)[n := (rs_jobs s ! n)\<lparr>sj_todo := ?t, sj_failed := sj_failed (rs_jobs s ! n) \<or> err \<noteq> None\<rparr>]\<rparr>)"
    by (auto simp: rs_setup_def Let_def)
  have ok: "rs_ok E (s\<lparr>rs_repos := (rs_repos s)[i := r]\<rparr>)"
    by (rule rs_ok_same [OF same_shape_update [OF same_setup_and_add [OF r]] assms(1)])
  have "job_ok (rs_repos s) (rs_jobs s ! n)" using assms(1,2) by (simp add: rs_ok_def)
  then have "job_ok ((rs_repos s)[i := r])
      ((rs_jobs s ! n)\<lparr>sj_todo := ?t, sj_failed := sj_failed (rs_jobs s ! n) \<or> err \<noteq> None\<rparr>)"
    by (auto simp: job_ok_def dest: in_set_takeD in_set_dropD)
  with ok have "rs_ok E (s\<lparr>rs_repos := (rs_repos s)[i := r],
      rs_jobs := (rs_jobs s)[n := (rs_jobs s ! n)\<lparr>sj_todo := ?t, sj_failed := sj_failed (rs_jobs s ! n) \<or> err \<noteq> None\<rparr>]\<rparr>)"
    unfolding rs_ok_def by (auto dest!: subsetD [OF set_update_subset_insert])
  then show ?thesis by (simp only: s')
qed

lemma rs_ok_end: "rs_ok E s \<Longrightarrow> rs_ok E (rs_end n s)"
  by (simp add: rs_end_def Let_def)
     (auto simp: rs_ok_def triggerWorkspaceRepositoriesSet_def dest: in_set_takeD in_set_dropD)

text \<open>A handler changes the state only by its entries.\<close>

lemma handler_workE:
  assumes "handler_work E k s = Some s'"
  obtains folder ws added s1 where "rs_handling s = Some (folder, ws)" "k < length ws" "\<not> is_rebuild (ws ! k)"
    "do_work E folder (ws ! k) s = Some (s1, added)"
    "s' = s1\<lparr>rs_handling := Some (folder, take k ws @ added @ drop (Suc k) ws)\<rparr>"
  using assms unfolding handler_work_def by (auto split: option.splits if_splits)

lemma handler_endE:
  assumes "handler_end s = Some s'"
  obtains folder where "rs_handling s = Some (folder, [])" "s' = s\<lparr>rs_handling := None\<rparr>"
  using assms unfolding handler_end_def by (auto split: option.splits list.splits)

lemma take_eventE:
  assumes "take_event s = Some s'"
  obtains ev folder rest where "rs_fileChangeQueue s = (ev, folder) # rest" "\<not> rs_paused s" "rs_handling s = None"
    "s' = s\<lparr>rs_fileChangeQueue := rest, rs_handling := Some (folder, [Work_event ev])\<rparr>"
  using assms unfolding take_event_def by (auto split: list.splits if_splits)

lemma rs_ok_work: "rs_ok E s \<Longrightarrow> handler_work E k s = Some s' \<Longrightarrow> rs_ok E s'"
  by (erule handler_workE) (simp add: rs_ok_same [OF same_shape_work])

lemma rs_ok_own: "rs_own E s s' \<Longrightarrow> rs_ok E s \<Longrightarrow> rs_ok E s'"
proof (induction rule: rs_own.induct)
  case (rs_own_start s ws1 q folder files ws2)
  then show ?case by (intro rs_ok_begin) (simp add: rs_ok_def)
next
  case (rs_own_setup n s k s')
  then show ?case by (blast intro: rs_ok_setup)
next
  case (rs_own_end n s)
  then show ?case by (simp add: rs_ok_end)
next
  case (rs_own_work k s s')
  then show ?case by (blast intro: rs_ok_work)
next
  case (rs_own_handled s s')
  then show ?case by (auto elim: handler_endE)
qed

lemma rs_ok_step: "rs_step E s s' \<Longrightarrow> rs_ok E s \<Longrightarrow> rs_ok E s'"
proof (induction rule: rs_step.induct)
  case (rs_step_files s folder files)
  then show ?case
    unfolding onWorkspaceFilesEvent_def by (rule rs_ok_same [OF same_shape_queue])
next
  case (rs_step_file s ev folder)
  then show ?case by (simp add: onWorkspaceFileEvent_def)
next
  case (rs_step_listen s l)
  then show ?case by (simp add: onWorkspaceRepositoriesSet_def rs_ok_def)
next
  case (rs_step_unlisten s l)
  then show ?case by (simp add: onWorkspaceRepositoriesSet_dispose_def rs_ok_def)
next
  case (rs_step_own s s')
  then show ?case by (blast intro: rs_ok_own)
next
  case (rs_step_take s s')
  then show ?case by (auto elim: take_eventE)
next
  case (rs_step_refresh i s r)
  then show ?case using rs_ok_same same_shape_update same_refreshImpl by blast
qed

lemma rs_ok_reach: "rs_reach E s \<Longrightarrow> rs_ok E s"
  by (induction rule: rs_reach.induct) (auto simp: rs_ok_step, simp add: rs_ok_def rs_new_def)

subsection \<open>The repository of a file\<close>

lemma map_filter_snoc:
  "List.map_filter f (xs @ [x]) = List.map_filter f xs @ (case f x of None \<Rightarrow> [] | Some y \<Rightarrow> [y])"
  by (simp add: List.map_filter_def split: option.splits)

lemma last_map_filter:
  "List.map_filter f xs \<noteq> [] \<Longrightarrow>
   \<exists>ys q zs. xs = ys @ q # zs \<and> f q = Some (last (List.map_filter f xs)) \<and> (\<forall>z \<in> set zs. f z = None)"
proof (induction xs rule: rev_induct)
  case Nil
  then show ?case by (simp add: List.map_filter_def)
next
  case (snoc x xs)
  show ?case
  proof (cases "f x")
    case None
    then have eq: "List.map_filter f (xs @ [x]) = List.map_filter f xs" by (simp add: map_filter_snoc)
    with snoc obtain ys q zs where "xs = ys @ q # zs" "f q = Some (last (List.map_filter f xs))" "\<forall>z \<in> set zs. f z = None"
      by auto
    with None eq have "xs @ [x] = ys @ q # (zs @ [x])" "f q = Some (last (List.map_filter f (xs @ [x])))"
        "\<forall>z \<in> set (zs @ [x]). f z = None"
      by auto
    then show ?thesis by blast
  next
    case (Some y)
    then have "f x = Some (last (List.map_filter f (xs @ [x])))" by (simp add: map_filter_snoc)
    moreover have "xs @ [x] = xs @ x # []" "\<forall>z \<in> set []. f z = None" by simp_all
    ultimately show ?thesis by blast
  qed
qed

lemma map_filter_Nil: "List.map_filter f xs = [] \<longleftrightarrow> (\<forall>x \<in> set xs. f x = None)"
  by (auto simp: List.map_filter_def filter_empty_conv)

lemma sorted_prefixes: "sorted_wrt (\<lambda>a b. length a \<le> length b) (prefixes xs)"
  by (induction xs) (auto simp: sorted_wrt_map)

lemma set_tl_prefixes: "set (tl (prefixes xs)) = {q. prefix q xs \<and> q \<noteq> []}"
proof -
  obtain ps where ps: "prefixes xs = [] # ps" by (cases xs) simp_all
  moreover have "distinct (prefixes xs)" by (rule distinct_prefixes)
  moreover have "set (prefixes xs) = {q. prefix q xs}" by (simp add: set_prefixes_eq)
  ultimately show ?thesis by auto
qed

lemma last_added_None: "last_added U ds q = None \<longleftrightarrow> (\<forall>d \<in> set ds. splitPath (ua_toString U d) \<noteq> Inr q)"
  by (auto simp: last_added_def find_None_iff)

lemma find_SomeD: "List.find P xs = Some d \<Longrightarrow> d \<in> set xs \<and> P d"
  by (induction xs) (auto split: if_splits)

lemma last_added_Some: "last_added U ds q = Some d \<Longrightarrow> d \<in> set ds \<and> splitPath (ua_toString U d) = Inr q"
  unfolding last_added_def using find_SomeD by fastforce

definition below :: "string \<Rightarrow> text16 list \<Rightarrow> text16 list \<Rightarrow> bool" where
  "below k qs ps \<longleftrightarrow> splitPath k = Inr qs \<and> qs \<noteq> [] \<and> prefix qs ps"

text \<open>The repository of a file is one its path lies in, and the deepest of those; it is none only when the path
  lies in none.\<close>

lemma deepest_repository:
  assumes "rs_ok E s" and "uri_ok (ge_uri E)" and "splitPath (uri_str E u) = Inr ps"
  shows "\<exists>x. getMatchingRepository E s u w = Inr x \<and>
    (case x of
       None \<Rightarrow> \<forall>(k, j) \<in> set (getRepositoriesForWorkspace s w). \<forall>qs. \<not> below k qs ps
     | Some i \<Rightarrow> \<exists>qs. below (uri_str E (re_uri (rs_repos s ! i))) qs ps \<and> i < length (rs_repos s) \<and>
         (\<forall>(k, j) \<in> set (getRepositoriesForWorkspace s w). \<forall>qs'. below k qs' ps \<longrightarrow> length qs' \<le> length qs))"
proof -
  let ?m = "getRepositoriesForWorkspace s w"
  obtain ds where ds: "fdm_addAll (ge_uri E) ds fdm_new = Inr (getDirectoryMatcherForWorkspace s w)"
      "set (map_keys ?m) = uri_str E ` set ds" "\<forall>(k, i) \<in> set ?m. repo_at E (rs_repos s) w k i"
    using entry_of [OF assms(1)] by blast
  let ?f = "last_added (ge_uri E) ds"
  let ?L = "List.map_filter ?f (tl (prefixes ps))"
  have found: "findMatchingDirectories (ge_uri E) u (getDirectoryMatcherForWorkspace s w) =
      Inr (map (\<lambda>d. ua_parse (ge_uri E) (uri_str E d)) ?L)"
    by (rule findMatchingDirectories_added [OF assms(2) ds(1) assms(3)])
  have key: "\<exists>d \<in> set ds. uri_str E d = k" if "(k, j) \<in> set ?m" for k j
  proof -
    from that have "k \<in> set (map_keys ?m)" by force
    with ds(2) show ?thesis by auto
  qed
  show ?thesis
  proof (cases "?L = []")
    case True
    then have none: "\<And>q. prefix q ps \<Longrightarrow> q \<noteq> [] \<Longrightarrow> ?f q = None"
      by (simp add: map_filter_Nil set_tl_prefixes)
    have "\<not> below k qs ps" if kj: "(k, j) \<in> set ?m" for k j qs
    proof
      assume b: "below k qs ps"
      obtain d where "d \<in> set ds" "uri_str E d = k" using key [OF kj] by blast
      with b none [of qs] show False by (auto simp: below_def last_added_None)
    qed
    with found True show ?thesis
      by (auto simp: getMatchingRepository_def getRepositoryUriForFile_def)
  next
    case False
    obtain ys q zs where q: "tl (prefixes ps) = ys @ q # zs" "?f q = Some (last ?L)" "\<forall>z \<in> set zs. ?f z = None"
      using last_map_filter [OF False] by blast
    from last_added_Some [OF q(2)] have d: "last ?L \<in> set ds" "splitPath (uri_str E (last ?L)) = Inr q" by simp_all
    have "uri_str E (last ?L) \<in> set (map_keys ?m)" using d(1) ds(2) by simp
    then obtain i where i: "map_get ?m (uri_str E (last ?L)) = Some i"
      by (metis map_get_None_keys not_None_eq)
    with ds(3) have at: "repo_at E (rs_repos s) w (uri_str E (last ?L)) i" by (auto dest: map_of_SomeD)
    have "getMatchingRepository E s u w = Inr (Some i)"
      using found False i uri_okD(1) [OF assms(2)]
      by (simp add: getMatchingRepository_def getRepositoryUriForFile_def last_map)
    moreover have "below (uri_str E (re_uri (rs_repos s ! i))) q ps"
      using at d(2) q(1) set_tl_prefixes [of ps] by (auto simp: repo_at_def below_def)
    moreover have "length qs' \<le> length q" if kj: "(k, j) \<in> set ?m" and b: "below k qs' ps" for k j qs'
    proof -
      obtain d' where "d' \<in> set ds" "uri_str E d' = k" using key [OF kj] by blast
      with b have "?f qs' \<noteq> None" by (auto simp: below_def last_added_None)
      moreover have "qs' \<in> set (tl (prefixes ps))" using b by (simp add: below_def set_tl_prefixes)
      ultimately have "qs' \<in> set ys \<or> qs' = q" using q(1,3) by auto
      moreover have "sorted_wrt (\<lambda>a b. length a \<le> length b) (ys @ q # zs)"
        using sorted_prefixes [of ps] unfolding q(1) [symmetric] by (cases "prefixes ps") simp_all
      ultimately show ?thesis by (auto simp: sorted_wrt_append)
    qed
    ultimately show ?thesis using at by (auto simp: repo_at_def)
  qed
qed

subsection \<open>Handling a file event ends\<close>



definition plain_work :: "'u git_env \<Rightarrow> 'u file_work \<Rightarrow> bool" where
  "plain_work E w \<longleftrightarrow>
     (case w of
        Work_event ev \<Rightarrow> ge_isDirectory E (ua_fsPath (ge_uri E) (parseURIString (ge_uri E) (fe_uri ev))) = Inr False
      | _ \<Rightarrow> True)"













text \<open>A measure of what is left: the events that may expand, the other entries, the rebuilds that wait, what they have
  to set up, and the handler itself.\<close>

definition left_in :: "('u file_work \<Rightarrow> bool) \<Rightarrow> 'u repo_service \<Rightarrow> nat" where
  "left_in P s = (case rs_handling s of None \<Rightarrow> 0 | Some (folder, ws) \<Rightarrow> length (filter P ws))"

definition own_size :: "'u git_env \<Rightarrow> 'u repo_service \<Rightarrow> nat \<times> nat \<times> nat \<times> nat \<times> nat" where
  "own_size E s =
     (left_in (\<lambda>w. \<not> plain_work E w) s, left_in (\<lambda>w. \<not> is_rebuild w) s, length (rs_waiting s),
      (\<Sum>job \<leftarrow> rs_jobs s. Suc (length (sj_todo job))), if rs_handling s = None then 0 else 1)"





lemma settled_fields [simp]:
  "rs_waiting (rebuild_settled q failed s) = rs_waiting s" "rs_jobs (rebuild_settled q failed s) = rs_jobs s"
  "rs_repos (rebuild_settled q failed s) = rs_repos s"
  "rs_handling (rebuild_settled q failed s) = None \<longleftrightarrow> rs_handling s = None"
  "queue_count q' (rebuild_settled q failed s) = queue_count q' s"
  by (simp_all add: rebuild_settled_def queue_count_def)




































lemma end_repos [simp]: "rs_repos (rs_end n s) = rs_repos s"
  by (simp add: rs_end_def triggerWorkspaceRepositoriesSet_def Let_def)





lemma own_size_handling:
  "rs_handling s' = rs_handling s \<Longrightarrow>
   fst (own_size E s') = fst (own_size E s) \<and> fst (snd (own_size E s')) = fst (snd (own_size E s))"
  by (simp add: own_size_def left_in_def)









subsection \<open>Properties\<close>

text \<open>C8: Whatever has happened to the workspaces, the repository a file belongs to is one its path lies in and the
  deepest of those, and a file belongs to none only if its path lies in no repository of the folder.\<close>

theorem deepest_repository_owns:
  assumes "rs_reach E s" and "uri_ok (ge_uri E)" and "splitPath (uri_str E u) = Inr ps"
  shows "\<exists>x. getMatchingRepository E s u w = Inr x \<and>
    (case x of
       None \<Rightarrow> \<forall>(k, j) \<in> set (getRepositoriesForWorkspace s w). \<forall>qs. \<not> below k qs ps
     | Some i \<Rightarrow> \<exists>qs. below (uri_str E (re_uri (rs_repos s ! i))) qs ps \<and> i < length (rs_repos s) \<and>
         (\<forall>(k, j) \<in> set (getRepositoriesForWorkspace s w). \<forall>qs'. below k qs' ps \<longrightarrow> length qs' \<le> length qs))"
  by (rule deepest_repository [OF rs_ok_reach [OF assms(1)] assms(2,3)])


text \<open>Clearing a workspace disposes none of its repositories: its entry is deleted before the repositories are
  looked up, so that the loop over them runs over an empty map.\<close>

theorem clearing_disposes_nothing:
  "rs_repos (clearRepositoriesForWorkspace w s) = rs_repos s \<and>
   getRepositoriesForWorkspace (clearRepositoriesForWorkspace w s) w = []"
  unfolding clear_eq by (simp add: getRepositoriesForWorkspace_def)

lemma rs_reach_files: "rs_reach E s \<Longrightarrow> rs_reach E (onWorkspaceFilesEvent folder files s)"
  by (rule rs_reach_step [OF _ rs_step_files])

text \<open>The rebuilds of one folder are not one after the other: its queue is remembered only when the first has
  ended, so two can run at once; and file events may be handled during a rebuild, as the end of any rebuild lifts the
  pause of all.\<close>

theorem rebuilds_overlap:
  "(\<exists>s j1 j2. rs_reach E s \<and> rs_jobs s = [j1, j2] \<and> sj_folder j1 = sj_folder j2 \<and> \<not> sj_failed j1 \<and> \<not> sj_failed j2) \<and>
   (\<exists>s. rs_reach E s \<and> rs_jobs s \<noteq> [] \<and> \<not> rs_paused s)"
proof -
  fix folder
  let ?b = "\<lambda>q s. rs_begin E q folder [] s"
  have begin_eq: "rs_begin E q folder [] s =
      s\<lparr>rs_paused := True, rs_workspaceToRepositories := map_delete (wf_uri folder) (rs_workspaceToRepositories s),
        rs_jobs := rs_jobs s @ [\<lparr>sj_queue = q, sj_folder = folder, sj_todo = [], sj_failed = False\<rparr>]\<rparr>" for q s
    by (simp add: rs_begin_def clear_eq detectRepositories_def todo_of_def List.map_filter_def)
  define s1 where "s1 = onWorkspaceFilesEvent folder [] (rs_new :: 'a repo_service)"
  define s2 where "s2 = onWorkspaceFilesEvent folder [] s1"
  define s3 where "s3 = rs_begin E 0 folder [] (s2\<lparr>rs_waiting := [] @ [(1, folder, [])]\<rparr>)"
  define s4 where "s4 = rs_begin E 1 folder [] (s3\<lparr>rs_waiting := [] @ []\<rparr>)"
  have w2: "rs_waiting s2 = [] @ (0, folder, []) # [(1, folder, [])]" "rs_jobs s2 = []"
    by (simp_all add: s1_def s2_def onWorkspaceFilesEvent_def queueSetWorkspaceRepositories_def Let_def rs_new_def)
  have w3: "rs_waiting s3 = [] @ (1, folder, []) # []"
      "rs_jobs s3 = [\<lparr>sj_queue = 0, sj_folder = folder, sj_todo = [], sj_failed = False\<rparr>]"
    using w2 by (simp_all add: s3_def begin_eq)
  have w4: "rs_jobs s4 = [\<lparr>sj_queue = 0, sj_folder = folder, sj_todo = [], sj_failed = False\<rparr>,
      \<lparr>sj_queue = 1, sj_folder = folder, sj_todo = [], sj_failed = False\<rparr>]"
    using w3 by (simp add: s4_def begin_eq)
  have "rs_reach E s2"
    unfolding s2_def s1_def by (rule rs_reach_files, rule rs_reach_files, rule rs_reach_new)
  then have "rs_reach E s3"
    unfolding s3_def by (rule rs_reach_step) (rule rs_step_own, rule rs_own_start [OF w2(1)], simp_all add: w2)
  then have r4: "rs_reach E s4"
    unfolding s4_def by (rule rs_reach_step) (rule rs_step_own, rule rs_own_start [OF w3(1)], simp_all add: w3)
  then have "rs_reach E (rs_end 0 s4)"
    by (rule rs_reach_step) (rule rs_step_own, rule rs_own_end, simp_all add: w4)
  moreover have "rs_jobs (rs_end 0 s4) \<noteq> []" "\<not> rs_paused (rs_end 0 s4)"
    by (simp_all add: rs_end_def rebuild_settled_def triggerWorkspaceRepositoriesSet_def Let_def w4)
  ultimately show ?thesis using r4 w4 by fastforce
qed

definition demo_built :: "string repo_service" where
  "demo_built = rs_begin demo_git 0 demo_folder [''/h/p/.git/config'']
     ((onWorkspaceFilesEvent demo_folder [''/h/p/.git/config''] rs_new)\<lparr>rs_waiting := [] @ []\<rparr>)"





lemma demo_built_reach: "rs_reach demo_git demo_built"
proof -
  let ?s = "onWorkspaceFilesEvent demo_folder [''/h/p/.git/config''] (rs_new :: string repo_service)"
  have "rs_reach demo_git ?s" by (rule rs_reach_files, rule rs_reach_new)
  then show ?thesis
    unfolding demo_built_def
    by (rule rs_reach_step)
       (rule rs_step_own, rule rs_own_start, simp_all add: onWorkspaceFilesEvent_def queueSetWorkspaceRepositories_def Let_def rs_new_def)
qed

lemma demo_uri_str: "uri_str demo_git u = ''file://'' @ u"
  by (simp add: demo_git_def demo_ignore_env_def file_uris_def)

lemma demo_root: "getRepoRootFromGitConfig demo_git ''/h/p/.git/config'' = ''/h/p''"
  by (simp add: getRepoRootFromGitConfig_def demo_git_def demo_ignore_env_def file_uris_def resolved_parts_def
      is_absolute_def slash_def)

lemma demo_splits:
  "splitPath (''file://'' @ ''/h/p'') = Inr [widen ''file:'', widen ''h'', widen ''p'']"
  "splitPath (''file://'' @ ''/h/p/src/a.ts'') = Inr [widen ''file:'', widen ''h'', widen ''p'', widen ''src'', widen ''a.ts'']"
  using demo_split by (simp_all add: file_uris_def)

lemma rs_begin_maps:
  "add_repositories E folder (detectRepositories E files folder)
     (clearRepositoriesForWorkspace (wf_uri folder) (s\<lparr>rs_paused := True\<rparr>)) = (err, s2) \<Longrightarrow>
   rs_repos (rs_begin E q folder files s) = rs_repos s2 \<and>
   rs_workspaceToRepositories (rs_begin E q folder files s) = rs_workspaceToRepositories s2"
  by (simp add: rs_begin_def rebuild_settled_def split: option.splits sum.splits)

lemma demo_built_repos:
  "re_uri ` set (rs_repos demo_built) = {''/h/p''} \<and> map_keys (getRepositoriesForWorkspace demo_built ''file:///h'') = [''file:///h/p'']"
proof -
  have config: "isGitConfigFile ''file:///h/p/.git/config''"
    by (simp add: isGitConfigFile_def suffix_def)
  let ?s = "rs_new\<lparr>rs_waiting := [], rs_nextQueue := Suc 0, rs_paused := True\<rparr> :: string repo_service"
  have detect: "detectRepositories demo_git [''/h/p/.git/config''] demo_folder =
      [re_new demo_folder ''/h/p'' ''/h/p/.git/config'']"
    using config by (simp add: detectRepositories_def demo_uri_str demo_root)
  obtain t where t: "addDirectoryToMatch (ge_uri demo_git) ''/h/p'' fdm_new = Inr t"
    using demo_splits(1) demo_uri_str [of "''/h/p''"] by (simp add: addDirectoryToMatch_def fdm_addPath_def)
  let ?r = "re_new demo_folder ''/h/p'' ''/h/p/.git/config''"
  define e where "e = \<lparr>we_fastDirectoryMatcher = t, we_repositories = [(''file:///h/p'', 0)]\<rparr>"
  have "add_repositories demo_git demo_folder [?r] ?s =
      (None, ?s\<lparr>rs_repos := [?r], rs_workspaceToRepositories := [(''file:///h'', e)]\<rparr>)"
    using t demo_uri_str [of "''/h/p''"]
    by (simp add: addRepositoryToWorkspace_def getDirectoryMatcherForWorkspace_def getRepositoriesForWorkspace_def
        rs_new_def re_new_def demo_folder_def e_def)
  moreover have "clearRepositoriesForWorkspace (wf_uri demo_folder)
      (onWorkspaceFilesEvent demo_folder [''/h/p/.git/config''] rs_new\<lparr>rs_waiting := [] @ [], rs_paused := True\<rparr>) = ?s"
    by (simp add: clear_eq onWorkspaceFilesEvent_def queueSetWorkspaceRepositories_def Let_def rs_new_def)
  ultimately have "add_repositories demo_git demo_folder (detectRepositories demo_git [''/h/p/.git/config''] demo_folder)
      (clearRepositoriesForWorkspace (wf_uri demo_folder)
        (onWorkspaceFilesEvent demo_folder [''/h/p/.git/config''] rs_new\<lparr>rs_waiting := [] @ [], rs_paused := True\<rparr>)) =
      (None, ?s\<lparr>rs_repos := [?r], rs_workspaceToRepositories := [(''file:///h'', e)]\<rparr>)"
    by (simp only: detect)
  from rs_begin_maps [OF this, of 0]
  have "rs_repos demo_built = [?r]" "rs_workspaceToRepositories demo_built = [(''file:///h'', e)]"
    by (simp_all add: demo_built_def)
  then show ?thesis by (simp add: getRepositoriesForWorkspace_def e_def re_new_def)
qed

lemma key_in_map: "k \<in> set (map_keys m) \<Longrightarrow> \<exists>v. (k, v) \<in> set m"
  by force

theorem deepest_repository_owns_witness:
  "\<exists>i. getMatchingRepository demo_git demo_built ''/h/p/src/a.ts'' ''file:///h'' = Inr (Some i) \<and>
     re_uri (rs_repos demo_built ! i) = ''/h/p''"
proof -
  let ?ps = "[widen ''file:'', widen ''h'', widen ''p'', widen ''src'', widen ''a.ts'']"
  have ok: "uri_ok (ge_uri demo_git)" by (simp add: demo_git_def demo_ignore_env_def file_uris_ok)
  have sp: "splitPath (uri_str demo_git ''/h/p/src/a.ts'') = Inr ?ps"
    unfolding demo_uri_str by (rule demo_splits)
  obtain x where x: "getMatchingRepository demo_git demo_built ''/h/p/src/a.ts'' ''file:///h'' = Inr x"
    and cases: "case x of
       None \<Rightarrow> \<forall>(k, j) \<in> set (getRepositoriesForWorkspace demo_built ''file:///h''). \<forall>qs. \<not> below k qs ?ps
     | Some i \<Rightarrow> \<exists>qs. below (uri_str demo_git (re_uri (rs_repos demo_built ! i))) qs ?ps \<and> i < length (rs_repos demo_built) \<and>
         (\<forall>(k, j) \<in> set (getRepositoriesForWorkspace demo_built ''file:///h''). \<forall>qs'. below k qs' ?ps \<longrightarrow> length qs' \<le> length qs)"
    using deepest_repository_owns [where w = "''file:///h''", OF demo_built_reach ok sp] by (elim exE conjE) (rule that, assumption+)
  have b: "below ''file:///h/p'' [widen ''file:'', widen ''h'', widen ''p''] ?ps"
    using demo_splits(1) by (simp add: below_def)
  have "''file:///h/p'' \<in> set (map_keys (getRepositoriesForWorkspace demo_built ''file:///h''))"
    unfolding demo_built_repos [THEN conjunct2] by (rule list.set_intros)
  then obtain j where j: "(''file:///h/p'', j) \<in> set (getRepositoriesForWorkspace demo_built ''file:///h'')"
    by (rule key_in_map [THEN exE])
  show ?thesis
  proof (cases x)
    case None
    from bspec [OF cases [unfolded None option.case] j] have "\<not> below ''file:///h/p'' [widen ''file:'', widen ''h'', widen ''p''] ?ps"
      unfolding prod.case by (rule spec)
    from this b show ?thesis by (rule notE)
  next
    case (Some i)
    from cases [unfolded Some option.case] have "i < length (rs_repos demo_built)" by (elim exE conjE)
    with demo_built_repos have "re_uri (rs_repos demo_built ! i) = ''/h/p''"
      by (metis (no_types) image_eqI nth_mem singletonD)
    moreover from x Some have "getMatchingRepository demo_git demo_built ''/h/p/src/a.ts'' ''file:///h'' = Inr (Some i)"
      by (simp only:)
    ultimately show ?thesis by (intro exI conjI)
  qed
qed


end
