(* ===== verification/Virtual_File_System.thy ===== *)
theory Virtual_File_System
  imports Uri_Path Node_Runtime
begin

text \<open>
  The virtual file system (\<open>src/common/services/fs/virtual_file_system_service.ts\<close>): which workspace folders have had
  their files listed, the watchers registered with the editor, and the events sent to its listeners.

  Parameters: the directory walker, the order in which walks that run at once end, the registration with the editor
  (\<open>None\<close> when it fails), and the feature flag.
\<close>

datatype vfs_change = Vfs_created | Vfs_changed | Vfs_deleted

datatype 'u vfs_event =
  WorkspaceFileEvent string vfs_change workspace_folder
| WorkspaceFilesEvent "'u list" workspace_folder

text \<open>A watcher is a number; \<open>vf_disposed\<close> are the watchers disposed so far, \<open>vf_calls\<close> the calls of listeners.\<close>

record ('u, 'l) vfs =
  vf_initializedWorkspaceFolders :: "string list"
  vf_watchersDisposables :: "nat list option"
  vf_disposed :: "nat list"
  vf_emitter :: "(unit, 'l) emitter"
  vf_calls :: "('l \<times> 'u vfs_event) list"

definition vf_new :: "('u, 'l) vfs" where
  "vf_new = \<lparr>vf_initializedWorkspaceFolders = [], vf_watchersDisposables = None, vf_disposed = [], vf_emitter = [],
             vf_calls = []\<rparr>"

record 'u vfs_env =
  vfe_uri :: "'u uri_api"
  vfe_findFiles :: "'u \<Rightarrow> 'u list option"
  vfe_walks_end :: "workspace_folder list \<Rightarrow> workspace_folder list"
  vfe_register :: "(nat \<times> nat) option"

definition onFileSystemEvent :: "'l \<Rightarrow> ('u, 'l) vfs \<Rightarrow> ('u, 'l) vfs" where
  "onFileSystemEvent l s = s\<lparr>vf_emitter := em_on () l (vf_emitter s)\<rparr>"

definition onFileSystemEvent_dispose :: "'l \<Rightarrow> ('u, 'l) vfs \<Rightarrow> ('u, 'l) vfs" where
  "onFileSystemEvent_dispose l s = s\<lparr>vf_emitter := em_removeListener () l (vf_emitter s)\<rparr>"

definition emitFileSystemEvent :: "'u vfs_event \<Rightarrow> ('u, 'l) vfs \<Rightarrow> ('u, 'l) vfs" where
  "emitFileSystemEvent ev s = s\<lparr>vf_calls := vf_calls s @ map (\<lambda>l. (l, ev)) (em_listeners () (vf_emitter s))\<rparr>"

definition getMatchingWorkspaceFolders :: "string \<Rightarrow> workspace_folder list \<Rightarrow> workspace_folder list" where
  "getMatchingWorkspaceFolders fileUri workspaceFolders = filter (\<lambda>wf. starts_with fileUri (wf_uri wf)) workspaceFolders"

definition handleFileEvent ::
  "workspace_folder list option \<Rightarrow> string \<Rightarrow> vfs_change \<Rightarrow> ('u, 'l) vfs \<Rightarrow> ('u, 'l) vfs" where
  "handleFileEvent workspaceFolders uri change s =
     fold (\<lambda>folder. emitFileSystemEvent (WorkspaceFileEvent uri change folder))
       (getMatchingWorkspaceFolders uri (case workspaceFolders of None \<Rightarrow> [] | Some ws \<Rightarrow> ws)) s"

definition onDidChangeWatchedFiles ::
  "workspace_folder list option \<Rightarrow> (string \<times> vfs_change) list \<Rightarrow> ('u, 'l) vfs \<Rightarrow> ('u, 'l) vfs" where
  "onDidChangeWatchedFiles workspaceFolders changes s =
     fold (\<lambda>(uri, change). handleFileEvent workspaceFolders uri change) changes s"

definition emitFilesForWorkspace :: "'u vfs_env \<Rightarrow> workspace_folder \<Rightarrow> ('u, 'l) vfs \<Rightarrow> ('u, 'l) vfs" where
  "emitFilesForWorkspace E folder s =
     (case vfe_findFiles E (parseURIString (vfe_uri E) (wf_uri folder)) of
        None \<Rightarrow> s
      | Some files \<Rightarrow> emitFileSystemEvent (WorkspaceFilesEvent files folder) s)"

text \<open>The old watchers are disposed before the new ones are known; when the registration fails they stay recorded.\<close>

definition registerWatchers :: "'u vfs_env \<Rightarrow> ('u, 'l) vfs \<Rightarrow> ('u, 'l) vfs" where
  "registerWatchers E s =
     (let s1 = (case vf_watchersDisposables s of None \<Rightarrow> s | Some ds \<Rightarrow> s\<lparr>vf_disposed := vf_disposed s @ ds\<rparr>)
      in case vfe_register E of
           None \<Rightarrow> s1
         | Some (a, b) \<Rightarrow> s1\<lparr>vf_watchersDisposables := Some [a, b]\<rparr>)"

text \<open>The walks start together and an event is sent when one of them ends.  \<open>setup\<close> up to its first \<open>await\<close> after the flags: the folders whose files are going to be listed.\<close>

definition setup_folders :: "workspace_folder list \<Rightarrow> ('u, 'l) vfs \<Rightarrow> workspace_folder list \<times> ('u, 'l) vfs" where
  "setup_folders workspaceFolders s =
     (let new = filter (\<lambda>folder. wf_uri folder \<notin> set (vf_initializedWorkspaceFolders s)) workspaceFolders;
          added = fold (\<lambda>folder. set_add (wf_uri folder)) new (vf_initializedWorkspaceFolders s);
          configFolders = map wf_uri workspaceFolders
      in (new, s\<lparr>vf_initializedWorkspaceFolders := filter (\<lambda>u. u \<in> set configFolders) added\<rparr>))"

definition vf_setup :: "'u vfs_env \<Rightarrow> bool \<Rightarrow> workspace_folder list option \<Rightarrow> ('u, 'l) vfs \<Rightarrow> ('u, 'l) vfs" where
  "vf_setup E flag workspaceFolders s =
     (if \<not> flag then s
      else
        let (new, s1) = setup_folders (case workspaceFolders of None \<Rightarrow> [] | Some ws \<Rightarrow> ws) s
        in registerWatchers E (fold (emitFilesForWorkspace E) (vfe_walks_end E new) s1))"

subsection \<open>Properties\<close>

lemma emit_fields [simp]:
  "vf_initializedWorkspaceFolders (emitFileSystemEvent ev s) = vf_initializedWorkspaceFolders s"
  "vf_emitter (emitFileSystemEvent ev s) = vf_emitter s"
  by (simp_all add: emitFileSystemEvent_def)

lemma emitFiles_fields [simp]:
  "vf_initializedWorkspaceFolders (emitFilesForWorkspace E folder s) = vf_initializedWorkspaceFolders s"
  "vf_emitter (emitFilesForWorkspace E folder s) = vf_emitter s"
  by (simp_all add: emitFilesForWorkspace_def split: option.splits)

lemma fold_emitFiles_fields:
  "vf_initializedWorkspaceFolders (fold (emitFilesForWorkspace E) fs s) = vf_initializedWorkspaceFolders s"
  by (induction fs arbitrary: s) simp_all

lemma register_fields [simp]:
  "vf_initializedWorkspaceFolders (registerWatchers E s) = vf_initializedWorkspaceFolders s"
  "vf_calls (registerWatchers E s) = vf_calls s"
  by (simp_all add: registerWatchers_def Let_def split: option.splits)

lemma setup_initialized:
  "set (vf_initializedWorkspaceFolders (snd (setup_folders ws s))) = wf_uri ` set ws"
  by (auto simp: setup_folders_def Let_def set_fold_add)

definition listed :: "'u vfs_env \<Rightarrow> 'l list \<Rightarrow> workspace_folder \<Rightarrow> ('l \<times> 'u vfs_event) list" where
  "listed E ls f =
     (case vfe_findFiles E (parseURIString (vfe_uri E) (wf_uri f)) of
        None \<Rightarrow> []
      | Some files \<Rightarrow> map (\<lambda>l. (l, WorkspaceFilesEvent files f)) ls)"

lemma emitFiles_calls:
  "vf_calls (emitFilesForWorkspace E f s) = vf_calls s @ listed E (em_listeners () (vf_emitter s)) f"
  by (simp add: emitFilesForWorkspace_def emitFileSystemEvent_def listed_def split: option.splits)

lemma fold_emitFiles_calls:
  "vf_calls (fold (emitFilesForWorkspace E) fs s) = vf_calls s @
     concat (map (listed E (em_listeners () (vf_emitter s))) fs)"
  by (induction fs arbitrary: s) (simp_all add: emitFiles_calls)

text \<open>With the feature enabled, \<open>setup\<close> leaves exactly the current workspace folders initialized, and lists the
  files of exactly those that were not initialized before, as their walks end: a folder is listed again only after
  it has been removed from the workspace.\<close>

theorem setup_lists_new_folders:
  "set (vf_initializedWorkspaceFolders (vf_setup E True (Some ws) s)) = wf_uri ` set ws \<and>
   vf_calls (vf_setup E True (Some ws) s) = vf_calls s @
     concat (map (listed E (em_listeners () (vf_emitter s)))
       (vfe_walks_end E (filter (\<lambda>f. wf_uri f \<notin> set (vf_initializedWorkspaceFolders s)) ws)))"
proof -
  obtain new s1 where s1: "setup_folders ws s = (new, s1)" by fastforce
  then have eqs: "new = filter (\<lambda>f. wf_uri f \<notin> set (vf_initializedWorkspaceFolders s)) ws"
      "vf_calls s1 = vf_calls s" "vf_emitter s1 = vf_emitter s"
    by (auto simp: setup_folders_def Let_def)
  moreover have "set (vf_initializedWorkspaceFolders s1) = wf_uri ` set ws"
    using setup_initialized [of ws s] s1 by simp
  ultimately show ?thesis
    by (simp add: vf_setup_def s1 fold_emitFiles_fields fold_emitFiles_calls)
qed

text \<open>A change of a file is reported once per listener for every workspace folder whose address is a prefix of
  the file's, in the order of the folders; this includes a folder that merely shares the start of its name.\<close>

theorem file_event_delivery:
  "vf_calls (handleFileEvent (Some ws) uri change s) = vf_calls s @
     concat (map (\<lambda>f. map (\<lambda>l. (l, WorkspaceFileEvent uri change f)) (em_listeners () (vf_emitter s)))
       (filter (\<lambda>f. starts_with uri (wf_uri f)) ws))"
proof -
  have "vf_calls (fold (\<lambda>folder. emitFileSystemEvent (WorkspaceFileEvent uri change folder)) fs s) = vf_calls s @
      concat (map (\<lambda>f. map (\<lambda>l. (l, WorkspaceFileEvent uri change f)) (em_listeners () (vf_emitter s))) fs)" for fs
    by (induction fs arbitrary: s) (simp_all add: emitFileSystemEvent_def)
  then show ?thesis by (simp add: handleFileEvent_def getMatchingWorkspaceFolders_def)
qed

end
