(* ===== verification/AI_Context.thy ===== *)
theory AI_Context
  imports Advanced_Context Uri_Path
begin

text \<open>
  The parts of the AI context management (\<open>src/common/ai_context_management/\<close>) a provider is made of: the policy for
  files (\<open>context_policies/file_policy.ts\<close>), the base class of the providers (\<open>ai_context_provider.ts\<close>), the
  detection of binary content (\<open>utils/binary_content.ts\<close>) and the transformers of content
  (\<open>context_transformers/\<close>).

  Parameters: the parser of \<open>js-yaml\<close>, \<open>minimatch\<close>, the file system, and the secret redactor on texts of code units.
\<close>

subsection \<open>Binary content\<close>

definition BINARY_CHECK_BYTES :: nat where
  "BINARY_CHECK_BYTES = 8192"

definition control_unit :: "nat \<Rightarrow> bool" where
  "control_unit u \<longleftrightarrow> u \<le> 8 \<or> u = 0x0B \<or> u = 0x0C \<or> 0x0E \<le> u \<and> u \<le> 0x1F"

definition isBinaryContent :: "text16 \<Rightarrow> bool" where
  "isBinaryContent content =
     (if prefix [0xFEFF] content \<or> prefix [0xFFFE] content \<or> prefix [0xFEFF] content then False
      else if prefix (widen ''%PDF-'') content then True
      else let contentToCheck = take BINARY_CHECK_BYTES content
        in 0 \<in> set contentToCheck \<or> (\<exists>u \<in> set contentToCheck. control_unit u))"

text \<open>The first bytes of a file, decoded; a file that cannot be read counts as binary.\<close>

definition isBinaryFile :: "(string \<Rightarrow> nat \<Rightarrow> js_error + text16) \<Rightarrow> 'u uri_api \<Rightarrow> 'u \<Rightarrow> bool" where
  "isBinaryFile readFirstBytes U uri =
     (case readFirstBytes (ua_fsPath U uri) BINARY_CHECK_BYTES of
        Inl e \<Rightarrow> True
      | Inr content \<Rightarrow> isBinaryContent content)"

subsection \<open>The policy for files\<close>

record policy_response =
  pr_enabled :: bool
  pr_disabledReasons :: "string list option"

text \<open>What the policy file holds; any of the fields may be missing, and the type may be anything.\<close>

record policy_config =
  pcf_ai_context_policy :: "string option"
  pcf_exclude :: "string list option"

record file_policy =
  fp_policyConfig :: "policy_config option"
  fp_policyType :: "string option"
  fp_excludePatterns :: "string list"

definition policy_allow :: string where "policy_allow = ''allow''"
definition policy_block :: string where "policy_block = ''block''"

definition DefaultPolicy :: policy_config where
  "DefaultPolicy = \<lparr>pcf_ai_context_policy = Some policy_allow, pcf_exclude = Some []\<rparr>"

definition fp_new :: file_policy where
  "fp_new = \<lparr>fp_policyConfig = Some DefaultPolicy, fp_policyType = pcf_ai_context_policy DefaultPolicy,
             fp_excludePatterns = []\<rparr>"

text \<open>\<open>fpe_load\<close> yields \<open>None\<close> for an empty document, which is \<open>undefined\<close>.\<close>

record 'u file_policy_env =
  fpe_uri :: "'u uri_api"
  fpe_readFile :: "string \<Rightarrow> js_error + text16"
  fpe_load :: "text16 \<Rightarrow> js_error + policy_config option"
  fpe_minimatch :: "string \<Rightarrow> string \<Rightarrow> bool"

definition fp_load :: "'u file_policy_env \<Rightarrow> workspace_folder \<Rightarrow> policy_config option" where
  "fp_load E folder =
     (case fpe_readFile E (posix_join (ua_fsPath (fpe_uri E) (ua_parse (fpe_uri E) (wf_uri folder))) ''.ai-context-policy.yml'') of
        Inl e \<Rightarrow> Some DefaultPolicy
      | Inr content \<Rightarrow>
          if content \<noteq> [] then (case fpe_load E content of Inl e \<Rightarrow> Some DefaultPolicy | Inr c \<Rightarrow> c)
          else Some DefaultPolicy)"

text \<open>The first component is what the promise is rejected with: taking the fields of \<open>undefined\<close> is outside the
  \<open>try\<close>.\<close>

definition fp_init ::
  "'u file_policy_env \<Rightarrow> workspace_folder option \<Rightarrow> file_policy \<Rightarrow> js_error option \<times> file_policy" where
  "fp_init E workspaceFolder s =
     (case workspaceFolder of
        None \<Rightarrow> (None, s)
      | Some folder \<Rightarrow>
          let config = fp_load E folder; s1 = s\<lparr>fp_policyConfig := config\<rparr> in
          (case config of
             None \<Rightarrow> (Some TypeError, s1)
           | Some c \<Rightarrow> (None, s1\<lparr>fp_excludePatterns := or_else (pcf_exclude c) [],
                                fp_policyType := pcf_ai_context_policy c\<rparr>)))"

definition DisabledReason :: string where
  "DisabledReason = ''File disabled by context policy''"

definition isContextItemAllowed :: "'u file_policy_env \<Rightarrow> file_policy \<Rightarrow> string option \<Rightarrow> policy_response" where
  "isContextItemAllowed E s relativePath =
     (case relativePath of
        None \<Rightarrow> \<lparr>pr_enabled = False, pr_disabledReasons = Some [''File not found'']\<rparr>
      | Some [] \<Rightarrow> \<lparr>pr_enabled = False, pr_disabledReasons = Some [''File not found'']\<rparr>
      | Some (c # cs) \<Rightarrow>
          let isInExcludePattern = list_ex (\<lambda>pattern. fpe_minimatch E (c # cs) pattern) (fp_excludePatterns s) in
          if fp_policyType s = Some policy_block then
            \<lparr>pr_enabled = isInExcludePattern,
             pr_disabledReasons = (if isInExcludePattern then None else Some [DisabledReason])\<rparr>
          else
            \<lparr>pr_enabled = \<not> isInExcludePattern,
             pr_disabledReasons = (if isInExcludePattern then Some [DisabledReason] else None)\<rparr>)"

subsection \<open>The base of the providers\<close>

datatype hook_call = Item_added wide_item | Item_to_be_removed wide_item | All_items_to_be_removed

text \<open>The hooks a subclass may set are flags; \<open>ap_notified\<close> are their calls.\<close>

record ai_provider =
  ap_type :: ai_provider_type
  ap_selected :: "wide_item list"
  ap_onAdded :: bool
  ap_onBeforeRemoved :: bool
  ap_onBeforeAllRemoved :: bool
  ap_notified :: "hook_call list"

definition ap_new :: "ai_provider_type \<Rightarrow> ai_provider" where
  "ap_new type = \<lparr>ap_type = type, ap_selected = [], ap_onAdded = False, ap_onBeforeRemoved = False,
                  ap_onBeforeAllRemoved = False, ap_notified = []\<rparr>"

definition notifyContextItemAdded :: "wide_item \<Rightarrow> ai_provider \<Rightarrow> ai_provider" where
  "notifyContextItemAdded item p =
     (if ap_onAdded p then p\<lparr>ap_notified := ap_notified p @ [Item_added item]\<rparr> else p)"

definition notifyContextItemToBeRemoved :: "wide_item \<Rightarrow> ai_provider \<Rightarrow> ai_provider" where
  "notifyContextItemToBeRemoved item p =
     (if ap_onBeforeRemoved p then p\<lparr>ap_notified := ap_notified p @ [Item_to_be_removed item]\<rparr> else p)"

definition notifyAllContextItemsToBeRemoved :: "ai_provider \<Rightarrow> ai_provider" where
  "notifyAllContextItemsToBeRemoved p =
     (if ap_onBeforeAllRemoved p then p\<lparr>ap_notified := ap_notified p @ [All_items_to_be_removed]\<rparr> else p)"

definition itemAllowedByPolicies ::
  "(wide_item \<Rightarrow> js_error + policy_response) option \<Rightarrow> wide_item \<Rightarrow> js_error + policy_response" where
  "itemAllowedByPolicies canItemBeAdded contextItem =
     (case canItemBeAdded of
        None \<Rightarrow> Inr \<lparr>pr_enabled = True, pr_disabledReasons = None\<rparr>
      | Some f \<Rightarrow> f contextItem)"

definition findItemWithId :: "string \<Rightarrow> ai_provider \<Rightarrow> wide_item option" where
  "findItemWithId i p = List.find (\<lambda>item. ai_id item = i) (ap_selected p)"

definition not_found :: "string \<Rightarrow> js_error" where
  "not_found i = JsError (''Item with id '' @ i @ '' not found in context items.'')"

fun find_index :: "('a \<Rightarrow> bool) \<Rightarrow> 'a list \<Rightarrow> nat option" where
  "find_index P [] = None"
| "find_index P (x # xs) = (if P x then Some 0 else map_option Suc (find_index P xs))"

definition findItemIndex :: "string \<Rightarrow> ai_provider \<Rightarrow> js_error + nat" where
  "findItemIndex i p =
     (case find_index (\<lambda>item. ai_id item = i) (ap_selected p) of
        None \<Rightarrow> Inl (not_found i)
      | Some n \<Rightarrow> Inr n)"

text \<open>The answer of the policy is an object, so the test \<open>!canBeAdded\<close> never holds.\<close>

definition ap_addSelectedContextItem ::
  "(wide_item \<Rightarrow> js_error + policy_response) option \<Rightarrow> wide_item \<Rightarrow> ai_provider \<Rightarrow> js_error + ai_provider" where
  "ap_addSelectedContextItem canItemBeAdded contextItem p =
     (case itemAllowedByPolicies canItemBeAdded contextItem of
        Inl e \<Rightarrow> Inl e
      | Inr canBeAdded \<Rightarrow>
          Inr (if am_subType (ai_metadata contextItem) \<noteq> ap_type p then p
               else if findItemWithId (ai_id contextItem) p \<noteq> None then p
               else notifyContextItemAdded contextItem (p\<lparr>ap_selected := ap_selected p @ [contextItem]\<rparr>)))"

definition ap_removeSelectedContextItem :: "string \<Rightarrow> ai_provider \<Rightarrow> js_error + ai_provider" where
  "ap_removeSelectedContextItem i p =
     (case findItemIndex i p of
        Inl e \<Rightarrow> Inl e
      | Inr index \<Rightarrow>
          let p1 = notifyContextItemToBeRemoved (ap_selected p ! index) p
          in Inr (p1\<lparr>ap_selected := take index (ap_selected p1) @ drop (index + 1) (ap_selected p1)\<rparr>))"

definition ap_clearSelectedContextItems :: "ai_provider \<Rightarrow> ai_provider" where
  "ap_clearSelectedContextItems p =
     (if ap_selected p \<noteq> [] then (notifyAllContextItemsToBeRemoved p)\<lparr>ap_selected := []\<rparr> else p)"

definition ap_replaceSelectedContextItem :: "wide_item \<Rightarrow> wide_item \<Rightarrow> ai_provider \<Rightarrow> js_error + ai_provider" where
  "ap_replaceSelectedContextItem oldItem newItem p =
     (case findItemIndex (ai_id oldItem) p of
        Inl e \<Rightarrow> Inl e
      | Inr index \<Rightarrow> Inr (p\<lparr>ap_selected := (ap_selected p)[index := newItem]\<rparr>))"

text \<open>The request, validated by its schema.\<close>

datatype 'c ai_request = Code_suggestions_request 'c | Duo_chat_request

definition ap_retrieveContextItemsWithContent ::
  "('c \<Rightarrow> js_error + wide_item list) \<Rightarrow> (js_error + wide_item list) \<Rightarrow> 'c ai_request \<Rightarrow> js_error + wide_item list" where
  "ap_retrieveContextItemsWithContent getContextForCodeSuggestions retrieveSelected request =
     (case request of
        Code_suggestions_request c \<Rightarrow> getContextForCodeSuggestions c
      | Duo_chat_request \<Rightarrow> retrieveSelected)"

definition ap_getContextForCodeSuggestions :: "'c \<Rightarrow> js_error + wide_item list" where
  "ap_getContextForCodeSuggestions _ = Inr []"

subsection \<open>Transforming content\<close>

type_synonym transformer = "wide_item \<Rightarrow> js_error + wide_item"

definition BINARY_FILE_DISABLED_REASON :: string where
  "BINARY_FILE_DISABLED_REASON = ''Binary files are unsupported''"

definition no_content :: "wide_item \<Rightarrow> bool" where
  "no_content item \<longleftrightarrow> item_text item = []"

definition secret_transform :: "bool \<Rightarrow> (text16 \<Rightarrow> string \<Rightarrow> js_error + text16) \<Rightarrow> transformer" where
  "secret_transform enableSecretRedaction redact context =
     (if no_content context then Inr context
      else if \<not> enableSecretRedaction then Inr context
      else map_sum id (\<lambda>redactedContent. context\<lparr>ai_content := Some redactedContent\<rparr>)
        (redact (item_text context) (ai_id context)))"

definition binary_transform :: transformer where
  "binary_transform context =
     (if no_content context then Inr context
      else if isBinaryContent (item_text context) then
        Inr (context\<lparr>ai_content := Some [],
               ai_metadata := (ai_metadata context)
                 \<lparr>am_enabled := False,
                  am_disabledReasons :=
                    Some (or_else (am_disabledReasons (ai_metadata context)) [] @ [BINARY_FILE_DISABLED_REASON])\<rparr>\<rparr>)
      else Inr context)"

fun run_transformers :: "transformer list \<Rightarrow> transformer" where
  "run_transformers [] item = Inr item"
| "run_transformers (t # ts) item = (case t item of Inl e \<Rightarrow> Inl e | Inr item' \<Rightarrow> run_transformers ts item')"

text \<open>The transformers in the order they are registered.\<close>

definition default_transformers :: "bool \<Rightarrow> (text16 \<Rightarrow> string \<Rightarrow> js_error + text16) \<Rightarrow> transformer list" where
  "default_transformers enableSecretRedaction redact =
     [secret_transform enableSecretRedaction redact, binary_transform]"

subsection \<open>Lemmas\<close>

lemma find_index_Some: "find_index P xs = Some n \<Longrightarrow> n < length xs \<and> P (xs ! n) \<and> (\<forall>m < n. \<not> P (xs ! m))"
proof (induction xs arbitrary: n)
  case (Cons x xs)
  show ?case
  proof (cases "P x")
    case False
    with Cons.prems obtain m where m: "find_index P xs = Some m" "n = Suc m" by auto
    from Cons.IH [OF m(1)] False show ?thesis by (auto simp: m(2) nth_Cons split: nat.splits)
  qed (use Cons.prems in auto)
qed simp

lemma find_index_None: "find_index P xs = None \<longleftrightarrow> (\<forall>x \<in> set xs. \<not> P x)"
  by (induction xs) auto

lemma hook_fields [simp]:
  "ap_type (notifyContextItemAdded item p) = ap_type p"
  "ap_selected (notifyContextItemAdded item p) = ap_selected p"
  "ap_type (notifyContextItemToBeRemoved item p) = ap_type p"
  "ap_selected (notifyContextItemToBeRemoved item p) = ap_selected p"
  "ap_type (notifyAllContextItemsToBeRemoved p) = ap_type p"
  "ap_selected (notifyAllContextItemsToBeRemoved p) = ap_selected p"
  by (simp_all add: notifyContextItemAdded_def notifyContextItemToBeRemoved_def notifyAllContextItemsToBeRemoved_def)

text \<open>A provider's selection: items of its own type, no two with the same identifier.\<close>

definition selection_ok :: "ai_provider \<Rightarrow> bool" where
  "selection_ok p \<longleftrightarrow> distinct (map ai_id (ap_selected p)) \<and>
     (\<forall>item \<in> set (ap_selected p). am_subType (ai_metadata item) = ap_type p)"

lemma selection_new [inv_intros]: "selection_ok (ap_new type)"
  by (simp add: selection_ok_def ap_new_def)

lemma findItem_None: "findItemWithId i p = None \<longleftrightarrow> i \<notin> ai_id ` set (ap_selected p)"
  by (auto simp: findItemWithId_def find_None_iff)

lemma selection_add [inv_intros]: "selection_ok p \<Longrightarrow> ap_addSelectedContextItem can item p = Inr p' \<Longrightarrow> selection_ok p'"
  by (auto simp: ap_addSelectedContextItem_def selection_ok_def findItem_None split: sum.splits if_splits)

lemma selection_clear [inv_intros]: "selection_ok p \<Longrightarrow> selection_ok (ap_clearSelectedContextItems p)"
  by (simp add: ap_clearSelectedContextItems_def selection_ok_def)

lemma add_type: "ap_addSelectedContextItem can item p = Inr p' \<Longrightarrow> ap_type p' = ap_type p"
  by (auto simp: ap_addSelectedContextItem_def split: sum.splits if_splits)

lemma remove_type: "ap_removeSelectedContextItem i p = Inr p' \<Longrightarrow> ap_type p' = ap_type p"
  by (auto simp: ap_removeSelectedContextItem_def Let_def split: sum.splits)

lemma clear_type [simp]: "ap_type (ap_clearSelectedContextItems p) = ap_type p"
  by (simp add: ap_clearSelectedContextItems_def)

lemma remove_fails_iff: "isl (ap_removeSelectedContextItem i p) \<longleftrightarrow> i \<notin> ai_id ` set (ap_selected p)"
  by (auto simp: ap_removeSelectedContextItem_def findItemIndex_def Let_def find_index_None
      dest: find_index_None [THEN iffD1] split: option.splits)
     (auto dest!: find_index_Some intro: rev_image_eqI nth_mem)

lemma remove_selected:
  assumes "selection_ok p" and "ap_removeSelectedContextItem i p = Inr p'"
  shows "ap_selected p' = filter (\<lambda>item. ai_id item \<noteq> i) (ap_selected p)"
proof -
  from assms(2) obtain n where n: "find_index (\<lambda>item. ai_id item = i) (ap_selected p) = Some n"
      "ap_selected p' = take n (ap_selected p) @ drop (n + 1) (ap_selected p)"
    by (auto simp: ap_removeSelectedContextItem_def findItemIndex_def Let_def split: option.splits)
  let ?xs = "ap_selected p"
  from find_index_Some [OF n(1)] have *: "n < length ?xs" "ai_id (?xs ! n) = i" by auto
  have split: "?xs = take n ?xs @ ?xs ! n # drop (n + 1) ?xs" using *(1) by (simp add: id_take_nth_drop)
  then have "distinct (map ai_id (take n ?xs @ ?xs ! n # drop (n + 1) ?xs))"
    using assms(1) unfolding selection_ok_def by simp
  with *(2) have "filter (\<lambda>item. ai_id item \<noteq> i) (take n ?xs @ ?xs ! n # drop (n + 1) ?xs) = take n ?xs @ drop (n + 1) ?xs"
    by (auto simp: image_iff intro!: arg_cong2 [of _ _ _ _ "(@)"] filter_True)
  with split n(2) show ?thesis by simp
qed

lemma selection_remove [inv_intros]:
  assumes "selection_ok p" and "ap_removeSelectedContextItem i p = Inr p'"
  shows "selection_ok p'"
  using assms(1) remove_selected [OF assms] remove_type [OF assms(2)]
  by (auto simp: selection_ok_def intro: distinct_map_filter)

text \<open>With redaction enabled, what the transformers let through has been redacted and is not binary.\<close>

lemma transformed_content:
  assumes "run_transformers (default_transformers True redact) item = Inr item'"
  shows "ai_id item' = ai_id item \<and>
    (item_text item' = [] \<or>
     redact (item_text item) (ai_id item) = Inr (item_text item') \<and> \<not> isBinaryContent (item_text item'))"
proof (cases "no_content item")
  case True
  with assms show ?thesis
    by (simp add: default_transformers_def secret_transform_def binary_transform_def no_content_def)
next
  case False
  with assms obtain c where c: "redact (item_text item) (ai_id item) = Inr c"
      "binary_transform (item\<lparr>ai_content := Some c\<rparr>) = Inr item'"
    by (cases "redact (item_text item) (ai_id item)")
       (auto simp: default_transformers_def secret_transform_def split: sum.splits)
  then show ?thesis
    by (auto simp: binary_transform_def no_content_def item_text_def split: if_splits)
qed

end
