(* ===== verification/AI_Context_Manager.thy ===== *)
theory AI_Context_Manager
  imports AI_Context
begin

text \<open>
  The manager of the AI context (\<open>src/common/ai_context_management/ai_context_manager.ts\<close>): which providers are
  available, the items the user has selected with them, searches over them, and the items with their content for a
  chat request.

  What a provider computes at a given moment is a parameter (\<open>provider_ops\<close>), so that the answers may differ from
  call to call; its selection is the state modelled in \<open>AI_Context\<close>.  An operation that awaits takes the state before
  and the state after the wait.
\<close>

definition provider_types :: "ai_category \<Rightarrow> ai_provider_type list" where
  "provider_types category =
     (case category of
        Cat_file \<Rightarrow> [Open_tab, Local_file_search]
      | Cat_snippet \<Rightarrow> [Snippet]
      | Cat_issue \<Rightarrow> [Issue]
      | Cat_merge_request \<Rightarrow> [Merge_request]
      | Cat_dependency \<Rightarrow> [Dependency]
      | Cat_local_git \<Rightarrow> [Local_git])"

definition all_categories :: "ai_category list" where
  "all_categories = [Cat_file, Cat_snippet, Cat_issue, Cat_merge_request, Cat_dependency, Cat_local_git]"

record ai_query =
  aq_category :: ai_category
  aq_query :: string
  aq_workspaceFolders :: "workspace_folder list option"

record provider_ops =
  po_canItemBeAdded :: "(wide_item \<Rightarrow> js_error + policy_response) option"
  po_isAvailable :: policy_response
  po_search :: "ai_query \<Rightarrow> js_error + wide_item list"
  po_retrieve :: "wide_item list \<Rightarrow> js_error + wide_item list"
  po_getItemWithContent :: "wide_item \<Rightarrow> js_error + wide_item"

type_synonym ops = "nat \<Rightarrow> provider_ops"

text \<open>The available providers are positions in the list of all providers.\<close>

record ai_manager =
  mg_providers :: "ai_provider list"
  mg_availableProviders :: "nat list"
  mg_workspaceFolders :: "workspace_folder list"

definition mg_new :: "ai_provider list \<Rightarrow> workspace_folder list option \<Rightarrow> ai_manager" where
  "mg_new providers folders =
     \<lparr>mg_providers = providers, mg_availableProviders = [], mg_workspaceFolders = or_else folders []\<rparr>"

definition mg_onConfigChange :: "workspace_folder list option \<Rightarrow> ai_manager \<Rightarrow> ai_manager" where
  "mg_onConfigChange folders m = m\<lparr>mg_workspaceFolders := or_else folders []\<rparr>"

text \<open>The names the types and the errors carry.\<close>

definition provider_type_name :: "ai_provider_type \<Rightarrow> string" where
  "provider_type_name t =
     (case t of Open_tab \<Rightarrow> ''open_tab'' | Local_file_search \<Rightarrow> ''local_file_search'' | Issue \<Rightarrow> ''issue''
              | Merge_request \<Rightarrow> ''merge_request'' | Snippet \<Rightarrow> ''snippet'' | Dependency \<Rightarrow> ''dependency''
              | Local_git \<Rightarrow> ''local_git'')"

definition no_provider :: "ai_provider_type \<Rightarrow> js_error" where
  "no_provider t = JsError (''No provider found for type \"'' @ provider_type_name t @ ''\"'')"

definition available_provider :: "ai_manager \<Rightarrow> ai_provider_type \<Rightarrow> nat option" where
  "available_provider m t = List.find (\<lambda>i. ap_type (mg_providers m ! i) = t) (mg_availableProviders m)"

definition getProviderAndPerform ::
  "ai_provider_type \<Rightarrow> (nat \<Rightarrow> ai_provider \<Rightarrow> js_error + ai_provider) \<Rightarrow> ai_manager \<Rightarrow> js_error + ai_manager" where
  "getProviderAndPerform subType callback m =
     (case available_provider m subType of
        None \<Rightarrow> Inl (JsError ''No provider found for type'')
      | Some i \<Rightarrow>
          map_sum id (\<lambda>p. m\<lparr>mg_providers := (mg_providers m)[i := p]\<rparr>) (callback i (mg_providers m ! i)))"

definition item_type :: "wide_item \<Rightarrow> ai_provider_type" where
  "item_type item = am_subType (ai_metadata item)"

definition mg_addSelectedContextItem :: "ops \<Rightarrow> wide_item \<Rightarrow> ai_manager \<Rightarrow> bool \<times> ai_manager" where
  "mg_addSelectedContextItem B contextItem m =
     (case getProviderAndPerform (item_type contextItem)
            (\<lambda>i. ap_addSelectedContextItem (po_canItemBeAdded (B i)) contextItem) m of
        Inl e \<Rightarrow> (False, m)
      | Inr m' \<Rightarrow> (True, m'))"

definition mg_removeSelectedContextItem :: "wide_item \<Rightarrow> ai_manager \<Rightarrow> bool \<times> ai_manager" where
  "mg_removeSelectedContextItem contextItem m =
     (case getProviderAndPerform (item_type contextItem)
            (\<lambda>i. ap_removeSelectedContextItem (ai_id contextItem)) m of
        Inl e \<Rightarrow> (False, m)
      | Inr m' \<Rightarrow> (True, m'))"

definition mg_getSelectedContextItems :: "ai_manager \<Rightarrow> wide_item list" where
  "mg_getSelectedContextItems m = concat (map (\<lambda>i. ap_selected (mg_providers m ! i)) (mg_availableProviders m))"

text \<open>\<open>Promise.all\<close>: when several calls fail, which error is passed on is a matter of time; here the first.\<close>

fun all_results :: "(js_error + 'a) list \<Rightarrow> js_error + 'a list" where
  "all_results [] = Inr []"
| "all_results (Inl e # rs) = Inl e"
| "all_results (Inr x # rs) = map_sum id ((#) x) (all_results rs)"

definition disabledContextItemsToTheBack :: "wide_item list \<Rightarrow> wide_item list" where
  "disabledContextItemsToTheBack contextItems =
     js_sort (\<lambda>a b. if am_enabled (ai_metadata a) = am_enabled (ai_metadata b) then 0
                    else if am_enabled (ai_metadata a) then - 1 else 1) contextItems"

text \<open>\<open>m\<close> is the state when the search starts, \<open>m'\<close> when the providers have answered.\<close>

definition mg_searchContextItemsForCategory ::
  "ops \<Rightarrow> ai_query \<Rightarrow> ai_manager \<Rightarrow> ai_manager \<Rightarrow> wide_item list" where
  "mg_searchContextItemsForCategory B query m m' =
     (let typesForCategory = provider_types (aq_category query);
          providerQuery = query\<lparr>aq_workspaceFolders := Some (or_else (aq_workspaceFolders query) (mg_workspaceFolders m))\<rparr>
      in case all_results
               (map (\<lambda>i. po_search (B i) providerQuery)
                 (filter (\<lambda>i. ap_type (mg_providers m ! i) \<in> set typesForCategory) (mg_availableProviders m))) of
           Inl e \<Rightarrow> []
         | Inr itemsForAllProviders \<Rightarrow>
             let selectedIds = map ai_id (mg_getSelectedContextItems m');
                 nonSelectedItems = filter (\<lambda>item. ai_id item \<notin> set selectedIds) (concat itemsForAllProviders)
             in disabledContextItemsToTheBack nonSelectedItems)"

definition mg_getAvailableCategories :: "bool \<Rightarrow> ops \<Rightarrow> ai_manager \<Rightarrow> ai_category list \<times> ai_manager" where
  "mg_getAvailableCategories flagEnabled B m =
     (if \<not> flagEnabled then ([], m)
      else
        let available = filter (\<lambda>i. pr_enabled (po_isAvailable (B i))) [0..<length (mg_providers m)];
            types = map (\<lambda>i. ap_type (mg_providers m ! i)) available
        in (List.map_filter (\<lambda>t. List.find (\<lambda>category. t \<in> set (provider_types category)) all_categories) types,
            m\<lparr>mg_availableProviders := available\<rparr>))"

text \<open>An item whose content cannot be transformed loses it.\<close>

definition mg_transformItemContent :: "transformer list \<Rightarrow> wide_item \<Rightarrow> wide_item" where
  "mg_transformItemContent transformers item =
     (case run_transformers transformers item of
        Inl e \<Rightarrow> item\<lparr>ai_content := None\<rparr>
      | Inr item' \<Rightarrow> item')"

definition mg_retrieveContextItemsWithContent ::
  "transformer list \<Rightarrow> ops \<Rightarrow> 'c ai_request \<Rightarrow> ai_manager \<Rightarrow> js_error + wide_item list" where
  "mg_retrieveContextItemsWithContent transformers B request m =
     (case request of
        Code_suggestions_request _ \<Rightarrow> Inl (JsError ''Code suggestions are not supported'')
      | Duo_chat_request \<Rightarrow>
          map_sum id (\<lambda>providersWithContext. map (mg_transformItemContent transformers) (concat providersWithContext))
            (all_results
              (map (\<lambda>i. po_retrieve (B i) (ap_selected (mg_providers m ! i))) (mg_availableProviders m))))"

definition mg_clearSelectedContextItems :: "ai_manager \<Rightarrow> bool \<times> ai_manager" where
  "mg_clearSelectedContextItems m =
     (True, m\<lparr>mg_providers :=
        fold (\<lambda>i ps. ps[i := ap_clearSelectedContextItems (ps ! i)]) (mg_availableProviders m) (mg_providers m)\<rparr>)"

definition mg_getItemWithContent :: "transformer list \<Rightarrow> ops \<Rightarrow> wide_item \<Rightarrow> ai_manager \<Rightarrow> js_error + wide_item" where
  "mg_getItemWithContent transformers B item m =
     (case available_provider m (item_type item) of
        None \<Rightarrow> Inl (no_provider (item_type item))
      | Some i \<Rightarrow> map_sum id (mg_transformItemContent transformers) (po_getItemWithContent (B i) item))"

definition mg_getProviderForType :: "ai_manager \<Rightarrow> ai_provider_type \<Rightarrow> js_error + ai_provider" where
  "mg_getProviderForType m t =
     (case List.find (\<lambda>p. ap_type p = t) (mg_providers m) of
        None \<Rightarrow> Inl (no_provider t)
      | Some p \<Rightarrow> Inr p)"

text \<open>The requests the editor may make, in any order, with any answers of the providers.\<close>

inductive mg_reach :: "ai_provider_type list \<Rightarrow> ai_manager \<Rightarrow> bool" for types where
  mg_start: "mg_reach types (mg_new (map ap_new types) folders)"
| mg_config: "mg_reach types m \<Longrightarrow> mg_reach types (mg_onConfigChange folders m)"
| mg_add: "mg_reach types m \<Longrightarrow> mg_reach types (snd (mg_addSelectedContextItem B item m))"
| mg_remove: "mg_reach types m \<Longrightarrow> mg_reach types (snd (mg_removeSelectedContextItem item m))"
| mg_clear: "mg_reach types m \<Longrightarrow> mg_reach types (snd (mg_clearSelectedContextItems m))"
| mg_categories: "mg_reach types m \<Longrightarrow> mg_reach types (snd (mg_getAvailableCategories flag B m))"

subsection \<open>The invariant\<close>

definition mg_ok :: "ai_provider_type list \<Rightarrow> ai_manager \<Rightarrow> bool" where
  "mg_ok types m \<longleftrightarrow> map ap_type (mg_providers m) = types \<and> list_all selection_ok (mg_providers m) \<and>
     distinct (mg_availableProviders m) \<and> (\<forall>i \<in> set (mg_availableProviders m). i < length (mg_providers m))"

lemma available_in: "available_provider m t = Some i \<Longrightarrow> i \<in> set (mg_availableProviders m) \<and> ap_type (mg_providers m ! i) = t"
  by (auto simp: available_provider_def find_Some_iff)

lemma mg_ok_perform:
  assumes "mg_ok types m" and "getProviderAndPerform t callback m = Inr m'"
    and "\<And>i p p'. selection_ok p \<Longrightarrow> callback i p = Inr p' \<Longrightarrow> selection_ok p' \<and> ap_type p' = ap_type p"
  shows "mg_ok types m'"
proof -
  from assms(2) obtain i p where ip: "available_provider m t = Some i" "callback i (mg_providers m ! i) = Inr p"
      "m' = m\<lparr>mg_providers := (mg_providers m)[i := p]\<rparr>"
    by (cases "available_provider m t"; cases "callback (the (available_provider m t)) (mg_providers m ! the (available_provider m t))")
       (auto simp: getProviderAndPerform_def)
  from assms(1) available_in [OF ip(1)] have i: "i < length (mg_providers m)" by (simp add: mg_ok_def)
  with assms(1) have "selection_ok (mg_providers m ! i)" by (simp add: mg_ok_def list_all_length)
  from assms(3) [OF this ip(2)] have p: "selection_ok p" "ap_type p = ap_type (mg_providers m ! i)" by auto
  then have "map ap_type ((mg_providers m)[i := p]) = map ap_type (mg_providers m)"
    using i by (simp add: map_update list_update_same_conv)
  moreover have "list_all selection_ok ((mg_providers m)[i := p])"
    using assms(1) p(1) by (auto simp: mg_ok_def list_all_iff dest: set_update_subset_insert [THEN subsetD])
  ultimately show ?thesis using assms(1) by (simp add: mg_ok_def ip(3))
qed

lemma fold_clear:
  assumes "\<forall>i \<in> set is. i < length ps" and "list_all selection_ok ps"
  shows "list_all selection_ok (fold (\<lambda>i ps. ps[i := ap_clearSelectedContextItems (ps ! i)]) is ps) \<and>
    map ap_type (fold (\<lambda>i ps. ps[i := ap_clearSelectedContextItems (ps ! i)]) is ps) = map ap_type ps"
  using assms
proof (induction "is" arbitrary: ps)
  case (Cons i "is")
  let ?qs = "ps[i := ap_clearSelectedContextItems (ps ! i)]"
  have "selection_ok (ap_clearSelectedContextItems (ps ! i))"
    using Cons.prems by (intro selection_clear) (simp add: list_all_length)
  then have "list_all selection_ok ?qs"
    using Cons.prems(2) by (auto simp: list_all_iff dest: set_update_subset_insert [THEN subsetD])
  moreover have "map ap_type ?qs = map ap_type ps"
    using Cons.prems(1) by (simp add: map_update list_update_same_conv)
  ultimately show ?case using Cons.IH [of ?qs] Cons.prems(1) by simp
qed simp

lemma mg_ok_reach: "mg_reach types m \<Longrightarrow> mg_ok types m"
proof (induction rule: mg_reach.induct)
  case (mg_start folders)
  have "list_all selection_ok (map ap_new types)" by (auto simp: list_all_iff selection_new)
  then show ?case by (simp add: mg_ok_def mg_new_def comp_def) (simp add: ap_new_def)
next
  case (mg_config m folders)
  then show ?case by (simp add: mg_ok_def mg_onConfigChange_def)
next
  case (mg_add m B item)
  from mg_ok_perform [OF mg_add.IH] show ?case
    by (auto simp: mg_addSelectedContextItem_def intro: mg_add.IH selection_add add_type split: sum.split)
next
  case (mg_remove m item)
  from mg_ok_perform [OF mg_remove.IH] show ?case
    by (auto simp: mg_removeSelectedContextItem_def intro: mg_remove.IH selection_remove remove_type split: sum.split)
next
  case (mg_clear m)
  with fold_clear [of "mg_availableProviders m" "mg_providers m"] show ?case
    by (auto simp: mg_ok_def mg_clearSelectedContextItems_def dest: arg_cong [of _ _ length])
next
  case (mg_categories m flag B)
  then show ?case by (auto simp: mg_ok_def mg_getAvailableCategories_def Let_def)
qed

subsection \<open>What is selected\<close>

definition same_item :: "wide_item \<Rightarrow> wide_item \<Rightarrow> bool" where
  "same_item a b \<longleftrightarrow> item_type a = item_type b \<and> ai_id a = ai_id b"

lemma provider_at:
  assumes "mg_ok types m" and "i \<in> set (mg_availableProviders m)"
  shows "selection_ok (mg_providers m ! i) \<and> i < length (mg_providers m) \<and> ap_type (mg_providers m ! i) = types ! i \<and>
    i < length types"
  using assms by (auto simp: mg_ok_def list_all_length)

lemma selected_type:
  assumes "mg_ok types m" and "i \<in> set (mg_availableProviders m)" and "x \<in> set (ap_selected (mg_providers m ! i))"
  shows "item_type x = types ! i"
  using provider_at [OF assms(1,2)] assms(3) by (auto simp: selection_ok_def item_type_def)

lemma same_provider:
  assumes "mg_ok types m" and "distinct types" and "i \<in> set (mg_availableProviders m)"
    and "j \<in> set (mg_availableProviders m)" and "types ! i = types ! j"
  shows "i = j"
  using provider_at [OF assms(1,3)] provider_at [OF assms(1,4)] assms(2,5) by (simp add: nth_eq_iff_index_eq)

lemma selected_by:
  assumes "mg_ok types m" and "distinct types" and "x \<in> set (mg_getSelectedContextItems m)"
  shows "\<exists>i. available_provider m (item_type x) = Some i \<and> x \<in> set (ap_selected (mg_providers m ! i))"
proof -
  from assms(3) obtain j where j: "j \<in> set (mg_availableProviders m)" "x \<in> set (ap_selected (mg_providers m ! j))"
    by (auto simp: mg_getSelectedContextItems_def)
  have t: "ap_type (mg_providers m ! j) = item_type x"
    using selected_type [OF assms(1) j] provider_at [OF assms(1) j(1)] by simp
  then obtain i where i: "available_provider m (item_type x) = Some i"
    using j(1) by (cases "available_provider m (item_type x)") (auto simp: available_provider_def find_None_iff)
  have "i = j"
    using available_in [OF i] provider_at [OF assms(1), of i] selected_type [OF assms(1) j]
    by (intro same_provider [OF assms(1,2) _ j(1)]) auto
  with i j(2) show ?thesis by blast
qed

lemma selected_of:
  "available_provider m t = Some i \<Longrightarrow> x \<in> set (ap_selected (mg_providers m ! i)) \<Longrightarrow> x \<in> set (mg_getSelectedContextItems m)"
  by (auto simp: mg_getSelectedContextItems_def dest: available_in)

text \<open>An operation on the provider of a type changes the items of that type only.\<close>

lemma selected_update:
  assumes "mg_ok types m" and "distinct types" and "available_provider m t = Some i"
    and "ap_selected p = filter Q (ap_selected (mg_providers m ! i))" and "\<And>x. item_type x \<noteq> t \<Longrightarrow> Q x"
  shows "mg_getSelectedContextItems (m\<lparr>mg_providers := (mg_providers m)[i := p]\<rparr>) =
    filter Q (mg_getSelectedContextItems m)"
proof -
  note i = available_in [OF assms(3)]
  have il: "i < length (mg_providers m)" and ti: "types ! i = t"
    using provider_at [OF assms(1), of i] i by auto
  have "ap_selected ((mg_providers m)[i := p] ! j) = filter Q (ap_selected (mg_providers m ! j))"
    if j: "j \<in> set (mg_availableProviders m)" for j
  proof (cases "j = i")
    case True
    with il assms(4) show ?thesis by simp
  next
    case False
    then have "types ! j \<noteq> t"
      using same_provider [OF assms(1,2) j] i ti by metis
    then have "\<forall>x \<in> set (ap_selected (mg_providers m ! j)). Q x"
      using selected_type [OF assms(1) j] assms(5) by auto
    with False show ?thesis by simp
  qed
  then show ?thesis by (simp add: mg_getSelectedContextItems_def filter_concat comp_def cong: map_cong)
qed

lemma remove_item:
  assumes "mg_ok types m" and "distinct types"
  shows "fst (mg_removeSelectedContextItem item m) = (\<exists>x \<in> set (mg_getSelectedContextItems m). same_item x item) \<and>
    mg_getSelectedContextItems (snd (mg_removeSelectedContextItem item m)) =
      filter (\<lambda>x. \<not> same_item x item) (mg_getSelectedContextItems m)"
proof (cases "\<exists>x \<in> set (mg_getSelectedContextItems m). same_item x item")
  case True
  then obtain x where x: "x \<in> set (mg_getSelectedContextItems m)" "same_item x item" by blast
  with selected_by [OF assms x(1)] obtain i where i: "available_provider m (item_type item) = Some i"
      "x \<in> set (ap_selected (mg_providers m ! i))"
    by (auto simp: same_item_def)
  then have "\<not> isl (ap_removeSelectedContextItem (ai_id item) (mg_providers m ! i))"
    unfolding remove_fails_iff using x(2) by (simp add: same_item_def) (metis imageI)
  then obtain p where p: "ap_removeSelectedContextItem (ai_id item) (mg_providers m ! i) = Inr p"
    by (cases "ap_removeSelectedContextItem (ai_id item) (mg_providers m ! i)") auto
  have ok: "selection_ok (mg_providers m ! i)" and type: "\<forall>x \<in> set (ap_selected (mg_providers m ! i)). item_type x = item_type item"
    using provider_at [OF assms(1), of i] available_in [OF i(1)] by (auto simp: selection_ok_def item_type_def)
  have "ap_selected p = filter (\<lambda>x. \<not> same_item x item) (ap_selected (mg_providers m ! i))"
    unfolding remove_selected [OF ok p] using type by (auto simp: same_item_def intro: filter_cong)
  from selected_update [OF assms i(1) this] True show ?thesis
    by (simp add: mg_removeSelectedContextItem_def getProviderAndPerform_def i(1) p same_item_def)
next
  case False
  have "mg_removeSelectedContextItem item m = (False, m)"
  proof (cases "available_provider m (item_type item)")
    case None
    then show ?thesis by (simp add: mg_removeSelectedContextItem_def getProviderAndPerform_def)
  next
    case (Some i)
    have "ai_id item \<notin> ai_id ` set (ap_selected (mg_providers m ! i))"
    proof
      assume "ai_id item \<in> ai_id ` set (ap_selected (mg_providers m ! i))"
      then obtain x where x: "x \<in> set (ap_selected (mg_providers m ! i))" "ai_id x = ai_id item" by auto
      have "item_type x = item_type item"
        using selected_type [OF assms(1) _ x(1)] provider_at [OF assms(1), of i] available_in [OF Some] by auto
      with x selected_of [OF Some x(1)] False show False by (auto simp: same_item_def)
    qed
    then obtain e where "ap_removeSelectedContextItem (ai_id item) (mg_providers m ! i) = Inl e"
      using remove_fails_iff [of "ai_id item" "mg_providers m ! i"]
      by (cases "ap_removeSelectedContextItem (ai_id item) (mg_providers m ! i)") auto
    with Some show ?thesis by (simp add: mg_removeSelectedContextItem_def getProviderAndPerform_def)
  qed
  with False show ?thesis by (auto simp: filter_True)
qed

lemma add_known:
  assumes "available_provider m (item_type item) = Some i"
    and "itemAllowedByPolicies (po_canItemBeAdded (B i)) item = Inr response"
    and "ai_id item \<in> ai_id ` set (ap_selected (mg_providers m ! i))"
  shows "mg_addSelectedContextItem B item m = (True, m)"
proof -
  have "findItemWithId (ai_id item) (mg_providers m ! i) \<noteq> None"
    using assms(3) by (simp add: findItem_None)
  then have "ap_addSelectedContextItem (po_canItemBeAdded (B i)) item (mg_providers m ! i) = Inr (mg_providers m ! i)"
    by (auto simp: ap_addSelectedContextItem_def assms(2))
  then show ?thesis by (simp add: mg_addSelectedContextItem_def getProviderAndPerform_def assms(1))
qed

lemma add_fresh:
  assumes "mg_ok types m" and "distinct types" and "available_provider m (item_type item) = Some i"
    and "itemAllowedByPolicies (po_canItemBeAdded (B i)) item = Inr response"
    and "ai_id item \<notin> ai_id ` set (ap_selected (mg_providers m ! i))"
  shows "fst (mg_addSelectedContextItem B item m) \<and>
    item \<in> set (mg_getSelectedContextItems (snd (mg_addSelectedContextItem B item m))) \<and>
    filter (\<lambda>x. \<not> same_item x item) (mg_getSelectedContextItems (snd (mg_addSelectedContextItem B item m))) =
      mg_getSelectedContextItems m"
proof -
  let ?p = "notifyContextItemAdded item ((mg_providers m ! i)\<lparr>ap_selected := ap_selected (mg_providers m ! i) @ [item]\<rparr>)"
  let ?m = "m\<lparr>mg_providers := (mg_providers m)[i := ?p]\<rparr>"
  note i = available_in [OF assms(3)]
  have il: "i < length (mg_providers m)" using provider_at [OF assms(1), of i] i by auto
  have "findItemWithId (ai_id item) (mg_providers m ! i) = None"
    using assms(5) by (simp add: findItem_None)
  then have "ap_addSelectedContextItem (po_canItemBeAdded (B i)) item (mg_providers m ! i) = Inr ?p"
    using i by (simp add: ap_addSelectedContextItem_def assms(4) item_type_def)
  then have perform: "getProviderAndPerform (item_type item)
      (\<lambda>i. ap_addSelectedContextItem (po_canItemBeAdded (B i)) item) m = Inr ?m"
    by (simp add: getProviderAndPerform_def assms(3))
  then have add: "mg_addSelectedContextItem B item m = (True, ?m)"
    by (simp add: mg_addSelectedContextItem_def)
  have ok: "mg_ok types ?m"
    by (rule mg_ok_perform [OF assms(1) perform]) (auto intro: selection_add add_type)
  have avail: "available_provider ?m (item_type item) = Some i"
  proof -
    have "ap_type ((mg_providers m)[i := ?p] ! j) = ap_type (mg_providers m ! j)" for j
      using il by (cases "j = i") auto
    then show ?thesis using assms(3) by (simp add: available_provider_def)
  qed
  have "\<forall>x \<in> set (ap_selected (mg_providers m ! i)). \<not> same_item x item"
    using assms(5) by (auto simp: same_item_def image_iff)
  then have "ap_selected (mg_providers m ! i) = filter (\<lambda>x. \<not> same_item x item) (ap_selected (mg_providers ?m ! i))"
    using il by (simp add: same_item_def)
  from selected_update [OF ok assms(2) avail this]
  have "filter (\<lambda>x. \<not> same_item x item) (mg_getSelectedContextItems ?m) = mg_getSelectedContextItems m"
    by (simp add: same_item_def)
  moreover have "item \<in> set (mg_getSelectedContextItems ?m)"
    unfolding mg_getSelectedContextItems_def using i il by (auto intro!: bexI [of _ i])
  ultimately show ?thesis by (simp only: add fst_conv snd_conv)
qed

lemma selected_id_iff:
  assumes "mg_ok types m" and "distinct types" and "available_provider m (item_type item) = Some i"
  shows "ai_id item \<in> ai_id ` set (ap_selected (mg_providers m ! i)) \<longleftrightarrow>
    (\<exists>x \<in> set (mg_getSelectedContextItems m). same_item x item)"
proof
  assume "ai_id item \<in> ai_id ` set (ap_selected (mg_providers m ! i))"
  then obtain x where x: "x \<in> set (ap_selected (mg_providers m ! i))" "ai_id x = ai_id item" by auto
  have "item_type x = item_type item"
    using selected_type [OF assms(1) _ x(1)] provider_at [OF assms(1), of i] available_in [OF assms(3)] by auto
  with x selected_of [OF assms(3) x(1)] show "\<exists>x \<in> set (mg_getSelectedContextItems m). same_item x item"
    by (auto simp: same_item_def)
next
  assume "\<exists>x \<in> set (mg_getSelectedContextItems m). same_item x item"
  then obtain x where x: "x \<in> set (mg_getSelectedContextItems m)" "same_item x item" by blast
  from selected_by [OF assms(1,2) x(1)] x(2) assms(3) have "x \<in> set (ap_selected (mg_providers m ! i))"
    by (simp add: same_item_def)
  with x(2) show "ai_id item \<in> ai_id ` set (ap_selected (mg_providers m ! i))"
    by (simp add: same_item_def) (metis imageI)
qed

subsection \<open>Properties\<close>

text \<open>C11: Whatever the editor asks and the providers answer, when no two providers have the same type, every item
  listed as selected is held by the available provider of the item's type, and no two have the same type and
  identifier.\<close>

theorem selection_unique:
  assumes "mg_reach types m" and "distinct types"
  shows "distinct (map (\<lambda>x. (item_type x, ai_id x)) (mg_getSelectedContextItems m)) \<and>
    (\<forall>x \<in> set (mg_getSelectedContextItems m). \<exists>i \<in> set (mg_availableProviders m).
       available_provider m (item_type x) = Some i \<and> ap_type (mg_providers m ! i) = item_type x \<and>
       x \<in> set (ap_selected (mg_providers m ! i)))"
proof
  note ok = mg_ok_reach [OF assms(1)]
  let ?key = "\<lambda>x. (item_type x, ai_id x)"
  have "distinct (map ?key (concat (map (\<lambda>i. ap_selected (mg_providers m ! i)) is)))"
    if "distinct is" "set is \<subseteq> set (mg_availableProviders m)" for "is"
    using that
  proof (induction "is")
    case (Cons i "is")
    then have i: "i \<in> set (mg_availableProviders m)" by simp
    have "distinct (map ai_id (ap_selected (mg_providers m ! i)))"
      using provider_at [OF ok i] by (simp add: selection_ok_def)
    then have 1: "distinct (map ?key (ap_selected (mg_providers m ! i)))"
      by (auto simp: distinct_map inj_on_def)
    have 2: "?key x \<noteq> ?key y" if x: "x \<in> set (ap_selected (mg_providers m ! i))" and j: "j \<in> set is"
      and y: "y \<in> set (ap_selected (mg_providers m ! j))" for x y j
    proof
      assume "?key x = ?key y"
      moreover have "j \<in> set (mg_availableProviders m)" using j Cons.prems(2) by auto
      ultimately have "i = j"
        using selected_type [OF ok i x] selected_type [OF ok _ y]
        by (intro same_provider [OF ok assms(2) i]) auto
      with j Cons.prems(1) show False by simp
    qed
    have "distinct (map ?key (concat (map (\<lambda>i. ap_selected (mg_providers m ! i)) is)))"
      using Cons by simp
    with 1 2 show ?case by (simp only: list.map concat.simps map_append distinct_append) fastforce
  qed simp
  moreover have "distinct (mg_availableProviders m)" using ok by (simp add: mg_ok_def)
  ultimately show "distinct (map ?key (mg_getSelectedContextItems m))"
    unfolding mg_getSelectedContextItems_def by blast
  show "\<forall>x \<in> set (mg_getSelectedContextItems m). \<exists>i \<in> set (mg_availableProviders m).
      available_provider m (item_type x) = Some i \<and> ap_type (mg_providers m ! i) = item_type x \<and>
      x \<in> set (ap_selected (mg_providers m ! i))"
    using selected_by [OF ok assms(2)] available_in by metis
qed

text \<open>An item is selected whenever a provider of its type is available and its policy gives any answer at all: the
  code tests the object the policy returns and not the field \<open>enabled\<close> of it.\<close>

theorem policy_answer_ignored:
  assumes "mg_reach types m" and "distinct types" and "available_provider m (item_type item) = Some i"
    and "po_canItemBeAdded (B i) = Some can" and "can item = Inr response"
  shows "fst (mg_addSelectedContextItem B item m) \<and>
    (\<exists>x \<in> set (mg_getSelectedContextItems (snd (mg_addSelectedContextItem B item m))). same_item x item)"
proof (cases "ai_id item \<in> ai_id ` set (ap_selected (mg_providers m ! i))")
  case True
  with selected_id_iff [OF mg_ok_reach [OF assms(1)] assms(2,3)] add_known [OF assms(3), of B] assms(4,5)
  show ?thesis by (simp add: itemAllowedByPolicies_def)
next
  case False
  from add_fresh [OF mg_ok_reach [OF assms(1)] assms(2,3) _ False, of B] assms(4,5)
  show ?thesis by (auto simp: itemAllowedByPolicies_def same_item_def)
qed

text \<open>A removal succeeds exactly when the item is listed as selected, and takes exactly it off the list; the
  error of the provider becomes the answer \<open>false\<close>.\<close>

theorem removal_answer:
  assumes "mg_reach types m" and "distinct types"
  shows "fst (mg_removeSelectedContextItem item m) = (\<exists>x \<in> set (mg_getSelectedContextItems m). same_item x item) \<and>
    mg_getSelectedContextItems (snd (mg_removeSelectedContextItem item m)) =
      filter (\<lambda>x. \<not> same_item x item) (mg_getSelectedContextItems m)"
  by (rule remove_item [OF mg_ok_reach [OF assms(1)] assms(2)])

text \<open>Adding an item that is not selected and removing it again gives back the selection, in the same order,
  whether or not the addition was possible.\<close>

theorem add_then_remove:
  assumes "mg_reach types m" and "distinct types" and "\<not> (\<exists>x \<in> set (mg_getSelectedContextItems m). same_item x item)"
  shows "mg_getSelectedContextItems (snd (mg_removeSelectedContextItem item (snd (mg_addSelectedContextItem B item m)))) =
    mg_getSelectedContextItems m"
proof -
  note ok = mg_ok_reach [OF assms(1)]
  have "filter (\<lambda>x. \<not> same_item x item) (mg_getSelectedContextItems (snd (mg_addSelectedContextItem B item m))) =
    mg_getSelectedContextItems m"
  proof (cases "fst (mg_addSelectedContextItem B item m)")
    case True
    then obtain i response where i: "available_provider m (item_type item) = Some i"
        and p: "itemAllowedByPolicies (po_canItemBeAdded (B i)) item = Inr response"
      by (auto simp: mg_addSelectedContextItem_def getProviderAndPerform_def ap_addSelectedContextItem_def
          split: sum.splits option.splits)
    from add_fresh [where B = B, OF ok assms(2) i p] selected_id_iff [OF ok assms(2) i] assms(3) show ?thesis by simp
  next
    case False
    then have "snd (mg_addSelectedContextItem B item m) = m"
      by (auto simp: mg_addSelectedContextItem_def split: sum.splits)
    with assms(3) show ?thesis by (auto simp: filter_id_conv)
  qed
  with remove_item [OF mg_ok_reach [OF mg_add [OF assms(1)]] assms(2), of item B item] show ?thesis by simp
qed

text \<open>A search never fails: it is empty when a provider of the category fails, and otherwise the unselected
  results in the order of the providers, first those that are enabled and then the others.\<close>

theorem search_enabled_first:
  "mg_searchContextItemsForCategory B query m m' =
     (case all_results
             (map (\<lambda>i. po_search (B i) (query\<lparr>aq_workspaceFolders :=
                  Some (or_else (aq_workspaceFolders query) (mg_workspaceFolders m))\<rparr>))
               (filter (\<lambda>i. ap_type (mg_providers m ! i) \<in> set (provider_types (aq_category query)))
                 (mg_availableProviders m))) of
        Inl e \<Rightarrow> []
      | Inr found \<Rightarrow>
          [x \<leftarrow> concat found. ai_id x \<notin> ai_id ` set (mg_getSelectedContextItems m') \<and> am_enabled (ai_metadata x)] @
          [x \<leftarrow> concat found. ai_id x \<notin> ai_id ` set (mg_getSelectedContextItems m') \<and> \<not> am_enabled (ai_metadata x)])"
  by (simp add: mg_searchContextItemsForCategory_def Let_def disabledContextItemsToTheBack_def js_sort_true_first
      conj_commute split: sum.split)

text \<open>C17: With redaction enabled, the items retrieved with their content for a chat request carry no content that the
  redactor has not produced: each item has either no content, or the redacted form of what its provider retrieved, and
  that is not binary.  (The context of the active file, which a request also carries, does not come this way.)\<close>

theorem retrieved_content_redacted:
  assumes "mg_retrieveContextItemsWithContent (default_transformers True redact) B request m = Inr items"
    and "x \<in> set items"
  shows "item_text x = [] \<or>
    (\<exists>i \<in> set (mg_availableProviders m). \<exists>ys y. po_retrieve (B i) (ap_selected (mg_providers m ! i)) = Inr ys \<and>
       y \<in> set ys \<and> ai_id y = ai_id x \<and> redact (item_text y) (ai_id x) = Inr (item_text x) \<and>
       \<not> isBinaryContent (item_text x))"
proof -
  have all: "all_results rs = Inr xss \<Longrightarrow> xs \<in> set xss \<Longrightarrow> Inr xs \<in> set rs" for rs and xss :: "wide_item list list" and xs
  proof (induction rs arbitrary: xss rule: all_results.induct)
    case (3 y rs)
    then show ?case by (cases "all_results rs") auto
  qed auto
  from assms obtain xss y ys where *: "all_results
        (map (\<lambda>i. po_retrieve (B i) (ap_selected (mg_providers m ! i))) (mg_availableProviders m)) = Inr xss"
      "ys \<in> set xss" "y \<in> set ys" "x = mg_transformItemContent (default_transformers True redact) y"
    by (cases request; cases "all_results
        (map (\<lambda>i. po_retrieve (B i) (ap_selected (mg_providers m ! i))) (mg_availableProviders m))")
       (auto simp: mg_retrieveContextItemsWithContent_def)
  from all [OF *(1,2)] obtain i where i: "i \<in> set (mg_availableProviders m)"
      "po_retrieve (B i) (ap_selected (mg_providers m ! i)) = Inr ys" by auto
  show ?thesis
  proof (cases "run_transformers (default_transformers True redact) y")
    case (Inl e)
    then show ?thesis by (simp add: *(4) mg_transformItemContent_def item_text_def)
  next
    case (Inr z)
    then have "x = z" by (simp add: *(4) mg_transformItemContent_def)
    with transformed_content [OF Inr] i *(3) show ?thesis by auto
  qed
qed

subsection \<open>A concrete manager\<close>

text \<open>Two providers; the policy refuses everything, and the content of a file is the line \<open>key\<close>.\<close>

definition demo_item :: "string \<Rightarrow> bool \<Rightarrow> wide_item" where
  "demo_item i enabled =
     \<lparr>ai_id = i, ai_category = Cat_file, ai_content = None,
      ai_metadata = \<lparr>am_title = i, am_enabled = enabled, am_disabledReasons = None, am_subType = Open_tab,
        am_icon = ''document'', am_secondaryText = i, am_subTypeLabel = ''Project file'', am_languageId = None,
        am_iid = None, am_relativePath = Some i, am_project = None, am_workspaceFolder = None, am_webUrl = None,
        am_libs = None, am_git = None\<rparr>\<rparr>"

definition demo_ops :: ops where
  "demo_ops i =
     \<lparr>po_canItemBeAdded = Some (\<lambda>item. Inr \<lparr>pr_enabled = False, pr_disabledReasons = Some [DisabledReason]\<rparr>),
      po_isAvailable = \<lparr>pr_enabled = True, pr_disabledReasons = None\<rparr>,
      po_search = (\<lambda>q. Inr [demo_item ''a'' False, demo_item ''b'' True]),
      po_retrieve = (\<lambda>items. Inr (map (\<lambda>item. item\<lparr>ai_content := Some (widen ''key'')\<rparr>) items)),
      po_getItemWithContent = Inr\<rparr>"

definition demo_types :: "ai_provider_type list" where
  "demo_types = [Open_tab, Issue]"

definition demo_open_manager :: ai_manager where
  "demo_open_manager = snd (mg_getAvailableCategories True demo_ops (mg_new (map ap_new demo_types) None))"

definition demo_selected_manager :: ai_manager where
  "demo_selected_manager = snd (mg_addSelectedContextItem demo_ops (demo_item ''a'' True) demo_open_manager)"

lemma demo_manager_reach [simp]:
  "mg_reach demo_types demo_open_manager" "mg_reach demo_types demo_selected_manager" "distinct demo_types"
  unfolding demo_selected_manager_def demo_open_manager_def
  by (rule mg_categories mg_add mg_start)+ (simp add: demo_types_def)

lemma demo_open_eq:
  "demo_open_manager =
     \<lparr>mg_providers = [ap_new Open_tab, ap_new Issue], mg_availableProviders = [0, 1], mg_workspaceFolders = []\<rparr>"
  by (simp add: demo_open_manager_def demo_types_def mg_getAvailableCategories_def demo_ops_def mg_new_def or_else_def)

lemma demo_item_type [simp]: "item_type (demo_item i e) = Open_tab" "ai_id (demo_item i e) = i"
  by (simp_all add: item_type_def demo_item_def)

lemma demo_available [simp]: "available_provider demo_open_manager Open_tab = Some 0"
  by (simp add: demo_open_eq available_provider_def ap_new_def)

lemma demo_selected_eq:
  "demo_selected_manager =
     \<lparr>mg_providers = [(ap_new Open_tab)\<lparr>ap_selected := [demo_item ''a'' True]\<rparr>, ap_new Issue],
      mg_availableProviders = [0, 1], mg_workspaceFolders = []\<rparr>"
  by (simp add: demo_selected_manager_def mg_addSelectedContextItem_def getProviderAndPerform_def)
     (simp add: demo_open_eq ap_addSelectedContextItem_def itemAllowedByPolicies_def demo_ops_def findItemWithId_def
       ap_new_def notifyContextItemAdded_def demo_item_def)

lemma demo_selected_items: "mg_getSelectedContextItems demo_selected_manager = [demo_item ''a'' True]"
  by (simp add: demo_selected_eq mg_getSelectedContextItems_def ap_new_def)

theorem selection_unique_witness:
  "distinct (map (\<lambda>x. (item_type x, ai_id x)) (mg_getSelectedContextItems demo_selected_manager)) \<and>
   mg_getSelectedContextItems demo_selected_manager = [demo_item ''a'' True] \<and>
   (\<exists>i. available_provider demo_selected_manager (item_type (demo_item ''a'' True)) = Some i \<and>
      demo_item ''a'' True \<in> set (ap_selected (mg_providers demo_selected_manager ! i)))"
  using selection_unique [OF demo_manager_reach(2,3)] demo_selected_items by auto

theorem policy_answer_ignored_witness:
  "\<exists>x \<in> set (mg_getSelectedContextItems demo_selected_manager). same_item x (demo_item ''a'' True)"
  using policy_answer_ignored [OF demo_manager_reach(1,3), of "demo_item ''a'' True" 0 demo_ops]
  by (simp add: demo_ops_def [of 0] demo_selected_manager_def)

theorem removal_answer_witness:
  "fst (mg_removeSelectedContextItem (demo_item ''a'' False) demo_selected_manager) \<and>
   mg_getSelectedContextItems (snd (mg_removeSelectedContextItem (demo_item ''a'' False) demo_selected_manager)) = []"
  using removal_answer [OF demo_manager_reach(2,3), of "demo_item ''a'' False"]
  by (simp add: demo_selected_items same_item_def)

theorem add_then_remove_witness:
  "mg_getSelectedContextItems (snd (mg_removeSelectedContextItem (demo_item ''b'' True)
     (snd (mg_addSelectedContextItem demo_ops (demo_item ''b'' True) demo_selected_manager)))) = [demo_item ''a'' True]"
  using add_then_remove [OF demo_manager_reach(2,3), of "demo_item ''b'' True" demo_ops]
  by (simp add: demo_selected_items same_item_def)

definition demo_stars :: "text16 \<Rightarrow> string \<Rightarrow> js_error + text16" where
  "demo_stars s i = Inr (if s = widen ''key'' then widen ''***'' else s)"

theorem retrieved_content_redacted_witness:
  "\<exists>x. mg_retrieveContextItemsWithContent (default_transformers True demo_stars) demo_ops (Duo_chat_request :: unit ai_request)
     demo_selected_manager = Inr [x] \<and> item_text x \<noteq> [] \<and> (\<exists>y. demo_stars (item_text y) ''a'' = Inr (item_text x))"
proof -
  let ?x = "(demo_item ''a'' True)\<lparr>ai_content := Some (widen ''***'')\<rparr>"
  have binary: "\<not> isBinaryContent (widen ''***'')"
    by (simp add: isBinaryContent_def BINARY_CHECK_BYTES_def control_unit_def)
  have r: "mg_retrieveContextItemsWithContent (default_transformers True demo_stars) demo_ops (Duo_chat_request :: unit ai_request)
     demo_selected_manager = Inr [?x]"
    using binary
    by (simp add: mg_retrieveContextItemsWithContent_def demo_selected_eq demo_ops_def ap_new_def
        mg_transformItemContent_def default_transformers_def secret_transform_def binary_transform_def no_content_def
        item_text_def demo_stars_def)
  have "item_text ?x \<noteq> []" by (simp add: item_text_def)
  with retrieved_content_redacted [OF r, of ?x] have "item_text ?x \<noteq> [] \<and> (\<exists>y. demo_stars (item_text y) ''a'' = Inr (item_text ?x))"
    by auto
  with r show ?thesis by blast
qed

subsection \<open>What the manager expects of a provider\<close>

text \<open>A search yields items of the provider's own type, in a category the type belongs to, which give reasons exactly
  when they are disabled; fetching the content of an item changes nothing else of it.\<close>

locale context_provider =
  fixes kind :: ai_provider_type
    and found :: "'q \<Rightarrow> wide_item list"
    and with_content :: "'e \<Rightarrow> wide_item \<Rightarrow> js_error + wide_item"
  assumes found_type: "x \<in> set (found q) \<Longrightarrow> item_type x = kind"
    and found_category: "x \<in> set (found q) \<Longrightarrow> kind \<in> set (provider_types (ai_category x))"
    and found_reasons: "x \<in> set (found q) \<Longrightarrow>
      am_enabled (ai_metadata x) \<longleftrightarrow> or_else (am_disabledReasons (ai_metadata x)) [] = []"
    and content_keeps: "with_content e x = Inr y \<Longrightarrow>
      ai_id y = ai_id x \<and> ai_category y = ai_category x \<and> ai_metadata y = ai_metadata x"
begin

lemma found_can_be_selected:
  assumes "x \<in> set (found q)" and "ap_type p = kind" and "itemAllowedByPolicies can x = Inr response"
  shows "\<exists>p'. ap_addSelectedContextItem can x p = Inr p' \<and> ai_id x \<in> ai_id ` set (ap_selected p')"
proof (cases "findItemWithId (ai_id x) p")
  case None
  then show ?thesis
    using assms found_type [OF assms(1)] by (simp add: ap_addSelectedContextItem_def item_type_def)
next
  case (Some y)
  then show ?thesis
    using assms found_type [OF assms(1)] findItem_None [of "ai_id x" p]
    by (simp add: ap_addSelectedContextItem_def item_type_def)
qed

lemma retrieved_items:
  "all_results (map (with_content e) items) = Inr ys \<Longrightarrow>
   map ai_id ys = map ai_id items \<and> map ai_category ys = map ai_category items \<and>
   map ai_metadata ys = map ai_metadata items"
proof (induction items arbitrary: ys)
  case (Cons x xs)
  from Cons.prems obtain y zs where *: "with_content e x = Inr y" "all_results (map (with_content e) xs) = Inr zs" "ys = y # zs"
    by (cases "with_content e x"; cases "all_results (map (with_content e) xs)") auto
  from Cons.IH [OF *(2)] content_keeps [OF *(1)] *(3) show ?case by simp
qed simp

lemma retrieval_fails: "x \<in> set items \<Longrightarrow> with_content e x = Inl err \<Longrightarrow> isl (all_results (map (with_content e) items))"
proof (induction items)
  case (Cons y ys)
  show ?case
  proof (cases "with_content e y")
    case (Inr z)
    with Cons.prems have "x \<in> set ys" by auto
    from Cons.IH [OF this Cons.prems(2)] Inr show ?thesis
      by (cases "all_results (map (with_content e) ys)") simp_all
  qed simp
qed simp

end

end
