(* ===== verification/Dependency_Scanner.thy ===== *)
theory Dependency_Scanner
  imports Document_Context Js_Regex
begin

text \<open>
  The dependencies a repository declares
  (\<open>src/common/ai_context_management/context_providers/depdendency_scanner/\<close>): which files declare them
  (\<open>scanner.ts\<close>, \<open>types.ts\<close>) and how each kind of file is parsed (\<open>parser.ts\<close>).

  Parameters: \<open>JSON.parse\<close>, \<open>js-yaml\<close> and \<open>fast-xml-parser\<close>, as views of the parts of their results the
  sources use.
\<close>

subsection \<open>Splitting\<close>

text \<open>\<open>s.split(sep)\<close> for a separator that is not empty; the accumulator is the current part, reversed.\<close>

function split_acc :: "string \<Rightarrow> string \<Rightarrow> string \<Rightarrow> string list" where
  "split_acc sep acc [] = [rev acc]"
| "split_acc sep acc (c # s) =
     (if prefix sep (c # s) then rev acc # split_acc sep [] (drop (length sep - 1) s)
      else split_acc sep (c # acc) s)"
  by pat_completeness auto
termination by (relation "measure (\<lambda>(_, _, s). length s)") auto

definition split_str :: "string \<Rightarrow> string \<Rightarrow> string list" where
  "split_str sep s = split_acc sep [] s"

definition splitLines :: "string \<Rightarrow> string list" where
  "splitLines content = split_on newline content"

subsection \<open>Dependencies\<close>

record dependency_library =
  dl_name :: string
  dl_version :: "string option"

definition parseDependency :: "string \<Rightarrow> string \<Rightarrow> dependency_library" where
  "parseDependency line separator =
     (let parts = split_str separator (trim line)
      in \<lparr>dl_name = trim (hd parts), dl_version = Some (trim (join separator (tl parts)))\<rparr>)"

definition scan_line ::
  "(string \<Rightarrow> bool) \<Rightarrow> (string \<Rightarrow> bool) \<Rightarrow> (string \<Rightarrow> dependency_library option) \<Rightarrow>
   string \<Rightarrow> bool \<times> dependency_library list \<Rightarrow> bool \<times> dependency_library list" where
  "scan_line startCondition endCondition parseLine line st =
     (let (inSection, deps) = st in
      if \<not> inSection \<and> startCondition line then (True, deps)
      else if inSection \<and> endCondition line then (False, deps)
      else if inSection then
        (case parseLine line of
           None \<Rightarrow> (inSection, deps)
         | Some dep \<Rightarrow> (inSection, if dl_name dep \<noteq> [] then deps @ [dep] else deps))
      else (inSection, deps))"

definition scanBySection ::
  "string list \<Rightarrow> (string \<Rightarrow> bool) \<Rightarrow> (string \<Rightarrow> bool) \<Rightarrow> (string \<Rightarrow> dependency_library option) \<Rightarrow>
   dependency_library list" where
  "scanBySection lines startCondition endCondition parseLine =
     snd (fold (scan_line startCondition endCondition parseLine) lines (False, []))"

text \<open>The views of parsed files.  \<open>dp_json\<close> gives the entries of a field, \<open>None\<close> for \<open>null\<close>; \<open>dp_vcpkg\<close> the
  dependencies of a field, a text or a name with an optional version; \<open>dp_yaml\<close> the field \<open>dependencies\<close>, with
  \<open>None\<close> for an entry that is not a text; \<open>dp_pom\<close> and \<open>dp_csproj\<close> elements that occur once or several times.\<close>

datatype 'a elements = One_element 'a | Elements "'a list"

record dependency_parsers =
  dp_json :: "string \<Rightarrow> js_error + (string \<Rightarrow> (string \<times> string) list option) option"
  dp_vcpkg :: "string \<Rightarrow> js_error + (string \<Rightarrow> (string + dependency_library) list option) option"
  dp_yaml :: "string \<Rightarrow> js_error + string option list option option"
  dp_pom :: "string \<Rightarrow> js_error + dependency_library elements option"
  dp_csproj :: "string \<Rightarrow> js_error + dependency_library elements option elements option"

type_synonym scan_result = "js_error + dependency_library list"

definition parseJSONDependencies :: "dependency_parsers \<Rightarrow> string \<Rightarrow> string list \<Rightarrow> scan_result" where
  "parseJSONDependencies P content keys =
     (case dp_json P content of
        Inl e \<Rightarrow> Inl e
      | Inr None \<Rightarrow> Inl TypeError
      | Inr (Some json) \<Rightarrow>
          Inr (concat (map (\<lambda>key. map (\<lambda>(name, version). \<lparr>dl_name = name, dl_version = Some version\<rparr>)
            (case json key of None \<Rightarrow> [] | Some entries \<Rightarrow> entries)) keys)))"

subsection \<open>The kinds of files\<close>

definition scanGemfileLock :: "string \<Rightarrow> dependency_library list" where
  "scanGemfileLock content =
     scanBySection (splitLines content) (\<lambda>line. line = ''DEPENDENCIES'') (\<lambda>line. line = [])
       (\<lambda>line. Some (parseDependency line '' ''))"

definition scanPackageJSON :: "dependency_parsers \<Rightarrow> string \<Rightarrow> scan_result" where
  "scanPackageJSON P content = parseJSONDependencies P content [''dependencies'', ''devDependencies'']"

definition scanGoMod :: "string \<Rightarrow> dependency_library list" where
  "scanGoMod content =
     scanBySection (splitLines content) (\<lambda>line. starts_with line ''require'') (\<lambda>line. line = '')'')
       (\<lambda>line. Some
         (if starts_with line ''require '' then parseDependency (replace_first ''require '' [] line) '' ''
          else parseDependency (trim line) '' ''))"

definition quote_char :: char where "quote_char = CHR 0x22"

definition scanPythonPoetry :: "string \<Rightarrow> dependency_library list" where
  "scanPythonPoetry content =
     scanBySection (splitLines content)
       (\<lambda>line. starts_with line ''[tool.poetry'' \<and> ends_with line ''dependencies]'') (\<lambda>line. line = [])
       (\<lambda>line. let parts = map (\<lambda>s. filter (\<lambda>c. c \<noteq> quote_char) (trim s)) (split_on CHR ''='' line) in
          Some \<lparr>dl_name = hd parts, dl_version = (case tl parts of [] \<Rightarrow> None | v # _ \<Rightarrow> Some v)\<rparr>)"

definition scanPythonPip :: "string \<Rightarrow> dependency_library list" where
  "scanPythonPip content =
     map (\<lambda>line. parseDependency (trim (hd (split_on CHR ''#'' line))) ''=='')
       (filter (\<lambda>line. trim line \<noteq> [] \<and> \<not> starts_with (trim line) ''#'' \<and> \<not> starts_with (trim line) ''-r'')
         (splitLines content))"

definition scanPythonConda :: "dependency_parsers \<Rightarrow> string \<Rightarrow> scan_result" where
  "scanPythonConda P content =
     (case dp_yaml P content of
        Inl e \<Rightarrow> Inl e
      | Inr None \<Rightarrow> Inl TypeError
      | Inr (Some None) \<Rightarrow> Inl TypeError
      | Inr (Some (Some dependencies)) \<Rightarrow>
          Inr (map (\<lambda>dep. parseDependency dep ''='') (List.map_filter id dependencies)))"

definition scanPHPComposer :: "dependency_parsers \<Rightarrow> string \<Rightarrow> scan_result" where
  "scanPHPComposer P content = parseJSONDependencies P content [''require'', ''require-dev'']"

definition scanPomXML :: "dependency_parsers \<Rightarrow> string \<Rightarrow> scan_result" where
  "scanPomXML P content =
     map_sum id (\<lambda>dependencies. case dependencies of
         None \<Rightarrow> []
       | Some (One_element d) \<Rightarrow> [d]
       | Some (Elements ds) \<Rightarrow> ds)
       (dp_pom P content)"

definition word_char :: "char \<Rightarrow> bool" where
  "word_char c \<longleftrightarrow> (let n = of_char c :: nat in
     48 \<le> n \<and> n \<le> 57 \<or> 65 \<le> n \<and> n \<le> 90 \<or> n = 95 \<or> 97 \<le> n \<and> n \<le> 122)"

definition quote_rx :: rx where
  "quote_rx = Rx_char (\<lambda>c. c = quote_char \<or> c = CHR 0x27)"

definition some_any :: rx where
  "some_any = rx_plus True (Rx_char rx_any)"

abbreviation lit :: "char \<Rightarrow> rx" where
  "lit x \<equiv> Rx_char (\<lambda>c. c = x)"

definition gradle_rx :: rx where
  "gradle_rx = rx_cat [Rx_group 1 (rx_plus True (Rx_char word_char)), Rx_star True (Rx_char is_ws),
     rx_opt (lit CHR ''(''), quote_rx, Rx_group 2 some_any, lit CHR '':'', Rx_group 3 some_any, lit CHR '':'',
     Rx_group 4 some_any, quote_rx, rx_opt (lit CHR '')'')]"

definition rx_part :: "(nat \<Rightarrow> string option) \<Rightarrow> nat \<Rightarrow> string" where
  "rx_part m n = (case m n of None \<Rightarrow> ''undefined'' | Some s \<Rightarrow> s)"

definition scanBuildGradle :: "string \<Rightarrow> dependency_library list" where
  "scanBuildGradle content =
     scanBySection (splitLines content) (\<lambda>line. starts_with line ''dependencies {'') (\<lambda>line. line = ''}'')
       (\<lambda>line. map_option (\<lambda>m. \<lparr>dl_name = rx_part m 2 @ '':'' @ rx_part m 3, dl_version = Some (rx_part m 4)\<rparr>)
         (rx_match gradle_rx line))"

text \<open>The first group with references; a single reference is no array, and a missing group is \<open>undefined\<close>.\<close>

definition scanCSharpProject :: "dependency_parsers \<Rightarrow> string \<Rightarrow> scan_result" where
  "scanCSharpProject P content =
     (case dp_csproj P content of
        Inl e \<Rightarrow> Inl e
      | Inr None \<Rightarrow> Inl TypeError
      | Inr (Some itemGroups) \<Rightarrow>
          (case List.find (\<lambda>g. g \<noteq> None) (case itemGroups of One_element g \<Rightarrow> [g] | Elements gs \<Rightarrow> gs) of
             None \<Rightarrow> Inr []
           | Some None \<Rightarrow> Inr []
           | Some (Some (One_element d)) \<Rightarrow> Inl TypeError
           | Some (Some (Elements ds)) \<Rightarrow> Inr ds))"

definition scanCppConanTxt :: "string \<Rightarrow> dependency_library list" where
  "scanCppConanTxt content =
     scanBySection (splitLines content) (\<lambda>line. starts_with line ''[requires]'') (\<lambda>line. starts_with line ''['')
       (\<lambda>line. if line \<noteq> [] \<and> \<not> starts_with line ''#'' then Some (parseDependency line ''/'') else None)"

definition conan_rx :: rx where
  "conan_rx = rx_cat [quote_rx, Rx_group 1 some_any, lit CHR ''/'', Rx_group 2 some_any, quote_rx]"

definition conan_requires_rx :: rx where
  "conan_requires_rx = rx_cat [rx_str ''self.requires('', lit quote_char, Rx_group 1 some_any, lit CHR ''/'',
     Rx_group 2 some_any, lit quote_char, lit CHR '')'']"

definition conan_dependency :: "(nat \<Rightarrow> string option) \<Rightarrow> dependency_library" where
  "conan_dependency m = \<lparr>dl_name = rx_part m 1, dl_version = Some (rx_part m 2)\<rparr>"

definition scanCppConanPy :: "string \<Rightarrow> dependency_library list" where
  "scanCppConanPy content =
     scanBySection (splitLines content) (\<lambda>line. starts_with (trim line) ''requires ='')
       (\<lambda>line. starts_with (trim line) '')'') (\<lambda>line. map_option conan_dependency (rx_match conan_rx (trim line))) @
     List.map_filter (\<lambda>line. map_option conan_dependency (rx_match conan_requires_rx line))
       (filter (\<lambda>line. starts_with (trim line) ''self.requires('') (splitLines content))"

definition vcpkg_dependencies :: "(string + dependency_library) list option \<Rightarrow> dependency_library list" where
  "vcpkg_dependencies deps =
     map (\<lambda>dep. case dep of
         Inl s \<Rightarrow> parseDependency s ''@''
       | Inr d \<Rightarrow> d\<lparr>dl_version := Some (case dl_version d of None \<Rightarrow> [] | Some v \<Rightarrow> v)\<rparr>)
       (case deps of None \<Rightarrow> [] | Some ds \<Rightarrow> ds)"

definition scanVcpkgJSON :: "dependency_parsers \<Rightarrow> string \<Rightarrow> scan_result" where
  "scanVcpkgJSON P content =
     (case dp_vcpkg P content of
        Inl e \<Rightarrow> Inl e
      | Inr None \<Rightarrow> Inl TypeError
      | Inr (Some data) \<Rightarrow>
          Inr (vcpkg_dependencies (data ''dependencies'') @ vcpkg_dependencies (data ''test-dependencies'')))"

definition parseDependencyFile :: "dependency_parsers \<Rightarrow> string \<Rightarrow> string \<Rightarrow> scan_result" where
  "parseDependencyFile P type content =
     (if type = ''ruby'' then Inr (scanGemfileLock content)
      else if type = ''javascript'' then scanPackageJSON P content
      else if type = ''go'' then Inr (scanGoMod content)
      else if type = ''poetry'' then Inr (scanPythonPoetry content)
      else if type = ''pip'' then Inr (scanPythonPip content)
      else if type = ''conda'' then scanPythonConda P content
      else if type = ''php'' then scanPHPComposer P content
      else if type = ''maven'' then scanPomXML P content
      else if type = ''gradle'' then Inr (scanBuildGradle content)
      else if type = ''csharp'' then scanCSharpProject P content
      else if type = ''conantxt'' then Inr (scanCppConanTxt content)
      else if type = ''conanpy'' then Inr (scanCppConanPy content)
      else if type = ''vcpkg'' then scanVcpkgJSON P content
      else Inr [])"

subsection \<open>Which files\<close>

record dependency_type =
  dty_lang :: string
  dty_type :: string
  dty_fileName :: string

definition dty :: "string \<Rightarrow> string \<Rightarrow> string \<Rightarrow> dependency_type" where
  "dty lang type fileName = \<lparr>dty_lang = lang, dty_type = type, dty_fileName = fileName\<rparr>"

definition DEPENDENCY_TYPES :: "dependency_type list" where
  "DEPENDENCY_TYPES =
     [dty ''ruby'' ''ruby'' ''Gemfile.lock'', dty ''javascript'' ''javascript'' ''package.json'',
      dty ''go'' ''go'' ''go.mod'', dty ''python'' ''poetry'' ''pyproject.toml'',
      dty ''python'' ''pip'' ''requirements.txt'', dty ''python'' ''conda'' ''environment.yml'',
      dty ''php'' ''php'' ''composer.json'', dty ''java'' ''maven'' ''pom.xml'',
      dty ''java'' ''gradle'' ''build.gradle'', dty ''kotlin'' ''gradle'' ''build.gradle.kts'',
      dty ''csharp'' ''csharp'' (''^.*'' @ [CHR 0x5C] @ ''.csharp''), dty ''cpp'' ''conantxt'' ''conanfile.txt'',
      dty ''cpp'' ''conanpy'' ''conanfile.py'', dty ''cpp'' ''vcpkg'' ''vcpkg.json'']"

text \<open>The file name is used as an expression: of the syntax, the names use \<open>^\<close>, \<open>.\<close>, \<open>.*\<close> and escapes.\<close>

fun pattern_rx :: "string \<Rightarrow> rx" where
  "pattern_rx [] = Rx_end"
| "pattern_rx (c # s) =
     (if c = CHR ''^'' then Rx_seq Rx_begin (pattern_rx s)
      else if c = CHR 0x5C \<and> s \<noteq> [] then Rx_seq (lit (hd s)) (pattern_rx (tl s))
      else if c = CHR ''.'' \<and> s \<noteq> [] \<and> hd s = CHR ''*'' then Rx_seq (Rx_star True (Rx_char rx_any)) (pattern_rx (tl s))
      else if c = CHR ''.'' then Rx_seq (Rx_char rx_any) (pattern_rx s)
      else Rx_seq (lit c) (pattern_rx s))"

definition dependencyFileType :: "string \<Rightarrow> dependency_type option" where
  "dependencyFileType path = List.find (\<lambda>type. rx_test (pattern_rx (dty_fileName type)) path) DEPENDENCY_TYPES"

subsection \<open>Sections\<close>

lemma scan_outside:
  "\<forall>line \<in> set ls. \<not> start line \<Longrightarrow> fold (scan_line start end parse) ls (False, deps) = (False, deps)"
  by (induction ls) (auto simp: scan_line_def)

definition named_dependency :: "(string \<Rightarrow> dependency_library option) \<Rightarrow> string \<Rightarrow> dependency_library option" where
  "named_dependency parse line =
     (case parse line of None \<Rightarrow> None | Some d \<Rightarrow> if dl_name d = [] then None else Some d)"

lemma scan_inside:
  "\<forall>line \<in> set ls. \<not> end line \<Longrightarrow>
   fold (scan_line start end parse) ls (True, deps) = (True, deps @ List.map_filter (named_dependency parse) ls)"
proof (induction ls arbitrary: deps)
  case (Cons l ls)
  then have "scan_line start end parse l (True, deps) =
      (True, deps @ (case named_dependency parse l of None \<Rightarrow> [] | Some d \<Rightarrow> [d]))"
    by (auto simp: scan_line_def named_dependency_def split: option.split)
  with Cons show ?case by (simp add: map_filter_simps split: option.split)
qed (simp add: map_filter_simps)

text \<open>A section between its first line and its last; what follows may contain more sections.\<close>

lemma scan_section:
  assumes "\<forall>line \<in> set before. \<not> start line" and "start first" and "\<forall>line \<in> set body. \<not> end line" and "end close"
  shows "scanBySection (before @ first # body @ close # after) start end parse =
    List.map_filter (named_dependency parse) body @ scanBySection after start end parse"
proof -
  have acc: "snd (fold (scan_line start end parse) ls (b, deps)) =
      deps @ snd (fold (scan_line start end parse) ls (b, []))" for ls b deps
  proof (induction ls arbitrary: b deps)
    case (Cons l ls)
    have "\<exists>b' new. \<forall>deps. scan_line start end parse l (b, deps) = (b', deps @ new)"
      by (cases "parse l") (auto simp: scan_line_def)
    then obtain b' new where eq: "\<And>deps. scan_line start end parse l (b, deps) = (b', deps @ new)" by blast
    have "snd (fold (scan_line start end parse) (l # ls) (b, deps)) =
        snd (fold (scan_line start end parse) ls (b', deps @ new))" by (simp add: eq)
    also have "\<dots> = (deps @ new) @ snd (fold (scan_line start end parse) ls (b', []))" by (rule Cons.IH)
    also have "\<dots> = deps @ snd (fold (scan_line start end parse) ls (b', new))" by (simp add: Cons.IH [of b' new])
    also have "\<dots> = deps @ snd (fold (scan_line start end parse) (l # ls) (b, []))" by (simp add: eq)
    finally show ?case .
  qed simp
  have first: "scan_line start end parse first (False, []) = (True, [])" using assms(2) by (simp add: scan_line_def)
  have close: "scan_line start end parse close (True, deps) = (False, deps)" for deps using assms(4) by (simp add: scan_line_def)
  have "fold (scan_line start end parse) (before @ first # body @ close # after) (False, []) =
      fold (scan_line start end parse) after (False, List.map_filter (named_dependency parse) body)"
    by (simp add: scan_outside [OF assms(1)] first scan_inside [OF assms(3)] close)
  then show ?thesis
    unfolding scanBySection_def by (simp only: acc [of after False "List.map_filter (named_dependency parse) body"])
qed

subsection \<open>Requirements of pip\<close>

definition clean :: "char \<Rightarrow> bool" where
  "clean c \<longleftrightarrow> \<not> is_ws c \<and> c \<noteq> CHR ''='' \<and> c \<noteq> CHR ''#''"

definition pip_line :: "string \<times> string \<Rightarrow> string" where
  "pip_line d = fst d @ ''=='' @ snd d"

definition pip_ok :: "string \<times> string \<Rightarrow> bool" where
  "pip_ok d \<longleftrightarrow> fst d \<noteq> [] \<and> snd d \<noteq> [] \<and> list_all clean (fst d) \<and> list_all clean (snd d) \<and>
     \<not> starts_with (fst d) ''-r''"

lemma split_acc_skip: "CHR ''='' \<notin> set n \<Longrightarrow> split_acc ''=='' acc (n @ s) = split_acc ''=='' (rev n @ acc) s"
  by (induction n arbitrary: acc) auto

lemma split_pip: "CHR ''='' \<notin> set n \<Longrightarrow> CHR ''='' \<notin> set v \<Longrightarrow> split_str ''=='' (n @ ''=='' @ v) = [n, v]"
  using split_acc_skip [of n "[]" "''=='' @ v"] split_acc_skip [of v "[]" "[]"] by (simp add: split_str_def)

lemma trim_id: "s = [] \<or> \<not> is_ws (hd s) \<and> \<not> is_ws (last s) \<Longrightarrow> trim s = s"
proof -
  assume "s = [] \<or> \<not> is_ws (hd s) \<and> \<not> is_ws (last s)"
  moreover have "dropWhile P xs = xs" if "xs = [] \<or> \<not> P (hd xs)" for P and xs :: string
    using that by (cases xs) auto
  ultimately show ?thesis by (auto simp: trim_def trim_start_def trim_end_def hd_rev)
qed

lemma list_all_ends: "list_all P s \<Longrightarrow> s \<noteq> [] \<Longrightarrow> P (hd s) \<and> P (last s)"
  by (simp add: list_all_iff)

lemma pip_line_parts:
  assumes "pip_ok d"
  shows "trim (pip_line d) = pip_line d" "pip_line d \<noteq> []" "\<not> starts_with (pip_line d) ''#''"
    "\<not> starts_with (pip_line d) ''-r''" "hd (split_on CHR ''#'' (pip_line d)) = pip_line d" "newline \<notin> set (pip_line d)"
    "parseDependency (pip_line d) ''=='' = \<lparr>dl_name = fst d, dl_version = Some (snd d)\<rparr>"
proof -
  obtain n v where d: "d = (n, v)" by fastforce
  have ne: "n \<noteq> []" "v \<noteq> []" and all: "list_all clean n" "list_all clean v" and r: "\<not> starts_with n ''-r''"
    using assms by (auto simp: d pip_ok_def)
  note ends = list_all_ends [OF all(1) ne(1)] list_all_ends [OF all(2) ne(2)]
  show trim: "trim (pip_line d) = pip_line d"
    using ends ne by (intro trim_id) (auto simp: d pip_line_def clean_def)
  show "pip_line d \<noteq> []" by (simp add: d pip_line_def)
  show "\<not> starts_with (pip_line d) ''#''"
    using ne(1) ends by (cases n) (auto simp: d pip_line_def clean_def)
  show "\<not> starts_with (pip_line d) ''-r''"
    using ne(1) r by (cases n; cases "tl n") (auto simp: d pip_line_def)
  have "CHR ''#'' \<notin> set (pip_line d)"
    using all by (auto simp: d pip_line_def list_all_iff clean_def)
  then have "split_on CHR ''#'' (pip_line d) = [pip_line d]" by (rule split_on_single)
  then show "hd (split_on CHR ''#'' (pip_line d)) = pip_line d" by simp
  have "\<not> clean newline" by (simp add: clean_def is_ws_def)
  then have "newline \<notin> set n" "newline \<notin> set v" using all unfolding list_all_iff by metis+
  then show "newline \<notin> set (pip_line d)" by (simp add: d pip_line_def)
  have "CHR ''='' \<notin> set n" "CHR ''='' \<notin> set v" using all by (auto simp: list_all_iff clean_def)
  then have "split_str ''=='' (pip_line d) = [n, v]"
    unfolding d pip_line_def fst_conv snd_conv by (rule split_pip)
  moreover have "trim n = n" "trim v = v"
    using ends by (auto intro!: trim_id simp: clean_def)
  ultimately show "parseDependency (pip_line d) ''=='' = \<lparr>dl_name = fst d, dl_version = Some (snd d)\<rparr>"
    unfolding parseDependency_def trim by (simp only: Let_def list.sel join.simps d fst_conv snd_conv)
qed

text \<open>Requirements written one per line as \<open>name==version\<close> are read back exactly, in order.\<close>

theorem pip_roundtrip:
  assumes "list_all pip_ok ds"
  shows "scanPythonPip (join [newline] (map pip_line ds)) =
    map (\<lambda>(name, version). \<lparr>dl_name = name, dl_version = Some version\<rparr>) ds"
proof (cases "ds = []")
  case True
  then show ?thesis by (simp add: scanPythonPip_def splitLines_def trim_Nil_iff)
next
  case False
  have lines: "splitLines (join [newline] (map pip_line ds)) = map pip_line ds"
    unfolding splitLines_def using assms False pip_line_parts(6) by (intro split_on_join) (auto simp: list_all_iff)
  have "filter (\<lambda>line. trim line \<noteq> [] \<and> \<not> starts_with (trim line) ''#'' \<and> \<not> starts_with (trim line) ''-r'') (map pip_line ds) =
      map pip_line ds"
    using assms pip_line_parts(1-4) by (auto simp: filter_id_conv list_all_iff)
  then show ?thesis
    unfolding scanPythonPip_def lines using assms pip_line_parts(1,5,7)
    by (auto simp: list_all_iff split: prod.splits)
qed

text \<open>A lock file of Ruby yields one dependency for each line of its section that names one, in order; sections of
  other names contribute nothing.\<close>

theorem gemfile_section:
  assumes "splitLines content = before @ ''DEPENDENCIES'' # body @ [] # after"
    and "''DEPENDENCIES'' \<notin> set before" and "[] \<notin> set body" and "''DEPENDENCIES'' \<notin> set after"
  shows "scanGemfileLock content =
    List.map_filter (named_dependency (\<lambda>line. Some (parseDependency line '' ''))) body"
proof -
  have "scanBySection after (\<lambda>line. line = ''DEPENDENCIES'') (\<lambda>line. line = []) (\<lambda>line. Some (parseDependency line '' '')) = []"
    unfolding scanBySection_def using assms(4) by (subst scan_outside) auto
  moreover have "\<forall>line \<in> set before. \<not> line = ''DEPENDENCIES''" "\<forall>line \<in> set body. \<not> line = []"
    using assms(2,3) by blast+
  ultimately show ?thesis
    unfolding scanGemfileLock_def assms(1)
    using scan_section [of before "\<lambda>line. line = ''DEPENDENCIES''" "''DEPENDENCIES''" body "\<lambda>line. line = []" "[]"]
    by simp
qed

text \<open>A requirement of a Go module that is written on one line, without parentheses, is never found: its line is
  taken for the start of a section.\<close>

theorem go_single_requirement_lost:
  assumes "splitLines content = before @ [''require '' @ dependency]"
    and "\<forall>line \<in> set before. \<not> starts_with line ''require''"
  shows "scanGoMod content = []"
  unfolding scanGoMod_def assms(1) scanBySection_def
  by (simp add: scan_outside [OF assms(2)] scan_line_def)

theorem pip_roundtrip_witness:
  "scanPythonPip (join [newline] [''a==1'', ''b==2'']) =
     [\<lparr>dl_name = ''a'', dl_version = Some ''1''\<rparr>, \<lparr>dl_name = ''b'', dl_version = Some ''2''\<rparr>]"
  using pip_roundtrip [of "[(''a'', ''1''), (''b'', ''2'')]"]
  by (simp add: pip_ok_def clean_def is_ws_def pip_line_def)

theorem gemfile_section_witness:
  "scanGemfileLock (join [newline] [''GEM'', ''DEPENDENCIES'', ''  rails (= 7)'', [], ''OTHER'']) =
     [\<lparr>dl_name = ''rails'', dl_version = Some ''(= 7)''\<rparr>]"
  using gemfile_section [of "join [newline] [''GEM'', ''DEPENDENCIES'', ''  rails (= 7)'', [], ''OTHER'']" "[''GEM'']"
      "[''  rails (= 7)'']" "[''OTHER'']"]
  by (simp add: splitLines_def named_dependency_def parseDependency_def split_str_def trim_def trim_start_def
      trim_end_def is_ws_def map_filter_simps)

theorem go_single_requirement_lost_witness:
  "scanGoMod (join [newline] [''module m'', ''require a.b/c v1'']) = []"
  using go_single_requirement_lost [of "join [newline] [''module m'', ''require a.b/c v1'']" "[''module m'']" "''a.b/c v1''"]
  by (simp add: splitLines_def)

end
