(* ===== verification/Feature_Access.thy ===== *)
theory Feature_Access
  imports AI_Context
begin

text \<open>
  Which context features the user's account offers
  (\<open>src/common/services/duo_access/duo_feature_access_service.ts\<close>): a promise of the set of features, shared by the
  calls until the API is reconfigured.

  A promise is a position in the list of promises.  It waits for the API to be configured for the first time, or for
  the answer of the API, or has the features.  The number of reconfigurations so far identifies the API a request
  goes to.
\<close>

datatype duo_feature =
    IncludeFileContext | IncludeSnippetContext | IncludeMergeRequestContext | IncludeIssueContext
  | IncludeDependencyContext | IncludeLocalGitContext

definition feature_name :: "duo_feature \<Rightarrow> string" where
  "feature_name f =
     (case f of
        IncludeFileContext \<Rightarrow> ''include_file_context''
      | IncludeSnippetContext \<Rightarrow> ''include_snippet_context''
      | IncludeMergeRequestContext \<Rightarrow> ''include_merge_request_context''
      | IncludeIssueContext \<Rightarrow> ''include_issue_context''
      | IncludeDependencyContext \<Rightarrow> ''include_dependency_context''
      | IncludeLocalGitContext \<Rightarrow> ''include_local_git_context'')"

datatype features_promise =
    Waits_for_api
  | Requested nat
  | Has_features nat "string list"

record feature_access =
  fa_featuresPromise :: "nat option"
  fa_promises :: "features_promise list"
  fa_instanceInfo :: bool
  fa_reconfigured :: nat

definition fa_new :: "bool \<Rightarrow> feature_access" where
  "fa_new instanceInfo =
     \<lparr>fa_featuresPromise = None, fa_promises = [], fa_instanceInfo = instanceInfo, fa_reconfigured = 0\<rparr>"

definition fetchFeatures :: "feature_access \<Rightarrow> features_promise" where
  "fetchFeatures s = (if fa_instanceInfo s then Requested (fa_reconfigured s) else Waits_for_api)"

text \<open>The listener of the constructor comes first; then those of the waiting promises fetch again.\<close>

definition fa_onApiReconfigured :: "bool \<Rightarrow> feature_access \<Rightarrow> feature_access" where
  "fa_onApiReconfigured instanceInfo s =
     (let s1 = s\<lparr>fa_featuresPromise := None, fa_instanceInfo := instanceInfo, fa_reconfigured := fa_reconfigured s + 1\<rparr>
      in s1\<lparr>fa_promises := map (\<lambda>p. if p = Waits_for_api then fetchFeatures s1 else p) (fa_promises s1)\<rparr>)"

text \<open>The answer to a request; without one the account has no features.\<close>

definition fa_fetched :: "nat \<Rightarrow> js_error + string list \<Rightarrow> feature_access \<Rightarrow> feature_access" where
  "fa_fetched i answer s =
     (case fa_promises s ! i of
        Requested n \<Rightarrow>
          s\<lparr>fa_promises := (fa_promises s)[i := Has_features n (case answer of Inl e \<Rightarrow> [] | Inr fs \<Rightarrow> fs)]\<rparr>
      | _ \<Rightarrow> s)"

text \<open>\<open>isFeatureEnabled\<close> up to its \<open>await\<close>: the promise it waits for, none when nothing is required.\<close>

definition fa_isFeatureEnabled :: "duo_feature option \<Rightarrow> feature_access \<Rightarrow> nat option \<times> feature_access" where
  "fa_isFeatureEnabled requiredFeature s =
     (case requiredFeature of
        None \<Rightarrow> (None, s)
      | Some f \<Rightarrow>
          (case fa_featuresPromise s of
             Some i \<Rightarrow> (Some i, s)
           | None \<Rightarrow>
               let i = length (fa_promises s)
               in (Some i, s\<lparr>fa_promises := fa_promises s @ [fetchFeatures s], fa_featuresPromise := Some i\<rparr>)))"

definition feature_response :: "duo_feature option \<Rightarrow> string list \<Rightarrow> policy_response" where
  "feature_response requiredFeature features =
     (case requiredFeature of
        None \<Rightarrow> \<lparr>pr_enabled = True, pr_disabledReasons = None\<rparr>
      | Some f \<Rightarrow>
          let enabled = feature_name f \<in> set features
          in \<lparr>pr_enabled = enabled,
              pr_disabledReasons =
                (if enabled then None else Some [''Feature '' @ [CHR 0x22] @ feature_name f @ [CHR 0x22] @ '' is not enabled''])\<rparr>)"

text \<open>\<open>isAvailable\<close> of a provider.\<close>

definition ap_isAvailable :: "duo_feature option \<Rightarrow> feature_access \<Rightarrow> nat option \<times> feature_access" where
  "ap_isAvailable duoRequiredFeature s =
     (if duoRequiredFeature = None then (None, s) else fa_isFeatureEnabled duoRequiredFeature s)"

inductive fa_reach :: "feature_access \<Rightarrow> bool" where
  fa_start: "fa_reach (fa_new instanceInfo)"
| fa_reconfigure: "fa_reach s \<Longrightarrow> fa_reach (fa_onApiReconfigured instanceInfo s)"
| fa_answer: "fa_reach s \<Longrightarrow> i < length (fa_promises s) \<Longrightarrow> fa_reach (fa_fetched i answer s)"
| fa_ask: "fa_reach s \<Longrightarrow> fa_reach (snd (fa_isFeatureEnabled f s))"

definition promise_api :: "features_promise \<Rightarrow> nat option" where
  "promise_api p = (case p of Waits_for_api \<Rightarrow> None | Requested n \<Rightarrow> Some n | Has_features n fs \<Rightarrow> Some n)"

definition fa_ok :: "feature_access \<Rightarrow> bool" where
  "fa_ok s \<longleftrightarrow>
     (\<forall>i. fa_featuresPromise s = Some i \<longrightarrow> i < length (fa_promises s) \<and>
        promise_api (fa_promises s ! i) \<in> {None, Some (fa_reconfigured s)}) \<and>
     (\<forall>p \<in> set (fa_promises s). p = Waits_for_api \<longrightarrow> \<not> fa_instanceInfo s)"

lemma fa_ok_reach: "fa_reach s \<Longrightarrow> fa_ok s"
proof (induction rule: fa_reach.induct)
  case (fa_start instanceInfo)
  then show ?case by (simp add: fa_ok_def fa_new_def)
next
  case (fa_reconfigure s instanceInfo)
  then show ?case by (auto simp: fa_ok_def fa_onApiReconfigured_def fetchFeatures_def Let_def)
next
  case (fa_answer s i answer)
  show ?case
  proof (cases "fa_promises s ! i")
    case (Requested n)
    let ?fs = "case answer of Inl e \<Rightarrow> [] | Inr fs \<Rightarrow> fs"
    have eq: "fa_fetched i answer s = s\<lparr>fa_promises := (fa_promises s)[i := Has_features n ?fs]\<rparr>"
      by (simp add: fa_fetched_def Requested)
    have "promise_api ((fa_promises s)[i := Has_features n ?fs] ! j) = promise_api (fa_promises s ! j)" for j
      using fa_answer.hyps Requested by (cases "j = i") (auto simp: promise_api_def)
    moreover have "p = Has_features n ?fs \<or> p \<in> set (fa_promises s)" if "p \<in> set ((fa_promises s)[i := Has_features n ?fs])" for p
      using that set_update_subset_insert by fastforce
    ultimately show ?thesis using fa_answer.IH unfolding eq fa_ok_def by force
  qed (use fa_answer.IH in \<open>simp_all add: fa_fetched_def\<close>)
next
  case (fa_ask s f)
  then show ?case
    by (auto simp: fa_ok_def fa_isFeatureEnabled_def fetchFeatures_def promise_api_def Let_def nth_append
        split: option.splits)
qed

text \<open>A question asked after the API has been reconfigured is never answered from the features of an earlier
  configuration: its promise goes to the present API, or waits because none is configured.\<close>

theorem features_of_present_api:
  assumes "fa_reach s" and "fa_isFeatureEnabled (Some f) s = (Some i, s')"
  shows "i < length (fa_promises s') \<and>
    (promise_api (fa_promises s' ! i) = Some (fa_reconfigured s') \<or>
     fa_promises s' ! i = Waits_for_api \<and> \<not> fa_instanceInfo s')"
proof -
  have "fa_reach s'" using fa_ask [OF assms(1), of "Some f"] assms(2) by simp
  then have ok: "fa_ok s'" by (rule fa_ok_reach)
  have "fa_featuresPromise s' = Some i"
    using assms(2) by (auto simp: fa_isFeatureEnabled_def Let_def split: option.splits)
  with ok have *: "i < length (fa_promises s')" "promise_api (fa_promises s' ! i) \<in> {None, Some (fa_reconfigured s')}"
    by (auto simp: fa_ok_def)
  have "\<not> fa_instanceInfo s'" if "fa_promises s' ! i = Waits_for_api"
    using ok *(1) that by (metis fa_ok_def nth_mem)
  with * show ?thesis by (auto simp: promise_api_def split: features_promise.splits)
qed

theorem features_of_present_api_witness:
  "promise_api (fa_promises (snd (fa_isFeatureEnabled (Some IncludeIssueContext) (fa_onApiReconfigured True (fa_new False)))) ! 0) =
     Some 1"
proof -
  let ?s = "fa_onApiReconfigured True (fa_new False)"
  have "fa_reach ?s" by (intro fa_reconfigure fa_start)
  from features_of_present_api [OF this, of IncludeIssueContext 0 "snd (fa_isFeatureEnabled (Some IncludeIssueContext) ?s)"]
  show ?thesis
    by (auto simp: fa_isFeatureEnabled_def fa_onApiReconfigured_def fa_new_def fetchFeatures_def promise_api_def Let_def)
qed

end
