(* ===== verification/Context_Providers.thy ===== *)
theory Context_Providers
  imports AI_Context_Manager Dependency_Scanner Feature_Access Repository_Service
begin

text \<open>
  The context providers for files, local changes and dependencies
  (\<open>src/common/ai_context_management/context_providers/\<close>: \<open>open_tabs_provider.ts\<close>, \<open>file_local_search.ts\<close>,
  \<open>local_git_context_provider.ts\<close>, \<open>dependencies.ts\<close>, \<open>depdendency_scanner/scanner.ts\<close>).

  They read the open tabs, the repositories and the project cache; \<open>cx_filter\<close> is the filter of \<open>fuzzaldrin-plus\<close>,
  \<open>cx_gitDiff\<close> the request to the editor, \<open>cx_stringify\<close> is \<open>JSON.stringify\<close> on a list of objects with one field
  each.
\<close>

record ('u, 'l) context_env =
  cx_git :: "'u git_env"
  cx_host :: host
  cx_service :: "'u repo_service"
  cx_projects :: "'l project_cache"
  cx_policy :: "string option \<Rightarrow> policy_response"
  cx_filter :: "string list \<Rightarrow> string \<Rightarrow> nat option \<Rightarrow> string list"
  cx_readFile :: "string \<Rightarrow> js_error + text16"
  cx_readFirstBytes :: "string \<Rightarrow> nat \<Rightarrow> js_error + text16"
  cx_gitDiff :: "string \<Rightarrow> string option \<Rightarrow> js_error + text16"
  cx_parsers :: dependency_parsers
  cx_stringify :: "(string \<times> string list) list \<Rightarrow> text16"

abbreviation cx_uri :: "('u, 'l) context_env \<Rightarrow> 'u uri_api" where
  "cx_uri X \<equiv> ge_uri (cx_git X)"

definition file_item ::
  "ai_provider_type \<Rightarrow> string \<Rightarrow> string option \<Rightarrow> string \<Rightarrow> string list \<Rightarrow> duo_project option \<Rightarrow> string \<Rightarrow>
   workspace_folder \<Rightarrow> wide_item" where
  "file_item subType i languageId title disabledReasons project relativePath folder =
     \<lparr>ai_id = i, ai_category = Cat_file, ai_content = None,
      ai_metadata = \<lparr>am_title = title, am_enabled = (disabledReasons = []), am_disabledReasons = Some disabledReasons,
        am_subType = subType, am_icon = ''document'', am_secondaryText = relativePath, am_subTypeLabel = ''Project file'',
        am_languageId = languageId, am_iid = None, am_relativePath = Some relativePath,
        am_project = Some (case project of None \<Rightarrow> ''not a KhulnaSoft project''
                                         | Some p \<Rightarrow> gr_namespaceWithPath (dp_remote p)),
        am_workspaceFolder = Some folder, am_webUrl = None, am_libs = None, am_git = None\<rparr>\<rparr>"

definition project_reasons :: "duo_project_status \<Rightarrow> string list" where
  "project_reasons status = (if status = DuoDisabled then [''project disabled''] else [])"

subsection \<open>Open tabs\<close>

definition open_file_item :: "('u, 'l) context_env \<Rightarrow> doc_context \<Rightarrow> wide_item" where
  "open_file_item X doc =
     (let binaryReasons = (if isBinaryContent (widen (dc_prefix doc @ dc_suffix doc)) then [BINARY_FILE_DISABLED_REASON] else []);
          (project, projectReasons) =
            (case dc_workspaceFolder doc of
               None \<Rightarrow> (None, [])
             | Some folder \<Rightarrow> apsnd project_reasons (checkProjectStatus (cx_projects X) (dc_uri doc) folder));
          policy = cx_policy X (Some (dc_fileRelativePath doc));
          policyReasons = (if pr_enabled policy then [] else or_else (pr_disabledReasons policy) [])
      in file_item Open_tab (dc_uri doc) (Some (dc_languageId doc)) (ua_basename (cx_uri X) (parseURIString (cx_uri X) (dc_uri doc)))
           (binaryReasons @ projectReasons @ policyReasons) project (dc_fileRelativePath doc)
           (case dc_workspaceFolder doc of None \<Rightarrow> \<lparr>wf_uri = [], wf_name = []\<rparr> | Some f \<Rightarrow> f))"

definition getOpenFiles :: "('u, 'l) context_env \<Rightarrow> doc_context option \<Rightarrow> tab_cache \<Rightarrow> wide_item list" where
  "getOpenFiles X iDocContext tabs =
     map (open_file_item X) (mostRecentFiles iDocContext (iDocContext = None) tabs)"

definition ot_canItemBeAdded :: "('u, 'l) context_env \<Rightarrow> wide_item \<Rightarrow> js_error + policy_response" where
  "ot_canItemBeAdded X contextItem =
     Inr (cx_policy X (Some (or_else (am_relativePath (ai_metadata contextItem)) [])))"

definition ot_searchContextItems :: "('u, 'l) context_env \<Rightarrow> tab_cache \<Rightarrow> ai_query \<Rightarrow> wide_item list" where
  "ot_searchContextItems X tabs query = (if trim (aq_query query) \<noteq> [] then [] else getOpenFiles X None tabs)"

text \<open>Looking the content up counts as a use of the tab.\<close>

definition ot_getItemWithContent :: "wide_item \<Rightarrow> tab_cache \<Rightarrow> wide_item \<times> tab_cache" where
  "ot_getItemWithContent item tabs =
     (case getFile (ai_id item) tabs of
        (Some itemFile, tabs') \<Rightarrow> (item\<lparr>ai_content := Some (widen (dc_prefix itemFile @ dc_suffix itemFile))\<rparr>, tabs')
      | (None, tabs') \<Rightarrow> (item, tabs'))"

fun ot_retrieve :: "wide_item list \<Rightarrow> tab_cache \<Rightarrow> wide_item list \<times> tab_cache" where
  "ot_retrieve [] tabs = ([], tabs)"
| "ot_retrieve (item # items) tabs =
     (let (item', tabs1) = ot_getItemWithContent item tabs; (items', tabs2) = ot_retrieve items tabs1
      in (item' # items', tabs2))"

definition ot_getContextForCodeSuggestions ::
  "('u, 'l) context_env \<Rightarrow> doc_context \<Rightarrow> tab_cache \<Rightarrow> wide_item list \<times> tab_cache" where
  "ot_getContextForCodeSuggestions X iDocContext tabs = ot_retrieve (getOpenFiles X (Some iDocContext) tabs) tabs"

subsection \<open>Files of the workspace\<close>

definition LOCAL_MAX_RESULTS :: nat where "LOCAL_MAX_RESULTS = 100"

definition all_options :: get_file_options where
  "all_options = \<lparr>gfo_excludeGitFolder = True, gfo_excludeIgnored = True\<rparr>"

definition all_files :: "('u, 'l) context_env \<Rightarrow> workspace_folder list \<Rightarrow> (string, 'u repository_file) jsmap" where
  "all_files X folders =
     fold (\<lambda>file. map_set (ua_fsPath (cx_uri X) (rf_uri file)) file)
       (concat (map (\<lambda>folder. getCurrentFilesForWorkspace (cx_git X) (cx_service X) (wf_uri folder) all_options) folders)) []"

definition local_file_item :: "('u, 'l) context_env \<Rightarrow> 'u repository_file \<Rightarrow> wide_item" where
  "local_file_item X file =
     (let folder = rf_workspaceFolder file; uri = uri_str (cx_git X) (rf_uri file);
          binaryReasons = (if isBinaryFile (cx_readFirstBytes X) (cx_uri X) (rf_uri file)
                           then [BINARY_FILE_DISABLED_REASON] else []);
          (project, status) = checkProjectStatus (cx_projects X) uri folder
      in file_item Local_file_search uri None (ua_basename (cx_uri X) (rf_uri file))
           (binaryReasons @ project_reasons status) project
           (fs_getRelativePath (cx_host X) (cx_uri X) (ua_parse (cx_uri X) (wf_uri folder)) (rf_uri file)) folder)"

definition searchLocalFiles :: "('u, 'l) context_env \<Rightarrow> ai_query \<Rightarrow> wide_item list" where
  "searchLocalFiles X query =
     (let allFilesMap = all_files X (or_else (aq_workspaceFolders query) []);
          results = cx_filter X (map_keys allFilesMap) (aq_query query) (Some LOCAL_MAX_RESULTS)
      in List.map_filter (\<lambda>result. map_option (local_file_item X) (map_get allFilesMap result)) results)"

definition lf_searchContextItems ::
  "(ai_query \<Rightarrow> wide_item list) \<Rightarrow> ai_query \<Rightarrow> wide_item list" where
  "lf_searchContextItems debounced query = (if trim (aq_query query) = [] then [] else debounced query)"

definition lf_getItemWithContent :: "('u, 'l) context_env \<Rightarrow> wide_item \<Rightarrow> js_error + wide_item" where
  "lf_getItemWithContent X item =
     map_sum id (\<lambda>content. item\<lparr>ai_content := Some content\<rparr>)
       (cx_readFile X (ua_fsPath (cx_uri X) (ua_parse (cx_uri X) (ai_id item))))"

subsection \<open>Local changes\<close>

record repository_branches =
  rb_mainBranch :: string
  rb_currentBranch :: string
  rb_allBranches :: "string list"

record 'u repository_info =
  rin_branches :: repository_branches
  rin_headRef :: string
  rin_repository :: "'u repository"
  rin_name :: string
  rin_enabled :: bool
  rin_workspaceFolder :: workspace_folder

definition branchesForRepository :: "'u git_env \<Rightarrow> 'u repository \<Rightarrow> js_error + repository_branches" where
  "branchesForRepository E repository =
     (case getCurrentBranch E repository of
        Inl e \<Rightarrow> Inl e
      | Inr currentBranch \<Rightarrow>
          map_sum id (\<lambda>allBranches. \<lparr>rb_mainBranch = getMainBranch E repository, rb_currentBranch = currentBranch,
                                     rb_allBranches = allBranches\<rparr>) (listBranches E repository))"

definition repositoryInfo ::
  "('u, 'l) context_env \<Rightarrow> 'u repository \<Rightarrow> workspace_folder \<Rightarrow> js_error + 'u repository_info" where
  "repositoryInfo X repository folder =
     (let (project, status) = checkProjectStatus (cx_projects X) (uri_str (cx_git X) (re_configFileUri repository)) folder;
          name = (case project of
                    Some p \<Rightarrow> gr_namespaceWithPath (dp_remote p)
                  | None \<Rightarrow> replace_first (wf_uri folder) [] (uri_str (cx_git X) (re_uri repository)))
      in case branchesForRepository (cx_git X) repository of
           Inl e \<Rightarrow> Inl e
         | Inr branches \<Rightarrow>
             map_sum id (\<lambda>headRef. \<lparr>rin_branches = branches, rin_headRef = headRef, rin_repository = repository,
                 rin_name = name, rin_enabled = (status \<noteq> DuoDisabled), rin_workspaceFolder = folder\<rparr>)
               (getHeadRef (cx_git X) repository))"

definition createDiffItem :: "('u, 'l) context_env \<Rightarrow> 'u repository_info \<Rightarrow> string option \<Rightarrow> string \<Rightarrow> wide_item" where
  "createDiffItem X info branch title =
     (let uri = uri_str (cx_git X) (re_uri (rin_repository info)); against = or_else branch (rin_headRef info)
      in \<lparr>ai_id = ''diff:'' @ uri @ '':'' @ against, ai_category = Cat_local_git, ai_content = None,
          ai_metadata = \<lparr>am_title = title, am_enabled = rin_enabled info,
            am_disabledReasons = Some (if rin_enabled info then [] else [''Project disabled'']),
            am_subType = Local_git, am_icon = ''git'', am_secondaryText = ''Compare Changes with '' @ against,
            am_subTypeLabel = ''Diff'', am_languageId = None, am_iid = None, am_relativePath = None, am_project = None,
            am_workspaceFolder = Some (rin_workspaceFolder info), am_webUrl = None, am_libs = None,
            am_git = Some \<lparr>lg_repositoryUri = uri, lg_repositoryName = rin_name info, lg_selectedBranch = branch\<rparr>\<rparr>\<rparr>)"

definition getStaticOptionsForRepository :: "('u, 'l) context_env \<Rightarrow> 'u repository_info \<Rightarrow> wide_item list" where
  "getStaticOptionsForRepository X info =
     (if rin_name info = ''gitlab-org/gitlab-test'' \<or> rin_name info = ''gitlab-org/gitlab-test-fork'' then []
      else
        let branches = rin_branches info; main = rb_mainBranch branches; current = rb_currentBranch branches
        in (if current \<noteq> main then [createDiffItem X info (Some main) (''Diff from '' @ main)] else []) @
           [createDiffItem X info None ''Diff from HEAD (working state)''] @
           map (\<lambda>branch. createDiffItem X info (Some branch) (''Diff from '' @ branch))
             (filter (\<lambda>branch. branch \<noteq> main \<and> branch \<noteq> current) (rb_allBranches branches)))"

definition unique_repositories :: "('u, 'l) context_env \<Rightarrow> workspace_folder list \<Rightarrow> (string, 'u repository) jsmap" where
  "unique_repositories X folders =
     fold (\<lambda>repository. map_set (uri_str (cx_git X) (re_uri repository)) repository)
       (concat (map (\<lambda>folder. map (\<lambda>(k, i). rs_repos (cx_service X) ! i)
          (getRepositoriesForWorkspace (cx_service X) (wf_uri folder))) folders)) []"

definition git_search :: "('u, 'l) context_env \<Rightarrow> ai_query \<Rightarrow> js_error + wide_item list" where
  "git_search X query =
     (case all_results (map (\<lambda>(k, repository). repositoryInfo X repository (re_workspaceFolder repository))
             (unique_repositories X (or_else (aq_workspaceFolders query) []))) of
        Inl e \<Rightarrow> Inl e
      | Inr repositoryInfos \<Rightarrow>
          let contextItems = concat (map (getStaticOptionsForRepository X) repositoryInfos) in
          if trim (aq_query query) = [] then Inr contextItems
          else
            let contextItemMap = fold (\<lambda>item. map_set (am_title (ai_metadata item)) item) contextItems []
            in Inr (List.map_filter (map_get contextItemMap)
                 (cx_filter X (map_keys contextItemMap) (aq_query query) (Some 100))))"

text \<open>An item without the metadata of a local change is no item of this provider.\<close>

definition git_getItemWithContent :: "('u, 'l) context_env \<Rightarrow> wide_item \<Rightarrow> js_error + wide_item" where
  "git_getItemWithContent X item =
     (case (am_git (ai_metadata item), am_workspaceFolder (ai_metadata item)) of
        (Some g, Some folder) \<Rightarrow>
          (case getRepositoryForWorkspace (cx_git X) (cx_service X) (wf_uri folder)
                  (parseURIString (cx_uri X) (lg_repositoryUri g)) of
             None \<Rightarrow> Inr item
           | Some i \<Rightarrow>
               map_sum id (\<lambda>diffString. item\<lparr>ai_content := Some diffString\<rparr>)
                 (cx_gitDiff X (uri_str (cx_git X) (re_uri (rs_repos (cx_service X) ! i))) (lg_selectedBranch g)))
      | _ \<Rightarrow> Inl TypeError)"

subsection \<open>Dependencies\<close>

record 'u parsed_dependency =
  pdp_type :: dependency_type
  pdp_fileUri :: 'u
  pdp_libs :: "dependency_library list"

definition parsed_file :: "('u, 'l) context_env \<Rightarrow> (string \<Rightarrow> js_error + string) \<Rightarrow> 'u repository_file \<Rightarrow> 'u parsed_dependency option" where
  "parsed_file X readFile file =
     (if snd (checkProjectStatus (cx_projects X) (uri_str (cx_git X) (rf_uri file)) (rf_workspaceFolder file)) = DuoDisabled
      then None
      else case dependencyFileType (ua_path (cx_uri X) (rf_uri file)) of
          None \<Rightarrow> None
        | Some type \<Rightarrow>
            (case readFile (ua_fsPath (cx_uri X) (rf_uri file)) of
               Inl e \<Rightarrow> None
             | Inr content \<Rightarrow>
                 (case parseDependencyFile (cx_parsers X) (dty_type type) content of
                    Inl e \<Rightarrow> None
                  | Inr libs \<Rightarrow> Some \<lparr>pdp_type = type, pdp_fileUri = rf_uri file, pdp_libs = libs\<rparr>)))"

definition findDependencies ::
  "('u, 'l) context_env \<Rightarrow> 'u repository \<Rightarrow> workspace_folder \<Rightarrow> 'u parsed_dependency list" where
  "findDependencies X repo folder =
     List.map_filter (parsed_file X (ge_readFile (cx_git X)))
       (getCurrentFilesForRepository (cx_git X) (cx_service X) (re_uri repo) (wf_uri folder) all_options)"

definition show_version :: "string option \<Rightarrow> string" where
  "show_version v = (case v of None \<Rightarrow> ''undefined'' | Some s \<Rightarrow> s)"

definition dependenciesContent :: "('u, 'l) context_env \<Rightarrow> 'u parsed_dependency list \<Rightarrow> text16" where
  "dependenciesContent X deps =
     cx_stringify X (map (\<lambda>d. (dty_lang (pdp_type d),
       map (\<lambda>l. dl_name l @ ''@'' @ show_version (dl_version l)) (pdp_libs d))) deps)"

definition dependency_item :: "('u, 'l) context_env \<Rightarrow> 'u repository \<Rightarrow> wide_item" where
  "dependency_item X repo =
     (let folder = re_workspaceFolder repo; deps = findDependencies X repo folder;
          depsWithLibs = filter (\<lambda>d. pdp_libs d \<noteq> []) deps;
          foundFiles = join '', '' (map (\<lambda>d. getRelativePath (uri_str (cx_git X) (pdp_fileUri d)) (Some folder)) depsWithLibs)
      in \<lparr>ai_id = uri_str (cx_git X) (re_uri repo), ai_category = Cat_dependency,
          ai_content = Some (dependenciesContent X depsWithLibs),
          ai_metadata = \<lparr>am_title = ua_basename (cx_uri X) (re_uri repo), am_enabled = True, am_disabledReasons = Some [],
            am_subType = Dependency, am_icon = ''package'', am_secondaryText = foundFiles,
            am_subTypeLabel = ''Project dependencies'', am_languageId = None, am_iid = None, am_relativePath = None,
            am_project = None, am_workspaceFolder = None, am_webUrl = None,
            am_libs = Some (concat (map (\<lambda>d. map (\<lambda>l. (dl_name l, dl_version l)) (pdp_libs d)) deps)), am_git = None\<rparr>\<rparr>)"

definition repositories_by_path :: "('u, 'l) context_env \<Rightarrow> workspace_folder list \<Rightarrow> (string, 'u repository) jsmap" where
  "repositories_by_path X folders =
     fold (\<lambda>repo. map_set (ua_path (cx_uri X) (re_uri repo)) repo)
       (concat (map (\<lambda>folder. map (\<lambda>(k, i). rs_repos (cx_service X) ! i)
          (getRepositoriesForWorkspace (cx_service X) (wf_uri folder))) folders)) []"

definition dep_searchContextItems :: "('u, 'l) context_env \<Rightarrow> ai_query \<Rightarrow> wide_item list" where
  "dep_searchContextItems X query =
     (let repositories = repositories_by_path X (or_else (aq_workspaceFolders query) []);
          repositoryPaths = (if aq_query query \<noteq> [] then cx_filter X (map_keys repositories) (aq_query query) None
                             else map_keys repositories)
      in List.map_filter (\<lambda>p. map_option (dependency_item X) (map_get repositories p)) repositoryPaths)"

definition dep_getItemWithContent :: "wide_item \<Rightarrow> js_error + wide_item" where
  "dep_getItemWithContent item = Inr item"

subsection \<open>Lemmas\<close>

lemma file_item_fields [simp]:
  "ai_id (file_item t i l title rs p rel folder) = i"
  "ai_category (file_item t i l title rs p rel folder) = Cat_file"
  "am_subType (ai_metadata (file_item t i l title rs p rel folder)) = t"
  "am_enabled (ai_metadata (file_item t i l title rs p rel folder)) \<longleftrightarrow> rs = []"
  "am_disabledReasons (ai_metadata (file_item t i l title rs p rel folder)) = Some rs"
  by (simp_all add: file_item_def)

lemma open_file_item_kind:
  "item_type (open_file_item X doc) = Open_tab \<and> ai_category (open_file_item X doc) = Cat_file \<and>
   (am_enabled (ai_metadata (open_file_item X doc)) \<longleftrightarrow>
     or_else (am_disabledReasons (ai_metadata (open_file_item X doc))) [] = [])"
  unfolding open_file_item_def Let_def prod.case_eq_if item_type_def by (simp add: or_else_def)

lemma local_file_item_kind:
  "item_type (local_file_item X file) = Local_file_search \<and> ai_category (local_file_item X file) = Cat_file \<and>
   (am_enabled (ai_metadata (local_file_item X file)) \<longleftrightarrow>
     or_else (am_disabledReasons (ai_metadata (local_file_item X file))) [] = [])"
  unfolding local_file_item_def Let_def prod.case_eq_if item_type_def by (simp add: or_else_def)

lemma diff_item_kind:
  "item_type (createDiffItem X info b title) = Local_git \<and> ai_category (createDiffItem X info b title) = Cat_local_git \<and>
   (am_enabled (ai_metadata (createDiffItem X info b title)) \<longleftrightarrow>
     or_else (am_disabledReasons (ai_metadata (createDiffItem X info b title))) [] = [])"
  unfolding createDiffItem_def Let_def item_type_def by (simp add: or_else_def)

lemma dependency_item_kind:
  "item_type (dependency_item X repo) = Dependency \<and> ai_category (dependency_item X repo) = Cat_dependency \<and>
   (am_enabled (ai_metadata (dependency_item X repo)) \<longleftrightarrow>
     or_else (am_disabledReasons (ai_metadata (dependency_item X repo))) [] = [])"
  unfolding dependency_item_def Let_def item_type_def by (simp add: or_else_def)

lemma open_tab_found: "x \<in> set (ot_searchContextItems X tabs q) \<Longrightarrow> \<exists>doc. x = open_file_item X doc"
  by (auto simp: ot_searchContextItems_def getOpenFiles_def split: if_splits)

lemma map_filter_member: "x \<in> set (List.map_filter f xs) \<longleftrightarrow> (\<exists>y \<in> set xs. f y = Some x)"
  by (force simp: List.map_filter_def)

lemma local_file_found: "x \<in> set (searchLocalFiles X q) \<Longrightarrow> \<exists>file. x = local_file_item X file"
  unfolding searchLocalFiles_def Let_def map_filter_member by auto

lemma dependency_found: "x \<in> set (dep_searchContextItems X q) \<Longrightarrow> \<exists>repo. x = dependency_item X repo"
  unfolding dep_searchContextItems_def Let_def map_filter_member by auto

lemma static_option:
  "x \<in> set (getStaticOptionsForRepository X info) \<Longrightarrow> \<exists>b title. x = createDiffItem X info b title"
  unfolding getStaticOptionsForRepository_def Let_def by (auto split: if_splits)

lemma fold_map_set_range:
  "map_get (fold (\<lambda>item. map_set (f item) item) items m) k = Some x \<Longrightarrow> x \<in> set items \<or> map_get m k = Some x"
proof (induction items arbitrary: m)
  case (Cons y ys)
  from Cons.IH [of "map_set (f y) y m"] Cons.prems show ?case by (auto split: if_splits)
qed simp

lemma git_found:
  assumes "git_search X q = Inr items" and "x \<in> set items"
  shows "\<exists>info b title. x = createDiffItem X info b title"
proof -
  obtain infos where infos: "all_results (map (\<lambda>(k, repository). repositoryInfo X repository (re_workspaceFolder repository))
      (unique_repositories X (or_else (aq_workspaceFolders q) []))) = Inr infos"
    using assms(1) unfolding git_search_def by (auto split: sum.splits)
  have "x \<in> set (concat (map (getStaticOptionsForRepository X) infos))"
    using assms infos by (auto simp: git_search_def Let_def map_filter_member split: if_splits dest!: fold_map_set_range)
  then show ?thesis using static_option by fastforce
qed

subsection \<open>The providers keep the manager's contract\<close>

interpretation open_tabs: context_provider Open_tab
  "\<lambda>(X, tabs, q). ot_searchContextItems X tabs q"
  "\<lambda>tabs item. Inr (fst (ot_getItemWithContent item tabs))"
proof unfold_locales
  fix x :: wide_item and q :: "('u, 'l) context_env \<times> tab_cache \<times> ai_query"
  assume "x \<in> set (case q of (X, tabs, q) \<Rightarrow> ot_searchContextItems X tabs q)"
  moreover obtain X tabs q' where "q = (X, tabs, q')" by (cases q)
  ultimately have "x \<in> set (ot_searchContextItems X tabs q')" by simp
  then obtain doc where x: "x = open_file_item X doc" using open_tab_found by blast
  show "item_type x = Open_tab" "Open_tab \<in> set (provider_types (ai_category x))"
    "am_enabled (ai_metadata x) \<longleftrightarrow> or_else (am_disabledReasons (ai_metadata x)) [] = []"
    unfolding x using open_file_item_kind [of X doc] by (simp_all add: provider_types_def)
next
  fix tabs :: tab_cache and x y :: wide_item
  assume "(Inr (fst (ot_getItemWithContent x tabs)) :: js_error + wide_item) = Inr y"
  then show "ai_id y = ai_id x \<and> ai_category y = ai_category x \<and> ai_metadata y = ai_metadata x"
    by (auto simp: ot_getItemWithContent_def split: prod.splits option.splits)
qed

interpretation local_files: context_provider Local_file_search
  "\<lambda>(X, q). lf_searchContextItems (searchLocalFiles X) q" "lf_getItemWithContent"
proof unfold_locales
  fix x :: wide_item and q :: "('u, 'l) context_env \<times> ai_query"
  assume "x \<in> set (case q of (X, q) \<Rightarrow> lf_searchContextItems (searchLocalFiles X) q)"
  moreover obtain X q' where "q = (X, q')" by (cases q)
  ultimately have "x \<in> set (searchLocalFiles X q')" by (simp add: lf_searchContextItems_def split: if_splits)
  then obtain f where x: "x = local_file_item X f" using local_file_found by blast
  show "item_type x = Local_file_search" "Local_file_search \<in> set (provider_types (ai_category x))"
    "am_enabled (ai_metadata x) \<longleftrightarrow> or_else (am_disabledReasons (ai_metadata x)) [] = []"
    unfolding x using local_file_item_kind [of X f] by (simp_all add: provider_types_def)
next
  fix X :: "('u, 'l) context_env" and x y
  assume "lf_getItemWithContent X x = Inr y"
  then show "ai_id y = ai_id x \<and> ai_category y = ai_category x \<and> ai_metadata y = ai_metadata x"
    by (cases "cx_readFile X (ua_fsPath (cx_uri X) (ua_parse (cx_uri X) (ai_id x)))") (auto simp: lf_getItemWithContent_def)
qed

interpretation local_git: context_provider Local_git
  "\<lambda>(X, q). case git_search X q of Inl e \<Rightarrow> [] | Inr items \<Rightarrow> items" "git_getItemWithContent"
proof unfold_locales
  fix x :: wide_item and q :: "('u, 'l) context_env \<times> ai_query"
  assume "x \<in> set (case q of (X, q) \<Rightarrow> case git_search X q of Inl e \<Rightarrow> [] | Inr items \<Rightarrow> items)"
  moreover obtain X q' where "q = (X, q')" by (cases q)
  ultimately obtain items where "git_search X q' = Inr items" and "x \<in> set items"
    by (cases "git_search X q'") simp_all
  then obtain info b title where x: "x = createDiffItem X info b title" using git_found by blast
  show "item_type x = Local_git" "Local_git \<in> set (provider_types (ai_category x))"
    "am_enabled (ai_metadata x) \<longleftrightarrow> or_else (am_disabledReasons (ai_metadata x)) [] = []"
    unfolding x using diff_item_kind [of X info b title] by (simp_all add: provider_types_def)
next
  fix X :: "('u, 'l) context_env" and x y
  assume "git_getItemWithContent X x = Inr y"
  then show "ai_id y = ai_id x \<and> ai_category y = ai_category x \<and> ai_metadata y = ai_metadata x"
    unfolding git_getItemWithContent_def map_sum_def by (auto split: option.splits sum.splits)
qed

interpretation dependencies: context_provider Dependency
  "\<lambda>(X, q). dep_searchContextItems X q" "\<lambda>_. dep_getItemWithContent"
proof unfold_locales
  fix x :: wide_item and q :: "('u, 'l) context_env \<times> ai_query"
  assume "x \<in> set (case q of (X, q) \<Rightarrow> dep_searchContextItems X q)"
  moreover obtain X q' where "q = (X, q')" by (cases q)
  ultimately have "x \<in> set (dep_searchContextItems X q')" by simp
  then obtain repo where x: "x = dependency_item X repo" using dependency_found by blast
  show "item_type x = Dependency" "Dependency \<in> set (provider_types (ai_category x))"
    "am_enabled (ai_metadata x) \<longleftrightarrow> or_else (am_disabledReasons (ai_metadata x)) [] = []"
    unfolding x using dependency_item_kind [of X repo] by (simp_all add: provider_types_def)
qed (simp add: dep_getItemWithContent_def)

subsection \<open>What the providers read\<close>

lemma getFile_in:
  "map_get tabs u = Some d \<Longrightarrow> getFile u tabs = (Some d, (u, d) # map_delete u tabs)"
  by (simp add: getFile_def)

lemma tab_delete_keys: "map_keys (map_delete u tabs) = filter (\<lambda>k. k \<noteq> u) (map_keys tabs)"
  by (induction tabs) auto

lemma ot_content [simp]:
  "map_get tabs (ai_id item) = Some d \<Longrightarrow>
   ot_getItemWithContent item tabs =
     (item\<lparr>ai_content := Some (widen (dc_prefix d @ dc_suffix d))\<rparr>, (ai_id item, d) # map_delete (ai_id item) tabs)"
  by (simp add: ot_getItemWithContent_def getFile_in)

lemma ot_retrieve_keys:
  "distinct (map ai_id items) \<Longrightarrow> set (map ai_id items) \<subseteq> set (map_keys tabs) \<Longrightarrow>
   map_keys (snd (ot_retrieve items tabs)) =
     rev (map ai_id items) @ filter (\<lambda>k. k \<notin> set (map ai_id items)) (map_keys tabs)"
proof (induction items arbitrary: tabs)
  case Nil
  then show ?case by simp
next
  case (Cons item items)
  from Cons.prems(2) obtain d where d: "map_get tabs (ai_id item) = Some d"
    using map_get_None_keys [of tabs "ai_id item"] by fastforce
  let ?tabs = "(ai_id item, d) # map_delete (ai_id item) tabs"
  have "set (map ai_id items) \<subseteq> set (map_keys ?tabs)" using Cons.prems by (auto simp: tab_delete_keys)
  from Cons.IH [OF _ this] Cons.prems(1) d show ?case
    by (simp add: prod.case_eq_if tab_delete_keys conj_commute cong: conj_cong)
qed

lemma ot_retrieve_contents:
  "distinct (map ai_id items) \<Longrightarrow> \<forall>item \<in> set items. map_get tabs (ai_id item) = Some (doc item) \<Longrightarrow>
   fst (ot_retrieve items tabs) =
     map (\<lambda>item. item\<lparr>ai_content := Some (widen (dc_prefix (doc item) @ dc_suffix (doc item)))\<rparr>) items"
proof (induction items arbitrary: tabs)
  case (Cons item items)
  let ?tabs = "(ai_id item, doc item) # map_delete (ai_id item) tabs"
  have "\<forall>x \<in> set items. map_get ?tabs (ai_id x) = Some (doc x)" using Cons.prems by force
  from Cons.IH [OF _ this] Cons.prems show ?case by (simp add: prod.case_eq_if)
qed simp

lemma all_results_fails:
  "i \<in> set ks \<Longrightarrow> f i = Inl e \<Longrightarrow> isl (all_results (map f ks))"
proof (induction ks)
  case (Cons j js)
  then show ?case by (cases "f j"; cases "all_results (map f js)") auto
qed simp

lemma tree_files_reader [simp]:
  "getCurrentTreeFiles (E\<lparr>ge_readFile := rd\<rparr>) r opts = getCurrentTreeFiles E r opts"
  "getRepositoryForWorkspace (E\<lparr>ge_readFile := rd\<rparr>) s folder u = getRepositoryForWorkspace E s folder u"
  by (simp_all add: getCurrentTreeFiles_def getRepositoryForWorkspace_def re_filter_def)

text \<open>Fetching the content of the selected tabs counts as using them, one after the other: it attaches the text of
  each tab, and afterwards the tabs selected last are the most recently used ones, in the reverse order of the
  selection, before the tabs that were not selected.\<close>

theorem retrieval_reverses_tabs:
  assumes "distinct (map ai_id items)"
    and "\<forall>item \<in> set items. map_get tabs (ai_id item) = Some (doc item)"
  shows "fst (ot_retrieve items tabs) =
      map (\<lambda>item. item\<lparr>ai_content := Some (widen (dc_prefix (doc item) @ dc_suffix (doc item)))\<rparr>) items \<and>
    map_keys (snd (ot_retrieve items tabs)) =
      rev (map ai_id items) @ filter (\<lambda>k. k \<notin> set (map ai_id items)) (map_keys tabs)"
proof -
  have "set (map ai_id items) \<subseteq> set (map_keys tabs)"
  proof
    fix k
    assume "k \<in> set (map ai_id items)"
    with assms(2) have "map_get tabs k \<noteq> None" by auto
    with map_get_None_keys [of tabs k] show "k \<in> set (map_keys tabs)" by metis
  qed
  with assms show ?thesis using ot_retrieve_keys ot_retrieve_contents by blast
qed

text \<open>C26: No file of a project whose Duo features are disabled is read when the dependencies of a repository are listed:
  two file systems that agree on the files of the other projects give the same dependencies.\<close>

theorem disabled_projects_unread:
  fixes X :: "('u, 'l) context_env"
  assumes "\<And>file. file \<in> set (getCurrentFilesForRepository (cx_git X) (cx_service X) (re_uri repo) (wf_uri folder) all_options)
    \<Longrightarrow> snd (checkProjectStatus (cx_projects X) (uri_str (cx_git X) (rf_uri file)) (rf_workspaceFolder file))
      \<noteq> DuoDisabled \<Longrightarrow> rd (ua_fsPath (cx_uri X) (rf_uri file)) = ge_readFile (cx_git X) (ua_fsPath (cx_uri X) (rf_uri file))"
  shows "findDependencies (X\<lparr>cx_git := (cx_git X)\<lparr>ge_readFile := rd\<rparr>\<rparr>) repo folder = findDependencies X repo folder"
proof -
  let ?X = "X\<lparr>cx_git := (cx_git X)\<lparr>ge_readFile := rd\<rparr>\<rparr>"
  have parsed: "parsed_file ?X rd f = parsed_file X (ge_readFile (cx_git X)) f"
    if "f \<in> set (getCurrentFilesForRepository (cx_git X) (cx_service X) (re_uri repo) (wf_uri folder) all_options)" for f
    using assms [of f] that by (simp add: parsed_file_def cong: option.case_cong sum.case_cong)
  have files: "getCurrentFilesForRepository (cx_git ?X) (cx_service ?X) (re_uri repo) (wf_uri folder) all_options =
      getCurrentFilesForRepository (cx_git X) (cx_service X) (re_uri repo) (wf_uri folder) all_options"
    by (simp add: getCurrentFilesForRepository_def split: option.split)
  have "List.map_filter (parsed_file ?X rd) fs = List.map_filter (parsed_file X (ge_readFile (cx_git X))) fs"
    if "set fs \<subseteq> set (getCurrentFilesForRepository (cx_git X) (cx_service X) (re_uri repo) (wf_uri folder) all_options)" for fs
    using that by (induction fs) (auto simp: parsed List.map_filter_simps split: option.split)
  from this [OF order_refl] show ?thesis by (simp add: findDependencies_def files [simplified])
qed

text \<open>A selected file that can no longer be read fails the whole chat request: no item of any provider is sent.\<close>

theorem unreadable_file_fails_request:
  assumes "i \<in> set (mg_availableProviders m)"
    and "po_retrieve (B i) = (\<lambda>items. all_results (map (lf_getItemWithContent X) items))"
    and "x \<in> set (ap_selected (mg_providers m ! i))"
    and "cx_readFile X (ua_fsPath (cx_uri X) (ua_parse (cx_uri X) (ai_id x))) = Inl e"
  shows "isl (mg_retrieveContextItemsWithContent transformers B Duo_chat_request m)"
proof -
  let ?retrieve = "\<lambda>i. po_retrieve (B i) (ap_selected (mg_providers m ! i))"
  have "lf_getItemWithContent X x = Inl e" using assms(4) by (simp add: lf_getItemWithContent_def)
  from local_files.retrieval_fails [OF assms(3) this] have "isl (?retrieve i)" by (simp add: assms(2))
  then obtain err where "?retrieve i = Inl err" by (auto simp: isl_def)
  from all_results_fails [where f = ?retrieve, OF assms(1) this] show ?thesis by (simp add: mg_retrieveContextItemsWithContent_def isl_map_sum)
qed

subsection \<open>A concrete project\<close>

definition demo_lock :: "string repository_file" where
  "demo_lock = demo_file ''/h/p/Gemfile.lock''"

definition demo_disabled_project :: duo_project where
  "demo_disabled_project =
     \<lparr>dp_remote = \<lparr>gr_host = ''host'', gr_namespace = ''g'', gr_projectPath = ''p'', gr_namespaceWithPath = ''g/p''\<rparr>,
      dp_uri = ''file:///h/p/.git/config'', dp_enabled = False\<rparr>"

definition demo_context_env :: "bool \<Rightarrow> (string, nat) context_env" where
  "demo_context_env disabled =
     \<lparr>cx_git = demo_git\<lparr>ge_readFile := (\<lambda>p. Inr (''DEPENDENCIES'' @ [char_of (10 :: nat)] @ ''  rails 7''))\<rparr>,
      cx_host = posix_host,
      cx_service = rs_new\<lparr>rs_repos := [demo_repo\<lparr>re_files := [(''file:///h/p/Gemfile.lock'', demo_lock)]\<rparr>],
        rs_workspaceToRepositories :=
          [(''file:///h'', \<lparr>we_fastDirectoryMatcher = fdm_new, we_repositories = [(''file:///h/p'', 0)]\<rparr>)]\<rparr>,
      cx_projects = pc_new\<lparr>pc_duoProjects := (if disabled then [(''file:///h'', [demo_disabled_project])] else [])\<rparr>,
      cx_policy = (\<lambda>p. \<lparr>pr_enabled = True, pr_disabledReasons = None\<rparr>),
      cx_filter = (\<lambda>names q n. names), cx_readFile = (\<lambda>p. Inl (JsError ''ENOENT'')),
      cx_readFirstBytes = (\<lambda>p n. Inr []), cx_gitDiff = (\<lambda>r b. Inr []),
      cx_parsers = \<lparr>dp_json = (\<lambda>s. Inl TypeError), dp_vcpkg = (\<lambda>s. Inl TypeError), dp_yaml = (\<lambda>s. Inr None),
        dp_pom = (\<lambda>s. Inr None), dp_csproj = (\<lambda>s. Inr None)\<rparr>,
      cx_stringify = (\<lambda>ds. concat (map (\<lambda>(l, ls). widen (l @ '': '' @ join '', '' ls)) ds))\<rparr>"

lemma demo_project_status:
  "snd (checkProjectStatus (cx_projects (demo_context_env True)) ''file:///h/p/Gemfile.lock'' demo_folder) = DuoDisabled"
  by (simp add: demo_context_env_def checkProjectStatus_def getProjectsForWorkspaceFolder_def demo_folder_def
      findDeepestProjectByPath_def demo_disabled_project_def project_dir_def pc_new_def or_else_def)

lemma demo_lock_files:
  "getCurrentFilesForRepository (cx_git (demo_context_env b)) (cx_service (demo_context_env b)) ''/h/p'' ''file:///h''
     all_options = [demo_lock]"
  by (simp add: demo_context_env_def getCurrentFilesForRepository_def getRepositoryForWorkspace_def
      getRepositoriesForWorkspace_def demo_git_def demo_ignore_env_def file_uris_def getCurrentTreeFiles_def re_filter_def
      demo_repo_def re_new_def demo_lock_def demo_file_def all_options_def isInGitFolder_def sublist_code)

theorem disabled_projects_unread_witness:
  "\<exists>rd. rd ''/h/p/Gemfile.lock'' = Inl TypeError \<and>
     findDependencies ((demo_context_env True)\<lparr>cx_git := (cx_git (demo_context_env True))\<lparr>ge_readFile := rd\<rparr>\<rparr>)
       demo_repo demo_folder = findDependencies (demo_context_env True) demo_repo demo_folder"
proof (intro exI conjI)
  show "(\<lambda>p :: string. Inl TypeError) ''/h/p/Gemfile.lock'' = Inl TypeError" by simp
  have "re_uri demo_repo = ''/h/p''" "wf_uri demo_folder = ''file:///h''"
    by (simp_all add: demo_repo_def re_new_def demo_folder_def)
  moreover have "uri_str (cx_git (demo_context_env True)) (rf_uri demo_lock) = ''file:///h/p/Gemfile.lock''"
    "rf_workspaceFolder demo_lock = demo_folder"
    by (simp_all add: demo_context_env_def demo_git_def demo_ignore_env_def file_uris_def demo_lock_def demo_file_def)
  ultimately show "findDependencies ((demo_context_env True)\<lparr>cx_git := (cx_git (demo_context_env True))\<lparr>ge_readFile := \<lambda>p. Inl TypeError\<rparr>\<rparr>)
       demo_repo demo_folder = findDependencies (demo_context_env True) demo_repo demo_folder"
    by (intro disabled_projects_unread) (simp add: demo_lock_files demo_project_status)
qed

definition demo_tab :: "string \<Rightarrow> doc_context" where
  "demo_tab u = \<lparr>dc_prefix = u, dc_suffix = [], dc_fileRelativePath = u, dc_position = \<lparr>pos_line = 0, pos_character = 0\<rparr>,
     dc_uri = u, dc_languageId = ''ruby'', dc_workspaceFolder = None\<rparr>"

theorem retrieval_reverses_tabs_witness:
  "map_keys (snd (ot_retrieve [demo_item ''a'' True, demo_item ''b'' True]
      [(''a'', demo_tab ''a''), (''b'', demo_tab ''b''), (''c'', demo_tab ''c'')])) = [''b'', ''a'', ''c'']"
  using retrieval_reverses_tabs [of "[demo_item ''a'' True, demo_item ''b'' True]"
      "[(''a'', demo_tab ''a''), (''b'', demo_tab ''b''), (''c'', demo_tab ''c'')]" "\<lambda>item. demo_tab (ai_id item)"] by simp

definition demo_file_ops :: ops where
  "demo_file_ops i = (demo_ops i)\<lparr>po_retrieve := (\<lambda>items. all_results (map (lf_getItemWithContent (demo_context_env True)) items))\<rparr>"

theorem unreadable_file_fails_request_witness:
  "isl (mg_retrieveContextItemsWithContent [] demo_file_ops Duo_chat_request demo_selected_manager)"
  by (rule unreadable_file_fails_request [where i = 0 and X = "demo_context_env True" and x = "demo_item ''a'' True"
      and e = "JsError ''ENOENT''"])
    (simp_all add: demo_selected_eq demo_file_ops_def demo_context_env_def)

end
