(* ===== verification/Issue_Context.thy ===== *)
theory Issue_Context
  imports AI_Context_Manager Js_Regex
begin

text \<open>
  The context providers for issues and merge requests
  (\<open>src/common/ai_context_management/context_providers/issue.ts\<close>, \<open>merge_request.ts\<close>, \<open>format_issueables.ts\<close>,
  \<open>utils.ts\<close>), the services behind them (\<open>src/common/services/khulnasoft/\<close>) and the global identifiers
  (\<open>src/common/graphql/gid_utils.ts\<close>).

  Parameters: the API, the class \<open>URL\<close>, and the time a date stands for.  A debounced search is the function
  \<open>debounced\<close> (see \<open>Async_Debounce\<close>).  Texts of the API are code units.
\<close>

subsection \<open>Identifiers\<close>

definition GID_NAMESPACE_ISSUE :: string where "GID_NAMESPACE_ISSUE = ''Issue''"
definition GID_NAMESPACE_MERGE_REQUEST :: string where "GID_NAMESPACE_MERGE_REQUEST = ''MergeRequest''"

text \<open>Decimal notation, as in a template text.\<close>

definition digit :: "nat \<Rightarrow> char" where
  "digit n = char_of (48 + n mod 10)"

fun show_nat :: "nat \<Rightarrow> string" where
  "show_nat n = (if n < 10 then [digit n] else show_nat (n div 10) @ [digit n])"

declare show_nat.simps [simp del]

definition toKhulnaSoftGid :: "string \<Rightarrow> string \<Rightarrow> string" where
  "toKhulnaSoftGid namespace i = ''gid://gitlab/'' @ namespace @ ''/'' @ i"

text \<open>The expression matches greedily up to the last slash of the line, at every place \<open>gid://gitlab/\<close> begins; what
  \<open>parseInt\<close> reads is the longest run of digits at the start, after white space and a sign.\<close>

definition is_digit :: "char \<Rightarrow> bool" where
  "is_digit c \<longleftrightarrow> (of_char c :: nat) \<in> {48..57}"

definition digits_value :: "string \<Rightarrow> nat" where
  "digits_value s = fold (\<lambda>c n. 10 * n + (of_char c - 48)) s 0"

definition parseInt :: "string \<Rightarrow> int option" where
  "parseInt s =
     (let t = trim_start s;
          negative = (t \<noteq> [] \<and> hd t = CHR ''-'');
          u = (if t \<noteq> [] \<and> (hd t = CHR ''-'' \<or> hd t = CHR ''+'') then tl t else t);
          ds = takeWhile is_digit u
      in if ds = [] then None else Some (if negative then - int (digits_value ds) else int (digits_value ds)))"

definition after_last_slash :: "string \<Rightarrow> string" where
  "after_last_slash s = rev (takeWhile (\<lambda>c. c \<noteq> CHR ''/'') (rev s))"

function gid_strip :: "string \<Rightarrow> string" where
  "gid_strip s =
     (if prefix ''gid://gitlab/'' s \<and> CHR ''/'' \<in> set (takeWhile rx_any (drop 13 s)) then
        (let line = takeWhile rx_any (drop 13 s); rest = dropWhile rx_any (drop 13 s)
         in gid_strip (after_last_slash line @ rest))
      else (case s of [] \<Rightarrow> [] | c # t \<Rightarrow> c # gid_strip t))"
  by pat_completeness auto
termination
proof (relation "measure length", simp)
  fix s line rest :: string
  assume "prefix ''gid://gitlab/'' s \<and> CHR ''/'' \<in> set (takeWhile rx_any (drop 13 s))"
    and line: "line = takeWhile rx_any (drop 13 s)" and rest: "rest = dropWhile rx_any (drop 13 s)"
  have "length (after_last_slash line) \<le> length line"
    unfolding after_last_slash_def by (metis length_rev length_takeWhile_le)
  moreover have "length line + length rest = length s - 13"
    unfolding line rest by (metis length_append length_drop takeWhile_dropWhile_id)
  moreover have "s \<noteq> []" using \<open>prefix ''gid://gitlab/'' s \<and> _\<close> by auto
  ultimately show "(after_last_slash line @ rest, s) \<in> measure length"
    by (cases "length s \<le> 13") auto
qed simp

declare gid_strip.simps [simp del]

definition tryParseKhulnaSoftGid :: "string \<Rightarrow> int option" where
  "tryParseKhulnaSoftGid gid =
     (case parseInt (gid_strip gid) of
        None \<Rightarrow> None
      | Some n \<Rightarrow> if n = 0 then None else Some n)"

subsection \<open>The services\<close>

text \<open>An answer of the search; identifiers are numbers.\<close>

record rest_item =
  ri_id :: nat
  ri_iid :: nat
  ri_project_id :: nat
  ri_title :: string
  ri_web_url :: string

record rest_request =
  rr_path :: string
  rr_searchParams :: "(string \<times> string) list"

record issuable_note =
  in_body :: text16
  in_createdAt :: text16

text \<open>A field that may be \<open>null\<close> is optional.  The flags of an issue and the diffs of a merge request are in records of
  their own.\<close>

record issuable_details =
  id_title :: text16
  id_description :: "text16 option"
  id_state :: text16
  id_webUrl :: text16
  id_discussions :: "issuable_note list list"

record issue_details = issuable_details +
  is_createdAt :: text16
  is_updatedAt :: text16
  is_closedAt :: "text16 option"
  is_confidential :: bool
  is_weight :: "nat option"
  is_milestone :: "text16 option"
  is_assignees :: "text16 list"
  is_labels :: "text16 list"

record diff_details =
  df_oldPath :: text16
  df_newPath :: text16
  df_diff :: text16

record merge_request_details = issuable_details +
  mr_commits :: "diff_details list list"

record issuable_api =
  ia_fetch :: "rest_request \<Rightarrow> js_error + rest_item list"
  ia_issue :: "string \<Rightarrow> js_error + issue_details"
  ia_mergeRequest :: "string \<Rightarrow> js_error + merge_request_details"
  ia_query :: "nat list \<Rightarrow> (nat option \<times> bool) list option"
  ia_urls :: url_parser
  ia_time :: "text16 \<Rightarrow> int"

definition search_request :: "string \<Rightarrow> string \<Rightarrow> rest_request" where
  "search_request scope searchTerm =
     \<lparr>rr_path = ''/search'', rr_searchParams = [(''scope'', scope), (''search'', searchTerm), (''fields'', ''title'')]\<rparr>"

definition assigned_request :: "string \<Rightarrow> nat \<Rightarrow> rest_request" where
  "assigned_request path limit =
     \<lparr>rr_path = path, rr_searchParams = [(''scope'', ''assigned_to_me''), (''state'', ''opened''),
        (''order_by'', ''updated_at''), (''sort'', ''desc''), (''per_page'', show_nat limit)]\<rparr>"

definition searchIssues :: "issuable_api \<Rightarrow> string \<Rightarrow> nat \<Rightarrow> js_error + rest_item list" where
  "searchIssues A searchTerm limit = map_sum id (take limit) (ia_fetch A (search_request ''issues'' searchTerm))"

definition getCurrentUsersIssues :: "issuable_api \<Rightarrow> nat \<Rightarrow> js_error + rest_item list" where
  "getCurrentUsersIssues A limit = ia_fetch A (assigned_request ''/issues'' limit)"

definition searchMergeRequests :: "issuable_api \<Rightarrow> string \<Rightarrow> nat \<Rightarrow> js_error + rest_item list" where
  "searchMergeRequests A searchTerm limit =
     map_sum id (take limit) (ia_fetch A (search_request ''merge_requests'' searchTerm))"

definition getCurrentUsersMergeRequests :: "issuable_api \<Rightarrow> nat \<Rightarrow> js_error + rest_item list" where
  "getCurrentUsersMergeRequests A limit = ia_fetch A (assigned_request ''/merge_requests'' limit)"

subsection \<open>Texts\<close>

definition getAdvancedContextContentLimit :: "nat \<Rightarrow> nat" where
  "getAdvancedContextContentLimit splitContentBetweenNumItems =
     (let bytesPerToken = 3; totalModelTokenLimit = 100000; inputTokenLimit = totalModelTokenLimit * 8 div 10;
          maxBytes = inputTokenLimit * bytesPerToken; contentSize = maxBytes * 6 div 10
      in contentSize div splitContentBetweenNumItems)"

abbreviation ln :: nat where "ln \<equiv> 10"

definition formatIssuableHeader :: "'a issuable_details_scheme \<Rightarrow> string \<Rightarrow> text16" where
  "formatIssuableHeader issuable typeLabel =
     widen ''Please use this information about identified '' @ widen typeLabel @ widen '':'' @ [ln] @
     widen ''Title: '' @ id_title issuable @ [ln] @
     widen ''State: '' @ id_state issuable @ [ln] @
     (case id_description issuable of
        None \<Rightarrow> []
      | Some d \<Rightarrow> if d = [] then [] else widen ''Description: '' @ d @ [ln]) @ [ln] @
     widen ''Web URL: '' @ id_webUrl issuable"

definition formatIssuableNotes :: "(text16 \<Rightarrow> int) \<Rightarrow> issuable_note list \<Rightarrow> nat \<Rightarrow> text16" where
  "formatIssuableNotes time notes byteLimit =
     (let sortedNotes = js_sort (\<lambda>a b. time (in_createdAt a) - time (in_createdAt b)) notes
      in truncateToByteLimit (join [ln, ln] (map in_body sortedNotes)) (int byteLimit))"

definition present :: "string \<Rightarrow> text16 \<Rightarrow> text16" where
  "present label v = widen label @ v @ [ln]"

definition formatIssueContent :: "issuable_api \<Rightarrow> wide_item \<Rightarrow> issue_details \<Rightarrow> nat \<Rightarrow> text16" where
  "formatIssueContent A item issue splitLimitBetweenIssues =
     (let notesByteLimit = getAdvancedContextContentLimit splitLimitBetweenIssues;
          header = formatIssuableHeader issue (am_subTypeLabel (ai_metadata item));
          formattedNotes = formatIssuableNotes (ia_time A) (concat (id_discussions issue)) notesByteLimit;
          milestone = (case is_milestone issue of
                         None \<Rightarrow> [] | Some t \<Rightarrow> if t = [] then [] else present ''Milestone: '' t);
          assignees = (if is_assignees issue = [] then []
                       else present ''Assignees: '' (join (widen '', '') (is_assignees issue)));
          labels = (if is_labels issue = [] then [] else present ''Labels: '' (join (widen '', '') (is_labels issue)));
          weight = (case is_weight issue of None \<Rightarrow> [] | Some n \<Rightarrow> present ''Weight: '' (widen (show_nat n)))
      in header @ [ln] @ (if is_confidential issue then present ''Confidential: true'' [] else []) @ milestone @
         assignees @ labels @ weight @ [ln] @
         widen ''Created: '' @ is_createdAt issue @ [ln] @
         widen ''Updated: '' @ is_updatedAt issue @
         (case is_closedAt issue of None \<Rightarrow> [] | Some c \<Rightarrow> if c = [] then [] else [ln] @ widen ''Closed: '' @ c) @
         [ln, ln] @ widen ''Comments:'' @ [ln] @ formattedNotes)"

text \<open>The expression \<open>/^@@[\s\S]+?@@$/m\<close>: from \<open>@@\<close> at the start of a line to the next \<open>@@\<close> at the end of a line,
  with at least one character between.\<close>

definition line_break :: "nat \<Rightarrow> bool" where
  "line_break u \<longleftrightarrow> u = 10 \<or> u = 13 \<or> u = 0x2028 \<or> u = 0x2029"

definition marker :: text16 where "marker = [64, 64]"

fun close_marker :: "text16 \<Rightarrow> text16 option" where
  "close_marker [] = None"
| "close_marker (u # s) =
     (if prefix marker (u # s) \<and> (drop 1 s = [] \<or> line_break (hd (drop 1 s))) then Some (drop 1 s)
      else close_marker s)"

fun strip_hunk :: "bool \<Rightarrow> text16 \<Rightarrow> text16" where
  "strip_hunk line_start [] = []"
| "strip_hunk line_start (u # s) =
     (case (if line_start \<and> prefix marker (u # s) then close_marker (drop 2 s) else None) of
        Some rest \<Rightarrow> rest
      | None \<Rightarrow> u # strip_hunk (line_break u) s)"

definition trimEnd :: "text16 \<Rightarrow> text16" where
  "trimEnd s = rev (dropWhile ws_unit (rev s))"

definition formatDiff :: "diff_details \<Rightarrow> text16" where
  "formatDiff diff =
     (let cleanDiff = trimEnd (strip_hunk True (df_diff diff))
      in widen ''--- '' @ df_oldPath diff @ [ln] @ widen ''+++ '' @ df_newPath diff @ [ln] @ cleanDiff)"

definition formatDiffs :: "diff_details list \<Rightarrow> nat \<Rightarrow> text16" where
  "formatDiffs diffs byteLimit = truncateToByteLimit (concat (map formatDiff diffs)) (int byteLimit)"

definition formatMergeRequestContent ::
  "issuable_api \<Rightarrow> wide_item \<Rightarrow> merge_request_details \<Rightarrow> nat \<Rightarrow> text16" where
  "formatMergeRequestContent A item mergeRequest splitLimitBetweenMRs =
     (let contentLimit = getAdvancedContextContentLimit splitLimitBetweenMRs;
          diffByteLimit = contentLimit div 2;
          notesByteLimit = contentLimit div 2;
          header = formatIssuableHeader mergeRequest (am_subTypeLabel (ai_metadata item));
          formattedDiffs = formatDiffs (case mr_commits mergeRequest of [] \<Rightarrow> [] | diffs # _ \<Rightarrow> diffs) diffByteLimit;
          formattedNotes = formatIssuableNotes (ia_time A) (concat (id_discussions mergeRequest)) notesByteLimit
      in header @ [ln, ln] @ widen ''Changes:'' @ [ln] @ formattedDiffs @ [ln, ln] @ widen ''Comments:'' @ [ln] @
         formattedNotes)"

subsection \<open>The providers\<close>

definition MAX_SEARCH_RESULTS :: nat where "MAX_SEARCH_RESULTS = 25"

definition separator_index :: "string \<Rightarrow> nat option" where
  "separator_index s = find_index (\<lambda>n. prefix ''/-/'' (drop n s)) [0..<length s]"

definition tryParseProjectPathFromWebUrl :: "url_parser \<Rightarrow> string \<Rightarrow> string" where
  "tryParseProjectPathFromWebUrl urls webUrl =
     (case urls webUrl of
        None \<Rightarrow> []
      | Some u \<Rightarrow>
          (case separator_index (url_pathname u) of
             None \<Rightarrow> []
           | Some n \<Rightarrow>
               let projectPath = take n (url_pathname u)
               in if starts_with projectPath ''/'' then drop 1 projectPath else projectPath))"

text \<open>An item for a result; the two providers differ in the kind, its labels and the sign before the number.\<close>

definition issuable_item ::
  "ai_provider_type \<Rightarrow> ai_category \<Rightarrow> string \<Rightarrow> string \<Rightarrow> string \<Rightarrow> string \<Rightarrow> issuable_api \<Rightarrow>
   (nat, duo_project_status) jsmap \<Rightarrow> rest_item \<Rightarrow> wide_item" where
  "issuable_item subType category namespace label icon sign A statuses issue =
     (let enabled = (map_get statuses (ri_project_id issue) = Some DuoEnabled);
          projectPath = tryParseProjectPathFromWebUrl (ia_urls A) (ri_web_url issue)
      in \<lparr>ai_id = toKhulnaSoftGid namespace (show_nat (ri_id issue)), ai_category = category, ai_content = None,
          ai_metadata = \<lparr>am_title = ri_title issue, am_enabled = enabled,
            am_disabledReasons = Some (if enabled then [] else [''project disabled'']), am_subType = subType,
            am_icon = icon, am_secondaryText = projectPath @ sign @ show_nat (ri_iid issue), am_subTypeLabel = label,
            am_languageId = None, am_iid = None, am_relativePath = None, am_project = None, am_workspaceFolder = None,
            am_webUrl = Some (ri_web_url issue), am_libs = None, am_git = None\<rparr>\<rparr>)"

abbreviation issue_item :: "issuable_api \<Rightarrow> (nat, duo_project_status) jsmap \<Rightarrow> rest_item \<Rightarrow> wide_item" where
  "issue_item \<equiv> issuable_item Issue Cat_issue GID_NAMESPACE_ISSUE ''Issue'' ''issues'' ''#''"

abbreviation merge_request_item :: "issuable_api \<Rightarrow> (nat, duo_project_status) jsmap \<Rightarrow> rest_item \<Rightarrow> wide_item" where
  "merge_request_item \<equiv>
     issuable_item Merge_request Cat_merge_request GID_NAMESPACE_MERGE_REQUEST ''Merge request'' ''merge-request'' ''!''"

text \<open>The status of each project is asked of the cache, which may be extended.\<close>

definition handleIssueResults :: "issuable_api \<Rightarrow> rest_item list \<Rightarrow> id_cache \<Rightarrow> wide_item list \<times> id_cache" where
  "handleIssueResults A issues c =
     (let (statuses, c') = checkProjectStatusesByIds (ia_query A) (map ri_project_id issues) c
      in (take MAX_SEARCH_RESULTS (map (issue_item A statuses) issues), c'))"

definition getIssuesForCurrentUser :: "issuable_api \<Rightarrow> id_cache \<Rightarrow> wide_item list \<times> id_cache" where
  "getIssuesForCurrentUser A c =
     (case getCurrentUsersIssues A 25 of Inl e \<Rightarrow> ([], c) | Inr issues \<Rightarrow> handleIssueResults A issues c)"

definition searchIssuesFor :: "issuable_api \<Rightarrow> ai_query \<Rightarrow> id_cache \<Rightarrow> wide_item list \<times> id_cache" where
  "searchIssuesFor A query c =
     (case searchIssues A (aq_query query) MAX_SEARCH_RESULTS of
        Inl e \<Rightarrow> ([], c)
      | Inr issues \<Rightarrow> handleIssueResults A issues c)"

definition issue_searchContextItems ::
  "(ai_query \<Rightarrow> id_cache \<Rightarrow> wide_item list \<times> id_cache) \<Rightarrow> issuable_api \<Rightarrow> ai_query \<Rightarrow> id_cache \<Rightarrow>
   wide_item list \<times> id_cache" where
  "issue_searchContextItems debounced A query c =
     (if aq_query query = [] then getIssuesForCurrentUser A c else debounced query c)"

definition issue_getItemWithContent :: "issuable_api \<Rightarrow> wide_item list \<Rightarrow> wide_item \<Rightarrow> wide_item" where
  "issue_getItemWithContent A selectedItems item =
     (if \<not> no_content item then item
      else case ia_issue A (ai_id item) of
          Inl e \<Rightarrow> item
        | Inr issue \<Rightarrow>
            item\<lparr>ai_content := Some (formatIssueContent A item issue
              (if selectedItems = [] then 1 else length selectedItems))\<rparr>)"

text \<open>A merge request that is selected already is left out.\<close>

definition handleMergeRequestResults ::
  "issuable_api \<Rightarrow> wide_item list \<Rightarrow> rest_item list \<Rightarrow> id_cache \<Rightarrow> wide_item list \<times> id_cache" where
  "handleMergeRequestResults A selectedItems results c =
     (let mergeRequests = filter (\<lambda>mr. toKhulnaSoftGid GID_NAMESPACE_MERGE_REQUEST (show_nat (ri_id mr))
                                       \<notin> ai_id ` set selectedItems) results;
          (statuses, c') = checkProjectStatusesByIds (ia_query A) (map ri_project_id mergeRequests) c
      in (take MAX_SEARCH_RESULTS (map (merge_request_item A statuses) mergeRequests), c'))"

definition getMergeRequestsForCurrentUser ::
  "issuable_api \<Rightarrow> wide_item list \<Rightarrow> id_cache \<Rightarrow> wide_item list \<times> id_cache" where
  "getMergeRequestsForCurrentUser A selectedItems c =
     (case getCurrentUsersMergeRequests A MAX_SEARCH_RESULTS of
        Inl e \<Rightarrow> ([], c)
      | Inr mergeRequests \<Rightarrow> handleMergeRequestResults A selectedItems mergeRequests c)"

definition searchMergeRequestsFor ::
  "issuable_api \<Rightarrow> wide_item list \<Rightarrow> ai_query \<Rightarrow> id_cache \<Rightarrow> wide_item list \<times> id_cache" where
  "searchMergeRequestsFor A selectedItems query c =
     (case searchMergeRequests A (aq_query query) MAX_SEARCH_RESULTS of
        Inl e \<Rightarrow> ([], c)
      | Inr mergeRequests \<Rightarrow> handleMergeRequestResults A selectedItems mergeRequests c)"

definition mr_searchContextItems ::
  "(ai_query \<Rightarrow> id_cache \<Rightarrow> wide_item list \<times> id_cache) \<Rightarrow> issuable_api \<Rightarrow> wide_item list \<Rightarrow> ai_query \<Rightarrow>
   id_cache \<Rightarrow> wide_item list \<times> id_cache" where
  "mr_searchContextItems debounced A selectedItems query c =
     (if aq_query query = [] then getMergeRequestsForCurrentUser A selectedItems c else debounced query c)"

definition mr_getItemWithContent :: "issuable_api \<Rightarrow> wide_item list \<Rightarrow> wide_item \<Rightarrow> wide_item" where
  "mr_getItemWithContent A selectedItems item =
     (if \<not> no_content item then item
      else case ia_mergeRequest A (ai_id item) of
          Inl e \<Rightarrow> item
        | Inr mergeRequest \<Rightarrow>
            item\<lparr>ai_content := Some (formatMergeRequestContent A item mergeRequest
              (if selectedItems = [] then 1 else length selectedItems))\<rparr>)"

subsection \<open>Identifiers and numbers\<close>

lemma digit_char [simp]: "is_digit (digit n)" "(of_char (digit n) :: nat) = 48 + n mod 10"
proof -
  have "n mod 10 < 10" by simp
  then have "48 + n mod 10 < (256 :: nat)" by linarith
  then show "(of_char (digit n) :: nat) = 48 + n mod 10" by (simp add: digit_def)
  then show "is_digit (digit n)" using \<open>n mod 10 < 10\<close> by (simp add: is_digit_def)
qed

lemma show_nat_digits: "show_nat n \<noteq> [] \<and> list_all is_digit (show_nat n) \<and> digits_value (show_nat n) = n"
proof (induction n rule: show_nat.induct)
  case (1 n)
  show ?case
  proof (cases "n < 10")
    case True
    then show ?thesis by (simp add: show_nat.simps [of n] digits_value_def)
  next
    case False
    with 1 show ?thesis by (simp add: show_nat.simps [of n] digits_value_def)
  qed
qed

lemma digit_not: "is_digit c \<Longrightarrow> \<not> is_ws c \<and> c \<noteq> CHR ''-'' \<and> c \<noteq> CHR ''+'' \<and> c \<noteq> CHR ''/'' \<and> c \<noteq> CHR ''g'' \<and> rx_any c"
  by (auto simp: is_digit_def is_ws_def rx_any_def)

lemma parseInt_show: "parseInt (show_nat n) = Some (int n)"
proof -
  obtain c s where cs: "show_nat n = c # s" using show_nat_digits [of n] by (cases "show_nat n") auto
  then have c: "is_digit c" using show_nat_digits [of n] by simp
  have tw: "takeWhile is_digit (c # s) = c # s"
    using show_nat_digits [of n] cs by (simp add: takeWhile_eq_all_conv list_all_iff)
  have "parseInt (c # s) = Some (int (digits_value (takeWhile is_digit (c # s))))"
    using c digit_not [OF c] by (simp add: parseInt_def trim_start_def Let_def)
  with show_nat_digits [of n] show ?thesis by (simp only: cs tw)
qed

lemma gid_strip_digits: "list_all is_digit s \<Longrightarrow> gid_strip s = s"
proof (induction s)
  case Nil
  then show ?case by (simp add: gid_strip.simps [of "[]"])
next
  case (Cons c s)
  then have "prefix ''gid://gitlab/'' (c # s) = False" using digit_not [of c] by auto
  then have "gid_strip (c # s) = c # gid_strip s"
    by (subst gid_strip.simps) (simp only: simp_thms if_False list.case)
  with Cons show ?case by simp
qed

lemma gid_strip_gid:
  assumes "list_all rx_any ns" and "list_all is_digit d"
  shows "gid_strip (toKhulnaSoftGid ns d) = d"
proof -
  let ?line = "ns @ CHR ''/'' # d"
  have gid: "toKhulnaSoftGid ns d = ''gid://gitlab/'' @ ?line"
    by (simp add: toKhulnaSoftGid_def)
  have drop: "drop 13 (toKhulnaSoftGid ns d) = ?line" by (simp add: toKhulnaSoftGid_def)
  have "list_all rx_any ?line"
    using assms digit_not by (auto simp: list_all_iff rx_any_def)
  then have tw: "takeWhile rx_any ?line = ?line" "dropWhile rx_any ?line = []"
    by (simp_all add: takeWhile_eq_all_conv list_all_iff)
  have "takeWhile (\<lambda>c. c \<noteq> CHR ''/'') (rev d @ CHR ''/'' # rev ns) = rev d"
    using assms(2) digit_not by (subst takeWhile_append2) (auto simp: list_all_iff)
  then have last: "after_last_slash ?line = d" by (simp add: after_last_slash_def)
  have "gid_strip (toKhulnaSoftGid ns d) = gid_strip (after_last_slash ?line @ [])"
    unfolding gid_strip.simps [of "toKhulnaSoftGid ns d"] drop tw Let_def by (simp add: gid)
  with last gid_strip_digits [OF assms(2)] show ?thesis by simp
qed

text \<open>A global identifier made from the number of an item gives the number back, except for zero, which is taken
  for a failure.\<close>

theorem gid_roundtrip:
  assumes "list_all rx_any ns"
  shows "tryParseKhulnaSoftGid (toKhulnaSoftGid ns (show_nat n)) = (if n = 0 then None else Some (int n))"
  using gid_strip_gid [OF assms, of "show_nat n"] show_nat_digits [of n]
  by (simp add: tryParseKhulnaSoftGid_def parseInt_show)

theorem gid_roundtrip_witness: "tryParseKhulnaSoftGid ''gid://gitlab/Issue/42'' = Some 42"
proof -
  have "show_nat 42 = ''42''" by code_simp
  with gid_roundtrip [of "''Issue''" 42] show ?thesis by (simp add: rx_any_def toKhulnaSoftGid_def)
qed

subsection \<open>Sizes\<close>

lemma text_ok_Nil: "text_ok []"
  by (simp add: text_ok_def)

lemma text_ok_append: "text_ok (s @ t) \<longleftrightarrow> text_ok s \<and> text_ok t"
  by (auto simp: text_ok_def)

lemma text_ok_subset: "text_ok s \<Longrightarrow> set t \<subseteq> set s \<Longrightarrow> text_ok t"
  by (auto simp: text_ok_def)

lemma text_ok_join: "text_ok sep \<Longrightarrow> \<forall>t \<in> set ts. text_ok t \<Longrightarrow> text_ok (join sep ts)"
  by (induction sep ts rule: join.induct) (simp_all add: text_ok_append text_ok_Nil)

lemma close_marker_subset: "close_marker s = Some t \<Longrightarrow> set t \<subseteq> set s"
  by (induction s rule: close_marker.induct) (auto split: if_splits dest: in_set_dropD)

lemma strip_hunk_subset: "set (strip_hunk b s) \<subseteq> set s"
proof (induction b s rule: strip_hunk.induct)
  case (2 b u s)
  show ?case
  proof (cases "if b \<and> prefix marker (u # s) then close_marker (drop 2 s) else None")
    case None
    with 2 show ?thesis by auto
  next
    case (Some t)
    then have "close_marker (drop 2 s) = Some t" by (simp split: if_splits)
    from close_marker_subset [OF this] set_drop_subset [of 2 s] Some show ?thesis by auto
  qed
qed simp

lemma limit_eq: "getAdvancedContextContentLimit n = 144000 div n"
  by (simp add: getAdvancedContextContentLimit_def)

lemma truncated_size: "text_ok s \<Longrightarrow> getByteSize (truncateToByteLimit s (int n)) \<le> n + 2"
  using truncate_bytes [of s "int n"] by (simp add: kept_def)

lemma notes_size:
  assumes "\<forall>note \<in> set notes. text_ok (in_body note)"
  shows "getByteSize (formatIssuableNotes time notes n) \<le> n + 2"
  unfolding formatIssuableNotes_def Let_def js_sort_key
  by (rule truncated_size, rule text_ok_join) (use assms in \<open>auto simp: text_ok_def\<close>)

lemma diffs_size:
  assumes "\<forall>diff \<in> set diffs. text_ok (df_oldPath diff) \<and> text_ok (df_newPath diff) \<and> text_ok (df_diff diff)"
  shows "getByteSize (formatDiffs diffs n) \<le> n + 2"
proof -
  have "text_ok (formatDiff diff)" if "diff \<in> set diffs" for diff
  proof -
    have "set (trimEnd (strip_hunk True (df_diff diff))) \<subseteq> set (strip_hunk True (df_diff diff))"
      unfolding trimEnd_def using set_dropWhileD by fastforce
    then have "text_ok (trimEnd (strip_hunk True (df_diff diff)))"
      using assms that strip_hunk_subset [of True "df_diff diff"] text_ok_subset subset_trans by metis
    moreover have "text_ok (ln # s) = text_ok s" for s by (simp add: text_ok_def)
    ultimately show ?thesis
      using assms that by (simp add: formatDiff_def Let_def text_ok_append del: widen_simps)
  qed
  then have "text_ok (concat (map formatDiff diffs))" by (auto simp: text_ok_def)
  then show ?thesis unfolding formatDiffs_def by (rule truncated_size)
qed

text \<open>However many issues or merge requests are attached, their comments, and their diffs, together stay within the
  limit of the model, up to two bytes for each text that is cut.\<close>

theorem attached_texts_within_limit:
  assumes "\<And>issue note. issue \<in> set issues \<Longrightarrow> note \<in> set (concat (id_discussions issue)) \<Longrightarrow> text_ok (in_body note)"
    and "\<And>mr note. mr \<in> set mrs \<Longrightarrow> note \<in> set (concat (id_discussions mr)) \<Longrightarrow> text_ok (in_body note)"
    and "\<And>mr diff. mr \<in> set mrs \<Longrightarrow> diff \<in> set (concat (mr_commits mr)) \<Longrightarrow>
      text_ok (df_oldPath diff) \<and> text_ok (df_newPath diff) \<and> text_ok (df_diff diff)"
  shows "(\<Sum>issue\<leftarrow>issues. getByteSize (formatIssuableNotes time (concat (id_discussions issue))
            (getAdvancedContextContentLimit (length issues)))) \<le> 144000 + 2 * length issues \<and>
    (\<Sum>mr\<leftarrow>mrs. getByteSize (formatDiffs (case mr_commits mr of [] \<Rightarrow> [] | diffs # _ \<Rightarrow> diffs)
            (getAdvancedContextContentLimit (length mrs) div 2)) +
          getByteSize (formatIssuableNotes time (concat (id_discussions mr))
            (getAdvancedContextContentLimit (length mrs) div 2))) \<le> 144000 + 4 * length mrs"
proof
  have all: "(\<Sum>x\<leftarrow>xs. f x) \<le> length xs * b" if "\<And>x. x \<in> set xs \<Longrightarrow> f x \<le> b" for f :: "'x \<Rightarrow> nat" and xs b
    using that by (induction xs) (auto intro: add_mono)
  have share: "length xs * (144000 div length xs) \<le> 144000" for xs :: "'x list" by simp
  have "(\<Sum>issue\<leftarrow>issues. getByteSize (formatIssuableNotes time (concat (id_discussions issue))
            (getAdvancedContextContentLimit (length issues)))) \<le> length issues * (144000 div length issues + 2)"
  proof (rule all)
    fix issue assume issue: "issue \<in> set issues"
    show "getByteSize (formatIssuableNotes time (concat (id_discussions issue))
            (getAdvancedContextContentLimit (length issues))) \<le> 144000 div length issues + 2"
      unfolding limit_eq by (rule notes_size) (use assms(1) [OF issue] in blast)
  qed
  also have "\<dots> \<le> 144000 + 2 * length issues" using share [of issues] by (simp add: algebra_simps)
  finally show "(\<Sum>issue\<leftarrow>issues. getByteSize (formatIssuableNotes time (concat (id_discussions issue))
            (getAdvancedContextContentLimit (length issues)))) \<le> 144000 + 2 * length issues" .
  let ?half = "144000 div length mrs div 2"
  have "(\<Sum>mr\<leftarrow>mrs. getByteSize (formatDiffs (case mr_commits mr of [] \<Rightarrow> [] | diffs # _ \<Rightarrow> diffs) ?half) +
          getByteSize (formatIssuableNotes time (concat (id_discussions mr)) ?half)) \<le> length mrs * (2 * ?half + 4)"
  proof (rule all)
    fix mr assume mr: "mr \<in> set mrs"
    have "getByteSize (formatDiffs (case mr_commits mr of [] \<Rightarrow> [] | diffs # _ \<Rightarrow> diffs) ?half) \<le> ?half + 2"
    proof (rule diffs_size, rule ballI)
      fix diff assume "diff \<in> set (case mr_commits mr of [] \<Rightarrow> [] | diffs # _ \<Rightarrow> diffs)"
      then have "diff \<in> set (concat (mr_commits mr))" by (cases "mr_commits mr") auto
      with assms(3) [OF mr] show "text_ok (df_oldPath diff) \<and> text_ok (df_newPath diff) \<and> text_ok (df_diff diff)" by blast
    qed
    moreover have "getByteSize (formatIssuableNotes time (concat (id_discussions mr)) ?half) \<le> ?half + 2"
      by (rule notes_size) (use assms(2) [OF mr] in blast)
    ultimately show "getByteSize (formatDiffs (case mr_commits mr of [] \<Rightarrow> [] | diffs # _ \<Rightarrow> diffs) ?half) +
        getByteSize (formatIssuableNotes time (concat (id_discussions mr)) ?half) \<le> 2 * ?half + 4" by simp
  qed
  also have "\<dots> \<le> length mrs * (144000 div length mrs + 4)" by simp
  also have "\<dots> \<le> 144000 + 4 * length mrs" using share [of mrs] by (simp add: algebra_simps)
  finally show "(\<Sum>mr\<leftarrow>mrs. getByteSize (formatDiffs (case mr_commits mr of [] \<Rightarrow> [] | diffs # _ \<Rightarrow> diffs)
            (getAdvancedContextContentLimit (length mrs) div 2)) +
          getByteSize (formatIssuableNotes time (concat (id_discussions mr))
            (getAdvancedContextContentLimit (length mrs) div 2))) \<le> 144000 + 4 * length mrs"
    by (simp add: limit_eq)
qed

subsection \<open>Hunk headers\<close>

text \<open>\<open>@@\<close> at position \<open>k\<close>, at the end of a line.\<close>

definition closes :: "text16 \<Rightarrow> nat \<Rightarrow> bool" where
  "closes s k \<longleftrightarrow> prefix marker (drop k s) \<and> (drop (k + 2) s = [] \<or> line_break (hd (drop (k + 2) s)))"

lemma close_marker_first:
  "closes s k \<Longrightarrow> \<forall>j < k. \<not> closes s j \<Longrightarrow> close_marker s = Some (drop (k + 2) s)"
proof (induction s arbitrary: k)
  case Nil
  then show ?case by (simp add: closes_def marker_def)
next
  case (Cons u s)
  have zero: "closes (u # s) 0 \<longleftrightarrow> prefix marker (u # s) \<and> (drop 1 s = [] \<or> line_break (hd (drop 1 s)))"
    by (simp add: closes_def numeral_2_eq_2)
  show ?case
  proof (cases k)
    case 0
    with Cons.prems(1) zero show ?thesis by (simp add: numeral_2_eq_2)
  next
    case (Suc i)
    have shift: "closes (u # s) (Suc j) = closes s j" for j by (simp add: closes_def)
    have "\<forall>j < i. \<not> closes s j"
    proof (intro allI impI)
      fix j assume "j < i"
      with Cons.prems(2) [rule_format, of "Suc j"] shift [of j] show "\<not> closes s j" by (simp add: Suc)
    qed
    with Cons.IH [of i] Cons.prems(1) shift [of i] have "close_marker s = Some (drop (i + 2) s)" by (simp add: Suc)
    moreover have "\<not> closes (u # s) 0" using Cons.prems(2) Suc by blast
    ultimately show ?thesis using zero by (auto simp: Suc)
  qed
qed

text \<open>The text of a diff that begins with a hunk header loses everything up to the first \<open>@@\<close> that ends a line;
  when the header is followed by the name of a function this is the header of a later hunk, and the lines
  between are lost.\<close>

theorem hunk_header_removed:
  assumes "prefix marker s" and "3 \<le> k" and "closes s k" and "\<And>j. 3 \<le> j \<Longrightarrow> j < k \<Longrightarrow> \<not> closes s j"
  shows "strip_hunk True s = drop (k + 2) s"
proof -
  have shift: "closes (drop 3 s) j = closes s (j + 3)" for j
    by (simp add: closes_def add.commute)
  have "close_marker (drop 3 s) = Some (drop (k - 3 + 2) (drop 3 s))"
    by (rule close_marker_first) (use assms(2-4) shift in auto)
  then have close: "close_marker (drop 3 s) = Some (drop (k + 2) s)" using assms(2) by simp
  obtain u t where ut: "s = u # t" using assms(1) by (cases s) (auto simp: marker_def)
  then have "drop 3 s = drop 2 t" by (simp add: numeral_3_eq_3 numeral_2_eq_2)
  with close assms(1) show ?thesis by (simp add: ut)
qed

subsection \<open>The contract of the providers\<close>

lemma issuable_item_fields [simp]:
  "item_type (issuable_item t cat ns label icon sign A statuses x) = t"
  "ai_category (issuable_item t cat ns label icon sign A statuses x) = cat"
  "ai_id (issuable_item t cat ns label icon sign A statuses x) = toKhulnaSoftGid ns (show_nat (ri_id x))"
  "am_enabled (ai_metadata (issuable_item t cat ns label icon sign A statuses x)) \<longleftrightarrow>
     or_else (am_disabledReasons (ai_metadata (issuable_item t cat ns label icon sign A statuses x))) [] = []"
  by (simp_all add: issuable_item_def Let_def item_type_def or_else_def)

lemma issue_handled: "x \<in> set (fst (handleIssueResults A rs c)) \<Longrightarrow> \<exists>statuses r. x = issue_item A statuses r"
proof -
  let ?item = "issue_item A (fst (checkProjectStatusesByIds (ia_query A) (map ri_project_id rs) c))"
  assume "x \<in> set (fst (handleIssueResults A rs c))"
  then have "x \<in> ?item ` set rs"
    by (auto simp: handleIssueResults_def case_prod_beta dest!: in_set_takeD)
  then show ?thesis by blast
qed

lemma issue_found:
  assumes "x \<in> set (fst (issue_searchContextItems (searchIssuesFor A) A query c))"
  shows "\<exists>statuses r. x = issue_item A statuses r"
proof -
  from assms obtain rs where "x \<in> set (fst (handleIssueResults A rs c))"
    by (auto simp: issue_searchContextItems_def getIssuesForCurrentUser_def searchIssuesFor_def
        split: if_splits sum.splits)
  then show ?thesis by (rule issue_handled)
qed

lemma merge_request_handled:
  "x \<in> set (fst (handleMergeRequestResults A selected rs c)) \<Longrightarrow>
   \<exists>statuses r. x = merge_request_item A statuses r \<and> ai_id x \<notin> ai_id ` set selected"
proof -
  let ?rs = "filter (\<lambda>mr. toKhulnaSoftGid GID_NAMESPACE_MERGE_REQUEST (show_nat (ri_id mr)) \<notin> ai_id ` set selected) rs"
  let ?item = "merge_request_item A (fst (checkProjectStatusesByIds (ia_query A) (map ri_project_id ?rs) c))"
  assume "x \<in> set (fst (handleMergeRequestResults A selected rs c))"
  then have "x \<in> set (take MAX_SEARCH_RESULTS (map ?item ?rs))"
    by (simp add: handleMergeRequestResults_def case_prod_beta Let_def)
  then obtain r where "r \<in> set ?rs" "x = ?item r" by (auto dest!: in_set_takeD)
  then show ?thesis by auto
qed

lemma merge_request_found:
  assumes "x \<in> set (fst (mr_searchContextItems (searchMergeRequestsFor A selected) A selected query c))"
  shows "\<exists>statuses r. x = merge_request_item A statuses r \<and> ai_id x \<notin> ai_id ` set selected"
proof -
  from assms obtain rs where "x \<in> set (fst (handleMergeRequestResults A selected rs c))"
    by (auto simp: mr_searchContextItems_def getMergeRequestsForCurrentUser_def searchMergeRequestsFor_def
        split: if_splits sum.splits)
  then show ?thesis by (rule merge_request_handled)
qed

interpretation issues: context_provider Issue
  "\<lambda>(A, query, c). fst (issue_searchContextItems (searchIssuesFor A) A query c)"
  "\<lambda>(A, selected) item. Inr (issue_getItemWithContent A selected item)"
proof unfold_locales
  fix x :: wide_item and q :: "issuable_api \<times> ai_query \<times> id_cache"
  obtain A query c where q: "q = (A, query, c)" by (cases q) auto
  assume "x \<in> set (case q of (A, query, c) \<Rightarrow> fst (issue_searchContextItems (searchIssuesFor A) A query c))"
  then obtain statuses r where x: "x = issue_item A statuses r" using issue_found [of x A query c] unfolding q by force
  show "item_type x = Issue" "Issue \<in> set (provider_types (ai_category x))"
    "am_enabled (ai_metadata x) \<longleftrightarrow> or_else (am_disabledReasons (ai_metadata x)) [] = []"
    unfolding x by (simp_all only: issuable_item_fields) (simp add: provider_types_def)
next
  fix e :: "issuable_api \<times> wide_item list" and x y
  assume "(case e of (A, selected) \<Rightarrow> \<lambda>item. Inr (issue_getItemWithContent A selected item)) x = Inr y"
  then show "ai_id y = ai_id x \<and> ai_category y = ai_category x \<and> ai_metadata y = ai_metadata x"
    by (auto simp: issue_getItemWithContent_def split: prod.splits sum.splits)
qed

interpretation merge_requests: context_provider Merge_request
  "\<lambda>(A, selected, query, c). fst (mr_searchContextItems (searchMergeRequestsFor A selected) A selected query c)"
  "\<lambda>(A, selected) item. Inr (mr_getItemWithContent A selected item)"
proof unfold_locales
  fix x :: wide_item and q :: "issuable_api \<times> wide_item list \<times> ai_query \<times> id_cache"
  obtain A selected query c where q: "q = (A, selected, query, c)" by (cases q) auto
  assume "x \<in> set (case q of (A, selected, query, c) \<Rightarrow>
      fst (mr_searchContextItems (searchMergeRequestsFor A selected) A selected query c))"
  then obtain statuses r where x: "x = merge_request_item A statuses r"
    using merge_request_found [of x A selected query c] unfolding q by force
  show "item_type x = Merge_request" "Merge_request \<in> set (provider_types (ai_category x))"
    "am_enabled (ai_metadata x) \<longleftrightarrow> or_else (am_disabledReasons (ai_metadata x)) [] = []"
    unfolding x by (simp_all only: issuable_item_fields) (simp add: provider_types_def)
next
  fix e :: "issuable_api \<times> wide_item list" and x y
  assume "(case e of (A, selected) \<Rightarrow> \<lambda>item. Inr (mr_getItemWithContent A selected item)) x = Inr y"
  then show "ai_id y = ai_id x \<and> ai_category y = ai_category x \<and> ai_metadata y = ai_metadata x"
    by (auto simp: mr_getItemWithContent_def split: prod.splits sum.splits)
qed

definition demo_issue_api :: issuable_api where
  "demo_issue_api =
     \<lparr>ia_fetch = (\<lambda>r. Inr []), ia_issue = (\<lambda>i. Inl TypeError), ia_mergeRequest = (\<lambda>i. Inl TypeError),
      ia_query = (\<lambda>ids. None), ia_urls = (\<lambda>s. None), ia_time = (\<lambda>t. int (length t))\<rparr>"

definition demo_note :: issuable_note where
  "demo_note = \<lparr>in_body = widen ''ok'', in_createdAt = widen ''1''\<rparr>"

definition demo_issue :: issue_details where
  "demo_issue =
     \<lparr>id_title = widen ''t'', id_description = None, id_state = widen ''opened'', id_webUrl = widen ''u'',
      id_discussions = [[demo_note]], is_createdAt = [], is_updatedAt = [], is_closedAt = None, is_confidential = False,
      is_weight = None, is_milestone = None, is_assignees = [], is_labels = []\<rparr>"

theorem attached_texts_within_limit_witness:
  "getByteSize (formatIssuableNotes (ia_time demo_issue_api) [demo_note] (getAdvancedContextContentLimit 1)) \<le> 144002"
  using attached_texts_within_limit [of "[demo_issue]" "[] :: merge_request_details list" "ia_time demo_issue_api"]
  by (simp add: demo_issue_def demo_note_def text_ok_def)

definition two_hunks :: text16 where
  "two_hunks = widen ''@@ -1 +1 @@ f'' @ [ln] @ widen ''-a'' @ [ln] @ widen ''@@ -9 +9 @@'' @ [ln] @ widen ''-c''"

theorem hunk_header_removed_witness:
  "strip_hunk True two_hunks = [ln] @ widen ''-c''"
proof -
  have "\<not> closes two_hunks j" if "3 \<le> j" "j < 26" for j
  proof -
    have "j \<in> {3..25}" using that by auto
    moreover have "\<forall>j \<in> {3..25}. \<not> closes two_hunks j"
      by (simp add: two_hunks_def closes_def marker_def line_break_def atLeastAtMost_upt upt_rec widen_def)
    ultimately show ?thesis by blast
  qed
  moreover have "prefix marker two_hunks" "closes two_hunks 26" "drop 28 two_hunks = [ln] @ widen ''-c''"
    by (simp_all add: two_hunks_def closes_def marker_def line_break_def widen_def)
  ultimately show ?thesis using hunk_header_removed [of two_hunks 26] by simp
qed

end
