(* ===== verification/Async_Debounce.thy ===== *)
theory Async_Debounce
  imports Domain
begin

text \<open>
  Debounced asynchronous functions (\<open>src/common/utils/async_debounce.ts\<close>).  \<open>debounce\<close> of \<open>lodash\<close> starts the
  function with the arguments of the last call once no call has come for the waiting time; the function may take any
  time, so that several runs can be in flight.  A caller is a number; the sets of resolve and reject functions always
  hold the same callers.
\<close>

record ('q, 'r) debounced =
  ad_calls :: "'q list"
  ad_pending :: "nat list"
  ad_timer :: "'q option"
  ad_running :: "'q list"
  ad_settled :: "(nat \<times> (js_error + 'r)) list"

definition ad_new :: "('q, 'r) debounced" where
  "ad_new = \<lparr>ad_calls = [], ad_pending = [], ad_timer = None, ad_running = [], ad_settled = []\<rparr>"

text \<open>A call: the caller's number is that of the calls before it.\<close>

definition debouncedWrapper :: "'q \<Rightarrow> ('q, 'r) debounced \<Rightarrow> ('q, 'r) debounced" where
  "debouncedWrapper q s =
     s\<lparr>ad_calls := ad_calls s @ [q], ad_pending := ad_pending s @ [length (ad_calls s)], ad_timer := Some q\<rparr>"

text \<open>The waiting time has passed.\<close>

definition debouncedFn :: "('q, 'r) debounced \<Rightarrow> ('q, 'r) debounced" where
  "debouncedFn s =
     (case ad_timer s of None \<Rightarrow> s | Some q \<Rightarrow> s\<lparr>ad_timer := None, ad_running := ad_running s @ [q]\<rparr>)"

text \<open>A run ends with a result or an error: every waiting caller gets it.\<close>

definition run_ended :: "nat \<Rightarrow> js_error + 'r \<Rightarrow> ('q, 'r) debounced \<Rightarrow> ('q, 'r) debounced" where
  "run_ended i r s =
     s\<lparr>ad_running := take i (ad_running s) @ drop (i + 1) (ad_running s),
       ad_settled := ad_settled s @ map (\<lambda>c. (c, r)) (ad_pending s), ad_pending := []\<rparr>"

text \<open>\<open>F q r\<close>: a run for \<open>q\<close> may end with \<open>r\<close>.\<close>

inductive ad_step :: "('q \<Rightarrow> js_error + 'r \<Rightarrow> bool) \<Rightarrow> ('q, 'r) debounced \<Rightarrow> ('q, 'r) debounced \<Rightarrow> bool" for F where
  ad_call: "ad_step F s (debouncedWrapper q s)"
| ad_fire: "ad_timer s \<noteq> None \<Longrightarrow> ad_step F s (debouncedFn s)"
| ad_end: "i < length (ad_running s) \<Longrightarrow> F (ad_running s ! i) r \<Longrightarrow> ad_step F s (run_ended i r s)"

inductive ad_reach :: "('q \<Rightarrow> js_error + 'r \<Rightarrow> bool) \<Rightarrow> ('q, 'r) debounced \<Rightarrow> bool" for F where
  ad_start: "ad_reach F ad_new"
| ad_go: "ad_reach F s \<Longrightarrow> ad_step F s s' \<Longrightarrow> ad_reach F s'"

definition ad_ok :: "('q \<Rightarrow> js_error + 'r \<Rightarrow> bool) \<Rightarrow> ('q, 'r) debounced \<Rightarrow> bool" where
  "ad_ok F s \<longleftrightarrow>
     set (map fst (ad_settled s) @ ad_pending s) = {..<length (ad_calls s)} \<and>
     distinct (map fst (ad_settled s) @ ad_pending s) \<and>
     (ad_pending s \<noteq> [] \<longrightarrow> ad_timer s \<noteq> None \<or> ad_running s \<noteq> []) \<and>
     set_option (ad_timer s) \<union> set (ad_running s) \<subseteq> set (ad_calls s) \<and>
     (\<forall>(c, r) \<in> set (ad_settled s). \<exists>q \<in> set (ad_calls s). F q r)"

lemma ad_ok_step: "ad_ok F s \<Longrightarrow> ad_step F s s' \<Longrightarrow> ad_ok F s'"
proof (erule ad_step.cases)
  fix s0 q assume *: "ad_ok F s" "s = s0" "s' = debouncedWrapper q s0"
  let ?answered = "set (map fst (ad_settled s0) @ ad_pending s0)"
  have "?answered = {..<length (ad_calls s0)}" using * by (simp add: ad_ok_def)
  then have "length (ad_calls s0) \<notin> ?answered" "insert (length (ad_calls s0)) ?answered = {..<Suc (length (ad_calls s0))}"
    by (simp_all only: lessThan_Suc) simp
  with * show "ad_ok F s'"
    unfolding ad_ok_def debouncedWrapper_def by (simp del: set_map) blast
next
  fix s0 assume *: "ad_ok F s" "s = s0" "s' = debouncedFn s0" "ad_timer s0 \<noteq> None"
  then obtain q where "ad_timer s0 = Some q" by blast
  with * show "ad_ok F s'" by (simp add: ad_ok_def debouncedFn_def)
next
  fix i s0 r assume *: "ad_ok F s" "s = s0" "s' = run_ended i r s0" "i < length (ad_running s0)" "F (ad_running s0 ! i) r"
  then have "set (ad_running s0) \<subseteq> set (ad_calls s0)" by (simp add: ad_ok_def)
  with *(4) have "ad_running s0 ! i \<in> set (ad_calls s0)" by (meson nth_mem subsetD)
  moreover have "map fst (map (\<lambda>c. (c, r)) cs) = cs" for cs :: "nat list" by (induction cs) auto
  moreover have "set (take i (ad_running s0) @ drop (i + 1) (ad_running s0)) \<subseteq> set (ad_running s0)"
    using set_take_subset [of i "ad_running s0"] set_drop_subset [of "i + 1" "ad_running s0"] by simp
  ultimately show "ad_ok F s'" using * unfolding ad_ok_def run_ended_def by (simp add: comp_def) blast
qed

lemma ad_ok_reach: "ad_reach F s \<Longrightarrow> ad_ok F s"
proof (induction rule: ad_reach.induct)
  case ad_start
  then show ?case by (simp add: ad_ok_def ad_new_def)
qed (rule ad_ok_step)

text \<open>C38: Every call is waiting or has been answered, and never twice; while one waits a run is in flight or about to
  start, so that it will be answered; and every answer is that of a run for some call.\<close>

theorem debounced_calls_answered:
  assumes "ad_reach F s"
  shows "(\<forall>c < length (ad_calls s). (c \<in> set (ad_pending s)) \<noteq> (c \<in> fst ` set (ad_settled s))) \<and>
    distinct (map fst (ad_settled s)) \<and>
    (ad_pending s \<noteq> [] \<longrightarrow> ad_timer s \<noteq> None \<or> ad_running s \<noteq> []) \<and>
    (\<forall>(c, r) \<in> set (ad_settled s). \<exists>q \<in> set (ad_calls s). F q r)"
proof -
  have ok: "ad_ok F s" by (rule ad_ok_reach [OF assms])
  then have "fst ` set (ad_settled s) \<union> set (ad_pending s) = {..<length (ad_calls s)}"
    "fst ` set (ad_settled s) \<inter> set (ad_pending s) = {}"
    by (auto simp: ad_ok_def)
  with ok show ?thesis unfolding ad_ok_def by auto
qed

text \<open>The answer need not be that of the latest call: a caller that asks while an earlier run is in flight is given
  the result of that run, and the run for its own question answers nobody.\<close>

theorem debounced_answer_stale:
  "\<exists>s. ad_reach (\<lambda>q r. r = Inr q) s \<and> ad_calls s = [a, b] \<and> ad_settled s = [(0, Inr a), (1, Inr a)] \<and>
     ad_pending s = [] \<and> ad_running s = [] \<and> ad_timer s = None"
proof -
  let ?F = "\<lambda>q r. r = Inr q"
  let ?s1 = "debouncedFn (debouncedWrapper a ad_new)"
  let ?s2 = "run_ended 0 (Inr a) (debouncedWrapper b ?s1)"
  let ?s3 = "run_ended 0 (Inr b) (debouncedFn ?s2)"
  note defs = debouncedWrapper_def debouncedFn_def run_ended_def ad_new_def
  have "ad_reach ?F (debouncedWrapper a ad_new)" by (rule ad_go [OF ad_start ad_call])
  then have "ad_reach ?F ?s1" by (rule ad_go) (rule ad_fire, simp add: defs)
  then have "ad_reach ?F (debouncedWrapper b ?s1)" by (rule ad_go) (rule ad_call)
  then have "ad_reach ?F ?s2" by (rule ad_go) (rule ad_end, simp_all add: defs)
  then have "ad_reach ?F (debouncedFn ?s2)" by (rule ad_go) (rule ad_fire, simp add: defs)
  then have "ad_reach ?F ?s3" by (rule ad_go) (rule ad_end, simp_all add: defs)
  moreover have "ad_calls ?s3 = [a, b]" "ad_settled ?s3 = [(0, Inr a), (1, Inr a)]" "ad_pending ?s3 = []"
    "ad_running ?s3 = []" "ad_timer ?s3 = None"
    by (simp_all add: defs)
  ultimately show ?thesis by blast
qed

definition demo_debounced :: "(string, string) debounced" where
  "demo_debounced = debouncedFn (debouncedWrapper ''q'' ad_new)"

theorem debounced_calls_answered_witness:
  "ad_pending demo_debounced = [0] \<and> ad_running demo_debounced \<noteq> []"
proof -
  have "ad_reach (\<lambda>q r. r = Inr q) demo_debounced"
    unfolding demo_debounced_def
    by (rule ad_go [OF ad_go [OF ad_start ad_call]]) (rule ad_fire, simp add: debouncedWrapper_def)
  from debounced_calls_answered [OF this] show ?thesis
    by (simp add: demo_debounced_def debouncedWrapper_def debouncedFn_def ad_new_def)
qed

end
