(* ===== verification/Dependency_Injection.thy ===== *)
theory Dependency_Injection
  imports Domain "HOL-Library.Multiset"
begin

text \<open>
  The container that constructs the objects of the server (\<open>packages/lib_di/src/index.ts\<close>).

  Symbols and classes are the type variables \<open>'s\<close> and \<open>'c\<close>, the objects \<open>'i\<close>.  The weak map of the metadata, the
  names and the constructors are the fields of an environment.  The recursion of the topological sort has a bound,
  the depth of the call stack: beyond it the engine throws a \<open>RangeError\<close>.
\<close>

datatype 's dependency_id = Interface_id 's | Collection_id 's

definition isCollectionToken :: "'s dependency_id \<Rightarrow> bool" where
  "isCollectionToken token = (case token of Interface_id s \<Rightarrow> False | Collection_id s \<Rightarrow> True)"

definition dep_symbol :: "'s dependency_id \<Rightarrow> 's" where
  "dep_symbol token = (case token of Interface_id s \<Rightarrow> s | Collection_id s \<Rightarrow> s)"

record ('s, 'c) class_with_dependencies =
  cwd_cls :: 'c
  cwd_id :: 's
  cwd_dependencies :: "'s dependency_id list"

datatype 'i argument = Instance_arg 'i | Collection_arg "'i list"

record ('s, 'c, 'i) di_env =
  di_description :: "'s \<Rightarrow> string"
  di_name :: "'c \<Rightarrow> string"
  di_metadata :: "'c \<Rightarrow> ('s \<times> 's dependency_id list) option"
  di_branded :: "'i \<Rightarrow> 's option"
  di_construct :: "'c \<Rightarrow> 'i argument list \<Rightarrow> js_error + 'i"

type_synonym ('s, 'i) di_instances = "('s, 'i list) jsmap"

subsection \<open>Validation\<close>

definition names_list :: "string list \<Rightarrow> string" where
  "names_list ss = join '','' ss"

definition unmet_dependencies :: "'s set \<Rightarrow> ('s, 'c) class_with_dependencies \<Rightarrow> 's dependency_id list" where
  "unmet_dependencies allSymbols cwd =
     filter (\<lambda>dep. \<not> isCollectionToken dep \<and> dep_symbol dep \<notin> allSymbols) (cwd_dependencies cwd)"

definition unmet_message ::
  "('s, 'c, 'i) di_env \<Rightarrow> 's set \<Rightarrow> ('s, 'c) class_with_dependencies \<Rightarrow> string" where
  "unmet_message E allSymbols cwd =
     ''Class '' @ di_name E (cwd_cls cwd) @ '' (interface '' @ di_description E (cwd_id cwd) @
     '') depends on interfaces ['' @
     names_list (map (\<lambda>dep. di_description E (dep_symbol dep)) (unmet_dependencies allSymbols cwd)) @
     ''] that weren'' @ [CHR 0x27] @ ''t added to the init method.''"

definition dependenciesArePresent ::
  "('s, 'c, 'i) di_env \<Rightarrow> ('s, 'c) class_with_dependencies list \<Rightarrow> ('s, 'i) di_instances \<Rightarrow> js_error option" where
  "dependenciesArePresent E cwds instances =
     (let allSymbols = set (map cwd_id cwds @ map_keys instances);
          cwsWithUnmetDeps = filter (\<lambda>cwd. unmet_dependencies allSymbols cwd \<noteq> []) cwds
      in if cwsWithUnmetDeps = [] then None
         else Some (JsError (join [newline] (map (unmet_message E allSymbols) cwsWithUnmetDeps))))"

text \<open>The depth first search leaves the set \<open>inStack\<close> as it found it unless it returns true; so the set is an
  argument here, in the order of insertion, and a hit returns it for the message.  Only the first class of an
  interface is looked at.\<close>

fun first_hit :: "(js_error + 'a option) list \<Rightarrow> js_error + 'a option" where
  "first_hit [] = Inr None"
| "first_hit (Inl e # rs) = Inl e"
| "first_hit (Inr (Some x) # rs) = Inr (Some x)"
| "first_hit (Inr None # rs) = first_hit rs"

definition missing_dependency :: "('s, 'c, 'i) di_env \<Rightarrow> 's \<Rightarrow> js_error" where
  "missing_dependency E symbol = JsError (''assertion error: dependency ID missing '' @ di_description E symbol)"

lemma open_symbols_decrease:
  assumes "List.find (\<lambda>c. cwd_id c = symbol) cwds = Some cwd" and "symbol \<notin> set stack"
  shows "card (set (map cwd_id cwds) - set (stack @ [symbol])) < card (set (map cwd_id cwds) - set stack)"
proof (rule psubset_card_mono)
  from assms(1) have "symbol \<in> set (map cwd_id cwds)" by (auto simp: find_Some_iff)
  with assms(2) show "set (map cwd_id cwds) - set (stack @ [symbol]) \<subset> set (map cwd_id cwds) - set stack" by auto
qed simp

function hasCircularDependency ::
  "('s, 'c, 'i) di_env \<Rightarrow> ('s, 'c) class_with_dependencies list \<Rightarrow> ('s, 'i) di_instances \<Rightarrow> 's list \<Rightarrow> 's \<Rightarrow>
   js_error + 's list option" where
  "hasCircularDependency E cwds instances inStack symbol =
     (if symbol \<in> set inStack then Inr (Some inStack)
      else case List.find (\<lambda>c. cwd_id c = symbol) cwds of
          None \<Rightarrow> if symbol \<in> set (map_keys instances) then Inr None else Inl (missing_dependency E symbol)
        | Some cwd \<Rightarrow>
            first_hit (map (\<lambda>dep. hasCircularDependency E cwds instances (inStack @ [symbol]) (dep_symbol dep))
              (cwd_dependencies cwd)))"
  by pat_completeness auto
termination
  by (relation "measure (\<lambda>(E, cwds, instances, inStack, symbol). card (set (map cwd_id cwds) - set inStack))")
     (use open_symbols_decrease in auto)

declare hasCircularDependency.simps [simp del]

definition circular_message ::
  "('s, 'c, 'i) di_env \<Rightarrow> ('s, 'c) class_with_dependencies \<Rightarrow> 's list \<Rightarrow> js_error" where
  "circular_message E cwd inStack =
     JsError (''Circular dependency detected between interfaces ('' @ names_list (map (di_description E) inStack) @
       ''), starting with '' @ [CHR 0x27] @ di_description E (cwd_id cwd) @ [CHR 0x27] @ '' (class: '' @
       di_name E (cwd_cls cwd) @ '').'')"

definition noCircularDependencies ::
  "('s, 'c, 'i) di_env \<Rightarrow> ('s, 'c) class_with_dependencies list \<Rightarrow> ('s, 'i) di_instances \<Rightarrow> js_error option" where
  "noCircularDependencies E cwds instances =
     (case first_hit (map (\<lambda>cwd. map_sum id (map_option (circular_message E cwd))
             (hasCircularDependency E cwds instances [] (cwd_id cwd))) cwds) of
        Inl e \<Rightarrow> Some e
      | Inr hit \<Rightarrow> hit)"

subsection \<open>Sorting\<close>

fun fold_opt :: "('a \<Rightarrow> 'b \<Rightarrow> 'b option) \<Rightarrow> 'a list \<Rightarrow> 'b \<Rightarrow> 'b option" where
  "fold_opt f [] s = Some s"
| "fold_opt f (x # xs) s = (case f x s of None \<Rightarrow> None | Some s' \<Rightarrow> fold_opt f xs s')"

text \<open>The set of processed classes is that of the classes sorted so far.\<close>

fun topologicalSort ::
  "nat \<Rightarrow> ('s, 'c) class_with_dependencies list \<Rightarrow> 's \<Rightarrow> ('s, 'c) class_with_dependencies list \<Rightarrow>
   ('s, 'c) class_with_dependencies list option" where
  "topologicalSort 0 classes symbol sortedClasses = None"
| "topologicalSort (Suc depth) classes symbol sortedClasses =
     fold_opt
       (\<lambda>cwd processed. map_option (\<lambda>processed'. processed' @ [cwd])
          (fold_opt (\<lambda>dep. topologicalSort depth classes (dep_symbol dep)) (cwd_dependencies cwd) processed))
       (filter (\<lambda>c. cwd_id c = symbol \<and> cwd_cls c \<notin> set (map cwd_cls sortedClasses)) classes)
       sortedClasses"

definition sortDependencies ::
  "nat \<Rightarrow> ('s, 'c) class_with_dependencies list \<Rightarrow> ('s, 'c) class_with_dependencies list option" where
  "sortDependencies depth classes = fold_opt (\<lambda>cwd. topologicalSort depth classes (cwd_id cwd)) classes []"

subsection \<open>The container\<close>

definition add_instance :: "'s \<Rightarrow> 'i \<Rightarrow> ('s, 'i) di_instances \<Rightarrow> ('s, 'i) di_instances" where
  "add_instance symbol inst instances =
     map_set symbol ((case map_get instances symbol of None \<Rightarrow> [] | Some is \<Rightarrow> is) @ [inst]) instances"

definition not_branded :: js_error where
  "not_branded = JsError (''assertion error: addInstance invoked without branded object, make sure all arguments are '' @
     ''branded with `brandInstance`'')"

fun addInstances :: "('s, 'c, 'i) di_env \<Rightarrow> 'i list \<Rightarrow> ('s, 'i) di_instances \<Rightarrow> js_error option \<times> ('s, 'i) di_instances" where
  "addInstances E [] instances = (None, instances)"
| "addInstances E (inst # rest) instances =
     (case di_branded E inst of
        None \<Rightarrow> (Some not_branded, instances)
      | Some symbol \<Rightarrow> addInstances E rest (add_instance symbol inst instances))"

definition no_instance :: "('s, 'c, 'i) di_env \<Rightarrow> 's \<Rightarrow> js_error" where
  "no_instance E symbol =
     JsError (''No instance found for '' @ di_description E symbol @
       ''. This should not have been shown, the static validation should have handled this case.'')"

definition multiple_instances :: "('s, 'c, 'i) di_env \<Rightarrow> 's \<Rightarrow> js_error" where
  "multiple_instances E symbol =
     JsError (''Multiple instances found for '' @ di_description E symbol @ '' when exactly one was expected'')"

definition getAll :: "('s, 'i) di_instances \<Rightarrow> 's \<Rightarrow> 'i list" where
  "getAll instances symbol = (case map_get instances symbol of None \<Rightarrow> [] | Some is \<Rightarrow> is)"

definition resolve :: "('s, 'c, 'i) di_env \<Rightarrow> ('s, 'i) di_instances \<Rightarrow> 's dependency_id \<Rightarrow> js_error + 'i argument" where
  "resolve E instances dep =
     (case dep of
        Collection_id s \<Rightarrow> Inr (Collection_arg (getAll instances s))
      | Interface_id s \<Rightarrow>
          (case getAll instances s of
             [] \<Rightarrow> Inl (no_instance E s)
           | [i] \<Rightarrow> Inr (Instance_arg i)
           | _ \<Rightarrow> Inl (multiple_instances E s)))"

fun resolve_all ::
  "('s, 'c, 'i) di_env \<Rightarrow> ('s, 'i) di_instances \<Rightarrow> 's dependency_id list \<Rightarrow> js_error + 'i argument list" where
  "resolve_all E instances [] = Inr []"
| "resolve_all E instances (dep # deps) =
     (case resolve E instances dep of
        Inl e \<Rightarrow> Inl e
      | Inr a \<Rightarrow> map_sum id ((#) a) (resolve_all E instances deps))"

text \<open>The instances constructed before an error stay in the container.\<close>

fun construct_all ::
  "('s, 'c, 'i) di_env \<Rightarrow> ('s, 'c) class_with_dependencies list \<Rightarrow> ('s, 'i) di_instances \<Rightarrow>
   js_error option \<times> ('s, 'i) di_instances" where
  "construct_all E [] instances = (None, instances)"
| "construct_all E (cwd # cwds) instances =
     (case resolve_all E instances (cwd_dependencies cwd) of
        Inl e \<Rightarrow> (Some e, instances)
      | Inr args \<Rightarrow>
          (case di_construct E (cwd_cls cwd) args of
             Inl e \<Rightarrow> (Some e, instances)
           | Inr inst \<Rightarrow> construct_all E cwds (add_instance (cwd_id cwd) inst instances)))"

definition undecorated_message :: "('s, 'c, 'i) di_env \<Rightarrow> 'c list \<Rightarrow> js_error" where
  "undecorated_message E cs =
     JsError (''Classes ['' @ names_list (map (di_name E) cs) @ ''] are not decorated with @Injectable.'')"

definition with_metadata :: "('s, 'c, 'i) di_env \<Rightarrow> 'c list \<Rightarrow> ('s, 'c) class_with_dependencies list" where
  "with_metadata E classes =
     List.map_filter (\<lambda>c. map_option (\<lambda>(i, deps). \<lparr>cwd_cls = c, cwd_id = i, cwd_dependencies = deps\<rparr>) (di_metadata E c))
       classes"

definition validate ::
  "('s, 'c, 'i) di_env \<Rightarrow> ('s, 'c) class_with_dependencies list \<Rightarrow> ('s, 'i) di_instances \<Rightarrow> js_error option" where
  "validate E cwds instances =
     (case dependenciesArePresent E cwds instances of
        Some e \<Rightarrow> Some e
      | None \<Rightarrow> noCircularDependencies E cwds instances)"

definition instantiate ::
  "nat \<Rightarrow> ('s, 'c, 'i) di_env \<Rightarrow> 'c list \<Rightarrow> ('s, 'i) di_instances \<Rightarrow> js_error option \<times> ('s, 'i) di_instances" where
  "instantiate depth E classes instances =
     (let undecorated = filter (\<lambda>c. di_metadata E c = None) classes; cwds = with_metadata E classes
      in if undecorated \<noteq> [] then (Some (undecorated_message E undecorated), instances)
         else case validate E cwds instances of
             Some e \<Rightarrow> (Some e, instances)
           | None \<Rightarrow>
               (case sortDependencies depth cwds of
                  None \<Rightarrow> (Some RangeError, instances)
                | Some order \<Rightarrow> construct_all E order instances))"

definition get_instance :: "('s, 'c, 'i) di_env \<Rightarrow> ('s, 'i) di_instances \<Rightarrow> 's \<Rightarrow> js_error + 'i" where
  "get_instance E instances symbol =
     (case getAll instances symbol of
        [] \<Rightarrow> Inl (JsError (''Instance for interface '' @ [CHR 0x27] @ di_description E symbol @ [CHR 0x27] @
                 '' is not in the container''))
      | [i] \<Rightarrow> Inr i
      | _ \<Rightarrow> Inl (JsError (''Multiple instances found for '' @ di_description E symbol @ ''. Use getAll('' @
                 di_description E symbol @ '') if you want to get all instances.'')))"

subsection \<open>The graph of the interfaces\<close>

definition depends_on :: "('s, 'c) class_with_dependencies list \<Rightarrow> ('s \<times> 's) set" where
  "depends_on cwds = {(cwd_id c, dep_symbol d) | c d. c \<in> set cwds \<and> d \<in> set (cwd_dependencies c)}"

lemma depends_onI: "c \<in> set cwds \<Longrightarrow> d \<in> set (cwd_dependencies c) \<Longrightarrow> (cwd_id c, dep_symbol d) \<in> depends_on cwds"
  by (auto simp: depends_on_def)

lemma depends_on_simps:
  "depends_on [] = {}"
  "depends_on (c # cwds) = (\<lambda>d. (cwd_id c, dep_symbol d)) ` set (cwd_dependencies c) \<union> depends_on cwds"
  by (auto simp: depends_on_def)

lemma first_hit_None: "first_hit rs = Inr None \<longleftrightarrow> (\<forall>r \<in> set rs. r = Inr None)"
  by (induction rs rule: first_hit.induct) auto

lemma first_hit_in: "first_hit rs = r \<Longrightarrow> r \<noteq> Inr None \<Longrightarrow> r \<in> set rs"
  by (induction rs rule: first_hit.induct) auto

lemma first_class:
  "distinct (map cwd_id cwds) \<Longrightarrow> c \<in> set cwds \<Longrightarrow> List.find (\<lambda>x. cwd_id x = cwd_id c) cwds = Some c"
  by (induction cwds) auto

text \<open>A search that finds nothing has seen everything that can be reached, when every interface has one class.\<close>

lemma search_complete:
  "hasCircularDependency E cwds instances stack s = Inr None \<Longrightarrow> distinct (map cwd_id cwds) \<Longrightarrow>
   (s, t) \<in> (depends_on cwds)\<^sup>* \<Longrightarrow> t \<notin> set stack"
proof (induction E cwds instances stack s arbitrary: t rule: hasCircularDependency.induct)
  case (1 E cwds instances stack s)
  from "1.prems"(1) have s: "s \<notin> set stack" by (auto simp: hasCircularDependency.simps split: if_splits)
  show ?case
  proof (cases "t = s")
    case False
    with "1.prems"(3) obtain u where u: "(s, u) \<in> depends_on cwds" "(u, t) \<in> (depends_on cwds)\<^sup>*"
      by (auto elim: converse_rtranclE)
    then obtain c d where c: "c \<in> set cwds" "d \<in> set (cwd_dependencies c)" "s = cwd_id c" "u = dep_symbol d"
      by (auto simp: depends_on_def)
    have found: "List.find (\<lambda>x. cwd_id x = s) cwds = Some c" using first_class [OF "1.prems"(2) c(1)] c(3) by simp
    with "1.prems"(1) s have
      "\<forall>d \<in> set (cwd_dependencies c). hasCircularDependency E cwds instances (stack @ [s]) (dep_symbol d) = Inr None"
      by (subst (asm) hasCircularDependency.simps) (auto simp: first_hit_None)
    with c have "hasCircularDependency E cwds instances (stack @ [s]) u = Inr None" by blast
    from "1.IH" [OF s found c(2)] this c(4) "1.prems"(2) u(2) have "t \<notin> set (stack @ [s])" by blast
    then show ?thesis by simp
  qed (use s in simp)
qed

lemma search_sound:
  "hasCircularDependency E cwds instances stack s = Inr (Some path) \<Longrightarrow>
   \<forall>u \<in> set stack. (u, s) \<in> (depends_on cwds)\<^sup>+ \<Longrightarrow> \<exists>u. (u, u) \<in> (depends_on cwds)\<^sup>+"
proof (induction E cwds instances stack s rule: hasCircularDependency.induct)
  case (1 E cwds instances stack s)
  show ?case
  proof (cases "s \<in> set stack")
    case True
    with "1.prems"(2) show ?thesis by blast
  next
    case False
    with "1.prems"(1) obtain c where c: "List.find (\<lambda>x. cwd_id x = s) cwds = Some c"
      and hit: "first_hit (map (\<lambda>dep. hasCircularDependency E cwds instances (stack @ [s]) (dep_symbol dep))
        (cwd_dependencies c)) = Inr (Some path)"
      by (subst (asm) hasCircularDependency.simps) (auto split: option.splits if_splits)
    from first_hit_in [OF hit] obtain d where d: "d \<in> set (cwd_dependencies c)"
      "hasCircularDependency E cwds instances (stack @ [s]) (dep_symbol d) = Inr (Some path)" by auto
    from c have "c \<in> set cwds" "cwd_id c = s" by (auto simp: find_Some_iff)
    with d(1) have edge: "(s, dep_symbol d) \<in> depends_on cwds" using depends_onI by metis
    with "1.prems"(2) have "\<forall>u \<in> set (stack @ [s]). (u, dep_symbol d) \<in> (depends_on cwds)\<^sup>+"
      by (auto intro: trancl_into_trancl)
    from "1.IH" [OF False c d(1) d(2) this] show ?thesis .
  qed
qed

lemma search_fails:
  "hasCircularDependency E cwds instances stack s = Inl e \<Longrightarrow>
   \<exists>t. (s, t) \<in> (depends_on cwds)\<^sup>* \<and> t \<notin> set (map cwd_id cwds) \<and> t \<notin> set (map_keys instances)"
proof (induction E cwds instances stack s rule: hasCircularDependency.induct)
  case (1 E cwds instances stack s)
  from "1.prems" have s: "s \<notin> set stack" by (auto simp: hasCircularDependency.simps)
  show ?case
  proof (cases "List.find (\<lambda>x. cwd_id x = s) cwds")
    case None
    with "1.prems" s have "s \<notin> set (map_keys instances)"
      by (subst (asm) hasCircularDependency.simps) (auto split: if_splits)
    moreover from None have "s \<notin> set (map cwd_id cwds)" by (auto simp: find_None_iff)
    ultimately show ?thesis by blast
  next
    case (Some c)
    with "1.prems" s have hit: "first_hit (map (\<lambda>dep. hasCircularDependency E cwds instances (stack @ [s]) (dep_symbol dep))
        (cwd_dependencies c)) = Inl e"
      by (subst (asm) hasCircularDependency.simps) auto
    from first_hit_in [OF hit] obtain d where d: "d \<in> set (cwd_dependencies c)"
      "hasCircularDependency E cwds instances (stack @ [s]) (dep_symbol d) = Inl e" by auto
    from Some have "c \<in> set cwds" "cwd_id c = s" by (auto simp: find_Some_iff)
    with d(1) have edge: "(s, dep_symbol d) \<in> depends_on cwds" using depends_onI by metis
    from "1.IH" [OF s Some d] edge show ?thesis by (meson converse_rtrancl_into_rtrancl)
  qed
qed

lemma reaches_known:
  "(s, t) \<in> (depends_on cwds)\<^sup>* \<Longrightarrow> s \<in> K \<Longrightarrow> snd ` depends_on cwds \<subseteq> K \<Longrightarrow> t \<in> K"
  by (induction rule: rtrancl_induct) force+

lemma accepted_acyclic:
  assumes "distinct (map cwd_id cwds)" and "noCircularDependencies E cwds instances = None"
  shows "acyclic (depends_on cwds)"
proof (rule acyclicI, rule allI, rule notI)
  fix s
  from assms(2) have "first_hit (map (\<lambda>c. map_sum id (map_option (circular_message E c))
      (hasCircularDependency E cwds instances [] (cwd_id c))) cwds) = Inr None"
    by (simp add: noCircularDependencies_def split: sum.splits)
  then have found: "hasCircularDependency E cwds instances [] (cwd_id c) = Inr None" if "c \<in> set cwds" for c
    using that by (cases "hasCircularDependency E cwds instances [] (cwd_id c)") (auto simp: first_hit_None)
  assume "(s, s) \<in> (depends_on cwds)\<^sup>+"
  then obtain u where u: "(s, u) \<in> depends_on cwds" "(u, s) \<in> (depends_on cwds)\<^sup>*" by (meson tranclD)
  then obtain c d where c: "c \<in> set cwds" "d \<in> set (cwd_dependencies c)" "s = cwd_id c" "u = dep_symbol d"
    by (auto simp: depends_on_def)
  have "first_hit (map (\<lambda>dep. hasCircularDependency E cwds instances ([] @ [s]) (dep_symbol dep))
      (cwd_dependencies c)) = Inr None"
    using found [OF c(1)] first_class [OF assms(1) c(1)] c(3)
    by (subst (asm) hasCircularDependency.simps) simp
  with c have "hasCircularDependency E cwds instances ([] @ [s]) u = Inr None" by (auto simp: first_hit_None)
  from search_complete [OF this assms(1) u(2)] show False by simp
qed

lemma circular_check:
  assumes "distinct (map cwd_id cwds)" and "snd ` depends_on cwds \<subseteq> set (map cwd_id cwds) \<union> set (map_keys instances)"
  shows "noCircularDependencies E cwds instances = None \<longleftrightarrow> acyclic (depends_on cwds)"
proof -
  let ?search = "\<lambda>c. hasCircularDependency E cwds instances [] (cwd_id c)"
  let ?rs = "map (\<lambda>c. map_sum id (map_option (circular_message E c)) (?search c)) cwds"
  have no_error: "\<not> isl (?search c)" if "c \<in> set cwds" for c
  proof
    assume "isl (?search c)"
    then obtain e where "?search c = Inl e" by (auto simp: isl_def)
    from search_fails [OF this] obtain t where t: "(cwd_id c, t) \<in> (depends_on cwds)\<^sup>*"
      "t \<notin> set (map cwd_id cwds)" "t \<notin> set (map_keys instances)" by blast
    have "cwd_id c \<in> set (map cwd_id cwds) \<union> set (map_keys instances)" using that by simp
    from reaches_known [OF t(1) this assms(2)] t(2,3) show False by blast
  qed
  show ?thesis
  proof
    show "noCircularDependencies E cwds instances = None \<Longrightarrow> acyclic (depends_on cwds)"
      by (rule accepted_acyclic [OF assms(1)])
  next
    assume acyclic: "acyclic (depends_on cwds)"
    have "?search c = Inr None" if "c \<in> set cwds" for c
    proof (cases "?search c")
      case (Inl e)
      with no_error [OF that] show ?thesis by simp
    next
      case (Inr r)
      with search_sound [of E cwds instances "[]" "cwd_id c"] acyclic show ?thesis
        by (cases r) (auto simp: acyclic_def)
    qed
    then have "first_hit ?rs = Inr None" by (auto simp: first_hit_None)
    then show "noCircularDependencies E cwds instances = None" by (simp add: noCircularDependencies_def)
  qed
qed

subsection \<open>The order of construction\<close>

text \<open>Every class once, after all classes of the interfaces it depends on.\<close>

inductive dependency_order :: "('s, 'c) class_with_dependencies list \<Rightarrow> ('s, 'c) class_with_dependencies list \<Rightarrow> bool"
  for cwds where
  order_Nil: "dependency_order cwds []"
| order_snoc: "dependency_order cwds xs \<Longrightarrow> c \<in> set cwds \<Longrightarrow> c \<notin> set xs \<Longrightarrow>
    (\<And>d x. d \<in> set (cwd_dependencies c) \<Longrightarrow> x \<in> set cwds \<Longrightarrow> cwd_id x = dep_symbol d \<Longrightarrow> x \<in> set xs) \<Longrightarrow>
    dependency_order cwds (xs @ [c])"

lemma order_distinct: "dependency_order cwds xs \<Longrightarrow> distinct xs \<and> set xs \<subseteq> set cwds"
  by (induction rule: dependency_order.induct) auto

definition rank :: "('s, 'c) class_with_dependencies list \<Rightarrow> 's \<Rightarrow> nat" where
  "rank cwds s = card {t \<in> set (map cwd_id cwds). (s, t) \<in> (depends_on cwds)\<^sup>+}"

lemma rank_edge:
  assumes "acyclic (depends_on cwds)" and "(s, t) \<in> depends_on cwds" and "t \<in> set (map cwd_id cwds)"
  shows "rank cwds t < rank cwds s"
  unfolding rank_def
proof (rule psubset_card_mono)
  let ?below = "\<lambda>s. {u \<in> set (map cwd_id cwds). (s, u) \<in> (depends_on cwds)\<^sup>+}"
  have "?below t \<subseteq> ?below s" using assms(2) by (auto intro: trancl_into_trancl2)
  moreover have "t \<in> ?below s" "t \<notin> ?below t" using assms by (auto simp: acyclic_def)
  ultimately show "?below t \<subset> ?below s" by blast
qed simp

lemma rank_bound:
  assumes "acyclic (depends_on cwds)" and "s \<in> set (map cwd_id cwds)"
  shows "rank cwds s < length cwds"
proof -
  have "{t \<in> set (map cwd_id cwds). (s, t) \<in> (depends_on cwds)\<^sup>+} \<subset> set (map cwd_id cwds)"
    using assms by (auto simp: acyclic_def)
  then have "rank cwds s < card (set (map cwd_id cwds))" unfolding rank_def by (rule psubset_card_mono [rotated]) simp
  also have "\<dots> \<le> length cwds" using card_length [of "map cwd_id cwds"] by simp
  finally show ?thesis .
qed

text \<open>A loop that only appends to what is there.\<close>

lemma fold_opt_appends:
  assumes "\<And>x acc. x \<in> set xs \<Longrightarrow> I acc \<Longrightarrow>
      \<exists>ext. f x acc = Some (acc @ ext) \<and> I (acc @ ext) \<and> C x \<subseteq> set (acc @ ext) \<and> set ext \<subseteq> A"
    and "I acc"
  shows "\<exists>ext. fold_opt f xs acc = Some (acc @ ext) \<and> I (acc @ ext) \<and> (\<Union> (C ` set xs)) \<subseteq> set (acc @ ext) \<and> set ext \<subseteq> A"
  using assms
proof (induction xs arbitrary: acc)
  case Nil
  then show ?case by (auto intro: exI [of _ "[]"])
next
  case (Cons x xs)
  from Cons.prems(1) [of x acc] Cons.prems(2) obtain e1 where e1: "f x acc = Some (acc @ e1)" "I (acc @ e1)"
    "C x \<subseteq> set (acc @ e1)" "set e1 \<subseteq> A" by auto
  have "\<exists>ext. fold_opt f xs (acc @ e1) = Some ((acc @ e1) @ ext) \<and> I ((acc @ e1) @ ext) \<and>
      (\<Union> (C ` set xs)) \<subseteq> set ((acc @ e1) @ ext) \<and> set ext \<subseteq> A"
    by (rule Cons.IH) (use Cons.prems(1) e1(2) in auto)
  then obtain e2 where "fold_opt f xs (acc @ e1) = Some ((acc @ e1) @ e2)" "I ((acc @ e1) @ e2)"
    "(\<Union> (C ` set xs)) \<subseteq> set ((acc @ e1) @ e2)" "set e2 \<subseteq> A" by blast
  with e1 show ?case by (intro exI [of _ "e1 @ e2"]) auto
qed

abbreviation classes_of :: "('s, 'c) class_with_dependencies list \<Rightarrow> 's \<Rightarrow> ('s, 'c) class_with_dependencies set" where
  "classes_of cwds s \<equiv> {c \<in> set cwds. cwd_id c = s}"

abbreviation below :: "('s, 'c) class_with_dependencies list \<Rightarrow> 's \<Rightarrow> ('s, 'c) class_with_dependencies set" where
  "below cwds s \<equiv> {c \<in> set cwds. (s, cwd_id c) \<in> (depends_on cwds)\<^sup>*}"

lemma same_class:
  "distinct (map cwd_cls cwds) \<Longrightarrow> c \<in> set cwds \<Longrightarrow> set xs \<subseteq> set cwds \<Longrightarrow> cwd_cls c \<in> set (map cwd_cls xs) \<longleftrightarrow> c \<in> set xs"
  by (auto simp: distinct_map inj_on_def)

text \<open>The classes of one symbol, once their dependencies can be sorted.\<close>

lemma sort_classes:
  assumes acyclic: "acyclic (depends_on cwds)"
    and sub: "\<And>t acc. (s, t) \<in> depends_on cwds \<Longrightarrow> dependency_order cwds acc \<Longrightarrow>
      \<exists>ext. visit t acc = Some (acc @ ext) \<and> dependency_order cwds (acc @ ext) \<and>
        classes_of cwds t \<subseteq> set (acc @ ext) \<and> set ext \<subseteq> below cwds t"
    and "distinct cs" and "set cs \<subseteq> classes_of cwds s" and "set cs \<inter> set acc = {}" and "dependency_order cwds acc"
  shows "\<exists>ext. fold_opt (\<lambda>cwd processed. map_option (\<lambda>processed'. processed' @ [cwd])
        (fold_opt (\<lambda>dep. visit (dep_symbol dep)) (cwd_dependencies cwd) processed)) cs acc = Some (acc @ ext) \<and>
      dependency_order cwds (acc @ ext) \<and> set cs \<subseteq> set ext \<and> set ext \<subseteq> below cwds s"
  using assms(3-6)
proof (induction cs arbitrary: acc)
  case Nil
  then show ?case by (auto intro: exI [of _ "[]"])
next
  case (Cons c cs)
  then have c: "c \<in> set cwds" "cwd_id c = s" "c \<notin> set acc" by auto
  have edge: "(s, dep_symbol d) \<in> depends_on cwds" if "d \<in> set (cwd_dependencies c)" for d
    using depends_onI [OF c(1) that] c(2) by simp
  let ?A = "\<Union> ((\<lambda>d. below cwds (dep_symbol d)) ` set (cwd_dependencies c))"
  have "\<exists>ext. fold_opt (\<lambda>dep. visit (dep_symbol dep)) (cwd_dependencies c) acc = Some (acc @ ext) \<and>
      dependency_order cwds (acc @ ext) \<and>
      (\<Union> ((\<lambda>d. classes_of cwds (dep_symbol d)) ` set (cwd_dependencies c))) \<subseteq> set (acc @ ext) \<and> set ext \<subseteq> ?A"
  proof (rule fold_opt_appends)
    fix d acc
    assume d: "d \<in> set (cwd_dependencies c)" and "dependency_order cwds acc"
    from sub [OF edge [OF d] this(2)] d show "\<exists>ext. visit (dep_symbol d) acc = Some (acc @ ext) \<and>
        dependency_order cwds (acc @ ext) \<and> classes_of cwds (dep_symbol d) \<subseteq> set (acc @ ext) \<and> set ext \<subseteq> ?A"
      by blast
  qed (rule Cons.prems(4))
  then obtain e1 where e1: "fold_opt (\<lambda>dep. visit (dep_symbol dep)) (cwd_dependencies c) acc = Some (acc @ e1)"
    "dependency_order cwds (acc @ e1)"
    "(\<Union> ((\<lambda>d. classes_of cwds (dep_symbol d)) ` set (cwd_dependencies c))) \<subseteq> set (acc @ e1)" "set e1 \<subseteq> ?A"
    by blast
  have no_cycle: "cwd_id x \<noteq> s" if "x \<in> ?A" for x
  proof
    assume "cwd_id x = s"
    with that obtain d where "d \<in> set (cwd_dependencies c)" "(dep_symbol d, s) \<in> (depends_on cwds)\<^sup>*" by auto
    with edge have "(s, s) \<in> (depends_on cwds)\<^sup>+" by (meson rtrancl_into_trancl2)
    with acyclic show False by (simp add: acyclic_def)
  qed
  have new: "x \<notin> set e1" if "x \<in> classes_of cwds s" for x using no_cycle e1(4) that by blast
  have order: "dependency_order cwds ((acc @ e1) @ [c])"
  proof (rule order_snoc [OF e1(2) c(1)])
    show "c \<notin> set (acc @ e1)" using new [of c] c by simp
    show "x \<in> set (acc @ e1)" if "d \<in> set (cwd_dependencies c)" "x \<in> set cwds" "cwd_id x = dep_symbol d" for d x
      using e1(3) that by blast
  qed
  have "\<exists>ext. fold_opt (\<lambda>cwd processed. map_option (\<lambda>processed'. processed' @ [cwd])
        (fold_opt (\<lambda>dep. visit (dep_symbol dep)) (cwd_dependencies cwd) processed)) cs ((acc @ e1) @ [c]) =
        Some (((acc @ e1) @ [c]) @ ext) \<and>
      dependency_order cwds (((acc @ e1) @ [c]) @ ext) \<and> set cs \<subseteq> set ext \<and> set ext \<subseteq> below cwds s"
  proof (rule Cons.IH)
    show "set cs \<inter> set ((acc @ e1) @ [c]) = {}" using Cons.prems new by auto
  qed (use Cons.prems order in auto)
  then obtain e2 where e2: "fold_opt (\<lambda>cwd processed. map_option (\<lambda>processed'. processed' @ [cwd])
        (fold_opt (\<lambda>dep. visit (dep_symbol dep)) (cwd_dependencies cwd) processed)) cs ((acc @ e1) @ [c]) =
        Some (((acc @ e1) @ [c]) @ e2)"
      "dependency_order cwds (((acc @ e1) @ [c]) @ e2)" "set cs \<subseteq> set e2" "set e2 \<subseteq> below cwds s" by blast
  have "set e1 \<subseteq> below cwds s"
    using e1(4) edge by (fastforce intro: converse_rtrancl_into_rtrancl)
  then show ?case using e1(1) e2 c by (intro exI [of _ "e1 @ c # e2"]) auto
qed

lemma sort_symbol:
  assumes "acyclic (depends_on cwds)" and "distinct (map cwd_cls cwds)"
  shows "(s \<in> set (map cwd_id cwds) \<Longrightarrow> rank cwds s + 1 < depth) \<Longrightarrow> 0 < depth \<Longrightarrow> dependency_order cwds acc \<Longrightarrow>
    \<exists>ext. topologicalSort depth cwds s acc = Some (acc @ ext) \<and> dependency_order cwds (acc @ ext) \<and>
      classes_of cwds s \<subseteq> set (acc @ ext) \<and> set ext \<subseteq> below cwds s"
proof (induction depth arbitrary: s acc)
  case (Suc depth)
  let ?cs = "filter (\<lambda>c. cwd_id c = s \<and> cwd_cls c \<notin> set (map cwd_cls acc)) cwds"
  from order_distinct [OF Suc.prems(3)] have acc: "set acc \<subseteq> set cwds" by simp
  have cs: "set ?cs = classes_of cwds s - set acc" using same_class [OF assms(2) _ acc] by auto
  have "\<exists>ext. fold_opt (\<lambda>cwd processed. map_option (\<lambda>processed'. processed' @ [cwd])
        (fold_opt (\<lambda>dep. topologicalSort depth cwds (dep_symbol dep)) (cwd_dependencies cwd) processed)) ?cs acc =
        Some (acc @ ext) \<and>
      dependency_order cwds (acc @ ext) \<and> set ?cs \<subseteq> set ext \<and> set ext \<subseteq> below cwds s"
  proof (rule sort_classes [OF assms(1)])
    fix t acc'
    assume edge: "(s, t) \<in> depends_on cwds" and order: "dependency_order cwds acc'"
    have s: "s \<in> set (map cwd_id cwds)" using edge by (auto simp: depends_on_def)
    show "\<exists>ext. topologicalSort depth cwds t acc' = Some (acc' @ ext) \<and> dependency_order cwds (acc' @ ext) \<and>
        classes_of cwds t \<subseteq> set (acc' @ ext) \<and> set ext \<subseteq> below cwds t"
    proof (rule Suc.IH)
      show "rank cwds t + 1 < depth" if "t \<in> set (map cwd_id cwds)"
        using rank_edge [OF assms(1) edge that] Suc.prems(1) [OF s] by simp
      show "0 < depth" using Suc.prems(1) [OF s] by simp
    qed (rule order)
  next
    show "distinct ?cs" using assms(2) by (auto simp: distinct_map)
  qed (use cs Suc.prems(3) in auto)
  then obtain ext where "fold_opt (\<lambda>cwd processed. map_option (\<lambda>processed'. processed' @ [cwd])
        (fold_opt (\<lambda>dep. topologicalSort depth cwds (dep_symbol dep)) (cwd_dependencies cwd) processed)) ?cs acc =
        Some (acc @ ext)" "dependency_order cwds (acc @ ext)" "set ?cs \<subseteq> set ext" "set ext \<subseteq> below cwds s"
    by blast
  with cs show ?case by (intro exI [of _ ext]) auto
qed simp

lemma sort_acyclic:
  assumes "acyclic (depends_on cwds)" and "distinct (map cwd_cls cwds)" and "length cwds < depth"
  shows "\<exists>order. sortDependencies depth cwds = Some order \<and> dependency_order cwds order \<and> set order = set cwds"
proof -
  have "\<exists>ext. fold_opt (\<lambda>cwd. topologicalSort depth cwds (cwd_id cwd)) cwds [] = Some ([] @ ext) \<and>
      dependency_order cwds ([] @ ext) \<and> (\<Union> ((\<lambda>c. classes_of cwds (cwd_id c)) ` set cwds)) \<subseteq> set ([] @ ext) \<and>
      set ext \<subseteq> set cwds"
  proof (rule fold_opt_appends)
    fix c acc
    assume c: "c \<in> set cwds" and order: "dependency_order cwds acc"
    have "rank cwds (cwd_id c) + 1 < depth" using rank_bound [OF assms(1), of "cwd_id c"] c assms(3) by simp
    with sort_symbol [OF assms(1,2) _ _ order, of "cwd_id c" depth] assms(3)
    show "\<exists>ext. topologicalSort depth cwds (cwd_id c) acc = Some (acc @ ext) \<and> dependency_order cwds (acc @ ext) \<and>
      classes_of cwds (cwd_id c) \<subseteq> set (acc @ ext) \<and> set ext \<subseteq> set cwds" by auto
  qed (rule order_Nil)
  then show ?thesis by (auto simp: sortDependencies_def)
qed

subsection \<open>Construction\<close>

lemma getAll_add [simp]:
  "getAll (add_instance s i m) t = (if t = s then getAll m s @ [i] else getAll m t)"
  by (auto simp: getAll_def add_instance_def split: option.splits)

lemma resolve_cong: "getAll m (dep_symbol d) = getAll m' (dep_symbol d) \<Longrightarrow> resolve E m d = resolve E m' d"
  by (cases d) (simp_all add: resolve_def dep_symbol_def)

lemma resolve_all_cong:
  "\<forall>d \<in> set deps. getAll m (dep_symbol d) = getAll m' (dep_symbol d) \<Longrightarrow> resolve_all E m deps = resolve_all E m' deps"
proof (induction deps)
  case (Cons d deps)
  then show ?case using resolve_cong [of m d m' E] by (simp split: sum.split)
qed simp

lemma construct_step:
  assumes "construct_all E (c # cs) m = (None, m')"
  obtains args i where "resolve_all E m (cwd_dependencies c) = Inr args" and "di_construct E (cwd_cls c) args = Inr i"
    and "construct_all E cs (add_instance (cwd_id c) i m) = (None, m')"
  using assms by (auto split: sum.splits)

lemma construct_grows:
  "construct_all E cs m = (None, m') \<Longrightarrow> \<exists>is. getAll m' s = getAll m s @ is \<and> length is = length (filter (\<lambda>c. cwd_id c = s) cs)"
proof (induction cs arbitrary: m)
  case (Cons c cs)
  from Cons.prems obtain args i where "construct_all E cs (add_instance (cwd_id c) i m) = (None, m')" by (rule construct_step)
  from Cons.IH [OF this] show ?case by auto
qed simp

lemma construct_order:
  assumes "construct_all E cs m = (None, m')"
    and "\<And>xs c ys x d. cs = xs @ c # ys \<Longrightarrow> x \<in> set (c # ys) \<Longrightarrow> d \<in> set (cwd_dependencies c) \<Longrightarrow> cwd_id x \<noteq> dep_symbol d"
  shows "\<forall>c \<in> set cs. \<exists>args i. resolve_all E m' (cwd_dependencies c) = Inr args \<and>
    di_construct E (cwd_cls c) args = Inr i \<and> i \<in> set (getAll m' (cwd_id c))"
  using assms
proof (induction cs arbitrary: m)
  case (Cons c cs)
  from Cons.prems(1) obtain args i where i: "resolve_all E m (cwd_dependencies c) = Inr args"
    "di_construct E (cwd_cls c) args = Inr i" and rest: "construct_all E cs (add_instance (cwd_id c) i m) = (None, m')"
    by (rule construct_step)
  have later: "cwd_id x \<noteq> dep_symbol d" if "x \<in> set (c # cs)" "d \<in> set (cwd_dependencies c)" for x d
    using Cons.prems(2) [of "[]" c cs x d] that by simp
  have same: "getAll m (dep_symbol d) = getAll m' (dep_symbol d)" if "d \<in> set (cwd_dependencies c)" for d
  proof -
    from construct_grows [OF Cons.prems(1), of "dep_symbol d"] obtain "is" where
      "getAll m' (dep_symbol d) = getAll m (dep_symbol d) @ is"
      "length is = length (filter (\<lambda>x. cwd_id x = dep_symbol d) (c # cs))" by blast
    moreover have "filter (\<lambda>x. cwd_id x = dep_symbol d) (c # cs) = []"
      using later that by (simp add: filter_empty_conv)
    ultimately show ?thesis by simp
  qed
  have "resolve_all E m' (cwd_dependencies c) = Inr args"
    using resolve_all_cong [of "cwd_dependencies c" m m' E] same i(1) by simp
  moreover have "i \<in> set (getAll m' (cwd_id c))" using construct_grows [OF rest, of "cwd_id c"] by auto
  moreover have "cwd_id x \<noteq> dep_symbol d" if "cs = xs @ c' # ys" "x \<in> set (c' # ys)" "d \<in> set (cwd_dependencies c')" for xs c' ys x d
    using Cons.prems(2) [of "c # xs" c' ys x d] that by simp
  ultimately show ?case using Cons.IH [OF rest] i(2) by auto
qed simp

lemma order_needs:
  "dependency_order cwds (xs @ c # ys) \<Longrightarrow> d \<in> set (cwd_dependencies c) \<Longrightarrow> x \<in> set cwds \<Longrightarrow> cwd_id x = dep_symbol d \<Longrightarrow>
   x \<in> set xs"
proof (induction ys rule: rev_induct)
  case Nil
  then show ?case by (cases rule: dependency_order.cases) auto
next
  case (snoc y ys)
  from snoc.prems(1) have "dependency_order cwds (xs @ c # ys)" by (cases rule: dependency_order.cases) auto
  from snoc.IH [OF this snoc.prems(2-)] show ?case .
qed

lemma order_later:
  "dependency_order cwds cs \<Longrightarrow> cs = xs @ c # ys \<Longrightarrow> x \<in> set (c # ys) \<Longrightarrow> d \<in> set (cwd_dependencies c) \<Longrightarrow>
   cwd_id x \<noteq> dep_symbol d"
proof (induction arbitrary: xs ys rule: dependency_order.induct)
  case (order_snoc zs c')
  show ?case
  proof (cases ys rule: rev_cases)
    case Nil
    with order_snoc.prems order_snoc.hyps show ?thesis by auto
  next
    case (snoc ys' y)
    with order_snoc.prems have zs: "zs = xs @ c # ys'" and y: "y = c'" by auto
    show ?thesis
    proof (cases "x = c'")
      case False
      with order_snoc.prems snoc y have "x \<in> set (c # ys')" by auto
      from order_snoc.IH [OF zs this order_snoc.prems(3)] show ?thesis .
    next
      case True
      show ?thesis
      proof
        assume "cwd_id x = dep_symbol d"
        have "dependency_order cwds (xs @ c # ys')" using order_snoc.hyps(1) zs by simp
        from order_needs [OF this order_snoc.prems(3), of c'] order_snoc.hyps(2) \<open>cwd_id x = dep_symbol d\<close> True
        have "c' \<in> set xs" by simp
        with order_snoc.hyps(3) zs show False by simp
      qed
    qed
  qed
qed simp

lemma construct_errors:
  "construct_all E cs m = (Some e, m') \<Longrightarrow> \<forall>s. map_get m s \<noteq> Some [] \<Longrightarrow>
   (\<And>xs c ys s. cs = xs @ c # ys \<Longrightarrow> Interface_id s \<in> set (cwd_dependencies c) \<Longrightarrow>
      s \<in> set (map_keys m) \<union> set (map cwd_id xs)) \<Longrightarrow>
   (\<exists>s. e = multiple_instances E s) \<or> (\<exists>c args. di_construct E c args = Inl e)"
proof (induction cs arbitrary: m)
  case (Cons c cs)
  have resolved: "e' = multiple_instances E s"
    if "Interface_id s \<in> set (cwd_dependencies c)" "resolve E m (Interface_id s) = Inl e'" for s e'
  proof -
    have "s \<in> set (map_keys m)" using Cons.prems(3) [of "[]" c cs s] that(1) by simp
    then have "map_get m s \<noteq> None" by (simp add: map_get_None_keys)
    with Cons.prems(2) have "getAll m s \<noteq> []" by (auto simp: getAll_def split: option.splits)
    with that(2) show ?thesis by (auto simp: resolve_def split: list.splits)
  qed
  have all: "set deps \<subseteq> set (cwd_dependencies c) \<Longrightarrow> resolve_all E m deps = Inl e' \<Longrightarrow> \<exists>s. e' = multiple_instances E s" for deps e'
  proof (induction deps)
    case (Cons d deps)
    then show ?case
    proof (cases "resolve E m d")
      case (Inl e'')
      then obtain s where "d = Interface_id s" by (cases d) (auto simp: resolve_def)
      with Inl Cons.prems resolved [of s] show ?thesis by auto
    next
      case (Inr a)
      with Cons show ?thesis by (cases "resolve_all E m deps") auto
    qed
  qed simp
  show ?case
  proof (cases "resolve_all E m (cwd_dependencies c)")
    case (Inl e')
    with Cons.prems(1) all [OF order_refl Inl] show ?thesis by auto
  next
    case (Inr args)
    show ?thesis
    proof (cases "di_construct E (cwd_cls c) args")
      case (Inl e')
      with Cons.prems(1) Inr show ?thesis by auto
    next
      case (Inr i)
      let ?m = "add_instance (cwd_id c) i m"
      have rest: "construct_all E cs ?m = (Some e, m')"
        using Cons.prems(1) Inr \<open>resolve_all E m (cwd_dependencies c) = Inr args\<close> by simp
      have "\<forall>s. map_get ?m s \<noteq> Some []" using Cons.prems(2) by (auto simp: add_instance_def)
      moreover have "s \<in> set (map_keys ?m) \<union> set (map cwd_id xs)"
        if "cs = xs @ c' # ys" "Interface_id s \<in> set (cwd_dependencies c')" for xs c' ys s
        using Cons.prems(3) [of "c # xs" c' ys s] that by (auto simp: add_instance_def dom_update)
      ultimately show ?thesis using Cons.IH [OF rest] by blast
    qed
  qed
qed simp

lemma with_metadata_cls: "map cwd_cls (with_metadata E classes) = filter (\<lambda>c. di_metadata E c \<noteq> None) classes"
  by (induction classes) (auto simp: with_metadata_def List.map_filter_simps split: option.splits)

lemma in_with_metadata:
  "x \<in> set (with_metadata E classes) \<longleftrightarrow> cwd_cls x \<in> set classes \<and> di_metadata E (cwd_cls x) = Some (cwd_id x, cwd_dependencies x)"
  by (cases x) (force simp: with_metadata_def List.map_filter_def)

lemma present_dependencies:
  assumes "dependenciesArePresent E cwds instances = None" and "c \<in> set cwds" and "Interface_id s \<in> set (cwd_dependencies c)"
  shows "s \<in> set (map cwd_id cwds) \<union> set (map_keys instances)"
proof -
  have "unmet_dependencies (set (map cwd_id cwds @ map_keys instances)) c = []"
    using assms(1,2) by (auto simp: dependenciesArePresent_def Let_def filter_empty_conv split: if_splits)
  then have "isCollectionToken (Interface_id s) \<or>
      dep_symbol (Interface_id s) \<in> set (map cwd_id cwds @ map_keys instances)"
    using assms(3) unfolding unmet_dependencies_def filter_empty_conv by blast
  then show ?thesis by (simp add: isCollectionToken_def dep_symbol_def)
qed

subsection \<open>Properties\<close>

text \<open>C27: When every interface has at most one class and every interface depended on is known, the depth first search
  accepts the classes exactly when no interface depends on itself, however long the way round.\<close>

theorem cycle_check_exact:
  assumes "distinct (map cwd_id cwds)" and "snd ` depends_on cwds \<subseteq> set (map cwd_id cwds) \<union> set (map_keys instances)"
  shows "noCircularDependencies E cwds instances = None \<longleftrightarrow> acyclic (depends_on cwds)"
  by (rule circular_check [OF assms])

text \<open>C18: When the container succeeds on classes without circular dependencies, every class has been constructed with
  the objects that the container holds in the end: for an interface its only object, for a collection all objects,
  those of classes constructed later included; and each interface has gained one object for each of its classes.\<close>

theorem container_wires:
  assumes "instantiate depth E classes instances = (None, instances')" and "distinct classes"
    and "acyclic (depends_on (with_metadata E classes))" and "length classes < depth"
  shows "(\<forall>c \<in> set classes. \<exists>s deps args i. di_metadata E c = Some (s, deps) \<and>
      resolve_all E instances' deps = Inr args \<and> di_construct E c args = Inr i \<and> i \<in> set (getAll instances' s)) \<and>
    (\<forall>s. \<exists>is. getAll instances' s = getAll instances s @ is \<and>
      length is = length (filter (\<lambda>c. map_option fst (di_metadata E c) = Some s) classes))"
proof -
  let ?cwds = "with_metadata E classes"
  have decorated: "filter (\<lambda>c. di_metadata E c \<noteq> None) classes = classes"
    using assms(1) by (auto simp: instantiate_def Let_def filter_empty_conv intro!: filter_True split: if_splits)
  have cls: "map cwd_cls ?cwds = classes" by (simp only: with_metadata_cls decorated)
  have "length ?cwds < depth" using assms(4) cls by (metis length_map)
  from sort_acyclic [OF assms(3) _ this] assms(2) cls obtain order where order:
    "sortDependencies depth ?cwds = Some order" "dependency_order ?cwds order" "set order = set ?cwds" by auto
  with assms(1) have built: "construct_all E order instances = (None, instances')"
    by (auto simp: instantiate_def Let_def split: if_splits option.splits)
  have wired: "\<forall>c \<in> set order. \<exists>args i. resolve_all E instances' (cwd_dependencies c) = Inr args \<and>
      di_construct E (cwd_cls c) args = Inr i \<and> i \<in> set (getAll instances' (cwd_id c))"
    by (rule construct_order [OF built]) (rule order_later [OF order(2)])
  have first: "\<exists>s deps args i. di_metadata E c = Some (s, deps) \<and>
      resolve_all E instances' deps = Inr args \<and> di_construct E c args = Inr i \<and> i \<in> set (getAll instances' s)"
    if "c \<in> set classes" for c
  proof -
    from that cls obtain x where x: "x \<in> set ?cwds" "cwd_cls x = c" by (metis imageE list.set_map)
    then have "di_metadata E c = Some (cwd_id x, cwd_dependencies x)" by (simp add: in_with_metadata)
    moreover from x order(3) wired obtain args i where "resolve_all E instances' (cwd_dependencies x) = Inr args"
      "di_construct E c args = Inr i" "i \<in> set (getAll instances' (cwd_id x))" by blast
    ultimately show ?thesis by blast
  qed
  have count: "length (filter (\<lambda>c. cwd_id c = s) order) =
      length (filter (\<lambda>c. map_option fst (di_metadata E c) = Some s) classes)" for s
  proof -
    have "distinct ?cwds" using assms(2) cls by (metis distinct_map)
    with order_distinct [OF order(2)] order(3) have "mset order = mset ?cwds" by (simp add: set_eq_iff_mset_eq_distinct)
    then have "length (filter (\<lambda>c. cwd_id c = s) order) = length (filter (\<lambda>c. cwd_id c = s) ?cwds)"
      by (metis mset_filter size_mset)
    also have "\<dots> = length (filter (\<lambda>c. map_option fst (di_metadata E c) = Some s) classes)"
      by (induction classes) (auto simp: with_metadata_def List.map_filter_simps split: option.splits)
    finally show ?thesis .
  qed
  have second: "\<exists>is. getAll instances' s = getAll instances s @ is \<and>
      length is = length (filter (\<lambda>c. map_option fst (di_metadata E c) = Some s) classes)" for s
    using construct_grows [OF built, of s] by (simp only: count)
  show ?thesis using first second by blast
qed

text \<open>C36: When the classes have been accepted, no interface depends on itself (which the check does not find out when an
  interface has several classes) and the stack is deeper than there are classes, the container fails only because an
  interface has several objects where one is wanted, or because a constructor throws: it never meets a missing object
  and never exhausts the stack.\<close>

theorem instantiation_errors:
  assumes "instantiate depth E classes instances = (Some e, instances')" and "distinct classes"
    and "list_all (\<lambda>c. di_metadata E c \<noteq> None) classes" and "validate E (with_metadata E classes) instances = None"
    and "acyclic (depends_on (with_metadata E classes))" and "length classes < depth"
    and "list_all (\<lambda>(s, is). is \<noteq> []) instances"
  shows "(\<exists>s. e = multiple_instances E s) \<or> (\<exists>c args. di_construct E c args = Inl e)"
proof -
  let ?cwds = "with_metadata E classes"
  have decorated: "filter (\<lambda>c. di_metadata E c \<noteq> None) classes = classes" "filter (\<lambda>c. di_metadata E c = None) classes = []"
    using assms(3) by (auto simp: list_all_iff filter_empty_conv intro!: filter_True)
  have cls: "map cwd_cls ?cwds = classes" by (simp only: with_metadata_cls decorated)
  have "length ?cwds < depth" using assms(6) cls by (metis length_map)
  from sort_acyclic [OF assms(5) _ this] assms(2) cls obtain order where order:
    "sortDependencies depth ?cwds = Some order" "dependency_order ?cwds order" "set order = set ?cwds" by auto
  with assms(1,4) decorated have built: "construct_all E order instances = (Some e, instances')"
    by (auto simp: instantiate_def Let_def)
  have present: "dependenciesArePresent E ?cwds instances = None"
    using assms(4) by (auto simp: validate_def split: option.splits)
  show ?thesis
  proof (rule construct_errors [OF built])
    show "\<forall>s. map_get instances s \<noteq> Some []" using assms(7) by (auto simp: list_all_iff dest: map_of_SomeD)
  next
    fix xs c ys s
    assume split: "order = xs @ c # ys" and s: "Interface_id s \<in> set (cwd_dependencies c)"
    from split order(3) have "c \<in> set ?cwds" by auto
    from present_dependencies [OF present this s] have "s \<in> set (map cwd_id ?cwds) \<or> s \<in> set (map_keys instances)" by simp
    then show "s \<in> set (map_keys instances) \<union> set (map cwd_id xs)"
    proof
      assume "s \<in> set (map cwd_id ?cwds)"
      then obtain x where x: "x \<in> set ?cwds" "cwd_id x = s" by auto
      from order_needs [OF order(2) [unfolded split] s x(1)] x(2) have "x \<in> set xs" by (simp add: dep_symbol_def)
      with x show ?thesis by auto
    qed simp
  qed
qed

text \<open>The search looks only at the first class of an interface: a circle through the second one is accepted, and the
  sort then exhausts any stack.\<close>

definition second_class :: "'s \<Rightarrow> 's \<Rightarrow> 'c \<Rightarrow> 'c \<Rightarrow> 'c \<Rightarrow> ('s, 'c) class_with_dependencies list" where
  "second_class a b x y z =
     [\<lparr>cwd_cls = x, cwd_id = a, cwd_dependencies = []\<rparr>, \<lparr>cwd_cls = y, cwd_id = a, cwd_dependencies = [Interface_id b]\<rparr>,
      \<lparr>cwd_cls = z, cwd_id = b, cwd_dependencies = [Collection_id a]\<rparr>]"

lemma second_class_loops:
  "x \<noteq> y \<Longrightarrow> x \<noteq> z \<Longrightarrow> y \<noteq> z \<Longrightarrow> a \<noteq> b \<Longrightarrow> s = a \<or> s = b \<Longrightarrow> y \<notin> set (map cwd_cls acc) \<Longrightarrow> z \<notin> set (map cwd_cls acc) \<Longrightarrow>
   topologicalSort depth (second_class a b x y z) s acc = None"
proof (induction depth arbitrary: s acc)
  case (Suc depth)
  let ?X = "\<lparr>cwd_cls = x, cwd_id = a, cwd_dependencies = []\<rparr>"
  let ?Y = "\<lparr>cwd_cls = y, cwd_id = a, cwd_dependencies = [Interface_id b]\<rparr>"
  let ?Z = "\<lparr>cwd_cls = z, cwd_id = b, cwd_dependencies = [Collection_id a]\<rparr>"
  note IH = Suc.IH [OF Suc.prems(1-4)]
  have a: "filter (\<lambda>c. cwd_id c = a \<and> cwd_cls c \<notin> set (map cwd_cls acc)) (second_class a b x y z) =
      (if x \<in> set (map cwd_cls acc) then [] else [?X]) @ [?Y]"
    using Suc.prems by (simp add: second_class_def)
  have b: "filter (\<lambda>c. cwd_id c = b \<and> cwd_cls c \<notin> set (map cwd_cls acc)) (second_class a b x y z) = [?Z]"
    using Suc.prems by (simp add: second_class_def)
  have "topologicalSort depth (second_class a b x y z) t acc' = None"
    if "t = a \<or> t = b" "acc' = acc \<or> acc' = acc @ [?X]" for t acc'
    by (rule IH) (use that Suc.prems in auto)
  then show ?case using Suc.prems(5) by (auto simp only: topologicalSort.simps a b) (simp_all add: dep_symbol_def)
qed simp

theorem second_class_cycle_overflows:
  assumes "distinct [x, y, z]" and "a \<noteq> b"
  shows "validate E (second_class a b x y z) [] = None \<and> sortDependencies depth (second_class a b x y z) = None"
proof
  show "validate E (second_class a b x y z) [] = None"
    using assms
    by (simp add: validate_def second_class_def dependenciesArePresent_def unmet_dependencies_def Let_def
        isCollectionToken_def dep_symbol_def noCircularDependencies_def hasCircularDependency.simps)
  have "topologicalSort depth (second_class a b x y z) a [] = None"
    using assms by (intro second_class_loops) auto
  then show "sortDependencies depth (second_class a b x y z) = None"
    by (subst sortDependencies_def) (simp add: second_class_def)
qed

text \<open>A collection may be empty for the first check, but not for the second.\<close>

theorem empty_collection_rejected:
  assumes "s \<noteq> cwd_id c" and "cwd_dependencies c = [Collection_id s]"
  shows "dependenciesArePresent E [c] [] = None \<and> noCircularDependencies E [c] [] = Some (missing_dependency E s)"
  using assms
  by (simp add: dependenciesArePresent_def unmet_dependencies_def Let_def isCollectionToken_def dep_symbol_def
      noCircularDependencies_def hasCircularDependency.simps)

subsection \<open>A concrete container\<close>

definition demo_di :: "(nat, nat, nat) di_env" where
  "demo_di =
     \<lparr>di_description = (\<lambda>s. ''I''), di_name = (\<lambda>c. ''C''),
      di_metadata = (\<lambda>c. if c \<le> 1 then Some (10, []) else if c = 2 then Some (20, [Collection_id 10])
                        else if c = 3 then Some (30, [Interface_id 10]) else None),
      di_branded = (\<lambda>i. None), di_construct = (\<lambda>c args. Inr (100 + c))\<rparr>"

definition demo_circle :: "(nat, nat) class_with_dependencies list" where
  "demo_circle =
     [\<lparr>cwd_cls = 0, cwd_id = 10, cwd_dependencies = [Interface_id 20]\<rparr>,
      \<lparr>cwd_cls = 1, cwd_id = 20, cwd_dependencies = [Interface_id 10]\<rparr>]"

lemma demo_graph:
  "depends_on (with_metadata demo_di [2, 0, 1]) = {(20, 10)}" "depends_on (with_metadata demo_di [3, 0, 1]) = {(30, 10)}"
  "depends_on demo_circle = {(10, 20), (20, 10)}"
  by (simp_all add: depends_on_simps with_metadata_def demo_di_def demo_circle_def List.map_filter_simps dep_symbol_def
      insert_commute)

lemma single_edge_acyclic: "a \<noteq> b \<Longrightarrow> acyclic {(a, b)}"
proof -
  assume "a \<noteq> b"
  moreover have "acyclic {}" by (simp add: acyclic_def)
  ultimately show ?thesis by (simp add: acyclic_insert)
qed

theorem cycle_check_exact_witness: "noCircularDependencies demo_di demo_circle [] \<noteq> None"
proof -
  have "\<not> acyclic (depends_on demo_circle)" unfolding demo_graph by (auto simp: acyclic_insert)
  moreover have "snd ` depends_on demo_circle \<subseteq> set (map cwd_id demo_circle) \<union> set (map_keys [])"
    unfolding demo_graph by (simp add: demo_circle_def)
  ultimately show ?thesis using cycle_check_exact [of demo_circle "[]" demo_di] by (simp add: demo_circle_def)
qed

theorem container_wires_witness:
  "\<exists>instances'. instantiate 4 demo_di [2, 0, 1] [] = (None, instances') \<and>
     (\<exists>args. resolve_all demo_di instances' [Collection_id 10] = Inr args \<and> di_construct demo_di 2 args = Inr 102)"
proof (intro exI conjI)
  let ?m = "[(10, [100, 101]), (20, [102])] :: (nat \<times> nat list) list"
  show run: "instantiate 4 demo_di [2, 0, 1] [] = (None, ?m)" by code_simp
  have "acyclic (depends_on (with_metadata demo_di [2, 0, 1]))" unfolding demo_graph by (rule single_edge_acyclic) simp
  from container_wires [OF run _ this] obtain s deps args i where
    "di_metadata demo_di 2 = Some (s, deps)" "resolve_all demo_di ?m deps = Inr args" "di_construct demo_di 2 args = Inr i"
    by auto
  then show "resolve_all demo_di ?m [Collection_id 10] = Inr [Collection_arg [100, 101]]"
    "di_construct demo_di 2 [Collection_arg [100, 101]] = Inr 102"
    by (auto simp: demo_di_def resolve_def getAll_def)
qed

theorem instantiation_errors_witness:
  "\<exists>e instances'. instantiate 4 demo_di [3, 0, 1] [] = (Some e, instances') \<and> (\<exists>s. e = multiple_instances demo_di s)"
proof -
  let ?e = "multiple_instances demo_di 10"

  have valid: "validate demo_di (with_metadata demo_di [3, 0, 1]) [] = None" by code_simp
  have run: "instantiate 4 demo_di [3, 0, 1] [] = (Some ?e, [(10, [100, 101])])" by code_simp
  have "acyclic (depends_on (with_metadata demo_di [3, 0, 1]))" unfolding demo_graph by (rule single_edge_acyclic) simp
  from instantiation_errors [OF run _ _ valid this]
  have "(\<exists>s. ?e = multiple_instances demo_di s) \<or> (\<exists>c args. di_construct demo_di c args = Inl ?e)"
    by (simp add: demo_di_def)
  then show ?thesis using run by (auto simp: demo_di_def)
qed

end
