(* ===== verification/Message_Bus.thy ===== *)
theory Message_Bus
  imports Domain
begin

text \<open>
  Handler registries (\<open>packages/lib_handler_registry\<close>), groups of disposables (\<open>packages/lib_disposable\<close>) and the
  publish/subscribe bus of the web views (\<open>packages/lib_webview/src/services/messaging/message_bus.ts\<close>).

  A listener is a name; the caller of \<open>publish\<close> runs the named listeners in order.  A filter is a name too, because
  the filters of the sources look at state that changes.
\<close>

subsection \<open>Registries\<close>

datatype registry_error =
    Handler_not_found string
  | Unhandled_handler string js_error

type_synonym 'h registry = "(string, 'h) jsmap"

definition registry_register :: "string \<Rightarrow> 'h \<Rightarrow> 'h registry \<Rightarrow> 'h registry" where
  "registry_register key handler r = map_set key handler r"

text \<open>The disposable that \<open>register\<close> returns.\<close>

definition registry_unregister :: "string \<Rightarrow> 'h registry \<Rightarrow> 'h registry" where
  "registry_unregister key r = map_delete key r"

definition registry_has :: "'h registry \<Rightarrow> string \<Rightarrow> bool" where
  "registry_has r key = (map_get r key \<noteq> None)"

definition registry_handle :: "('h \<Rightarrow> js_error + 'r) \<Rightarrow> 'h registry \<Rightarrow> string \<Rightarrow> registry_error + 'r" where
  "registry_handle call r key =
     (case map_get r key of
        None \<Rightarrow> Inl (Handler_not_found key)
      | Some handler \<Rightarrow> (case call handler of Inl e \<Rightarrow> Inl (Unhandled_handler key e) | Inr v \<Rightarrow> Inr v))"

definition registry_dispose :: "'h registry \<Rightarrow> 'h registry" where
  "registry_dispose r = []"

text \<open>A registry keyed by the hash of its keys.\<close>

definition hashed_register :: "('k \<Rightarrow> string) \<Rightarrow> 'k \<Rightarrow> 'h \<Rightarrow> 'h registry \<Rightarrow> 'h registry" where
  "hashed_register hashFunc key handler r = registry_register (hashFunc key) handler r"

definition hashed_has :: "('k \<Rightarrow> string) \<Rightarrow> 'h registry \<Rightarrow> 'k \<Rightarrow> bool" where
  "hashed_has hashFunc r key = registry_has r (hashFunc key)"

definition hashed_handle ::
  "('k \<Rightarrow> string) \<Rightarrow> ('h \<Rightarrow> js_error + 'r) \<Rightarrow> 'h registry \<Rightarrow> 'k \<Rightarrow> registry_error + 'r" where
  "hashed_handle hashFunc call r key = registry_handle call r (hashFunc key)"

subsection \<open>Groups of disposables\<close>

definition cd_add :: "'d list \<Rightarrow> 'd list \<Rightarrow> 'd list" where
  "cd_add disposables present =
     fold (\<lambda>d ds. if d \<in> set ds then ds else ds @ [d]) disposables present"

text \<open>The disposables to call, in order, and what is left.\<close>

definition cd_dispose :: "'d list \<Rightarrow> 'd list \<times> 'd list" where
  "cd_dispose disposables = (disposables, [])"

subsection \<open>The bus\<close>

record ('l, 'f) subscription =
  sb_id :: nat
  sb_listener :: 'l
  sb_filter :: "'f option"

record ('e, 'l, 'f) message_bus =
  mb_subscriptions :: "('e, ('l, 'f) subscription list) jsmap"
  mb_next :: nat

definition mb_new :: "('e, 'l, 'f) message_bus" where
  "mb_new = \<lparr>mb_subscriptions = [], mb_next = 0\<rparr>"

definition subscribers :: "('e, 'l, 'f) message_bus \<Rightarrow> 'e \<Rightarrow> ('l, 'f) subscription list" where
  "subscribers b messageType = (case map_get (mb_subscriptions b) messageType of None \<Rightarrow> [] | Some ss \<Rightarrow> ss)"

definition mb_subscribe ::
  "'e \<Rightarrow> 'l \<Rightarrow> 'f option \<Rightarrow> ('e, 'l, 'f) message_bus \<Rightarrow> nat \<times> ('e, 'l, 'f) message_bus" where
  "mb_subscribe messageType listener f b =
     (mb_next b,
      b\<lparr>mb_subscriptions := map_set messageType
          (subscribers b messageType @ [\<lparr>sb_id = mb_next b, sb_listener = listener, sb_filter = f\<rparr>]) (mb_subscriptions b),
        mb_next := Suc (mb_next b)\<rparr>)"

definition mb_unsubscribe :: "'e \<Rightarrow> nat \<Rightarrow> ('e, 'l, 'f) message_bus \<Rightarrow> ('e, 'l, 'f) message_bus" where
  "mb_unsubscribe messageType i b =
     (case map_get (mb_subscriptions b) messageType of
        None \<Rightarrow> b
      | Some targetSubscriptions \<Rightarrow>
          let rest = filter (\<lambda>s. sb_id s \<noteq> i) targetSubscriptions
          in b\<lparr>mb_subscriptions :=
                (if rest = [] then map_delete messageType (mb_subscriptions b)
                 else map_set messageType rest (mb_subscriptions b))\<rparr>)"

definition mb_publish :: "('f \<Rightarrow> 'd \<Rightarrow> bool) \<Rightarrow> 'e \<Rightarrow> 'd \<Rightarrow> ('e, 'l, 'f) message_bus \<Rightarrow> 'l list" where
  "mb_publish holds messageType data b =
     map sb_listener (filter (\<lambda>s. case sb_filter s of None \<Rightarrow> True | Some f \<Rightarrow> holds f data) (subscribers b messageType))"

definition hasListeners :: "('e, 'l, 'f) message_bus \<Rightarrow> 'e \<Rightarrow> bool" where
  "hasListeners b messageType = (map_get (mb_subscriptions b) messageType \<noteq> None)"

definition listenerCount :: "('e, 'l, 'f) message_bus \<Rightarrow> 'e \<Rightarrow> nat" where
  "listenerCount b messageType = length (subscribers b messageType)"

definition mb_clear :: "('e, 'l, 'f) message_bus \<Rightarrow> ('e, 'l, 'f) message_bus" where
  "mb_clear b = b\<lparr>mb_subscriptions := []\<rparr>"

subsection \<open>Lemmas\<close>

lemma registry_get [simp]:
  "map_get (registry_register k h r) k' = (if k' = k then Some h else map_get r k')"
  "map_get (registry_unregister k r) k' = (if k' = k then None else map_get r k')"
  by (simp_all add: registry_register_def registry_unregister_def)

text \<open>The disposable of a registration that was overwritten removes the later one.\<close>

lemma stale_disposable:
  "registry_handle call (registry_unregister k (registry_register k h2 (registry_register k h1 r))) k = Inl (Handler_not_found k)"
  by (simp add: registry_handle_def)

lemma subscribers_subscribe [simp]:
  "subscribers (snd (mb_subscribe e l f b)) e' =
     (if e' = e then subscribers b e @ [\<lparr>sb_id = mb_next b, sb_listener = l, sb_filter = f\<rparr>] else subscribers b e')"
  by (simp add: subscribers_def mb_subscribe_def)

lemma subscribers_unsubscribe [simp]:
  "subscribers (mb_unsubscribe e i b) e' =
     (if e' = e then filter (\<lambda>s. sb_id s \<noteq> i) (subscribers b e) else subscribers b e')"
  by (auto simp: subscribers_def mb_unsubscribe_def Let_def split: option.splits)

lemma subscribers_clear [simp]: "subscribers (mb_clear b) e = []"
  by (simp add: subscribers_def mb_clear_def)

lemma subscribers_new [simp]: "subscribers mb_new e = []"
  by (simp add: subscribers_def mb_new_def)

lemma next_subscribe [simp]:
  "mb_next (snd (mb_subscribe e l f b)) = Suc (mb_next b)" "fst (mb_subscribe e l f b) = mb_next b"
  "mb_next (mb_unsubscribe e i b) = mb_next b" "mb_next (mb_clear b) = mb_next b"
  by (auto simp: mb_subscribe_def mb_unsubscribe_def mb_clear_def Let_def split: option.splits)

definition bus_ok :: "('e, 'l, 'f) message_bus \<Rightarrow> bool" where
  "bus_ok b \<longleftrightarrow> (\<forall>e. map_get (mb_subscriptions b) e \<noteq> Some []) \<and>
     (\<forall>e. distinct (map sb_id (subscribers b e)) \<and> (\<forall>s \<in> set (subscribers b e). sb_id s < mb_next b))"

lemma bus_ok_new [inv_intros]: "bus_ok mb_new"
  by (simp add: bus_ok_def mb_new_def subscribers_def)

lemma bus_ok_subscribe [inv_intros]: "bus_ok b \<Longrightarrow> bus_ok (snd (mb_subscribe e l f b))"
  unfolding bus_ok_def by (auto simp: less_Suc_eq) (auto simp: mb_subscribe_def split: if_splits)

lemma bus_ok_unsubscribe [inv_intros]: "bus_ok b \<Longrightarrow> bus_ok (mb_unsubscribe e i b)"
  unfolding bus_ok_def
  by (auto simp: distinct_map_filter) (auto simp: mb_unsubscribe_def Let_def split: option.splits if_splits)

lemma bus_ok_clear [inv_intros]: "bus_ok (mb_clear b)"
  by (simp add: bus_ok_def mb_clear_def subscribers_def)

text \<open>A bus has listeners for a type exactly when it counts some.\<close>

lemma listeners_counted: "bus_ok b \<Longrightarrow> hasListeners b e \<longleftrightarrow> 0 < listenerCount b e"
  unfolding bus_ok_def hasListeners_def listenerCount_def subscribers_def by (auto split: option.splits)

end
