(* ===== verification/Webview_Runtime.thy ===== *)
theory Webview_Runtime
  imports Message_Bus
begin

text \<open>
  The runtime of the web views (\<open>packages/lib_webview/src/services\<close>): mediators between transports and the runtime
  bus, controllers that follow the instances of one web view, and a message bus for each instance.

  Messages are records with optional fields; payloads are the type variable \<open>'p\<close>.  Plugin handlers are names that
  the environment interprets: \<open>we_connected\<close> is what a plugin registers on a new instance, \<open>we_request\<close> what its
  handlers return or throw.  Mediators, controllers and instances are positions in lists, in
  the order of their construction; \<open>wr_sent\<close> are the messages given to transports.
\<close>

record address =
  wa_webviewId :: string
  wa_instanceId :: string

record 'p runtime_message =
  wm_address :: address
  wm_type :: string
  wm_payload :: "'p option"
  wm_requestId :: string
  wm_success :: "bool option"
  wm_reason :: "string option"

datatype runtime_event =
    Webview_connect | Webview_disconnect | Webview_notification | Webview_request | Webview_response
  | Plugin_notification | Plugin_request | Plugin_response | System_notification

datatype runtime_listener =
    On_system nat | On_connect nat | On_disconnect nat
  | On_notification nat | On_request nat | On_response nat
  | To_transport nat

datatype runtime_filter = Same_webview string | Same_address address | Managed_by nat

subsection \<open>State\<close>

record 'h instance_bus =
  ib_address :: address
  ib_eventSubscriptions :: "(runtime_event \<times> nat) list"
  ib_notificationEvents :: "'h registry"
  ib_requestEvents :: "'h registry"
  ib_pendingResponseEvents :: "nat registry"

record 'd instance_info =
  ii_messageBus :: nat
  ii_pluginCallbackDisposables :: "'d list"

record ('c, 'd) controller =
  wc_webviewId :: string
  wc_handlers :: "'c list"
  wc_instanceInfos :: "(string, 'd instance_info) jsmap"
  wc_compositeDisposable :: "(runtime_event \<times> nat) list"

record mediator =
  md_managedInstances :: "string list"
  md_listening :: bool

datatype request_status = Request_open | Request_resolved | Request_rejected string

record ('h, 'p, 'c, 'd) wruntime =
  wr_bus :: "(runtime_event, runtime_listener, runtime_filter) message_bus"
  wr_mediators :: "mediator list"
  wr_controllers :: "('c, 'd) controller list"
  wr_instances :: "'h instance_bus list"
  wr_requests :: "(request_status \<times> bool) list"
  wr_sent :: "(nat \<times> runtime_event \<times> 'p runtime_message) list"
  wr_handled :: "('h \<times> 'p option) list"
  wr_disposed :: "'d list"

datatype 'h registration = Register_notification string 'h | Register_request string 'h

record ('h, 'p, 'c, 'd) wenv =
  we_connected :: "'c \<Rightarrow> address \<Rightarrow> 'h registration list \<times> 'd option"
  we_request :: "'h \<Rightarrow> 'p option \<Rightarrow> js_error + 'p option"
  we_message :: "js_error \<Rightarrow> string"

definition wr_new :: "('h, 'p, 'c, 'd) wruntime" where
  "wr_new = \<lparr>wr_bus = mb_new, wr_mediators = [], wr_controllers = [], wr_instances = [], wr_requests = [], wr_sent = [],
             wr_handled = [], wr_disposed = []\<rparr>"

definition filter_holds :: "('h, 'p, 'c, 'd) wruntime \<Rightarrow> runtime_filter \<Rightarrow> 'p runtime_message \<Rightarrow> bool" where
  "filter_holds s f m =
     (case f of
        Same_webview w \<Rightarrow> wa_webviewId (wm_address m) = w
      | Same_address a \<Rightarrow> wm_address m = a
      | Managed_by i \<Rightarrow> wa_instanceId (wm_address m) \<in> set (md_managedInstances (wr_mediators s ! i)))"

definition published :: "runtime_event \<Rightarrow> 'p runtime_message \<Rightarrow> ('h, 'p, 'c, 'd) wruntime \<Rightarrow> runtime_listener list" where
  "published e m s = mb_publish (filter_holds s) e m (wr_bus s)"

definition wr_subscribe ::
  "runtime_event \<Rightarrow> runtime_listener \<Rightarrow> runtime_filter option \<Rightarrow> ('h, 'p, 'c, 'd) wruntime \<Rightarrow>
   (runtime_event \<times> nat) \<times> ('h, 'p, 'c, 'd) wruntime" where
  "wr_subscribe e l f s = (let (i, b) = mb_subscribe e l f (wr_bus s) in ((e, i), s\<lparr>wr_bus := b\<rparr>))"

definition wr_unsubscribe_all :: "(runtime_event \<times> nat) list \<Rightarrow> ('h, 'p, 'c, 'd) wruntime \<Rightarrow> ('h, 'p, 'c, 'd) wruntime" where
  "wr_unsubscribe_all subs s = s\<lparr>wr_bus := fold (\<lambda>(e, i). mb_unsubscribe e i) subs (wr_bus s)\<rparr>"

subsection \<open>Messages to the transports\<close>

text \<open>Only mediators listen to what plugins publish.\<close>

definition to_transport ::
  "runtime_event \<Rightarrow> 'p runtime_message \<Rightarrow> runtime_listener \<Rightarrow> ('h, 'p, 'c, 'd) wruntime \<Rightarrow> ('h, 'p, 'c, 'd) wruntime" where
  "to_transport e m l s = (case l of To_transport i \<Rightarrow> s\<lparr>wr_sent := wr_sent s @ [(i, e, m)]\<rparr> | _ \<Rightarrow> s)"

definition publish_to_transports ::
  "runtime_event \<Rightarrow> 'p runtime_message \<Rightarrow> ('h, 'p, 'c, 'd) wruntime \<Rightarrow> ('h, 'p, 'c, 'd) wruntime" where
  "publish_to_transports e m s = fold (to_transport e m) (published e m s) s"

subsection \<open>The message bus of an instance\<close>

definition upd_instance ::
  "nat \<Rightarrow> ('h instance_bus \<Rightarrow> 'h instance_bus) \<Rightarrow> ('h, 'p, 'c, 'd) wruntime \<Rightarrow> ('h, 'p, 'c, 'd) wruntime" where
  "upd_instance k f s = s\<lparr>wr_instances := (wr_instances s)[k := f (wr_instances s ! k)]\<rparr>"

definition ib_create :: "address \<Rightarrow> ('h, 'p, 'c, 'd) wruntime \<Rightarrow> nat \<times> ('h, 'p, 'c, 'd) wruntime" where
  "ib_create a s =
     (let k = length (wr_instances s); eventFilter = Some (Same_address a);
          (d1, s1) = wr_subscribe Webview_notification (On_notification k) eventFilter s;
          (d2, s2) = wr_subscribe Webview_request (On_request k) eventFilter s1;
          (d3, s3) = wr_subscribe Webview_response (On_response k) eventFilter s2
      in (k, s3\<lparr>wr_instances := wr_instances s3 @
             [\<lparr>ib_address = a, ib_eventSubscriptions = [d1, d2, d3], ib_notificationEvents = [], ib_requestEvents = [],
               ib_pendingResponseEvents = []\<rparr>]\<rparr>))"

definition ib_sendNotification :: "nat \<Rightarrow> string \<Rightarrow> 'p option \<Rightarrow> ('h, 'p, 'c, 'd) wruntime \<Rightarrow> ('h, 'p, 'c, 'd) wruntime" where
  "ib_sendNotification k type payload s =
     publish_to_transports Plugin_notification
       \<lparr>wm_address = ib_address (wr_instances s ! k), wm_type = type, wm_payload = payload, wm_requestId = [],
        wm_success = None, wm_reason = None\<rparr> s"

definition ib_onNotification :: "nat \<Rightarrow> string \<Rightarrow> 'h \<Rightarrow> ('h, 'p, 'c, 'd) wruntime \<Rightarrow> ('h, 'p, 'c, 'd) wruntime" where
  "ib_onNotification k type handler =
     upd_instance k (\<lambda>b. b\<lparr>ib_notificationEvents := registry_register type handler (ib_notificationEvents b)\<rparr>)"

definition ib_onRequest :: "nat \<Rightarrow> string \<Rightarrow> 'h \<Rightarrow> ('h, 'p, 'c, 'd) wruntime \<Rightarrow> ('h, 'p, 'c, 'd) wruntime" where
  "ib_onRequest k type handler =
     upd_instance k (\<lambda>b. b\<lparr>ib_requestEvents := registry_register type handler (ib_requestEvents b)\<rparr>)"

text \<open>A request: its number is that of the requests before; its timer runs until it is cleared or fires.\<close>

definition ib_sendRequest ::
  "nat \<Rightarrow> string \<Rightarrow> string \<Rightarrow> 'p option \<Rightarrow> ('h, 'p, 'c, 'd) wruntime \<Rightarrow> nat \<times> ('h, 'p, 'c, 'd) wruntime" where
  "ib_sendRequest k requestId type payload s =
     (let r = length (wr_requests s);
          s1 = upd_instance k (\<lambda>b. b\<lparr>ib_pendingResponseEvents :=
                 registry_register requestId r (ib_pendingResponseEvents b)\<rparr>) s;
          s2 = publish_to_transports Plugin_request
                 \<lparr>wm_address = ib_address (wr_instances s ! k), wm_type = type, wm_payload = payload,
                  wm_requestId = requestId, wm_success = None, wm_reason = None\<rparr> s1
      in (r, s2\<lparr>wr_requests := wr_requests s2 @ [(Request_open, True)]\<rparr>))"

definition settle :: "nat \<Rightarrow> request_status \<Rightarrow> ('h, 'p, 'c, 'd) wruntime \<Rightarrow> ('h, 'p, 'c, 'd) wruntime" where
  "settle r v s =
     s\<lparr>wr_requests := (wr_requests s)[r := (if fst (wr_requests s ! r) = Request_open then v else fst (wr_requests s ! r),
                                            False)]\<rparr>"

definition handle_response :: "nat \<Rightarrow> 'p runtime_message \<Rightarrow> ('h, 'p, 'c, 'd) wruntime \<Rightarrow> ('h, 'p, 'c, 'd) wruntime" where
  "handle_response k m s =
     (case map_get (ib_pendingResponseEvents (wr_instances s ! k)) (wm_requestId m) of
        None \<Rightarrow> s
      | Some r \<Rightarrow>
          upd_instance k (\<lambda>b. b\<lparr>ib_pendingResponseEvents :=
              registry_unregister (wm_requestId m) (ib_pendingResponseEvents b)\<rparr>)
            (settle r (if wm_success m = Some True then Request_resolved else Request_rejected (case wm_reason m of None \<Rightarrow> [] | Some reason \<Rightarrow> reason)) s))"

definition request_timeout :: "nat \<Rightarrow> string \<Rightarrow> nat \<Rightarrow> ('h, 'p, 'c, 'd) wruntime \<Rightarrow> ('h, 'p, 'c, 'd) wruntime" where
  "request_timeout k requestId r s =
     settle r (Request_rejected ''Request timed out'')
       (upd_instance k (\<lambda>b. b\<lparr>ib_pendingResponseEvents := registry_unregister requestId (ib_pendingResponseEvents b)\<rparr>) s)"

text \<open>A message of the web view for an instance.  An error of a notification handler is only logged.\<close>

definition handle_notification ::
  "nat \<Rightarrow> 'p runtime_message \<Rightarrow> ('h, 'p, 'c, 'd) wruntime \<Rightarrow> ('h, 'p, 'c, 'd) wruntime" where
  "handle_notification k m s =
     (case map_get (ib_notificationEvents (wr_instances s ! k)) (wm_type m) of
        None \<Rightarrow> s
      | Some h \<Rightarrow> s\<lparr>wr_handled := wr_handled s @ [(h, wm_payload m)]\<rparr>)"

text \<open>What the handler returns is sent as it is, not awaited.\<close>

definition handle_request ::
  "('h, 'p, 'c, 'd) wenv \<Rightarrow> nat \<Rightarrow> 'p runtime_message \<Rightarrow> ('h, 'p, 'c, 'd) wruntime \<Rightarrow> ('h, 'p, 'c, 'd) wruntime" where
  "handle_request E k m s =
     (case map_get (ib_requestEvents (wr_instances s ! k)) (wm_type m) of
        None \<Rightarrow> s
      | Some h \<Rightarrow>
          let response = \<lparr>wm_address = ib_address (wr_instances s ! k), wm_type = wm_type m, wm_payload = None,
                wm_requestId = wm_requestId m, wm_success = None, wm_reason = None\<rparr>;
              s1 = s\<lparr>wr_handled := wr_handled s @ [(h, wm_payload m)]\<rparr>
          in publish_to_transports Plugin_response
               (case we_request E h (wm_payload m) of
                  Inr v \<Rightarrow> response\<lparr>wm_success := Some True, wm_payload := v\<rparr>
                | Inl e \<Rightarrow> response\<lparr>wm_success := Some False, wm_reason := Some (we_message E e)\<rparr>) s1)"

definition ib_dispose :: "nat \<Rightarrow> ('h, 'p, 'c, 'd) wruntime \<Rightarrow> ('h, 'p, 'c, 'd) wruntime" where
  "ib_dispose k s =
     upd_instance k (\<lambda>b. b\<lparr>ib_eventSubscriptions := [], ib_notificationEvents := registry_dispose (ib_notificationEvents b),
         ib_requestEvents := registry_dispose (ib_requestEvents b),
         ib_pendingResponseEvents := registry_dispose (ib_pendingResponseEvents b)\<rparr>)
       (wr_unsubscribe_all (ib_eventSubscriptions (wr_instances s ! k)) s)"

subsection \<open>Controllers\<close>

definition upd_controller ::
  "nat \<Rightarrow> (('c, 'd) controller \<Rightarrow> ('c, 'd) controller) \<Rightarrow> ('h, 'p, 'c, 'd) wruntime \<Rightarrow> ('h, 'p, 'c, 'd) wruntime" where
  "upd_controller c f s = s\<lparr>wr_controllers := (wr_controllers s)[c := f (wr_controllers s ! c)]\<rparr>"

definition wc_create :: "string \<Rightarrow> ('h, 'p, 'c, 'd) wruntime \<Rightarrow> nat \<times> ('h, 'p, 'c, 'd) wruntime" where
  "wc_create webviewId s =
     (let c = length (wr_controllers s); eventFilter = Some (Same_webview webviewId);
          (d1, s1) = wr_subscribe System_notification (On_system c) None s;
          (d2, s2) = wr_subscribe Webview_connect (On_connect c) eventFilter s1;
          (d3, s3) = wr_subscribe Webview_disconnect (On_disconnect c) eventFilter s2
      in (c, s3\<lparr>wr_controllers := wr_controllers s3 @
             [\<lparr>wc_webviewId = webviewId, wc_handlers = [], wc_instanceInfos = [], wc_compositeDisposable = [d1, d2, d3]\<rparr>]\<rparr>))"

definition wc_broadcast :: "nat \<Rightarrow> string \<Rightarrow> 'p option \<Rightarrow> ('h, 'p, 'c, 'd) wruntime \<Rightarrow> ('h, 'p, 'c, 'd) wruntime" where
  "wc_broadcast c type payload s =
     fold (\<lambda>(i, info). ib_sendNotification (ii_messageBus info) type payload) (wc_instanceInfos (wr_controllers s ! c)) s"

definition run_registration :: "nat \<Rightarrow> 'h registration \<Rightarrow> ('h, 'p, 'c, 'd) wruntime \<Rightarrow> ('h, 'p, 'c, 'd) wruntime" where
  "run_registration k r s =
     (case r of Register_notification type h \<Rightarrow> ib_onNotification k type h s
              | Register_request type h \<Rightarrow> ib_onRequest k type h s)"

text \<open>A handler of the plugin is given the bus of an instance.\<close>

definition run_handler ::
  "('h, 'p, 'c, 'd) wenv \<Rightarrow> nat \<Rightarrow> string \<Rightarrow> 'c \<Rightarrow> ('h, 'p, 'c, 'd) wruntime \<Rightarrow> ('h, 'p, 'c, 'd) wruntime" where
  "run_handler E c instanceId handler s =
     (case map_get (wc_instanceInfos (wr_controllers s ! c)) instanceId of
        None \<Rightarrow> s
      | Some info \<Rightarrow>
          let k = ii_messageBus info;
              (registrations, disposable) = we_connected E handler (ib_address (wr_instances s ! k));
              s1 = fold (run_registration k) registrations s
          in (case disposable of
                None \<Rightarrow> s1
              | Some d \<Rightarrow>
                  upd_controller c (\<lambda>w. w\<lparr>wc_instanceInfos := map_set instanceId
                      (info\<lparr>ii_pluginCallbackDisposables := cd_add [d] (ii_pluginCallbackDisposables info)\<rparr>)
                      (wc_instanceInfos w)\<rparr>) s1))"

definition wc_onInstanceConnected ::
  "('h, 'p, 'c, 'd) wenv \<Rightarrow> nat \<Rightarrow> 'c \<Rightarrow> ('h, 'p, 'c, 'd) wruntime \<Rightarrow> ('h, 'p, 'c, 'd) wruntime" where
  "wc_onInstanceConnected E c handler s =
     fold (\<lambda>(instanceId, info). run_handler E c instanceId handler) (wc_instanceInfos (wr_controllers s ! c))
       (upd_controller c (\<lambda>w. w\<lparr>wc_handlers := (if handler \<in> set (wc_handlers w) then wc_handlers w
                                                 else wc_handlers w @ [handler])\<rparr>) s)"

definition handleConnected ::
  "('h, 'p, 'c, 'd) wenv \<Rightarrow> nat \<Rightarrow> address \<Rightarrow> ('h, 'p, 'c, 'd) wruntime \<Rightarrow> ('h, 'p, 'c, 'd) wruntime" where
  "handleConnected E c a s =
     (if map_get (wc_instanceInfos (wr_controllers s ! c)) (wa_instanceId a) \<noteq> None then s
      else
        let (k, s1) = ib_create a s;
            s2 = upd_controller c (\<lambda>w. w\<lparr>wc_instanceInfos := map_set (wa_instanceId a)
                   \<lparr>ii_messageBus = k, ii_pluginCallbackDisposables = []\<rparr> (wc_instanceInfos w)\<rparr>) s1
        in fold (run_handler E c (wa_instanceId a)) (wc_handlers (wr_controllers s ! c)) s2)"

definition handleDisconnected :: "nat \<Rightarrow> address \<Rightarrow> ('h, 'p, 'c, 'd) wruntime \<Rightarrow> ('h, 'p, 'c, 'd) wruntime" where
  "handleDisconnected c a s =
     (case map_get (wc_instanceInfos (wr_controllers s ! c)) (wa_instanceId a) of
        None \<Rightarrow> s
      | Some info \<Rightarrow>
          let s1 = s\<lparr>wr_disposed := wr_disposed s @ fst (cd_dispose (ii_pluginCallbackDisposables info))\<rparr>;
              s2 = ib_dispose (ii_messageBus info) s1
          in upd_controller c (\<lambda>w. w\<lparr>wc_instanceInfos := map_delete (wa_instanceId a) (wc_instanceInfos w)\<rparr>) s2)"

text \<open>The disposables of the plugin's callbacks are not disposed here.\<close>

definition wc_dispose :: "nat \<Rightarrow> ('h, 'p, 'c, 'd) wruntime \<Rightarrow> ('h, 'p, 'c, 'd) wruntime" where
  "wc_dispose c s =
     (let w = wr_controllers s ! c;
          s1 = upd_controller c (\<lambda>w. w\<lparr>wc_compositeDisposable := []\<rparr>) (wr_unsubscribe_all (wc_compositeDisposable w) s);
          s2 = fold (\<lambda>(i, info). ib_dispose (ii_messageBus info)) (wc_instanceInfos w) s1
      in upd_controller c (\<lambda>w. w\<lparr>wc_instanceInfos := []\<rparr>) s2)"

subsection \<open>Delivery of a message\<close>

definition run_listener ::
  "('h, 'p, 'c, 'd) wenv \<Rightarrow> runtime_event \<Rightarrow> 'p runtime_message \<Rightarrow> runtime_listener \<Rightarrow> ('h, 'p, 'c, 'd) wruntime \<Rightarrow>
   ('h, 'p, 'c, 'd) wruntime" where
  "run_listener E e m l s =
     (case l of
        On_system c \<Rightarrow> wc_broadcast c (wm_type m) (wm_payload m) s
      | On_connect c \<Rightarrow> handleConnected E c (wm_address m) s
      | On_disconnect c \<Rightarrow> handleDisconnected c (wm_address m) s
      | On_notification k \<Rightarrow> handle_notification k m s
      | On_request k \<Rightarrow> handle_request E k m s
      | On_response k \<Rightarrow> handle_response k m s
      | To_transport i \<Rightarrow> to_transport e m l s)"

definition wr_publish ::
  "('h, 'p, 'c, 'd) wenv \<Rightarrow> runtime_event \<Rightarrow> 'p runtime_message \<Rightarrow> ('h, 'p, 'c, 'd) wruntime \<Rightarrow> ('h, 'p, 'c, 'd) wruntime" where
  "wr_publish E e m s = fold (run_listener E e m) (published e m s) s"

subsection \<open>Mediators\<close>

definition address_message :: "address \<Rightarrow> 'p runtime_message" where
  "address_message a = \<lparr>wm_address = a, wm_type = [], wm_payload = None, wm_requestId = [], wm_success = None, wm_reason = None\<rparr>"

text \<open>The subscriptions to the runtime bus are not among the disposables.\<close>

definition md_create :: "('h, 'p, 'c, 'd) wruntime \<Rightarrow> nat \<times> ('h, 'p, 'c, 'd) wruntime" where
  "md_create s =
     (let i = length (wr_mediators s); isManaged = Some (Managed_by i);
          s1 = snd (wr_subscribe Plugin_notification (To_transport i) isManaged s);
          s2 = snd (wr_subscribe Plugin_request (To_transport i) isManaged s1);
          s3 = snd (wr_subscribe Plugin_response (To_transport i) isManaged s2)
      in (i, s3\<lparr>wr_mediators := wr_mediators s3 @ [\<lparr>md_managedInstances = [], md_listening = True\<rparr>]\<rparr>))"

definition md_dispose :: "nat \<Rightarrow> ('h, 'p, 'c, 'd) wruntime \<Rightarrow> ('h, 'p, 'c, 'd) wruntime" where
  "md_dispose i s = s\<lparr>wr_mediators := (wr_mediators s)[i := (wr_mediators s ! i)\<lparr>md_listening := False\<rparr>]\<rparr>"

definition set_managed :: "nat \<Rightarrow> (string list \<Rightarrow> string list) \<Rightarrow> ('h, 'p, 'c, 'd) wruntime \<Rightarrow> ('h, 'p, 'c, 'd) wruntime" where
  "set_managed i f s =
     s\<lparr>wr_mediators := (wr_mediators s)[i := (wr_mediators s ! i)
         \<lparr>md_managedInstances := f (md_managedInstances (wr_mediators s ! i))\<rparr>]\<rparr>"

definition onInstanceCreated ::
  "('h, 'p, 'c, 'd) wenv \<Rightarrow> nat \<Rightarrow> address \<Rightarrow> ('h, 'p, 'c, 'd) wruntime \<Rightarrow> ('h, 'p, 'c, 'd) wruntime" where
  "onInstanceCreated E i a s =
     wr_publish E Webview_connect (address_message a)
       (set_managed i (\<lambda>ms. if wa_instanceId a \<in> set ms then ms else ms @ [wa_instanceId a]) s)"

definition onInstanceDestroyed ::
  "('h, 'p, 'c, 'd) wenv \<Rightarrow> nat \<Rightarrow> address \<Rightarrow> ('h, 'p, 'c, 'd) wruntime \<Rightarrow> ('h, 'p, 'c, 'd) wruntime" where
  "onInstanceDestroyed E i a s =
     wr_publish E Webview_disconnect (address_message a) (set_managed i (filter (\<lambda>m. m \<noteq> wa_instanceId a)) s)"

text \<open>What a transport emits; a mediator that was disposed of no longer listens.\<close>

datatype 'p transport_event =
    Instance_created address
  | Instance_destroyed address
  | Notification_received "'p runtime_message"
  | Request_received "'p runtime_message"
  | Response_received "'p runtime_message"

definition transport_emit ::
  "('h, 'p, 'c, 'd) wenv \<Rightarrow> nat \<Rightarrow> 'p transport_event \<Rightarrow> ('h, 'p, 'c, 'd) wruntime \<Rightarrow> ('h, 'p, 'c, 'd) wruntime" where
  "transport_emit E i ev s =
     (if \<not> md_listening (wr_mediators s ! i) then s
      else case ev of
          Instance_created a \<Rightarrow> onInstanceCreated E i a s
        | Instance_destroyed a \<Rightarrow> onInstanceDestroyed E i a s
        | Notification_received m \<Rightarrow> wr_publish E Webview_notification m s
        | Request_received m \<Rightarrow> wr_publish E Webview_request m s
        | Response_received m \<Rightarrow> wr_publish E Webview_response m s)"

subsection \<open>Reachable states\<close>

inductive wr_reach :: "('h, 'p, 'c, 'd) wenv \<Rightarrow> ('h, 'p, 'c, 'd) wruntime \<Rightarrow> bool" for E where
  wr_start: "wr_reach E wr_new"
| wr_mediator: "wr_reach E s \<Longrightarrow> wr_reach E (snd (md_create s))"
| wr_mediator_disposed: "wr_reach E s \<Longrightarrow> wr_reach E (md_dispose i s)"
| wr_controller: "wr_reach E s \<Longrightarrow> wr_reach E (snd (wc_create w s))"
| wr_controller_disposed: "wr_reach E s \<Longrightarrow> c < length (wr_controllers s) \<Longrightarrow> wr_reach E (wc_dispose c s)"
| wr_connected: "wr_reach E s \<Longrightarrow> c < length (wr_controllers s) \<Longrightarrow> wr_reach E (wc_onInstanceConnected E c handler s)"
| wr_emit: "wr_reach E s \<Longrightarrow> i < length (wr_mediators s) \<Longrightarrow> wr_reach E (transport_emit E i ev s)"
| wr_system: "wr_reach E s \<Longrightarrow> wr_reach E (wr_publish E System_notification m s)"
| wr_register: "wr_reach E s \<Longrightarrow> wr_reach E (run_registration k r s)"
| wr_notify: "wr_reach E s \<Longrightarrow> wr_reach E (ib_sendNotification k type payload s)"
| wr_request: "wr_reach E s \<Longrightarrow> wr_reach E (snd (ib_sendRequest k requestId type payload s))"
| wr_timeout: "wr_reach E s \<Longrightarrow> r < length (wr_requests s) \<Longrightarrow> snd (wr_requests s ! r) \<Longrightarrow>
    wr_reach E (request_timeout k requestId r s)"

subsection \<open>Subscriptions and instances\<close>

definition instance_events :: "runtime_event list" where
  "instance_events = [Webview_notification, Webview_request, Webview_response]"

definition instance_listener :: "runtime_event \<Rightarrow> nat \<Rightarrow> runtime_listener" where
  "instance_listener e k =
     (if e = Webview_notification then On_notification k else if e = Webview_request then On_request k else On_response k)"

type_synonym instances_view = "(address \<times> (runtime_event \<times> nat) list) list"

definition view_instances :: "('h, 'p, 'c, 'd) wruntime \<Rightarrow> instances_view" where
  "view_instances s = map (\<lambda>b. (ib_address b, ib_eventSubscriptions b)) (wr_instances s)"

definition view_controllers :: "('h, 'p, 'c, 'd) wruntime \<Rightarrow> (string \<times> (string, nat) jsmap) list" where
  "view_controllers s =
     map (\<lambda>w. (wc_webviewId w, map (\<lambda>(i, info). (i, ii_messageBus info)) (wc_instanceInfos w))) (wr_controllers s)"

definition view_own :: "('h, 'p, 'c, 'd) wruntime \<Rightarrow> (runtime_event \<times> nat) list list" where
  "view_own s = map wc_compositeDisposable (wr_controllers s)"

definition subscribed :: "(runtime_event, runtime_listener, runtime_filter) message_bus \<Rightarrow> instances_view \<Rightarrow> bool" where
  "subscribed b live \<longleftrightarrow> bus_ok b \<and>
     (\<forall>e \<in> set instance_events. \<forall>x \<in> set (subscribers b e). \<exists>k < length live.
        sb_listener x = instance_listener e k \<and> sb_filter x = Some (Same_address (fst (live ! k))) \<and>
        (e, sb_id x) \<in> set (snd (live ! k))) \<and>
     (\<forall>k < length live. (snd (live ! k) = [] \<or> map fst (snd (live ! k)) = instance_events) \<and>
        (\<forall>(e, i) \<in> set (snd (live ! k)). \<exists>x \<in> set (subscribers b e). sb_id x = i \<and> sb_listener x = instance_listener e k))"

definition tracked :: "instances_view \<Rightarrow> (string \<times> (string, nat) jsmap) list \<Rightarrow> bool" where
  "tracked live conns \<longleftrightarrow>
     (\<forall>c < length conns. map_wf (snd (conns ! c))) \<and>
     (\<forall>c < length conns. \<forall>i k. (i, k) \<in> set (snd (conns ! c)) \<longrightarrow>
        k < length live \<and> snd (live ! k) \<noteq> [] \<and> fst (live ! k) = \<lparr>wa_webviewId = fst (conns ! c), wa_instanceId = i\<rparr>) \<and>
     (\<forall>k < length live. snd (live ! k) \<noteq> [] \<longrightarrow> (\<exists>c < length conns. \<exists>i. (i, k) \<in> set (snd (conns ! c)))) \<and>
     (\<forall>c < length conns. \<forall>c' < length conns. \<forall>i i' k. (i, k) \<in> set (snd (conns ! c)) \<longrightarrow> (i', k) \<in> set (snd (conns ! c')) \<longrightarrow>
        c = c' \<and> i = i')"

lemma instance_listener_eq: "e \<in> set instance_events \<Longrightarrow> instance_listener e k = instance_listener e k' \<longleftrightarrow> k = k'"
  by (auto simp: instance_events_def instance_listener_def)

text \<open>What is published for an address reaches the live instances of the address, each once.\<close>

lemma published_instances:
  assumes "subscribed (wr_bus s) (view_instances s)" and e: "e \<in> set instance_events"
  shows "distinct (published e m s) \<and>
    set (published e m s) = instance_listener e ` {k. k < length (view_instances s) \<and> snd (view_instances s ! k) \<noteq> [] \<and>
      fst (view_instances s ! k) = wm_address m}"
proof
  let ?live = "view_instances s" and ?b = "wr_bus s"
  let ?subs = "filter (\<lambda>x. case sb_filter x of None \<Rightarrow> True | Some f \<Rightarrow> filter_holds s f m) (subscribers ?b e)"
  have sub: "\<exists>k < length ?live. sb_listener x = instance_listener e k \<and> sb_filter x = Some (Same_address (fst (?live ! k))) \<and>
      (e, sb_id x) \<in> set (snd (?live ! k))" if "x \<in> set (subscribers ?b e)" for x
    using assms that unfolding subscribed_def by blast
  have live: "snd (?live ! k) = [] \<or> map fst (snd (?live ! k)) = instance_events" if "k < length ?live" for k
    using assms(1) that unfolding subscribed_def by blast
  have one_id: "i = i'" if "k < length ?live" "(e, i) \<in> set (snd (?live ! k))" "(e, i') \<in> set (snd (?live ! k))" for k i i'
  proof -
    have "distinct (map fst (snd (?live ! k)))" using live [OF that(1)] that(2) by (auto simp: instance_events_def)
    with that(2,3) show ?thesis using eq_key_imp_eq_value by metis
  qed
  have ids: "distinct (map sb_id (subscribers ?b e))" using assms(1) by (simp add: subscribed_def bus_ok_def)
  have "distinct (map sb_listener (subscribers ?b e))"
  proof (rule distinct_map [THEN iffD2], intro conjI inj_onI)
    show "distinct (subscribers ?b e)" using ids by (simp add: distinct_map)
    fix x y
    assume xy: "x \<in> set (subscribers ?b e)" "y \<in> set (subscribers ?b e)" "sb_listener x = sb_listener y"
    obtain k where k: "k < length ?live" "sb_listener x = instance_listener e k" "(e, sb_id x) \<in> set (snd (?live ! k))"
      using sub [OF xy(1)] by blast
    obtain k' where k': "sb_listener y = instance_listener e k'" "(e, sb_id y) \<in> set (snd (?live ! k'))"
      using sub [OF xy(2)] by blast
    from k(2) k'(1) xy(3) have "k = k'" using instance_listener_eq [OF e] by simp
    with one_id [OF k(1,3)] k'(2) have "sb_id x = sb_id y" by simp
    with ids xy(1,2) show "x = y" by (auto simp: distinct_map inj_on_def)
  qed
  then show "distinct (published e m s)" by (simp add: published_def mb_publish_def distinct_map_filter)
  show "set (published e m s) = instance_listener e ` {k. k < length ?live \<and> snd (?live ! k) \<noteq> [] \<and> fst (?live ! k) = wm_address m}"
  proof (intro equalityI subsetI)
    fix l
    assume "l \<in> set (published e m s)"
    then obtain x where x: "x \<in> set (subscribers ?b e)" "l = sb_listener x"
      "case sb_filter x of None \<Rightarrow> True | Some f \<Rightarrow> filter_holds s f m" by (auto simp: published_def mb_publish_def)
    from sub [OF x(1)] obtain k where "k < length ?live" "sb_listener x = instance_listener e k"
      "sb_filter x = Some (Same_address (fst (?live ! k)))" "(e, sb_id x) \<in> set (snd (?live ! k))" by blast
    with x(2,3) show "l \<in> instance_listener e ` {k. k < length ?live \<and> snd (?live ! k) \<noteq> [] \<and> fst (?live ! k) = wm_address m}"
      by (auto simp: filter_holds_def)
  next
    fix l
    assume "l \<in> instance_listener e ` {k. k < length ?live \<and> snd (?live ! k) \<noteq> [] \<and> fst (?live ! k) = wm_address m}"
    then obtain k where k: "k < length ?live" "snd (?live ! k) \<noteq> []" "fst (?live ! k) = wm_address m" "l = instance_listener e k"
      by blast
    with live [OF k(1)] e have "e \<in> fst ` set (snd (?live ! k))" by (metis set_map)
    then obtain i where i: "(e, i) \<in> set (snd (?live ! k))" by auto
    then obtain x where x: "x \<in> set (subscribers ?b e)" "sb_listener x = instance_listener e k"
      using assms(1) k(1) unfolding subscribed_def by blast
    from sub [OF x(1)] x(2) instance_listener_eq [OF e] have "sb_filter x = Some (Same_address (fst (?live ! k)))" by metis
    with x k(3,4) show "l \<in> set (published e m s)"
      by (force simp: published_def mb_publish_def filter_holds_def)
  qed
qed

text \<open>Effects that leave subscriptions, instances and controllers as they are.\<close>

definition same_view :: "('h, 'p, 'c, 'd) wruntime \<Rightarrow> ('h, 'p, 'c, 'd) wruntime \<Rightarrow> bool" where
  "same_view s s' \<longleftrightarrow> wr_bus s' = wr_bus s \<and> view_instances s' = view_instances s \<and> view_controllers s' = view_controllers s \<and>
     view_own s' = view_own s"

lemma same_view_refl [simp]: "same_view s s"
  by (simp add: same_view_def)

lemma same_view_trans: "same_view s s' \<Longrightarrow> same_view s' s'' \<Longrightarrow> same_view s s''"
  by (simp add: same_view_def)

lemma same_view_fold: "(\<And>x s. x \<in> set xs \<Longrightarrow> same_view s (f x s)) \<Longrightarrow> same_view s (fold f xs s)"
proof (induction xs arbitrary: s)
  case (Cons x xs)
  have "same_view s (f x s)" using Cons.prems by simp
  moreover have "same_view (f x s) (fold f xs (f x s))" using Cons by simp
  ultimately show ?case using same_view_trans by fastforce
qed simp

lemma map_update_same: "k < length xs \<Longrightarrow> g y = g (xs ! k) \<Longrightarrow> map g (xs[k := y]) = map g xs"
  by (metis list_update_id map_update)

lemma upd_instance_same:
  "(\<And>b. ib_address (f b) = ib_address b) \<Longrightarrow> (\<And>b. ib_eventSubscriptions (f b) = ib_eventSubscriptions b) \<Longrightarrow>
   same_view s (upd_instance k f s)"
  by (cases "k < length (wr_instances s)")
    (simp_all add: same_view_def upd_instance_def view_instances_def view_controllers_def view_own_def map_update_same not_less
      list_update_beyond)

lemma publish_same [frame_simps]: "same_view s (publish_to_transports e m s)"
  unfolding publish_to_transports_def
  by (rule same_view_fold)
    (auto simp: to_transport_def same_view_def view_instances_def view_controllers_def view_own_def split: runtime_listener.splits)

lemma register_same [frame_simps]: "same_view s (run_registration k r s)"
  unfolding run_registration_def ib_onNotification_def ib_onRequest_def
  by (auto intro: upd_instance_same split: registration.splits)

lemma notify_same [frame_simps]: "same_view s (ib_sendNotification k type payload s)"
  unfolding ib_sendNotification_def by (rule publish_same)

lemma settle_same: "same_view s (settle r v s)"
  by (simp add: settle_def same_view_def view_instances_def view_controllers_def view_own_def)

lemma requests_same: "same_view s (s\<lparr>wr_requests := rs\<rparr>)" "same_view s (s\<lparr>wr_handled := hs\<rparr>)" "same_view s (s\<lparr>wr_disposed := ds\<rparr>)"
  "same_view s (s\<lparr>wr_mediators := ms\<rparr>)"
  by (simp_all add: same_view_def view_instances_def view_controllers_def view_own_def)

lemma send_request_same [frame_simps]: "same_view s (snd (ib_sendRequest k requestId type payload s))"
  unfolding ib_sendRequest_def Let_def snd_conv
  by (rule same_view_trans [OF _ requests_same(1)], rule same_view_trans [OF _ publish_same], rule upd_instance_same) simp_all

lemma response_same [frame_simps]: "same_view s (handle_response k m s)"
proof (cases "map_get (ib_pendingResponseEvents (wr_instances s ! k)) (wm_requestId m)")
  case (Some r)
  show ?thesis unfolding handle_response_def Some option.case
    by (rule same_view_trans [OF settle_same], rule upd_instance_same) simp_all
qed (simp add: handle_response_def)

lemma timeout_same [frame_simps]: "same_view s (request_timeout k requestId r s)"
  unfolding request_timeout_def by (rule same_view_trans [OF _ settle_same], rule upd_instance_same) simp_all

lemma notification_same [frame_simps]: "same_view s (handle_notification k m s)"
  unfolding handle_notification_def by (auto intro: requests_same split: option.splits)

lemma request_same [frame_simps]: "same_view s (handle_request E k m s)"
proof (cases "map_get (ib_requestEvents (wr_instances s ! k)) (wm_type m)")
  case (Some h)
  show ?thesis unfolding handle_request_def Some option.case Let_def
    by (rule same_view_trans [OF requests_same(2) publish_same])
qed (simp add: handle_request_def)

lemma broadcast_same [frame_simps]: "same_view s (wc_broadcast c type payload s)"
  unfolding wc_broadcast_def by (rule same_view_fold) (auto intro: notify_same split: prod.splits)

lemma upd_controller_same:
  assumes "wc_webviewId (f (wr_controllers s ! c)) = wc_webviewId (wr_controllers s ! c)"
    and "map (\<lambda>(i, info). (i, ii_messageBus info)) (wc_instanceInfos (f (wr_controllers s ! c))) =
      map (\<lambda>(i, info). (i, ii_messageBus info)) (wc_instanceInfos (wr_controllers s ! c))"
    and "wc_compositeDisposable (f (wr_controllers s ! c)) = wc_compositeDisposable (wr_controllers s ! c)"
  shows "same_view s (upd_controller c f s)"
proof (cases "c < length (wr_controllers s)")
  case True
  then show ?thesis
    using assms by (auto simp: same_view_def upd_controller_def view_instances_def view_controllers_def view_own_def intro: map_update_same)
qed (simp add: same_view_def upd_controller_def view_instances_def view_controllers_def view_own_def not_less list_update_beyond)

lemma update_same_bus:
  "map_get m i = Some info \<Longrightarrow> ii_messageBus info' = ii_messageBus info \<Longrightarrow>
   map (\<lambda>(i, info). (i, ii_messageBus info)) (map_set i info' m) = map (\<lambda>(i, info). (i, ii_messageBus info)) m"
  by (induction m) auto

lemma controllers_upd_instance [simp]: "wr_controllers (upd_instance k f s) = wr_controllers s"
  by (simp add: upd_instance_def)

lemma controllers_registration [simp]: "wr_controllers (run_registration k r s) = wr_controllers s"
  by (cases r) (simp_all add: run_registration_def ib_onNotification_def ib_onRequest_def)

lemma controllers_registrations [simp]: "wr_controllers (fold (run_registration k) rs s) = wr_controllers s"
  by (induction rs arbitrary: s) simp_all

lemma run_handler_same [frame_simps]: "same_view s (run_handler E c i handler s)"
proof (cases "map_get (wc_instanceInfos (wr_controllers s ! c)) i")
  case None
  then show ?thesis by (simp add: run_handler_def)
next
  case (Some info)
  obtain rs d where r: "we_connected E handler (ib_address (wr_instances s ! ii_messageBus info)) = (rs, d)" by fastforce
  let ?s = "fold (run_registration (ii_messageBus info)) rs s"
  have s: "same_view s ?s" by (rule same_view_fold) (rule register_same)
  show ?thesis
  proof (cases d)
    case None
    then show ?thesis using Some r s by (simp add: run_handler_def)
  next
    case (Some d')
    have "same_view ?s (upd_controller c (\<lambda>w. w\<lparr>wc_instanceInfos := map_set i
        (info\<lparr>ii_pluginCallbackDisposables := cd_add [d'] (ii_pluginCallbackDisposables info)\<rparr>) (wc_instanceInfos w)\<rparr>) ?s)"
      by (rule upd_controller_same) (use \<open>map_get _ i = Some info\<close> in \<open>auto intro: update_same_bus\<close>)
    then show ?thesis using Some \<open>map_get _ i = Some info\<close> r same_view_trans [OF s] by (simp add: run_handler_def)
  qed
qed

lemma on_connected_same [frame_simps]: "same_view s (wc_onInstanceConnected E c handler s)"
proof -
  have "same_view s (upd_controller c (\<lambda>w. w\<lparr>wc_handlers := (if handler \<in> set (wc_handlers w) then wc_handlers w
      else wc_handlers w @ [handler])\<rparr>) s)"
    by (rule upd_controller_same) simp_all
  then show ?thesis
    unfolding wc_onInstanceConnected_def
    by (rule same_view_trans) (rule same_view_fold, auto intro: run_handler_same split: prod.splits)
qed

subsection \<open>Creating and disposing of instances\<close>

lemma subscribed_live:
  assumes "subscribed b live" and "k < length live"
  shows "snd (live ! k) = [] \<or> map fst (snd (live ! k)) = instance_events"
    and "(e, i) \<in> set (snd (live ! k)) \<Longrightarrow> \<exists>x \<in> set (subscribers b e). sb_id x = i \<and> sb_listener x = instance_listener e k"
    and "(e, i) \<in> set (snd (live ! k)) \<Longrightarrow> e \<in> set instance_events"
proof -
  have live: "(snd (live ! k) = [] \<or> map fst (snd (live ! k)) = instance_events) \<and>
      (\<forall>(e, i) \<in> set (snd (live ! k)). \<exists>x \<in> set (subscribers b e). sb_id x = i \<and> sb_listener x = instance_listener e k)"
    using assms by (simp add: subscribed_def)
  from live show 1: "snd (live ! k) = [] \<or> map fst (snd (live ! k)) = instance_events" by (rule conjunct1)
  show "\<exists>x \<in> set (subscribers b e). sb_id x = i \<and> sb_listener x = instance_listener e k" if "(e, i) \<in> set (snd (live ! k))"
    using bspec [OF conjunct2 [OF live] that] by simp
  show "e \<in> set instance_events" if "(e, i) \<in> set (snd (live ! k))"
    using 1 that by (metis empty_iff empty_set fst_conv image_eqI list.set_map)
qed

lemma subscribedI:
  assumes "bus_ok b"
    and "\<And>e x. e \<in> set instance_events \<Longrightarrow> x \<in> set (subscribers b e) \<Longrightarrow> \<exists>k < length live.
      sb_listener x = instance_listener e k \<and> sb_filter x = Some (Same_address (fst (live ! k))) \<and>
      (e, sb_id x) \<in> set (snd (live ! k))"
    and "\<And>k. k < length live \<Longrightarrow> snd (live ! k) = [] \<or> map fst (snd (live ! k)) = instance_events"
    and "\<And>k e i. k < length live \<Longrightarrow> (e, i) \<in> set (snd (live ! k)) \<Longrightarrow>
      \<exists>x \<in> set (subscribers b e). sb_id x = i \<and> sb_listener x = instance_listener e k"
  shows "subscribed b live"
  unfolding subscribed_def using assms by (simp add: split_beta)

lemma subscribed_bus:
  assumes "subscribed b live" and "bus_ok b'" and "\<And>e. e \<in> set instance_events \<Longrightarrow> subscribers b' e = subscribers b e"
  shows "subscribed b' live"
proof (rule subscribedI)
  show "bus_ok b'" by (rule assms(2))
next
  fix e x
  assume "e \<in> set instance_events" "x \<in> set (subscribers b' e)"
  then show "\<exists>k < length live. sb_listener x = instance_listener e k \<and> sb_filter x = Some (Same_address (fst (live ! k))) \<and>
      (e, sb_id x) \<in> set (snd (live ! k))"
    using assms(1,3) by (simp add: subscribed_def)
next
  fix k
  assume "k < length live"
  then show "snd (live ! k) = [] \<or> map fst (snd (live ! k)) = instance_events" by (rule subscribed_live(1) [OF assms(1)])
next
  fix k e i
  assume k: "k < length live" "(e, i) \<in> set (snd (live ! k))"
  then show "\<exists>x \<in> set (subscribers b' e). sb_id x = i \<and> sb_listener x = instance_listener e k"
    using subscribed_live(2,3) [OF assms(1) k] assms(3) by simp
qed

lemma subscribed_create:
  assumes "subscribed b live"
  shows "subscribed
    (snd (mb_subscribe Webview_response (On_response (length live)) (Some (Same_address a))
      (snd (mb_subscribe Webview_request (On_request (length live)) (Some (Same_address a))
        (snd (mb_subscribe Webview_notification (On_notification (length live)) (Some (Same_address a)) b))))))
    (live @ [(a, [(Webview_notification, mb_next b), (Webview_request, Suc (mb_next b)),
                  (Webview_response, Suc (Suc (mb_next b)))])])" (is "subscribed ?b ?live")
proof (rule subscribedI)
  show "bus_ok ?b" using assms by (auto intro: inv_intros simp: subscribed_def)
next
  fix e x
  assume e: "e \<in> set instance_events" and x: "x \<in> set (subscribers ?b e)"
  show "\<exists>k < length ?live. sb_listener x = instance_listener e k \<and> sb_filter x = Some (Same_address (fst (?live ! k))) \<and>
      (e, sb_id x) \<in> set (snd (?live ! k))"
  proof (cases "x \<in> set (subscribers b e)")
    case True
    with assms e obtain k where "k < length live" "sb_listener x = instance_listener e k"
      "sb_filter x = Some (Same_address (fst (live ! k)))" "(e, sb_id x) \<in> set (snd (live ! k))"
      unfolding subscribed_def by blast
    then show ?thesis by (intro exI [of _ k]) (simp add: nth_append)
  next
    case False
    with e x show ?thesis
      by (intro exI [of _ "length live"]) (auto simp: instance_events_def instance_listener_def split: if_splits)
  qed
next
  fix k
  assume k: "k < length ?live"
  then show "snd (?live ! k) = [] \<or> map fst (snd (?live ! k)) = instance_events"
    using subscribed_live(1) [OF assms] by (cases "k < length live") (auto simp: nth_append less_Suc_eq instance_events_def)
next
  fix k e i
  assume k: "k < length ?live" "(e, i) \<in> set (snd (?live ! k))"
  show "\<exists>x \<in> set (subscribers ?b e). sb_id x = i \<and> sb_listener x = instance_listener e k"
  proof (cases "k < length live")
    case True
    with k have "\<exists>x \<in> set (subscribers b e). sb_id x = i \<and> sb_listener x = instance_listener e k"
      by (intro subscribed_live(2) [OF assms]) (simp_all add: nth_append)
    then show ?thesis by auto
  next
    case False
    with k show ?thesis by (auto simp: instance_listener_def less_Suc_eq nth_append)
  qed
qed

lemma fold_unsubscribe:
  "subscribers (fold (\<lambda>(e, i). mb_unsubscribe e i) subs b) e = filter (\<lambda>x. (e, sb_id x) \<notin> set subs) (subscribers b e)"
  "bus_ok b \<Longrightarrow> bus_ok (fold (\<lambda>(e, i). mb_unsubscribe e i) subs b)"
  by (induction subs arbitrary: b) (auto intro: inv_intros filter_cong simp: conj_commute)

lemma subscribed_dispose:
  assumes "subscribed b live" and k: "k < length live"
  shows "subscribed (fold (\<lambda>(e, i). mb_unsubscribe e i) (snd (live ! k)) b) (live[k := (fst (live ! k), [])])"
    (is "subscribed ?b ?live")
proof (rule subscribedI)
  show "bus_ok ?b" using assms(1) by (simp add: subscribed_def fold_unsubscribe(2))
next
  fix e x
  assume e: "e \<in> set instance_events" and "x \<in> set (subscribers ?b e)"
  then have x: "x \<in> set (subscribers b e)" "(e, sb_id x) \<notin> set (snd (live ! k))" by (auto simp: fold_unsubscribe(1))
  from assms(1) e x(1) obtain j where j: "j < length live" "sb_listener x = instance_listener e j"
    "sb_filter x = Some (Same_address (fst (live ! j)))" "(e, sb_id x) \<in> set (snd (live ! j))"
    unfolding subscribed_def by blast
  with x(2) have "j \<noteq> k" by auto
  with j show "\<exists>j < length ?live. sb_listener x = instance_listener e j \<and> sb_filter x = Some (Same_address (fst (?live ! j))) \<and>
      (e, sb_id x) \<in> set (snd (?live ! j))" by (intro exI [of _ j]) simp
next
  fix j
  assume "j < length ?live"
  then show "snd (?live ! j) = [] \<or> map fst (snd (?live ! j)) = instance_events"
    using subscribed_live(1) [OF assms(1)] by (cases "j = k") auto
next
  fix j e i
  assume "j < length ?live" "(e, i) \<in> set (snd (?live ! j))"
  then have j: "j < length live" "j \<noteq> k" "(e, i) \<in> set (snd (live ! j))" using k by (cases "j = k"; simp)+
  obtain x where x: "x \<in> set (subscribers b e)" "sb_id x = i" "sb_listener x = instance_listener e j"
    using subscribed_live(2) [OF assms(1) j(1,3)] by blast
  have e: "e \<in> set instance_events" by (rule subscribed_live(3) [OF assms(1) j(1,3)])
  have "(e, i) \<notin> set (snd (live ! k))"
  proof
    assume "(e, i) \<in> set (snd (live ! k))"
    then obtain y where y: "y \<in> set (subscribers b e)" "sb_id y = i" "sb_listener y = instance_listener e k"
      using subscribed_live(2) [OF assms(1) k] by blast
    have "inj_on sb_id (set (subscribers b e))" using assms(1) by (simp add: subscribed_def bus_ok_def distinct_map)
    with x y have "x = y" by (auto dest: inj_onD)
    with x(3) y(3) j(2) show False using instance_listener_eq [OF e] by simp
  qed
  with x show "\<exists>x \<in> set (subscribers ?b e). sb_id x = i \<and> sb_listener x = instance_listener e j"
    by (auto simp: fold_unsubscribe(1))
qed

lemma tracked_parts:
  assumes "tracked live conns"
  shows "\<forall>c < length conns. map_wf (snd (conns ! c))"
    and "\<forall>c < length conns. \<forall>i k. (i, k) \<in> set (snd (conns ! c)) \<longrightarrow>
        k < length live \<and> snd (live ! k) \<noteq> [] \<and> fst (live ! k) = \<lparr>wa_webviewId = fst (conns ! c), wa_instanceId = i\<rparr>"
    and "\<forall>k < length live. snd (live ! k) \<noteq> [] \<longrightarrow> (\<exists>c < length conns. \<exists>i. (i, k) \<in> set (snd (conns ! c)))"
    and "\<forall>c < length conns. \<forall>c' < length conns. \<forall>i i' k. (i, k) \<in> set (snd (conns ! c)) \<longrightarrow> (i', k) \<in> set (snd (conns ! c')) \<longrightarrow>
        c = c' \<and> i = i'"
  using assms unfolding tracked_def by - ((elim conjE, assumption)+)

lemma trackedD:
  assumes "tracked live conns" and "c < length conns"
  shows "map_wf (snd (conns ! c))"
    and "(i, k) \<in> set (snd (conns ! c)) \<Longrightarrow> k < length live"
    and "(i, k) \<in> set (snd (conns ! c)) \<Longrightarrow> snd (live ! k) \<noteq> []"
    and "(i, k) \<in> set (snd (conns ! c)) \<Longrightarrow> fst (live ! k) = \<lparr>wa_webviewId = fst (conns ! c), wa_instanceId = i\<rparr>"
    and "(i, k) \<in> set (snd (conns ! c)) \<Longrightarrow> c' < length conns \<Longrightarrow> (i', k) \<in> set (snd (conns ! c')) \<Longrightarrow> c' = c \<and> i' = i"
  using tracked_parts(1) [OF assms(1), rule_format, OF assms(2)] tracked_parts(2) [OF assms(1), rule_format, OF assms(2)]
    tracked_parts(4) [OF assms(1), rule_format, OF _ assms(2)] by simp_all

lemma tracked_owner:
  assumes "tracked live conns" and "k < length live" and "snd (live ! k) \<noteq> []"
  obtains c i where "c < length conns" and "(i, k) \<in> set (snd (conns ! c))"
  using tracked_parts(3) [OF assms(1), rule_format, OF assms(2,3)] by (elim exE conjE)

lemma trackedI:
  assumes "\<And>c. c < length conns \<Longrightarrow> map_wf (snd (conns ! c))"
    and "\<And>c i k. c < length conns \<Longrightarrow> (i, k) \<in> set (snd (conns ! c)) \<Longrightarrow>
      k < length live \<and> snd (live ! k) \<noteq> [] \<and> fst (live ! k) = \<lparr>wa_webviewId = fst (conns ! c), wa_instanceId = i\<rparr>"
    and "\<And>k. k < length live \<Longrightarrow> snd (live ! k) \<noteq> [] \<Longrightarrow> \<exists>c < length conns. \<exists>i. (i, k) \<in> set (snd (conns ! c))"
    and "\<And>c c' i i' k. c < length conns \<Longrightarrow> c' < length conns \<Longrightarrow> (i, k) \<in> set (snd (conns ! c)) \<Longrightarrow>
      (i', k) \<in> set (snd (conns ! c')) \<Longrightarrow> c = c' \<and> i = i'"
  shows "tracked live conns"
  unfolding tracked_def using assms by simp

lemma tracked_create:
  assumes t: "tracked live conns" and c: "c < length conns" and "map_get (snd (conns ! c)) i = None" and subs: "subs \<noteq> []"
  shows "tracked (live @ [(\<lparr>wa_webviewId = fst (conns ! c), wa_instanceId = i\<rparr>, subs)])
    (conns[c := (fst (conns ! c), snd (conns ! c) @ [(i, length live)])])" (is "tracked ?live ?conns")
proof -
  have i: "i \<notin> fst ` set (snd (conns ! c))" using assms(3) by (simp add: map_get_None_keys)
  have in_new: "(i', k) \<in> set (snd (?conns ! c')) \<longleftrightarrow> (i', k) \<in> set (snd (conns ! c')) \<or> c' = c \<and> i' = i \<and> k = length live"
    for c' i' k
    using c by (cases "c' = c") auto
  have name: "fst (?conns ! c') = fst (conns ! c')" for c' using c by (cases "c' = c") simp_all
  show ?thesis
  proof (rule trackedI)
    fix c'
    assume "c' < length ?conns"
    then show "map_wf (snd (?conns ! c'))"
      using trackedD(1) [OF t, of c'] i by (cases "c' = c") (auto simp: map_wf_def)
  next
    fix c' i' k
    assume c': "c' < length ?conns" and "(i', k) \<in> set (snd (?conns ! c'))"
    then consider "(i', k) \<in> set (snd (conns ! c'))" | "c' = c" "i' = i" "k = length live" using in_new by blast
    then show "k < length ?live \<and> snd (?live ! k) \<noteq> [] \<and>
        fst (?live ! k) = \<lparr>wa_webviewId = fst (?conns ! c'), wa_instanceId = i'\<rparr>"
    proof cases
      case 1
      with trackedD(2-4) [OF t _ 1] c' show ?thesis by (simp add: nth_append name)
    next
      case 2
      with subs show ?thesis by (simp add: name)
    qed
  next
    fix k
    assume k: "k < length ?live" "snd (?live ! k) \<noteq> []"
    show "\<exists>c < length ?conns. \<exists>i. (i, k) \<in> set (snd (?conns ! c))"
    proof (cases "k < length live")
      case True
      with k have "snd (live ! k) \<noteq> []" by (simp add: nth_append)
      with True obtain c' i' where "c' < length conns" "(i', k) \<in> set (snd (conns ! c'))" by (rule tracked_owner [OF t])
      with in_new show ?thesis by (intro exI [of _ c']) auto
    next
      case False
      with k c in_new show ?thesis by (intro exI [of _ c]) auto
    qed
  next
    fix c1 c2 i1 i2 k
    assume c12: "c1 < length ?conns" "c2 < length ?conns" and in12: "(i1, k) \<in> set (snd (?conns ! c1))" "(i2, k) \<in> set (snd (?conns ! c2))"
    show "c1 = c2 \<and> i1 = i2"
    proof (cases "k = length live")
      case True
      with trackedD(2) [OF t, of c1 i1 k] trackedD(2) [OF t, of c2 i2 k] c12 have
        "(i1, k) \<notin> set (snd (conns ! c1))" "(i2, k) \<notin> set (snd (conns ! c2))" by auto
      with in12 in_new show ?thesis by simp
    next
      case False
      with in12 in_new have "(i1, k) \<in> set (snd (conns ! c1))" "(i2, k) \<in> set (snd (conns ! c2))" by simp_all
      with trackedD(5) [OF t] c12 show ?thesis by (metis length_list_update)
    qed
  qed
qed

lemma tracked_dispose:
  assumes t: "tracked live conns" and c: "c < length conns" and "map_get (snd (conns ! c)) i = Some k"
  shows "tracked (live[k := (fst (live ! k), [])]) (conns[c := (fst (conns ! c), map_delete i (snd (conns ! c)))])"
    (is "tracked ?live ?conns")
proof -
  from assms(3) have ik: "(i, k) \<in> set (snd (conns ! c))" by (rule map_of_SomeD)
  with t c have k: "k < length live" by (rule trackedD)
  have in_new: "(i', k') \<in> set (snd (?conns ! c')) \<longleftrightarrow> (i', k') \<in> set (snd (conns ! c')) \<and> k' \<noteq> k" if "c' < length conns" for c' i' k'
  proof (cases "c' = c")
    case True
    have "(i', k') \<in> set (map_delete i (snd (conns ! c))) \<longleftrightarrow> (i', k') \<in> set (snd (conns ! c)) \<and> i' \<noteq> i"
      by (auto simp: AList.delete_eq)
    moreover have "i' \<noteq> i \<longleftrightarrow> k' \<noteq> k" if "(i', k') \<in> set (snd (conns ! c))"
      using trackedD(5) [OF t c ik c, of i'] that ik trackedD(1) [OF t c] eq_key_imp_eq_value unfolding map_wf_def by metis
    ultimately show ?thesis using True c by auto
  next
    case False
    with trackedD(5) [OF t c ik that] show ?thesis by auto
  qed
  have name: "fst (?conns ! c') = fst (conns ! c')" for c' using c by (cases "c' = c") simp_all
  show ?thesis
  proof (rule trackedI)
    fix c'
    assume "c' < length ?conns"
    then show "map_wf (snd (?conns ! c'))" using trackedD(1) [OF t, of c'] by (cases "c' = c") auto
  next
    fix c' i' k'
    assume c': "c' < length ?conns" and "(i', k') \<in> set (snd (?conns ! c'))"
    then have "(i', k') \<in> set (snd (conns ! c'))" "k' \<noteq> k" using in_new by simp_all
    with trackedD(2-4) [OF t] c' show "k' < length ?live \<and> snd (?live ! k') \<noteq> [] \<and>
        fst (?live ! k') = \<lparr>wa_webviewId = fst (?conns ! c'), wa_instanceId = i'\<rparr>" by (simp add: name)
  next
    fix j
    assume j: "j < length ?live" "snd (?live ! j) \<noteq> []"
    then have "j \<noteq> k" using k by auto
    with j have "j < length live" "snd (live ! j) \<noteq> []" by simp_all
    then obtain c' i' where "c' < length conns" "(i', j) \<in> set (snd (conns ! c'))" by (rule tracked_owner [OF t])
    with in_new \<open>j \<noteq> k\<close> show "\<exists>c < length ?conns. \<exists>i. (i, j) \<in> set (snd (?conns ! c))"
      by (intro exI [of _ c']) auto
  next
    fix c1 c2 i1 i2 k'
    assume "c1 < length ?conns" "c2 < length ?conns" "(i1, k') \<in> set (snd (?conns ! c1))" "(i2, k') \<in> set (snd (?conns ! c2))"
    then show "c1 = c2 \<and> i1 = i2" using in_new trackedD(5) [OF t] by (metis length_list_update)
  qed
qed

subsection \<open>The invariant of the runtime\<close>

definition listeners_ok :: "(runtime_event, runtime_listener, runtime_filter) message_bus \<Rightarrow> string list \<Rightarrow> bool" where
  "listeners_ok b names \<longleftrightarrow>
     (\<forall>x \<in> set (subscribers b Webview_connect). \<exists>c < length names.
        sb_listener x = On_connect c \<and> sb_filter x = Some (Same_webview (names ! c))) \<and>
     (\<forall>x \<in> set (subscribers b Webview_disconnect). \<exists>c < length names.
        sb_listener x = On_disconnect c \<and> sb_filter x = Some (Same_webview (names ! c))) \<and>
     (\<forall>x \<in> set (subscribers b System_notification). \<exists>c < length names. sb_listener x = On_system c)"

definition own_events :: "runtime_event list" where
  "own_events = [System_notification, Webview_connect, Webview_disconnect]"

definition wr_ok :: "('h, 'p, 'c, 'd) wruntime \<Rightarrow> bool" where
  "wr_ok s \<longleftrightarrow> subscribed (wr_bus s) (view_instances s) \<and> tracked (view_instances s) (view_controllers s) \<and>
     listeners_ok (wr_bus s) (map fst (view_controllers s)) \<and> (\<forall>subs \<in> set (view_own s). fst ` set subs \<subseteq> set own_events)"

lemma same_view_ok: "same_view s s' \<Longrightarrow> wr_ok s' = wr_ok s"
  by (simp add: same_view_def wr_ok_def)

lemma listeners_ok_subset:
  "listeners_ok b names \<Longrightarrow> (\<And>e. set (subscribers b' e) \<subseteq> set (subscribers b e)) \<Longrightarrow> listeners_ok b' names"
  unfolding listeners_ok_def by (meson subsetD)

lemma view_names: "map fst (view_controllers s) = map wc_webviewId (wr_controllers s)"
  by (simp add: view_controllers_def)

lemma view_lengths [simp]:
  "length (view_controllers s) = length (wr_controllers s)" "length (view_instances s) = length (wr_instances s)"
  by (simp_all add: view_controllers_def view_instances_def)

lemma ok_start: "wr_ok wr_new"
  by (simp add: wr_ok_def wr_new_def view_instances_def view_controllers_def view_own_def subscribed_def tracked_def
      listeners_ok_def bus_ok_new)

lemma subscribe_bus: "wr_bus (snd (wr_subscribe e l f s)) = snd (mb_subscribe e l f (wr_bus s))"
  by (simp add: wr_subscribe_def split_beta)

lemma subscribe_view:
  "wr_instances (snd (wr_subscribe e l f s)) = wr_instances s" "wr_controllers (snd (wr_subscribe e l f s)) = wr_controllers s"
  "wr_mediators (snd (wr_subscribe e l f s)) = wr_mediators s" "wr_requests (snd (wr_subscribe e l f s)) = wr_requests s"
  "fst (wr_subscribe e l f s) = (e, mb_next (wr_bus s))"
  by (simp_all add: wr_subscribe_def split_beta)

lemma ok_mediator:
  assumes "wr_ok s"
  shows "wr_ok (snd (md_create s))"
proof -
  let ?sub = "\<lambda>e. mb_subscribe e (To_transport (length (wr_mediators s))) (Some (Managed_by (length (wr_mediators s))))"
  let ?b = "snd (?sub Plugin_response (snd (?sub Plugin_request (snd (?sub Plugin_notification (wr_bus s))))))"
  let ?s = "snd (md_create s)"
  have view: "wr_bus ?s = ?b" "view_instances ?s = view_instances s" "view_controllers ?s = view_controllers s" "view_own ?s = view_own s"
    by (simp_all add: md_create_def Let_def subscribe_bus subscribe_view view_instances_def view_controllers_def view_own_def)
  have s: "subscribed (wr_bus s) (view_instances s)" "listeners_ok (wr_bus s) (map fst (view_controllers s))" using assms by (simp_all add: wr_ok_def)
  from s(1) have "bus_ok ?b" by (auto intro: inv_intros simp: subscribed_def)
  moreover have "subscribers ?b e = subscribers (wr_bus s) e" if "e \<in> set instance_events" for e
    using that by (auto simp: instance_events_def)
  ultimately have "subscribed ?b (view_instances s)" by (rule subscribed_bus [OF s(1)])
  moreover have "listeners_ok ?b (map fst (view_controllers s))" using s(2) by (simp add: listeners_ok_def)
  ultimately show ?thesis using assms by (simp add: wr_ok_def view)
qed

lemma tracked_new_controller:
  assumes t: "tracked live conns"
  shows "tracked live (conns @ [(w, [])])" (is "tracked live ?conns")
proof -
  have in_new: "(i, k) \<in> set (snd (?conns ! c)) \<longleftrightarrow> c < length conns \<and> (i, k) \<in> set (snd (conns ! c))"
    if "c < length ?conns" for c i k
    using that by (cases "c < length conns") (auto simp: nth_append less_Suc_eq)
  have name: "c < length conns \<Longrightarrow> ?conns ! c = conns ! c" for c by (simp add: nth_append)
  show ?thesis
  proof (rule trackedI)
    fix c
    assume "c < length ?conns"
    then show "map_wf (snd (?conns ! c))"
      using trackedD(1) [OF t, of c] by (cases "c < length conns") (auto simp: nth_append less_Suc_eq map_wf_def)
  next
    fix c i k
    assume "c < length ?conns" "(i, k) \<in> set (snd (?conns ! c))"
    then have c: "c < length conns" and ik: "(i, k) \<in> set (snd (conns ! c))" using in_new by blast+
    from trackedD(2-4) [OF t c ik] show "k < length live \<and> snd (live ! k) \<noteq> [] \<and>
        fst (live ! k) = \<lparr>wa_webviewId = fst (?conns ! c), wa_instanceId = i\<rparr>" by (simp add: name [OF c])
  next
    fix k
    assume "k < length live" "snd (live ! k) \<noteq> []"
    then obtain c i where "c < length conns" "(i, k) \<in> set (snd (conns ! c))" by (rule tracked_owner [OF t])
    with name show "\<exists>c < length ?conns. \<exists>i. (i, k) \<in> set (snd (?conns ! c))"
      by (intro exI [of _ c]) auto
  next
    fix c1 c2 i1 i2 k
    assume "c1 < length ?conns" "c2 < length ?conns" "(i1, k) \<in> set (snd (?conns ! c1))" "(i2, k) \<in> set (snd (?conns ! c2))"
    then have "c1 < length conns" "(i1, k) \<in> set (snd (conns ! c1))" "c2 < length conns" "(i2, k) \<in> set (snd (conns ! c2))"
      using in_new by blast+
    from trackedD(5) [OF t this] show "c1 = c2 \<and> i1 = i2" by simp
  qed
qed

lemma listeners_new_controller:
  assumes "listeners_ok b names"
  shows "listeners_ok
    (snd (mb_subscribe Webview_disconnect (On_disconnect (length names)) (Some (Same_webview w))
      (snd (mb_subscribe Webview_connect (On_connect (length names)) (Some (Same_webview w))
        (snd (mb_subscribe System_notification (On_system (length names)) f b)))))) (names @ [w])"
proof -
  have "listeners_ok b (names @ [w])"
    using assms unfolding listeners_ok_def by (fastforce simp: nth_append)
  then show ?thesis by (simp add: listeners_ok_def nth_append)
qed

lemma ok_controller:
  assumes "wr_ok s"
  shows "wr_ok (snd (wc_create w s))"
proof -
  let ?n = "length (map fst (view_controllers s))" and ?s = "snd (wc_create w s)"
  let ?b = "snd (mb_subscribe Webview_disconnect (On_disconnect ?n) (Some (Same_webview w))
      (snd (mb_subscribe Webview_connect (On_connect ?n) (Some (Same_webview w))
        (snd (mb_subscribe System_notification (On_system ?n) None (wr_bus s))))))"
  have view: "wr_bus ?s = ?b" "view_instances ?s = view_instances s" "view_controllers ?s = view_controllers s @ [(w, [])]"
    by (simp_all add: wc_create_def Let_def split_beta subscribe_bus subscribe_view view_instances_def view_controllers_def)
  have own: "view_own ?s = view_own s @ [[(System_notification, mb_next (wr_bus s)), (Webview_connect, Suc (mb_next (wr_bus s))),
      (Webview_disconnect, Suc (Suc (mb_next (wr_bus s))))]]"
    by (simp add: wc_create_def Let_def split_beta subscribe_bus subscribe_view view_own_def)
  have s: "subscribed (wr_bus s) (view_instances s)" using assms by (simp add: wr_ok_def)
  then have "bus_ok ?b" by (auto intro: inv_intros simp: subscribed_def)
  moreover have "subscribers ?b e = subscribers (wr_bus s) e" if "e \<in> set instance_events" for e
    using that by (auto simp: instance_events_def)
  ultimately have "subscribed ?b (view_instances s)" by (rule subscribed_bus [OF s])
  moreover have "listeners_ok ?b (map fst (view_controllers s) @ [w])"
    using assms by (intro listeners_new_controller) (simp add: wr_ok_def)
  ultimately show ?thesis
    using assms by (simp add: wr_ok_def view own own_events_def tracked_new_controller)
qed

text \<open>Disposing of one instance.\<close>

lemma ib_dispose_view:
  assumes "k < length (wr_instances s)"
  shows "wr_bus (ib_dispose k s) = fold (\<lambda>(e, i). mb_unsubscribe e i) (snd (view_instances s ! k)) (wr_bus s)"
    and "view_instances (ib_dispose k s) = (view_instances s)[k := (fst (view_instances s ! k), [])]"
    and "wr_controllers (ib_dispose k s) = wr_controllers s"
  using assms by (simp_all add: ib_dispose_def upd_instance_def wr_unsubscribe_all_def view_instances_def map_update)

lemma listeners_ok_unsubscribed: "listeners_ok b names \<Longrightarrow> listeners_ok (fold (\<lambda>(e, i). mb_unsubscribe e i) subs b) names"
  by (erule listeners_ok_subset) (auto simp: fold_unsubscribe(1))

definition names :: "('h, 'p, 'c, 'd) wruntime \<Rightarrow> string list" where
  "names s = map wc_webviewId (wr_controllers s)"

lemma same_view_names: "same_view s s' \<Longrightarrow> names s' = names s"
  by (metis same_view_def view_names names_def)

lemma controller_view:
  assumes "c < length (wr_controllers s)"
  shows "view_controllers s ! c =
    (wc_webviewId (wr_controllers s ! c), map (\<lambda>(i, info). (i, ii_messageBus info)) (wc_instanceInfos (wr_controllers s ! c)))"
  using assms by (simp add: view_controllers_def)

lemma map_get_infos: "map_get (map (\<lambda>(i, info). (i, f info)) m) i = map_option f (map_get m i)"
  by (induction m) auto

lemma map_set_new: "map_get m i = None \<Longrightarrow> map_set i x m = m @ [(i, x)]"
  by (induction m) (auto split: if_splits)

lemma map_self_update: "(map f xs)[c := f (xs ! c)] = map f xs"
  by (metis list_update_id map_update)

lemma delete_infos: "map (\<lambda>(i, info). (i, f info)) (map_delete i m) = map_delete i (map (\<lambda>(i, info). (i, f info)) m)"
  by (induction m) auto

lemma ok_fold:
  assumes "wr_ok s" and "\<And>x s. x \<in> set xs \<Longrightarrow> same_view s (f x s)"
  shows "wr_ok (fold f xs s)" and "names (fold f xs s) = names s"
  using same_view_fold [of xs f s] assms same_view_ok same_view_names by blast+

lemma view_disposed:
  "wr_bus (s\<lparr>wr_disposed := ds\<rparr>) = wr_bus s" "view_instances (s\<lparr>wr_disposed := ds\<rparr>) = view_instances s"
  by (simp_all add: view_instances_def)

lemma ok_connected:
  assumes ok: "wr_ok s" and c: "c < length (wr_controllers s)" and w: "wa_webviewId a = names s ! c"
  shows "wr_ok (handleConnected E c a s) \<and> names (handleConnected E c a s) = names s"
proof (cases "map_get (wc_instanceInfos (wr_controllers s ! c)) (wa_instanceId a)")
  case (Some info)
  with ok show ?thesis by (simp add: handleConnected_def)
next
  case None
  let ?k = "length (view_instances s)" and ?conns = "view_controllers s"
  let ?subs = "[(Webview_notification, mb_next (wr_bus s)), (Webview_request, Suc (mb_next (wr_bus s))),
      (Webview_response, Suc (Suc (mb_next (wr_bus s))))]"
  let ?b = "snd (mb_subscribe Webview_response (On_response ?k) (Some (Same_address a))
      (snd (mb_subscribe Webview_request (On_request ?k) (Some (Same_address a))
        (snd (mb_subscribe Webview_notification (On_notification ?k) (Some (Same_address a)) (wr_bus s))))))"
  let ?s1 = "snd (ib_create a s)"
  let ?s2 = "upd_controller c (\<lambda>w. w\<lparr>wc_instanceInfos := map_set (wa_instanceId a)
      \<lparr>ii_messageBus = ?k, ii_pluginCallbackDisposables = []\<rparr> (wc_instanceInfos w)\<rparr>) ?s1"
  have k: "fst (ib_create a s) = ?k" by (simp add: ib_create_def Let_def split_beta)
  have s1: "wr_bus ?s1 = ?b" "view_instances ?s1 = view_instances s @ [(a, ?subs)]" "wr_controllers ?s1 = wr_controllers s"
    by (simp_all add: ib_create_def Let_def split_beta subscribe_bus subscribe_view view_instances_def)
  have new: "map_set (wa_instanceId a) x (wc_instanceInfos (wr_controllers s ! c)) = wc_instanceInfos (wr_controllers s ! c) @ [(wa_instanceId a, x)]"
    for x using None by (rule map_set_new)
  have a: "\<lparr>wa_webviewId = fst (?conns ! c), wa_instanceId = wa_instanceId a\<rparr> = a"
    using w c by (simp add: controller_view names_def)
  have s2: "wr_bus ?s2 = ?b" "view_instances ?s2 = view_instances s @ [(a, ?subs)]"
    "view_controllers ?s2 = ?conns[c := (fst (?conns ! c), snd (?conns ! c) @ [(wa_instanceId a, ?k)])]" "view_own ?s2 = view_own s"
    "names ?s2 = names s"
    using c s1 new
    by (simp_all add: upd_controller_def view_instances_def view_controllers_def view_own_def names_def map_update)
      (auto intro: map_update_same simp: nth_list_update intro!: nth_equalityI)
  have "subscribed ?b (view_instances s @ [(a, ?subs)])" using ok by (intro subscribed_create) (simp add: wr_ok_def)
  moreover have "tracked (view_instances s @ [(a, ?subs)]) (?conns[c := (fst (?conns ! c), snd (?conns ! c) @ [(wa_instanceId a, ?k)])])"
    using tracked_create [of "view_instances s" ?conns c "wa_instanceId a" ?subs] ok c None a
    by (simp add: wr_ok_def controller_view map_get_infos)
  moreover have "map fst (?conns[c := (fst (?conns ! c), snd (?conns ! c) @ [(wa_instanceId a, ?k)])]) = map fst ?conns"
    using c by (intro map_update_same) simp_all
  moreover have "listeners_ok ?b (map fst ?conns)" using ok by (simp add: wr_ok_def listeners_ok_def)
  moreover have "\<forall>subs \<in> set (view_own s). fst ` set subs \<subseteq> set own_events" using ok by (simp add: wr_ok_def)
  ultimately have "wr_ok ?s2" unfolding wr_ok_def s2 by metis
  have eq: "handleConnected E c a s = fold (run_handler E c (wa_instanceId a)) (wc_handlers (wr_controllers s ! c)) ?s2"
    using None k by (simp add: handleConnected_def split_beta)
  have same: "same_view ?s2 (fold (run_handler E c (wa_instanceId a)) (wc_handlers (wr_controllers s ! c)) ?s2)"
    by (rule same_view_fold) (rule run_handler_same)
  show ?thesis
    unfolding eq same_view_ok [OF same] same_view_names [OF same] s2(5) using \<open>wr_ok ?s2\<close> by (intro conjI refl)
qed

lemma ok_disconnected:
  assumes ok: "wr_ok s" and c: "c < length (wr_controllers s)"
  shows "wr_ok (handleDisconnected c a s) \<and> names (handleDisconnected c a s) = names s"
proof (cases "map_get (wc_instanceInfos (wr_controllers s ! c)) (wa_instanceId a)")
  case None
  with ok show ?thesis by (simp add: handleDisconnected_def)
next
  case (Some info)
  let ?k = "ii_messageBus info" and ?conns = "view_controllers s" and ?live = "view_instances s"
  let ?s1 = "s\<lparr>wr_disposed := wr_disposed s @ fst (cd_dispose (ii_pluginCallbackDisposables info))\<rparr>"
  let ?live' = "?live[?k := (fst (?live ! ?k), [])]"
  let ?b = "fold (\<lambda>(e, i). mb_unsubscribe e i) (snd (?live ! ?k)) (wr_bus s)"
  let ?conns' = "?conns[c := (fst (?conns ! c), map_delete (wa_instanceId a) (snd (?conns ! c)))]"
  have ik: "map_get (snd (?conns ! c)) (wa_instanceId a) = Some ?k"
    using Some c by (simp add: controller_view map_get_infos)
  have t: "tracked ?live ?conns" and sub: "subscribed (wr_bus s) ?live" using ok by (simp_all add: wr_ok_def)
  have k: "?k < length ?live" using trackedD(2) [OF t] c map_of_SomeD [OF ik] by simp
  let ?s2 = "ib_dispose ?k ?s1"
  have s2: "wr_bus ?s2 = ?b" "view_instances ?s2 = ?live'" "wr_controllers ?s2 = wr_controllers s"
    using ib_dispose_view [of ?k ?s1] k by (simp_all add: view_disposed)
  let ?s3 = "handleDisconnected c a s"
  have eq: "?s3 = upd_controller c (\<lambda>w. w\<lparr>wc_instanceInfos := map_delete (wa_instanceId a) (wc_instanceInfos w)\<rparr>) ?s2"
    by (simp add: handleDisconnected_def Some)
  have s3: "wr_bus ?s3 = ?b" "view_instances ?s3 = ?live'" "view_controllers ?s3 = ?conns'" "view_own ?s3 = view_own s"
    "names ?s3 = names s"
    unfolding eq using c s2
    by (simp_all add: upd_controller_def view_instances_def view_controllers_def view_own_def names_def map_update delete_infos
        map_self_update)
  have "subscribed ?b ?live'" using sub k by (rule subscribed_dispose)
  moreover have "tracked ?live' ?conns'" by (rule tracked_dispose [OF t _ ik]) (simp add: c)
  moreover have "map fst ?conns' = map fst ?conns" using c by (intro map_update_same) simp_all
  moreover have "listeners_ok ?b (map fst ?conns)" using ok by (intro listeners_ok_unsubscribed) (simp add: wr_ok_def)
  moreover have "\<forall>subs \<in> set (view_own s). fst ` set subs \<subseteq> set own_events" using ok by (simp add: wr_ok_def)
  ultimately have "wr_ok ?s3" unfolding wr_ok_def s3 by metis
  with s3(5) show ?thesis by (intro conjI)
qed

text \<open>Disposing of all the instances of a controller.\<close>

lemma dispose_all:
  assumes "subscribed (wr_bus s) (view_instances s)" and "tracked (view_instances s) conns" and "c < length conns"
    and "snd (conns ! c) = map (\<lambda>(i, info). (i, ii_messageBus info)) infos"
  shows "subscribed (wr_bus (fold (\<lambda>(i, info). ib_dispose (ii_messageBus info)) infos s))
      (view_instances (fold (\<lambda>(i, info). ib_dispose (ii_messageBus info)) infos s)) \<and>
    tracked (view_instances (fold (\<lambda>(i, info). ib_dispose (ii_messageBus info)) infos s)) (conns[c := (fst (conns ! c), [])]) \<and>
    wr_controllers (fold (\<lambda>(i, info). ib_dispose (ii_messageBus info)) infos s) = wr_controllers s \<and>
    (listeners_ok (wr_bus s) ns \<longrightarrow> listeners_ok (wr_bus (fold (\<lambda>(i, info). ib_dispose (ii_messageBus info)) infos s)) ns)"
  using assms
proof (induction infos arbitrary: s conns)
  case Nil
  then show ?case by (metis fold_simps(1) list.simps(8) list_update_id prod.collapse)
next
  case (Cons p infos)
  obtain i info where p: "p = (i, info)" by (cases p)
  let ?k = "ii_messageBus info" and ?conns = "conns[c := (fst (conns ! c), map (\<lambda>(i, info). (i, ii_messageBus info)) infos)]"
  have entries: "snd (conns ! c) = (i, ?k) # map (\<lambda>(i, info). (i, ii_messageBus info)) infos" using Cons.prems(4) p by simp
  have wf: "map_wf (snd (conns ! c))" using Cons.prems(2,3) by (rule trackedD(1))
  have k: "?k < length (view_instances s)" by (rule trackedD(2) [OF Cons.prems(2,3), of i]) (simp add: entries)
  have view: "wr_bus (ib_dispose ?k s) = fold (\<lambda>(e, i). mb_unsubscribe e i) (snd (view_instances s ! ?k)) (wr_bus s)"
    "view_instances (ib_dispose ?k s) = (view_instances s)[?k := (fst (view_instances s ! ?k), [])]"
    "wr_controllers (ib_dispose ?k s) = wr_controllers s"
    using ib_dispose_view [of ?k s] k by simp_all
  have rest: "map_delete i (snd (conns ! c)) = map (\<lambda>(i, info). (i, ii_messageBus info)) infos"
  proof -
    have "i \<notin> set (map fst (map (\<lambda>(i, info). (i, ii_messageBus info)) infos))"
      using wf unfolding entries map_wf_def list.map(2) fst_conv distinct.simps by (rule conjunct1)
    then show ?thesis unfolding entries by (simp only: delete_simps(2) fst_conv simp_thms if_True delete_id set_map)
  qed
  have "tracked (view_instances (ib_dispose ?k s)) ?conns"
    using tracked_dispose [OF Cons.prems(2,3), of i ?k] unfolding view rest by (simp add: entries)
  moreover have "subscribed (wr_bus (ib_dispose ?k s)) (view_instances (ib_dispose ?k s))"
    unfolding view by (rule subscribed_dispose [OF Cons.prems(1) k])
  moreover have "listeners_ok (wr_bus s) ns \<longrightarrow> listeners_ok (wr_bus (ib_dispose ?k s)) ns"
    unfolding view using listeners_ok_unsubscribed by blast
  ultimately show ?case using Cons.IH [of "ib_dispose ?k s" ?conns] Cons.prems(3) p view(3) by simp
qed

lemma ok_disposed:
  assumes ok: "wr_ok s" and c: "c < length (wr_controllers s)"
  shows "wr_ok (wc_dispose c s)"
proof -
  let ?w = "wr_controllers s ! c" and ?conns = "view_controllers s"
  let ?b = "fold (\<lambda>(e, i). mb_unsubscribe e i) (wc_compositeDisposable ?w) (wr_bus s)"
  let ?s1 = "upd_controller c (\<lambda>w. w\<lparr>wc_compositeDisposable := []\<rparr>) (wr_unsubscribe_all (wc_compositeDisposable ?w) s)"
  let ?s2 = "fold (\<lambda>(i, info). ib_dispose (ii_messageBus info)) (wc_instanceInfos ?w) ?s1"
  let ?s3 = "wc_dispose c s"
  have s1: "wr_bus ?s1 = ?b" "view_instances ?s1 = view_instances s" "view_controllers ?s1 = ?conns" "view_own ?s1 = (view_own s)[c := []]"
    using c map_self_update [of "\<lambda>w. (wc_webviewId w, map (\<lambda>(i, info). (i, ii_messageBus info)) (wc_instanceInfos w))"]
    by (simp_all add: upd_controller_def wr_unsubscribe_all_def view_instances_def view_controllers_def view_own_def map_update)
  have ids: "bus_ok (wr_bus s)" and sub: "subscribed (wr_bus s) (view_instances s)" using ok by (simp_all add: wr_ok_def subscribed_def)
  have own: "\<forall>subs \<in> set (view_own s). fst ` set subs \<subseteq> set own_events" using ok by (simp add: wr_ok_def)
  have events: "fst ` set (wc_compositeDisposable ?w) \<subseteq> set own_events" using own c by (simp add: view_own_def)
  have "subscribers ?b e = subscribers (wr_bus s) e" if e: "e \<in> set instance_events" for e
  proof -
    have "(e, i) \<notin> set (wc_compositeDisposable ?w)" for i
      using events e by (force simp: own_events_def instance_events_def)
    then show ?thesis by (simp add: fold_unsubscribe(1))
  qed
  with sub ids have sub1: "subscribed (wr_bus ?s1) (view_instances ?s1)"
    unfolding s1 by (intro subscribed_bus [OF sub] fold_unsubscribe(2))
  have t1: "tracked (view_instances ?s1) ?conns" unfolding s1 using ok by (simp add: wr_ok_def)
  have infos: "snd (?conns ! c) = map (\<lambda>(i, info). (i, ii_messageBus info)) (wc_instanceInfos ?w)" using c by (simp add: controller_view)
  have l1: "listeners_ok (wr_bus ?s1) (map fst ?conns)"
    unfolding s1 using ok by (intro listeners_ok_unsubscribed) (simp add: wr_ok_def)
  note all = dispose_all [OF sub1 t1 _ infos, of "map fst ?conns"]
  let ?conns' = "?conns[c := (fst (?conns ! c), [])]"
  have s2: "subscribed (wr_bus ?s2) (view_instances ?s2)" "tracked (view_instances ?s2) ?conns'"
    "wr_controllers ?s2 = wr_controllers ?s1" "listeners_ok (wr_bus ?s2) (map fst ?conns)"
    using all l1 c by simp_all
  have eq: "?s3 = upd_controller c (\<lambda>w. w\<lparr>wc_instanceInfos := []\<rparr>) ?s2" by (simp add: wc_dispose_def Let_def)
  have "view_controllers ?s2 = ?conns" "view_own ?s2 = (view_own s)[c := []]"
    using s1(3,4) s2(3) by (simp_all add: view_controllers_def view_own_def)
  then have s3: "wr_bus ?s3 = wr_bus ?s2" "view_instances ?s3 = view_instances ?s2" "view_controllers ?s3 = ?conns'"
    "view_own ?s3 = (view_own s)[c := []]"
    unfolding eq using c s2(3)
    by (simp_all add: upd_controller_def view_instances_def view_controllers_def view_own_def map_update map_update_same
        wr_unsubscribe_all_def)
  have "map fst ?conns' = map fst ?conns" using c by (intro map_update_same) simp_all
  moreover have "\<forall>subs \<in> set ((view_own s)[c := []]). fst ` set subs \<subseteq> set own_events"
    using own set_update_subset_insert [of "view_own s" c "[]"] by fastforce
  ultimately show ?thesis using s2 unfolding wr_ok_def s3 by metis
qed

text \<open>Delivery keeps the invariant and the controllers.\<close>

definition listener_fits :: "runtime_event \<Rightarrow> address \<Rightarrow> string list \<Rightarrow> runtime_listener \<Rightarrow> bool" where
  "listener_fits e a ns l =
     (case l of
        On_connect c \<Rightarrow> c < length ns \<and> wa_webviewId a = ns ! c
      | On_disconnect c \<Rightarrow> c < length ns
      | _ \<Rightarrow> True)"

lemma published_fit:
  assumes "wr_ok s" and "e \<in> set (instance_events @ own_events)" and "l \<in> set (published e m s)"
  shows "listener_fits e (wm_address m) (names s) l"
proof -
  obtain x where x: "x \<in> set (subscribers (wr_bus s) e)" "l = sb_listener x"
    "case sb_filter x of None \<Rightarrow> True | Some f \<Rightarrow> filter_holds s f m"
    using assms(3) by (auto simp: published_def mb_publish_def)
  have l: "listeners_ok (wr_bus s) (names s)" using assms(1) by (simp add: wr_ok_def view_names names_def)
  have sub: "subscribed (wr_bus s) (view_instances s)" using assms(1) by (simp add: wr_ok_def)
  show ?thesis
  proof (cases "e \<in> set instance_events")
    case True
    with sub x(1) obtain k where "sb_listener x = instance_listener e k" unfolding subscribed_def by blast
    with x(2) show ?thesis by (simp add: listener_fits_def instance_listener_def)
  next
    case False
    with assms(2) have "e \<in> set own_events" by simp
    then consider "e = System_notification" | "e = Webview_connect" | "e = Webview_disconnect" by (auto simp: own_events_def)
    then show ?thesis
      using l x by cases (auto simp: listeners_ok_def listener_fits_def filter_holds_def)
  qed
qed

lemma run_listener_ok:
  assumes "wr_ok s" and "listener_fits e (wm_address m) (names s) l"
  shows "wr_ok (run_listener E e m l s) \<and> names (run_listener E e m l s) = names s"
proof -
  have same: "wr_ok s' \<and> names s' = names s" if "same_view s s'" for s'
    using that assms(1) same_view_ok same_view_names by blast
  show ?thesis
  proof (cases l)
    case (On_connect c)
    with assms ok_connected [of s c "wm_address m" E] show ?thesis
      by (simp add: run_listener_def listener_fits_def names_def)
  next
    case (On_disconnect c)
    with assms ok_disconnected [of s c "wm_address m"] show ?thesis
      by (simp add: run_listener_def listener_fits_def names_def)
  next
    case (To_transport i)
    have "same_view s (to_transport e m l s)"
      by (simp add: To_transport to_transport_def same_view_def view_instances_def view_controllers_def view_own_def)
    from same [OF this] To_transport show ?thesis by (simp add: run_listener_def)
  next
    case (On_system c)
    show ?thesis unfolding run_listener_def On_system by (simp only: runtime_listener.case) (rule same [OF broadcast_same])
  next
    case (On_notification k)
    show ?thesis unfolding run_listener_def On_notification by (simp only: runtime_listener.case) (rule same [OF notification_same])
  next
    case (On_request k)
    show ?thesis unfolding run_listener_def On_request by (simp only: runtime_listener.case) (rule same [OF request_same])
  next
    case (On_response k)
    show ?thesis unfolding run_listener_def On_response by (simp only: runtime_listener.case) (rule same [OF response_same])
  qed
qed

lemma publish_ok:
  assumes "wr_ok s" and "e \<in> set (instance_events @ own_events)"
  shows "wr_ok (wr_publish E e m s)"
proof -
  have "wr_ok (wr_publish E e m s) \<and> names (wr_publish E e m s) = names s"
    unfolding wr_publish_def
  proof (rule fold_invariant [where Q = "listener_fits e (wm_address m) (names s)" and P = "\<lambda>s'. wr_ok s' \<and> names s' = names s"])
    show "listener_fits e (wm_address m) (names s) l" if "l \<in> set (published e m s)" for l
      by (rule published_fit [OF assms that])
    show "wr_ok s \<and> names s = names s" using assms(1) by simp
    show "wr_ok (run_listener E e m l s') \<and> names (run_listener E e m l s') = names s"
      if "listener_fits e (wm_address m) (names s) l" "wr_ok s' \<and> names s' = names s" for l s'
      using run_listener_ok [of s' e m l E] that by simp
  qed
  then show ?thesis by blast
qed

lemma publish_events_ok:
  assumes "wr_ok s"
  shows "wr_ok (wr_publish E Webview_connect m s)" "wr_ok (wr_publish E Webview_disconnect m s)"
    "wr_ok (wr_publish E Webview_notification m s)" "wr_ok (wr_publish E Webview_request m s)"
    "wr_ok (wr_publish E Webview_response m s)" "wr_ok (wr_publish E System_notification m s)"
  by (rule publish_ok [OF assms]; simp add: instance_events_def own_events_def)+

lemma transport_ok:
  assumes "wr_ok s"
  shows "wr_ok (transport_emit E i ev s)"
proof -
  have managed: "wr_ok (set_managed i f s)" for f
    unfolding set_managed_def by (rule same_view_ok [OF requests_same(4), THEN iffD2, OF assms])
  show ?thesis
    using assms
    by (cases ev) (simp_all add: transport_emit_def onInstanceCreated_def onInstanceDestroyed_def managed publish_events_ok)
qed

lemma reachable_ok: "wr_reach E s \<Longrightarrow> wr_ok s"
proof (induction rule: wr_reach.induct)
  case (wr_mediator_disposed s i)
  then show ?case unfolding md_dispose_def by (simp only: same_view_ok [OF requests_same(4)])
next
  case (wr_connected s c handler)
  then show ?case by (simp only: same_view_ok [OF on_connected_same])
next
  case (wr_system s m)
  then show ?case by (intro publish_events_ok)
next
  case (wr_register s k r)
  then show ?case by (simp only: same_view_ok [OF register_same])
next
  case (wr_notify s k type payload)
  then show ?case by (simp only: same_view_ok [OF notify_same])
next
  case (wr_request s k requestId type payload)
  then show ?case by (simp only: same_view_ok [OF send_request_same])
next
  case (wr_timeout s r k requestId)
  then show ?case by (simp only: same_view_ok [OF timeout_same])
qed (simp_all add: ok_start ok_mediator ok_controller ok_disposed transport_ok)

subsection \<open>Properties\<close>

text \<open>The instances that receive the messages of an address: those of the controllers of its web view.\<close>

definition recipients :: "address \<Rightarrow> ('h, 'p, 'c, 'd) wruntime \<Rightarrow> nat set" where
  "recipients a s =
     {k. \<exists>c < length (wr_controllers s). wc_webviewId (wr_controllers s ! c) = wa_webviewId a \<and>
        map_option ii_messageBus (map_get (wc_instanceInfos (wr_controllers s ! c)) (wa_instanceId a)) = Some k}"

lemma live_recipients:
  assumes "wr_ok s"
  shows "{k. k < length (view_instances s) \<and> snd (view_instances s ! k) \<noteq> [] \<and> fst (view_instances s ! k) = a} = recipients a s"
    (is "?live = _")
proof -
  have t: "tracked (view_instances s) (view_controllers s)" using assms by (simp add: wr_ok_def)
  have info: "map_option ii_messageBus (map_get (wc_instanceInfos (wr_controllers s ! c)) i) = Some k \<longleftrightarrow>
      (i, k) \<in> set (snd (view_controllers s ! c))" if "c < length (wr_controllers s)" for c i k
  proof -
    have "map_wf (snd (view_controllers s ! c))" using trackedD(1) [OF t] that by simp
    then have "map_get (snd (view_controllers s ! c)) i = Some k \<longleftrightarrow> (i, k) \<in> set (snd (view_controllers s ! c))"
      unfolding map_wf_def by (rule map_of_eq_Some_iff)
    then show ?thesis using that by (simp add: controller_view map_get_infos)
  qed
  show ?thesis
  proof (intro equalityI subsetI)
    fix k
    assume "k \<in> ?live"
    then have k: "k < length (view_instances s)" "snd (view_instances s ! k) \<noteq> []" "fst (view_instances s ! k) = a" by simp_all
    from k(1,2) obtain c i where c: "c < length (view_controllers s)" "(i, k) \<in> set (snd (view_controllers s ! c))"
      by (rule tracked_owner [OF t])
    from trackedD(4) [OF t c] k(3) c(1) have "wa_webviewId a = wc_webviewId (wr_controllers s ! c)" "wa_instanceId a = i"
      by (auto simp: controller_view)
    with c info [of c i k] show "k \<in> recipients a s" unfolding recipients_def by (intro CollectI exI [of _ c]) simp
  next
    fix k
    assume "k \<in> recipients a s"
    then obtain c where c: "c < length (wr_controllers s)" "wc_webviewId (wr_controllers s ! c) = wa_webviewId a"
      "(wa_instanceId a, k) \<in> set (snd (view_controllers s ! c))" unfolding recipients_def using info by blast
    from trackedD(2-4) [OF t _ c(3)] c(1,2) show "k \<in> ?live" by (simp add: controller_view)
  qed
qed

text \<open>C9: In every reachable state of the runtime, a notification, request or response of a web view is delivered
  exactly once to the bus of every instance with the address of the message that a controller of the web view tracks,
  and to nothing else: no live instance is missed and none that was disposed of is called.\<close>

theorem instances_receive_once:
  assumes "wr_reach E s" and "e \<in> {Webview_notification, Webview_request, Webview_response}"
  shows "distinct (published e m s) \<and> set (published e m s) = instance_listener e ` recipients (wm_address m) s"
  using published_instances [of s e m] reachable_ok [OF assms(1)] assms(2) live_recipients [of s "wm_address m"]
  by (simp add: wr_ok_def instance_events_def)

subsection \<open>Requests\<close>

definition requests_ok :: "('h, 'p, 'c, 'd) wruntime \<Rightarrow> bool" where
  "requests_ok s \<longleftrightarrow> (\<forall>r < length (wr_requests s). fst (wr_requests s ! r) = Request_open \<longleftrightarrow> snd (wr_requests s ! r))"

lemma requests_kept: "wr_requests s' = wr_requests s \<Longrightarrow> requests_ok s \<Longrightarrow> requests_ok s'"
  by (simp add: requests_ok_def)

lemma fold_requests: "(\<And>x s. wr_requests (f x s) = wr_requests s) \<Longrightarrow> wr_requests (fold f xs s) = wr_requests s"
  by (induction xs arbitrary: s) simp_all

lemma requests_publish [simp]: "wr_requests (publish_to_transports e m s) = wr_requests s"
  unfolding publish_to_transports_def by (rule fold_requests) (simp add: to_transport_def split: runtime_listener.split)

lemma requests_simps [simp]:
  "wr_requests (upd_instance k f s) = wr_requests s" "wr_requests (upd_controller c g s) = wr_requests s"
  "wr_requests (wr_unsubscribe_all subs s) = wr_requests s" "wr_requests (ib_sendNotification k type payload s) = wr_requests s"
  "wr_requests (set_managed i h s) = wr_requests s" "wr_requests (run_registration k r s) = wr_requests s"
  by (simp_all add: upd_instance_def upd_controller_def wr_unsubscribe_all_def ib_sendNotification_def set_managed_def
      run_registration_def ib_onNotification_def ib_onRequest_def split: registration.split)

lemma requests_instances [simp]:
  "wr_requests (snd (ib_create a s)) = wr_requests s" "wr_requests (ib_dispose k s) = wr_requests s"
  "wr_requests (snd (wc_create w s)) = wr_requests s" "wr_requests (snd (md_create s)) = wr_requests s"
  by (simp_all add: ib_create_def ib_dispose_def wc_create_def md_create_def Let_def split_beta subscribe_view)

lemma requests_handler [simp]: "wr_requests (run_handler E c i handler s) = wr_requests s"
proof (cases "map_get (wc_instanceInfos (wr_controllers s ! c)) i")
  case (Some info)
  obtain rs d where r: "we_connected E handler (ib_address (wr_instances s ! ii_messageBus info)) = (rs, d)" by fastforce
  have "wr_requests (fold (run_registration (ii_messageBus info)) rs s) = wr_requests s" by (rule fold_requests) simp
  with Some r show ?thesis by (cases d) (simp_all add: run_handler_def)
qed (simp add: run_handler_def)

lemma requests_controllers [simp]:
  "wr_requests (handleConnected E c a s) = wr_requests s" "wr_requests (handleDisconnected c a s) = wr_requests s"
  "wr_requests (wc_broadcast c type payload s) = wr_requests s" "wr_requests (wc_dispose c s) = wr_requests s"
  "wr_requests (wc_onInstanceConnected E c handler s) = wr_requests s"
  by (simp_all add: handleConnected_def handleDisconnected_def wc_broadcast_def wc_dispose_def wc_onInstanceConnected_def
      Let_def split_beta fold_requests split: option.split)

lemma requests_settle:
  assumes "requests_ok s" and "v \<noteq> Request_open"
  shows "requests_ok (settle r v s)"
  unfolding requests_ok_def
proof (intro allI impI)
  fix j
  assume "j < length (wr_requests (settle r v s))"
  with assms show "(fst (wr_requests (settle r v s) ! j) = Request_open) = snd (wr_requests (settle r v s) ! j)"
    by (cases "j = r") (simp_all add: requests_ok_def settle_def)
qed

lemma requests_listener:
  assumes "requests_ok s"
  shows "requests_ok (run_listener E e m l s)"
proof (cases l)
  case (On_response k)
  have "requests_ok (handle_response k m s)"
    unfolding handle_response_def
    by (auto intro!: requests_kept [OF requests_simps(1)] requests_settle assms split: option.split)
  with On_response show ?thesis by (simp add: run_listener_def)
next
  case (On_notification k)
  with assms show ?thesis by (auto simp: run_listener_def handle_notification_def requests_ok_def split: option.split)
next
  case (On_request k)
  have "wr_requests (handle_request E k m s) = wr_requests s" by (simp add: handle_request_def Let_def split: option.split)
  with assms On_request show ?thesis by (simp add: run_listener_def requests_ok_def)
qed (use assms in \<open>simp_all add: run_listener_def to_transport_def requests_ok_def\<close>)

lemma requests_delivered: "requests_ok s \<Longrightarrow> requests_ok (wr_publish E e m s)"
  unfolding wr_publish_def by (rule fold_invariant [where Q = "\<lambda>_. True"]) (simp_all add: requests_listener)

lemma requests_transport: "requests_ok s \<Longrightarrow> requests_ok (transport_emit E i ev s)"
  unfolding transport_emit_def onInstanceCreated_def onInstanceDestroyed_def
  by (auto intro: requests_delivered requests_kept [OF requests_simps(5)] split: transport_event.split)

lemma reachable_requests: "wr_reach E s \<Longrightarrow> requests_ok s"
proof (induction rule: wr_reach.induct)
  case wr_start
  show ?case by (simp add: requests_ok_def wr_new_def)
next
  case (wr_mediator_disposed s i)
  then show ?case by (simp add: requests_ok_def md_dispose_def)
next
  case (wr_request s k requestId type payload)
  then show ?case by (auto simp: requests_ok_def ib_sendRequest_def Let_def nth_append less_Suc_eq)
next
  case (wr_timeout s r k requestId)
  then show ?case unfolding request_timeout_def by (intro requests_settle requests_kept [OF requests_simps(1)]) simp_all
qed (simp_all add: requests_transport requests_delivered, (erule requests_kept [rotated], simp)+)

text \<open>In every reachable state a request to a web view is unanswered exactly as long as its timer runs, and when
  the timer of one fires, the request is rejected with ''Request timed out'' if it was unanswered: no request waits for
  ever.\<close>

theorem requests_settle_by_timeout:
  assumes "wr_reach E s" and "r < length (wr_requests s)"
  shows "(fst (wr_requests s ! r) = Request_open) = snd (wr_requests s ! r) \<and>
    wr_requests (request_timeout k requestId r s) ! r =
      (if snd (wr_requests s ! r) then Request_rejected ''Request timed out'' else fst (wr_requests s ! r), False)"
  using reachable_requests [OF assms(1)] assms(2) by (auto simp: requests_ok_def request_timeout_def settle_def)

subsection \<open>Witnesses\<close>

definition chat_address :: address where
  "chat_address = \<lparr>wa_webviewId = ''chat'', wa_instanceId = ''i1''\<rparr>"

definition ping_env :: "(nat, nat, nat, nat) wenv" where
  "ping_env = \<lparr>we_connected = (\<lambda>c a. ([Register_request ''ping'' 0], Some 5)), we_request = (\<lambda>h p. Inr p),
               we_message = (\<lambda>e. [])\<rparr>"

definition ping_message :: "nat runtime_message" where
  "ping_message = \<lparr>wm_address = chat_address, wm_type = ''ping'', wm_payload = Some 1, wm_requestId = ''r'', wm_success = None,
                   wm_reason = None\<rparr>"

definition chat_connected :: "(nat, nat, nat, nat) wruntime" where
  "chat_connected = transport_emit ping_env 0 (Instance_created chat_address)
     (wc_onInstanceConnected ping_env 0 7 (snd (wc_create ''chat'' (snd (md_create wr_new)))))"

lemma chat_connected_reach: "wr_reach ping_env chat_connected"
  unfolding chat_connected_def
  by (intro wr_emit wr_connected wr_controller wr_mediator wr_start) code_simp+

theorem instances_receive_once_witness:
  "distinct (published Webview_request ping_message chat_connected) \<and>
   set (published Webview_request ping_message chat_connected) =
     instance_listener Webview_request ` recipients chat_address chat_connected \<and>
   published Webview_request ping_message chat_connected = [On_request 0]"
proof -
  have "published Webview_request ping_message chat_connected = [On_request 0]" by code_simp
  moreover have "wm_address ping_message = chat_address" by (simp add: ping_message_def)
  ultimately show ?thesis
    using instances_receive_once [OF chat_connected_reach, of Webview_request ping_message] by simp
qed

theorem requests_settle_by_timeout_witness:
  "wr_requests (request_timeout 0 ''r'' 0 (snd (ib_sendRequest 0 ''r'' ''ask'' None chat_connected))) ! 0 =
    (Request_rejected ''Request timed out'', False)"
proof -
  let ?s = "snd (ib_sendRequest 0 ''r'' ''ask'' None chat_connected)"
  have "0 < length (wr_requests ?s)" "snd (wr_requests ?s ! 0)" by code_simp+
  with requests_settle_by_timeout [OF wr_request [OF chat_connected_reach], of 0 0 "''r''" "''ask''" None 0 "''r''"]
  show ?thesis by simp
qed

text \<open>Disposing of a controller leaves what its plugin returned for the instances undisposed.\<close>

lemma disposed_fold: "wr_disposed (fold (\<lambda>(i, info). ib_dispose (ii_messageBus info)) infos s) = wr_disposed s"
  by (induction infos arbitrary: s) (auto simp: ib_dispose_def upd_instance_def wr_unsubscribe_all_def)

theorem controller_dispose_leaks: "wr_disposed (wc_dispose c s) = wr_disposed s"
  by (simp add: wc_dispose_def Let_def upd_controller_def wr_unsubscribe_all_def disposed_fold)

text \<open>A mediator that was disposed of still sends the messages of plugins to its transport.\<close>

theorem disposed_mediator_sends:
  "wr_sent (ib_sendNotification 0 ''hello'' None (md_dispose 0 chat_connected)) =
    [(0, Plugin_notification, \<lparr>wm_address = chat_address, wm_type = ''hello'', wm_payload = None, wm_requestId = [],
       wm_success = None, wm_reason = None\<rparr>)]"
  by code_simp

end
