(* ===== verification/Webview_Plugins.thy ===== *)
theory Webview_Plugins
  imports Webview_Runtime
begin

text \<open>
  Transports and plugins of the web view runtime (\<open>packages/lib_webview/src/services/transport\<close> and \<open>plugin\<close>): the
  service that gives every transport a mediator, and the manager that gives every plugin a controller.

  Transports are numbers.  The setup of a plugin is part of the environment: the handlers for new instances that it
  adds to its connection, and what it returns or throws after that.
\<close>

subsection \<open>Transports\<close>

record ('h, 'p, 'c, 'd) transport_service =
  ts_runtime :: "('h, 'p, 'c, 'd) wruntime"
  ts_managedTransports :: "(nat, nat) jsmap"

text \<open>The answer tells whether the disposable that is returned does anything.\<close>

definition registerTransport ::
  "nat \<Rightarrow> ('h, 'p, 'c, 'd) transport_service \<Rightarrow> bool \<times> ('h, 'p, 'c, 'd) transport_service" where
  "registerTransport transport t =
     (if map_get (ts_managedTransports t) transport \<noteq> None then (False, t)
      else
        let (i, r) = md_create (ts_runtime t)
        in (True, t\<lparr>ts_runtime := r, ts_managedTransports := map_set transport i (ts_managedTransports t)\<rparr>))"

definition disposeTransport :: "nat \<Rightarrow> ('h, 'p, 'c, 'd) transport_service \<Rightarrow> ('h, 'p, 'c, 'd) transport_service" where
  "disposeTransport transport t =
     (case map_get (ts_managedTransports t) transport of
        None \<Rightarrow> t
      | Some i \<Rightarrow> t\<lparr>ts_runtime := md_dispose i (ts_runtime t),
                     ts_managedTransports := map_delete transport (ts_managedTransports t)\<rparr>)"

definition ts_dispose :: "('h, 'p, 'c, 'd) transport_service \<Rightarrow> ('h, 'p, 'c, 'd) transport_service" where
  "ts_dispose t = t\<lparr>ts_runtime := fold (\<lambda>(transport, i). md_dispose i) (ts_managedTransports t) (ts_runtime t),
                     ts_managedTransports := []\<rparr>"

subsection \<open>Plugins\<close>

record ('c, 'd) plugin_env =
  pe_setup :: "string \<Rightarrow> 'c list \<times> (js_error + 'd option)"

record ('h, 'p, 'c, 'd) plugin_manager =
  pm_runtime :: "('h, 'p, 'c, 'd) wruntime"
  pm_registeredPlugins :: "(string, 'd option) jsmap"
  pm_disposed :: "'d list"

definition PluginRegistrationError :: "string \<Rightarrow> string \<Rightarrow> string" where
  "PluginRegistrationError pluginId message = ''Failed to register plugin '' @ pluginId @ '': '' @ message"

definition getConnection :: "string \<Rightarrow> ('h, 'p, 'c, 'd) wruntime \<Rightarrow> nat \<times> ('h, 'p, 'c, 'd) wruntime" where
  "getConnection webviewId r = wc_create webviewId r"

definition setupPlugin ::
  "('h, 'p, 'c, 'd) wenv \<Rightarrow> ('c, 'd) plugin_env \<Rightarrow> string \<Rightarrow> nat \<Rightarrow> ('h, 'p, 'c, 'd) wruntime \<Rightarrow>
   (js_error + 'd option) \<times> ('h, 'p, 'c, 'd) wruntime" where
  "setupPlugin E F pluginId c r = (snd (pe_setup F pluginId), fold (wc_onInstanceConnected E c) (fst (pe_setup F pluginId)) r)"

definition registerPlugin ::
  "('h, 'p, 'c, 'd) wenv \<Rightarrow> ('c, 'd) plugin_env \<Rightarrow> string \<Rightarrow> ('h, 'p, 'c, 'd) plugin_manager \<Rightarrow>
   string option \<times> ('h, 'p, 'c, 'd) plugin_manager" where
  "registerPlugin E F pluginId m =
     (if map_get (pm_registeredPlugins m) pluginId \<noteq> None
      then (Some (PluginRegistrationError pluginId ''Plugin with this ID is already registered''), m)
      else
        let (c, r) = getConnection pluginId (pm_runtime m);
            (result, r') = setupPlugin E F pluginId c r
        in (case result of
              Inl e \<Rightarrow> (Some (PluginRegistrationError pluginId ''Plugin setup failed''), m\<lparr>pm_runtime := r'\<rparr>)
            | Inr d \<Rightarrow> (None, m\<lparr>pm_runtime := r', pm_registeredPlugins := map_set pluginId d (pm_registeredPlugins m)\<rparr>)))"

definition unregisterPlugin :: "string \<Rightarrow> ('h, 'p, 'c, 'd) plugin_manager \<Rightarrow> ('h, 'p, 'c, 'd) plugin_manager" where
  "unregisterPlugin pluginId m =
     (case map_get (pm_registeredPlugins m) pluginId of
        None \<Rightarrow> m
      | Some registration \<Rightarrow>
          m\<lparr>pm_disposed := pm_disposed m @ (case registration of None \<Rightarrow> [] | Some d \<Rightarrow> [d]),
            pm_registeredPlugins := map_delete pluginId (pm_registeredPlugins m)\<rparr>)"

definition pm_dispose :: "('h, 'p, 'c, 'd) plugin_manager \<Rightarrow> ('h, 'p, 'c, 'd) plugin_manager" where
  "pm_dispose m =
     m\<lparr>pm_disposed := pm_disposed m @ concat (map (\<lambda>(i, r). case r of None \<Rightarrow> [] | Some d \<Rightarrow> [d]) (pm_registeredPlugins m)),
       pm_registeredPlugins := []\<rparr>"

subsection \<open>Both keep the runtime in reachable states\<close>

lemma controllers_connected [simp]:
  "length (wr_controllers (wc_onInstanceConnected E c handler s)) = length (wr_controllers s)"
  using arg_cong [OF same_view_names [OF on_connected_same [of s E c handler]], of length] by (simp add: names_def)

lemma connected_reach:
  "wr_reach E s \<Longrightarrow> c < length (wr_controllers s) \<Longrightarrow> wr_reach E (fold (wc_onInstanceConnected E c) handlers s)"
  by (induction handlers arbitrary: s) (simp_all add: wr_connected)

lemma created_controller: "fst (wc_create w s) < length (wr_controllers (snd (wc_create w s)))"
  by (simp add: wc_create_def Let_def split_beta subscribe_view)

lemma register_reach:
  assumes "wr_reach E (pm_runtime m)"
  shows "wr_reach E (pm_runtime (snd (registerPlugin E F pluginId m)))"
proof (cases "map_get (pm_registeredPlugins m) pluginId")
  case None
  have "wr_reach E (fold (wc_onInstanceConnected E (fst (wc_create pluginId (pm_runtime m)))) (fst (pe_setup F pluginId))
      (snd (wc_create pluginId (pm_runtime m))))"
    by (intro connected_reach wr_controller assms created_controller)
  then show ?thesis
    using None by (simp add: registerPlugin_def getConnection_def setupPlugin_def split_beta Let_def split: sum.split)
qed (simp add: registerPlugin_def assms)

lemma unregister_reach: "wr_reach E (pm_runtime m) \<Longrightarrow> wr_reach E (pm_runtime (unregisterPlugin pluginId m))"
  by (simp add: unregisterPlugin_def split: option.split)

lemma transport_reach:
  "wr_reach E (ts_runtime t) \<Longrightarrow> wr_reach E (ts_runtime (snd (registerTransport transport t)))"
  "wr_reach E (ts_runtime t) \<Longrightarrow> wr_reach E (ts_runtime (disposeTransport transport t))"
  by (simp_all add: registerTransport_def disposeTransport_def split_beta wr_mediator wr_mediator_disposed Let_def split: option.split)

lemma dispose_all_reach:
  "wr_reach E s \<Longrightarrow> wr_reach E (fold (\<lambda>(transport, i). md_dispose i) ts s)"
  by (induction ts arbitrary: s) (auto simp: wr_mediator_disposed)

lemma ts_dispose_reach: "wr_reach E (ts_runtime t) \<Longrightarrow> wr_reach E (ts_runtime (ts_dispose t))"
  by (simp add: ts_dispose_def dispose_all_reach)

subsection \<open>Every transport listens once\<close>

definition ts_ok :: "('h, 'p, 'c, 'd) transport_service \<Rightarrow> bool" where
  "ts_ok t \<longleftrightarrow> map_wf (ts_managedTransports t) \<and> distinct (map snd (ts_managedTransports t)) \<and>
     (\<forall>i < length (wr_mediators (ts_runtime t)).
        md_listening (wr_mediators (ts_runtime t) ! i) \<longleftrightarrow> i \<in> snd ` set (ts_managedTransports t)) \<and>
     (\<forall>i \<in> snd ` set (ts_managedTransports t). i < length (wr_mediators (ts_runtime t)))"

lemma mediators_created:
  "wr_mediators (snd (md_create s)) = wr_mediators s @ [\<lparr>md_managedInstances = [], md_listening = True\<rparr>]"
  "fst (md_create s) = length (wr_mediators s)"
  by (simp_all add: md_create_def Let_def subscribe_view)

lemma ts_ok_register:
  assumes "ts_ok t"
  shows "ts_ok (snd (registerTransport transport t))"
proof (cases "map_get (ts_managedTransports t) transport")
  case None
  then have new: "map_set transport i (ts_managedTransports t) = ts_managedTransports t @ [(transport, i)]" for i
    by (rule map_set_new)
  from None have "transport \<notin> fst ` set (ts_managedTransports t)" by (simp add: map_get_None_keys)
  with assms None show ?thesis
    by (auto simp: ts_ok_def registerTransport_def split_beta Let_def mediators_created new map_wf_def nth_append less_Suc_eq
        less_imp_neq)
qed (simp add: registerTransport_def assms)

lemma disposed_mediators:
  "length (wr_mediators (md_dispose i s)) = length (wr_mediators s)"
  "j < length (wr_mediators s) \<Longrightarrow> md_listening (wr_mediators (md_dispose i s) ! j) \<longleftrightarrow> md_listening (wr_mediators s ! j) \<and> j \<noteq> i"
  by (cases "j = i"; simp add: md_dispose_def)+

lemma ts_ok_dispose:
  assumes "ts_ok t"
  shows "ts_ok (disposeTransport transport t)"
proof (cases "map_get (ts_managedTransports t) transport")
  case (Some i)
  let ?m = "ts_managedTransports t"
  have entry: "(transport, i) \<in> set ?m" using Some by (rule map_of_SomeD)
  have wf: "distinct (map fst ?m)" "distinct (map snd ?m)" using assms by (simp_all add: ts_ok_def map_wf_def)
  have rest: "j \<in> snd ` set (map_delete transport ?m) \<longleftrightarrow> j \<in> snd ` set ?m \<and> j \<noteq> i" for j
  proof -
    have "fst x \<noteq> transport \<longleftrightarrow> snd x \<noteq> i" if "x \<in> set ?m" for x
      using that entry wf unfolding distinct_map inj_on_def by (metis fst_conv snd_conv)
    moreover have "set (map_delete transport ?m) = {x \<in> set ?m. fst x \<noteq> transport}" by (auto simp: AList.delete_eq)
    ultimately have "set (map_delete transport ?m) = {x \<in> set ?m. snd x \<noteq> i}" by blast
    then show ?thesis by auto
  qed
  have "distinct (map snd (map_delete transport ?m))" using wf(2) by (simp add: AList.delete_eq distinct_map_filter)
  moreover have "\<forall>x \<in> set (map_delete transport ?m). snd x < length (wr_mediators (ts_runtime t))"
  proof
    fix x
    assume "x \<in> set (map_delete transport ?m)"
    then have "snd x \<in> snd ` set ?m" using rest [of "snd x"] by blast
    then show "snd x < length (wr_mediators (ts_runtime t))" using assms unfolding ts_ok_def by blast
  qed
  ultimately show ?thesis
    using assms Some unfolding ts_ok_def by (simp add: disposeTransport_def disposed_mediators rest)
qed (simp add: disposeTransport_def assms)

lemma disposed_all_mediators:
  "length (wr_mediators (fold (\<lambda>(transport, i). md_dispose i) ts s)) = length (wr_mediators s) \<and>
   (\<forall>j < length (wr_mediators s). md_listening (wr_mediators (fold (\<lambda>(transport, i). md_dispose i) ts s) ! j) \<longleftrightarrow>
      md_listening (wr_mediators s ! j) \<and> j \<notin> snd ` set ts)"
proof (induction ts arbitrary: s)
  case (Cons t ts)
  obtain tr i where t: "t = (tr, i)" by (cases t)
  show ?case
    unfolding t fold_simps case_prod_conv using Cons [of "md_dispose i s"]
    by (auto simp: disposed_mediators)
qed simp

lemma ts_ok_dispose_all: "ts_ok t \<Longrightarrow> ts_ok (ts_dispose t)"
  using disposed_all_mediators [of "ts_managedTransports t" "ts_runtime t"]
  by (auto simp: ts_ok_def ts_dispose_def map_wf_def)

datatype transport_op = Register_transport nat | Dispose_transport nat | Dispose_all_transports

fun run_transport_op :: "transport_op \<Rightarrow> ('h, 'p, 'c, 'd) transport_service \<Rightarrow> ('h, 'p, 'c, 'd) transport_service" where
  "run_transport_op (Register_transport t) = snd \<circ> registerTransport t"
| "run_transport_op (Dispose_transport t) = disposeTransport t"
| "run_transport_op Dispose_all_transports = ts_dispose"

definition ts_new :: "('h, 'p, 'c, 'd) transport_service" where
  "ts_new = \<lparr>ts_runtime = wr_new, ts_managedTransports = []\<rparr>"

lemma ts_op_ok: "ts_ok t \<Longrightarrow> ts_ok (run_transport_op ev t)"
  by (cases ev) (simp_all add: ts_ok_register ts_ok_dispose ts_ok_dispose_all)

lemma ts_runs_ok: "ts_ok (fold run_transport_op ops ts_new)"
proof (rule fold_invariant [where Q = "\<lambda>_. True"])
  show "ts_ok ts_new" by (simp add: ts_ok_def ts_new_def wr_new_def map_wf_def)
qed (simp_all add: ts_op_ok)

text \<open>C35: Whatever transports are registered and disposed of in whatever order, also twice, the mediators that listen
  are those of the managed transports, one for each: no transport is heard twice and none that was disposed of is
  heard.\<close>

theorem transports_heard_once:
  "let t = fold run_transport_op ops (ts_new :: ('h, 'p, 'c, 'd) transport_service)
   in distinct (map snd (ts_managedTransports t)) \<and>
      {i. i < length (wr_mediators (ts_runtime t)) \<and> md_listening (wr_mediators (ts_runtime t) ! i)} =
        snd ` set (ts_managedTransports t)"
proof -
  let ?t = "fold run_transport_op ops (ts_new :: ('h, 'p, 'c, 'd) transport_service)"
  have ok: "ts_ok ?t" by (rule ts_runs_ok)
  then have "distinct (map snd (ts_managedTransports ?t))" by (simp add: ts_ok_def)
  moreover have "i < length (wr_mediators (ts_runtime ?t)) \<and> md_listening (wr_mediators (ts_runtime ?t) ! i) \<longleftrightarrow>
      i \<in> snd ` set (ts_managedTransports ?t)" for i
    using ok unfolding ts_ok_def by blast
  ultimately show ?thesis unfolding Let_def by blast
qed

subsection \<open>Plugins that were unregistered\<close>

definition quiet_env :: "(nat, nat, nat, nat) wenv" where
  "quiet_env = \<lparr>we_connected = (\<lambda>c a. ([Register_notification ''n'' c], None)), we_request = (\<lambda>h p. Inr p), we_message = (\<lambda>e. [])\<rparr>"

definition two_setups :: "(nat, nat) plugin_env" where
  "two_setups = \<lparr>pe_setup = (\<lambda>i. ([1], Inr (Some 3)))\<rparr>"

text \<open>The controller of a plugin outlives its registration: registered again, a plugin is told of every notification
  twice.\<close>

theorem unregistered_plugin_listens:
  "wr_handled (transport_emit quiet_env 0 (Notification_received (address_message chat_address\<lparr>wm_type := ''n''\<rparr>))
    (transport_emit quiet_env 0 (Instance_created chat_address)
      (pm_runtime (snd (registerPlugin quiet_env two_setups ''chat'' (unregisterPlugin ''chat''
        (snd (registerPlugin quiet_env two_setups ''chat''
          \<lparr>pm_runtime = snd (md_create wr_new), pm_registeredPlugins = [], pm_disposed = []\<rparr>)))))))) =
    [(1, None), (1, None)]"
  by code_simp

end
