(* ===== verification/Webview_Transport.thy ===== *)
theory Webview_Transport
  imports Webview_Plugins Streaming_Handler
begin

text \<open>
  How web views and the runtime exchange messages: the validators of messages
  (\<open>packages/lib_webview_transport/src/utils\<close>), the transports over Socket.IO and JSON-RPC
  (\<open>packages/lib_webview_transport_socket_io\<close>, \<open>packages/lib_webview_transport_json_rpc\<close>), the bus inside a web view
  (\<open>packages/lib_webview_client\<close>) and the bus between plugins and the editor (\<open>src/common/webview/extension\<close>).

  A message on the wire is a JSON value; a property whose value is undefined is not written.  Sockets are numbers.
\<close>

subsection \<open>Validators\<close>

fun js_field :: "json \<Rightarrow> string \<Rightarrow> json option" where
  "js_field (JObj kvs) k = map_of kvs k"
| "js_field _ k = None"

fun string_field :: "json \<Rightarrow> string \<Rightarrow> string option" where
  "string_field j k = (case js_field j k of Some (JStr s) \<Rightarrow> Some s | _ \<Rightarrow> None)"

declare string_field.simps [simp del]

fun js_truthy :: "json option \<Rightarrow> bool" where
  "js_truthy None = False"
| "js_truthy (Some JNull) = False"
| "js_truthy (Some (JBool b)) = b"
| "js_truthy (Some (JNum n)) = (n \<noteq> 0)"
| "js_truthy (Some (JStr s)) = (s \<noteq> [])"
| "js_truthy (Some _) = True"

definition isWebviewAddress :: "json \<Rightarrow> bool" where
  "isWebviewAddress message = (js_field message ''webviewId'' \<noteq> None \<and> js_field message ''webviewInstanceId'' \<noteq> None)"

definition isWebviewInstanceMessageEventData :: "json \<Rightarrow> bool" where
  "isWebviewInstanceMessageEventData message = (isWebviewAddress message \<and> js_field message ''type'' \<noteq> None)"

definition isSocketNotificationMessage :: "json \<Rightarrow> bool" where
  "isSocketNotificationMessage message = (string_field message ''type'' \<noteq> None)"

definition isSocketRequestMessage :: "json \<Rightarrow> bool" where
  "isSocketRequestMessage message = (string_field message ''requestId'' \<noteq> None \<and> string_field message ''type'' \<noteq> None)"

definition isSocketResponseMessage :: "json \<Rightarrow> bool" where
  "isSocketResponseMessage message = (string_field message ''requestId'' \<noteq> None)"

definition isExtensionMessage :: "json \<Rightarrow> bool" where
  "isExtensionMessage message = (js_field message ''pluginId'' \<noteq> None \<and> js_field message ''type'' \<noteq> None)"

text \<open>An object with the properties that are defined.\<close>

definition js_object :: "(string \<times> json option) list \<Rightarrow> json" where
  "js_object ps = JObj (List.map_filter (\<lambda>(k, v). map_option (Pair k) v) ps)"

subsection \<open>The transport over Socket.IO\<close>

datatype channel = Notification_channel | Request_channel | Response_channel

record socket_transport =
  so_connections :: "(string, nat) jsmap"
  so_emitted :: "(nat \<times> channel \<times> json) list"
  so_disconnected :: "nat list"

definition namespace_prefix :: string where
  "namespace_prefix = ''/webview/''"

text \<open>\<open>/^\/webview\/(.+)$/\<close>: a dot is any character but the ends of a line.\<close>

definition namespace_webviewId :: "string \<Rightarrow> string option" where
  "namespace_webviewId nsp =
     (let n = length namespace_prefix; rest = drop n nsp
      in if take n nsp = namespace_prefix \<and> rest \<noteq> [] \<and> list_all (\<lambda>c. c \<noteq> CHR 0x0A \<and> c \<noteq> CHR 0x0D) rest
         then Some rest else None)"

definition buildConnectionId :: "address \<Rightarrow> string" where
  "buildConnectionId a = wa_webviewId a @ '':'' @ wa_instanceId a"

definition so_connected ::
  "string \<Rightarrow> string \<Rightarrow> nat \<Rightarrow> socket_transport \<Rightarrow> json transport_event list \<times> socket_transport" where
  "so_connected nsp uuid socket s =
     (case namespace_webviewId nsp of
        None \<Rightarrow> ([], s)
      | Some webviewId \<Rightarrow>
          let a = \<lparr>wa_webviewId = webviewId, wa_instanceId = uuid\<rparr>
          in ([Instance_created a], s\<lparr>so_connections := map_set (buildConnectionId a) socket (so_connections s)\<rparr>))"

text \<open>The events of a socket, whose address is \<open>a\<close>.  Of a response only the identifier is validated: the other
  properties are handed on as they came, whatever they are, with an empty string in the place of no reason.\<close>

record response_data =
  rd_address :: address
  rd_type :: "json option"
  rd_payload :: "json option"
  rd_requestId :: string
  rd_success :: "json option"
  rd_reason :: json

definition so_notification :: "address \<Rightarrow> json \<Rightarrow> json transport_event list" where
  "so_notification a message =
     (case string_field message ''type'' of
        None \<Rightarrow> []
      | Some type \<Rightarrow> [Notification_received \<lparr>wm_address = a, wm_type = type, wm_payload = js_field message ''payload'',
                        wm_requestId = [], wm_success = None, wm_reason = None\<rparr>])"

definition so_request :: "address \<Rightarrow> json \<Rightarrow> json transport_event list" where
  "so_request a message =
     (case (string_field message ''requestId'', string_field message ''type'') of
        (Some requestId, Some type) \<Rightarrow>
          [Request_received \<lparr>wm_address = a, wm_type = type, wm_payload = js_field message ''payload'',
             wm_requestId = requestId, wm_success = None, wm_reason = None\<rparr>]
      | _ \<Rightarrow> [])"

definition so_response :: "address \<Rightarrow> json \<Rightarrow> response_data list" where
  "so_response a message =
     (case string_field message ''requestId'' of
        None \<Rightarrow> []
      | Some requestId \<Rightarrow>
          [\<lparr>rd_address = a, rd_type = js_field message ''type'', rd_payload = js_field message ''payload'',
             rd_requestId = requestId, rd_success = js_field message ''success'',
             rd_reason = (case js_field message ''reason'' of None \<Rightarrow> JStr [] | Some JNull \<Rightarrow> JStr [] | Some j \<Rightarrow> j)\<rparr>])"

text \<open>The transport event as the runtime takes it, which tests the success and makes the reason the message of an
  \<open>Error\<close>, a string; nothing reads the type of a response.\<close>

definition response_event :: "(json \<Rightarrow> string) \<Rightarrow> response_data \<Rightarrow> json transport_event" where
  "response_event toString d =
     Response_received \<lparr>wm_address = rd_address d, wm_type = (case rd_type d of Some (JStr t) \<Rightarrow> t | _ \<Rightarrow> []),
       wm_payload = rd_payload d, wm_requestId = rd_requestId d, wm_success = Some (js_truthy (rd_success d)),
       wm_reason = Some (case rd_reason d of JStr r \<Rightarrow> r | j \<Rightarrow> toString j)\<rparr>"

definition so_disconnect :: "address \<Rightarrow> socket_transport \<Rightarrow> json transport_event list \<times> socket_transport" where
  "so_disconnect a s =
     ([Instance_destroyed a], s\<lparr>so_connections := map_delete (buildConnectionId a) (so_connections s)\<rparr>)"

text \<open>What is sent to a web view.  The success of a response and its reason are not.\<close>

definition socket_message :: "runtime_event \<Rightarrow> json runtime_message \<Rightarrow> (channel \<times> json) option" where
  "socket_message e m =
     (case e of
        Plugin_notification \<Rightarrow> Some (Notification_channel, js_object [(''type'', Some (JStr (wm_type m))), (''payload'', wm_payload m)])
      | Plugin_request \<Rightarrow> Some (Request_channel, js_object [(''type'', Some (JStr (wm_type m))), (''payload'', wm_payload m),
                            (''requestId'', Some (JStr (wm_requestId m)))])
      | Plugin_response \<Rightarrow> Some (Response_channel, js_object [(''type'', Some (JStr (wm_type m))), (''payload'', wm_payload m),
                            (''requestId'', Some (JStr (wm_requestId m)))])
      | _ \<Rightarrow> None)"

definition so_publish :: "runtime_event \<Rightarrow> json runtime_message \<Rightarrow> socket_transport \<Rightarrow> socket_transport" where
  "so_publish e m s =
     (case map_get (so_connections s) (buildConnectionId (wm_address m)) of
        None \<Rightarrow> s
      | Some socket \<Rightarrow>
          (case socket_message e m of
             None \<Rightarrow> s
           | Some (c, j) \<Rightarrow> s\<lparr>so_emitted := so_emitted s @ [(socket, c, j)]\<rparr>))"

definition so_dispose :: "socket_transport \<Rightarrow> socket_transport" where
  "so_dispose s = s\<lparr>so_disconnected := so_disconnected s @ map snd (so_connections s), so_connections := []\<rparr>"

subsection \<open>The transport over JSON-RPC\<close>

datatype rpc_channel = Created_channel | Destroyed_channel | Message_channel

text \<open>Whether the handler of a channel passes a message on; the fields are not looked at.\<close>

definition jr_accepts :: "rpc_channel \<Rightarrow> json \<Rightarrow> bool" where
  "jr_accepts c message =
     (case c of Created_channel \<Rightarrow> isWebviewAddress message | Destroyed_channel \<Rightarrow> isWebviewAddress message
              | Message_channel \<Rightarrow> isWebviewInstanceMessageEventData message)"

definition unknown_message_type :: "runtime_event \<Rightarrow> js_error" where
  "unknown_message_type e =
     JsError (''Unknown message type: '' @
       (case e of Plugin_request \<Rightarrow> ''webview_instance_request'' | _ \<Rightarrow> ''webview_instance_response''))"

definition jr_publish :: "runtime_event \<Rightarrow> 'p runtime_message \<Rightarrow> js_error + 'p runtime_message" where
  "jr_publish e m = (if e = Plugin_notification then Inr m else Inl (unknown_message_type e))"

subsection \<open>The bus inside a web view\<close>

datatype client_status = Pending | Resolved_with "json option" | Timed_out

record 'h client_bus =
  cb_notificationHandlers :: "'h registry"
  cb_requestHandlers :: "'h registry"
  cb_pendingRequests :: "nat registry"
  cb_requests :: "client_status list"
  cb_emitted :: "(channel \<times> json) list"
  cb_handled :: "('h \<times> json option) list"
  cb_listening :: bool

definition cb_new :: "'h client_bus" where
  "cb_new = \<lparr>cb_notificationHandlers = [], cb_requestHandlers = [], cb_pendingRequests = [], cb_requests = [],
             cb_emitted = [], cb_handled = [], cb_listening = True\<rparr>"

definition cb_sendNotification :: "string \<Rightarrow> json option \<Rightarrow> 'h client_bus \<Rightarrow> 'h client_bus" where
  "cb_sendNotification messageType payload b =
     b\<lparr>cb_emitted := cb_emitted b @ [(Notification_channel, js_object [(''type'', Some (JStr messageType)), (''payload'', payload)])]\<rparr>"

definition cb_sendRequest :: "string \<Rightarrow> string \<Rightarrow> json option \<Rightarrow> 'h client_bus \<Rightarrow> nat \<times> 'h client_bus" where
  "cb_sendRequest requestId type payload b =
     (length (cb_requests b),
      b\<lparr>cb_pendingRequests := registry_register requestId (length (cb_requests b)) (cb_pendingRequests b),
        cb_requests := cb_requests b @ [Pending],
        cb_emitted := cb_emitted b @ [(Request_channel,
          js_object [(''requestId'', Some (JStr requestId)), (''type'', Some (JStr type)), (''payload'', payload)])]\<rparr>)"

definition cb_settle :: "nat \<Rightarrow> client_status \<Rightarrow> 'h client_bus \<Rightarrow> 'h client_bus" where
  "cb_settle r v b = b\<lparr>cb_requests := (cb_requests b)[r := (if cb_requests b ! r = Pending then v else cb_requests b ! r)]\<rparr>"

definition cb_timeout :: "string \<Rightarrow> nat \<Rightarrow> 'h client_bus \<Rightarrow> 'h client_bus" where
  "cb_timeout requestId r b =
     cb_settle r Timed_out (b\<lparr>cb_pendingRequests := registry_unregister requestId (cb_pendingRequests b)\<rparr>)"

definition cb_onNotification :: "string \<Rightarrow> 'h \<Rightarrow> 'h client_bus \<Rightarrow> 'h client_bus" where
  "cb_onNotification messageType callback b =
     b\<lparr>cb_notificationHandlers := registry_register messageType callback (cb_notificationHandlers b)\<rparr>"

definition cb_onRequest :: "string \<Rightarrow> 'h \<Rightarrow> 'h client_bus \<Rightarrow> 'h client_bus" where
  "cb_onRequest type handler b = b\<lparr>cb_requestHandlers := registry_register type handler (cb_requestHandlers b)\<rparr>"

text \<open>Messages of the server.  A registry that has no handler rejects a promise that nobody awaits.\<close>

definition cb_handleNotificationMessage :: "json \<Rightarrow> 'h client_bus \<Rightarrow> 'h client_bus" where
  "cb_handleNotificationMessage message b =
     (case Option.bind (string_field message ''type'') (map_get (cb_notificationHandlers b)) of
        None \<Rightarrow> b
      | Some h \<Rightarrow> b\<lparr>cb_handled := cb_handled b @ [(h, js_field message ''payload'')]\<rparr>)"

text \<open>The type of a request is read from the property \<open>event\<close>.\<close>

definition cb_handleRequestMessage ::
  "('h \<Rightarrow> json option \<Rightarrow> js_error + json option) \<Rightarrow> json \<Rightarrow> 'h client_bus \<Rightarrow> 'h client_bus" where
  "cb_handleRequestMessage call message b =
     (case Option.bind (string_field message ''event'') (map_get (cb_requestHandlers b)) of
        None \<Rightarrow> b
      | Some h \<Rightarrow>
          let b1 = b\<lparr>cb_handled := cb_handled b @ [(h, js_field message ''payload'')]\<rparr>
          in (case call h (js_field message ''payload'') of
                Inl e \<Rightarrow> b1
              | Inr response \<Rightarrow> b1\<lparr>cb_emitted := cb_emitted b1 @
                  [(Response_channel, js_object [(''requestId'', js_field message ''requestId''), (''payload'', response)])]\<rparr>))"

definition cb_handleResponseMessage :: "json \<Rightarrow> 'h client_bus \<Rightarrow> 'h client_bus" where
  "cb_handleResponseMessage message b =
     (case string_field message ''requestId'' of
        None \<Rightarrow> b
      | Some requestId \<Rightarrow>
          (case map_get (cb_pendingRequests b) requestId of
             None \<Rightarrow> b
           | Some r \<Rightarrow>
               (cb_settle r (Resolved_with (js_field message ''payload'')) b)
                 \<lparr>cb_pendingRequests := registry_unregister requestId (cb_pendingRequests b)\<rparr>))"

definition cb_receive ::
  "('h \<Rightarrow> json option \<Rightarrow> js_error + json option) \<Rightarrow> channel \<times> json \<Rightarrow> 'h client_bus \<Rightarrow> 'h client_bus" where
  "cb_receive call cm b =
     (if \<not> cb_listening b then b
      else case fst cm of
          Notification_channel \<Rightarrow> cb_handleNotificationMessage (snd cm) b
        | Request_channel \<Rightarrow> cb_handleRequestMessage call (snd cm) b
        | Response_channel \<Rightarrow> cb_handleResponseMessage (snd cm) b)"

definition cb_dispose :: "'h client_bus \<Rightarrow> 'h client_bus" where
  "cb_dispose b =
     b\<lparr>cb_listening := False, cb_notificationHandlers := registry_dispose (cb_notificationHandlers b),
       cb_requestHandlers := registry_dispose (cb_requestHandlers b),
       cb_pendingRequests := registry_dispose (cb_pendingRequests b)\<rparr>"

text \<open>The first provider that gives a bus; one that throws is passed over.\<close>

fun resolveMessageBus :: "string \<Rightarrow> (string \<Rightarrow> js_error + 'b option) list \<Rightarrow> js_error + 'b" where
  "resolveMessageBus webviewId [] = Inl (JsError (''Unable to resolve a message bus for webviewId: '' @ webviewId))"
| "resolveMessageBus webviewId (p # ps) =
     (case p webviewId of Inr (Some b) \<Rightarrow> Inr b | _ \<Rightarrow> resolveMessageBus webviewId ps)"

definition socket_getMessageBus :: "(string \<Rightarrow> 'b) \<Rightarrow> string \<Rightarrow> js_error + 'b option" where
  "socket_getMessageBus connect webviewId =
     (if webviewId = [] then Inr None else Inr (Some (connect (''/webview/'' @ webviewId))))"

subsection \<open>The bus between plugins and the editor\<close>

text \<open>The key of a handler: what template literals make of the two properties.\<close>

definition extension_key :: "(json \<Rightarrow> string) \<Rightarrow> json \<Rightarrow> json \<Rightarrow> string" where
  "extension_key toString pluginId type =
     (let s = (\<lambda>j. case j of JStr t \<Rightarrow> t | _ \<Rightarrow> toString j) in s pluginId @ '':'' @ s type)"

definition em_onRequest :: "(json \<Rightarrow> string) \<Rightarrow> string \<Rightarrow> string \<Rightarrow> 'h \<Rightarrow> 'h registry \<Rightarrow> 'h registry" where
  "em_onRequest toString pluginId type handler r =
     hashed_register (\<lambda>(p, t). extension_key toString p t) (JStr pluginId, JStr type) handler r"

definition em_handle ::
  "(json \<Rightarrow> string) \<Rightarrow> ('h \<Rightarrow> json option \<Rightarrow> js_error + json option) \<Rightarrow> 'h registry \<Rightarrow> json \<Rightarrow>
   (registry_error + json option) option" where
  "em_handle toString call r message =
     (if \<not> isExtensionMessage message then None
      else Some (hashed_handle (\<lambda>(p, t). extension_key toString p t) (\<lambda>h. call h (js_field message ''payload'')) r
             (the (js_field message ''pluginId''), the (js_field message ''type''))))"

datatype extension_error = Invalid_message_format | Handler_failed registry_error

text \<open>A notification never fails: the answer is what is logged.  A request of the wrong form, or one whose handler
  fails, is rejected.\<close>

definition handleNotificationMessage ::
  "(json \<Rightarrow> string) \<Rightarrow> ('h \<Rightarrow> json option \<Rightarrow> js_error + json option) \<Rightarrow> 'h registry \<Rightarrow> json \<Rightarrow>
   extension_error option" where
  "handleNotificationMessage toString call r message =
     (case em_handle toString call r message of
        None \<Rightarrow> Some Invalid_message_format
      | Some (Inl e) \<Rightarrow> Some (Handler_failed e)
      | Some (Inr v) \<Rightarrow> None)"

definition handleRequestMessage ::
  "(json \<Rightarrow> string) \<Rightarrow> ('h \<Rightarrow> json option \<Rightarrow> js_error + json option) \<Rightarrow> 'h registry \<Rightarrow> json \<Rightarrow>
   extension_error + json option" where
  "handleRequestMessage toString call r message =
     (case em_handle toString call r message of
        None \<Rightarrow> Inl Invalid_message_format
      | Some (Inl e) \<Rightarrow> Inl (Handler_failed e)
      | Some (Inr v) \<Rightarrow> Inr v)"

definition em_send :: "string \<Rightarrow> string \<Rightarrow> json option \<Rightarrow> json" where
  "em_send pluginId type payload =
     js_object [(''pluginId'', Some (JStr pluginId)), (''type'', Some (JStr type)), (''payload'', payload)]"

subsection \<open>Lemmas\<close>

lemma field_object: "js_field (js_object ps) k = map_of (List.map_filter (\<lambda>(k, v). map_option (Pair k) v) ps) k"
  by (simp add: js_object_def)

lemma field_simps [simp]:
  "js_field (js_object []) k = None"
  "js_field (js_object ((k', v) # ps)) k =
     (if k = k' then (case v of None \<Rightarrow> js_field (js_object ps) k | Some x \<Rightarrow> Some x) else js_field (js_object ps) k)"
  by (simp_all add: field_object List.map_filter_simps split: option.split)

lemma case_option_id [simp]: "(case v of None \<Rightarrow> None | Some x \<Rightarrow> Some x) = v"
  by (cases v) simp_all

lemma string_field_Some:
  "string_field j k = Some s \<longleftrightarrow> js_field j k = Some (JStr s)" "Some s = string_field j k \<longleftrightarrow> js_field j k = Some (JStr s)"
  by (auto simp: string_field.simps split: option.splits json.splits)

lemma field_kvs: "js_field j k = Some v \<longleftrightarrow> (\<exists>kvs. j = JObj kvs \<and> map_of kvs k = Some v)"
  by (cases j) auto

lemma validators_fields:
  "isSocketNotificationMessage j \<longleftrightarrow> so_notification a j \<noteq> []"
  "isSocketRequestMessage j \<longleftrightarrow> so_request a j \<noteq> []"
  "isSocketResponseMessage j \<longleftrightarrow> so_response a j \<noteq> []"
  by (simp_all add: isSocketNotificationMessage_def isSocketRequestMessage_def isSocketResponseMessage_def
      so_notification_def so_request_def so_response_def split: option.split)

text \<open>Addresses whose instance has no colon in its name have different connections.\<close>

lemma connection_id_inj:
  assumes "buildConnectionId a = buildConnectionId b" and "CHR '':'' \<notin> set (wa_instanceId a)" "CHR '':'' \<notin> set (wa_instanceId b)"
  shows "a = b"
proof -
  have split: "xs = ys \<and> us = vs"
    if "xs @ CHR '':'' # us = ys @ CHR '':'' # vs" "CHR '':'' \<notin> set us" "CHR '':'' \<notin> set vs" for xs ys us vs :: string
    using that
  proof (induction xs arbitrary: ys)
    case Nil
    then show ?case by (cases ys) auto
  next
    case (Cons x xs)
    then show ?case by (cases ys) auto
  qed
  from split [OF _ assms(2,3), of "wa_webviewId a" "wa_webviewId b"] assms(1) show ?thesis
    by (cases a; cases b) (simp add: buildConnectionId_def)
qed

text \<open>Everything a publication sends carries the message published.\<close>

lemma sent_messages:
  "\<exists>ks. wr_sent (publish_to_transports e m s) = wr_sent s @ map (\<lambda>i. (i, e, m)) ks"
proof -
  have "\<exists>ks. wr_sent (fold (to_transport e m) ls s) = wr_sent s @ map (\<lambda>i. (i, e, m)) ks" for ls
  proof (induction ls arbitrary: s)
    case (Cons l ls)
    obtain ks where "wr_sent (fold (to_transport e m) ls (to_transport e m l s)) =
        wr_sent (to_transport e m l s) @ map (\<lambda>i. (i, e, m)) ks" using Cons by blast
    moreover have "\<exists>js. wr_sent (to_transport e m l s) = wr_sent s @ map (\<lambda>i. (i, e, m)) js"
      by (cases l) (auto simp: to_transport_def intro: exI [of _ "[]"] exI [of _ "[x]" for x])
    ultimately show ?case by (metis append_assoc fold_simps(2) map_append)
  qed (auto intro: exI [of _ "[]"])
  then show ?thesis by (simp add: publish_to_transports_def)
qed

subsection \<open>The connections of the transport\<close>

inductive so_run :: "socket_transport \<Rightarrow> (address \<times> nat) list \<Rightarrow> bool" where
  so_start: "so_run \<lparr>so_connections = [], so_emitted = [], so_disconnected = []\<rparr> []"
| so_connect: "so_run s live \<Longrightarrow> namespace_webviewId nsp = Some w \<Longrightarrow> CHR '':'' \<notin> set uuid \<Longrightarrow>
    uuid \<notin> wa_instanceId ` fst ` set live \<Longrightarrow>
    so_run (snd (so_connected nsp uuid k s)) (live @ [(\<lparr>wa_webviewId = w, wa_instanceId = uuid\<rparr>, k)])"
| so_disconnect: "so_run s live \<Longrightarrow> a \<in> fst ` set live \<Longrightarrow> so_run (snd (so_disconnect a s)) (filter (\<lambda>x. fst x \<noteq> a) live)"
| so_send: "so_run s live \<Longrightarrow> so_run (so_publish e m s) live"
| so_stop: "so_run s live \<Longrightarrow> so_run (so_dispose s) []"

inductive_cases so_runE: "so_run s live"

lemma publish_connections [simp]: "so_connections (so_publish e m s) = so_connections s"
  by (simp add: so_publish_def split: option.split)

lemma so_run_invariant:
  "so_run s live \<Longrightarrow> so_connections s = map (\<lambda>(a, k). (buildConnectionId a, k)) live \<and> distinct (map fst live) \<and>
    (\<forall>a \<in> fst ` set live. CHR '':'' \<notin> set (wa_instanceId a))"
proof (induction rule: so_run.induct)
  case (so_connect s live nsp w uuid k)
  let ?a = "\<lparr>wa_webviewId = w, wa_instanceId = uuid\<rparr>"
  have new: "?a \<notin> fst ` set live" using so_connect.hyps(4) by force
  have "buildConnectionId ?a \<notin> fst ` set (so_connections s)"
  proof
    assume "buildConnectionId ?a \<in> fst ` set (so_connections s)"
    then obtain b where "b \<in> fst ` set live" "buildConnectionId ?a = buildConnectionId b"
      using so_connect.IH by force
    with connection_id_inj [of ?a b] so_connect.IH so_connect.hyps(3) new show False by auto
  qed
  then have "map_get (so_connections s) (buildConnectionId ?a) = None" by (simp add: map_get_None_keys)
  then have "map_set (buildConnectionId ?a) k (so_connections s) = so_connections s @ [(buildConnectionId ?a, k)]"
    by (rule map_set_new)
  with so_connect new show ?case by (simp add: so_connected_def Let_def)
next
  case (so_disconnect s live a)
  have "buildConnectionId b = buildConnectionId a \<longleftrightarrow> b = a" if "b \<in> fst ` set live" for b
    using connection_id_inj [of b a] so_disconnect.IH so_disconnect.hyps(2) that by auto
  then have "map_delete (buildConnectionId a) (map (\<lambda>(a, k). (buildConnectionId a, k)) live) =
      map (\<lambda>(a, k). (buildConnectionId a, k)) (filter (\<lambda>x. fst x \<noteq> a) live)"
    by (induction live) auto
  with so_disconnect.IH show ?case by (auto simp: Webview_Transport.so_disconnect_def distinct_map_filter)
qed (simp_all add: so_dispose_def)

text \<open>C25: While web views connect and disconnect, each under an instance name that no other has and that has no colon, a
  message for an address is emitted on the socket of exactly that address, and on no socket when it is not
  connected.\<close>

theorem messages_reach_their_socket:
  assumes "so_run s live" and "CHR '':'' \<notin> set (wa_instanceId (wm_address m))"
  shows "so_emitted (so_publish e m s) = so_emitted s @
    (case (map_of live (wm_address m), socket_message e m) of (Some k, Some (c, j)) \<Rightarrow> [(k, c, j)] | _ \<Rightarrow> [])"
proof -
  note inv = so_run_invariant [OF assms(1)]
  have "map_of (map (\<lambda>(a, k). (buildConnectionId a, k)) xs) (buildConnectionId (wm_address m)) = map_of xs (wm_address m)"
    if "\<forall>a \<in> fst ` set xs. CHR '':'' \<notin> set (wa_instanceId a)" for xs :: "(address \<times> nat) list"
    using that
  proof (induction xs)
    case (Cons x xs)
    obtain a k where x: "x = (a, k)" by (cases x)
    with Cons connection_id_inj [of a "wm_address m"] assms(2) show ?case by auto
  qed simp
  with inv have "map_get (so_connections s) (buildConnectionId (wm_address m)) = map_of live (wm_address m)" by simp
  then show ?thesis by (simp add: so_publish_def split: option.split)
qed

text \<open>Over Socket.IO, what a web view sends arrives as it was sent: a notification and a request with their type,
  payload and identifier; and a notification of a plugin reaches the handler that the web view has registered for
  its type, with its payload.\<close>

theorem messages_cross_socket:
  "so_notification a (snd (last (cb_emitted (cb_sendNotification type payload b)))) =
     [Notification_received \<lparr>wm_address = a, wm_type = type, wm_payload = payload, wm_requestId = [], wm_success = None,
        wm_reason = None\<rparr>] \<and>
   so_request a (snd (last (cb_emitted (snd (cb_sendRequest requestId type payload b))))) =
     [Request_received \<lparr>wm_address = a, wm_type = type, wm_payload = payload, wm_requestId = requestId, wm_success = None,
        wm_reason = None\<rparr>] \<and>
   cb_handleNotificationMessage (snd (the (socket_message Plugin_notification m))) (cb_onNotification (wm_type m) h b) =
     (cb_onNotification (wm_type m) h b)\<lparr>cb_handled := cb_handled b @ [(h, wm_payload m)]\<rparr>"
  by (simp add: cb_sendNotification_def cb_sendRequest_def so_notification_def so_request_def string_field_Some
      string_field.simps cb_handleNotificationMessage_def socket_message_def cb_onNotification_def cong: option.case_cong)

text \<open>A request of the server to a web view over Socket.IO is never handled, whatever handlers the web view has: the
  type is sent as \<open>type\<close> and read as \<open>event\<close>.  The promise of the plugin can only time out.\<close>

theorem server_requests_unanswered:
  "cb_receive call (the (socket_message Plugin_request m)) b = b"
  by (simp add: cb_receive_def socket_message_def cb_handleRequestMessage_def string_field.simps cong: option.case_cong)

text \<open>C15: When the handler of a plugin throws on a request of a web view over Socket.IO, the promise of the web view is
  resolved with undefined, as if the handler had returned nothing: neither the failure nor its reason crosses the
  socket.\<close>

theorem handler_errors_resolve:
  assumes "map_get (ib_requestEvents (wr_instances s ! k)) (wm_type m) = Some h" and "we_request E h (wm_payload m) = Inl e"
    and "(i, Plugin_response, m') \<in> set (drop (length (wr_sent s)) (wr_sent (handle_request E k m s)))"
    and "map_get (cb_pendingRequests b) (wm_requestId m) = Some r" and "r < length (cb_requests b)"
    and "cb_requests b ! r = Pending" and "cb_listening b"
  shows "wm_success m' = Some False \<and>
    cb_requests (cb_receive call (the (socket_message Plugin_response m')) b) ! r = Resolved_with None"
proof -
  let ?m = "\<lparr>wm_address = ib_address (wr_instances s ! k), wm_type = wm_type m, wm_payload = None, wm_requestId = wm_requestId m,
    wm_success = Some False, wm_reason = Some (we_message E e)\<rparr>"
  let ?s = "s\<lparr>wr_handled := wr_handled s @ [(h, wm_payload m)]\<rparr>"
  have "handle_request E k m s = publish_to_transports Plugin_response ?m ?s"
    by (simp add: handle_request_def assms(1,2))
  moreover obtain ks where "wr_sent (publish_to_transports Plugin_response ?m ?s) = wr_sent ?s @ map (\<lambda>i. (i, Plugin_response, ?m)) ks"
    using sent_messages by blast
  ultimately have m': "m' = ?m" using assms(3) by auto
  show ?thesis
    using assms(4-7) by (simp add: m' cb_receive_def socket_message_def cb_handleResponseMessage_def string_field.simps cb_settle_def)
qed

text \<open>The transport over JSON-RPC takes messages whose fields are no strings, and knows only notifications.\<close>

theorem rpc_messages_untyped:
  "jr_accepts Message_channel (JObj [(''webviewId'', JNull), (''webviewInstanceId'', JNum 1), (''type'', JArr [])])"
  by (simp add: jr_accepts_def isWebviewInstanceMessageEventData_def isWebviewAddress_def)

text \<open>Handlers of different plugins can have the same key.\<close>

theorem extension_keys_collide:
  "em_handle toString call (em_onRequest toString ''a:b'' ''c'' h r) (em_send ''a'' ''b:c'' payload) =
    Some (case call h payload of Inl e \<Rightarrow> Inl (Unhandled_handler ''a:b:c'' e) | Inr v \<Rightarrow> Inr v)"
  by (simp add: em_handle_def em_send_def isExtensionMessage_def hashed_handle_def registry_handle_def em_onRequest_def
      hashed_register_def extension_key_def cong: option.case_cong)

subsection \<open>Witnesses\<close>

definition hello :: "json runtime_message" where
  "hello = \<lparr>wm_address = chat_address, wm_type = ''hello'', wm_payload = None, wm_requestId = [], wm_success = None, wm_reason = None\<rparr>"

theorem messages_reach_their_socket_witness:
  "so_emitted (so_publish Plugin_notification hello
     (snd (so_connected ''/webview/chat'' ''i1'' 3 \<lparr>so_connections = [], so_emitted = [], so_disconnected = []\<rparr>))) =
   [(3, Notification_channel, JObj [(''type'', JStr ''hello'')])]"
proof -
  let ?s = "snd (so_connected ''/webview/chat'' ''i1'' 3 \<lparr>so_connections = [], so_emitted = [], so_disconnected = []\<rparr>)"
  have run: "so_run ?s ([] @ [(\<lparr>wa_webviewId = ''chat'', wa_instanceId = ''i1''\<rparr>, 3)])"
    by (rule so_connect [OF so_start]) code_simp+
  have colon: "CHR '':'' \<notin> set (wa_instanceId (wm_address hello))" by code_simp
  have "so_emitted ?s = []" by code_simp
  moreover have "socket_message Plugin_notification hello = Some (Notification_channel, JObj [(''type'', JStr ''hello'')])"
    by code_simp
  ultimately show ?thesis
    using messages_reach_their_socket [OF run colon, of Plugin_notification] by (simp add: hello_def chat_address_def)
qed

definition throwing_env :: "(nat, json, nat, nat) wenv" where
  "throwing_env = \<lparr>we_connected = (\<lambda>c a. ([Register_request ''ask'' 0], None)), we_request = (\<lambda>h p. Inl TypeError),
                   we_message = (\<lambda>e. ''broken'')\<rparr>"

definition throwing_state :: "(nat, json, nat, nat) wruntime" where
  "throwing_state = transport_emit throwing_env 0 (Instance_created chat_address)
     (wc_onInstanceConnected throwing_env 0 7 (snd (wc_create ''chat'' (snd (md_create wr_new)))))"

definition ask :: "json runtime_message" where
  "ask = \<lparr>wm_address = chat_address, wm_type = ''ask'', wm_payload = None, wm_requestId = ''r'', wm_success = None, wm_reason = None\<rparr>"

theorem handler_errors_resolve_witness:
  "cb_requests (cb_receive (\<lambda>h p. Inr p) (the (socket_message Plugin_response
      (snd (snd (last (wr_sent (handle_request throwing_env 0 ask throwing_state)))))))
     (snd (cb_sendRequest ''r'' ''ask'' None (cb_new :: nat client_bus)))) ! 0 = Resolved_with None"
proof -
  let ?b = "snd (cb_sendRequest ''r'' ''ask'' None (cb_new :: nat client_bus))"
  let ?m' = "snd (snd (last (wr_sent (handle_request throwing_env 0 ask throwing_state))))"
  have "map_get (ib_requestEvents (wr_instances throwing_state ! 0)) (wm_type ask) = Some 0" by code_simp
  moreover have "we_request throwing_env 0 (wm_payload ask) = Inl TypeError" by code_simp
  moreover have "drop (length (wr_sent throwing_state)) (wr_sent (handle_request throwing_env 0 ask throwing_state)) =
      [(0, Plugin_response, ?m')]" by code_simp
  then have "(0, Plugin_response, ?m') \<in> set (drop (length (wr_sent throwing_state))
      (wr_sent (handle_request throwing_env 0 ask throwing_state)))" by simp
  moreover have "map_get (cb_pendingRequests ?b) (wm_requestId ask) = Some 0" by code_simp
  moreover have "0 < length (cb_requests ?b)" by code_simp
  moreover have "cb_requests ?b ! 0 = Pending" by code_simp
  moreover have "cb_listening ?b" by code_simp
  ultimately show ?thesis
    using handler_errors_resolve [of throwing_state 0 ask 0 throwing_env TypeError 0 ?m' ?b 0] by blast
qed

end
