(* ===== verification/Duo_Chat_Api.thy ===== *)
theory Duo_Chat_Api
  imports Domain
begin

text \<open>
  The chat of the second web view (\<open>packages/webview_duo_chat_v2/src/plugin/port\<close>): the records of a conversation
  (\<open>chat/khulnasoft_chat_record.ts\<close>), the choice of GraphQL documents by version (\<open>chat/khulnasoft_chat_api.ts\<close>,
  \<open>utils/if_version_gte.ts\<close>), the repeated pull for an answer (\<open>chat/api/pulling.ts\<close>) and the channel of streamed
  answers (\<open>api/graphql/ai_completion_response_channel.ts\<close>).

  Parameters: \<open>semver\<close>, \<open>Date.parse\<close>, fresh identifiers, the answers of the API and of the AI context manager.  Of a
  GraphQL document only the variables it declares are kept.
\<close>

subsection \<open>Records\<close>

datatype chat_role = User_role | Assistant_role | System_role

datatype chat_record_state = Record_pending | Record_ready

datatype chat_record_type =
  General | ExplainCode | GenerateTests | RefactorCode | NewConversation | FixCode

record 'm chat_item =
  ci_id :: string
  ci_category :: string
  ci_content :: "string option"
  ci_metadata :: 'm

record ('s, 'm) chat_extras =
  ce_sources :: "'s list"
  ce_contextItems :: "'m chat_item list option"

record active_file =
  af_fileName :: string
  af_selectedText :: string
  af_contentAboveCursor :: "string option"
  af_contentBelowCursor :: "string option"

text \<open>A timestamp is a number once parsed; \<open>update\<close> leaves an empty text as it is.\<close>

datatype chat_time = Time_ms int | Time_text string

record ('s, 'm) chat_record =
  cr_chunkId :: "int option"
  cr_role :: chat_role
  cr_content :: "string option"
  cr_id :: string
  cr_requestId :: "string option"
  cr_state :: chat_record_state
  cr_timestamp :: chat_time
  cr_type :: chat_record_type
  cr_errors :: "string list"
  cr_extras :: "('s, 'm) chat_extras option"
  cr_currentFile :: "active_file option"

definition message_RESET :: string where "message_RESET = ''/reset''"
definition message_CLEAR :: string where "message_CLEAR = ''/clear''"
definition message_CLEAN :: string where "message_CLEAN = ''/clean''"

definition role_name :: "chat_role \<Rightarrow> string" where
  "role_name r = (case r of User_role \<Rightarrow> ''user'' | Assistant_role \<Rightarrow> ''assistant'' | System_role \<Rightarrow> ''system'')"

definition detectType :: "string option \<Rightarrow> chat_record_type" where
  "detectType content = (if content = Some message_RESET then NewConversation else General)"

definition new_record ::
  "string \<Rightarrow> int \<Rightarrow> chat_role \<Rightarrow> string option \<Rightarrow> chat_record_type option \<Rightarrow> chat_record_state option \<Rightarrow> string option \<Rightarrow>
   active_file option \<Rightarrow> ('s, 'm) chat_record" where
  "new_record uuid now role content type state requestId activeFileContext =
     \<lparr>cr_chunkId = None, cr_role = role, cr_content = content, cr_id = uuid, cr_requestId = requestId,
      cr_state = (case state of None \<Rightarrow> Record_ready | Some s \<Rightarrow> s), cr_timestamp = Time_ms now,
      cr_type = (case type of None \<Rightarrow> detectType content | Some t \<Rightarrow> t), cr_errors = [], cr_extras = None,
      cr_currentFile = activeFileContext\<rparr>"

text \<open>What the context manager retrieved; when it failed, the record goes without context.\<close>

definition buildWithContext ::
  "js_error + 'm chat_item list \<Rightarrow> ('s, 'm) chat_record \<Rightarrow> ('s, 'm) chat_record" where
  "buildWithContext retrieved r =
     (case retrieved of
        Inl e \<Rightarrow> r
      | Inr items \<Rightarrow> r\<lparr>cr_extras := Some (case cr_extras r of
            None \<Rightarrow> \<lparr>ce_sources = [], ce_contextItems = Some items\<rparr>
          | Some x \<Rightarrow> x\<lparr>ce_contextItems := Some items\<rparr>)\<rparr>)"

definition converted_time :: "(string \<Rightarrow> int) \<Rightarrow> string \<Rightarrow> chat_time" where
  "converted_time parse t = (if t \<noteq> [] then Time_ms (parse t) else Time_text t)"

subsection \<open>Prompts of the editor\<close>

definition commandToContentMap :: "chat_record_type \<Rightarrow> string option" where
  "commandToContentMap t =
     (case t of General \<Rightarrow> None | ExplainCode \<Rightarrow> Some ''/explain'' | FixCode \<Rightarrow> Some ''/fix'' | GenerateTests \<Rightarrow> Some ''/tests''
              | RefactorCode \<Rightarrow> Some ''/refactor'' | NewConversation \<Rightarrow> Some ''/reset'')"

definition validPromptTypes :: "chat_record_type list" where
  "validPromptTypes = [ExplainCode, GenerateTests, RefactorCode, NewConversation, FixCode]"

subsection \<open>Documents by version\<close>

record semver_api =
  sv_valid :: "string \<Rightarrow> bool"
  sv_coerce :: "string option \<Rightarrow> string option"
  sv_gte :: "string \<Rightarrow> string \<Rightarrow> bool"

definition chat_ifVersionGte :: "semver_api \<Rightarrow> string option \<Rightarrow> string \<Rightarrow> 'a \<Rightarrow> 'a \<Rightarrow> js_error + 'a" where
  "chat_ifVersionGte V current minimumRequiredVersion thn otherwise =
     (if \<not> sv_valid V minimumRequiredVersion
      then Inl (JsError (''minimumRequiredVersion argument '' @ minimumRequiredVersion @ '' isn'' @ [CHR 0x27] @ ''t valid''))
      else case sv_coerce V current of
          None \<Rightarrow> Inr thn
        | Some parsedCurrent \<Rightarrow> Inr (if sv_gte V parsedCurrent minimumRequiredVersion then thn else otherwise))"

datatype chat_template = Template_17_2_and_earlier | Template_17_3_and_later | Template_17_5_and_later

definition PLATFORM_ORIGIN :: string where
  "PLATFORM_ORIGIN = ''vs_code_extension''"

text \<open>The variables that the mutation of a template declares, and whether they are required.\<close>

definition declared_variables :: "chat_template \<Rightarrow> (string \<times> bool) list" where
  "declared_variables t =
     [(''question'', True), (''resourceId'', False), (''currentFileContext'', False), (''clientSubscriptionId'', False)] @
     (case t of
        Template_17_2_and_earlier \<Rightarrow> []
      | Template_17_3_and_later \<Rightarrow> [(''platformOrigin'', True)]
      | Template_17_5_and_later \<Rightarrow> [(''platformOrigin'', True), (''additionalContext'', False)])"

definition defaultVariables :: "chat_template \<Rightarrow> (string \<times> string) list" where
  "defaultVariables t = (if t = Template_17_2_and_earlier then [] else [(''platformOrigin'', PLATFORM_ORIGIN)])"

datatype messages_query = AI_MESSAGES_QUERY | AI_MESSAGES_QUERY_17_5_AND_LATER

record chat_api =
  ca_cachedActionMutation :: "chat_template option"
  ca_cachedMessagesQuery :: "messages_query option"

definition MINIMUM_PLATFORM_ORIGIN_FIELD_VERSION :: string where
  "MINIMUM_PLATFORM_ORIGIN_FIELD_VERSION = ''17.3.0''"

definition MINIMUM_ADDITIONAL_CONTEXT_FIELD_VERSION :: string where
  "MINIMUM_ADDITIONAL_CONTEXT_FIELD_VERSION = ''17.5.0-pre''"

definition isAdditionalContextEnabled :: "js_error + 'c list \<Rightarrow> bool" where
  "isAdditionalContextEnabled categories = (case categories of Inl e \<Rightarrow> False | Inr cs \<Rightarrow> cs \<noteq> [])"

definition actionMutation ::
  "semver_api \<Rightarrow> js_error + 'c list \<Rightarrow> string option \<Rightarrow> chat_api \<Rightarrow> chat_template \<times> chat_api" where
  "actionMutation V categories version a =
     (case ca_cachedActionMutation a of
        Some t \<Rightarrow> (t, a)
      | None \<Rightarrow>
          let t = (case version of
                None \<Rightarrow> Template_17_3_and_later
              | Some v \<Rightarrow>
                  if v = [] then Template_17_3_and_later
                  else (case chat_ifVersionGte V version MINIMUM_PLATFORM_ORIGIN_FIELD_VERSION
                          (if isAdditionalContextEnabled categories then Template_17_5_and_later else Template_17_3_and_later)
                          Template_17_2_and_earlier of
                      Inl e \<Rightarrow> Template_17_3_and_later
                    | Inr t \<Rightarrow> t))
          in (t, a\<lparr>ca_cachedActionMutation := Some t\<rparr>))"

definition messagesQuery :: "semver_api \<Rightarrow> string option \<Rightarrow> chat_api \<Rightarrow> messages_query \<times> chat_api" where
  "messagesQuery V version a =
     (case ca_cachedMessagesQuery a of
        Some q \<Rightarrow> (q, a)
      | None \<Rightarrow>
          let q = (case version of
                None \<Rightarrow> AI_MESSAGES_QUERY
              | Some v \<Rightarrow>
                  if v = [] then AI_MESSAGES_QUERY
                  else (case chat_ifVersionGte V version MINIMUM_ADDITIONAL_CONTEXT_FIELD_VERSION
                          AI_MESSAGES_QUERY_17_5_AND_LATER AI_MESSAGES_QUERY of
                      Inl e \<Rightarrow> AI_MESSAGES_QUERY
                    | Inr q \<Rightarrow> q))
          in (q, a\<lparr>ca_cachedMessagesQuery := Some q\<rparr>))"

subsection \<open>Requests\<close>

datatype 'm variable =
    String_variable string
  | File_variable active_file
  | Context_variable "'m chat_item list"
  | Null_variable

text \<open>An item as GraphQL wants it: the category in capitals, the content never missing.\<close>

definition char_upper :: "char \<Rightarrow> char" where
  "char_upper c = (let n = of_char c :: nat in if 97 \<le> n \<and> n \<le> 122 \<or> 224 \<le> n \<and> n \<le> 254 \<and> n \<noteq> 247 then char_of (n - 32) else c)"

definition to_upper :: "string \<Rightarrow> string" where
  "to_upper = map char_upper"

definition request_item :: "'m chat_item \<Rightarrow> 'm chat_item" where
  "request_item item =
     item\<lparr>ci_category := to_upper (ci_category item),
          ci_content := Some (case ci_content item of None \<Rightarrow> [] | Some c \<Rightarrow> c)\<rparr>"

text \<open>The properties that \<open>processNewUserPrompt\<close> and \<open>clearChat\<close> give; one that is undefined is not sent.\<close>

definition prompt_variables ::
  "string \<Rightarrow> string option \<Rightarrow> active_file option \<Rightarrow> 'm chat_item list option \<Rightarrow> (string \<times> 'm variable) list" where
  "prompt_variables question subscriptionId currentFileContext aiContextItems =
     (''question'', String_variable question) #
     List.map_filter id
       [map_option (\<lambda>f. (''currentFileContext'', File_variable f)) currentFileContext,
        map_option (\<lambda>is. (''additionalContext'', Context_variable (map request_item is))) aiContextItems,
        map_option (\<lambda>i. (''clientSubscriptionId'', String_variable i)) subscriptionId]"

definition sendAiAction :: "chat_template \<Rightarrow> (string \<times> 'm variable) list \<Rightarrow> (string \<times> 'm variable) list" where
  "sendAiAction t variables =
     variables @ map (\<lambda>(k, v). (k, String_variable v)) (defaultVariables t) @ [(''resourceId'', Null_variable)]"

subsection \<open>Pulling\<close>

definition API_PULLING_maxRetries :: nat where
  "API_PULLING_maxRetries = 10"

text \<open>\<open>handler k\<close> is what the call number \<open>k\<close> answers, the calls are counted; an error ends the pulling.\<close>

fun pullHandler :: "(nat \<Rightarrow> js_error + 'a option) \<Rightarrow> nat \<Rightarrow> nat \<Rightarrow> nat \<times> (js_error + 'a option)" where
  "pullHandler handler k 0 = (k, Inr None)"
| "pullHandler handler k (Suc retry) =
     (case handler k of
        Inl e \<Rightarrow> (Suc k, Inl e)
      | Inr (Some response) \<Rightarrow> (Suc k, Inr (Some response))
      | Inr None \<Rightarrow> pullHandler handler (Suc k) retry)"

record ('s, 'm) ai_message =
  ar_requestId :: string
  ar_role :: string
  ar_content :: string
  ar_timestamp :: string
  ar_errors :: "string list"
  ar_extras :: "('s list \<times> 'm chat_item list option) option"
  ar_chunkId :: "int option"

definition timeout_message :: string where
  "timeout_message = ''Reached timeout while fetching response.''"

text \<open>The answer is the message, or the errors of an error message.\<close>

definition pullAiMessage ::
  "(nat \<Rightarrow> js_error + ('s, 'm) ai_message option) \<Rightarrow> js_error + (string list + ('s, 'm) ai_message)" where
  "pullAiMessage handler =
     (case snd (pullHandler handler 0 API_PULLING_maxRetries) of
        Inl e \<Rightarrow> Inl e
      | Inr None \<Rightarrow> Inr (Inl [timeout_message])
      | Inr (Some m) \<Rightarrow> Inr (Inr m))"

subsection \<open>The channel of answers\<close>

datatype channel_event = System_message | New_chunk | Full_message

definition receive :: "('s, 'm) ai_message \<Rightarrow> channel_event" where
  "receive data =
     (if to_lower (ar_role data) = ''system'' then System_message
      else if ar_chunkId data \<noteq> None \<and> ar_chunkId data \<noteq> Some 0 then New_chunk
      else Full_message)"

subsection \<open>Properties\<close>

text \<open>C34: Whatever version the instance has and whatever was cached, the variables of a chat request cover those that
  the chosen mutation requires, and the mutation declares every variable given beside the attached context.\<close>

theorem chat_variables_typed:
  "let (t, a') = actionMutation V categories version a;
       sent = map fst (sendAiAction t (prompt_variables question subscriptionId currentFile items :: (string \<times> 'm variable) list))
   in {k. (k, True) \<in> set (declared_variables t)} \<subseteq> set sent \<and>
      set sent - {''additionalContext''} \<subseteq> fst ` set (declared_variables t)"
proof -
  have "{k. (k, True) \<in> set (declared_variables t)} \<subseteq> set sent \<and> set sent - {''additionalContext''} \<subseteq> fst ` set (declared_variables t)"
    if "sent = map fst (sendAiAction t (prompt_variables question subscriptionId currentFile items :: (string \<times> 'm variable) list))"
    for t sent
    unfolding that
    by (cases t; cases subscriptionId; cases currentFile; cases items)
      (auto simp: declared_variables_def sendAiAction_def prompt_variables_def defaultVariables_def List.map_filter_simps)
  then show ?thesis by (auto simp: split_beta Let_def)
qed

lemma pull_calls: "fst (pullHandler handler k n) \<le> k + n"
proof (induction n arbitrary: k)
  case (Suc n)
  from Suc [of "Suc k"] show ?case by (simp split: sum.split option.split)
qed simp

lemma pull_none: "snd (pullHandler handler k n) = Inr None \<longleftrightarrow> (\<forall>j < n. handler (k + j) = Inr None)"
proof (induction n arbitrary: k)
  case (Suc n)
  from Suc [of "Suc k"] show ?case by (auto simp: All_less_Suc2 split: sum.split option.split)
qed simp

lemma pull_some:
  "snd (pullHandler handler k n) = Inr (Some m) \<longleftrightarrow>
   (\<exists>j < n. handler (k + j) = Inr (Some m) \<and> (\<forall>i < j. handler (k + i) = Inr None))"
proof (induction n arbitrary: k)
  case (Suc n)
  from Suc [of "Suc k"] show ?case by (simp add: Ex_less_Suc2 All_less_Suc2 split: sum.split option.split)
qed simp

text \<open>C40: An answer is pulled at most ten times: the pulling ends with the first answer or error, and with the message
  about the timeout exactly when ten calls gave nothing.\<close>

theorem pulling_bounded:
  "fst (pullHandler handler 0 API_PULLING_maxRetries) \<le> 10 \<and>
   (pullAiMessage handler = Inr (Inl [timeout_message])) = list_all (\<lambda>k. handler k = Inr None) [0..<10] \<and>
   (pullAiMessage handler = Inr (Inr m)) =
     (\<exists>k. k < 10 \<and> handler k = Inr (Some m) \<and> list_all (\<lambda>j. handler j = Inr None) [0..<k])"
proof (intro conjI)
  let ?r = "snd (pullHandler handler 0 10)"
  have upto: "list_all P [0..<n] \<longleftrightarrow> (\<forall>j < n. P j)" for P n by (auto simp: list_all_iff)
  show "fst (pullHandler handler 0 API_PULLING_maxRetries) \<le> 10"
    using pull_calls [of handler 0 10] by (simp add: API_PULLING_maxRetries_def)
  have "pullAiMessage handler = Inr (Inl [timeout_message]) \<longleftrightarrow> ?r = Inr None"
    unfolding pullAiMessage_def API_PULLING_maxRetries_def by (simp split: sum.split option.split)
  then show "(pullAiMessage handler = Inr (Inl [timeout_message])) = list_all (\<lambda>k. handler k = Inr None) [0..<10]"
    using pull_none [of handler 0 10] by (simp only: upto add_0)
  have "pullAiMessage handler = Inr (Inr m) \<longleftrightarrow> ?r = Inr (Some m)"
    unfolding pullAiMessage_def API_PULLING_maxRetries_def by (simp split: sum.split option.split)
  then show "(pullAiMessage handler = Inr (Inr m)) =
      (\<exists>k. k < 10 \<and> handler k = Inr (Some m) \<and> list_all (\<lambda>j. handler j = Inr None) [0..<k])"
    using pull_some [of handler 0 10 m] by (simp only: upto add_0)
qed

text \<open>Without a version the choice is remembered: an instance whose version is learned later keeps the mutation of
  17.3, whatever its version is.\<close>

theorem unknown_version_remembered:
  "fst (actionMutation V categories (Some v) (snd (actionMutation V categories' None \<lparr>ca_cachedActionMutation = None,
     ca_cachedMessagesQuery = q\<rparr>))) = Template_17_3_and_later"
  by (simp add: actionMutation_def Let_def)

end
