(* ===== verification/Duo_Chat.thy ===== *)
theory Duo_Chat
  imports Duo_Chat_Api
begin

text \<open>
  The controller of the chat (\<open>packages/webview_duo_chat_v2/src/plugin/chat_controller.ts\<close>) and the subscription to
  streamed answers (\<open>port/chat/khulnasoft_chat_api.ts\<close>).

  Records are objects that the history and the running operations share: \<open>ch_records\<close> is the store, everything else
  refers to positions in it.  An operation stops at every \<open>await\<close>; where it goes on is a task, and the answer that it
  waited for is the argument of the step that runs the task.  \<open>ch_out\<close> are the notifications to the web view and to the
  editor, \<open>ch_requests\<close> the mutations sent.
\<close>

record chat_subscription =
  cs_subscriptionId :: string
  cs_fullMessageReceived :: bool
  cs_connected :: bool

datatype chat_task =
    Subscribe nat
  | Send nat "nat option"
  | Act nat "nat option"
  | Respond nat bool
  | Refresh nat
  | Restore
  | Restore_items
  | Clear_items
  | Send_clear
  | Clear

datatype ('s, 'm, 'c) chat_out =
    Out_new_record "('s, 'm) chat_record"
  | Out_update_record "('s, 'm) chat_record"
  | Out_cancel_prompt "string list"
  | Out_clear_chat
  | Out_initial_state
  | Out_categories "'c list"
  | Out_current_items "'m chat_item list"
  | Out_search_result "'m chat_item list"
  | Out_insert_snippet string
  | Out_show_message string

record ('s, 'm, 'c) chat =
  ch_records :: "('s, 'm) chat_record list"
  ch_history :: "nat list"
  ch_canceled :: "string list"
  ch_subscriptions :: "chat_subscription list"
  ch_tasks :: "chat_task list"
  ch_api :: chat_api
  ch_requests :: "(chat_template \<times> (string \<times> 'm variable) list) list"
  ch_out :: "('s, 'm, 'c) chat_out list"

record chat_env =
  cv_semver :: semver_api
  cv_parse :: "string \<Rightarrow> int"
  cv_version :: "string option"
  cv_toString :: "js_error \<Rightarrow> string"

definition chat_new :: "('s, 'm, 'c) chat" where
  "chat_new = \<lparr>ch_records = [], ch_history = [], ch_canceled = [], ch_subscriptions = [], ch_tasks = [],
               ch_api = \<lparr>ca_cachedActionMutation = None, ca_cachedMessagesQuery = None\<rparr>, ch_requests = [], ch_out = []\<rparr>"

definition emit_chat :: "('s, 'm, 'c) chat_out \<Rightarrow> ('s, 'm, 'c) chat \<Rightarrow> ('s, 'm, 'c) chat" where
  "emit_chat x c = c\<lparr>ch_out := ch_out c @ [x]\<rparr>"

definition upd_record ::
  "nat \<Rightarrow> (('s, 'm) chat_record \<Rightarrow> ('s, 'm) chat_record) \<Rightarrow> ('s, 'm, 'c) chat \<Rightarrow> ('s, 'm, 'c) chat" where
  "upd_record r f c = c\<lparr>ch_records := (ch_records c)[r := f (ch_records c ! r)]\<rparr>"

definition add_task :: "chat_task \<Rightarrow> ('s, 'm, 'c) chat \<Rightarrow> ('s, 'm, 'c) chat" where
  "add_task t c = c\<lparr>ch_tasks := ch_tasks c @ [t]\<rparr>"

definition end_task :: "nat \<Rightarrow> chat_task list \<Rightarrow> ('s, 'm, 'c) chat \<Rightarrow> ('s, 'm, 'c) chat" where
  "end_task i rest c = c\<lparr>ch_tasks := take i (ch_tasks c) @ rest @ drop (Suc i) (ch_tasks c)\<rparr>"

subsection \<open>A new prompt\<close>

definition processNewUserRecord :: "nat \<Rightarrow> ('s, 'm, 'c) chat \<Rightarrow> ('s, 'm, 'c) chat" where
  "processNewUserRecord r c =
     (case cr_content (ch_records c ! r) of
        None \<Rightarrow> c
      | Some content \<Rightarrow> if content = [] then c else add_task (Subscribe r) c)"

definition create_record :: "('s, 'm) chat_record \<Rightarrow> ('s, 'm, 'c) chat \<Rightarrow> nat \<times> ('s, 'm, 'c) chat" where
  "create_record x c = (length (ch_records c), c\<lparr>ch_records := ch_records c @ [x]\<rparr>)"

definition newPrompt ::
  "string \<Rightarrow> int \<Rightarrow> string \<Rightarrow> active_file option \<Rightarrow> js_error + 'm chat_item list \<Rightarrow> ('s, 'm, 'c) chat \<Rightarrow>
   ('s, 'm, 'c) chat" where
  "newPrompt uuid now content activeFileContext retrieved c =
     (let (r, c1) = create_record (buildWithContext retrieved
            (new_record uuid now User_role (Some content) None None None activeFileContext)) c
      in add_task Clear_items (processNewUserRecord r c1))"

definition handleExtensionPrompt ::
  "string \<Rightarrow> int \<Rightarrow> chat_record_type \<Rightarrow> active_file option \<Rightarrow> js_error + 'm chat_item list \<Rightarrow> ('s, 'm, 'c) chat \<Rightarrow>
   ('s, 'm, 'c) chat" where
  "handleExtensionPrompt uuid now promptType fileContext retrieved c =
     (if promptType \<notin> set validPromptTypes then c
      else if promptType \<noteq> NewConversation \<and> fileContext = None then c
      else
        let (r, c1) = create_record (buildWithContext retrieved
              (new_record uuid now User_role (commandToContentMap promptType) (Some promptType) None None fileContext)) c
        in processNewUserRecord r c1)"

text \<open>The subscription comes first; without the user's identifier or a connection the answer is pulled later.\<close>

definition subscribeToUpdates :: "string option \<Rightarrow> js_error option \<Rightarrow> js_error + unit" where
  "subscribeToUpdates userId connectToCable =
     (case userId of
        None \<Rightarrow> Inl (JsError (''Couldn'' @ [CHR 0x27] @ ''t get user id for account''))
      | Some u \<Rightarrow>
          if u = [] then Inl (JsError (''Couldn'' @ [CHR 0x27] @ ''t get user id for account''))
          else (case connectToCable of Some e \<Rightarrow> Inl e | None \<Rightarrow> Inr ()))"

definition subscribed_task ::
  "nat \<Rightarrow> string option \<Rightarrow> js_error option \<Rightarrow> ('s, 'm, 'c) chat \<Rightarrow> ('s, 'm, 'c) chat" where
  "subscribed_task i userId connectToCable c =
     (case ch_tasks c ! i of
        Subscribe r \<Rightarrow>
          (case subscribeToUpdates userId connectToCable of
             Inl e \<Rightarrow> end_task i [Send r None] c
           | Inr u \<Rightarrow> end_task i [Send r (Some (length (ch_subscriptions c)))]
               (c\<lparr>ch_subscriptions := ch_subscriptions c @ [\<lparr>cs_subscriptionId = cr_id (ch_records c ! r),
                    cs_fullMessageReceived = False, cs_connected = True\<rparr>]\<rparr>))
      | _ \<Rightarrow> c)"

definition disconnect :: "nat \<Rightarrow> ('s, 'm, 'c) chat \<Rightarrow> ('s, 'm, 'c) chat" where
  "disconnect j c = c\<lparr>ch_subscriptions := (ch_subscriptions c)[j := (ch_subscriptions c ! j)\<lparr>cs_connected := False\<rparr>]\<rparr>"

text \<open>The answer to the mutation; a failure has the message of its first GraphQL error, if any, and its own.\<close>

datatype action_result =
    Action_ok string "string list"
  | Action_failed "string option" string
  | Action_empty

definition action_message :: "action_result \<Rightarrow> string" where
  "action_message result =
     ''Failed to send the chat message to the API: '' @
     (case result of Action_failed (Some m) _ \<Rightarrow> m | Action_failed None m \<Rightarrow> m | _ \<Rightarrow> ''No action response'')"

definition addToChat :: "nat \<Rightarrow> ('s, 'm, 'c) chat \<Rightarrow> ('s, 'm, 'c) chat" where
  "addToChat r c = emit_chat (Out_new_record (ch_records c ! r)) (c\<lparr>ch_history := ch_history c @ [r]\<rparr>)"

definition send_prompt :: "chat_env \<Rightarrow> js_error + 'c list \<Rightarrow> nat \<Rightarrow> ('s, 'm, 'c) chat \<Rightarrow> ('s, 'm, 'c) chat" where
  "send_prompt E categories r c =
     (let x = ch_records c ! r; (t, a) = actionMutation (cv_semver E) categories (cv_version E) (ch_api c)
      in c\<lparr>ch_api := a, ch_requests := ch_requests c @ [(t, sendAiAction t (prompt_variables
             (case cr_content x of None \<Rightarrow> [] | Some s \<Rightarrow> s) (Some (cr_id x)) (cr_currentFile x)
             (Option.bind (cr_extras x) ce_contextItems)))]\<rparr>)"

definition sent_task :: "chat_env \<Rightarrow> nat \<Rightarrow> js_error + 'c list \<Rightarrow> ('s, 'm, 'c) chat \<Rightarrow> ('s, 'm, 'c) chat" where
  "sent_task E i categories c =
     (case ch_tasks c ! i of
        Send r cable \<Rightarrow> end_task i [Act r cable] (send_prompt E categories r c)
      | _ \<Rightarrow> c)"

definition acted_task :: "nat \<Rightarrow> action_result \<Rightarrow> ('s, 'm, 'c) chat \<Rightarrow> ('s, 'm, 'c) chat" where
  "acted_task i result c =
     (case ch_tasks c ! i of
        Act r cable \<Rightarrow>
          (case result of
             Action_ok requestId errors \<Rightarrow>
               let c1 = addToChat r (upd_record r (\<lambda>x. x\<lparr>cr_requestId := Some requestId, cr_errors := errors\<rparr>) c)
               in end_task i (if cr_type (ch_records c ! r) = NewConversation then [] else [Respond r (cable = None)]) c1
           | _ \<Rightarrow>
               let c1 = (case cable of None \<Rightarrow> c | Some j \<Rightarrow> disconnect j c)
               in end_task i [] (emit_chat (Out_show_message (action_message result))
                    (upd_record r (\<lambda>x. x\<lparr>cr_errors := [action_message result]\<rparr>) c1)))
      | _ \<Rightarrow> c)"

definition respond_task :: "nat \<Rightarrow> string \<Rightarrow> int \<Rightarrow> ('s, 'm, 'c) chat \<Rightarrow> ('s, 'm, 'c) chat" where
  "respond_task i uuid now c =
     (case ch_tasks c ! i of
        Respond r useFallback \<Rightarrow>
          let (a, c1) = create_record (new_record uuid now Assistant_role None None (Some Record_pending)
                          (cr_requestId (ch_records c ! r)) None) c
          in end_task i (if useFallback then [Refresh r, Refresh a] else []) (addToChat a c1)
      | _ \<Rightarrow> c)"

text \<open>The fallback.  A record without an identifier, or a failing API, ends the operation with an error.\<close>

definition message_extras :: "(string \<Rightarrow> string) \<Rightarrow> ('s, 'm) ai_message \<Rightarrow> ('s, 'm) chat_extras" where
  "message_extras category m =
     \<lparr>ce_sources = (case ar_extras m of None \<Rightarrow> [] | Some (ss, is) \<Rightarrow> ss),
      ce_contextItems = (case ar_extras m of None \<Rightarrow> None
                         | Some (ss, is) \<Rightarrow> map_option (map (\<lambda>x. x\<lparr>ci_category := category (ci_category x)\<rparr>)) is)\<rparr>"

definition refresh_task ::
  "chat_env \<Rightarrow> nat \<Rightarrow> (nat \<Rightarrow> js_error + ('s, 'm) ai_message option) \<Rightarrow> ('s, 'm, 'c) chat \<Rightarrow> ('s, 'm, 'c) chat" where
  "refresh_task E i pulls c =
     (case ch_tasks c ! i of
        Refresh r \<Rightarrow>
          if cr_requestId (ch_records c ! r) = None \<or> cr_requestId (ch_records c ! r) = Some [] then end_task i [] c
          else
            let c1 = c\<lparr>ch_api := snd (messagesQuery (cv_semver E) (cv_version E) (ch_api c))\<rparr> in
            (case pullAiMessage pulls of
               Inl e \<Rightarrow> end_task i [] c1
             | Inr answer \<Rightarrow>
                 let c2 = (case answer of
                       Inl errors \<Rightarrow> upd_record r (\<lambda>x. x\<lparr>cr_errors := errors, cr_state := Record_ready\<rparr>) c1
                     | Inr m \<Rightarrow> upd_record r (\<lambda>x. x\<lparr>cr_content := Some (ar_content m), cr_extras := Some (message_extras id m),
                           cr_timestamp := converted_time (cv_parse E) (ar_timestamp m), cr_errors := ar_errors m,
                           cr_state := Record_ready\<rparr>) c1)
                 in end_task i [] (emit_chat (Out_update_record (ch_records c2 ! r)) c2))
      | _ \<Rightarrow> c)"

subsection \<open>Streamed answers\<close>

definition findRecord :: "string \<Rightarrow> string \<Rightarrow> ('s, 'm, 'c) chat \<Rightarrow> nat option" where
  "findRecord requestId role c =
     List.find (\<lambda>r. cr_requestId (ch_records c ! r) = Some requestId \<and>
                    to_lower (role_name (cr_role (ch_records c ! r))) = to_lower role) (ch_history c)"

definition subscriptionUpdateHandler ::
  "chat_env \<Rightarrow> ('s, 'm) ai_message \<Rightarrow> ('s, 'm, 'c) chat \<Rightarrow> ('s, 'm, 'c) chat" where
  "subscriptionUpdateHandler E data c =
     (case findRecord (ar_requestId data) (ar_role data) c of
        None \<Rightarrow> c
      | Some r \<Rightarrow>
          let c1 = upd_record r (\<lambda>x. x\<lparr>cr_chunkId := ar_chunkId data, cr_content := Some (ar_content data),
                     cr_extras := Some (message_extras to_lower data),
                     cr_timestamp := converted_time (cv_parse E) (ar_timestamp data), cr_errors := ar_errors data,
                     cr_state := Record_ready\<rparr>) c
          in emit_chat (Out_update_record (ch_records c1 ! r)) c1)"

text \<open>What the channel of a subscription receives.  A channel whose cable is closed receives nothing.\<close>

definition channel_receives ::
  "chat_env \<Rightarrow> nat \<Rightarrow> ('s, 'm) ai_message \<Rightarrow> ('s, 'm, 'c) chat \<Rightarrow> ('s, 'm, 'c) chat" where
  "channel_receives E j data c =
     (let s = ch_subscriptions c ! j in
      if \<not> cs_connected s then c
      else case receive data of
          System_message \<Rightarrow> c
        | New_chunk \<Rightarrow>
            if cs_fullMessageReceived s \<or> ar_requestId data \<in> set (ch_canceled c) then c
            else subscriptionUpdateHandler E data c
        | Full_message \<Rightarrow>
            let c1 = c\<lparr>ch_subscriptions := (ch_subscriptions c)[j := s\<lparr>cs_fullMessageReceived := True\<rparr>]\<rparr> in
            if ar_requestId data \<in> set (ch_canceled c) then disconnect j c1
            else let c2 = subscriptionUpdateHandler E data c1
                 in if cs_subscriptionId s \<noteq> [] then disconnect j c2 else c2)"

subsection \<open>Other notifications of the web view\<close>

definition cancelPrompt :: "string \<Rightarrow> ('s, 'm, 'c) chat \<Rightarrow> ('s, 'm, 'c) chat" where
  "cancelPrompt canceledPromptRequestId c =
     (let ids = ch_canceled c @ [canceledPromptRequestId] in emit_chat (Out_cancel_prompt ids) (c\<lparr>ch_canceled := ids\<rparr>))"

definition appReady :: "('s, 'm, 'c) chat \<Rightarrow> ('s, 'm, 'c) chat" where
  "appReady c = add_task Restore (if ch_canceled c \<noteq> [] then emit_chat (Out_cancel_prompt (ch_canceled c)) c else c)"

definition refreshCurrentContextItems :: "js_error + 'm chat_item list \<Rightarrow> ('s, 'm, 'c) chat \<Rightarrow> ('s, 'm, 'c) chat" where
  "refreshCurrentContextItems items c = (case items of Inl e \<Rightarrow> c | Inr is \<Rightarrow> emit_chat (Out_current_items is) c)"

definition refreshContextCategories :: "js_error + 'c list \<Rightarrow> ('s, 'm, 'c) chat \<Rightarrow> ('s, 'm, 'c) chat" where
  "refreshContextCategories categories c = (case categories of Inl e \<Rightarrow> c | Inr cs \<Rightarrow> emit_chat (Out_categories cs) c)"

definition restored_task :: "nat \<Rightarrow> js_error + 'c list \<Rightarrow> ('s, 'm, 'c) chat \<Rightarrow> ('s, 'm, 'c) chat" where
  "restored_task i categories c =
     (case ch_tasks c ! i of
        Restore \<Rightarrow> end_task i [Restore_items] (refreshContextCategories categories c)
      | _ \<Rightarrow> c)"

definition restored_items_task :: "nat \<Rightarrow> js_error + 'm chat_item list \<Rightarrow> ('s, 'm, 'c) chat \<Rightarrow> ('s, 'm, 'c) chat" where
  "restored_items_task i items c =
     (case ch_tasks c ! i of
        Restore_items \<Rightarrow>
          end_task i [] (emit_chat Out_initial_state
            (fold (\<lambda>r. emit_chat (Out_new_record (ch_records c ! r))) (ch_history c) (refreshCurrentContextItems items c)))
      | _ \<Rightarrow> c)"

text \<open>The items selected after the manager has cleared them, or the error of one of the two calls.\<close>

definition clearSelectedContextItems ::
  "nat \<Rightarrow> js_error + 'm chat_item list \<Rightarrow> ('s, 'm, 'c) chat \<Rightarrow> ('s, 'm, 'c) chat" where
  "clearSelectedContextItems i items c =
     (case ch_tasks c ! i of
        Clear_items \<Rightarrow> end_task i [] (refreshCurrentContextItems items c)
      | _ \<Rightarrow> c)"

definition instance_version :: "chat_env \<Rightarrow> string" where
  "instance_version E = (case cv_version E of None \<Rightarrow> ''17.4.0'' | Some v \<Rightarrow> v)"

definition clearChat ::
  "chat_env \<Rightarrow> string \<Rightarrow> int \<Rightarrow> string \<Rightarrow> js_error + 'm chat_item list \<Rightarrow> ('s, 'm, 'c) chat \<Rightarrow> ('s, 'm, 'c) chat" where
  "clearChat E uuid now content retrieved c =
     (if content = message_CLEAN \<and> sv_gte (cv_semver E) (instance_version E) ''17.5.0'' then
        let (r, c1) = create_record (buildWithContext retrieved
              (new_record uuid now User_role (Some content) (Some General) None None None)) c
        in add_task Clear_items (processNewUserRecord r c1)
      else add_task Send_clear c)"

definition join_comma :: "string list \<Rightarrow> string" where
  "join_comma xs = (case xs of [] \<Rightarrow> [] | y # ys \<Rightarrow> y @ concat (map (\<lambda>z. '', '' @ z) ys))"

definition clear_sent_task :: "chat_env \<Rightarrow> nat \<Rightarrow> js_error + 'c list \<Rightarrow> ('s, 'm, 'c) chat \<Rightarrow> ('s, 'm, 'c) chat" where
  "clear_sent_task E i categories c =
     (case ch_tasks c ! i of
        Send_clear \<Rightarrow>
          let (t, a) = actionMutation (cv_semver E) categories (cv_version E) (ch_api c)
          in end_task i [Clear] (c\<lparr>ch_api := a, ch_requests := ch_requests c @
               [(t, sendAiAction t (prompt_variables message_CLEAR None None None))]\<rparr>)
      | _ \<Rightarrow> c)"

text \<open>The mutation and the clearing of the items run together.  An error of the mutation does not wait for the items.\<close>

definition cleared_task ::
  "chat_env \<Rightarrow> nat \<Rightarrow> (js_error + 'm chat_item list) option \<Rightarrow> js_error + string list \<Rightarrow> ('s, 'm, 'c) chat \<Rightarrow>
   ('s, 'm, 'c) chat" where
  "cleared_task E i items result c =
     (case ch_tasks c ! i of
        Clear \<Rightarrow>
          (case (result, items) of
             (Inl e, None) \<Rightarrow> end_task i [Clear_items] (emit_chat (Out_show_message (cv_toString E e)) c)
           | (Inl e, Some is) \<Rightarrow>
               end_task i [] (emit_chat (Out_show_message (cv_toString E e)) (refreshCurrentContextItems is c))
           | (Inr errors, None) \<Rightarrow> c
           | (Inr errors, Some is) \<Rightarrow>
               let c1 = refreshCurrentContextItems is c
               in end_task i []
                    (if errors \<noteq> [] then emit_chat (Out_show_message (join_comma errors)) c1
                     else (emit_chat Out_clear_chat c1)\<lparr>ch_history := []\<rparr>))
      | _ \<Rightarrow> c)"

definition insertCodeSnippet :: "string option \<Rightarrow> ('s, 'm, 'c) chat \<Rightarrow> ('s, 'm, 'c) chat" where
  "insertCodeSnippet snippet c =
     (case snippet of None \<Rightarrow> c | Some s \<Rightarrow> if s = [] then c else emit_chat (Out_insert_snippet s) c)"

definition searchContextItems :: "js_error + 'm chat_item list \<Rightarrow> ('s, 'm, 'c) chat \<Rightarrow> ('s, 'm, 'c) chat" where
  "searchContextItems results c =
     (case results of
        Inl e \<Rightarrow> emit_chat (Out_show_message ''Error searching for context items.'') c
      | Inr is \<Rightarrow> emit_chat (Out_search_result is) c)"

text \<open>Adding or removing an item: the error of the manager, or the items selected after it.\<close>

definition addContextItem :: "js_error option \<Rightarrow> js_error + 'm chat_item list \<Rightarrow> ('s, 'm, 'c) chat \<Rightarrow> ('s, 'm, 'c) chat" where
  "addContextItem added items c =
     (case added of Some e \<Rightarrow> emit_chat (Out_show_message ''Error adding context item.'') c
                  | None \<Rightarrow> refreshCurrentContextItems items c)"

definition removeContextItem :: "js_error option \<Rightarrow> js_error + 'm chat_item list \<Rightarrow> ('s, 'm, 'c) chat \<Rightarrow> ('s, 'm, 'c) chat" where
  "removeContextItem removed items c =
     (case removed of Some e \<Rightarrow> emit_chat (Out_show_message ''Error removing context item'') c
                    | None \<Rightarrow> refreshCurrentContextItems items c)"

definition replace_item :: "string \<Rightarrow> 'm chat_item \<Rightarrow> 'm chat_item list \<Rightarrow> 'm chat_item list" where
  "replace_item i x = map (\<lambda>y. if ci_id y = i then x else y)"

definition getContextItemContent ::
  "string \<Rightarrow> string option \<Rightarrow> js_error + 'm chat_item \<Rightarrow> js_error + 'm chat_item list \<Rightarrow> ('s, 'm, 'c) chat \<Rightarrow>
   ('s, 'm, 'c) chat" where
  "getContextItemContent itemId messageId hydrated items c =
     (case hydrated of
        Inl e \<Rightarrow> emit_chat (Out_show_message ''Error getting context item content'') c
      | Inr x \<Rightarrow>
          (case messageId of
             None \<Rightarrow>
               (case items of
                  Inl e \<Rightarrow> emit_chat (Out_show_message ''Error getting context item content'') c
                | Inr is \<Rightarrow> emit_chat (Out_current_items (replace_item itemId x is)) c)
           | Some mid \<Rightarrow>
               (case List.find (\<lambda>r. cr_id (ch_records c ! r) = mid) (ch_history c) of
                  None \<Rightarrow> c
                | Some r \<Rightarrow>
                    (case Option.bind (cr_extras (ch_records c ! r)) ce_contextItems of
                       None \<Rightarrow> c
                     | Some is \<Rightarrow>
                         let c1 = upd_record r (\<lambda>y. y\<lparr>cr_extras := map_option
                               (\<lambda>z. z\<lparr>ce_contextItems := Some (replace_item (ci_id x) x is)\<rparr>) (cr_extras y)\<rparr>) c
                         in emit_chat (Out_new_record (ch_records c1 ! r)) c1))))"

subsection \<open>Runs\<close>

datatype ('s, 'm, 'c) chat_action =
    New_prompt string int string "active_file option" "js_error + 'm chat_item list"
  | Extension_prompt string int chat_record_type "active_file option" "js_error + 'm chat_item list"
  | Subscribe_answered nat "string option" "js_error option"
  | Prompt_sent nat "js_error + 'c list"
  | Action_answered nat action_result
  | Response_added nat string int
  | Pull_answered nat "nat \<Rightarrow> js_error + ('s, 'm) ai_message option"
  | Channel_message nat "('s, 'm) ai_message"
  | Cancel_prompt string
  | App_ready
  | Restore_answered nat "js_error + 'c list"
  | Restore_items_answered nat "js_error + 'm chat_item list"
  | Items_cleared nat "js_error + 'm chat_item list"
  | Clear_chat string int string "js_error + 'm chat_item list"
  | Clear_sent nat "js_error + 'c list"
  | Clear_answered nat "(js_error + 'm chat_item list) option" "js_error + string list"
  | Insert_snippet "string option"
  | Search_items "js_error + 'm chat_item list"
  | Add_item "js_error option" "js_error + 'm chat_item list"
  | Remove_item "js_error option" "js_error + 'm chat_item list"
  | Get_item_content string "string option" "js_error + 'm chat_item" "js_error + 'm chat_item list"

definition task_at :: "nat \<Rightarrow> (('s, 'm, 'c) chat \<Rightarrow> ('s, 'm, 'c) chat) \<Rightarrow> ('s, 'm, 'c) chat \<Rightarrow> ('s, 'm, 'c) chat" where
  "task_at i f c = (if i < length (ch_tasks c) then f c else c)"

fun chat_do :: "chat_env \<Rightarrow> ('s, 'm, 'c) chat_action \<Rightarrow> ('s, 'm, 'c) chat \<Rightarrow> ('s, 'm, 'c) chat" where
  "chat_do E (New_prompt uuid now content f retrieved) c = newPrompt uuid now content f retrieved c"
| "chat_do E (Extension_prompt uuid now t f retrieved) c = handleExtensionPrompt uuid now t f retrieved c"
| "chat_do E (Subscribe_answered i u e) c = task_at i (subscribed_task i u e) c"
| "chat_do E (Prompt_sent i cs) c = task_at i (sent_task E i cs) c"
| "chat_do E (Action_answered i result) c = task_at i (acted_task i result) c"
| "chat_do E (Response_added i uuid now) c = task_at i (respond_task i uuid now) c"
| "chat_do E (Pull_answered i pulls) c = task_at i (refresh_task E i pulls) c"
| "chat_do E (Channel_message j m) c = (if j < length (ch_subscriptions c) then channel_receives E j m c else c)"
| "chat_do E (Cancel_prompt i) c = cancelPrompt i c"
| "chat_do E App_ready c = appReady c"
| "chat_do E (Restore_answered i cs) c = task_at i (restored_task i cs) c"
| "chat_do E (Restore_items_answered i items) c = task_at i (restored_items_task i items) c"
| "chat_do E (Items_cleared i items) c = task_at i (clearSelectedContextItems i items) c"
| "chat_do E (Clear_chat uuid now content retrieved) c = clearChat E uuid now content retrieved c"
| "chat_do E (Clear_sent i cs) c = task_at i (clear_sent_task E i cs) c"
| "chat_do E (Clear_answered i items result) c = task_at i (cleared_task E i items result) c"
| "chat_do E (Insert_snippet s) c = insertCodeSnippet s c"
| "chat_do E (Search_items results) c = searchContextItems results c"
| "chat_do E (Add_item e items) c = addContextItem e items c"
| "chat_do E (Remove_item e items) c = removeContextItem e items c"
| "chat_do E (Get_item_content i mid x items) c = getContextItemContent i mid x items c"

definition chat_run :: "chat_env \<Rightarrow> ('s, 'm, 'c) chat_action list \<Rightarrow> ('s, 'm, 'c) chat \<Rightarrow> ('s, 'm, 'c) chat" where
  "chat_run E = fold (chat_do E)"

subsection \<open>The invariant of the conversation\<close>

type_synonym record_key = "chat_role \<times> string option"

definition record_key :: "('s, 'm) chat_record \<Rightarrow> record_key" where
  "record_key x = (cr_role x, cr_requestId x)"

definition keys :: "('s, 'm, 'c) chat \<Rightarrow> record_key list" where
  "keys c = map record_key (ch_records c)"

fun task_records :: "chat_task \<Rightarrow> nat list" where
  "task_records (Subscribe r) = [r]"
| "task_records (Send r _) = [r]"
| "task_records (Act r _) = [r]"
| "task_records _ = []"

definition key_at :: "record_key list \<Rightarrow> nat \<Rightarrow> record_key option" where
  "key_at ks r = (if r < length ks then Some (ks ! r) else None)"

fun task_ok :: "record_key list \<Rightarrow> chat_task \<Rightarrow> bool" where
  "task_ok ks (Subscribe r) = (key_at ks r = Some (User_role, None))"
| "task_ok ks (Send r _) = (key_at ks r = Some (User_role, None))"
| "task_ok ks (Act r _) = (key_at ks r = Some (User_role, None))"
| "task_ok ks (Respond r _) = (\<exists>q. key_at ks r = Some (User_role, Some q))"
| "task_ok ks (Refresh r) = (key_at ks r \<noteq> None)"
| "task_ok ks _ = True"

definition answers_ok :: "record_key list \<Rightarrow> bool" where
  "answers_ok ks \<longleftrightarrow> (\<forall>a q. key_at ks a = Some (Assistant_role, q) \<longrightarrow> q \<noteq> None \<and> (\<exists>u. key_at ks u = Some (User_role, q)))"

definition conversation_ok :: "record_key list \<Rightarrow> nat list \<Rightarrow> chat_task list \<Rightarrow> bool" where
  "conversation_ok ks h ts \<longleftrightarrow>
     distinct (concat (map task_records ts) @ h) \<and> (\<forall>t \<in> set ts. task_ok ks t) \<and>
     (\<forall>r \<in> set h. \<exists>role q. key_at ks r = Some (role, Some q)) \<and> answers_ok ks"

definition chat_ok :: "('s, 'm, 'c) chat \<Rightarrow> bool" where
  "chat_ok c \<longleftrightarrow> conversation_ok (keys c) (ch_history c) (ch_tasks c)"

lemma key_at_append:
  "key_at (ks @ [x]) r = (if r = length ks then Some x else key_at ks r)"
  by (auto simp: key_at_def nth_append)

lemma key_at_length [simp]: "key_at ks (length ks) = None"
  by (simp add: key_at_def)

lemma key_at_update:
  "key_at (ks[r := x]) r' = (if r' = r \<and> r < length ks then Some x else key_at ks r')"
  by (auto simp: key_at_def)

lemma task_ok_append: "task_ok ks t \<Longrightarrow> task_ok (ks @ [x]) t"
  by (cases t) (auto simp: key_at_append)

lemma task_ok_records: "task_ok ks t \<Longrightarrow> r \<in> set (task_records t) \<Longrightarrow> key_at ks r = Some (User_role, None)"
  by (cases t) auto

lemma conversation_empty: "conversation_ok ks h ts \<Longrightarrow> conversation_ok ks [] ts"
  by (simp add: conversation_ok_def)

text \<open>A task ends.\<close>

lemma conversation_end: "conversation_ok ks h (ts @ t # us) \<Longrightarrow> conversation_ok ks h (ts @ us)"
  by (auto simp: conversation_ok_def)

text \<open>A task goes on with another on the same record, or one without a record starts.\<close>

lemma conversation_next:
  "conversation_ok ks h (ts @ t # us) \<Longrightarrow> task_records t' = task_records t \<Longrightarrow> task_ok ks t' \<Longrightarrow>
   conversation_ok ks h (ts @ t' # us)"
  by (simp add: conversation_ok_def)

lemma conversation_add:
  "conversation_ok ks h ts \<Longrightarrow> task_records t = [] \<Longrightarrow> task_ok ks t \<Longrightarrow> conversation_ok ks h (ts @ [t])"
  by (auto simp: conversation_ok_def)

lemma new_position:
  assumes "conversation_ok ks h ts"
  shows "length ks \<notin> set (concat (map task_records ts))" "length ks \<notin> set h"
  using assms task_ok_records [of ks _ "length ks"] by (auto simp: conversation_ok_def)

text \<open>A prompt is created, and its operation starts.\<close>

lemma answers_ok_user:
  assumes "answers_ok ks"
  shows "answers_ok (ks @ [(User_role, None)])"
  unfolding answers_ok_def
proof (intro allI impI)
  fix a q
  assume "key_at (ks @ [(User_role, None)]) a = Some (Assistant_role, q)"
  then have "key_at ks a = Some (Assistant_role, q)" by (simp add: key_at_append split: if_splits)
  with assms obtain u where "q \<noteq> None" "key_at ks u = Some (User_role, q)" unfolding answers_ok_def by blast
  moreover from this(2) have "u \<noteq> length ks" by auto
  ultimately show "q \<noteq> None \<and> (\<exists>u. key_at (ks @ [(User_role, None)]) u = Some (User_role, q))"
    by (intro conjI exI [of _ u]) (simp_all add: key_at_append)
qed

lemma conversation_created:
  assumes "conversation_ok ks h ts"
  shows "conversation_ok (ks @ [(User_role, None)]) h ts"
  using assms new_position [OF assms] answers_ok_user unfolding conversation_ok_def
  by (auto simp: task_ok_append key_at_append)

lemma conversation_prompt:
  assumes "conversation_ok ks h ts"
  shows "conversation_ok (ks @ [(User_role, None)]) h (ts @ [Subscribe (length ks)])"
  using conversation_created [OF assms] new_position [OF assms] by (auto simp: conversation_ok_def key_at_append)

text \<open>The mutation was answered: the record gets its identifier and joins the history.\<close>

lemma conversation_acted:
  assumes ok: "conversation_ok ks h (ts @ Act r cable # us)" and tail: "rest = [] \<or> rest = [Respond r f]"
  shows "conversation_ok (ks[r := (User_role, Some q)]) (h @ [r]) (ts @ rest @ us)"
proof -
  have r: "key_at ks r = Some (User_role, None)" using ok by (simp add: conversation_ok_def)
  then have len: "r < length ks" by (simp add: key_at_def split: if_splits)
  let ?ks = "ks[r := (User_role, Some q)]"
  have "task_ok ?ks t" if "t \<in> set ts \<union> set us" for t
  proof -
    have "task_ok ks t" "r \<notin> set (task_records t)" using ok that by (auto simp: conversation_ok_def)
    then show ?thesis using len by (cases t) (auto simp: key_at_update)
  qed
  moreover have "answers_ok ?ks"
    unfolding answers_ok_def
  proof (intro allI impI)
    fix a p
    assume "key_at ?ks a = Some (Assistant_role, p)"
    then have "key_at ks a = Some (Assistant_role, p)" by (simp add: key_at_update split: if_splits)
    with ok obtain u where "p \<noteq> None" "key_at ks u = Some (User_role, p)" unfolding conversation_ok_def answers_ok_def by blast
    moreover from this have "u \<noteq> r" using r by auto
    ultimately show "p \<noteq> None \<and> (\<exists>u. key_at ?ks u = Some (User_role, p))"
      by (intro conjI exI [of _ u]) (simp_all add: key_at_update)
  qed
  moreover have "\<exists>role p. key_at ?ks x = Some (role, Some p)" if "x \<in> set (h @ [r])" for x
    using ok that len by (auto simp: conversation_ok_def key_at_update)
  moreover have "distinct (concat (map task_records (ts @ rest @ us)) @ h @ [r])"
    using ok tail by (auto simp: conversation_ok_def)
  moreover have "task_ok ?ks t" if "t \<in> set rest" for t using tail that len by (auto simp: key_at_update)
  ultimately show ?thesis unfolding conversation_ok_def by auto
qed

text \<open>The record of the answer is added.\<close>

lemma conversation_responded:
  assumes ok: "conversation_ok ks h (ts @ Respond r f # us)"
    and tail: "rest = [] \<or> rest = [Refresh r, Refresh (length ks)]"
  shows "conversation_ok (ks @ [(Assistant_role, snd (ks ! r))]) (h @ [length ks]) (ts @ rest @ us)"
proof -
  obtain q where r: "key_at ks r = Some (User_role, Some q)" using ok by (auto simp: conversation_ok_def)
  then have kr: "r < length ks" "ks ! r = (User_role, Some q)" by (auto simp: key_at_def split: if_splits)
  let ?ks = "ks @ [(Assistant_role, Some q)]"
  have ok': "conversation_ok ks h (ts @ us)" using conversation_end [OF ok] .
  have "answers_ok ?ks"
    unfolding answers_ok_def
  proof (intro allI impI)
    fix a p
    assume a: "key_at ?ks a = Some (Assistant_role, p)"
    show "p \<noteq> None \<and> (\<exists>u. key_at ?ks u = Some (User_role, p))"
    proof (cases "a = length ks")
      case True
      with a have "p = Some q" by (simp add: key_at_append)
      moreover have "key_at ?ks r = Some (User_role, Some q)" using r kr(1) by (simp add: key_at_append)
      ultimately show ?thesis by blast
    next
      case False
      with a have "key_at ks a = Some (Assistant_role, p)" by (simp add: key_at_append)
      with ok obtain u where "p \<noteq> None" "key_at ks u = Some (User_role, p)" unfolding conversation_ok_def answers_ok_def by blast
      moreover from this(2) have "u \<noteq> length ks" by auto
      ultimately have "key_at ?ks u = Some (User_role, p)" by (simp add: key_at_append)
      with \<open>p \<noteq> None\<close> show ?thesis by blast
    qed
  qed
  moreover have "task_ok ?ks t" if "t \<in> set (ts @ rest @ us)" for t
  proof -
    from that consider "t \<in> set (ts @ us)" | "t \<in> set rest" by auto
    then show ?thesis
    proof cases
      case 1
      then show ?thesis using ok' by (intro task_ok_append) (simp add: conversation_ok_def)
    next
      case 2
      then show ?thesis using tail r by (auto simp: key_at_append)
    qed
  qed
  moreover have "distinct (concat (map task_records (ts @ rest @ us)) @ h @ [length ks])"
    using tail ok' new_position [OF ok'] by (auto simp: conversation_ok_def)
  moreover have "\<exists>role p. key_at ?ks x = Some (role, Some p)" if "x \<in> set (h @ [length ks])" for x
    using ok' new_position [OF ok'] that by (auto simp: conversation_ok_def key_at_append)
  ultimately show ?thesis unfolding conversation_ok_def kr(2) snd_conv by blast
qed

subsection \<open>Every operation keeps the conversation in order\<close>

definition same_conversation :: "('s, 'm, 'c) chat \<Rightarrow> ('s, 'm, 'c) chat \<Rightarrow> bool" where
  "same_conversation c c' \<longleftrightarrow> keys c' = keys c \<and> ch_history c' = ch_history c \<and> ch_tasks c' = ch_tasks c"

lemma same_conversation_ok: "same_conversation c c' \<Longrightarrow> chat_ok c' = chat_ok c"
  by (simp add: same_conversation_def chat_ok_def)

lemma same_conversation_refl [simp]: "same_conversation c c"
  by (simp add: same_conversation_def)

lemma same_conversation_trans: "same_conversation c c' \<Longrightarrow> same_conversation c' c'' \<Longrightarrow> same_conversation c c''"
  by (simp add: same_conversation_def)

lemma emit_same [simp]: "same_conversation c (emit_chat x c)"
  by (simp add: same_conversation_def emit_chat_def keys_def)

lemma emits_same: "same_conversation c (fold (\<lambda>r. emit_chat (f r)) rs c)"
proof (induction rs arbitrary: c)
  case (Cons r rs)
  show ?case unfolding fold_simps by (rule same_conversation_trans [OF emit_same Cons])
qed simp

lemma keys_upd_record: "keys (upd_record r f c) = (keys c)[r := record_key (f (ch_records c ! r))]"
  by (simp add: keys_def upd_record_def map_update)

lemma upd_record_same:
  assumes "record_key (f (ch_records c ! r)) = record_key (ch_records c ! r)"
  shows "same_conversation c (upd_record r f c)"
proof (cases "r < length (ch_records c)")
  case True
  with assms have "keys (upd_record r f c) = keys c"
    by (simp only: keys_upd_record) (simp add: keys_def list_update_same_conv)
  then show ?thesis by (simp add: same_conversation_def upd_record_def)
qed (simp add: same_conversation_def upd_record_def keys_def not_less list_update_beyond)

lemma other_fields_same [simp]:
  "same_conversation c (c\<lparr>ch_api := a\<rparr>)" "same_conversation c (c\<lparr>ch_requests := rs\<rparr>)"
  "same_conversation c (c\<lparr>ch_canceled := is\<rparr>)" "same_conversation c (c\<lparr>ch_subscriptions := ss\<rparr>)"
  "same_conversation c (c\<lparr>ch_api := a, ch_requests := rs\<rparr>)" "same_conversation c (disconnect j c)"
  by (simp_all add: same_conversation_def keys_def disconnect_def)

lemma send_prompt_same: "same_conversation c (send_prompt E categories r c)"
  by (simp add: send_prompt_def split_beta Let_def)

lemma refresh_items_same:
  "same_conversation c (refreshCurrentContextItems items c)" "same_conversation c (refreshContextCategories cs c)"
  by (simp_all add: refreshCurrentContextItems_def refreshContextCategories_def split: sum.split)

lemma handler_same: "same_conversation c (subscriptionUpdateHandler E data c)"
proof (cases "findRecord (ar_requestId data) (ar_role data) c")
  case (Some r)
  then show ?thesis
    unfolding subscriptionUpdateHandler_def Let_def option.case
    by (simp only: option.case) (rule same_conversation_trans [OF upd_record_same emit_same], simp add: record_key_def)
qed (simp add: subscriptionUpdateHandler_def)

lemma channel_same: "same_conversation c (channel_receives E j data c)"
proof -
  have handled: "same_conversation c (subscriptionUpdateHandler E data (c\<lparr>ch_subscriptions := ss\<rparr>))" for ss
    by (rule same_conversation_trans [OF other_fields_same(4) handler_same])
  have closed: "same_conversation c (disconnect j (subscriptionUpdateHandler E data (c\<lparr>ch_subscriptions := ss\<rparr>)))" for ss
    by (rule same_conversation_trans [OF handled other_fields_same(6)])
  have canceled: "same_conversation c (disconnect j (c\<lparr>ch_subscriptions := ss\<rparr>))" for ss
    by (rule same_conversation_trans [OF other_fields_same(4) other_fields_same(6)])
  show ?thesis
    by (simp add: channel_receives_def Let_def handler_same handled closed canceled split: channel_event.split)
qed

lemma emit_upd_same: "(\<And>z. record_key (f z) = record_key z) \<Longrightarrow> same_conversation c (emit_chat y (upd_record r f c))"
  by (rule same_conversation_trans [OF upd_record_same emit_same])

lemma content_same: "same_conversation c (getContextItemContent i mid x items c)"
  unfolding getContextItemContent_def Let_def
  by (auto intro!: emit_upd_same simp: record_key_def split: sum.split option.split)

text \<open>A new prompt.\<close>

lemma chat_ok_add:
  assumes "chat_ok c" and "t \<in> {Clear_items, Send_clear, Restore}"
  shows "chat_ok (add_task t c)"
  using assms conversation_add [of "keys c" "ch_history c" "ch_tasks c" t]
  by (auto simp: chat_ok_def add_task_def keys_def)

lemma create_prompt_ok:
  assumes ok: "chat_ok c" and x: "record_key x = (User_role, None)"
  shows "chat_ok (processNewUserRecord (fst (create_record x c)) (snd (create_record x c)))"
proof -
  have k: "keys (snd (create_record x c)) = keys c @ [(User_role, None)]" and r: "fst (create_record x c) = length (keys c)"
    by (simp_all add: create_record_def keys_def x)
  have "chat_ok (snd (create_record x c))"
    using conversation_created [of "keys c"] ok unfolding chat_ok_def k by (simp add: create_record_def)
  moreover have "chat_ok (add_task (Subscribe (length (keys c))) (snd (create_record x c)))"
    using conversation_prompt [of "keys c"] ok unfolding chat_ok_def
    by (simp add: add_task_def create_record_def keys_def x)
  ultimately show ?thesis unfolding r by (simp add: processNewUserRecord_def split: option.split)
qed

lemma build_key: "record_key (buildWithContext retrieved x) = record_key x"
  by (simp add: buildWithContext_def record_key_def split: sum.split)

lemma new_user_key: "record_key (new_record uuid now User_role content t st None f) = (User_role, None)"
  by (simp add: new_record_def record_key_def)

lemma prompts_ok:
  assumes "chat_ok c"
  shows "chat_ok (newPrompt uuid now content f retrieved c)" "chat_ok (handleExtensionPrompt uuid now t f retrieved c)"
    "chat_ok (clearChat E uuid now content retrieved c)"
proof -
  have "chat_ok (add_task Send_clear c)" using assms by (simp add: chat_ok_add)
  then show "chat_ok (newPrompt uuid now content f retrieved c)" "chat_ok (handleExtensionPrompt uuid now t f retrieved c)"
    "chat_ok (clearChat E uuid now content retrieved c)"
    using assms create_prompt_ok [OF assms, of "buildWithContext retrieved y" for y]
    by (simp_all add: chat_ok_add newPrompt_def handleExtensionPrompt_def clearChat_def split_beta Let_def build_key new_user_key)
qed

text \<open>The steps of the tasks.\<close>

lemma task_split: "i < length ts \<Longrightarrow> ts = take i ts @ ts ! i # drop (Suc i) ts"
  by (rule id_take_nth_drop)

lemma end_task_view:
  "keys (end_task i rest c) = keys c" "ch_history (end_task i rest c) = ch_history c"
  "ch_tasks (end_task i rest c) = take i (ch_tasks c) @ rest @ drop (Suc i) (ch_tasks c)"
  by (simp_all add: end_task_def keys_def)

lemma addToChat_view:
  "keys (addToChat r c) = keys c" "ch_history (addToChat r c) = ch_history c @ [r]" "ch_tasks (addToChat r c) = ch_tasks c"
  by (simp_all add: addToChat_def emit_chat_def keys_def)

lemma create_record_view:
  "keys (snd (create_record x c)) = keys c @ [record_key x]" "ch_history (snd (create_record x c)) = ch_history c"
  "ch_tasks (snd (create_record x c)) = ch_tasks c" "fst (create_record x c) = length (keys c)"
  by (simp_all add: create_record_def keys_def)

lemma upd_record_view: "ch_history (upd_record r f c) = ch_history c" "ch_tasks (upd_record r f c) = ch_tasks c"
  by (simp_all add: upd_record_def)

lemma chat_ok_end:
  assumes "chat_ok c" and "same_conversation c c'" and "i < length (ch_tasks c)"
  shows "chat_ok (end_task i [] c')"
proof -
  have "conversation_ok (keys c) (ch_history c) (take i (ch_tasks c) @ ch_tasks c ! i # drop (Suc i) (ch_tasks c))"
    using assms(1,3) task_split by (metis chat_ok_def)
  from conversation_end [OF this] show ?thesis
    using assms(2) by (simp add: chat_ok_def end_task_view same_conversation_def)
qed

lemma subscribed_ok:
  assumes ok: "chat_ok c" and i: "i < length (ch_tasks c)"
  shows "chat_ok (subscribed_task i u e c)"
proof (cases "ch_tasks c ! i")
  case (Subscribe r)
  have now: "conversation_ok (keys c) (ch_history c) (take i (ch_tasks c) @ Subscribe r # drop (Suc i) (ch_tasks c))"
    using ok task_split [OF i] Subscribe by (simp add: chat_ok_def)
  then have "task_ok (keys c) (Subscribe r)" by (simp add: conversation_ok_def)
  then have "conversation_ok (keys c) (ch_history c) (take i (ch_tasks c) @ Send r cable # drop (Suc i) (ch_tasks c))" for cable
    by (intro conversation_next [OF now]) simp_all
  then show ?thesis
    using Subscribe by (simp add: subscribed_task_def chat_ok_def end_task_def keys_def split: sum.split)
qed (use ok in \<open>simp_all add: subscribed_task_def\<close>)

text \<open>A task that goes on with another one.\<close>

lemma chat_ok_next:
  assumes "chat_ok c" and "same_conversation c c'" and "i < length (ch_tasks c)"
    and "task_records t = task_records (ch_tasks c ! i)" and "task_ok (keys c) t"
  shows "chat_ok (end_task i [t] c')"
proof -
  have "conversation_ok (keys c) (ch_history c) (take i (ch_tasks c) @ ch_tasks c ! i # drop (Suc i) (ch_tasks c))"
    using assms(1,3) task_split by (metis chat_ok_def)
  from conversation_next [OF this assms(4,5)] show ?thesis
    using assms(2) by (simp add: chat_ok_def end_task_view same_conversation_def)
qed

lemma task_at_ok: "chat_ok c \<Longrightarrow> i < length (ch_tasks c) \<Longrightarrow> task_ok (keys c) (ch_tasks c ! i)"
  by (simp add: chat_ok_def conversation_ok_def)

lemma sent_ok:
  assumes ok: "chat_ok c" and i: "i < length (ch_tasks c)"
  shows "chat_ok (sent_task E i categories c)" "chat_ok (clear_sent_task E i categories c)"
proof -
  have "chat_ok (end_task i [Act r cable] (send_prompt E categories r c))" if "ch_tasks c ! i = Send r cable" for r cable
    using task_at_ok [OF ok i] that by (intro chat_ok_next [OF ok send_prompt_same i]) simp_all
  then show "chat_ok (sent_task E i categories c)" using ok by (simp add: sent_task_def split: chat_task.split)
  have "chat_ok (end_task i [Clear] (c\<lparr>ch_api := a, ch_requests := rs\<rparr>))" if "ch_tasks c ! i = Send_clear" for a rs
    using that by (intro chat_ok_next [OF ok other_fields_same(5) i]) simp_all
  then show "chat_ok (clear_sent_task E i categories c)"
    using ok by (simp add: clear_sent_task_def split_beta Let_def split: chat_task.split)
qed

lemma acted_ok:
  assumes ok: "chat_ok c" and i: "i < length (ch_tasks c)"
  shows "chat_ok (acted_task i result c)"
proof (cases "ch_tasks c ! i")
  case (Act r cable)
  have failed: "chat_ok (end_task i [] (emit_chat y (upd_record r (\<lambda>x. x\<lparr>cr_errors := z\<rparr>)
      (case cable of None \<Rightarrow> c | Some j \<Rightarrow> disconnect j c))))" for y z
    by (rule chat_ok_end [OF ok same_conversation_trans [OF _ emit_upd_same] i]) (auto simp: record_key_def split: option.split)
  show ?thesis
  proof (cases result)
    case (Action_ok q errors)
    let ?f = "\<lambda>x :: ('a, 'b) chat_record. x\<lparr>cr_requestId := Some q, cr_errors := errors\<rparr>"
    let ?rest = "if cr_type (ch_records c ! r) = NewConversation then [] else [Respond r (cable = None)]"
    have now: "conversation_ok (keys c) (ch_history c) (take i (ch_tasks c) @ Act r cable # drop (Suc i) (ch_tasks c))"
      using ok task_split [OF i] Act by (simp add: chat_ok_def)
    then have "key_at (keys c) r = Some (User_role, None)" by (simp add: conversation_ok_def)
    then have "r < length (ch_records c)" "cr_role (ch_records c ! r) = User_role"
      by (auto simp: key_at_def keys_def record_key_def split: if_splits)
    then have "record_key (?f (ch_records c ! r)) = (User_role, Some q)" by (simp add: record_key_def)
    moreover have "conversation_ok ((keys c)[r := (User_role, Some q)]) (ch_history c @ [r])
        (take i (ch_tasks c) @ ?rest @ drop (Suc i) (ch_tasks c))"
      by (rule conversation_acted [OF now, where f = "cable = None"]) simp
    ultimately have "chat_ok (end_task i ?rest (addToChat r (upd_record r ?f c)))"
      unfolding chat_ok_def end_task_view addToChat_view keys_upd_record by (simp only: upd_record_view)
    then show ?thesis using Act Action_ok by (simp add: acted_task_def Let_def)
  qed (use Act failed in \<open>simp_all add: acted_task_def Let_def\<close>)
qed (use ok in \<open>simp_all add: acted_task_def\<close>)

lemma respond_ok:
  assumes ok: "chat_ok c" and i: "i < length (ch_tasks c)"
  shows "chat_ok (respond_task i uuid now c)"
proof (cases "ch_tasks c ! i")
  case (Respond r fallback)
  have here: "conversation_ok (keys c) (ch_history c) (take i (ch_tasks c) @ Respond r fallback # drop (Suc i) (ch_tasks c))"
    using ok task_split [OF i] Respond by (simp add: chat_ok_def)
  then have "r < length (ch_records c)" by (auto simp: conversation_ok_def key_at_def keys_def split: if_splits)
  then have q: "snd (keys c ! r) = cr_requestId (ch_records c ! r)" by (simp add: keys_def record_key_def)
  have "conversation_ok (keys c @ [(Assistant_role, snd (keys c ! r))]) (ch_history c @ [length (keys c)])
      (take i (ch_tasks c) @ (if fallback then [Refresh r, Refresh (length (keys c))] else []) @ drop (Suc i) (ch_tasks c))"
    by (rule conversation_responded [OF here]) simp
  then show ?thesis
    using Respond unfolding q
    by (simp add: respond_task_def split_beta Let_def chat_ok_def end_task_view addToChat_view create_record_view)
      (cases fallback; simp add: record_key_def new_record_def)
qed (use ok in \<open>simp_all add: respond_task_def\<close>)

lemma refresh_ok:
  assumes ok: "chat_ok c" and i: "i < length (ch_tasks c)"
  shows "chat_ok (refresh_task E i pulls c)"
proof (cases "ch_tasks c ! i")
  case (Refresh r)
  have "same_conversation c (emit_chat y (upd_record r f (c\<lparr>ch_api := a\<rparr>)))" if "\<And>z. record_key (f z) = record_key z" for y f a
    by (rule same_conversation_trans [OF other_fields_same(1) emit_upd_same]) (rule that)
  note ended = chat_ok_end [OF ok this i] chat_ok_end [OF ok same_conversation_refl i] chat_ok_end [OF ok other_fields_same(1) i]
  show ?thesis
    unfolding refresh_task_def Refresh chat_task.case Let_def
    by (auto intro!: ended simp: record_key_def split: sum.split)
qed (use ok in \<open>simp_all add: refresh_task_def\<close>)

lemma restored_ok:
  assumes ok: "chat_ok c" and i: "i < length (ch_tasks c)"
  shows "chat_ok (restored_task i categories c)" "chat_ok (restored_items_task i items c)"
    "chat_ok (clearSelectedContextItems i items c)"
proof -
  have "chat_ok (end_task i [Restore_items] (refreshContextCategories categories c))" if "ch_tasks c ! i = Restore"
    using that by (intro chat_ok_next [OF ok refresh_items_same(2) i]) simp_all
  then show "chat_ok (restored_task i categories c)" using ok by (simp add: restored_task_def split: chat_task.split)
  have "same_conversation c (emit_chat y (fold (\<lambda>r. emit_chat (f r)) rs (refreshCurrentContextItems items c)))" for y f and rs :: "nat list"
    by (rule same_conversation_trans [OF same_conversation_trans [OF refresh_items_same(1) emits_same] emit_same])
  from chat_ok_end [OF ok this i] show "chat_ok (restored_items_task i items c)"
    using ok by (simp add: restored_items_task_def split: chat_task.split)
  from chat_ok_end [OF ok refresh_items_same(1) i] show "chat_ok (clearSelectedContextItems i items c)"
    using ok by (simp add: clearSelectedContextItems_def split: chat_task.split)
qed

lemma cleared_ok:
  assumes ok: "chat_ok c" and i: "i < length (ch_tasks c)"
  shows "chat_ok (cleared_task E i items result c)"
proof (cases "ch_tasks c ! i")
  case Clear
  have same: "same_conversation c (emit_chat y (refreshCurrentContextItems is c))" for y "is"
    by (rule same_conversation_trans [OF refresh_items_same(1) emit_same])
  have "chat_ok (end_task i [] ((emit_chat y (refreshCurrentContextItems is c))\<lparr>ch_history := []\<rparr>))" for y "is"
    using conversation_empty chat_ok_end [OF ok same i, of y "is"] by (simp add: chat_ok_def end_task_def keys_def)
  moreover have "chat_ok (end_task i [Clear_items] (emit_chat y c))" for y
    using Clear by (intro chat_ok_next [OF ok emit_same i]) simp_all
  ultimately show ?thesis
    using ok chat_ok_end [OF ok same i] Clear
    by (simp add: cleared_task_def Let_def split: sum.split option.split)
qed (use ok in \<open>simp_all add: cleared_task_def\<close>)

lemma chat_do_ok:
  assumes "chat_ok c"
  shows "chat_ok (chat_do E a c)"
proof -
  have same: "same_conversation c c' \<Longrightarrow> chat_ok c'" for c' using assms same_conversation_ok by blast
  have restore: "chat_ok (add_task Restore c')" if "same_conversation c c'" for c'
    using same [OF that] by (simp add: chat_ok_add)
  have canceled: "same_conversation c (emit_chat y (c\<lparr>ch_canceled := is\<rparr>))" for y "is"
    by (rule same_conversation_trans [OF other_fields_same(3) emit_same])
  show ?thesis
  proof (cases a)
    case (Channel_message j m)
    then show ?thesis using assms same [OF channel_same] by simp
  next
    case (Get_item_content i mid x items)
    then show ?thesis using same [OF content_same] by simp
  qed (use assms in \<open>auto simp: task_at_def prompts_ok subscribed_ok sent_ok acted_ok respond_ok refresh_ok restored_ok cleared_ok
      cancelPrompt_def Let_def appReady_def insertCodeSnippet_def searchContextItems_def addContextItem_def removeContextItem_def
      intro!: same restore canceled refresh_items_same split: option.split sum.split\<close>)
qed

lemma chat_run_ok: "chat_ok c \<Longrightarrow> chat_ok (chat_run E as c)"
  by (induction as arbitrary: c) (simp_all add: chat_run_def chat_do_ok)

lemma chat_new_ok: "chat_ok chat_new"
  by (simp add: chat_ok_def chat_new_def keys_def conversation_ok_def answers_ok_def key_at_def)

subsection \<open>What is never undone\<close>

text \<open>Cancelled identifiers stay cancelled, closed subscriptions closed.\<close>

definition lasting :: "string set \<Rightarrow> nat set \<Rightarrow> ('s, 'm, 'c) chat \<Rightarrow> bool" where
  "lasting qs js c \<longleftrightarrow> qs \<subseteq> set (ch_canceled c) \<and>
     (\<forall>j \<in> js. j < length (ch_subscriptions c) \<and> \<not> cs_connected (ch_subscriptions c ! j))"

definition same_marks :: "('s, 'm, 'c) chat \<Rightarrow> ('s, 'm, 'c) chat \<Rightarrow> bool" where
  "same_marks c c' \<longleftrightarrow> ch_canceled c' = ch_canceled c \<and> ch_subscriptions c' = ch_subscriptions c"

lemma same_marks_lasting: "same_marks c c' \<Longrightarrow> lasting qs js c \<Longrightarrow> lasting qs js c'"
  by (simp add: same_marks_def lasting_def)

lemma marks_simps [simp]:
  "ch_canceled (emit_chat x c) = ch_canceled c" "ch_subscriptions (emit_chat x c) = ch_subscriptions c"
  "ch_canceled (upd_record r f c) = ch_canceled c" "ch_subscriptions (upd_record r f c) = ch_subscriptions c"
  "ch_canceled (end_task i rest c) = ch_canceled c" "ch_subscriptions (end_task i rest c) = ch_subscriptions c"
  "ch_canceled (add_task t c) = ch_canceled c" "ch_subscriptions (add_task t c) = ch_subscriptions c"
  "ch_canceled (addToChat r c) = ch_canceled c" "ch_subscriptions (addToChat r c) = ch_subscriptions c"
  "ch_canceled (snd (create_record y c)) = ch_canceled c" "ch_subscriptions (snd (create_record y c)) = ch_subscriptions c"
  "ch_canceled (send_prompt E cs r c) = ch_canceled c" "ch_subscriptions (send_prompt E cs r c) = ch_subscriptions c"
  "ch_canceled (disconnect j c) = ch_canceled c"
  by (simp_all add: emit_chat_def upd_record_def end_task_def add_task_def addToChat_def create_record_def send_prompt_def
      split_beta Let_def disconnect_def)

lemma marks_process [simp]:
  "ch_canceled (processNewUserRecord r c) = ch_canceled c" "ch_subscriptions (processNewUserRecord r c) = ch_subscriptions c"
  "ch_canceled (refreshCurrentContextItems items c) = ch_canceled c"
  "ch_subscriptions (refreshCurrentContextItems items c) = ch_subscriptions c"
  "ch_canceled (refreshContextCategories cs c) = ch_canceled c"
  "ch_subscriptions (refreshContextCategories cs c) = ch_subscriptions c"
  by (simp_all add: processNewUserRecord_def refreshCurrentContextItems_def refreshContextCategories_def
      split: option.split sum.split)

lemma marks_fold [simp]:
  "ch_canceled (fold (\<lambda>r. emit_chat (f r)) rs c) = ch_canceled c"
  "ch_subscriptions (fold (\<lambda>r. emit_chat (f r)) rs c) = ch_subscriptions c"
  by (induction rs arbitrary: c) simp_all

lemma marks_handler [simp]:
  "ch_canceled (subscriptionUpdateHandler E m c) = ch_canceled c"
  "ch_subscriptions (subscriptionUpdateHandler E m c) = ch_subscriptions c"
  by (simp_all add: subscriptionUpdateHandler_def Let_def split: option.split)

lemma nth_update: "(xs[j := y]) ! k = (if j = k \<and> k < length xs then y else xs ! k)"
  by (cases "j < length xs") (auto simp: nth_list_update not_less list_update_beyond)

lemma lasting_disconnect: "lasting qs js c \<Longrightarrow> lasting qs js (disconnect j c)"
  by (auto simp: lasting_def disconnect_def nth_update)

lemma lasting_channel:
  assumes "lasting qs js c" and "j < length (ch_subscriptions c)"
  shows "lasting qs js (channel_receives E j m c)"
proof (cases "cs_connected (ch_subscriptions c ! j)")
  case False
  with assms show ?thesis by (simp add: channel_receives_def Let_def)
next
  case True
  with assms have "j \<notin> js" by (auto simp: lasting_def)
  then have flagged: "lasting qs js (c\<lparr>ch_subscriptions := (ch_subscriptions c)[j := s]\<rparr>)" for s
    using assms(1) by (auto simp: lasting_def nth_update)
  have handled: "lasting qs js (subscriptionUpdateHandler E m c')" if "lasting qs js c'" for c'
    using same_marks_lasting [OF _ that] by (simp add: same_marks_def)
  show ?thesis
    using assms(1) flagged
    by (simp add: channel_receives_def Let_def handled lasting_disconnect split: channel_event.split)
qed

lemma lasting_do:
  assumes "lasting qs js c"
  shows "lasting qs js (chat_do E a c)"
proof -
  have same: "same_marks c c' \<Longrightarrow> lasting qs js c'" for c' using same_marks_lasting assms by blast
  show ?thesis
  proof (cases a)
    case (Subscribe_answered i u e)
    have "lasting qs js (c\<lparr>ch_subscriptions := ch_subscriptions c @ [s]\<rparr>)" for s
      using assms by (auto simp: lasting_def nth_append)
    then have "lasting qs js (end_task i rest (c\<lparr>ch_subscriptions := ch_subscriptions c @ [s]\<rparr>))" for rest s
      by (rule same_marks_lasting [rotated]) (simp add: same_marks_def)
    with same Subscribe_answered assms show ?thesis
      by (simp add: task_at_def subscribed_task_def same_marks_def split: chat_task.split sum.split)
  next
    case (Action_answered i result)
    have "lasting qs js (end_task i [] (emit_chat x (upd_record r f (disconnect j c))))" for x r f j
      by (rule same_marks_lasting [OF _ lasting_disconnect [OF assms]]) (simp add: same_marks_def)
    with same Action_answered assms show ?thesis
      by (simp add: task_at_def acted_task_def same_marks_def Let_def split: chat_task.split action_result.split option.split)
  next
    case (Channel_message j m)
    with assms show ?thesis by (simp add: lasting_channel)
  next
    case (Cancel_prompt q)
    with assms show ?thesis by (auto simp: cancelPrompt_def Let_def lasting_def emit_chat_def)
  qed (use assms in \<open>auto intro!: same simp: same_marks_def task_at_def newPrompt_def handleExtensionPrompt_def split_beta Let_def
      respond_task_def refresh_task_def restored_task_def restored_items_task_def clearSelectedContextItems_def
      sent_task_def clear_sent_task_def cleared_task_def clearChat_def appReady_def insertCodeSnippet_def
      searchContextItems_def addContextItem_def removeContextItem_def getContextItemContent_def
      split: chat_task.split option.split sum.split\<close>)
qed

lemma lasting_run: "lasting qs js c \<Longrightarrow> lasting qs js (chat_run E as c)"
  by (induction as arbitrary: c) (simp_all add: chat_run_def lasting_do)

subsection \<open>Properties\<close>

lemma key_at_records:
  "key_at (keys c) r = Some (role, q) \<longleftrightarrow>
   r < length (ch_records c) \<and> cr_role (ch_records c ! r) = role \<and> cr_requestId (ch_records c ! r) = q"
  by (auto simp: key_at_def keys_def record_key_def)

lemma chat_okD:
  assumes "chat_ok c"
  shows "distinct (ch_history c)"
    "r \<in> set (ch_history c) \<Longrightarrow> r < length (ch_records c) \<and> cr_requestId (ch_records c ! r) \<noteq> None"
    "x \<in> set (ch_records c) \<Longrightarrow> cr_role x = Assistant_role \<Longrightarrow>
     cr_requestId x \<noteq> None \<and> (\<exists>u \<in> set (ch_records c). cr_role u = User_role \<and> cr_requestId u = cr_requestId x)"
proof -
  note ok = assms [unfolded chat_ok_def conversation_ok_def]
  show "distinct (ch_history c)" using ok by simp
  show "r < length (ch_records c) \<and> cr_requestId (ch_records c ! r) \<noteq> None" if "r \<in> set (ch_history c)"
  proof -
    from ok that obtain role q where "key_at (keys c) r = Some (role, Some q)" by blast
    then show ?thesis by (simp add: key_at_records)
  qed
  show "cr_requestId x \<noteq> None \<and> (\<exists>u \<in> set (ch_records c). cr_role u = User_role \<and> cr_requestId u = cr_requestId x)"
    if "x \<in> set (ch_records c)" and "cr_role x = Assistant_role"
  proof -
    from that(1) obtain a where "a < length (ch_records c)" and "x = ch_records c ! a" by (metis in_set_conv_nth)
    with that(2) have "key_at (keys c) a = Some (Assistant_role, cr_requestId x)" by (simp add: key_at_records)
    with ok have "cr_requestId x \<noteq> None" and "\<exists>u. key_at (keys c) u = Some (User_role, cr_requestId x)"
      by (auto simp: answers_ok_def)
    then show ?thesis by (auto simp: key_at_records)
  qed
qed

text \<open>C6: Whatever the web view and the editor ask and in whatever order the answers arrive, no record is twice in the
  history, every record of the history has the identifier of its request, and every answer belongs to a prompt.\<close>

theorem answers_have_prompts:
  "let c = chat_run E as (chat_new :: ('s, 'm, 'c) chat) in
   distinct (ch_history c) \<and>
   list_all (\<lambda>r. r < length (ch_records c) \<and> cr_requestId (ch_records c ! r) \<noteq> None) (ch_history c) \<and>
   list_all (\<lambda>x. cr_requestId x \<noteq> None \<and>
       list_ex (\<lambda>u. cr_role u = User_role \<and> cr_requestId u = cr_requestId x) (ch_records c))
     (filter (\<lambda>x. cr_role x = Assistant_role) (ch_records c))"
proof -
  have "chat_ok (chat_run E as (chat_new :: ('s, 'm, 'c) chat))" by (rule chat_run_ok [OF chat_new_ok])
  from chat_okD [OF this] show ?thesis by (simp add: Let_def list_all_iff list_ex_iff)
qed

text \<open>C22: After a prompt is cancelled, no streamed message for its request changes a record or reaches the web view,
  whatever happens in between.\<close>

theorem canceled_answers_ignored:
  assumes "ar_requestId m \<in> set (ch_canceled c)"
  shows "let c1 = chat_run E as c; c2 = chat_do E (Channel_message j m) c1
         in ch_records c2 = ch_records c1 \<and> ch_history c2 = ch_history c1 \<and> ch_out c2 = ch_out c1"
proof -
  have "lasting {ar_requestId m} {} (chat_run E as c)" by (rule lasting_run) (use assms in \<open>simp add: lasting_def\<close>)
  then have "ar_requestId m \<in> set (ch_canceled (chat_run E as c))" by (simp add: lasting_def)
  then show ?thesis by (simp add: Let_def channel_receives_def disconnect_def split: channel_event.split)
qed

definition sample_env :: chat_env where
  "sample_env = \<lparr>cv_semver = \<lparr>sv_valid = (\<lambda>v. True), sv_coerce = id, sv_gte = (\<lambda>v w. True)\<rparr>, cv_parse = (\<lambda>t. 0),
     cv_version = None, cv_toString = (\<lambda>e. [])\<rparr>"

definition sample_answer :: "(unit, unit) ai_message" where
  "sample_answer = \<lparr>ar_requestId = ''q'', ar_role = ''assistant'', ar_content = ''yes'', ar_timestamp = [], ar_errors = [],
     ar_extras = None, ar_chunkId = None\<rparr>"

theorem canceled_answers_ignored_witness:
  "let c0 = cancelPrompt ''q'' (chat_new :: (unit, unit, unit) chat);
       c1 = chat_run sample_env [New_prompt ''u'' 0 ''hi'' None (Inr []), Subscribe_answered 0 (Some ''user'') None,
              Prompt_sent 0 (Inr []), Action_answered 0 (Action_ok ''q'' []), Response_added 0 ''v'' 1] c0;
       c2 = chat_do sample_env (Channel_message 0 sample_answer) c1
   in ch_records c2 = ch_records c1 \<and> ch_history c2 = ch_history c1 \<and> ch_out c2 = ch_out c1"
  unfolding Let_def
  by (rule canceled_answers_ignored [unfolded Let_def]) (simp add: sample_answer_def cancelPrompt_def Let_def emit_chat_def)

text \<open>C13: An answer that arrives before its record is in the history is lost: it changes no record and the web view is not
  told, yet the subscription ends, so that nothing the channel delivers later changes anything.\<close>

theorem early_answer_lost:
  assumes "j < length (ch_subscriptions c)" and "cs_connected (ch_subscriptions c ! j)"
    and "cs_subscriptionId (ch_subscriptions c ! j) \<noteq> []"
    and "receive m = Full_message" and "findRecord (ar_requestId m) (ar_role m) c = None"
  shows "let c1 = chat_do E (Channel_message j m) c; c2 = chat_run E as c1
         in ch_records c1 = ch_records c \<and> ch_history c1 = ch_history c \<and> ch_out c1 = ch_out c \<and>
            chat_do E (Channel_message j m') c2 = c2"
proof -
  let ?c1 = "chat_do E (Channel_message j m) c"
  have find: "findRecord q role (c\<lparr>ch_subscriptions := ss\<rparr>) = findRecord q role c" for q role ss
    by (simp add: findRecord_def)
  have same: "ch_records ?c1 = ch_records c \<and> ch_history ?c1 = ch_history c \<and> ch_out ?c1 = ch_out c"
    using assms by (simp add: channel_receives_def Let_def subscriptionUpdateHandler_def find disconnect_def)
  have "lasting {} {j} ?c1"
    using assms by (simp add: channel_receives_def Let_def subscriptionUpdateHandler_def find disconnect_def lasting_def)
  then have "lasting {} {j} (chat_run E as ?c1)" by (rule lasting_run)
  then have "chat_do E (Channel_message j m') (chat_run E as ?c1) = chat_run E as ?c1"
    by (simp add: lasting_def channel_receives_def Let_def)
  with same show ?thesis by (simp only: Let_def)
qed

definition waiting_chat :: "(unit, unit, unit) chat" where
  "waiting_chat = chat_run sample_env [New_prompt ''u'' 0 ''hi'' None (Inr []), Subscribe_answered 0 (Some ''user'') None,
     Prompt_sent 0 (Inr [])] chat_new"

lemma waiting_chat_view:
  "ch_subscriptions waiting_chat = [\<lparr>cs_subscriptionId = ''u'', cs_fullMessageReceived = False, cs_connected = True\<rparr>]"
  "ch_history waiting_chat = []" "ch_tasks waiting_chat = [Act 0 (Some 0), Clear_items]" "length (ch_records waiting_chat) = 1"
  by code_simp+

theorem early_answer_lost_witness:
  "let c1 = chat_do sample_env (Channel_message 0 sample_answer) waiting_chat;
       c2 = chat_run sample_env [Action_answered 0 (Action_ok ''q'' []), Response_added 0 ''v'' 1] c1
   in ch_records c1 = ch_records waiting_chat \<and> ch_history c1 = ch_history waiting_chat \<and> ch_out c1 = ch_out waiting_chat \<and>
      chat_do sample_env (Channel_message 0 sample_answer) c2 = c2"
  by (rule early_answer_lost) (simp_all add: waiting_chat_view sample_answer_def receive_def findRecord_def to_lower_def)

text \<open>C20: When sending a prompt fails, the prompt stays out of the history, its record carries the message that the editor
  shows, no operation waits for an answer to it, and its subscription is closed for good.\<close>

theorem failed_prompt_reported:
  assumes "i < length (ch_tasks c)" and "ch_tasks c ! i = Act r (Some j)" and "r < length (ch_records c)"
    and "j < length (ch_subscriptions c)" and "result = Action_failed m n"
  shows "let c1 = chat_do E (Action_answered i result) c; c2 = chat_run E as c1
         in ch_history c1 = ch_history c \<and> cr_errors (ch_records c1 ! r) = [action_message result] \<and>
            last (ch_out c1) = Out_show_message (action_message result) \<and>
            length (ch_tasks c1) = length (ch_tasks c) - 1 \<and>
            chat_do E (Channel_message j answer) c2 = c2"
proof -
  let ?c1 = "chat_do E (Action_answered i result) c"
  let ?sent = "disconnect j c"
  have c1: "?c1 = end_task i [] (emit_chat (Out_show_message (action_message result))
      (upd_record r (\<lambda>x. x\<lparr>cr_errors := [action_message result]\<rparr>) ?sent))"
    using assms by (simp add: task_at_def acted_task_def Let_def)
  have view: "ch_records ?sent = ch_records c" "ch_history ?sent = ch_history c" "ch_tasks ?sent = ch_tasks c"
    by (simp_all add: disconnect_def)
  have "lasting {} {j} ?c1"
    unfolding c1 using assms(4)
    by (intro same_marks_lasting [where c = ?sent and c' = "end_task i rest c'" for rest c'])
      (simp_all add: same_marks_def lasting_def disconnect_def)
  then have "lasting {} {j} (chat_run E as ?c1)" by (rule lasting_run)
  then have "chat_do E (Channel_message j answer) (chat_run E as ?c1) = chat_run E as ?c1"
    by (simp add: lasting_def channel_receives_def Let_def)
  moreover have "ch_history ?c1 = ch_history c" "cr_errors (ch_records ?c1 ! r) = [action_message result]"
    "last (ch_out ?c1) = Out_show_message (action_message result)" "length (ch_tasks ?c1) = length (ch_tasks c) - 1"
    unfolding c1 using assms(1,3) view by (simp_all add: end_task_def emit_chat_def upd_record_def)
  ultimately show ?thesis by (simp only: Let_def)
qed

theorem failed_prompt_reported_witness:
  "let c1 = chat_do sample_env (Action_answered 0 (Action_failed (Some ''no'') ''failed'')) waiting_chat;
       c2 = chat_run sample_env [] c1
   in ch_history c1 = ch_history waiting_chat \<and>
      cr_errors (ch_records c1 ! 0) = [action_message (Action_failed (Some ''no'') ''failed'')] \<and>
      last (ch_out c1) = Out_show_message (action_message (Action_failed (Some ''no'') ''failed'')) \<and>
      length (ch_tasks c1) = length (ch_tasks waiting_chat) - 1 \<and>
      chat_do sample_env (Channel_message 0 sample_answer) c2 = c2"
  by (rule failed_prompt_reported) (simp_all add: waiting_chat_view)

text \<open>The fallback does not ask whether the prompt was cancelled.\<close>

theorem canceled_prompt_pulled:
  assumes "i < length (ch_tasks c)" and "ch_tasks c ! i = Refresh r" and "r < length (ch_records c)"
    and "cr_requestId (ch_records c ! r) = Some q" and "q \<noteq> []" and "pullAiMessage pulls = Inr (Inr m)"
  shows "cr_content (ch_records (chat_do E (Pull_answered i pulls) (chat_do E (Cancel_prompt q) c)) ! r) = Some (ar_content m)"
  using assms
  by (simp add: cancelPrompt_def Let_def emit_chat_def task_at_def refresh_task_def end_task_def upd_record_def)

text \<open>C30: The first prompt of a new chat, when its subscription and then its mutation succeed and one full answer comes after
  both records are in the history, is answered: both records are in the history, the second has the answer and is ready, the web view is told of the two
  records and of the update, and neither an operation nor an open subscription is left.\<close>

theorem prompt_answered:
  assumes "content \<noteq> []" and "content \<noteq> message_RESET" and "user \<noteq> []" and "uuid \<noteq> []"
    and "receive m = Full_message" and "to_lower (ar_role m) = ''assistant''"
  shows "let c = chat_run E [New_prompt uuid now content f retrieved, Subscribe_answered 0 (Some user) None,
                   Prompt_sent 0 categories, Action_answered 0 (Action_ok (ar_requestId m) []), Response_added 0 uuid' now',
                   Items_cleared 0 items, Channel_message 0 m] (chat_new :: ('s, 'm, 'c) chat)
         in ch_history c = [0, 1] \<and> map cr_content (ch_records c) = [Some content, Some (ar_content m)] \<and>
            cr_state (ch_records c ! 1) = Record_ready \<and> cr_requestId (ch_records c ! 0) = Some (ar_requestId m) \<and>
            (\<exists>x. ch_out c = [Out_new_record (ch_records c ! 0), Out_new_record x] @
                 (case items of Inl e \<Rightarrow> [] | Inr is \<Rightarrow> [Out_current_items is]) @ [Out_update_record (ch_records c ! 1)] \<and>
               cr_state x = Record_pending) \<and>
            ch_tasks c = [] \<and> map cs_connected (ch_subscriptions c) = [False]"
proof -
  have role: "to_lower (role_name User_role) \<noteq> ''assistant''" "to_lower (role_name Assistant_role) = ''assistant''"
    by code_simp+
  have general: "content \<noteq> message_RESET \<Longrightarrow> detectType (Some content) = General" by (simp add: detectType_def)
  have built: "cr_content (buildWithContext retrieved x) = cr_content x" "cr_type (buildWithContext retrieved x) = cr_type x"
    "cr_role (buildWithContext retrieved x) = cr_role x" "cr_id (buildWithContext retrieved x) = cr_id x" for x :: "('s, 'm) chat_record"
    by (simp_all add: buildWithContext_def split: sum.split)
  note steps = newPrompt_def create_record_def processNewUserRecord_def add_task_def task_at_def subscribed_task_def
    subscribeToUpdates_def end_task_def sent_task_def acted_task_def
    clearSelectedContextItems_def refreshCurrentContextItems_def addToChat_def emit_chat_def upd_record_def send_prompt_def
    respond_task_def new_record_def channel_receives_def subscriptionUpdateHandler_def findRecord_def disconnect_def
  show ?thesis
    using assms(1,3,4)
    by (simp add: chat_run_def chat_new_def steps built general [OF assms(2)] assms(5,6) role split_beta Let_def split: sum.split)
qed

theorem prompt_answered_witness:
  "let c = chat_run sample_env [New_prompt ''u'' 0 ''hi'' None (Inr []), Subscribe_answered 0 (Some ''user'') None,
             Prompt_sent 0 (Inr []), Action_answered 0 (Action_ok (ar_requestId sample_answer) []), Response_added 0 ''v'' 1,
             Items_cleared 0 (Inr []), Channel_message 0 sample_answer] (chat_new :: (unit, unit, unit) chat)
   in ch_history c = [0, 1] \<and> map cr_content (ch_records c) = [Some ''hi'', Some (ar_content sample_answer)] \<and>
      cr_state (ch_records c ! 1) = Record_ready \<and> cr_requestId (ch_records c ! 0) = Some (ar_requestId sample_answer) \<and>
      (\<exists>x. ch_out c = [Out_new_record (ch_records c ! 0), Out_new_record x] @
           (case (Inr [] :: js_error + unit chat_item list) of Inl e \<Rightarrow> [] | Inr is \<Rightarrow> [Out_current_items is]) @ [Out_update_record (ch_records c ! 1)] \<and>
         cr_state x = Record_pending) \<and>
      ch_tasks c = [] \<and> map cs_connected (ch_subscriptions c) = [False]"
proof (rule prompt_answered)
  show "to_lower (ar_role sample_answer) = ''assistant''" "receive sample_answer = Full_message" by code_simp+
qed (simp_all add: message_RESET_def)

end
