(* ===== verification/Config_Service.thy ===== *)
theory Config_Service
  imports Feature_State Snowplow_Tracker Streaming_Handler
begin

text \<open>
  The configuration and what it feeds first: the service (\<open>src/common/config_service.ts\<close>), the handlers of
  \<open>src/common/core/handlers\<close> that change it, the validation of a configuration before it is used
  (\<open>configuration_validation/\<close>), the feature flags (\<open>feature_flags.ts\<close>) and the document service
  (\<open>document_service.ts\<close>).

  The configuration has the fields that the modelled readers use; a path of lodash's \<open>set\<close> is an update function of
  the record, its \<open>mergeWith\<close> a parameter.  A change calls the listeners in the order of registration.
\<close>

subsection \<open>The service\<close>

record telemetry_ide =
  ti_name :: string
  ti_version :: "string option"
  ti_vendor :: "string option"

record code_config =
  cc_enabled :: "bool option"
  cc_enableSecretRedaction :: "bool option"
  cc_additionalLanguages :: "string list option"
  cc_disabledSupportedLanguages :: "string list option"

record client_config =
  cg_baseUrl :: "string option"
  cg_token :: "string option"
  cg_baseAssetsUrl :: "string option"
  cg_clientInfo :: "extension_info option"
  cg_codeCompletion :: "code_config option"
  cg_duoChatEnabled :: "bool option"
  cg_telemetryEnabled :: "bool option"
  cg_trackingUrl :: "string option"
  cg_telemetryActions :: "tracking_event list option"
  cg_ide :: "telemetry_ide option"
  cg_extension :: "extension_info option"
  cg_workspaceFolders :: "workspace_folder list option"
  cg_featureFlags :: "(string, bool) jsmap option"
  cg_featureFlagOverrides :: "(string, bool) jsmap option"
  cg_ignoreCertificateErrors :: "bool option"
  cg_httpAgentOptions :: "(string, string) jsmap option"
  cg_securityScannerOptions :: "bool option option"
  cg_enabledWithoutProject :: "bool option"

definition KHULNASOFT_API_BASE_URL :: string where
  "KHULNASOFT_API_BASE_URL = ''https://gitlab.com''"

record 'l config_service =
  cf_config :: client_config
  cf_listeners :: "'l list"

definition default_config :: client_config where
  "default_config =
     \<lparr>cg_baseUrl = Some KHULNASOFT_API_BASE_URL, cg_token = None, cg_baseAssetsUrl = None, cg_clientInfo = None,
      cg_codeCompletion = Some \<lparr>cc_enabled = None, cc_enableSecretRedaction = Some True, cc_additionalLanguages = None,
                             cc_disabledSupportedLanguages = None\<rparr>,
      cg_duoChatEnabled = None, cg_telemetryEnabled = Some True, cg_trackingUrl = None, cg_telemetryActions = None,
      cg_ide = None, cg_extension = None, cg_workspaceFolders = None, cg_featureFlags = None,
      cg_featureFlagOverrides = Some [], cg_ignoreCertificateErrors = Some False, cg_httpAgentOptions = Some [],
      cg_securityScannerOptions = None, cg_enabledWithoutProject = Some True\<rparr>"

definition cf_new :: "'l config_service" where
  "cf_new = \<lparr>cf_config = default_config, cf_listeners = []\<rparr>"

definition cf_triggerChange :: "'l config_service \<Rightarrow> ('l \<times> client_config) list" where
  "cf_triggerChange s = map (\<lambda>l. (l, cf_config s)) (cf_listeners s)"

definition cf_set ::
  "(client_config \<Rightarrow> client_config) \<Rightarrow> 'l config_service \<Rightarrow> ('l \<times> client_config) list \<times> 'l config_service" where
  "cf_set f s = (let s' = s\<lparr>cf_config := f (cf_config s)\<rparr> in (cf_triggerChange s', s'))"

definition cf_merge ::
  "(client_config \<Rightarrow> client_config \<Rightarrow> client_config) \<Rightarrow> client_config \<Rightarrow> 'l config_service \<Rightarrow>
   ('l \<times> client_config) list \<times> 'l config_service" where
  "cf_merge mergeWith newConfig s =
     (let s' = s\<lparr>cf_config := mergeWith (cf_config s) newConfig\<rparr> in (cf_triggerChange s', s'))"

definition cf_onConfigChange :: "'l \<Rightarrow> 'l config_service \<Rightarrow> 'l config_service" where
  "cf_onConfigChange l s = s\<lparr>cf_listeners := cf_listeners s @ [l]\<rparr>"

definition cf_dispose :: "'l \<Rightarrow> 'l config_service \<Rightarrow> 'l config_service" where
  "cf_dispose l s = s\<lparr>cf_listeners := rev (remove1 l (rev (cf_listeners s)))\<rparr>"

text \<open>Several calls of \<open>set\<close> one after the other.\<close>

fun cf_sets ::
  "(client_config \<Rightarrow> client_config) list \<Rightarrow> 'l config_service \<Rightarrow> ('l \<times> client_config) list \<times> 'l config_service" where
  "cf_sets [] s = ([], s)"
| "cf_sets (f # fs) s = (let (calls, s1) = cf_set f s; (more, s2) = cf_sets fs s1 in (calls @ more, s2))"

subsection \<open>Handlers of the connection\<close>

record initialization_options =
  io_ide :: "telemetry_ide option"
  io_extension :: "extension_info option"
  io_baseAssetsUrl :: "string option"
  io_featureFlagOverrides :: "(string, bool) jsmap option"

text \<open>The client's info has a name and a version; it stands in for an editor that did not introduce itself.\<close>

definition ide_of_client :: "extension_info \<Rightarrow> telemetry_ide" where
  "ide_of_client c = \<lparr>ti_name = ext_name c, ti_version = ext_version c, ti_vendor = None\<rparr>"

definition initialize_updates ::
  "extension_info option \<Rightarrow> initialization_options option \<Rightarrow> workspace_folder list option \<Rightarrow>
   (client_config \<Rightarrow> client_config) list" where
  "initialize_updates clientInfo options workspaceFolders =
     [(\<lambda>c. c\<lparr>cg_clientInfo := clientInfo\<rparr>),
      (\<lambda>c. c\<lparr>cg_workspaceFolders := workspaceFolders\<rparr>),
      (\<lambda>c. c\<lparr>cg_baseAssetsUrl := Option.bind options io_baseAssetsUrl\<rparr>),
      (\<lambda>c. c\<lparr>cg_ide := (case Option.bind options io_ide of None \<Rightarrow> map_option ide_of_client clientInfo | Some i \<Rightarrow> Some i)\<rparr>),
      (\<lambda>c. c\<lparr>cg_extension := Option.bind options io_extension\<rparr>)] @
     map (\<lambda>(k, v) c. c\<lparr>cg_featureFlagOverrides :=
            Some (map_set k v (case cg_featureFlagOverrides c of None \<Rightarrow> [] | Some m \<Rightarrow> m))\<rparr>)
       (case Option.bind options io_featureFlagOverrides of None \<Rightarrow> [] | Some m \<Rightarrow> m)"

definition initialize_requestHandler ::
  "extension_info option \<Rightarrow> initialization_options option \<Rightarrow> workspace_folder list option \<Rightarrow> 'l config_service \<Rightarrow>
   ('l \<times> client_config) list \<times> 'l config_service" where
  "initialize_requestHandler clientInfo options workspaceFolders =
     cf_sets (initialize_updates clientInfo options workspaceFolders)"

definition folders_changed :: "workspace_folder list option \<Rightarrow> workspace_folder list \<Rightarrow> workspace_folder list option \<Rightarrow>
    workspace_folder list" where
  "folders_changed added removed current =
     filter (\<lambda>f. wf_name f \<notin> set (map wf_name removed)) (case current of None \<Rightarrow> [] | Some fs \<Rightarrow> fs) @
     (case added of None \<Rightarrow> [] | Some fs \<Rightarrow> fs)"

definition didChangeWorkspaceFolders ::
  "workspace_folder list option \<Rightarrow> workspace_folder list \<Rightarrow> 'l config_service \<Rightarrow>
   ('l \<times> client_config) list \<times> 'l config_service" where
  "didChangeWorkspaceFolders added removed s =
     cf_set (\<lambda>c. c\<lparr>cg_workspaceFolders := Some (folders_changed added removed (cg_workspaceFolders c))\<rparr>) s"

text \<open>The schema of the settings for code suggestions: unknown properties are allowed, an absent one is fine.\<close>

definition field_ok :: "(string \<times> json) list \<Rightarrow> string \<Rightarrow> (json \<Rightarrow> bool) \<Rightarrow> bool" where
  "field_ok fs k P = (case map_of fs k of None \<Rightarrow> True | Some v \<Rightarrow> P v)"

fun is_JBool :: "json \<Rightarrow> bool" where
  "is_JBool (JBool b) = True" | "is_JBool _ = False"

fun is_string_array :: "json \<Rightarrow> bool" where
  "is_string_array (JArr xs) = list_all (\<lambda>x. z_string x \<noteq> None) xs" | "is_string_array _ = False"

fun CodeSuggestionsConfig_accepts :: "json \<Rightarrow> bool" where
  "CodeSuggestionsConfig_accepts (JObj fs) =
     (field_ok fs ''enabled'' is_JBool \<and> field_ok fs ''enableSecretRedaction'' is_JBool \<and>
      field_ok fs ''additionalLanguages'' is_string_array \<and> field_ok fs ''disabledSupportedLanguages'' is_string_array)"
| "CodeSuggestionsConfig_accepts _ = False"

text \<open>A value that is \<open>false\<close>, \<open>0\<close>, empty or \<open>null\<close> is not looked at.\<close>

fun json_truthy :: "json \<Rightarrow> bool" where
  "json_truthy JNull = False"
| "json_truthy (JBool b) = b"
| "json_truthy (JNum n) = (n \<noteq> 0)"
| "json_truthy (JStr s) = (s \<noteq> [])"
| "json_truthy _ = True"

definition settings_valid :: "json option \<Rightarrow> bool" where
  "settings_valid codeCompletion =
     (case codeCompletion of None \<Rightarrow> True | Some j \<Rightarrow> \<not> json_truthy j \<or> CodeSuggestionsConfig_accepts j)"

text \<open>The project cache is asked to update for the given URL and folders, and the file system is set up again.\<close>

datatype config_effect = Update_cache string "workspace_folder list" | Setup_file_system

definition didChangeConfiguration ::
  "(client_config \<Rightarrow> client_config \<Rightarrow> client_config) \<Rightarrow> json option \<Rightarrow> client_config \<Rightarrow> 'l config_service \<Rightarrow>
   config_effect list \<times> ('l \<times> client_config) list \<times> 'l config_service" where
  "didChangeConfiguration mergeWith codeCompletion settings s =
     (if \<not> settings_valid codeCompletion then ([], [], s)
      else
        let (calls, s1) = cf_merge mergeWith settings s; c = cf_config s1
        in ([Update_cache (case cg_baseUrl c of None \<Rightarrow> [] | Some u \<Rightarrow> u)
               (case cg_workspaceFolders c of None \<Rightarrow> [] | Some fs \<Rightarrow> fs), Setup_file_system], calls, s1))"

subsection \<open>Validation of a configuration\<close>

text \<open>What the API and the project checks answer for the configuration in question.\<close>

record 'v validation_env =
  vl_checkToken :: "string \<Rightarrow> string \<Rightarrow> string option"
  vl_checkProject :: "string \<Rightarrow> workspace_folder \<Rightarrow> duo_project option \<times> duo_project_status"
  vl_chatLicense :: "api_failure + bool"
  vl_suggestionsLicense :: "api_failure + bool"
  vl_semver :: "'v semver"
  vl_version :: string

definition check_config_of :: "client_config \<Rightarrow> check_config" where
  "check_config_of c =
     \<lparr>kc_token = cg_token c, kc_baseUrl = cg_baseUrl c, kc_duoChatEnabled = cg_duoChatEnabled c,
      kc_codeCompletionEnabled = Option.bind (cg_codeCompletion c) cc_enabled,
      kc_enabledWithoutProject = cg_enabledWithoutProject c, kc_workspaceFolders = cg_workspaceFolders c\<rparr>"

type_synonym feature_state = "feature \<times> feature_check list"

definition engaged_check :: "check_id \<Rightarrow> string \<Rightarrow> feature_check" where
  "engaged_check i details = \<lparr>fc_checkId = i, fc_details = Some details, fc_context = None, fc_engaged = True\<rparr>"

definition validate_authentication :: "'v validation_env \<Rightarrow> client_config \<Rightarrow> feature_state" where
  "validate_authentication V c =
     (Feature_authentication,
      case (cg_token c, cg_baseUrl c) of
        (Some t, Some u) \<Rightarrow>
          if t = [] \<or> u = []
          then [engaged_check AUTHENTICATION_REQUIRED ''You need to authenticate to use KhulnaSoft Duo.'']
          else (case vl_checkToken V u t of None \<Rightarrow> [] | Some m \<Rightarrow> [engaged_check INVALID_TOKEN m])
      | _ \<Rightarrow> [engaged_check AUTHENTICATION_REQUIRED ''You need to authenticate to use KhulnaSoft Duo.''])"

definition validate_chat :: "'v validation_env \<Rightarrow> client_config \<Rightarrow> feature_state" where
  "validate_chat V c =
     (Feature_chat,
      List.map_filter id [pda_validate (vl_checkProject V) (check_config_of c), clc_validate (vl_chatLicense V),
        cec_validate (check_config_of c)])"

definition validate_suggestions :: "'v validation_env \<Rightarrow> client_config \<Rightarrow> feature_state option" where
  "validate_suggestions V c =
     (case vc_validate (vl_semver V) (vl_version V) of
        None \<Rightarrow> None
      | Some r \<Rightarrow>
          Some (Feature_code_suggestions,
            List.map_filter id [r, pda_validate (vl_checkProject V) (check_config_of c),
              slc_validate (vl_suggestionsLicense V), sec_validate (check_config_of c)]))"

text \<open>\<open>None\<close>: the check of the version throws.\<close>

definition validate_configuration :: "'v validation_env \<Rightarrow> client_config \<Rightarrow> feature_state list option" where
  "validate_configuration V c =
     (let auth = validate_authentication V c in
      if snd auth \<noteq> [] then Some [auth]
      else map_option (\<lambda>s. [auth, validate_chat V c, s]) (validate_suggestions V c))"

subsection \<open>Feature flags\<close>

datatype client_flag = StreamCodeGenerations | DuoWorkflow | RemoteSecurityScans

datatype instance_flag = EditorAdvancedContext | CodeSuggestionsContext | DuoAdditionalContext

definition client_flag_name :: "client_flag \<Rightarrow> string" where
  "client_flag_name f = (case f of StreamCodeGenerations \<Rightarrow> ''streamCodeGenerations'' | DuoWorkflow \<Rightarrow> ''duoWorkflow''
                                 | RemoteSecurityScans \<Rightarrow> ''remoteSecurityScans'')"

definition instance_flag_name :: "instance_flag \<Rightarrow> string" where
  "instance_flag_name f = (case f of EditorAdvancedContext \<Rightarrow> ''advanced_context_resolver''
                                   | CodeSuggestionsContext \<Rightarrow> ''code_suggestions_context''
                                   | DuoAdditionalContext \<Rightarrow> ''duo_additional_context'')"

definition instance_flags :: "instance_flag list" where
  "instance_flags = [EditorAdvancedContext, CodeSuggestionsContext, DuoAdditionalContext]"

type_synonym feature_flags = "(string, bool) jsmap"

text \<open>A query that fails counts as a flag that is off.\<close>

definition fetchFeatureFlag :: "js_error + bool \<Rightarrow> bool" where
  "fetchFeatureFlag answer = (case answer of Inl e \<Rightarrow> False | Inr b \<Rightarrow> b)"

text \<open>The flags are fetched one after the other; a flag is set when its answer arrives.\<close>

fun update_flags :: "instance_flag list \<Rightarrow> (instance_flag \<Rightarrow> js_error + bool) \<Rightarrow> feature_flags \<Rightarrow> feature_flags" where
  "update_flags [] answer m = m"
| "update_flags (f # fs) answer m = update_flags fs answer (map_set (instance_flag_name f) (fetchFeatureFlag (answer f)) m)"

definition updateInstanceFeatureFlags :: "(instance_flag \<Rightarrow> js_error + bool) \<Rightarrow> feature_flags \<Rightarrow> feature_flags" where
  "updateInstanceFeatureFlags = update_flags instance_flags"

definition flags_onApiReconfigured :: "bool \<Rightarrow> (instance_flag \<Rightarrow> js_error + bool) \<Rightarrow> feature_flags \<Rightarrow> feature_flags" where
  "flags_onApiReconfigured isInValidState answer m = (if isInValidState then updateInstanceFeatureFlags answer m else m)"

definition override_of :: "client_config \<Rightarrow> string \<Rightarrow> bool" where
  "override_of c name = (Option.bind (cg_featureFlagOverrides c) (\<lambda>m. map_get m name) = Some True)"

definition isInstanceFlagEnabled :: "client_config \<Rightarrow> instance_flag \<Rightarrow> feature_flags \<Rightarrow> bool" where
  "isInstanceFlagEnabled c f m =
     (if override_of c (instance_flag_name f) then True
      else (case map_get m (instance_flag_name f) of None \<Rightarrow> False | Some b \<Rightarrow> b))"

definition isClientFlagEnabled :: "client_config \<Rightarrow> client_flag \<Rightarrow> bool" where
  "isClientFlagEnabled c f =
     (if override_of c (client_flag_name f) then True
      else (case Option.bind (cg_featureFlags c) (\<lambda>m. map_get m (client_flag_name f)) of None \<Rightarrow> False | Some b \<Rightarrow> b))"

text \<open>
  The public \<open>updateInstanceFeatureFlags\<close>.  What lodash's \<open>throttle\<close> wraps is this function itself.  A throttled
  function answers the result of its last invocation, \<open>undefined\<close> before the first; it invokes at most once at a time.
  The state is whether an invocation has given a result; \<open>invokes\<close> is whether this call invokes.
\<close>

definition throttledUpdate ::
  "bool \<Rightarrow> (instance_flag \<Rightarrow> js_error + bool) \<Rightarrow> bool \<times> feature_flags \<Rightarrow> bool \<times> feature_flags" where
  "throttledUpdate invokes answer s =
     (let run = (\<lambda>(hasResult, m). if hasResult then (hasResult, m) else (hasResult, updateInstanceFeatureFlags answer m))
      in if invokes then (True, snd (run s)) else run s)"

subsection \<open>Documents\<close>

record 'd opened =
  op_uri :: string
  op_languageId :: string
  op_document :: 'd

text \<open>What the listeners are told: the kind of the change and the document.\<close>

type_synonym 'd document_event = "change_type \<times> 'd opened"

definition handleDocumentLanguageChange ::
  "'d opened \<Rightarrow> (string, string) jsmap \<Rightarrow> 'd document_event list \<times> (string, string) jsmap" where
  "handleDocumentLanguageChange d m =
     ((if map_get m (op_uri d) \<noteq> None then [(OnDocumentLanguageChange, d)] else []), map_set (op_uri d) (op_languageId d) m)"

definition ds_onDidOpen :: "'d opened \<Rightarrow> (string, string) jsmap \<Rightarrow> 'd document_event list \<times> (string, string) jsmap" where
  "ds_onDidOpen d m = (let (events, m') = handleDocumentLanguageChange d m in ((OnDidOpen, d) # events, m'))"

text \<open>The notification about the active editor carries a document or the URI of one.\<close>

definition ds_notificationHandler :: "(string \<Rightarrow> 'd opened option) \<Rightarrow> 'd opened + string \<Rightarrow> 'd document_event list" where
  "ds_notificationHandler documents param =
     (case (case param of Inl d \<Rightarrow> if op_uri d \<noteq> [] then Some d else None | Inr u \<Rightarrow> documents u) of
        None \<Rightarrow> []
      | Some d \<Rightarrow> [(OnDidSetActive, d)])"

datatype 'd document_input = Opened "'d opened" | Changed "'d opened" | Saved "'d opened" | Closed "'d opened"

fun ds_receive :: "'d document_input \<Rightarrow> (string, string) jsmap \<Rightarrow> 'd document_event list \<times> (string, string) jsmap" where
  "ds_receive (Opened d) m = ds_onDidOpen d m"
| "ds_receive (Changed d) m = ([(OnDidChangeContent, d)], m)"
| "ds_receive (Saved d) m = ([(OnDidSave, d)], m)"
| "ds_receive (Closed d) m = ([(OnDidClose, d)], m)"

fun ds_run :: "'d document_input list \<Rightarrow> (string, string) jsmap \<Rightarrow> 'd document_event list \<times> (string, string) jsmap" where
  "ds_run [] m = ([], m)"
| "ds_run (i # is) m = (let (es, m1) = ds_receive i m; (es', m2) = ds_run is m1 in (es @ es', m2))"

subsection \<open>Properties\<close>

lemma instance_flag_name_inj [simp]: "instance_flag_name f = instance_flag_name g \<longleftrightarrow> f = g"
  by (cases f; cases g) (simp_all add: instance_flag_name_def)

lemma update_flags_get:
  "map_get (update_flags fs answer m) (instance_flag_name f) =
   (if f \<in> set fs then Some (fetchFeatureFlag (answer f)) else map_get m (instance_flag_name f))"
  by (induction fs answer m rule: update_flags.induct) auto

lemma all_instance_flags [simp]: "f \<in> set instance_flags"
  by (cases f) (simp_all add: instance_flags_def)

text \<open>C29: After the API was configured, a flag of the instance is on exactly when an override says so or its query
  succeeded with true; a configuration of the API that is not valid changes no flag.\<close>

theorem flags_follow_answers:
  "isInstanceFlagEnabled c f (flags_onApiReconfigured valid answer m) =
   (if valid then override_of c (instance_flag_name f) \<or> answer f = Inr True else isInstanceFlagEnabled c f m)"
  by (simp add: isInstanceFlagEnabled_def flags_onApiReconfigured_def updateInstanceFeatureFlags_def update_flags_get
      fetchFeatureFlag_def split: sum.split)

text \<open>The throttled update fetches the flags once: whatever is called later, and whether it invokes, no flag is
  fetched again.\<close>

theorem throttled_update_once:
  "throttledUpdate True answer (False, m) = (True, updateInstanceFeatureFlags answer m) \<and>
   fold (\<lambda>(invokes, a). throttledUpdate invokes a) calls (True, m) = (True, m)"
proof -
  have "fold (\<lambda>(invokes, a). throttledUpdate invokes a) calls (True, m) = (True, m)"
    by (induction calls) (auto simp: throttledUpdate_def Let_def)
  then show ?thesis by (simp add: throttledUpdate_def)
qed

lemma language_map_opened:
  "map_get (snd (ds_run is m)) u = None \<longleftrightarrow> map_get m u = None \<and> \<not> list_ex (\<lambda>i. case i of Opened d \<Rightarrow> op_uri d = u | _ \<Rightarrow> False) is"
proof (induction "is" arbitrary: m)
  case (Cons i "is")
  then show ?case
    by (cases i) (auto simp: split_beta Let_def ds_onDidOpen_def handleDocumentLanguageChange_def)
qed simp

text \<open>Opening a document is told as such, and as a change of its language exactly when a document with its URI was
  opened before: a document that is opened again in another language never goes unnoticed.\<close>

theorem language_change_told:
  "fst (ds_receive (Opened d) (snd (ds_run is []))) =
   (OnDidOpen, d) # (if list_ex (\<lambda>i. case i of Opened e \<Rightarrow> op_uri e = op_uri d | _ \<Rightarrow> False) is
                     then [(OnDocumentLanguageChange, d)] else [])"
proof -
  have "map_get (snd (ds_run is [])) (op_uri d) = None \<longleftrightarrow>
      \<not> list_ex (\<lambda>i. case i of Opened e \<Rightarrow> op_uri e = op_uri d | _ \<Rightarrow> False) is"
    by (simp add: language_map_opened)
  then show ?thesis by (simp add: ds_onDidOpen_def handleDocumentLanguageChange_def)
qed

text \<open>The event is fired although the language is the same.\<close>

theorem reopened_document_changes_language:
  "fst (ds_run [Opened d, Closed d, Opened d] []) =
   [(OnDidOpen, d), (OnDidClose, d), (OnDidOpen, d), (OnDocumentLanguageChange, d)]"
  by (simp add: ds_onDidOpen_def handleDocumentLanguageChange_def)

text \<open>Folders are removed by name: another folder of that name goes with it.\<close>

theorem same_name_folder_removed:
  "folders_changed None [\<lparr>wf_uri = ''file:///a/app'', wf_name = ''app''\<rparr>]
     (Some [\<lparr>wf_uri = ''file:///a/app'', wf_name = ''app''\<rparr>, \<lparr>wf_uri = ''file:///b/app'', wf_name = ''app''\<rparr>]) = []"
  by (simp add: folders_changed_def)

lemma sets_listeners [simp]: "cf_listeners (snd (cf_sets fs s)) = cf_listeners s"
  by (induction fs arbitrary: s) (simp_all add: split_beta Let_def cf_set_def)

lemma sets_config: "cf_config (snd (cf_sets fs s)) = fold (\<lambda>f. f) fs (cf_config s)"
  by (induction fs arbitrary: s) (simp_all add: split_beta Let_def cf_set_def)

lemma filter_single: "distinct xs \<Longrightarrow> l \<in> set xs \<Longrightarrow> filter (\<lambda>x. x = l) xs = [l]"
  by (induction xs) (auto simp: filter_empty_conv)

lemma trigger_of:
  "distinct (cf_listeners s) \<Longrightarrow> l \<in> set (cf_listeners s) \<Longrightarrow>
   filter (\<lambda>x. fst x = l) (cf_triggerChange s) = [(l, cf_config s)]"
  by (simp add: cf_triggerChange_def filter_map o_def filter_single)

text \<open>Several changes of the configuration are seen by every listener one by one: once for each change, in order, and
  at last with the configuration that stands.\<close>

theorem listeners_see_every_change:
  assumes "distinct (cf_listeners s)" and "l \<in> set (cf_listeners s)"
  shows "map snd (filter (\<lambda>x. fst x = l) (fst (cf_sets fs s))) = map (\<lambda>n. fold (\<lambda>f. f) (take (Suc n) fs) (cf_config s)) [0..<length fs]"
  using assms
proof (induction fs arbitrary: s)
  case (Cons f fs)
  let ?s = "s\<lparr>cf_config := f (cf_config s)\<rparr>"
  have "map snd (filter (\<lambda>x. fst x = l) (fst (cf_sets (f # fs) s))) =
      f (cf_config s) # map (\<lambda>n. fold (\<lambda>f. f) (take (Suc n) fs) (f (cf_config s))) [0..<length fs]"
    using Cons.IH [of ?s] Cons.prems trigger_of [of ?s l] by (simp add: split_beta Let_def cf_set_def)
  then show ?case by (simp add: upt_conv_Cons map_Suc_upt [symmetric] del: upt_Suc)
qed simp

theorem listeners_see_every_change_witness:
  "map snd (filter (\<lambda>x. fst x = 7)
       (fst (cf_sets [\<lambda>c. c\<lparr>cg_token := Some ''t''\<rparr>, \<lambda>c. c] (cf_onConfigChange (7::nat) (cf_onConfigChange 5 cf_new))))) =
   [default_config\<lparr>cg_token := Some ''t''\<rparr>, default_config\<lparr>cg_token := Some ''t''\<rparr>]"
  using listeners_see_every_change [of "cf_onConfigChange (7::nat) (cf_onConfigChange 5 cf_new)" 7
      "[\<lambda>c. c\<lparr>cg_token := Some ''t''\<rparr>, \<lambda>c. c]"]
  by (simp add: cf_onConfigChange_def cf_new_def upt_rec)

end
