(* ===== verification/Http_Fetch.thy ===== *)
theory Http_Fetch
  imports Config_Service
begin

text \<open>
  Requests over HTTP: \<open>src/node/fetch.ts\<close> (agents, proxies, timeouts, streams), \<open>src/common/fetch_error.ts\<close>,
  \<open>handle_fetch_error.ts\<close> and \<open>simple_api_client.ts\<close>.

  Parameters: the network, the proxy settings of the system, the files of certificates, \<open>JSON.parse\<close> and
  \<open>URLSearchParams\<close>.  An agent is what it was created with.
\<close>

subsection \<open>Responses and errors\<close>

record response =
  rs_url :: string
  rs_status :: nat
  rs_body :: "string option"
  rs_json :: "js_error + json"

definition rs_ok :: "response \<Rightarrow> bool" where
  "rs_ok r \<longleftrightarrow> 200 \<le> rs_status r \<and> rs_status r \<le> 299"

text \<open>\<open>None\<close> of \<open>JSON.parse\<close>: it throws.\<close>

definition getErrorType :: "(string \<Rightarrow> json option) \<Rightarrow> string \<Rightarrow> json option" where
  "getErrorType parse body = (case parse body of Some (JObj fs) \<Rightarrow> map_of fs ''error'' | _ \<Rightarrow> None)"

definition isInvalidTokenError :: "(string \<Rightarrow> json option) \<Rightarrow> response \<Rightarrow> string option \<Rightarrow> bool" where
  "isInvalidTokenError parse r body \<longleftrightarrow>
     rs_status r = 401 \<and> (case body of None \<Rightarrow> False | Some b \<Rightarrow> b \<noteq> [] \<and> getErrorType parse b = Some (JStr ''invalid_token''))"

definition isInvalidRefresh :: "(string \<Rightarrow> json option) \<Rightarrow> response \<Rightarrow> string option \<Rightarrow> bool" where
  "isInvalidRefresh parse r body \<longleftrightarrow>
     rs_status r = 400 \<and> (case body of None \<Rightarrow> False | Some b \<Rightarrow> b \<noteq> [] \<and> getErrorType parse b = Some (JStr ''invalid_grant''))"

record fetch_error =
  fe_message :: string
  fe_response :: response
  fe_body :: "string option"

definition apostrophe_s :: string where "apostrophe_s = [CHR 0x27] @ ''s''"

definition FetchError :: "(string \<Rightarrow> json option) \<Rightarrow> response \<Rightarrow> string \<Rightarrow> string option \<Rightarrow> fetch_error" where
  "FetchError parse r resourceName body =
     \<lparr>fe_message =
        (if isInvalidRefresh parse r body
         then ''Request to refresh token failed, because it'' @ apostrophe_s @ '' revoked or already refreshed.''
         else if isInvalidTokenError parse r body
         then ''Request for '' @ resourceName @ '' failed because the token is expired or revoked.''
         else ''Fetching '' @ resourceName @ '' from '' @ rs_url r @ '' failed''),
      fe_response = r, fe_body = body\<rparr>"

definition fe_status :: "fetch_error \<Rightarrow> nat" where
  "fe_status e = rs_status (fe_response e)"

definition fe_isInvalidToken :: "(string \<Rightarrow> json option) \<Rightarrow> fetch_error \<Rightarrow> bool" where
  "fe_isInvalidToken parse e \<longleftrightarrow>
     isInvalidTokenError parse (fe_response e) (fe_body e) \<or> isInvalidRefresh parse (fe_response e) (fe_body e)"

datatype api_error =
    Api_fetch fetch_error
  | Api_timeout string
  | Api_abort
  | Api_thrown js_error
  | Api_version string

definition REQUEST_TIMEOUT_MILLISECONDS :: nat where
  "REQUEST_TIMEOUT_MILLISECONDS = 15000"

definition TimeoutError :: "string \<Rightarrow> api_error" where
  "TimeoutError url = Api_timeout (''Request to '' @ url @ '' timed out after 15 seconds'')"

definition handleFetchError :: "(string \<Rightarrow> json option) \<Rightarrow> response \<Rightarrow> string \<Rightarrow> api_error option" where
  "handleFetchError parse r resourceName =
     (if rs_ok r then None else Some (Api_fetch (FetchError parse r resourceName (rs_body r))))"

text \<open>A response that is checked and parsed.\<close>

definition checked_json :: "(string \<Rightarrow> json option) \<Rightarrow> string \<Rightarrow> api_error + response \<Rightarrow> api_error + json" where
  "checked_json parse resourceName answer =
     (case answer of
        Inl e \<Rightarrow> Inl e
      | Inr r \<Rightarrow>
          (case handleFetchError parse r resourceName of
             Some e \<Rightarrow> Inl e
           | None \<Rightarrow> (case rs_json r of Inl e \<Rightarrow> Inl (Api_thrown e) | Inr j \<Rightarrow> Inr j)))"

subsection \<open>Agents\<close>

record agent_options =
  ao_rejectUnauthorized :: bool
  ao_ca :: "string option"
  ao_cert :: "string option"
  ao_key :: "string option"

record ls_fetch =
  lf_proxy :: "agent_options option"
  lf_userProxy :: "string option"
  lf_initialized :: bool
  lf_httpsAgent :: agent_options
  lf_agentOptions :: agent_options
  lf_http_proxy :: "string option"
  lf_https_proxy :: "string option"

definition lf_new :: "string option \<Rightarrow> string option \<times> string option \<Rightarrow> ls_fetch" where
  "lf_new userProxy env =
     (let options = \<lparr>ao_rejectUnauthorized = True, ao_ca = None, ao_cert = None, ao_key = None\<rparr>
      in \<lparr>lf_proxy = None, lf_userProxy = userProxy, lf_initialized = False, lf_httpsAgent = options,
          lf_agentOptions = options, lf_http_proxy = fst env, lf_https_proxy = snd env\<rparr>)"

record proxy_setting =
  px_protocol :: string
  px_host :: string
  px_port :: string
  px_credentials :: "(string \<times> string) option"

definition proxy_url :: "proxy_setting \<Rightarrow> string" where
  "proxy_url p =
     (case px_credentials p of
        Some (user, password) \<Rightarrow>
          if user \<noteq> [] \<and> password \<noteq> []
          then px_protocol p @ ''://'' @ user @ '':'' @ password @ ''@'' @ px_host p @ '':'' @ px_port p
          else px_protocol p @ ''://'' @ px_host p @ '':'' @ px_port p
      | None \<Rightarrow> px_protocol p @ ''://'' @ px_host p @ '':'' @ px_port p)"

definition truthy_text :: "string option \<Rightarrow> bool" where
  "truthy_text s \<longleftrightarrow> s \<noteq> None \<and> s \<noteq> Some []"

text \<open>The proxies of the system, then the user's, which wins; a proxy agent exists when one of the two is set.\<close>

definition lf_initialize :: "js_error + (proxy_setting option \<times> proxy_setting option) \<Rightarrow> ls_fetch \<Rightarrow> ls_fetch" where
  "lf_initialize settings f =
     (let (h, hs) = (case settings of Inl e \<Rightarrow> (None, None) | Inr p \<Rightarrow> p);
          f1 = f\<lparr>lf_http_proxy := (case h of None \<Rightarrow> lf_http_proxy f | Some p \<Rightarrow> Some (proxy_url p)),
                lf_https_proxy := (case hs of None \<Rightarrow> lf_https_proxy f | Some p \<Rightarrow> Some (proxy_url p))\<rparr>;
          f2 = (if truthy_text (lf_userProxy f)
                then f1\<lparr>lf_http_proxy := lf_userProxy f, lf_https_proxy := lf_userProxy f\<rparr> else f1);
          f3 = (if truthy_text (lf_http_proxy f2) \<or> truthy_text (lf_https_proxy f2)
                then f2\<lparr>lf_proxy := Some (lf_agentOptions f2)\<rparr> else f2)
      in f3\<lparr>lf_initialized := True\<rparr>)"

record fetch_agent_options =
  fo_ignoreCertificateErrors :: bool
  fo_ca :: "string option"
  fo_cert :: "string option"
  fo_certKey :: "string option"

text \<open>A file is read when its name is given; when one cannot be read, none counts.\<close>

definition read_option :: "(string \<Rightarrow> string option) \<Rightarrow> string option \<Rightarrow> string option option" where
  "read_option read name =
     (case name of None \<Rightarrow> Some None | Some n \<Rightarrow> if n = [] then Some None else map_option Some (read n))"

definition file_options ::
  "(string \<Rightarrow> string option) \<Rightarrow> fetch_agent_options \<Rightarrow> string option \<times> string option \<times> string option" where
  "file_options read o' =
     (case (read_option read (fo_ca o'), read_option read (fo_cert o'), read_option read (fo_certKey o')) of
        (Some ca, Some cert, Some key) \<Rightarrow> (ca, cert, key)
      | _ \<Rightarrow> (None, None, None))"

definition updateAgentOptions :: "(string \<Rightarrow> string option) \<Rightarrow> fetch_agent_options \<Rightarrow> ls_fetch \<Rightarrow> ls_fetch" where
  "updateAgentOptions read o' f =
     (let (ca, cert, key) = file_options read o';
          newOptions = \<lparr>ao_rejectUnauthorized = (\<not> fo_ignoreCertificateErrors o'), ao_ca = ca, ao_cert = cert, ao_key = key\<rparr>
      in if newOptions = lf_agentOptions f then f
         else let f1 = f\<lparr>lf_agentOptions := newOptions, lf_httpsAgent := newOptions\<rparr>
              in if lf_proxy f1 \<noteq> None then f1\<lparr>lf_proxy := Some newOptions\<rparr> else f1)"

datatype agent = Proxy_agent agent_options | Https_agent agent_options | Http_agent

definition getAgent :: "string \<Rightarrow> ls_fetch \<Rightarrow> agent" where
  "getAgent input f =
     (case lf_proxy f of
        Some o' \<Rightarrow> Proxy_agent o'
      | None \<Rightarrow> if starts_with input ''https://'' then Https_agent (lf_httpsAgent f) else Http_agent)"

text \<open>
  A request ends with a response, with an error of the network or by an abort: of the timer, or of the caller's signal
  while the request runs.  A signal that was aborted before tells nobody, as only the event is listened to.
\<close>

datatype network_end = Responded response | Failed js_error | Timed_out_after | Caller_aborted

definition lf_fetch :: "string \<Rightarrow> network_end \<Rightarrow> ls_fetch \<Rightarrow> api_error + (agent \<times> response)" where
  "lf_fetch input outcome f =
     (if \<not> lf_initialized f
      then Inl (Api_thrown (JsError ''LsFetch not initialized. Make sure LsFetch.initialize() was called.''))
      else case outcome of
          Responded r \<Rightarrow> Inr (getAgent input f, r)
        | Failed e \<Rightarrow> Inl (Api_thrown e)
        | Timed_out_after \<Rightarrow> Inl (TimeoutError input)
        | Caller_aborted \<Rightarrow> Inl Api_abort)"

subsection \<open>Streams\<close>

text \<open>\<open>TextDecoder.decode\<close> without \<open>stream\<close>: a byte order mark at the start is dropped.\<close>

definition text_decode :: "nat list \<Rightarrow> text16" where
  "text_decode bs = buffer_toString (if take 3 bs = [0xEF, 0xBB, 0xBF] then drop 3 bs else bs)"

text \<open>The chunks of a response, each with whether cancellation is requested when it arrives.\<close>

fun readStream :: "(nat list \<times> bool) list \<Rightarrow> text16 list" where
  "readStream [] = []"
| "readStream ((bytes, cancelled) # rest) = (if cancelled then [] else text_decode bytes # readStream rest)"

definition streamResponse :: "(nat list \<times> bool) list option \<Rightarrow> text16 list" where
  "streamResponse body = (case body of None \<Rightarrow> [] | Some chunks \<Rightarrow> readStream chunks)"

subsection \<open>The simple client\<close>

record 'b http_request =
  hq_method :: string
  hq_url :: string
  hq_headers :: "(string, string) jsmap"
  hq_body :: "'b option"

definition getUserAgent :: "string \<Rightarrow> extension_info option \<Rightarrow> string" where
  "getUserAgent version clientInfo =
     ''gitlab-language-server:'' @ version @ '' ('' @
     (case clientInfo of
        None \<Rightarrow> ''missing client info''
      | Some c \<Rightarrow> ext_name c @ '':'' @ (case ext_version c of None \<Rightarrow> ''undefined'' | Some v \<Rightarrow> v)) @ '')''"

definition getDefaultHeaders :: "string \<Rightarrow> extension_info option \<Rightarrow> string option \<Rightarrow> (string, string) jsmap" where
  "getDefaultHeaders version clientInfo token =
     [(''Authorization'', ''Bearer '' @ (case token of None \<Rightarrow> ''undefined'' | Some t \<Rightarrow> t)),
      (''User-Agent'', getUserAgent version clientInfo), (''X-Gitlab-Language-Server-Version'', version)]"

text \<open>Later headers win.\<close>

definition with_headers :: "(string, string) jsmap option \<Rightarrow> (string, string) jsmap \<Rightarrow> (string, string) jsmap" where
  "with_headers extra base = fold (\<lambda>(k, v). map_set k v) (case extra of None \<Rightarrow> [] | Some hs \<Rightarrow> hs) base"

datatype 'b request_kind =
    Rest_get "(string, string) jsmap option"
  | Rest_post "'b option"
  | Rest_patch "'b option"
  | Graphql 'b

record 'b request =
  rq_baseUrl :: "string option"
  rq_token :: "string option"
  rq_path :: string
  rq_headers :: "(string, string) jsmap option"
  rq_supportedSince :: "(string \<times> string) option"
  rq_kind :: "'b request_kind"

definition resource_name :: "string \<Rightarrow> string" where
  "resource_name path = (let r = last (split_on (CHR ''/'') path) in if r = [] then ''unknown resource'' else r)"

definition simple_fetchFromApi ::
  "((string, string) jsmap \<Rightarrow> string) \<Rightarrow> string \<Rightarrow> extension_info option \<Rightarrow> string \<Rightarrow> string \<Rightarrow> 'b request \<Rightarrow>
   api_error + ('b http_request \<times> string)" where
  "simple_fetchFromApi query version clientInfo baseUrl token r =
     (case rq_kind r of
        Graphql q \<Rightarrow> Inl (Api_thrown (JsError ''GraphQL is not supported in simple client yet.''))
      | Rest_get searchParams \<Rightarrow>
          Inr (\<lparr>hq_method = ''GET'',
                hq_url = baseUrl @ ''/api/v4'' @ rq_path r @ query (case searchParams of None \<Rightarrow> [] | Some q \<Rightarrow> q),
                hq_headers = with_headers (rq_headers r) (getDefaultHeaders version clientInfo (Some token)),
                hq_body = None\<rparr>, resource_name (rq_path r))
      | _ \<Rightarrow> Inl (Api_thrown (JsError ''Unknown request type rest'')))"

subsection \<open>Properties\<close>

definition agents_current :: "ls_fetch \<Rightarrow> bool" where
  "agents_current f \<longleftrightarrow> lf_httpsAgent f = lf_agentOptions f \<and> (\<forall>o'. lf_proxy f = Some o' \<longrightarrow> o' = lf_agentOptions f)"

datatype fetch_op =
    Initialize "js_error + (proxy_setting option \<times> proxy_setting option)"
  | Update_options "string \<Rightarrow> string option" fetch_agent_options

fun run_fetch_op :: "fetch_op \<Rightarrow> ls_fetch \<Rightarrow> ls_fetch" where
  "run_fetch_op (Initialize settings) f = lf_initialize settings f"
| "run_fetch_op (Update_options read o') f = updateAgentOptions read o' f"

lemma initialize_view:
  "lf_agentOptions (lf_initialize settings f) = lf_agentOptions f"
  "lf_httpsAgent (lf_initialize settings f) = lf_httpsAgent f"
  "lf_proxy (lf_initialize settings f) = lf_proxy f \<or> lf_proxy (lf_initialize settings f) = Some (lf_agentOptions f)"
  by (simp_all add: lf_initialize_def Let_def split_beta)

lemma update_view:
  "lf_agentOptions (updateAgentOptions read o' f) =
     \<lparr>ao_rejectUnauthorized = (\<not> fo_ignoreCertificateErrors o'), ao_ca = fst (file_options read o'),
      ao_cert = fst (snd (file_options read o')), ao_key = snd (snd (file_options read o'))\<rparr>"
  "agents_current f \<Longrightarrow> agents_current (updateAgentOptions read o' f)"
  by (simp_all add: updateAgentOptions_def Let_def split_beta agents_current_def)

lemma fetch_op_current: "agents_current f \<Longrightarrow> agents_current (run_fetch_op op f)"
proof (cases op)
  case (Initialize settings)
  assume "agents_current f"
  with initialize_view [of settings f] Initialize show ?thesis unfolding agents_current_def by auto
qed (simp add: update_view)

lemma fetch_ops_current: "agents_current f \<Longrightarrow> agents_current (fold run_fetch_op ops f)"
  by (induction ops arbitrary: f) (simp_all add: fetch_op_current)

lemma lf_new_current: "agents_current (lf_new userProxy env)"
  by (simp add: agents_current_def lf_new_def Let_def)

text \<open>C16: Whatever proxies are found and whatever options are set in whatever order, also before the proxies are known,
  every agent that can be chosen for an https request rejects unauthorised servers exactly when the last options say so,
  and uses the certificates read for them.\<close>

theorem agents_follow_options:
  "case getAgent (''https://'' @ host) (updateAgentOptions read o' (fold run_fetch_op ops (lf_new userProxy env))) of
     Http_agent \<Rightarrow> False
   | Https_agent a \<Rightarrow> ao_rejectUnauthorized a = (\<not> fo_ignoreCertificateErrors o') \<and> (ao_ca a, ao_cert a, ao_key a) = file_options read o'
   | Proxy_agent a \<Rightarrow> ao_rejectUnauthorized a = (\<not> fo_ignoreCertificateErrors o') \<and> (ao_ca a, ao_cert a, ao_key a) = file_options read o'"
proof -
  let ?f = "updateAgentOptions read o' (fold run_fetch_op ops (lf_new userProxy env))"
  have "agents_current ?f"
    using fetch_op_current [OF fetch_ops_current [OF lf_new_current], of "Update_options read o'"] by simp
  with update_view(1) [of read o' "fold run_fetch_op ops (lf_new userProxy env)"] show ?thesis
    by (auto simp: agents_current_def getAgent_def split: option.split)
qed

lemma text_decode_utf8:
  assumes "\<forall>c \<in> set cs. scalar c" and "take 3 (utf8 cs) \<noteq> [0xEF, 0xBB, 0xBF]"
  shows "text_decode (utf8 cs) = text_of cs"
  using assms by (simp add: text_decode_def buffer_toString_def utf8_decode_utf8)

text \<open>C32: A response whose chunks end where characters end, and none of which begins with a byte order mark (which the
  decoder, one for each chunk, would drop), is streamed as the text that was sent, up to the chunk at which
  cancellation is seen; from then on nothing is.\<close>

theorem stream_decodes_text:
  assumes "\<forall>cs \<in> set css. (\<forall>c \<in> set cs. scalar c) \<and> take 3 (utf8 cs) \<noteq> [0xEF, 0xBB, 0xBF]"
  shows "concat (streamResponse (Some (map (\<lambda>cs. (utf8 cs, False)) css @ later))) =
    text_of (concat css) @ concat (readStream later) \<and>
    streamResponse (Some (map (\<lambda>cs. (utf8 cs, False)) css @ (bytes, True) # rest)) = map text_of css"
  using assms by (induction css) (auto simp: streamResponse_def text_decode_utf8)

theorem stream_decodes_text_witness:
  "concat (streamResponse (Some [([0x41, 0xC3, 0xA9], False), ([0x42], False)])) = [0x41, 0xE9, 0x42] \<and>
   streamResponse (Some [([0x41, 0xC3, 0xA9], False), ([0x42], True)]) = [[0x41, 0xE9]]"
proof -
  have "concat (streamResponse (Some (map (\<lambda>cs. (utf8 cs, False)) [[0x41, 0xE9], [0x42]] @ []))) =
      text_of (concat [[0x41, 0xE9], [0x42]]) @ concat (readStream [])"
    by (rule stream_decodes_text [THEN conjunct1]) (simp add: utf8_char_def scalar_def)
  moreover have "streamResponse (Some (map (\<lambda>cs. (utf8 cs, False)) [[0x41, 0xE9]] @ ([0x42], True) # [])) =
      map text_of [[0x41, 0xE9]]"
    by (rule stream_decodes_text [THEN conjunct2]) (simp add: utf8_char_def scalar_def)
  ultimately show ?thesis by (simp add: utf8_char_def units_of_def)
qed

text \<open>A character whose bytes arrive in two chunks is lost: every part is replaced.\<close>

theorem split_character_garbled:
  "concat (streamResponse (Some [([0xC3], False), ([0xA9], False)])) = [0xFFFD, 0xFFFD] \<and>
   concat (streamResponse (Some [([0xC3, 0xA9], False)])) = [0xE9]"
  by (simp add: streamResponse_def text_decode_def buffer_toString_def decode_char_def cont_def text_of_def units_of_def
      REPLACEMENT_def)

end
