(* ===== verification/Khulnasoft_Api.thy ===== *)
theory Khulnasoft_Api
  imports Http_Fetch
begin

text \<open>
  The client of the instance (\<open>src/common/api.ts\<close>, \<open>action_cable.ts\<close>, \<open>core/handlers/token_check_notifier.ts\<close>): how it
  configures itself when the configuration changes, and how it sends requests.

  Configuring waits for a check of the token and then for the version of the instance: both are tasks of the state, and
  the answer is the argument of the step that goes on.  A token that is not valid is removed from the configuration,
  which calls the listener of the client again before the step ends.
\<close>

datatype token_type = Pat_token | Oauth_token

record token_info =
  tk_scopes :: "string list"
  tk_type :: token_type

record api_instance =
  in_url :: string
  in_version :: "string option"

datatype check_reason = Reason_unknown | Reason_not_active | Reason_invalid_scopes

datatype token_check = Token_valid token_info | Token_invalid check_reason string

datatype reconfigured = Api_valid api_instance token_info | Api_invalid string

datatype api_task =
    Check_token string string
  | Get_version token_info "(string \<times> string) option"

record khulnasoft_api =
  ka_token :: "string option"
  ka_baseURL :: string
  ka_clientInfo :: "extension_info option"
  ka_instanceInfo :: "api_instance option"
  ka_tokenInfo :: "token_info option"
  ka_config :: client_config
  ka_agentOptions :: "bool \<times> (string, string) jsmap"
  ka_tasks :: "api_task list"
  ka_events :: "reconfigured list"

record api_env =
  ae_parse :: "string \<Rightarrow> json option"
  ae_toString :: "api_error \<Rightarrow> string"
  ae_lsVersion :: string
  ae_query :: "(string, string) jsmap \<Rightarrow> string"
  ae_resolve :: "string \<Rightarrow> string \<Rightarrow> string"
  ae_compare :: "string \<Rightarrow> string \<Rightarrow> int"

definition ka_new :: "client_config \<Rightarrow> khulnasoft_api" where
  "ka_new config = \<lparr>ka_token = None, ka_baseURL = KHULNASOFT_API_BASE_URL, ka_clientInfo = None, ka_instanceInfo = None,
     ka_tokenInfo = None, ka_config = config, ka_agentOptions = (False, []), ka_tasks = [], ka_events = []\<rparr>"

subsection \<open>Checking a token\<close>

definition looksLikePatToken :: "string \<Rightarrow> bool" where
  "looksLikePatToken token \<longleftrightarrow> length token < 42"

definition check_url :: "string \<Rightarrow> string \<Rightarrow> string" where
  "check_url baseURL token =
     baseURL @ (if looksLikePatToken token then ''/api/v4/personal_access_tokens/self'' else ''/oauth/token/info'')"

definition hasValidScopes :: "string list \<Rightarrow> bool" where
  "hasValidScopes scopes \<longleftrightarrow> ''api'' \<in> set scopes"

definition quoted :: "string \<Rightarrow> string" where
  "quoted s = [CHR 0x27] @ s @ [CHR 0x27]"

definition join_texts :: "string \<Rightarrow> string list \<Rightarrow> string" where
  "join_texts sep xs = (case xs of [] \<Rightarrow> [] | y # ys \<Rightarrow> y @ concat (map (\<lambda>z. sep @ z) ys))"

definition scopes_message :: "string list \<Rightarrow> string" where
  "scopes_message scopes =
     ''Token has scope(s) '' @ join_texts '', '' (map quoted scopes) @ '' (needs '' @ quoted ''api'' @ '').''"

text \<open>The scopes are a list of texts as declared; where there is none, \<open>includes\<close> throws.\<close>

fun json_strings :: "json list \<Rightarrow> string list option" where
  "json_strings [] = Some []"
| "json_strings (JStr s # xs) = map_option ((#) s) (json_strings xs)"
| "json_strings _ = None"

definition scopes_of :: "json \<Rightarrow> string \<Rightarrow> api_error + string list" where
  "scopes_of j field =
     (case j of
        JObj fs \<Rightarrow>
          (case map_of fs field of
             Some (JArr xs) \<Rightarrow> (case json_strings xs of None \<Rightarrow> Inl (Api_thrown TypeError) | Some ss \<Rightarrow> Inr ss)
           | _ \<Rightarrow> Inl (Api_thrown TypeError))
      | _ \<Rightarrow> Inl (Api_thrown TypeError))"

definition json_active :: "json \<Rightarrow> bool" where
  "json_active j = (case j of JObj fs \<Rightarrow> (case map_of fs ''active'' of None \<Rightarrow> False | Some v \<Rightarrow> json_truthy v) | _ \<Rightarrow> False)"

definition checkPatToken :: "api_env \<Rightarrow> api_error + response \<Rightarrow> api_error + token_check" where
  "checkPatToken E answer =
     (case checked_json (ae_parse E) ''Information about personal access token'' answer of
        Inl e \<Rightarrow> Inl e
      | Inr j \<Rightarrow>
          if j = JNull then Inl (Api_thrown TypeError)
          else if \<not> json_active j then Inr (Token_invalid Reason_not_active ''Token is not active.'')
          else (case scopes_of j ''scopes'' of
                  Inl e \<Rightarrow> Inl e
                | Inr scopes \<Rightarrow>
                    Inr (if \<not> hasValidScopes scopes then Token_invalid Reason_invalid_scopes (scopes_message scopes)
                         else Token_valid \<lparr>tk_scopes = scopes, tk_type = Pat_token\<rparr>)))"

definition checkOAuthToken :: "api_env \<Rightarrow> api_error + response \<Rightarrow> api_error + token_check" where
  "checkOAuthToken E answer =
     (case checked_json (ae_parse E) ''Information about OAuth token'' answer of
        Inl e \<Rightarrow> Inl e
      | Inr j \<Rightarrow>
          (case scopes_of j ''scope'' of
             Inl e \<Rightarrow> Inl e
           | Inr scopes \<Rightarrow>
               Inr (if \<not> hasValidScopes scopes then Token_invalid Reason_invalid_scopes (scopes_message scopes)
                    else Token_valid \<lparr>tk_scopes = scopes, tk_type = Oauth_token\<rparr>)))"

definition checkToken :: "api_env \<Rightarrow> string \<Rightarrow> api_error + response \<Rightarrow> token_check" where
  "checkToken E token answer =
     (case (if looksLikePatToken token then checkPatToken E answer else checkOAuthToken E answer) of
        Inl e \<Rightarrow> Token_invalid Reason_unknown (''Failed to check token: '' @ ae_toString E e)
      | Inr c \<Rightarrow> c)"

definition reason_name :: "check_reason \<Rightarrow> string" where
  "reason_name r = (case r of Reason_unknown \<Rightarrow> ''unknown'' | Reason_not_active \<Rightarrow> ''not_active''
                            | Reason_invalid_scopes \<Rightarrow> ''invalid_scopes'')"

subsection \<open>Configuring\<close>

definition or_empty :: "string option \<Rightarrow> string" where
  "or_empty t = (case t of None \<Rightarrow> [] | Some s \<Rightarrow> s)"

definition configureApi :: "string option \<Rightarrow> string option \<Rightarrow> khulnasoft_api \<Rightarrow> khulnasoft_api" where
  "configureApi token baseUrl s =
     (let base = (case baseUrl of None \<Rightarrow> KHULNASOFT_API_BASE_URL | Some u \<Rightarrow> u) in
      if ka_token s = token \<and> ka_baseURL s = base then s
      else s\<lparr>ka_token := token, ka_baseURL := base, ka_tasks := ka_tasks s @ [Check_token base (or_empty token)]\<rparr>)"

definition ka_onConfigChange :: "khulnasoft_api \<Rightarrow> khulnasoft_api" where
  "ka_onConfigChange s =
     (let c = ka_config s
      in configureApi (cg_token c) (cg_baseUrl c)
           (s\<lparr>ka_clientInfo := cg_clientInfo c,
              ka_agentOptions := (case cg_ignoreCertificateErrors c of None \<Rightarrow> False | Some b \<Rightarrow> b,
                                  case cg_httpAgentOptions c of None \<Rightarrow> [] | Some m \<Rightarrow> m)\<rparr>))"

definition config_set :: "(client_config \<Rightarrow> client_config) \<Rightarrow> khulnasoft_api \<Rightarrow> khulnasoft_api" where
  "config_set f s = ka_onConfigChange (s\<lparr>ka_config := f (ka_config s)\<rparr>)"

definition fireApiReconfigured :: "reconfigured \<Rightarrow> khulnasoft_api \<Rightarrow> khulnasoft_api" where
  "fireApiReconfigured e s = s\<lparr>ka_events := ka_events s @ [e]\<rparr>"

definition drop_task :: "nat \<Rightarrow> khulnasoft_api \<Rightarrow> khulnasoft_api" where
  "drop_task i s = s\<lparr>ka_tasks := take i (ka_tasks s) @ drop (Suc i) (ka_tasks s)\<rparr>"

text \<open>The version is asked for with the URL and the token of the moment; without a token it is empty.\<close>

definition version_request :: "khulnasoft_api \<Rightarrow> (string \<times> string) option" where
  "version_request s = (if or_empty (ka_token s) = [] then None
                        else Some (ka_baseURL s @ ''/api/v4/version'', or_empty (ka_token s)))"

definition token_checked :: "api_env \<Rightarrow> nat \<Rightarrow> api_error + response \<Rightarrow> khulnasoft_api \<Rightarrow> khulnasoft_api" where
  "token_checked E i answer s =
     (case ka_tasks s ! i of
        Check_token base token \<Rightarrow>
          let s1 = drop_task i s in
          (case checkToken E token answer of
             Token_invalid reason message \<Rightarrow>
               fireApiReconfigured
                 (Api_invalid (''Token is invalid. '' @ message @ ''. Reason: '' @ reason_name reason))
                 (config_set (\<lambda>c. c\<lparr>cg_token := None\<rparr>) s1)
           | Token_valid info \<Rightarrow> s1\<lparr>ka_tasks := ka_tasks s1 @ [Get_version info (version_request s1)]\<rparr>)
      | _ \<Rightarrow> s)"

text \<open>The status of the answer is not looked at; a request that fails ends the configuring with an error.\<close>

definition json_version :: "json \<Rightarrow> api_error + string option" where
  "json_version j =
     (case j of
        JObj fs \<Rightarrow> Inr (case map_of fs ''version'' of Some (JStr v) \<Rightarrow> Some v | _ \<Rightarrow> None)
      | JNull \<Rightarrow> Inl (Api_thrown TypeError)
      | _ \<Rightarrow> Inr None)"

definition instance_version_answer :: "(string \<times> string) option \<Rightarrow> api_error + response \<Rightarrow> api_error + string option" where
  "instance_version_answer asked answer =
     (case asked of
        None \<Rightarrow> Inr (Some [])
      | Some _ \<Rightarrow>
          (case answer of
             Inl e \<Rightarrow> Inl e
           | Inr r \<Rightarrow> (case rs_json r of Inl e \<Rightarrow> Inl (Api_thrown e) | Inr j \<Rightarrow> json_version j)))"

definition version_answered :: "nat \<Rightarrow> api_error + response \<Rightarrow> khulnasoft_api \<Rightarrow> khulnasoft_api" where
  "version_answered i answer s =
     (case ka_tasks s ! i of
        Get_version info asked \<Rightarrow>
          let s1 = drop_task i s in
          (case instance_version_answer asked answer of
             Inl e \<Rightarrow> s1
           | Inr v \<Rightarrow>
               let inst = \<lparr>in_url = ka_baseURL s1, in_version = v\<rparr>
               in fireApiReconfigured (Api_valid inst info) (s1\<lparr>ka_instanceInfo := Some inst, ka_tokenInfo := Some info\<rparr>))
      | _ \<Rightarrow> s)"

datatype api_action =
    Config_changed "client_config \<Rightarrow> client_config"
  | Token_checked nat "api_error + response"
  | Version_answered nat "api_error + response"

fun ka_do :: "api_env \<Rightarrow> api_action \<Rightarrow> khulnasoft_api \<Rightarrow> khulnasoft_api" where
  "ka_do E (Config_changed f) s = config_set f s"
| "ka_do E (Token_checked i answer) s = (if i < length (ka_tasks s) then token_checked E i answer s else s)"
| "ka_do E (Version_answered i answer) s = (if i < length (ka_tasks s) then version_answered i answer s else s)"

definition ka_run :: "api_env \<Rightarrow> api_action list \<Rightarrow> khulnasoft_api \<Rightarrow> khulnasoft_api" where
  "ka_run E = fold (ka_do E)"

subsection \<open>Requests\<close>

text \<open>What the token check tells the editor (\<open>token_check_notifier.ts\<close>).\<close>

definition token_check_notification :: "bool \<Rightarrow> reconfigured \<Rightarrow> js_error + string option" where
  "token_check_notification initialised e =
     (case e of
        Api_valid i t \<Rightarrow> Inr None
      | Api_invalid m \<Rightarrow>
          if initialised then Inr (Some m)
          else Inl (JsError ''The DefaultTokenCheckNotifier has not been initialized. Call init first.''))"

text \<open>\<open>lookup\<close> answers the request for the version of an instance, when it has to be asked.\<close>

definition instanceVersionHigherOrEqualThen ::
  "api_env \<Rightarrow> (string \<Rightarrow> string \<Rightarrow> api_error + string option) \<Rightarrow> string \<Rightarrow> string \<Rightarrow> string \<Rightarrow> khulnasoft_api \<Rightarrow>
   api_error + bool" where
  "instanceVersionHigherOrEqualThen E lookup version baseUrl token s =
     (let known = Option.bind (ka_instanceInfo s) in_version;
          answer = (if or_empty known = [] \<or> baseUrl \<noteq> ka_baseURL s then lookup baseUrl token else Inr known)
      in case answer of
           Inl e \<Rightarrow> Inl e
         | Inr v \<Rightarrow> Inr (or_empty v \<noteq> [] \<and> 0 \<le> ae_compare E (or_empty v) version))"

definition version_error :: "string \<Rightarrow> string \<Rightarrow> api_error" where
  "version_error resourceName version =
     Api_version (''Can'' @ [CHR 0x27] @ ''t '' @ resourceName @ '' until your instance is upgraded to '' @ version @ '' or higher.'')"

definition ensureEndsWithSlash :: "string \<Rightarrow> string" where
  "ensureEndsWithSlash url = (if url \<noteq> [] \<and> last url = CHR ''/'' then url else url @ ''/'')"

definition body_headers :: "api_env \<Rightarrow> string \<Rightarrow> khulnasoft_api \<Rightarrow> (string, string) jsmap" where
  "body_headers E token s =
     (''Content-Type'', ''application/json'') # getDefaultHeaders (ae_lsVersion E) (ka_clientInfo s) (Some token)"

text \<open>The request that is sent and the resource that an error names.\<close>

definition send_request ::
  "api_env \<Rightarrow> string \<Rightarrow> string \<Rightarrow> 'b request \<Rightarrow> khulnasoft_api \<Rightarrow> api_error + ('b http_request \<times> string)" where
  "send_request E baseUrl token r s =
     (let with_body = (\<lambda>verb b. Inr (\<lparr>hq_method = verb, hq_url = baseUrl @ ''/api/v4'' @ rq_path r,
              hq_headers = with_headers (rq_headers r) (body_headers E token s), hq_body = b\<rparr>, ''resource''))
      in case rq_kind r of
           Graphql q \<Rightarrow>
             Inr (\<lparr>hq_method = ''POST'', hq_url = ae_resolve E ''./api/graphql'' (ensureEndsWithSlash baseUrl),
                   hq_headers = getDefaultHeaders (ae_lsVersion E) (ka_clientInfo s) (Some token), hq_body = Some q\<rparr>, [])
         | Rest_get p \<Rightarrow> simple_fetchFromApi (ae_query E) (ae_lsVersion E) (ka_clientInfo s) baseUrl token r
         | Rest_post b \<Rightarrow> with_body ''POST'' b
         | Rest_patch b \<Rightarrow> with_body ''PATCH'' b)"

definition fetchFromApi ::
  "api_env \<Rightarrow> (string \<Rightarrow> string \<Rightarrow> api_error + string option) \<Rightarrow> 'b request \<Rightarrow> khulnasoft_api \<Rightarrow>
   api_error + ('b http_request \<times> string)" where
  "fetchFromApi E lookup r s =
     (let baseUrl = (case rq_baseUrl r of None \<Rightarrow> ka_baseURL s | Some u \<Rightarrow> u);
          token = or_empty (case rq_token r of None \<Rightarrow> ka_token s | Some t \<Rightarrow> Some t)
      in if token = [] then Inl (Api_thrown (JsError ''Token needs to be provided to authorise API request.''))
         else case rq_supportedSince r of
             None \<Rightarrow> send_request E baseUrl token r s
           | Some (version, resourceName) \<Rightarrow>
               (case instanceVersionHigherOrEqualThen E lookup version baseUrl token s of
                  Inl e \<Rightarrow> Inl e
                | Inr supported \<Rightarrow>
                    if supported then send_request E baseUrl token r s else Inl (version_error resourceName version)))"

definition suggestions_request :: "api_env \<Rightarrow> bool \<Rightarrow> 'b \<Rightarrow> khulnasoft_api \<Rightarrow> api_error + 'b http_request" where
  "suggestions_request E stream body s =
     (if or_empty (ka_token s) = []
      then Inl (Api_thrown (JsError (if stream then ''Token needs to be provided to stream code suggestions''
                                     else ''Token needs to be provided to request Code Suggestions'')))
      else Inr \<lparr>hq_method = ''POST'', hq_url = ka_baseURL s @ ''/api/v4/code_suggestions/completions'',
                hq_headers = map_set ''Content-Type'' ''application/json''
                    (getDefaultHeaders (ae_lsVersion E) (ka_clientInfo s) (ka_token s)) @
                  (if stream then [(''X-Supports-Sse-Streaming'', ''true'')] else []),
                hq_body = Some body\<rparr>)"

text \<open>The chunks of a streamed answer; whether they are server-sent events is in a header of the response.\<close>

definition streamed_chunks :: "string option \<Rightarrow> (nat list \<times> bool) list option \<Rightarrow> (text16 \<times> bool) list" where
  "streamed_chunks format body = map (\<lambda>chunk. (chunk, format = Some ''sse'')) (streamResponse body)"

definition cable_headers :: "api_env \<Rightarrow> khulnasoft_api \<Rightarrow> (string, string) jsmap" where
  "cable_headers E s =
     getDefaultHeaders (ae_lsVersion E) (ka_clientInfo s) (ka_token s) @ [(''Origin'', ka_baseURL s)]"

definition cable_protocol :: "string \<Rightarrow> string" where
  "cable_protocol protocol = (if protocol = ''http:'' then ''ws:'' else ''wss:'')"

subsection \<open>Properties\<close>

text \<open>Steps that only answer what was asked.\<close>

fun is_answer :: "api_action \<Rightarrow> khulnasoft_api \<Rightarrow> bool" where
  "is_answer (Config_changed f) s = False"
| "is_answer (Token_checked i answer) s = (i < length (ka_tasks s) \<and> (case ka_tasks s ! i of Check_token b t \<Rightarrow> True | _ \<Rightarrow> False))"
| "is_answer (Version_answered i answer) s = (i < length (ka_tasks s) \<and> (case ka_tasks s ! i of Get_version x y \<Rightarrow> True | _ \<Rightarrow> False))"

fun all_answers :: "api_env \<Rightarrow> api_action list \<Rightarrow> khulnasoft_api \<Rightarrow> bool" where
  "all_answers E [] s = True"
| "all_answers E (a # as) s = (is_answer a s \<and> all_answers E as (ka_do E a s))"

fun task_work :: "api_task \<Rightarrow> nat" where
  "task_work (Check_token b t) = 2" | "task_work (Get_version i r) = 1"

definition tasks_work :: "api_task list \<Rightarrow> nat" where
  "tasks_work ts = sum_list (map task_work ts)"

definition token_removed :: "khulnasoft_api \<Rightarrow> bool" where
  "token_removed s \<longleftrightarrow> ka_token s = None \<and>
     ka_baseURL s = (case cg_baseUrl (ka_config s) of None \<Rightarrow> KHULNASOFT_API_BASE_URL | Some u \<Rightarrow> u)"

definition api_work :: "khulnasoft_api \<Rightarrow> nat" where
  "api_work s = tasks_work (ka_tasks s) + (if token_removed s then 0 else 3)"

lemma tasks_work_simps [simp]:
  "tasks_work [] = 0" "tasks_work (t # ts) = task_work t + tasks_work ts" "tasks_work (ts @ us) = tasks_work ts + tasks_work us"
  by (simp_all add: tasks_work_def)

lemma tasks_work_bound: "tasks_work ts \<le> 2 * length ts"
proof (induction ts)
  case (Cons t ts)
  then show ?case by (cases t) simp_all
qed simp

lemma drop_task_work: "i < length (ka_tasks s) \<Longrightarrow> tasks_work (ka_tasks s) = task_work (ka_tasks s ! i) + tasks_work (ka_tasks (drop_task i s))"
  by (subst id_take_nth_drop [of i "ka_tasks s"]) (simp_all add: drop_task_def)

lemma drop_task_same [simp]:
  "ka_config (drop_task i s) = ka_config s" "ka_token (drop_task i s) = ka_token s" "ka_baseURL (drop_task i s) = ka_baseURL s"
  "token_removed (drop_task i s) = token_removed s"
  by (simp_all add: drop_task_def token_removed_def)

lemma fire_same [simp]:
  "ka_tasks (fireApiReconfigured e s) = ka_tasks s" "token_removed (fireApiReconfigured e s) = token_removed s"
  by (simp_all add: fireApiReconfigured_def token_removed_def)

text \<open>Removing the token from the configuration starts a check at most once.\<close>

lemma removal_work:
  fixes s :: khulnasoft_api
  defines "s' \<equiv> config_set (\<lambda>c. c\<lparr>cg_token := None\<rparr>) s"
  shows "token_removed s'" "tasks_work (ka_tasks s') = tasks_work (ka_tasks s) + (if token_removed s then 0 else 2)"
  by (simp_all add: s'_def config_set_def ka_onConfigChange_def configureApi_def Let_def token_removed_def)

lemma answer_works:
  assumes "is_answer a s"
  shows "api_work (ka_do E a s) < api_work s"
proof (cases a)
  case (Token_checked i answer)
  with assms obtain b t where i: "i < length (ka_tasks s)" and t: "ka_tasks s ! i = Check_token b t"
    by (auto split: api_task.splits)
  have w: "tasks_work (ka_tasks s) = 2 + tasks_work (ka_tasks (drop_task i s))" using drop_task_work [OF i] t by simp
  show ?thesis
  proof (cases "checkToken E t answer")
    case (Token_valid info)
    have "ka_do E a s = (drop_task i s)\<lparr>ka_tasks := ka_tasks (drop_task i s) @ [Get_version info (version_request (drop_task i s))]\<rparr>"
      using Token_checked i t Token_valid by (simp add: token_checked_def Let_def)
    moreover have "token_removed ((drop_task i s)\<lparr>ka_tasks := ts\<rparr>) = token_removed s" for ts by (simp add: token_removed_def)
    ultimately show ?thesis using w by (simp add: api_work_def)
  next
    case (Token_invalid r m)
    then show ?thesis
      using Token_checked i t w removal_work [of "drop_task i s"] by (simp add: token_checked_def Let_def api_work_def)
  qed
next
  case (Version_answered i answer)
  with assms obtain info q where i: "i < length (ka_tasks s)" and t: "ka_tasks s ! i = Get_version info q"
    by (auto split: api_task.splits)
  have w: "tasks_work (ka_tasks s) = 1 + tasks_work (ka_tasks (drop_task i s))" using drop_task_work [OF i] t by simp
  have "token_removed ((drop_task i s)\<lparr>ka_instanceInfo := x, ka_tokenInfo := y\<rparr>) = token_removed s" for x y
    by (simp add: token_removed_def)
  with w show ?thesis
    using Version_answered i t by (simp add: version_answered_def Let_def api_work_def split: sum.split)
qed (use assms in simp)

text \<open>C24: Configuring ends: although an invalid token is removed from the configuration by the client, whose own listener
  then starts over, the instance is asked at most twice for every open question and three times more.\<close>

theorem configuring_ends:
  assumes "all_answers E as s"
  shows "length as \<le> 2 * length (ka_tasks s) + 3"
proof -
  have "length as \<le> api_work s"
    using assms
  proof (induction as arbitrary: s)
    case (Cons a as)
    then have "length as \<le> api_work (ka_do E a s)" by simp
    moreover have "api_work (ka_do E a s) < api_work s" using Cons.prems by (intro answer_works) simp
    ultimately show ?case by simp
  qed simp
  also have "\<dots> \<le> 2 * length (ka_tasks s) + 3" using tasks_work_bound [of "ka_tasks s"] by (simp add: api_work_def)
  finally show ?thesis .
qed

lemma config_change_started:
  assumes "cg_token (f (ka_config s)) = Some token" and "cg_baseUrl (f (ka_config s)) = Some url"
    and "ka_token s \<noteq> Some token"
  shows "let s' = config_set f s in ka_tasks s' = ka_tasks s @ [Check_token url token] \<and> ka_token s' = Some token \<and> ka_baseURL s' = url \<and>
    ka_config s' = f (ka_config s) \<and> ka_events s' = ka_events s"
  using assms by (simp add: Let_def config_set_def ka_onConfigChange_def configureApi_def or_empty_def)

text \<open>C5: A new token that the instance accepts configures the client: one event is fired, with the instance of the
  configured URL, its version and the scopes of the token, which is also what the client knows from then on; nothing is
  left to wait for and the token stays in the configuration.\<close>

theorem valid_token_configures:
  assumes "ka_tasks s = []" and "cg_token (f (ka_config s)) = Some token" and "cg_baseUrl (f (ka_config s)) = Some url"
    and "ka_token s \<noteq> Some token" and "token \<noteq> []"
    and "checkToken E token answer = Token_valid info" and "rs_json r = Inr (JObj [(''version'', JStr v)])"
  shows "let s' = ka_run E [Config_changed f, Token_checked 0 answer, Version_answered 0 (Inr r)] s;
             inst = \<lparr>in_url = url, in_version = Some v\<rparr>
         in ka_events s' = ka_events s @ [Api_valid inst info] \<and> ka_instanceInfo s' = Some inst \<and>
            ka_tokenInfo s' = Some info \<and> ka_tasks s' = [] \<and> cg_token (ka_config s') = Some token"
proof -
  let ?s1 = "config_set f s"
  note start = config_change_started [of f s token url, OF assms(2,3,4), unfolded Let_def assms(1) append_Nil]
  let ?s2 = "(drop_task 0 ?s1)\<lparr>ka_tasks := [Get_version info (Some (url @ ''/api/v4/version'', token))]\<rparr>"
  have "ka_do E (Token_checked 0 answer) ?s1 = ?s2"
    using start assms(5,6) by (simp add: token_checked_def Let_def drop_task_def version_request_def or_empty_def)
  then have "ka_run E [Config_changed f, Token_checked 0 answer, Version_answered 0 (Inr r)] s = ka_do E (Version_answered 0 (Inr r)) ?s2"
    by (simp add: ka_run_def)
  then show ?thesis
    using start assms(2,7)
    by (simp add: Let_def version_answered_def instance_version_answer_def json_version_def fireApiReconfigured_def drop_task_def)
qed

text \<open>C10: A new token that the instance refuses leaves nothing behind but the events: the token is removed from the
  configuration, the client checks once more without one, and is idle after that; every event it fired says that the
  client is not configured.\<close>

theorem invalid_token_removed:
  assumes "ka_tasks s = []" and "cg_token (f (ka_config s)) = Some token" and "cg_baseUrl (f (ka_config s)) = Some url"
    and "ka_token s \<noteq> Some token"
    and "checkToken E token answer = Token_invalid reason m" and "checkToken E [] answer' = Token_invalid reason' m'"
  shows "let s' = ka_run E [Config_changed f, Token_checked 0 answer, Token_checked 0 answer'] s
         in ka_events s' = ka_events s @ [Api_invalid (''Token is invalid. '' @ m @ ''. Reason: '' @ reason_name reason),
              Api_invalid (''Token is invalid. '' @ m' @ ''. Reason: '' @ reason_name reason')] \<and>
            ka_token s' = None \<and> cg_token (ka_config s') = None \<and> ka_tasks s' = []"
proof -
  let ?s1 = "config_set f s"
  note start = config_change_started [of f s token url, OF assms(2,3,4), unfolded Let_def assms(1) append_Nil]
  let ?s2 = "ka_do E (Token_checked 0 answer) ?s1"
  have s2: "ka_tasks ?s2 = [Check_token url []]" "ka_token ?s2 = None" "ka_baseURL ?s2 = url"
    "ka_config ?s2 = (f (ka_config s))\<lparr>cg_token := None\<rparr>"
    "ka_events ?s2 = ka_events s @ [Api_invalid (''Token is invalid. '' @ m @ ''. Reason: '' @ reason_name reason)]"
    using start assms(3,5)
    by (simp_all add: token_checked_def Let_def drop_task_def config_set_def ka_onConfigChange_def configureApi_def or_empty_def
        fireApiReconfigured_def)
  have "ka_run E [Config_changed f, Token_checked 0 answer, Token_checked 0 answer'] s = ka_do E (Token_checked 0 answer') ?s2"
    by (simp add: ka_run_def)
  then show ?thesis
    using s2 assms(3,6)
    by (simp add: token_checked_def Let_def drop_task_def config_set_def ka_onConfigChange_def configureApi_def
        fireApiReconfigured_def)
qed

lemma with_headers_get:
  "map_get (with_headers extra base) k =
   (case extra of None \<Rightarrow> map_get base k | Some hs \<Rightarrow> if k \<in> fst ` set hs then map_get (with_headers extra base) k else map_get base k)"
proof (cases extra)
  case (Some hs)
  have "k \<notin> fst ` set hs \<Longrightarrow> map_get (fold (\<lambda>(k, v). map_set k v) hs base) k = map_get base k"
    by (induction hs arbitrary: base) auto
  with Some show ?thesis by (simp add: with_headers_def)
qed (simp add: with_headers_def)

lemma version_suffices:
  assumes "instanceVersionHigherOrEqualThen E lookup version base token s = Inr True"
  shows "\<exists>v. (if or_empty (Option.bind (ka_instanceInfo s) in_version) \<noteq> [] \<and> base = ka_baseURL s
      then Option.bind (ka_instanceInfo s) in_version = Some v else lookup base token = Inr (Some v)) \<and>
    v \<noteq> [] \<and> 0 \<le> ae_compare E v version"
  using assms unfolding instanceVersionHigherOrEqualThen_def Let_def
  by (cases "Option.bind (ka_instanceInfo s) in_version"; cases "lookup base token")
     (auto simp: or_empty_def split: if_splits option.splits)

text \<open>C12: A request that brings no \<open>Authorization\<close> header of its own is sent only with a token, the request's own or else
  the client's, in its authorisation, to the URL of the request or else of the client; and one that needs a version of
  the instance only when the version the client knows (for its own URL, be it of the instance configured before), or
  else the one it is told when it asks, is at least that.\<close>

theorem requests_authorised:
  assumes "fetchFromApi E lookup r s = Inr (q, resource)"
    and "''Authorization'' \<notin> fst ` set (case rq_headers r of None \<Rightarrow> [] | Some hs \<Rightarrow> hs)"
  shows "let token = or_empty (case rq_token r of None \<Rightarrow> ka_token s | Some t \<Rightarrow> Some t);
             base = (case rq_baseUrl r of None \<Rightarrow> ka_baseURL s | Some u \<Rightarrow> u);
             known = Option.bind (ka_instanceInfo s) in_version;
             enough = (\<lambda>version v. v \<noteq> [] \<and> 0 \<le> ae_compare E v version)
         in token \<noteq> [] \<and> map_get (hq_headers q) ''Authorization'' = Some (''Bearer '' @ token) \<and>
            (case rq_kind r of Graphql d \<Rightarrow> hq_url q = ae_resolve E ''./api/graphql'' (ensureEndsWithSlash base)
                             | _ \<Rightarrow> starts_with (hq_url q) (base @ ''/api/v4'' @ rq_path r)) \<and>
            (case rq_supportedSince r of
               None \<Rightarrow> True
             | Some (version, n) \<Rightarrow>
                 \<exists>v. (if or_empty known \<noteq> [] \<and> base = ka_baseURL s then known = Some v else lookup base token = Inr (Some v)) \<and>
                   enough version v)"
proof -
  let ?token = "or_empty (case rq_token r of None \<Rightarrow> ka_token s | Some t \<Rightarrow> Some t)"
  let ?base = "case rq_baseUrl r of None \<Rightarrow> ka_baseURL s | Some u \<Rightarrow> u"
  have token: "?token \<noteq> []" using assms(1) by (auto simp: fetchFromApi_def Let_def)
  then have sent: "send_request E ?base ?token r s = Inr (q, resource)" and
    "\<And>version n. rq_supportedSince r = Some (version, n) \<Longrightarrow>
       instanceVersionHigherOrEqualThen E lookup version ?base ?token s = Inr True"
    using assms(1) by (auto simp: fetchFromApi_def Let_def split: option.splits sum.splits if_splits)
  then have supported: "case rq_supportedSince r of None \<Rightarrow> True
      | Some (version, n) \<Rightarrow>
          \<exists>v. (if or_empty (Option.bind (ka_instanceInfo s) in_version) \<noteq> [] \<and> ?base = ka_baseURL s
               then Option.bind (ka_instanceInfo s) in_version = Some v else lookup ?base ?token = Inr (Some v)) \<and>
            v \<noteq> [] \<and> 0 \<le> ae_compare E v version"
    by (cases "rq_supportedSince r") (simp_all only: option.case split_paired_all prod.case version_suffices)
  have headers: "map_get (with_headers (rq_headers r) base) ''Authorization'' = map_get base ''Authorization''" for base
    using assms(2) with_headers_get [of "rq_headers r" base "''Authorization''"] by (auto split: option.splits)
  have "map_get (hq_headers q) ''Authorization'' = Some (''Bearer '' @ ?token) \<and>
      (case rq_kind r of Graphql d \<Rightarrow> hq_url q = ae_resolve E ''./api/graphql'' (ensureEndsWithSlash ?base)
                       | _ \<Rightarrow> starts_with (hq_url q) (?base @ ''/api/v4'' @ rq_path r))"
    using sent headers
    by (cases "rq_kind r") (auto simp: send_request_def simple_fetchFromApi_def Let_def getDefaultHeaders_def body_headers_def)
  with token supported show ?thesis by (simp only: Let_def) blast
qed

subsection \<open>Races and errors\<close>

text \<open>The answer about an old token removes the new one, which the instance has accepted.\<close>

theorem stale_check_clears_token:
  assumes "old \<noteq> new" and "new \<noteq> []" and "cg_baseUrl c = Some url"
    and "checkToken E old refused = Token_invalid reason m" and "checkToken E new accepted = Token_valid info"
  shows "let s = ka_run E [Config_changed (\<lambda>c. c\<lparr>cg_token := Some old\<rparr>), Config_changed (\<lambda>c. c\<lparr>cg_token := Some new\<rparr>),
                   Token_checked 1 accepted, Token_checked 0 refused] (ka_new c)
         in ka_token s = None \<and> cg_token (ka_config s) = None"
  using assms
  by (simp add: ka_run_def ka_new_def config_set_def ka_onConfigChange_def configureApi_def Let_def token_checked_def
      drop_task_def or_empty_def version_request_def fireApiReconfigured_def)

text \<open>When the version of the instance cannot be read, nobody is told, and to configure the client with the same token and
  URL again does nothing.\<close>

theorem failed_version_sticks:
  assumes "ka_tasks s = [Get_version info (Some q)]" and "ka_token s = cg_token (f (ka_config s))"
    and "Some (ka_baseURL s) = cg_baseUrl (f (ka_config s))"
  shows "let s' = ka_run E [Version_answered 0 (Inl e), Config_changed f] s
         in ka_tasks s' = [] \<and> ka_events s' = ka_events s \<and> ka_instanceInfo s' = ka_instanceInfo s"
  using assms
  by (auto simp: ka_run_def version_answered_def instance_version_answer_def Let_def drop_task_def config_set_def
      ka_onConfigChange_def configureApi_def split: option.splits)

text \<open>While a new instance is being checked, its requests are judged by the version of the old one.\<close>

theorem old_version_judges_new_instance:
  assumes "ka_instanceInfo s = Some \<lparr>in_url = old, in_version = Some v\<rparr>" and "v \<noteq> []"
    and "cg_baseUrl (f (ka_config s)) = Some url"
  shows "instanceVersionHigherOrEqualThen E lookup version url token (config_set f s) = Inr (0 \<le> ae_compare E v version)"
  using assms
  by (simp add: instanceVersionHigherOrEqualThen_def config_set_def ka_onConfigChange_def configureApi_def Let_def or_empty_def)

text \<open>Without a token the cable is asked for with the token \<open>undefined\<close>.\<close>

theorem cable_without_token:
  "ka_token s = None \<Longrightarrow> map_get (cable_headers E s) ''Authorization'' = Some ''Bearer undefined''"
  by (simp add: cable_headers_def getDefaultHeaders_def)

subsection \<open>Witnesses\<close>

definition sample_api_env :: api_env where
  "sample_api_env = \<lparr>ae_parse = (\<lambda>b. None), ae_toString = (\<lambda>e. ''error''), ae_lsVersion = ''1'', ae_query = (\<lambda>q. []),
     ae_resolve = (\<lambda>p u. u @ drop 2 p), ae_compare = (\<lambda>v w. 0)\<rparr>"

definition answered :: "nat \<Rightarrow> json \<Rightarrow> response" where
  "answered status j = \<lparr>rs_url = ''u'', rs_status = status, rs_body = None, rs_json = Inr j\<rparr>"

definition good_token :: "api_error + response" where
  "good_token = Inr (answered 200 (JObj [(''active'', JBool True), (''scopes'', JArr [JStr ''api''])]))"

definition bad_token :: "api_error + response" where
  "bad_token = Inr (answered 401 (JObj []))"

lemma sample_checks:
  "checkToken sample_api_env ''t'' good_token = Token_valid \<lparr>tk_scopes = [''api''], tk_type = Pat_token\<rparr>"
  "checkToken sample_api_env t bad_token = Token_invalid Reason_unknown ''Failed to check token: error''"
  by (simp_all add: checkToken_def looksLikePatToken_def checkPatToken_def checkOAuthToken_def checked_json_def handleFetchError_def
      rs_ok_def good_token_def bad_token_def answered_def json_active_def scopes_of_def hasValidScopes_def sample_api_env_def)

definition with_token :: "client_config \<Rightarrow> client_config" where
  "with_token c = c\<lparr>cg_token := Some ''t'', cg_baseUrl := Some ''https://x''\<rparr>"

theorem configuring_ends_witness:
  "length [Token_checked 0 bad_token, Token_checked 0 bad_token] \<le> 2 * length (ka_tasks (config_set with_token (ka_new default_config))) + 3"
  by (rule configuring_ends [of sample_api_env])
    (simp add: token_checked_def sample_checks Let_def drop_task_def config_set_def ka_onConfigChange_def configureApi_def ka_new_def
      with_token_def fireApiReconfigured_def)

theorem valid_token_configures_witness:
  "let s' = ka_run sample_api_env [Config_changed with_token, Token_checked 0 good_token,
              Version_answered 0 (Inr (answered 200 (JObj [(''version'', JStr ''17.6.0'')])))] (ka_new default_config);
       inst = \<lparr>in_url = ''https://x'', in_version = Some ''17.6.0''\<rparr>;
       info = \<lparr>tk_scopes = [''api''], tk_type = Pat_token\<rparr>
   in ka_events s' = ka_events (ka_new default_config) @ [Api_valid inst info] \<and> ka_instanceInfo s' = Some inst \<and>
      ka_tokenInfo s' = Some info \<and> ka_tasks s' = [] \<and> cg_token (ka_config s') = Some ''t''"
  unfolding Let_def
  by (rule valid_token_configures [unfolded Let_def]) (simp_all add: ka_new_def with_token_def sample_checks answered_def)

theorem invalid_token_removed_witness:
  "let s' = ka_run sample_api_env [Config_changed with_token, Token_checked 0 bad_token, Token_checked 0 bad_token] (ka_new default_config)
   in ka_token s' = None \<and> cg_token (ka_config s') = None \<and> ka_tasks s' = []"
  using invalid_token_removed [of "ka_new default_config" with_token "''t''" "''https://x''" sample_api_env bad_token _ _ bad_token]
  by (simp add: ka_new_def with_token_def sample_checks Let_def)

definition sample_request :: "unit request" where
  "sample_request = \<lparr>rq_baseUrl = None, rq_token = None, rq_path = ''/projects'', rq_headers = None,
     rq_supportedSince = Some (''16'', ''n''), rq_kind = Rest_post (Some ())\<rparr>"

theorem requests_authorised_witness:
  "\<exists>q resource. fetchFromApi sample_api_env (\<lambda>u t. Inr (Some ''17'')) sample_request (config_set with_token (ka_new default_config)) =
     Inr (q, resource) \<and> map_get (hq_headers q) ''Authorization'' = Some ''Bearer t''"
proof -
  let ?s = "config_set with_token (ka_new default_config)"
  have s: "ka_token ?s = Some ''t''" "ka_baseURL ?s = ''https://x''" "ka_instanceInfo ?s = None"
    by (simp_all add: config_set_def ka_onConfigChange_def configureApi_def with_token_def ka_new_def Let_def)
  obtain q resource where sent: "fetchFromApi sample_api_env (\<lambda>u t. Inr (Some ''17'')) sample_request ?s = Inr (q, resource)"
    by (simp add: fetchFromApi_def sample_request_def Let_def s or_empty_def instanceVersionHigherOrEqualThen_def
        sample_api_env_def send_request_def)
  from requests_authorised [OF sent] sent show ?thesis
    by (simp add: Let_def sample_request_def s or_empty_def)
qed

end
