(* ===== verification/Security_Scan.thy ===== *)
theory Security_Scan
  imports Khulnasoft_Api Duo_Access Uri_Path
begin

text \<open>
  The security scan (\<open>src/common/security_scan/security_diagnostics_publisher.ts\<close>, \<open>security_notifier.ts\<close>): on request of
  the editor a document is sent to the project of its workspace folder; what is found is published as diagnostics, and
  the end of the scan, good or bad, is notified.

  Parameters: the URI type, the checker of projects, the API service, and whether publishing and notifying are
  initialised and succeed.  \<open>encodeURIComponent\<close> is modelled.
\<close>

subsection \<open>\<open>encodeURIComponent\<close>\<close>

definition hex_digit :: "nat \<Rightarrow> char" where
  "hex_digit n = char_of (if n < 10 then 48 + n else 55 + n)"

definition percent_escape :: "nat \<Rightarrow> string" where
  "percent_escape b = [CHR ''%'', hex_digit (b div 16), hex_digit (b mod 16)]"

definition unescaped :: "char \<Rightarrow> bool" where
  "unescaped c \<longleftrightarrow>
     (let n = of_char c :: nat
      in 48 \<le> n \<and> n \<le> 57 \<or> 65 \<le> n \<and> n \<le> 90 \<or> 97 \<le> n \<and> n \<le> 122 \<or> n \<in> {33, 39, 40, 41, 42, 45, 46, 95, 126})"

definition escaped_char :: "char \<Rightarrow> string" where
  "escaped_char c = (if unescaped c then [c] else concat (map percent_escape (utf8_char (of_char c))))"

definition encodeURIComponent :: "string \<Rightarrow> string" where
  "encodeURIComponent s = concat (map escaped_char s)"

subsection \<open>Data\<close>

record vulnerability =
  vu_name :: string
  vu_description :: string
  vu_severity :: string
  vu_start :: "int \<times> int"
  vu_end :: "int \<times> int"

datatype diagnostic_severity = Severity_error | Severity_warning

record diagnostic =
  di_message :: string
  di_start :: "int \<times> int"
  di_end :: "int \<times> int"
  di_severity :: diagnostic_severity
  di_source :: string

record scan_response =
  sn_filePath :: string
  sn_status :: nat
  sn_results :: "vulnerability list option"
  sn_error :: "string option"

datatype scan_effect =
    Publish string "diagnostic list"
  | Send_response scan_response

record security_publisher =
  sp_initialised :: bool
  sp_opts :: "bool option option"
  sp_folders :: "workspace_folder list"

record scan_document =
  sk_uri :: string
  sk_text :: string

text \<open>What the service answers: \<open>None\<close> where the vulnerabilities are missing or not a list.\<close>

type_synonym scan_request = "(string \<times> string) request"

record 'u scan_env =
  sx_uri :: "'u uri_api"
  sx_document :: "string \<Rightarrow> scan_document option"
  sx_checkProject :: "string \<Rightarrow> workspace_folder \<Rightarrow> duo_project option \<times> duo_project_status"
  sx_config :: client_config
  sx_fetch :: "scan_request \<Rightarrow> api_error + vulnerability list option"
  sx_publish :: "api_error option"
  sx_notifier :: bool
  sx_notify :: "api_error option"
  sx_errorText :: "api_error \<Rightarrow> string option"

definition sp_new :: "client_config \<Rightarrow> security_publisher" where
  "sp_new c = \<lparr>sp_initialised = False, sp_opts = None,
     sp_folders = (case cg_workspaceFolders c of None \<Rightarrow> [] | Some fs \<Rightarrow> fs)\<rparr>"

definition sp_onConfigChange :: "client_config \<Rightarrow> security_publisher \<Rightarrow> security_publisher" where
  "sp_onConfigChange c s = s\<lparr>sp_opts := cg_securityScannerOptions c,
     sp_folders := (case cg_workspaceFolders c of None \<Rightarrow> [] | Some fs \<Rightarrow> fs)\<rparr>"

definition sp_init :: "security_publisher \<Rightarrow> security_publisher" where
  "sp_init s = s\<lparr>sp_initialised := True\<rparr>"

subsection \<open>The scan\<close>

definition UNKNOWN_ERROR_CODE :: nat where "UNKNOWN_ERROR_CODE = 500"

definition unknown_error_message :: string where
  "unknown_error_message = ''Real-time SAST scan failed with an unknown error. Check your network connection, reload your IDE, and try again ''"

definition ApiErrorMessageMapping :: "nat \<Rightarrow> string option" where
  "ApiErrorMessageMapping status =
     (if status = 401 then Some (''Real-time SAST scan authentication failed. Your KhulnaSoft authentication token is invalid or has expired. '' @
        ''Reauthenticate with your KhulnaSoft account or generate a new personal access token.'')
      else if status = 403 then Some (''Real-time SAST scan is not available for this project or '' @
        ''[namespace](https://docs.khulnasoft.com/ee/user/namespace).'')
      else if status = 404 then Some (''Real-time SAST scan is not available on your '' @
        ''[KhulnaSoft instance version](https://docs.khulnasoft.com/ee/api/projects.html#real-time-security-scan).'')
      else if status = UNKNOWN_ERROR_CODE then Some unknown_error_message
      else None)"

definition mapVulnerabilityToDiagnostic :: "vulnerability \<Rightarrow> diagnostic" where
  "mapVulnerabilityToDiagnostic v =
     \<lparr>di_message = vu_name v @ [CHR 0x0A, CHR 0x0A] @ vu_description v,
      di_start = (fst (vu_start v) - 1, snd (vu_start v) - 1),
      di_end = (fst (vu_end v) - 1, snd (vu_end v) - 1),
      di_severity = (if vu_severity v = ''high'' then Severity_error else Severity_warning),
      di_source = ''gitlab_security_scan''\<rparr>"

text \<open>The notifier throws when it was not initialised; otherwise the response is sent, and sending it may fail.\<close>

definition notifier_missing :: api_error where
  "notifier_missing = Api_thrown (JsError ''The security scan notifier has not been initialized. Call init first.'')"

definition sendScanResponse :: "'u scan_env \<Rightarrow> scan_response \<Rightarrow> scan_effect list \<times> api_error option" where
  "sendScanResponse X r = (if \<not> sx_notifier X then ([], Some notifier_missing) else ([Send_response r], sx_notify X))"

definition error_response :: "'u scan_env \<Rightarrow> api_error \<Rightarrow> string \<Rightarrow> scan_response" where
  "error_response X e filePath =
     (let status = (case e of Api_fetch f \<Rightarrow> fe_status f | _ \<Rightarrow> UNKNOWN_ERROR_CODE);
          errorMessage =
            (case e of
               Api_fetch f \<Rightarrow> (case ApiErrorMessageMapping status of None \<Rightarrow> ApiErrorMessageMapping UNKNOWN_ERROR_CODE | m \<Rightarrow> m)
             | _ \<Rightarrow> sx_errorText X e)
      in \<lparr>sn_filePath = filePath, sn_status = status, sn_results = None,
          sn_error = (case errorMessage of None \<Rightarrow> ApiErrorMessageMapping UNKNOWN_ERROR_CODE | m \<Rightarrow> m)\<rparr>)"

definition handleError :: "'u scan_env \<Rightarrow> api_error \<Rightarrow> string \<Rightarrow> scan_effect list \<times> api_error option" where
  "handleError X e filePath = sendScanResponse X (error_response X e filePath)"

definition scan_request_of :: "'u scan_env \<Rightarrow> scan_document \<Rightarrow> string \<Rightarrow> scan_request" where
  "scan_request_of X d project =
     \<lparr>rq_baseUrl = None, rq_token = None,
      rq_path = ''/projects/'' @ encodeURIComponent project @ ''/security_scans/sast/scan'', rq_headers = None,
      rq_supportedSince = Some (''17.5.0'', ''SAST security scan''),
      rq_kind = Rest_post (Some (ua_path (sx_uri X) (parseURIString (sx_uri X) (sk_uri d)), sk_text d))\<rparr>"

definition scan_thrown :: "string \<Rightarrow> api_error" where
  "scan_thrown m = Api_thrown (JsError m)"

text \<open>What comes before the request: an error, nothing to do, or the document and the path of its project.\<close>

definition scan_prepare ::
  "'u scan_env \<Rightarrow> scan_document + string \<Rightarrow> security_publisher \<Rightarrow> api_error + (scan_document \<times> string) option" where
  "scan_prepare X source s =
     (case (case source of Inl d \<Rightarrow> if sk_uri d \<noteq> [] then Some d else None | Inr u \<Rightarrow> sx_document X u) of
        None \<Rightarrow> Inr None
      | Some d \<Rightarrow>
          (case List.find (\<lambda>folder. starts_with (sk_uri d) (wf_uri folder)) (sp_folders s) of
             None \<Rightarrow> Inl (scan_thrown ''Real-time SAST scan failed. No valid workspace detected.'')
           | Some folder \<Rightarrow>
               (case fst (sx_checkProject X (sk_uri d) folder) of
                  None \<Rightarrow> Inl (scan_thrown ''Real-time SAST scan failed. No valid project detected.'')
                | Some p \<Rightarrow>
                    if gr_namespaceWithPath (dp_remote p) = []
                    then Inl (scan_thrown ''Real-time SAST scan failed. No valid project detected.'')
                    else if \<not> sp_initialised s
                    then Inl (scan_thrown ''Real-time SAST scan failed. Reload your IDE, and try again'')
                    else if \<not> isClientFlagEnabled (sx_config X) RemoteSecurityScans then Inr None
                    else if Option.bind (sp_opts s) id \<noteq> Some True then Inr None
                    else Inr (Some (d, gr_namespaceWithPath (dp_remote p))))))"

text \<open>A request, the effects, and the error that the handler leaves unhandled.\<close>

definition scan_finish ::
  "'u scan_env \<Rightarrow> scan_document \<Rightarrow> api_error + vulnerability list option \<Rightarrow> scan_effect list \<times> api_error option" where
  "scan_finish X d answer =
     (let filePath = ua_path (sx_uri X) (parseURIString (sx_uri X) (sk_uri d)) in
      case answer of
        Inl e \<Rightarrow> handleError X e filePath
      | Inr None \<Rightarrow> ([], None)
      | Inr (Some vulns) \<Rightarrow>
          let published = Publish (sk_uri d) (map mapVulnerabilityToDiagnostic vulns) in
          (case sx_publish X of
             Some e \<Rightarrow> apfst ((#) published) (handleError X e filePath)
           | None \<Rightarrow>
               let (sent, failed) = sendScanResponse X
                     \<lparr>sn_filePath = filePath, sn_status = 200, sn_results = Some vulns, sn_error = None\<rparr>
               in (case failed of
                     None \<Rightarrow> (published # sent, None)
                   | Some e \<Rightarrow> apfst (\<lambda>es. published # sent @ es) (handleError X e filePath))))"

definition source_text :: "scan_document + string \<Rightarrow> string" where
  "source_text source = (case source of Inl d \<Rightarrow> ''[object Object]'' | Inr u \<Rightarrow> u)"

definition runSecurityScan ::
  "'u scan_env \<Rightarrow> scan_document + string \<Rightarrow> security_publisher \<Rightarrow>
   scan_request option \<times> scan_effect list \<times> api_error option" where
  "runSecurityScan X source s =
     (case scan_prepare X source s of
        Inl e \<Rightarrow> (None, handleError X e (source_text source))
      | Inr None \<Rightarrow> (None, [], None)
      | Inr (Some (d, project)) \<Rightarrow>
          let r = scan_request_of X d project in (Some r, scan_finish X d (sx_fetch X r)))"

definition handleScanNotification ::
  "'u scan_env \<Rightarrow> string \<Rightarrow> security_publisher \<Rightarrow> scan_request option \<times> scan_effect list \<times> api_error option" where
  "handleScanNotification X documentUri s = runSecurityScan X (Inr documentUri) s"

text \<open>The client of the instance as the API service; \<open>network\<close> answers a request that is sent.\<close>

definition scan_api ::
  "api_env \<Rightarrow> (string \<Rightarrow> string \<Rightarrow> api_error + string option) \<Rightarrow> khulnasoft_api \<Rightarrow>
   ((string \<times> string) http_request \<Rightarrow> string \<Rightarrow> api_error + vulnerability list option) \<Rightarrow>
   scan_request \<Rightarrow> api_error + vulnerability list option" where
  "scan_api E lookup api network r =
     (case fetchFromApi E lookup r api of Inl e \<Rightarrow> Inl e | Inr (q, resource) \<Rightarrow> network q resource)"

subsection \<open>Properties\<close>

lemma hex_value_digit: "n < 16 \<Longrightarrow> hex_value (hex_digit n) = Some n"
  by (auto simp: hex_value_def hex_digit_def Let_def)

lemma percent_byte_escape [simp]: "b < 256 \<Longrightarrow> percent_byte (percent_escape b @ s) = Some (b, s)"
  by (simp add: percent_escape_def hex_value_digit)

lemma decode_escape:
  "percent_char (percent_escape b @ s) = Some (u, r) \<Longrightarrow>
   decodeURIComponent (percent_escape b @ s) = map_sum id (\<lambda>t. units_of u @ t) (decodeURIComponent r)"
  by (simp add: percent_escape_def)

lemma escaped_ascii: "b < 128 \<Longrightarrow> percent_char (percent_escape b @ s) = Some (b, s)"
  by (simp add: percent_char_def)

lemma utf8_latin:
  assumes "128 \<le> n" and "n < 256"
  shows "utf8_char n = [0xC0 + n div 64, 0x80 + n mod 64]"
  using assms by (simp add: utf8_char_def)

lemma escaped_latin:
  assumes "128 \<le> n" and "n < 256"
  shows "percent_char (percent_escape (0xC0 + n div 64) @ percent_escape (0x80 + n mod 64) @ s) = Some (n, s)"
proof -
  have d: "n div 64 = 2 \<or> n div 64 = 3" using assms by auto
  then have b: "0xC0 + n div 64 < 256" "following_bytes (0xC0 + n div 64) = 1"
    by (auto simp: following_bytes_def)
  have "(0xC0 + n div 64) mod 32 = n div 64" using d by auto
  moreover have "(n mod 64 + 64 + 64) mod 64 = n mod 64" by (simp only: mod_add_self2 mod_mod_trivial)
  then have "(0x80 + n mod 64) mod 64 = n mod 64" by (simp add: add.commute)
  ultimately have point: "code_point (0xC0 + n div 64) [0x80 + n mod 64] = n"
    by (simp add: code_point_def)
  have "scalar n" using assms by (simp add: scalar_def)
  with b point utf8_latin [OF assms] show ?thesis by (simp add: percent_char_def)
qed

lemma units_of_latin [simp]: "n < 256 \<Longrightarrow> units_of n = [n]"
  by (simp add: units_of_def)

lemma map_sum_append: "map_sum id (\<lambda>t. [u] @ t) = map_sum id (\<lambda>t. u # t)"
  by simp

lemma decode_escaped_char:
  "decodeURIComponent (escaped_char c @ s) = map_sum id (\<lambda>t. of_char c # t) (decodeURIComponent s)"
proof -
  let ?n = "of_char c :: nat"
  have n: "?n < 256" by simp
  consider "unescaped c" | "\<not> unescaped c" "?n < 128" | "\<not> unescaped c" "128 \<le> ?n" by linarith
  then show ?thesis
  proof cases
    case 1
    then have "c \<noteq> CHR ''%''" by (auto simp: unescaped_def Let_def)
    with 1 show ?thesis by (simp add: escaped_char_def)
  next
    case 2
    then have "escaped_char c = percent_escape ?n" by (simp add: escaped_char_def utf8_char_def)
    with decode_escape [OF escaped_ascii [OF 2(2)], of s] n show ?thesis by simp
  next
    case 3
    then have "escaped_char c = percent_escape (0xC0 + ?n div 64) @ percent_escape (0x80 + ?n mod 64)"
      by (simp add: escaped_char_def utf8_latin [OF 3(2) n])
    with decode_escape [OF escaped_latin [OF 3(2) n], of s] n show ?thesis by simp
  qed
qed

lemma decode_encode: "decodeURIComponent (encodeURIComponent s) = Inr (widen s)"
  by (induction s) (simp_all add: encodeURIComponent_def decode_escaped_char)

lemma slash_not_hex: "hex_value slash = None"
  by (simp add: hex_value_def slash_def)

lemma hex_digit_not_slash: "n < 16 \<Longrightarrow> slash \<noteq> hex_digit n"
  using hex_value_digit [of n] slash_not_hex by (metis option.distinct(1))

lemma utf8_byte: "n < 256 \<Longrightarrow> b \<in> set (utf8_char n) \<Longrightarrow> b < 256"
  by (auto simp: utf8_char_def split: if_splits)

lemma escape_no_slash: "b < 256 \<Longrightarrow> slash \<notin> set (percent_escape b)"
  using hex_digit_not_slash [of "b div 16"] hex_digit_not_slash [of "b mod 16"]
  by (simp add: percent_escape_def) (simp add: slash_def)

lemma escaped_char_no_slash: "slash \<notin> set (escaped_char c)"
proof (cases "unescaped c")
  case True
  then have "c \<noteq> slash" by (auto simp: unescaped_def slash_def Let_def)
  with True show ?thesis by (simp add: escaped_char_def)
next
  case False
  have "slash \<notin> set (percent_escape b)" if "b \<in> set (utf8_char (of_char c))" for b
    by (rule escape_no_slash, rule utf8_byte [OF _ that]) simp
  with False show ?thesis by (simp add: escaped_char_def)
qed

lemma encoded_no_slash: "slash \<notin> set (encodeURIComponent s)"
  by (simp add: encodeURIComponent_def escaped_char_no_slash)

lemma split_on_part: "x \<notin> set p \<Longrightarrow> split_on x (p @ x # q) = p # split_on x q"
  by (induction p) (auto simp: Let_def split: list.splits)

text \<open>C33: The path of a scan names the project as one segment, however its path is written: decoding the segment gives
  the path of the project back.\<close>

theorem scan_path_names_project:
  "\<exists>segment. split_on slash (rq_path (scan_request_of X d project)) =
       [[], ''projects'', segment, ''security_scans'', ''sast'', ''scan''] \<and>
     decodeURIComponent segment = Inr (widen project)"
proof -
  have "split_on slash (rq_path (scan_request_of X d project)) =
      [[], ''projects'', encodeURIComponent project, ''security_scans'', ''sast'', ''scan'']"
    using split_on_part [of slash "[]"] split_on_part [of slash "''projects''"]
      split_on_part [of slash "encodeURIComponent project", OF encoded_no_slash]
    by (simp add: scan_request_of_def slash_def)
  with decode_encode show ?thesis by blast
qed

lemma scan_prepared:
  assumes "scan_prepare X source s = Inr (Some (d, project))"
  shows "isClientFlagEnabled (sx_config X) RemoteSecurityScans \<and> sp_opts s = Some (Some True) \<and> sp_initialised s \<and>
    (case source of Inl d' \<Rightarrow> d = d' | Inr u \<Rightarrow> sx_document X u = Some d) \<and>
    (\<exists>folder p. folder \<in> set (sp_folders s) \<and> starts_with (sk_uri d) (wf_uri folder) \<and>
       fst (sx_checkProject X (sk_uri d) folder) = Some p \<and> gr_namespaceWithPath (dp_remote p) \<noteq> [] \<and>
       project = gr_namespaceWithPath (dp_remote p))"
  using assms
  by (auto simp: scan_prepare_def find_Some_iff in_set_conv_nth bind_eq_Some_conv
      split: option.splits sum.splits if_splits)

text \<open>C14: The text of a document leaves the editor only when the flag of the client and the option of the user are on and
  the server is initialised; it is the document the scan was asked for, and it is sent only for the project that the
  checker finds for it in a workspace folder whose URI begins the URI of the document.\<close>

theorem scan_sent_when_enabled:
  assumes "fst (runSecurityScan X source s) = Some r"
  shows "isClientFlagEnabled (sx_config X) RemoteSecurityScans \<and> sp_opts s = Some (Some True) \<and> sp_initialised s \<and>
    (\<exists>d folder p. (case source of Inl d' \<Rightarrow> d = d' | Inr u \<Rightarrow> sx_document X u = Some d) \<and>
       folder \<in> set (sp_folders s) \<and> starts_with (sk_uri d) (wf_uri folder) \<and>
       fst (sx_checkProject X (sk_uri d) folder) = Some p \<and> gr_namespaceWithPath (dp_remote p) \<noteq> [] \<and>
       r = scan_request_of X d (gr_namespaceWithPath (dp_remote p)))"
proof -
  obtain d project where prepared: "scan_prepare X source s = Inr (Some (d, project))" and r: "r = scan_request_of X d project"
    using assms by (auto simp: runSecurityScan_def Let_def split: sum.splits option.splits)
  from scan_prepared [OF prepared] r show ?thesis by blast
qed

definition is_response :: "scan_effect \<Rightarrow> bool" where
  "is_response e \<longleftrightarrow> (case e of Send_response r \<Rightarrow> True | _ \<Rightarrow> False)"

lemma is_response_simps [simp]: "is_response (Send_response r)" "\<not> is_response (Publish u ds)"
  by (simp_all add: is_response_def)

lemma handleError_notified:
  "sx_notifier X \<Longrightarrow> sx_notify X = None \<Longrightarrow> handleError X e f = ([Send_response (error_response X e f)], None)"
  by (simp add: handleError_def sendScanResponse_def)

text \<open>When the notifier works, a scan ends with one response, after the diagnostics if there are any: whatever fails
  on the way is told, and nothing is left unhandled.  Only a scan that is not to be done, or an answer without a
  list of vulnerabilities, ends without a word.\<close>

theorem scan_ends_with_one_response:
  assumes "sx_notifier X" and "sx_notify X = None"
  shows "case runSecurityScan X source s of (request, effects, unhandled) \<Rightarrow>
    unhandled = None \<and>
    map is_response effects =
      (case request of
         None \<Rightarrow> if scan_prepare X source s = Inr None then [] else [True]
       | Some r \<Rightarrow> (case sx_fetch X r of Inl e \<Rightarrow> [True] | Inr None \<Rightarrow> [] | Inr (Some vulns) \<Rightarrow> [False, True]))"
  using assms
  by (auto simp: runSecurityScan_def scan_finish_def handleError_notified sendScanResponse_def Let_def
      split: sum.split option.split)

text \<open>A project of an instance that is too old is not sent the text: the request is refused before it reaches the
  network, and the editor is told why.\<close>

theorem old_instance_reported:
  assumes "sx_notifier X" and "sx_notify X = None"
    and "sx_fetch X = scan_api E lookup api network" and "sx_errorText X (version_error ''SAST security scan'' ''17.5.0'') = Some m"
    and "or_empty (ka_token api) \<noteq> []"
    and "instanceVersionHigherOrEqualThen E lookup ''17.5.0'' (ka_baseURL api) (or_empty (ka_token api)) api = Inr False"
    and "scan_prepare X source s = Inr (Some (d, project))"
  shows "snd (runSecurityScan X source s) =
    ([Send_response \<lparr>sn_filePath = ua_path (sx_uri X) (parseURIString (sx_uri X) (sk_uri d)), sn_status = 500,
        sn_results = None, sn_error = Some m\<rparr>], None)"
proof -
  let ?r = "scan_request_of X d project"
  have "fetchFromApi E lookup ?r api = Inl (version_error ''SAST security scan'' ''17.5.0'')"
    using assms(5,6) by (simp add: fetchFromApi_def scan_request_of_def Let_def)
  then have "sx_fetch X ?r = Inl (version_error ''SAST security scan'' ''17.5.0'')"
    by (simp add: assms(3) scan_api_def)
  then show ?thesis
    using assms(1,2,4,7)
    by (simp add: runSecurityScan_def scan_finish_def handleError_notified error_response_def Let_def version_error_def
        UNKNOWN_ERROR_CODE_def)
qed

subsection \<open>What the guards let through\<close>

definition scan_project :: duo_project where
  "scan_project =
     \<lparr>dp_remote = \<lparr>gr_host = ''gitlab.com'', gr_namespace = ''g'', gr_projectPath = ''p'', gr_namespaceWithPath = ''g/p''\<rparr>,
      dp_uri = ''file:///w/app2/.git/config'', dp_enabled = True\<rparr>"

definition scan_cache :: "string project_cache" where
  "scan_cache = pc_new\<lparr>pc_duoProjects := [(''file:///w/app2'', [scan_project])]\<rparr>"

definition scan_folder :: "string \<Rightarrow> workspace_folder" where
  "scan_folder u = \<lparr>wf_uri = u, wf_name = ''f''\<rparr>"

definition sample_scan_env :: "string scan_env" where
  "sample_scan_env =
     \<lparr>sx_uri = \<lparr>ua_toString = id, ua_parse = id, ua_fsPath = id, ua_path = drop 7, ua_scheme = \<lambda>_. ''file'',
                ua_file = id, ua_dirname = id, ua_basename = id, ua_resolvePath = \<lambda>u _. u\<rparr>,
      sx_document = \<lambda>u. Some \<lparr>sk_uri = u, sk_text = ''x''\<rparr>, sx_checkProject = checkProjectStatus scan_cache,
      sx_config = default_config, sx_fetch = \<lambda>_. Inr None, sx_publish = None, sx_notifier = True, sx_notify = None,
      sx_errorText = \<lambda>e. (case e of Api_thrown (JsError m) \<Rightarrow> Some m | Api_version m \<Rightarrow> Some m | _ \<Rightarrow> None)\<rparr>"

definition scan_publisher :: "string list \<Rightarrow> security_publisher" where
  "scan_publisher folders = \<lparr>sp_initialised = True, sp_opts = Some (Some True), sp_folders = map scan_folder folders\<rparr>"

definition scan_flag :: client_config where
  "scan_flag = default_config\<lparr>cg_featureFlags := Some [(''remoteSecurityScans'', True)]\<rparr>"

theorem scan_sent_when_enabled_witness:
  "isClientFlagEnabled scan_flag RemoteSecurityScans \<and> sp_opts (scan_publisher [''file:///w/app2'']) = Some (Some True) \<and>
   fst (runSecurityScan (sample_scan_env\<lparr>sx_config := scan_flag\<rparr>) (Inr ''file:///w/app2/a.rb'') (scan_publisher [''file:///w/app2''])) =
     Some (scan_request_of (sample_scan_env\<lparr>sx_config := scan_flag\<rparr>) \<lparr>sk_uri = ''file:///w/app2/a.rb'', sk_text = ''x''\<rparr> ''g/p'')"
proof -
  let ?X = "sample_scan_env\<lparr>sx_config := scan_flag\<rparr>" and ?s = "scan_publisher [''file:///w/app2'']"
  have dir: "project_dir scan_project = ''file:///w/app2/''" by code_simp
  have flag: "isClientFlagEnabled scan_flag RemoteSecurityScans"
    by (simp add: isClientFlagEnabled_def override_of_def client_flag_name_def scan_flag_def default_config_def)
  have "checkProjectStatus scan_cache ''file:///w/app2/a.rb'' (scan_folder ''file:///w/app2'') = (Some scan_project, DuoEnabled)"
    using dir by (simp add: checkProjectStatus_def getProjectsForWorkspaceFolder_def scan_cache_def pc_new_def
        findDeepestProjectByPath_def or_else_def scan_folder_def) (simp add: scan_project_def)
  moreover have "gr_namespaceWithPath (dp_remote scan_project) = ''g/p''" by (simp add: scan_project_def)
  ultimately have request: "fst (runSecurityScan ?X (Inr ''file:///w/app2/a.rb'') ?s) =
      Some (scan_request_of ?X \<lparr>sk_uri = ''file:///w/app2/a.rb'', sk_text = ''x''\<rparr> ''g/p'')"
    using flag by (simp add: runSecurityScan_def scan_prepare_def sample_scan_env_def scan_publisher_def Let_def)
      (simp add: scan_folder_def)
  from scan_sent_when_enabled [OF this] request show ?thesis by simp
qed

text \<open>The flag is looked at last: a scan of a document outside the workspace is reported as failed although scans are
  off.\<close>

theorem disabled_scan_reports_errors:
  "snd (handleScanNotification sample_scan_env ''file:///x/a.rb''
      ((scan_publisher [''file:///w/app2''])\<lparr>sp_opts := None\<rparr>)) =
   ([Send_response \<lparr>sn_filePath = ''file:///x/a.rb'', sn_status = 500, sn_results = None,
       sn_error = Some ''Real-time SAST scan failed. No valid workspace detected.''\<rparr>], None) \<and>
   \<not> isClientFlagEnabled (sx_config sample_scan_env) RemoteSecurityScans"
  by (simp add: handleScanNotification_def runSecurityScan_def scan_prepare_def sample_scan_env_def scan_publisher_def
      scan_folder_def scan_thrown_def source_text_def handleError_def error_response_def sendScanResponse_def UNKNOWN_ERROR_CODE_def
      Let_def isClientFlagEnabled_def override_of_def client_flag_name_def default_config_def)

text \<open>The first folder whose URI begins the document's is taken, also when it is another directory: the scan finds no
  project, although the folder of the document has one.\<close>

theorem sibling_folder_claims_document:
  "scan_prepare sample_scan_env (Inr ''file:///w/app2/a.rb'') (scan_publisher [''file:///w/app'', ''file:///w/app2'']) =
     Inl (scan_thrown ''Real-time SAST scan failed. No valid project detected.'') \<and>
   checkProjectStatus scan_cache ''file:///w/app2/a.rb'' (scan_folder ''file:///w/app2'') = (Some scan_project, DuoEnabled)"
proof -
  have "project_dir scan_project = ''file:///w/app2/''" by code_simp
  then show ?thesis
    by (simp add: scan_prepare_def sample_scan_env_def scan_publisher_def scan_folder_def checkProjectStatus_def
        getProjectsForWorkspaceFolder_def scan_cache_def pc_new_def findDeepestProjectByPath_def or_else_def)
      (simp add: scan_project_def)
qed

end
