(* ===== verification/Snowplow_Service.thy ===== *)
theory Snowplow_Service
  imports Config_Service "HOL-Library.Multiset"
begin

text \<open>
  Telemetry on its way to the collector: the emitter (\<open>src/common/tracking/snowplow/emitter.ts\<close>), the service that owns it
  (\<open>snowplow_service.ts\<close>), the standard context (\<open>standard_context.ts\<close>), the trackers of the quick chat
  (\<open>quick_chat/quick_chat_snowplow_tracker.ts\<close>) and of security scans
  (\<open>security_scan/security_diagnostics_tracker.ts\<close>), and the handler of the editor's telemetry
  (\<open>core/handlers/telemetry_notification_handler.ts\<close>).

  Parameters: the validation of schemas, \<open>uuid\<close>, the clock, the network.  An emitter hands over its queue as batches.
\<close>

subsection \<open>The emitter\<close>

datatype emitter_state = STARTED | STOPPING | STOPPED

record 'e tracking_emitter =
  et_queue :: "'e list"
  et_maxItems :: nat
  et_state :: emitter_state
  et_timer :: bool
  et_draining :: nat

definition et_drain :: "'e tracking_emitter \<Rightarrow> 'e list list \<times> 'e tracking_emitter" where
  "et_drain t = (if et_queue t = [] then ([], t) else ([et_queue t], t\<lparr>et_queue := []\<rparr>))"

definition et_start :: "'e tracking_emitter \<Rightarrow> 'e tracking_emitter" where
  "et_start t = t\<lparr>et_timer := True, et_state := STARTED\<rparr>"

definition et_new :: "nat \<Rightarrow> 'e tracking_emitter" where
  "et_new maxItems = \<lparr>et_queue = [], et_maxItems = maxItems, et_state = STOPPED, et_timer = False, et_draining = 0\<rparr>"

definition et_add :: "'e \<Rightarrow> 'e tracking_emitter \<Rightarrow> 'e list list \<times> 'e tracking_emitter" where
  "et_add x t =
     (let t1 = t\<lparr>et_queue := et_queue t @ [x]\<rparr>
      in if et_maxItems t \<le> length (et_queue t1) then et_drain t1 else ([], t1))"

text \<open>The timer hands over the queue and waits until it is sent; then it starts again, unless the emitter stops.\<close>

definition et_timeout :: "'e tracking_emitter \<Rightarrow> 'e list list \<times> 'e tracking_emitter" where
  "et_timeout t = (if et_timer t then et_drain (t\<lparr>et_timer := False, et_draining := Suc (et_draining t)\<rparr>) else ([], t))"

definition et_drained :: "'e tracking_emitter \<Rightarrow> 'e tracking_emitter" where
  "et_drained t =
     (if et_draining t = 0 then t
      else let t1 = t\<lparr>et_draining := et_draining t - 1\<rparr> in if et_state t1 \<noteq> STOPPING then et_start t1 else t1)"

definition et_stop :: "'e tracking_emitter \<Rightarrow> 'e list list \<times> 'e tracking_emitter" where
  "et_stop t = et_drain (t\<lparr>et_state := STOPPING, et_timer := False\<rparr>)"

datatype 'e emitter_action = Emitter_add 'e | Emitter_timeout | Emitter_drained | Emitter_stop

fun et_do :: "'e emitter_action \<Rightarrow> 'e tracking_emitter \<Rightarrow> 'e list list \<times> 'e tracking_emitter" where
  "et_do (Emitter_add x) t = et_add x t"
| "et_do Emitter_timeout t = et_timeout t"
| "et_do Emitter_drained t = ([], et_drained t)"
| "et_do Emitter_stop t = et_stop t"

fun et_run :: "'e emitter_action list \<Rightarrow> 'e tracking_emitter \<Rightarrow> 'e list list \<times> 'e tracking_emitter" where
  "et_run [] t = ([], t)"
| "et_run (a # as) t = (let (b, t1) = et_do a t; (b', t2) = et_run as t1 in (b @ b', t2))"

subsection \<open>The service\<close>

type_synonym payload = "(string, string) jsmap"

record snowplow_options =
  so_appId :: string
  so_endpoint :: string
  so_maxItems :: nat

definition DEFAULT_TRACKING_ENDPOINT :: string where
  "DEFAULT_TRACKING_ENDPOINT = ''https://snowplowprd.trx.gitlab.net''"

definition DEFAULT_SNOWPLOW_OPTIONS :: snowplow_options where
  "DEFAULT_SNOWPLOW_OPTIONS = \<lparr>so_appId = ''gitlab_ide_extension'', so_endpoint = DEFAULT_TRACKING_ENDPOINT, so_maxItems = 10\<rparr>"

record post =
  po_url :: string
  po_events :: "payload list"
  po_body :: "payload list"

record snowplow_service =
  sw_disabled :: bool
  sw_options :: snowplow_options
  sw_emitters :: "payload tracking_emitter list"
  sw_waiting :: "snowplow_options list"
  sw_posts :: "post list"
  sw_ids :: nat

text \<open>Whether telemetry is enabled is asked of the configuration at every sending.\<close>

record snowplow_service_env =
  we_enabled :: bool
  we_uuid :: "nat \<Rightarrow> string"
  we_now :: string

definition prepare_event :: "string \<Rightarrow> string \<Rightarrow> string \<Rightarrow> payload \<Rightarrow> payload" where
  "prepare_event appId now uuid event =
     map_set ''stm'' now (map_set ''aid'' appId (map_set ''tna'' ''gl'' (map_set ''tv'' ''js-gitlab'' (map_set ''p'' ''app''
       (map_set ''eid'' uuid event)))))"

definition sw_sendEvent :: "snowplow_service_env \<Rightarrow> payload list \<Rightarrow> snowplow_service \<Rightarrow> snowplow_service" where
  "sw_sendEvent E events s =
     (if \<not> we_enabled E \<or> sw_disabled s then s
      else s\<lparr>sw_posts := sw_posts s @
               [\<lparr>po_url = so_endpoint (sw_options s) @ ''/com.snowplowanalytics.snowplow/tp2'', po_events = events,
                 po_body = map (\<lambda>(i, e). prepare_event (so_appId (sw_options s)) (we_now E) (we_uuid E i) e)
                             (enumerate (sw_ids s) events)\<rparr>],
             sw_ids := sw_ids s + length events\<rparr>)"

definition sw_configure :: "snowplow_options \<Rightarrow> snowplow_service \<Rightarrow> snowplow_service" where
  "sw_configure options s =
     s\<lparr>sw_options := options, sw_emitters := sw_emitters s @ [et_start (et_new (so_maxItems options))]\<rparr>"

definition sw_new :: "string option \<Rightarrow> snowplow_service" where
  "sw_new trackingUrl =
     sw_configure (DEFAULT_SNOWPLOW_OPTIONS\<lparr>so_endpoint := (case trackingUrl of None \<Rightarrow> DEFAULT_TRACKING_ENDPOINT | Some u \<Rightarrow> u)\<rparr>)
       \<lparr>sw_disabled = False, sw_options = DEFAULT_SNOWPLOW_OPTIONS, sw_emitters = [], sw_waiting = [], sw_posts = [], sw_ids = 0\<rparr>"

text \<open>A step of the emitter number \<open>j\<close>: its batches are sent.\<close>

definition sw_emitter ::
  "snowplow_service_env \<Rightarrow> nat \<Rightarrow> payload emitter_action \<Rightarrow> snowplow_service \<Rightarrow> snowplow_service" where
  "sw_emitter E j a s =
     (if j < length (sw_emitters s) then
        let (batches, t) = et_do a (sw_emitters s ! j)
        in fold (sw_sendEvent E) batches (s\<lparr>sw_emitters := (sw_emitters s)[j := t]\<rparr>)
      else s)"

definition sw_trackStructuredEvent :: "snowplow_service_env \<Rightarrow> payload \<Rightarrow> snowplow_service \<Rightarrow> snowplow_service" where
  "sw_trackStructuredEvent E event s = sw_emitter E (length (sw_emitters s) - 1) (Emitter_add event) s"

definition sw_stop :: "snowplow_service_env \<Rightarrow> snowplow_service \<Rightarrow> snowplow_service" where
  "sw_stop E s = sw_emitter E (length (sw_emitters s) - 1) Emitter_stop s"

text \<open>Another URL stops the emitter and, once that is done, configures the service again.\<close>

definition sw_reconfigure :: "snowplow_service_env \<Rightarrow> string \<Rightarrow> snowplow_service \<Rightarrow> snowplow_service" where
  "sw_reconfigure E endpoint s =
     (let newOptions = (sw_options s)\<lparr>so_endpoint := endpoint\<rparr> in
      if newOptions = sw_options s then s
      else let s1 = sw_stop E s in s1\<lparr>sw_waiting := sw_waiting s1 @ [newOptions]\<rparr>)"

definition sw_onConfigChange :: "snowplow_service_env \<Rightarrow> client_config \<Rightarrow> snowplow_service \<Rightarrow> snowplow_service" where
  "sw_onConfigChange E c s =
     (case cg_trackingUrl c of None \<Rightarrow> s | Some u \<Rightarrow> if u = [] then s else sw_reconfigure E u s)"

definition sw_stopped :: "nat \<Rightarrow> snowplow_service \<Rightarrow> snowplow_service" where
  "sw_stopped i s =
     (if i < length (sw_waiting s)
      then sw_configure (sw_waiting s ! i) (s\<lparr>sw_waiting := take i (sw_waiting s) @ drop (Suc i) (sw_waiting s)\<rparr>)
      else s)"

text \<open>A request that fails because the name of the host does not resolve disables the service.\<close>

definition sw_failed :: "string option \<Rightarrow> snowplow_service \<Rightarrow> snowplow_service" where
  "sw_failed errno s = (if errno = Some ''ENOTFOUND'' then s\<lparr>sw_disabled := True\<rparr> else s)"

datatype service_action =
    Track_payload payload
  | Emitter_step nat "payload emitter_action"
  | Config_of client_config
  | Emitter_stopped nat
  | Request_failed "string option"

text \<open>A step of an emitter that the event loop takes: its timer, or the end of a sending.\<close>

fun sw_do :: "snowplow_service_env \<times> service_action \<Rightarrow> snowplow_service \<Rightarrow> snowplow_service" where
  "sw_do (E, Track_payload p) s = sw_trackStructuredEvent E p s"
| "sw_do (E, Emitter_step j a) s = (case a of Emitter_add x \<Rightarrow> s | _ \<Rightarrow> sw_emitter E j a s)"
| "sw_do (E, Config_of c) s = sw_onConfigChange E c s"
| "sw_do (E, Emitter_stopped i) s = sw_stopped i s"
| "sw_do (E, Request_failed errno) s = sw_failed errno s"

fun tracked :: "(snowplow_service_env \<times> service_action) list \<Rightarrow> payload list" where
  "tracked [] = []"
| "tracked ((E, Track_payload p) # as) = p # tracked as"
| "tracked (_ # as) = tracked as"

subsection \<open>The standard context\<close>

record standard_context =
  sd_source :: string
  sd_environment :: string
  sd_host_name :: string

definition environmentFromHost :: "string \<Rightarrow> string" where
  "environmentFromHost url =
     (if url = ''https://gitlab.com'' then ''production''
      else if url = ''https://staging.gitlab.com'' then ''staging''
      else if url = ''https://dev.gitlab.org'' then ''org''
      else if str_includes url ''http://localhost'' then ''development''
      else ''self-managed'')"

definition setConfigDataToContext :: "client_config \<Rightarrow> standard_context" where
  "setConfigDataToContext c =
     (let host = (case cg_baseUrl c of None \<Rightarrow> SAAS_INSTANCE_URL | Some u \<Rightarrow> u)
      in \<lparr>sd_source = (case cg_extension c of None \<Rightarrow> ''Language Server'' | Some x \<Rightarrow> ext_name x),
          sd_environment = environmentFromHost host, sd_host_name = host\<rparr>)"

subsection \<open>The trackers\<close>

record structured_event =
  sv_category :: string
  sv_action :: string
  sv_label :: "string option"
  sv_standard :: standard_context
  sv_client :: "client_context_data option"

record tracker_env =
  te_validStandard :: "standard_context \<Rightarrow> bool"
  te_validClient :: "client_context_data option \<Rightarrow> bool"
  te_lsVersion :: "string option"

definition client_data :: "string option \<Rightarrow> client_config \<Rightarrow> client_context_data" where
  "client_data lsVersion c =
     \<lparr>cd_ide_name = map_option ti_name (cg_ide c), cd_ide_vendor = Option.bind (cg_ide c) ti_vendor,
      cd_ide_version = Option.bind (cg_ide c) ti_version, cd_extension_name = map_option ext_name (cg_extension c),
      cd_extension_version = Option.bind (cg_extension c) ext_version, cd_language_server_version = lsVersion\<rparr>"

record quick_chat_tracker =
  qc_enabled :: bool
  qc_baseUrl :: string
  qc_clientData :: "client_context_data option"

definition qc_new :: quick_chat_tracker where
  "qc_new = \<lparr>qc_enabled = True, qc_baseUrl = SAAS_INSTANCE_URL, qc_clientData = None\<rparr>"

definition qc_reconfigure :: "string option \<Rightarrow> client_config \<Rightarrow> quick_chat_tracker \<Rightarrow> quick_chat_tracker" where
  "qc_reconfigure lsVersion c t =
     t\<lparr>qc_enabled := (case cg_telemetryEnabled c of None \<Rightarrow> qc_enabled t | Some b \<Rightarrow> b),
       qc_baseUrl := (case cg_baseUrl c of None \<Rightarrow> qc_baseUrl t | Some u \<Rightarrow> if u = [] then qc_baseUrl t else u),
       qc_clientData := Some (client_data lsVersion c)\<rparr>"

datatype quick_chat_event = MESSAGE_SENT | CHAT_OPEN

datatype quick_chat_trigger = BTN_CLICK | SHORTCUT

record quick_chat_context =
  qx_trigger :: quick_chat_trigger
  qx_message :: string

definition getMessageSentEventLabel :: "string \<Rightarrow> string option" where
  "getMessageSentEventLabel message =
     (let first = hd (split_on (CHR '' '') message) in
      if first \<in> {''/explain'', ''/refactor'', ''/fix'', ''/tests''} then Some first
      else if first \<in> {''/reset'', ''/clear'', ''/clean''} then None
      else Some ''general_message'')"

definition quick_chat_action :: "quick_chat_event \<Rightarrow> string" where
  "quick_chat_action e = (case e of MESSAGE_SENT \<Rightarrow> ''message_sent'' | CHAT_OPEN \<Rightarrow> ''open_quick_chat'')"

definition getEventContext :: "quick_chat_event \<Rightarrow> quick_chat_context \<Rightarrow> string \<times> string option" where
  "getEventContext e c =
     (quick_chat_action e,
      case e of
        MESSAGE_SENT \<Rightarrow> getMessageSentEventLabel (qx_message c)
      | CHAT_OPEN \<Rightarrow> Some (case qx_trigger c of BTN_CLICK \<Rightarrow> ''click_button'' | SHORTCUT \<Rightarrow> ''shortcut''))"

text \<open>An event is tracked with both contexts, when both validate.\<close>

definition validated :: "tracker_env \<Rightarrow> structured_event \<Rightarrow> structured_event list" where
  "validated E e = (if te_validStandard E (sv_standard e) \<and> te_validClient E (sv_client e) then [e] else [])"

definition qc_trackEvent ::
  "tracker_env \<Rightarrow> standard_context \<Rightarrow> quick_chat_event \<times> quick_chat_context \<Rightarrow> quick_chat_tracker \<Rightarrow>
   structured_event list" where
  "qc_trackEvent E standard x t =
     (let (action, label) = getEventContext (fst x) (snd x)
      in if label = None \<or> label = Some [] then []
         else validated E \<lparr>sv_category = ''gitlab_quick_chat'', sv_action = action, sv_label = label, sv_standard = standard,
                            sv_client = qc_clientData t\<rparr>)"

record security_tracker =
  sy_enabled :: bool
  sy_clientData :: "client_context_data option"

definition sy_new :: security_tracker where
  "sy_new = \<lparr>sy_enabled = True, sy_clientData = None\<rparr>"

definition sy_reconfigure :: "string option \<Rightarrow> client_config \<Rightarrow> security_tracker \<Rightarrow> security_tracker" where
  "sy_reconfigure lsVersion c t =
     t\<lparr>sy_enabled := (case cg_telemetryEnabled c of None \<Rightarrow> sy_enabled t | Some b \<Rightarrow> b),
       sy_clientData := Some (client_data lsVersion c)\<rparr>"

datatype security_event = SCAN_INITIATED | SCAN_RESULTS_VIEW_OPENED

definition sy_trackEvent ::
  "tracker_env \<Rightarrow> standard_context \<Rightarrow> security_event \<times> string option \<Rightarrow> security_tracker \<Rightarrow> structured_event list" where
  "sy_trackEvent E standard x t =
     validated E \<lparr>sv_category = ''sast_security_diagnostics'',
                  sv_action = (case fst x of SCAN_INITIATED \<Rightarrow> ''scan_initiated'' | SCAN_RESULTS_VIEW_OPENED \<Rightarrow> ''scan_results_view_opened''),
                  sv_label = snd x, sv_standard = standard, sv_client = sy_clientData t\<rparr>"

subsection \<open>Telemetry of the editor\<close>

datatype telemetry_notification =
    Code_suggestion_telemetry tracking_event "string option" "nat option"
  | Quick_chat_telemetry quick_chat_event quick_chat_context
  | Security_telemetry security_event "string option"
  | Other_telemetry string

datatype telemetry_effect =
    Set_accepted_option string nat
  | Track_suggestion tracking_event string
  | Track_quick_chat quick_chat_event quick_chat_context
  | Track_security security_event "string option"

definition telemetry_notificationHandler ::
  "tracking_event list option \<Rightarrow> telemetry_notification \<Rightarrow> telemetry_effect list" where
  "telemetry_notificationHandler actions n =
     (case n of
        Code_suggestion_telemetry action trackingId optionId \<Rightarrow>
          (case trackingId of
             None \<Rightarrow> []
           | Some i \<Rightarrow>
               if i = [] \<or> \<not> canClientTrackEvent (case actions of None \<Rightarrow> [] | Some as \<Rightarrow> as) action then []
               else if action = ACCEPTED then
                 (case optionId of None \<Rightarrow> [] | Some k \<Rightarrow> if k = 0 then [] else [Set_accepted_option i k]) @ [Track_suggestion ACCEPTED i]
               else if action \<in> {REJECTED, CANCELLED, SHOWN, NOT_PROVIDED} then [Track_suggestion action i]
               else [])
      | Quick_chat_telemetry e c \<Rightarrow> [Track_quick_chat e c]
      | Security_telemetry e c \<Rightarrow> [Track_security e c]
      | Other_telemetry c \<Rightarrow> [])"

subsection \<open>The emitter keeps the order\<close>

fun added :: "'e emitter_action list \<Rightarrow> 'e list" where
  "added [] = []"
| "added (Emitter_add x # as) = x # added as"
| "added (_ # as) = added as"

definition et_ok :: "'e tracking_emitter \<Rightarrow> bool" where
  "et_ok t \<longleftrightarrow> length (et_queue t) < max 1 (et_maxItems t) \<and>
     (case et_state t of STARTED \<Rightarrow> et_draining t = (if et_timer t then 0 else 1) | STOPPING \<Rightarrow> \<not> et_timer t | STOPPED \<Rightarrow> False)"

lemma drain_batches: "concat (fst (et_drain t)) = et_queue t" "et_queue (snd (et_drain t)) = []"
  by (simp_all add: et_drain_def)

lemma et_do_batches: "concat (fst (et_do a t)) @ et_queue (snd (et_do a t)) = et_queue t @ added [a]"
  by (cases a) (simp_all add: et_add_def Let_def et_timeout_def et_drained_def et_start_def et_stop_def drain_batches)

lemma et_do_ok: "et_ok t \<Longrightarrow> et_ok (snd (et_do a t))"
  by (cases a; cases "et_state t")
    (auto simp: et_ok_def et_add_def Let_def et_timeout_def et_drained_def et_start_def et_stop_def et_drain_def)

lemma et_do_maxItems: "et_maxItems (snd (et_do a t)) = et_maxItems t"
  by (cases a) (simp_all add: et_add_def Let_def et_timeout_def et_drained_def et_start_def et_stop_def et_drain_def)

lemma et_run_batches:
  "concat (fst (et_run as t)) @ et_queue (snd (et_run as t)) = et_queue t @ added as"
proof (induction as arbitrary: t)
  case (Cons a as)
  let ?t = "snd (et_do a t)"
  have "concat (fst (et_run (a # as) t)) @ et_queue (snd (et_run (a # as) t)) = concat (fst (et_do a t)) @ et_queue ?t @ added as"
    using Cons [of ?t] by (simp add: split_beta Let_def)
  also have "\<dots> = (et_queue t @ added [a]) @ added as" using et_do_batches [of a t] by (simp flip: append_assoc)
  also have "\<dots> = et_queue t @ added (a # as)" by (cases a) simp_all
  finally show ?case .
qed simp

lemma et_run_ok: "et_ok t \<Longrightarrow> et_ok (snd (et_run as t)) \<and> et_maxItems (snd (et_run as t)) = et_maxItems t"
  by (induction as arbitrary: t) (simp_all add: split_beta Let_def et_do_ok et_do_maxItems)

lemma et_new_ok: "et_ok (et_start (et_new n))"
  by (simp add: et_ok_def et_start_def et_new_def)

text \<open>C19: An emitter is a queue: what it has handed over and what it holds are the events that were added, in their
  order, each once; and it never holds as many as make a full batch.\<close>

theorem emitter_keeps_order:
  "let (batches, t) = et_run as (et_start (et_new n))
   in concat batches @ et_queue t = added as \<and> length (et_queue t) < max 1 n"
proof -
  let ?r = "et_run as (et_start (et_new n))"
  have "et_ok (snd ?r)" and "et_maxItems (snd ?r) = n"
    using et_run_ok [OF et_new_ok, of as n] by (simp_all add: et_start_def et_new_def)
  then have "length (et_queue (snd ?r)) < max 1 n" by (simp add: et_ok_def)
  moreover have "concat (fst ?r) @ et_queue (snd ?r) = added as"
    using et_run_batches [of as "et_start (et_new n)"] by (simp add: et_start_def et_new_def)
  ultimately show ?thesis by (simp add: split_beta)
qed

lemma running:
  "Emitter_stop \<notin> set as \<Longrightarrow> et_state t = STARTED \<Longrightarrow> et_state (snd (et_run as t)) = STARTED"
proof (induction as arbitrary: t)
  case (Cons a as)
  then have "et_state (snd (et_do a t)) = STARTED"
    by (cases a) (auto simp: et_add_def Let_def et_timeout_def et_drained_def et_start_def et_drain_def)
  with Cons show ?case by (simp add: split_beta Let_def)
qed simp

text \<open>Until it is stopped an emitter stays alive: either its timer runs, which will hand over everything it holds, or
  a batch of the timer is being sent, after which the timer runs again.  A stopped emitter has handed over everything
  and runs no timer.\<close>

theorem emitter_alive:
  assumes "Emitter_stop \<notin> set as"
  shows "let t = snd (et_run as (et_start (et_new n)))
         in (if et_timer t then et_queue (snd (et_timeout t)) = [] else et_timer (et_drained t)) \<and>
            et_queue (snd (et_stop t)) = [] \<and> \<not> et_timer (snd (et_stop t))"
proof -
  let ?t = "snd (et_run as (et_start (et_new n)))"
  have "et_state ?t = STARTED" using running [OF assms] by (simp add: et_start_def)
  moreover have "et_ok ?t" using et_run_ok [OF et_new_ok] by blast
  ultimately show ?thesis
    by (auto simp: Let_def et_ok_def et_timeout_def et_drained_def et_start_def et_stop_def drain_batches et_drain_def)
qed

theorem emitter_alive_witness:
  "let t = snd (et_run [Emitter_add (1::nat), Emitter_timeout, Emitter_add 2] (et_start (et_new 10)))
   in (if et_timer t then et_queue (snd (et_timeout t)) = [] else et_timer (et_drained t)) \<and>
      et_queue (snd (et_stop t)) = [] \<and> \<not> et_timer (snd (et_stop t))"
  by (rule emitter_alive) simp

subsection \<open>The service sends every event at most once\<close>

definition posted :: "snowplow_service \<Rightarrow> payload multiset" where
  "posted s = mset (concat (map po_events (sw_posts s)))"

definition queued :: "snowplow_service \<Rightarrow> payload multiset" where
  "queued s = sum_list (map (\<lambda>t. mset (et_queue t)) (sw_emitters s))"

lemma send_emitters: "sw_emitters (fold (sw_sendEvent E) batches s) = sw_emitters s"
  by (induction batches arbitrary: s) (simp_all add: sw_sendEvent_def)

lemma send_posts: "posted (fold (sw_sendEvent E) batches s) \<subseteq># posted s + mset (concat batches)"
proof (induction batches arbitrary: s)
  case (Cons b bs)
  have "posted (sw_sendEvent E b s) \<subseteq># posted s + mset b" by (simp add: sw_sendEvent_def posted_def)
  then have "posted (sw_sendEvent E b s) + mset (concat bs) \<subseteq># posted s + mset b + mset (concat bs)"
    by (rule subset_mset.add_right_mono)
  from subset_mset.order_trans [OF Cons this] show ?case by (simp add: add.assoc)
qed simp

lemma queued_update:
  assumes "j < length (sw_emitters s)"
  shows "queued (s\<lparr>sw_emitters := (sw_emitters s)[j := t]\<rparr>) + mset (et_queue (sw_emitters s ! j)) = queued s + mset (et_queue t)"
proof -
  let ?f = "\<lambda>t. mset (et_queue t)" and ?l = "take j (sw_emitters s)" and ?r = "drop (Suc j) (sw_emitters s)"
  have "sum_list (map ?f (sw_emitters s)) = sum_list (map ?f ?l) + ?f (sw_emitters s ! j) + sum_list (map ?f ?r)"
    by (subst id_take_nth_drop [OF assms]) (simp add: ac_simps)
  moreover have "sum_list (map ?f ((sw_emitters s)[j := t])) = sum_list (map ?f ?l) + ?f t + sum_list (map ?f ?r)"
    by (subst upd_conv_take_nth_drop [OF assms]) (simp add: ac_simps)
  ultimately show ?thesis by (simp add: queued_def ac_simps)
qed

definition in_flight :: "snowplow_service \<Rightarrow> payload multiset" where
  "in_flight s = posted s + queued s"

lemma balance:
  fixes n :: "'a multiset"
  assumes "c + q' = q + x" and "n + q = m + q'" and "p' \<subseteq># p + c"
  shows "p' + n \<subseteq># p + m + x"
proof -
  have "(n + c) + q = (n + q) + c" by (simp only: ac_simps)
  also have "\<dots> = m + (c + q')" by (simp only: assms(2) ac_simps)
  also have "\<dots> = (m + x) + q" by (simp only: assms(1) ac_simps)
  finally have "n + c = m + x" by simp
  then have "p + m + x = (p + c) + n" by (simp add: ac_simps)
  then show ?thesis using subset_mset.add_right_mono [OF assms(3), of n] by (simp only:)
qed

lemma emitter_flight: "in_flight (sw_emitter E j a s) \<subseteq># in_flight s + mset (added [a])"
proof (cases "j < length (sw_emitters s)")
  case True
  let ?old = "sw_emitters s ! j"
  let ?b = "fst (et_do a ?old)" and ?t = "snd (et_do a ?old)"
  let ?s = "s\<lparr>sw_emitters := (sw_emitters s)[j := ?t]\<rparr>"
  have step: "sw_emitter E j a s = fold (sw_sendEvent E) ?b ?s" using True by (simp add: sw_emitter_def split_beta)
  have "mset (concat ?b @ et_queue ?t) = mset (et_queue ?old @ added [a])" by (simp only: et_do_batches)
  then have "mset (concat ?b) + mset (et_queue ?t) = mset (et_queue ?old) + mset (added [a])" by (simp only: mset_append)
  moreover have "queued ?s + mset (et_queue ?old) = queued s + mset (et_queue ?t)" by (rule queued_update [OF True])
  moreover have "posted (sw_emitter E j a s) \<subseteq># posted s + mset (concat ?b)"
    using send_posts [of E ?b ?s] by (simp add: step posted_def)
  ultimately have "posted (sw_emitter E j a s) + queued ?s \<subseteq># posted s + queued s + mset (added [a])" by (rule balance)
  moreover have "queued (sw_emitter E j a s) = queued ?s" unfolding step by (simp add: queued_def send_emitters)
  ultimately show ?thesis by (simp add: in_flight_def)
qed (simp add: sw_emitter_def)

lemma flight_configure [simp]: "in_flight (sw_configure o' s) = in_flight s"
  by (simp add: in_flight_def posted_def queued_def sw_configure_def et_start_def et_new_def)

lemma flight_frame [simp]: "in_flight (s\<lparr>sw_waiting := w\<rparr>) = in_flight s" "in_flight (s\<lparr>sw_disabled := b\<rparr>) = in_flight s"
  by (simp_all add: in_flight_def posted_def queued_def)

lemma service_flight: "in_flight (sw_do x s) \<subseteq># in_flight s + mset (tracked [x])"
proof -
  obtain E a where x: "x = (E, a)" by (cases x)
  show ?thesis
  proof (cases a)
    case (Track_payload p)
    then show ?thesis using x emitter_flight [of E _ "Emitter_add p" s] by (simp add: sw_trackStructuredEvent_def)
  next
    case (Emitter_step j b)
    then show ?thesis using x emitter_flight [of E j b s] by (cases b) simp_all
  next
    case (Config_of c)
    have "in_flight (sw_stop E s) \<subseteq># in_flight s" using emitter_flight [of E _ Emitter_stop s] by (simp add: sw_stop_def)
    with Config_of x show ?thesis
      by (simp add: sw_onConfigChange_def sw_reconfigure_def Let_def split: option.split)
  qed (simp_all add: x sw_stopped_def sw_failed_def)
qed

text \<open>C7: However the service is reconfigured, stopped and disabled while events are tracked, no event is sent that was
  not tracked, and none is sent more often than it was tracked.\<close>

theorem events_sent_at_most_once:
  "let s = fold sw_do as (sw_new url) in posted s + queued s \<subseteq># mset (tracked as)"
proof -
  have "in_flight (fold sw_do as s) \<subseteq># in_flight s + mset (tracked as)" for s
  proof (induction as arbitrary: s)
    case (Cons x as)
    have split: "mset (tracked (x # as)) = mset (tracked [x]) + mset (tracked as)"
      by (cases x; cases "snd x") simp_all
    from subset_mset.order_trans [OF Cons subset_mset.add_right_mono [OF service_flight]]
    have "in_flight (fold sw_do as (sw_do x s)) \<subseteq># in_flight s + mset (tracked [x]) + mset (tracked as)" .
    with split show ?case by (simp add: add.assoc)
  qed simp
  from this [of "sw_new url"] show ?thesis
    by (simp add: Let_def in_flight_def sw_new_def posted_def queued_def sw_configure_def et_start_def et_new_def)
qed

subsection \<open>Lost and late events\<close>

text \<open>A service disabled by an address that did not resolve stays so when another address is configured.\<close>

theorem disabled_for_good:
  "sw_disabled s \<Longrightarrow> sw_disabled (fold sw_do as s) \<and> sw_posts (fold sw_do as s) = sw_posts s"
proof (induction as arbitrary: s)
  case (Cons x as)
  have send: "sw_disabled s \<Longrightarrow> fold (sw_sendEvent E) bs s = s" for E bs and s :: snowplow_service
    by (induction bs) (simp_all add: sw_sendEvent_def)
  have emit: "sw_disabled (sw_emitter E j a s) \<and> sw_posts (sw_emitter E j a s) = sw_posts s" for E j a
    using Cons.prems by (simp add: sw_emitter_def split_beta send)
  obtain E a where x: "x = (E, a)" by (cases x)
  have "sw_disabled (sw_do x s) \<and> sw_posts (sw_do x s) = sw_posts s"
    using Cons.prems emit
    by (cases a) (simp_all add: x sw_trackStructuredEvent_def sw_onConfigChange_def sw_reconfigure_def sw_stop_def Let_def
        sw_stopped_def sw_configure_def sw_failed_def split: option.split emitter_action.split)
  with Cons.IH show ?case by simp
qed simp

definition enabled_env :: snowplow_service_env where
  "enabled_env = \<lparr>we_enabled = True, we_uuid = (\<lambda>i. []), we_now = []\<rparr>"

definition other_url :: client_config where
  "other_url = default_config\<lparr>cg_trackingUrl := Some ''https://other''\<rparr>"

text \<open>An event that is tracked while the emitter stops for a new URL stays in the old emitter, which has no timer.\<close>

theorem event_stranded:
  "let s = fold sw_do [(enabled_env, Config_of other_url), (enabled_env, Track_payload [(''e'', ''1'')]),
                       (enabled_env, Emitter_stopped 0)] (sw_new None)
   in et_queue (hd (sw_emitters s)) = [[(''e'', ''1'')]] \<and> \<not> et_timer (hd (sw_emitters s)) \<and> length (sw_emitters s) = 2 \<and> sw_posts s = []"
  by code_simp

text \<open>An event tracked while telemetry was disabled is sent when it is enabled before the queue is.\<close>

theorem disabled_event_sent_later:
  "map po_events (sw_posts (fold sw_do [(enabled_env\<lparr>we_enabled := False\<rparr>, Track_payload [(''e'', ''1'')]),
     (enabled_env, Emitter_step 0 Emitter_timeout)] (sw_new None))) = [[[(''e'', ''1'')]]]"
  by code_simp

subsection \<open>The interface of the trackers\<close>

locale validating_tracker =
  fixes track :: "tracker_env \<Rightarrow> standard_context \<Rightarrow> 'x \<Rightarrow> 't \<Rightarrow> structured_event list"
    and client :: "'t \<Rightarrow> client_context_data option"
  assumes one_event: "length (track E d x t) \<le> 1"
    and contexts: "e \<in> set (track E d x t) \<Longrightarrow>
      sv_standard e = d \<and> sv_client e = client t \<and> te_validStandard E d \<and> te_validClient E (client t)"
begin

lemma tracked_valid:
  "list_all (\<lambda>e. te_validStandard E (sv_standard e) \<and> te_validClient E (sv_client e)) (concat (map (\<lambda>x. track E d x t) xs))"
  using contexts by (fastforce simp: list_all_iff)

lemma tracked_bounded: "length (concat (map (\<lambda>x. track E d x t) xs)) \<le> length xs"
proof (induction xs)
  case (Cons x xs)
  with one_event [of E d x t] show ?case by simp
qed simp

end

interpretation qc: validating_tracker qc_trackEvent qc_clientData
  by unfold_locales (auto simp: qc_trackEvent_def getEventContext_def validated_def Let_def split: if_splits)

interpretation sy: validating_tracker sy_trackEvent sy_clientData
  by unfold_locales (auto simp: sy_trackEvent_def validated_def split: if_splits)

text \<open>The trackers of the quick chat and of security scans track at most one event for each they are given, and only
  events whose two contexts fit their schemas.\<close>

theorem tracked_contexts_valid:
  "let es = concat (map (\<lambda>x. qc_trackEvent E d x q) xs) @ concat (map (\<lambda>x. sy_trackEvent E d x y) zs)
   in length es \<le> length xs + length zs \<and>
      list_all (\<lambda>e. te_validStandard E (sv_standard e) \<and> te_validClient E (sv_client e)) es"
  using qc.tracked_valid [of E d q xs] sy.tracked_valid [of E d y zs] qc.tracked_bounded [of E d q xs] sy.tracked_bounded [of E d y zs]
  by (simp add: Let_def)

end
