(* ===== verification/Spec2Isabelle.thy ===== *)
theory Spec2Isabelle
  imports Multi_Tracker Suggestion_Service Feature_State Pre_Processors Post_Processors
    Repository_Service Virtual_File_System Context_Providers Issue_Context Async_Debounce
    Dependency_Injection Webview_Transport Duo_Chat Security_Scan Snowplow_Service
begin

text \<open>
  A verification development for the KhulnaSoft language server (\<open>src/common\<close>, TypeScript).

  \<^bold>\<open>The program.\<close>  The server answers completion requests of an editor.  \<open>DefaultSuggestionService\<close> reads the
  open document, asks the suggestions cache, and otherwise either schedules a \<^emph>\<open>stream\<close> (code generation,
  when the syntax tree says that the user wants code) or asks a pipeline of suggestion clients (code
  completion).  A circuit breaker stands before the network; every suggestion is followed by a telemetry
  state machine, once for the KhulnaSoft instance and once for Snowplow.  Independently, a set of state
  checks tells the editor which features are available and why not.

  \<^bold>\<open>The theories.\<close>

  \<^item> \<open>Prelude\<close>: what the sources use of the language: strings as character lists with UTF-16 code units as
    characters, \<open>split\<close>, \<open>trim\<close>, \<open>slice\<close>, \<open>indexOf\<close>, and \<open>Map\<close> as an association list in insertion order.
  \<^item> \<open>Node_Runtime\<close>: \<open>EventEmitter\<close> (listeners per event, in order) and timers (\<open>setTimeout\<close>,
    \<open>clearTimeout\<close>, a clock that cannot pass a due timer).
  \<^item> \<open>Byte_Size\<close> (\<open>utils/size.ts\<close>): texts as 16-bit code units (\<open>text16\<close>), their UTF-8 encoding and decoding with the
    replacement character, and the truncations to a number of bytes.
  \<^item> \<open>Domain\<close>: positions, ranges, document context, suggestion options, error values.
  \<^item> \<open>Circuit_Breaker\<close> (\<open>circuit_breaker/\<close>): \<open>fb_\<close> is \<open>FixedTimeCircuitBreaker\<close>, \<open>eb_\<close> is
    \<open>ExponentialBackoffCircuitBreaker\<close>; their common interface is the locale \<open>circuit_breaker\<close>.
  \<^item> \<open>Document_Context\<close> (\<open>document_transformer_service.ts\<close>, \<open>secret_redaction/\<close>, \<open>utils/path.ts\<close>,
    \<open>tree_sitter/languages.ts\<close>): from a document to the context a request carries.
  \<^item> \<open>Telemetry_State\<close>, \<open>Telemetry_Tracker\<close>, \<open>Instance_Tracker\<close> (\<open>it_\<close>), \<open>Snowplow_Tracker\<close> (\<open>st_\<close>),
    \<open>Multi_Tracker\<close> (\<open>mt_\<close>) (\<open>tracking/code_suggestions/\<close>): the event graphs and the trackers.
  \<^item> \<open>Supported_Languages\<close> (\<open>suggestion/supported_languages_service.ts\<close>).
  \<^item> \<open>Suggestions_Cache\<close> (\<open>sc_\<close>, \<open>suggestion/suggestions_cache.ts\<close>), \<open>Suggestion_Filter\<close>
    (\<open>suggestion_filter.ts\<close>, \<open>utils/suggestion_mappers.ts\<close>), \<open>Suggestion_Client\<close>
    (\<open>suggestion_client/\<close>: \<open>dcc_\<close> direct connection, \<open>dsc_\<close> instance, \<open>fbc_\<close> fallback, the pipeline),
    \<open>Streaming_Handler\<close> (\<open>sh_\<close> a stream, \<open>hd_\<close> the handler), \<open>Intent\<close> (\<open>tree_sitter/\<close>) and
    \<open>Suggestion_Service\<close> (\<open>v_\<close>, \<open>suggestion_service.ts\<close>), which composes them.
  \<^item> \<open>Open_Tabs\<close> (\<open>open_tabs/\<close>) and \<open>Advanced_Context\<close> (\<open>advanced_context/\<close>): the recently used files and what of
    them is sent along; \<open>Pre_Processors\<close> and \<open>Post_Processors\<close> (\<open>suggestion_client/\<close>): the pipelines before and
    after a request.
  \<^item> \<open>Duo_Access\<close> (\<open>services/duo_access/\<close>) and \<open>Feature_State\<close> (\<open>feature_state/\<close>): one record per check
    (\<open>auc_\<close> authentication, \<open>cec_\<close> and \<open>sec_\<close> enabled by the user, \<open>slc_\<close> and \<open>clc_\<close> licenses, \<open>vc_\<close>
    version, \<open>pda_\<close> project, \<open>lac_\<close> language, \<open>aec_\<close> suggestions API) and the manager \<open>fm_\<close>.  Every check
    interprets the locale \<open>state_check\<close>, whose law is that a check fires when what it reports changes.
  \<^item> \<open>Uri_Path\<close> and \<open>Dir_Matcher\<close> (\<open>services/fs/\<close>): paths, percent-decoding and the trie of directories;
    \<open>Js_Regex\<close>: the backtracking regular expressions of the language; \<open>Git_Remote\<close>, \<open>Git_Ignore\<close>, \<open>Repository\<close>,
    \<open>Repository_Service\<close> (\<open>services/git/\<close>): remotes, ignore rules, the state of a repository, and the service that
    finds, rebuilds and updates the repositories of a workspace; \<open>Virtual_File_System\<close> (\<open>services/fs/\<close>).
  \<^item> \<open>AI_Context\<close>, \<open>AI_Context_Manager\<close> (\<open>mg_\<close> the manager, \<open>ap_\<close> the abstract provider, transformers, policies),
    \<open>Context_Providers\<close> (open tabs, files, git, dependencies), \<open>Issue_Context\<close> (issues and merge requests) and
    \<open>Dependency_Scanner\<close> (\<open>ai_context_management/\<close>): what the user attaches to a chat; every provider interprets the
    locale \<open>context_provider\<close>.  \<open>Feature_Access\<close> (\<open>feature_access_service.ts\<close>), \<open>Async_Debounce\<close>
    (\<open>utils/async_debounce.ts\<close>).
  \<^item> \<open>Dependency_Injection\<close> (\<open>packages/lib_di\<close>): validation, order and construction of the classes of the server.
  \<^item> \<open>Message_Bus\<close> (\<open>packages/lib_handler_registry\<close>, \<open>lib_disposable\<close>, the bus of \<open>lib_webview\<close>) and
    \<open>Webview_Runtime\<close> (\<open>packages/lib_webview/src/services\<close>): mediators (\<open>md_\<close>), controllers (\<open>wc_\<close>) and the message
    bus of an instance (\<open>ib_\<close>) on one shared bus.  \<open>Webview_Plugins\<close>: the services that register transports (\<open>ts_\<close>)
    and plugins (\<open>pm_\<close>).  \<open>Webview_Transport\<close>: the transports over sockets (\<open>so_\<close>, \<open>lib_webview_transport_socket_io\<close>) and
    JSON-RPC (\<open>jr_\<close>), the bus inside a web view (\<open>cb_\<close>, \<open>lib_webview_client\<close>) and the messages of the editor
    (\<open>em_\<close>, \<open>src/common/webview/extension\<close>).
  \<^item> \<open>Duo_Chat_Api\<close> and \<open>Duo_Chat\<close> (\<open>packages/webview_duo_chat_v2/src/plugin\<close>): records, GraphQL documents by version,
    pulling and streaming of answers, and the controller of the chat; an operation of the controller is a task of the
    state at each of its \<open>await\<close>s.

  \<^item> \<open>Config_Service\<close> (\<open>cf_\<close> \<open>config_service.ts\<close>, \<open>core/handlers/\<close>, \<open>configuration_validation/\<close>, \<open>feature_flags.ts\<close>, \<open>ds_\<close>
    \<open>document_service.ts\<close>): the configuration, what changes it and what reads it first.  \<open>Http_Fetch\<close> (\<open>lf_\<close>
    \<open>src/node/fetch.ts\<close>, \<open>fetch_error.ts\<close>, \<open>simple_api_client.ts\<close>): agents, errors and streams of HTTP;
    \<open>Khulnasoft_Api\<close> (\<open>ka_\<close>, \<open>api.ts\<close>): the client of the instance, whose two requests while it configures itself
    are tasks of the state; \<open>Security_Scan\<close> (\<open>security_scan/\<close>): the scans it sends, with \<open>encodeURIComponent\<close>.
    \<open>Snowplow_Service\<close> (\<open>tracking/snowplow\<close>): the emitter (\<open>et_\<close>), the service over one
    emitter after the other (\<open>sw_\<close>), and the trackers of the quick chat (\<open>qc_\<close>) and of the security scan (\<open>sy_\<close>), which
    interpret the locale \<open>validating_tracker\<close>.

  \<^bold>\<open>State and operations.\<close>  A class is a record of its fields, an operation a function from the state before
  to the state after.  Effects on other components are collected in order in a log field
  (\<open>sh_out\<close>, \<open>v_out\<close>, \<open>fb_calls\<close>, \<open>it_sent\<close>), and errors are values (\<open>client_error + 'a\<close>).  An \<open>await\<close> splits an
  operation into steps (\<open>it_fetch_ok\<close>, \<open>it_fetch_failed\<close>; the actions of a stream); a step relation lets
  them interleave with every other operation (\<open>fb_step\<close>, \<open>it_step\<close>, \<open>st_step\<close>, \<open>stream_step\<close>, \<open>fm_reach\<close>,
  \<open>rs_step\<close>; repositories are objects of a heap that rebuilds and events share), and
  the invariants are proved by rule induction over it.

  \<^bold>\<open>What the lemmas show.\<close>  Circuit breakers: an open breaker always has a pending timer that closes it, with the
  bound of its delay, although the fixed breaker forgets timers; exact thresholds.  Telemetry: every event is reported
  at most once and in the order of the graph; what the service and a stream report is accepted by the
  graph; contexts are always collected.  Cache: a round trip between what is added and what is served
  after typing ahead.  Streams: completions only grow, a stream can always finish, a cancelled one is silent, and
  the map of cancellations points to running streams.  Clients: the fallback never fails
  because of the direct connection.  Intent: the comment that starts a generation is the one next to the
  cursor.  Feature state: what the editor is told agrees with the checks that have fired.

  Files: the trie finds exactly the directories on a file's path; the deepest repository owns a file in every
  reachable state; the deepest ignore file decides; remotes name their project; the handler of a file event and the
  rebuilds it waits for come to an end (\<open>rs_own\<close>: a lexicographic measure of what is left to do).
  Chat context: no duplicates, the items retrieved only redacted, disabled projects unread, size limits of attached issues.
  Injection: the check for circles is exact when every interface is known and has one class, and a container that succeeds has wired every class.  Web views: a
  message reaches the live instances of its address once each, and requests end by their timer; a message goes to the
  socket of its instance.  Chat: every answer has its prompt, cancelled and failed prompts stay silent, pulling is bounded.
  Client: configuring ends, an accepted token configures and a refused one is removed, requests carry the token; agents
  follow the options; a text is scanned only when that is enabled.  Snowplow: an emitter is a queue, and no event is sent more often than it was tracked.

  \<^bold>\<open>Bounds.\<close>  Recursion is structural or has a proved measure; only \<open>topologicalSort\<close> has fuel, which is the stack of the
  machine (\<open>instantiate\<close> fails without enough, and more than the number of classes is enough).  The loops \<open>json_loop\<close>
  and \<open>set_directories\<close> may run forever in principle and are partial functions, with theorems that
  they return (\<open>json_loop\<close> because the schema key occurs in the text at least as often as there are schema nodes, and
  never more often after a replacement).  A stream is driven by an
  explicit list of inputs (\<open>sh_run\<close>); after the end of the server's stream two actions per queued
  notification and three more finish it.  Numbers are \<open>nat\<close> or \<open>int\<close>: the code's counters stay far below
  the 53 bits a JavaScript number holds exactly.

  \<^bold>\<open>Parameters.\<close>  Code outside the repository is an argument: the \<open>TextDocument\<close> of the LSP packages, the
  storage of \<open>lru-cache\<close> (\<open>lru_ok\<close>: it may drop entries but never invents or changes one), \<open>web-tree-sitter\<close>
  (captured nodes; \<open>parser_ok\<close>: a node covers its range of the source and its children lie in it in order), \<open>JSON.parse\<close>, the event stream parser, \<open>semver\<close>, schema validation, \<open>uuid\<close>, the
  emitter of Snowplow, the URI type of \<open>vscode-uri\<close> (\<open>uri_ok\<close>: parsing a printed URI gives it back) and the class
  \<open>URL\<close>, the \<open>ignore\<close> package, \<open>isomorphic-git\<close>, the file system and the directory walker, the network, the parsers of JSON, XML and YAML, \<open>minimatch\<close> and
  \<open>fuzzaldrin-plus\<close>, lodash's \<open>debounce\<close> and \<open>mergeWith\<close>, \<open>ajv\<close> and its schemas, the settings of a proxy, \<open>socket.io\<close>, the cable of GraphQL subscriptions, what plugins do.  The regular expressions of the redaction rules are match functions.

  \<^bold>\<open>Not modelled.\<close>  Wiring (\<open>node/main.ts\<close>, \<open>connection_service.ts\<close>), logging and the runner of workflows (Docker),
  which are I/O; the Vue components of the web views and the first version of the chat; the table of redaction rules and
  the tree-sitter queries (data).
\<close>

section \<open>Properties of several components together\<close>

text \<open>C2: With the server's own post-processors, the events the suggestion service reports for one request are
  always accepted: the state graph of non-streaming suggestions takes every event reported under the
  request's tracking id, in order, so that no tracker drops one.  Of the parser it is only assumed that its nodes
  are what \<open>web-tree-sitter\<close> documents (ranges of the source, one child after the other): that the post-processing
  returns is proved from it.\<close>

theorem service_events_accepted:
  assumes "parser_ok P ctx" and "\<And>os r. post_completion P ctx os = Some r \<Longrightarrow> ve_post env ctx os = Inr r"
  shows "\<exists>outs. v_out (snd (handleNonStreaming env request ctx contexts s)) = v_out s @ outs \<and>
    fst (track_run i False (events_of (ve_uuid env (v_ids s)) outs) [(i, REQUESTED)]) =
      events_of (ve_uuid env (v_ids s)) outs"
proof (rule request_events_accepted)
  fix os
  obtain r where "post_completion P ctx os = Some r"
    using post_completion_returns [OF assms(1)] by blast
  with assms(2) show "\<exists>r. ve_post env ctx os = Inr r" by blast
qed

text \<open>A stream the service schedules carries additional contexts that, together with the document it was
  requested for, stay within the limit of a request up to two bytes, or none at all.\<close>

theorem stream_contexts_within_limit:
  assumes "ve_additionalContexts env = getAdditionalContexts enabled tabs projects languages"
    and "p \<in> set (drop (length (v_scheduled s)) (v_scheduled (snd (v_getSuggestionOptions env request s))))"
  shows "\<exists>cs. sp_additionalContexts p = Some cs \<and>
    (cs = [] \<or>
     byte_size (dc_prefix (sp_documentContext p) @ dc_suffix (sp_documentContext p)) +
       (\<Sum>c\<leftarrow>cs. getByteSize (ac_content c)) \<le> 50000 + 2)"
proof -
  have "sp_additionalContexts p = Some (getAdditionalContexts enabled tabs projects languages (sp_documentContext p))"
    using scheduled_contexts [of env s request] assms by (auto simp: streams_added_def list_all_iff)
  with contexts_within_limit show ?thesis by blast
qed

text \<open>The server's post-processing of the answer of the instance, a pair with a schema key.\<close>

definition demo_post_env :: "unit service_env" where
  "demo_post_env =
     (demo_service_env False)\<lparr>ve_post := \<lambda>c os. Inr (the (post_completion demo_post c os)),
       ve_pipeline := \<lambda>c s. (Inr (Some \<lparr>sr_choices = Some [so_text demo_schema_option], sr_model = None, sr_status = 200,
                              sr_error = None, sr_isDirectConnection = None\<rparr>), s)\<rparr>"

theorem service_events_accepted_witness:
  "(\<exists>outs. v_out (snd (handleNonStreaming demo_post_env demo_completion demo_json None demo_service)) = outs \<and>
    fst (track_run ''i'' False (events_of ''u'' outs) [(''i'', REQUESTED)]) = events_of ''u'' outs) \<and>
   map_option (map so_text) (post_completion demo_post demo_json [demo_schema_option]) =
     Some [CHR 0x22 # ''$schema'' @ CHR 0x22 # '': '' @ CHR 0x22 # URL_PLACEHOLDER @ [CHR 0x22]] \<and>
   length (findSchemaNodes (demo_json_parse (whole_text demo_json (so_text demo_schema_option)))) = 1"
proof (intro conjI)
  have "post_completion demo_post demo_json os = Some r \<Longrightarrow> ve_post demo_post_env demo_json os = Inr r" for os r
    by (simp add: demo_post_env_def)
  from service_events_accepted [OF demo_parser_ok this, of demo_completion None demo_service "''i''"]
  show "\<exists>outs. v_out (snd (handleNonStreaming demo_post_env demo_completion demo_json None demo_service)) = outs \<and>
    fst (track_run ''i'' False (events_of ''u'' outs) [(''i'', REQUESTED)]) = events_of ''u'' outs"
    by (simp add: demo_post_env_def [THEN arg_cong, of ve_uuid]
        demo_service_env_def [of False, THEN arg_cong, of ve_uuid] demo_service_def)
  show "length (findSchemaNodes (demo_json_parse (whole_text demo_json (so_text demo_schema_option)))) = 1" by code_simp
qed (rule demo_schema_replaced)

definition demo_tabs :: tab_cache where
  "demo_tabs = [(''b'', demo_pre_doc\<lparr>dc_uri := ''b'', dc_languageId := ''ruby''\<rparr>)]"

definition demo_stream_service_env :: "unit service_env" where
  "demo_stream_service_env =
     (demo_service_env False)\<lparr>ve_streamFlag := True,
       ve_parseFile := \<lambda>c. Inr (Some \<lparr>tr_languageName = ''go'', tr_comments = None, tr_functions = None, tr_python = []\<rparr>),
       ve_additionalContexts := getAdditionalContexts True demo_tabs (pc_new :: string project_cache)
                                  (sl_new :: string supported_languages)\<rparr>"

definition demo_inline :: completion_request where
  "demo_inline = demo_completion\<lparr>cq_context := Some \<lparr>ic_triggerKind = Automatic, ic_selectedCompletionInfo = None\<rparr>\<rparr>"

lemma demo_stream_scheduled:
  "\<exists>p. v_scheduled (snd (v_getSuggestionOptions demo_stream_service_env demo_inline demo_service)) = [p]"
  by (simp add: demo_stream_service_env_def demo_service_env_def demo_inline_def demo_completion_def demo_service_def
      v_getSuggestionOptions_def dts_getContext_def getDocContext_def Let_def triggerKind_def
      useAndTrackCachedSuggestions_def sc_getCachedSuggestions_def sc_getCurrentConfig_def DEFAULT_CONFIG_def
      automatic_request_def v_getIntent_def demo_doc_def
      handleStreaming_def newTrackingId_def getIntent_def getCommentForCursor_def isSmallFile_def
      getTotalCommentLines_def shouldRejectCompletion_def or_else_def getMatchingWorkspaceFolder_def
      comment_rows_def getTotalNonEmptyLines_def)

theorem stream_contexts_within_limit_witness:
  "\<exists>p cs. v_scheduled (snd (v_getSuggestionOptions demo_stream_service_env demo_inline demo_service)) = [p] \<and>
    sp_additionalContexts p = Some cs \<and> (cs = [] \<or> (\<Sum>c\<leftarrow>cs. getByteSize (ac_content c)) \<le> 50000 + 2)"
proof -
  obtain p where p: "v_scheduled (snd (v_getSuggestionOptions demo_stream_service_env demo_inline demo_service)) = [p]"
    using demo_stream_scheduled by blast
  have "ve_additionalContexts demo_stream_service_env =
      getAdditionalContexts True demo_tabs (pc_new :: string project_cache) (sl_new :: string supported_languages)"
    by (simp add: demo_stream_service_env_def)
  from stream_contexts_within_limit [OF this, of p demo_service demo_inline] p show ?thesis
    by (auto simp: demo_service_def)
qed

end
